(* ===== verification/Prelude.thy ===== *)
theory Prelude
  imports Complex_Main "HOL-Library.AList" "HOL-Library.Multiset"
begin

text \<open>
  What every component of the model shares: the JavaScript values the program receives
  from devices, from the cloud and from its own HTTP clients, with the coercions the source applies to
  them (\<open>Number\<close>, \<open>String\<close>, truthiness, \<open>?.\<close>, \<open>??\<close>, \<open>Math.round\<close>), the string operations of
  the standard library the source calls, and the insertion-ordered \<open>Map\<close>.

  Conventions.
  \<^item> A number is an exact rational, or one of \<open>NaN\<close>, \<open>Infinity\<close>, \<open>-Infinity\<close>; rounding and
    overflow of doubles and the sign of zero are not modelled.
  \<^item> A string is a list of UTF-16 code units below 256; the source's only literal outside that
    range is the ellipsis in redacted tokens, which the model keeps as a pair of strings.
  \<^item> A JSON object is an association list with the keys in insertion order. Members inherited
    from a prototype are not modelled; no key the source reads by name is one.
  \<^item> A thrown \<open>Error\<close> is its message, as \<open>Inl\<close> of a sum.
\<close>

named_theorems js_simps \<open>evaluation of JavaScript coercions\<close>
named_theorems map_simps \<open>lookup, update and deletion in insertion-ordered maps\<close>

section \<open>Results\<close>

type_synonym 'a result = "string + 'a"

fun is_ok :: "'a result \<Rightarrow> bool" where
  "is_ok (Inr _) = True"
| "is_ok (Inl _) = False"

fun and_then :: "'a result \<Rightarrow> ('a \<Rightarrow> 'b result) \<Rightarrow> 'b result" where
  "and_then (Inl e) f = Inl e"
| "and_then (Inr x) f = f x"

lemma and_then_Inr: "and_then m f = Inr y \<longleftrightarrow> (\<exists>x. m = Inr x \<and> f x = Inr y)"
  by (cases m) auto

lemma and_then_Inl: "and_then m f = Inl e \<longleftrightarrow> m = Inl e \<or> (\<exists>x. m = Inr x \<and> f x = Inl e)"
  by (cases m) auto

definition or_else :: "'a option \<Rightarrow> 'a \<Rightarrow> 'a" where
  "or_else x d = (case x of None \<Rightarrow> d | Some y \<Rightarrow> y)"

lemma or_else_simps [simp]: "or_else None d = d" "or_else (Some y) d = y"
  by (simp_all add: or_else_def)

text \<open>The first defined value, the left operand of a chain of \<open>??\<close>.\<close>

definition first_some :: "'a option \<Rightarrow> 'a option \<Rightarrow> 'a option" where
  "first_some x y = (case x of None \<Rightarrow> y | Some _ \<Rightarrow> x)"

lemma first_some_simps [simp]: "first_some None y = y" "first_some (Some x) y = Some x"
  by (simp_all add: first_some_def)

section \<open>Characters and strings\<close>

definition code_of :: "char \<Rightarrow> nat" where
  "code_of c = of_char c"

definition is_space :: "char \<Rightarrow> bool" where
  "is_space c \<longleftrightarrow> (let n = code_of c in (9 \<le> n \<and> n \<le> 13) \<or> n = 32 \<or> n = 160)"

definition is_digit :: "char \<Rightarrow> bool" where
  "is_digit c \<longleftrightarrow> 48 \<le> code_of c \<and> code_of c \<le> 57"

definition lower_char :: "char \<Rightarrow> char" where
  "lower_char c = (let n = code_of c in
     if (65 \<le> n \<and> n \<le> 90) \<or> (192 \<le> n \<and> n \<le> 222 \<and> n \<noteq> 215) then char_of (n + 32) else c)"

definition upper_char :: "char \<Rightarrow> char" where
  "upper_char c = (let n = code_of c in
     if (97 \<le> n \<and> n \<le> 122) \<or> (224 \<le> n \<and> n \<le> 254 \<and> n \<noteq> 247) then char_of (n - 32) else c)"

definition to_lower :: "string \<Rightarrow> string" where
  "to_lower s = map lower_char s"

definition to_upper :: "string \<Rightarrow> string" where
  "to_upper s = map upper_char s"

definition trim_left :: "string \<Rightarrow> string" where
  "trim_left s = dropWhile is_space s"

definition trim :: "string \<Rightarrow> string" where
  "trim s = rev (trim_left (rev (trim_left s)))"

definition starts_with :: "string \<Rightarrow> string \<Rightarrow> bool" where
  "starts_with p s \<longleftrightarrow> take (length p) s = p"

fun str_includes :: "string \<Rightarrow> string \<Rightarrow> bool" where
  "str_includes p [] = (p = [])"
| "str_includes p (c # s) = (starts_with p (c # s) \<or> str_includes p s)"

fun split_on :: "char \<Rightarrow> string \<Rightarrow> string list" where
  "split_on c [] = [[]]"
| "split_on c (x # xs) =
     (if x = c then [] # split_on c xs
      else case split_on c xs of [] \<Rightarrow> [[x]] | w # ws \<Rightarrow> (x # w) # ws)"

fun join_with :: "string \<Rightarrow> string list \<Rightarrow> string" where
  "join_with sep [] = []"
| "join_with sep [w] = w"
| "join_with sep (w # ws) = w @ sep @ join_with sep ws"

text \<open>\<open>slice(0, n)\<close> and \<open>slice(-n)\<close>.\<close>

definition slice_end :: "nat \<Rightarrow> string \<Rightarrow> string" where
  "slice_end n s = drop (length s - n) s"

lemma trim_ends:
  assumes "s \<noteq> []" "\<not> is_space (hd s)" "\<not> is_space (last s)"
  shows "trim s = s"
proof -
  have left: "trim_left t = t" if "t \<noteq> []" "\<not> is_space (hd t)" for t
    using that by (cases t) (simp_all add: trim_left_def)
  from assms show ?thesis by (simp add: trim_def left hd_rev)
qed

section \<open>Numerals\<close>

definition digit_char :: "nat \<Rightarrow> char" where
  "digit_char d = char_of (48 + d)"

fun dec_of_nat :: "nat \<Rightarrow> string" where
  "dec_of_nat n = (if n < 10 then [digit_char n] else dec_of_nat (n div 10) @ [digit_char (n mod 10)])"

declare dec_of_nat.simps [simp del]

definition dec_of_int :: "int \<Rightarrow> string" where
  "dec_of_int i = (if i < 0 then CHR ''-'' # dec_of_nat (nat (- i)) else dec_of_nat (nat i))"

definition digit_val :: "char \<Rightarrow> nat" where
  "digit_val c = code_of c - 48"

definition nat_of_digits :: "string \<Rightarrow> nat" where
  "nat_of_digits ds = foldl (\<lambda>a c. 10 * a + digit_val c) 0 ds"

text \<open>An optional sign before a numeral.\<close>

definition split_sign :: "string \<Rightarrow> int \<times> string" where
  "split_sign s = (case s of
       [] \<Rightarrow> (1, [])
     | c # t \<Rightarrow> if c = CHR ''-'' then (- 1, t) else if c = CHR ''+'' then (1, t) else (1, s))"

text \<open>\<open>Number.parseInt(s, 10)\<close>: leading space, a sign, the longest run of digits; \<open>None\<close> is \<open>NaN\<close>.\<close>

definition parse_int :: "string \<Rightarrow> int option" where
  "parse_int s = (let (sg, t) = split_sign (trim_left s);
       ds = takeWhile is_digit t
     in if ds = [] then None else Some (sg * int (nat_of_digits ds)))"

lemma code_of_digit_char [simp]: "d < 10 \<Longrightarrow> code_of (digit_char d) = 48 + d"
  by (simp add: code_of_def digit_char_def)

lemma is_digit_digit_char [simp]: "d < 10 \<Longrightarrow> is_digit (digit_char d)"
  by (simp add: is_digit_def)

lemma digit_val_digit_char [simp]: "d < 10 \<Longrightarrow> digit_val (digit_char d) = d"
  by (simp add: digit_val_def)

lemma dec_of_nat_digits: "list_all is_digit (dec_of_nat n)"
  by (induction n rule: dec_of_nat.induct) (subst dec_of_nat.simps, simp)

lemma dec_of_nat_nonempty [simp]: "dec_of_nat n \<noteq> []"
  by (subst dec_of_nat.simps) simp

lemma nat_of_digits_snoc: "nat_of_digits (ds @ [c]) = 10 * nat_of_digits ds + digit_val c"
  by (simp add: nat_of_digits_def)

lemma nat_of_digits_dec [simp]: "nat_of_digits (dec_of_nat n) = n"
proof (induction n rule: dec_of_nat.induct)
  case (1 n)
  then show ?case
    by (cases "n < 10")
      (simp_all add: dec_of_nat.simps [of n] nat_of_digits_snoc, simp add: nat_of_digits_def)
qed

lemma digit_not_special:
  assumes "is_digit c"
  shows "\<not> is_space c" "c \<noteq> CHR ''-''" "c \<noteq> CHR ''+''" "c \<noteq> CHR ''.''" "c \<noteq> CHR 0x2F"
  using assms by (auto simp: is_digit_def is_space_def code_of_def Let_def)

lemma parse_int_dec_of_nat [simp]: "parse_int (dec_of_nat n) = Some (int n)"
proof -
  obtain c ds where d: "dec_of_nat n = c # ds" by (cases "dec_of_nat n") auto
  then have c: "is_digit c" using dec_of_nat_digits [of n] by simp
  have tw: "takeWhile is_digit (c # ds) = c # ds"
    using dec_of_nat_digits [of n] d by (simp add: list_all_iff)
  have tl: "trim_left (c # ds) = c # ds"
    by (simp add: trim_left_def digit_not_special [OF c])
  show ?thesis
    using digit_not_special [OF c] nat_of_digits_dec [of n] tw
    unfolding d parse_int_def tl by (simp add: split_sign_def)
qed

lemma split_on_append: "c \<notin> set xs \<Longrightarrow> split_on c (xs @ c # ys) = xs # split_on c ys"
  by (induction xs) auto

lemma split_on_none: "c \<notin> set xs \<Longrightarrow> split_on c xs = [xs]"
  by (induction xs) auto

lemma dec_of_nat_no_dot [simp]: "CHR ''.'' \<notin> set (dec_of_nat n)"
  and dec_of_nat_no_slash [simp]: "CHR 0x2F \<notin> set (dec_of_nat n)"
  using dec_of_nat_digits [of n] digit_not_special(4) digit_not_special(5) unfolding list_all_iff by blast+

text \<open>The value of a digit in a radix up to 36, or \<open>None\<close>.\<close>

definition radix_val :: "nat \<Rightarrow> char \<Rightarrow> nat option" where
  "radix_val r c = (let n = code_of c;
       v = (if 48 \<le> n \<and> n \<le> 57 then n - 48
            else if 97 \<le> n \<and> n \<le> 122 then n - 87
            else if 65 \<le> n \<and> n \<le> 90 then n - 55 else 99)
     in if v < r then Some v else None)"

definition nat_of_radix :: "nat \<Rightarrow> string \<Rightarrow> nat" where
  "nat_of_radix r ds = foldl (\<lambda>a c. r * a + or_else (radix_val r c) 0) 0 ds"

definition all_radix :: "nat \<Rightarrow> string \<Rightarrow> bool" where
  "all_radix r ds \<longleftrightarrow> ds \<noteq> [] \<and> list_all (\<lambda>c. radix_val r c \<noteq> None) ds"

section \<open>JavaScript values\<close>

datatype jsnum = Fin rat | NaN | PosInf | NegInf

datatype jsval =
    JUndef
  | JNull
  | JBool bool
  | JNum jsnum
  | JStr string
  | JArr "jsval list"
  | JObj "(string \<times> jsval) list"

abbreviation js_int :: "int \<Rightarrow> jsval" where
  "js_int i \<equiv> JNum (Fin (of_int i))"

definition js_rat :: "rat \<Rightarrow> jsval" where
  "js_rat r = JNum (Fin r)"

fun truthy :: "jsval \<Rightarrow> bool" where
  "truthy JUndef = False"
| "truthy JNull = False"
| "truthy (JBool b) = b"
| "truthy (JNum n) = (n \<noteq> NaN \<and> n \<noteq> Fin 0)"
| "truthy (JStr s) = (s \<noteq> [])"
| "truthy (JArr _) = True"
| "truthy (JObj _) = True"

fun nullish :: "jsval \<Rightarrow> bool" where
  "nullish JUndef = True"
| "nullish JNull = True"
| "nullish _ = False"

text \<open>\<open>a ?? b\<close>\<close>

definition nn :: "jsval \<Rightarrow> jsval \<Rightarrow> jsval" where
  "nn a b = (if nullish a then b else a)"

text \<open>\<open>v?.k\<close> for a key that is neither an index nor \<open>length\<close>: only objects have such members.\<close>

fun field :: "jsval \<Rightarrow> string \<Rightarrow> jsval" where
  "field (JObj kvs) k = (case map_of kvs k of None \<Rightarrow> JUndef | Some v \<Rightarrow> v)"
| "field _ k = JUndef"

text \<open>\<open>v?.k1?.k2 ...\<close>\<close>

fun path :: "jsval \<Rightarrow> string list \<Rightarrow> jsval" where
  "path v [] = v"
| "path v (k # ks) = path (field v k) ks"

text \<open>\<open>k in v\<close> for an object.\<close>

fun has_key :: "jsval \<Rightarrow> string \<Rightarrow> bool" where
  "has_key (JObj kvs) k = (k \<in> set (map fst kvs))"
| "has_key _ k = False"

text \<open>\<open>v.k = x\<close> on an object.\<close>

fun set_field :: "jsval \<Rightarrow> string \<Rightarrow> jsval \<Rightarrow> jsval" where
  "set_field (JObj kvs) k x = JObj (AList.update k x kvs)"
| "set_field v k x = v"

text \<open>\<open>Boolean(v && typeof v === 'object' && !Array.isArray(v))\<close>, the source's \<open>isRecord\<close>.\<close>

fun is_record :: "jsval \<Rightarrow> bool" where
  "is_record (JObj _) = True"
| "is_record _ = False"

text \<open>\<open>Boolean(v && typeof v === 'object')\<close>: arrays count.\<close>

fun is_object :: "jsval \<Rightarrow> bool" where
  "is_object (JObj _) = True"
| "is_object (JArr _) = True"
| "is_object _ = False"

fun is_string :: "jsval \<Rightarrow> bool" where
  "is_string (JStr _) = True"
| "is_string _ = False"

text \<open>\<open>Array.isArray(c) ? c : [c]\<close>\<close>

fun as_array :: "jsval \<Rightarrow> jsval list" where
  "as_array (JArr vs) = vs"
| "as_array v = [v]"

lemma path_append: "path v (ks @ ls) = path (path v ks) ls"
  by (induction ks arbitrary: v) simp_all

lemma path_undef [simp]: "path JUndef ks = JUndef"
  by (induction ks) simp_all

lemma field_set_field [simp]:
  "is_record v \<Longrightarrow> field (set_field v k x) j = (if j = k then x else field v j)"
  by (cases v) (simp_all add: update_conv')

lemma is_record_set_field [simp]: "is_record (set_field v k x) = is_record v"
  by (cases v) simp_all

lemma field_not_record [simp]: "\<not> is_record v \<Longrightarrow> field v k = JUndef"
  by (cases v) simp_all

section \<open>Number and String\<close>

text \<open>\<open>String(n)\<close>. Fractions print their decimal expansion, cut after 17 places.\<close>

fun frac_digits :: "nat \<Rightarrow> rat \<Rightarrow> string" where
  "frac_digits 0 f = []"
| "frac_digits (Suc n) f =
     (if f = 0 then []
      else digit_char (nat \<lfloor>10 * f\<rfloor>) # frac_digits n (10 * f - of_int \<lfloor>10 * f\<rfloor>))"

definition str_of_rat :: "rat \<Rightarrow> string" where
  "str_of_rat r = (let a = \<bar>r\<bar>; f = a - of_int \<lfloor>a\<rfloor> in
     (if r < 0 then ''-'' else []) @ dec_of_int \<lfloor>a\<rfloor> @ (if f = 0 then [] else ''.'' @ frac_digits 17 f))"

fun str_of_num :: "jsnum \<Rightarrow> string" where
  "str_of_num (Fin r) = str_of_rat r"
| "str_of_num NaN = ''NaN''"
| "str_of_num PosInf = ''Infinity''"
| "str_of_num NegInf = ''-Infinity''"

text \<open>\<open>String(v)\<close>; an array joins its elements with commas, a missing one as the empty string.\<close>

fun str_of :: "jsval \<Rightarrow> string" where
  "str_of JUndef = ''undefined''"
| "str_of JNull = ''null''"
| "str_of (JBool b) = (if b then ''true'' else ''false'')"
| "str_of (JNum n) = str_of_num n"
| "str_of (JStr s) = s"
| "str_of (JArr vs) = join_with '','' (map (\<lambda>v. if nullish v then [] else str_of v) vs)"
| "str_of (JObj _) = ''[object Object]''"

text \<open>\<open>Number(s)\<close> of a string: the \<open>StringNumericLiteral\<close> grammar.\<close>

definition pow10 :: "int \<Rightarrow> rat" where
  "pow10 e = (if 0 \<le> e then 10 ^ nat e else 1 / 10 ^ nat (- e))"

definition parse_exponent :: "string \<Rightarrow> int option" where
  "parse_exponent s = (case s of
       [] \<Rightarrow> Some 0
     | c # t \<Rightarrow>
         if c = CHR ''e'' \<or> c = CHR ''E'' then
           (let (sg, ds) = split_sign t
            in if ds \<noteq> [] \<and> list_all is_digit ds then Some (sg * int (nat_of_digits ds)) else None)
         else None)"

definition parse_unsigned :: "string \<Rightarrow> jsnum" where
  "parse_unsigned s =
     (if s = ''Infinity'' then PosInf else
      let ip = takeWhile is_digit s; r1 = dropWhile is_digit s;
          (fp, r2) = (if starts_with ''.'' r1 then (takeWhile is_digit (tl r1), dropWhile is_digit (tl r1)) else ([], r1))
      in if ip = [] \<and> fp = [] then NaN
         else case parse_exponent r2 of
             None \<Rightarrow> NaN
           | Some e \<Rightarrow> Fin (of_nat (nat_of_digits (ip @ fp)) * pow10 (e - int (length fp))))"

fun neg_num :: "jsnum \<Rightarrow> jsnum" where
  "neg_num (Fin r) = Fin (- r)"
| "neg_num NaN = NaN"
| "neg_num PosInf = NegInf"
| "neg_num NegInf = PosInf"

definition num_of_str :: "string \<Rightarrow> jsnum" where
  "num_of_str s0 = (let s = trim s0; p = to_lower (take 2 s); d = drop 2 s in
     if s = [] then Fin 0
     else if p = ''0x'' then (if all_radix 16 d then Fin (of_nat (nat_of_radix 16 d)) else NaN)
     else if p = ''0o'' then (if all_radix 8 d then Fin (of_nat (nat_of_radix 8 d)) else NaN)
     else if p = ''0b'' then (if all_radix 2 d then Fin (of_nat (nat_of_radix 2 d)) else NaN)
     else let (sg, t) = split_sign s in if sg = - 1 then neg_num (parse_unsigned t) else parse_unsigned t)"

text \<open>\<open>Number(v)\<close>; arrays and objects are coerced through their string.\<close>

fun num_of :: "jsval \<Rightarrow> jsnum" where
  "num_of JUndef = NaN"
| "num_of JNull = Fin 0"
| "num_of (JBool b) = Fin (if b then 1 else 0)"
| "num_of (JNum n) = n"
| "num_of (JStr s) = num_of_str s"
| "num_of (JArr vs) = num_of_str (str_of (JArr vs))"
| "num_of (JObj _) = NaN"

text \<open>\<open>Number.isFinite\<close> and \<open>Number.isInteger\<close>, as the value when they hold.\<close>

fun finite_num :: "jsnum \<Rightarrow> rat option" where
  "finite_num (Fin r) = Some r"
| "finite_num _ = None"

fun integer_num :: "jsnum \<Rightarrow> int option" where
  "integer_num (Fin r) = (if of_int \<lfloor>r\<rfloor> = r then Some \<lfloor>r\<rfloor> else None)"
| "integer_num _ = None"

text \<open>\<open>Math.round\<close> rounds halves up; \<open>Math.max\<close> and \<open>Math.min\<close> propagate \<open>NaN\<close>.\<close>

definition js_round :: "rat \<Rightarrow> int" where
  "js_round r = \<lfloor>r + 1 / 2\<rfloor>"

fun js_max :: "jsnum \<Rightarrow> jsnum \<Rightarrow> jsnum" where
  "js_max NaN _ = NaN"
| "js_max _ NaN = NaN"
| "js_max PosInf _ = PosInf"
| "js_max _ PosInf = PosInf"
| "js_max NegInf y = y"
| "js_max x NegInf = x"
| "js_max (Fin x) (Fin y) = Fin (max x y)"

lemma js_round_of_int [simp]: "js_round (of_int i) = i"
  unfolding js_round_def by linarith

lemma js_round_numeral [simp]:
  "js_round (numeral n) = numeral n" "js_round 0 = 0" "js_round 1 = 1"
  using js_round_of_int [of "numeral n"] js_round_of_int [of 0] js_round_of_int [of 1] by simp_all

lemma js_round_mono: "x \<le> y \<Longrightarrow> js_round x \<le> js_round y"
  unfolding js_round_def by (intro floor_mono) simp

lemma js_round_error: "\<bar>of_int (js_round r) - r\<bar> \<le> 1 / 2"
  unfolding js_round_def by linarith

lemma integer_num_of_int [simp]: "integer_num (Fin (of_int i)) = Some i"
  by simp

lemma integer_num_SomeD: "integer_num n = Some i \<Longrightarrow> n = Fin (of_int i)"
  by (cases n) (auto split: if_splits)

text \<open>The channel checks of the source, \<open>Number.isInteger(channel) && channel >= 0\<close>.\<close>

definition channel_num :: "jsval \<Rightarrow> int option" where
  "channel_num v = (case integer_num (num_of v) of
     None \<Rightarrow> None | Some i \<Rightarrow> if i < 0 then None else Some i)"

lemma channel_num_nonneg: "channel_num v = Some c \<Longrightarrow> 0 \<le> c"
  by (auto simp: channel_num_def split: option.splits if_splits)

text \<open>\<open>Number(v) === 1 ? 1 : 0\<close>\<close>

definition onoff_of :: "jsval \<Rightarrow> nat" where
  "onoff_of v = (if num_of v = Fin 1 then 1 else 0)"

lemma onoff_of_le_1 [simp]: "onoff_of v \<le> Suc 0"
  by (simp add: onoff_of_def)

lemmas js_eval = channel_num_def onoff_of_def nn_def

declare js_round_def [js_simps] and js_eval [js_simps]

section \<open>Insertion-ordered maps\<close>

text \<open>
  A JavaScript \<open>Map\<close> (and an object used as a dictionary) as an association list with distinct
  keys: \<open>set\<close> overwrites in place or appends, \<open>delete\<close> removes, iteration follows the list.
\<close>

type_synonym ('k, 'v) jsmap = "('k \<times> 'v) list"

definition map_ok :: "('k, 'v) jsmap \<Rightarrow> bool" where
  "map_ok m \<longleftrightarrow> distinct (map fst m)"

abbreviation map_get :: "('k, 'v) jsmap \<Rightarrow> 'k \<Rightarrow> 'v option" where
  "map_get \<equiv> map_of"

abbreviation map_set :: "'k \<Rightarrow> 'v \<Rightarrow> ('k, 'v) jsmap \<Rightarrow> ('k, 'v) jsmap" where
  "map_set \<equiv> AList.update"

definition map_del :: "'k \<Rightarrow> ('k, 'v) jsmap \<Rightarrow> ('k, 'v) jsmap" where
  "map_del k m = filter (\<lambda>p. fst p \<noteq> k) m"

abbreviation map_keys :: "('k, 'v) jsmap \<Rightarrow> 'k list" where
  "map_keys m \<equiv> map fst m"

definition map_has :: "('k, 'v) jsmap \<Rightarrow> 'k \<Rightarrow> bool" where
  "map_has m k \<longleftrightarrow> map_get m k \<noteq> None"

lemma map_get_set [simp, map_simps]: "map_get (map_set k v m) j = (if j = k then Some v else map_get m j)"
  by (simp add: update_conv')

lemma map_get_del [simp, map_simps]: "map_get (map_del k m) j = (if j = k then None else map_get m j)"
  by (induction m) (auto simp: map_del_def)

lemma map_ok_nil [simp]: "map_ok []"
  by (simp add: map_ok_def)

lemma map_ok_set [simp, map_simps]: "map_ok m \<Longrightarrow> map_ok (map_set k v m)"
  by (simp add: map_ok_def distinct_update)

lemma map_ok_del [simp, map_simps]: "map_ok m \<Longrightarrow> map_ok (map_del k m)"
  by (simp add: map_ok_def map_del_def distinct_map_filter)

lemma map_has_iff: "map_has m k \<longleftrightarrow> k \<in> set (map_keys m)"
  by (simp add: map_has_def map_of_eq_None_iff)

lemma map_keys_set [map_simps]:
  "map_keys (map_set k v m) = (if map_has m k then map_keys m else map_keys m @ [k])"
  by (induction m) (auto simp: map_has_def)

lemma set_map_keys_set [map_simps]: "set (map_keys (map_set k v m)) = insert k (set (map_keys m))"
  by (auto simp: map_keys_set map_has_iff)

lemma map_keys_del [map_simps]: "map_keys (map_del k m) = filter (\<lambda>j. j \<noteq> k) (map_keys m)"
  by (induction m) (auto simp: map_del_def)

lemma length_map_del_le: "length (map_del k m) \<le> length m"
  by (simp add: map_del_def)

lemma length_map_set_le: "length (map_set k v m) \<le> Suc (length m)"
  by (induction m) auto

section \<open>Keyed stores\<close>

text \<open>
  The interface of everything the program looks up by a key and writes by a key: a dictionary, a table
  with a primary key, the states of a screen. Reading after a write is all its clients rely on.
  \<open>put_all\<close> writes the entries of a list, those that have a key; the last write of a key wins.
\<close>

locale keyed_store =
  fixes get :: "'s \<Rightarrow> 'k \<Rightarrow> 'v option" and put :: "'k \<Rightarrow> 'v \<Rightarrow> 's \<Rightarrow> 's"
  assumes get_put: "get (put k v s) j = (if j = k then Some v else get s j)"
begin

definition put_entry :: "('x \<Rightarrow> ('k \<times> 'v) option) \<Rightarrow> 'x \<Rightarrow> 's \<Rightarrow> 's" where
  "put_entry entry x s = (case entry x of None \<Rightarrow> s | Some (k, v) \<Rightarrow> put k v s)"

definition put_all :: "('x \<Rightarrow> ('k \<times> 'v) option) \<Rightarrow> 'x list \<Rightarrow> 's \<Rightarrow> 's" where
  "put_all entry = fold (put_entry entry)"

text \<open>The last element of a list with an entry for a key.\<close>

definition last_for :: "('x \<Rightarrow> ('k \<times> 'v) option) \<Rightarrow> 'x list \<Rightarrow> 'k \<Rightarrow> 'x option" where
  "last_for entry xs k = find (\<lambda>x. map_option fst (entry x) = Some k) (rev xs)"

lemma get_put_entry:
  "get (put_entry entry x s) k = (if map_option fst (entry x) = Some k then map_option snd (entry x) else get s k)"
  by (auto simp: put_entry_def get_put split: option.split)

lemma get_put_all:
  "get (put_all entry xs s) k = (case last_for entry xs k of None \<Rightarrow> get s k | Some x \<Rightarrow> map_option snd (entry x))"
  by (induction xs rule: rev_induct) (auto simp: put_all_def last_for_def get_put_entry)

lemma put_all_twice: "get (put_all entry xs (put_all entry xs s)) k = get (put_all entry xs s) k"
  by (simp add: get_put_all split: option.split)

lemma put_all_keeps: "(\<And>x. x \<in> set xs \<Longrightarrow> map_option fst (entry x) \<noteq> Some k) \<Longrightarrow> get (put_all entry xs s) k = get s k"
  by (auto simp: get_put_all last_for_def find_Some_iff split: option.split) (metis nth_mem length_rev set_rev)

lemma put_all_overlay:
  assumes "\<And>k. get e k = None"
  shows "get (put_all entry xs s) k = (case get (put_all entry xs e) k of None \<Rightarrow> get s k | Some v \<Rightarrow> Some v)"
proof (cases "last_for entry xs k")
  case (Some x)
  then have "entry x \<noteq> None" by (auto simp: last_for_def find_Some_iff)
  with Some show ?thesis by (auto simp: get_put_all)
qed (simp add: get_put_all assms)

end

interpretation dict: keyed_store map_get map_set
  by unfold_locales simp

lemma find_found: "find P xs = Some x \<Longrightarrow> P x \<and> x \<in> set xs"
  by (induction xs) (auto split: if_splits)

end
