(* ===== verification/JsSort.thy ===== *)
theory JsSort
  imports Prelude
begin

text \<open>
  \<open>Array.prototype.sort(cmp)\<close>. The language asks for a stable sort and leaves the result open
  when the comparator is not a consistent one. The routine here is an insertion sort; the locale
  \<open>comparator\<close> states consistency, and inside it every stable sorted permutation is equal to the
  routine's result (\<open>sort_unique\<close>), so the choice of algorithm does not matter wherever the
  source's comparators are shown to be consistent.

  A comparator returns an integer, negative, zero or positive. \<open>String.prototype.localeCompare\<close>
  orders strings by the host's collation: it is a parameter of the definitions that use it, and
  the locale \<open>collation\<close> states what the standard promises of it, a consistent comparator.
\<close>

fun insort_cmp :: "('a \<Rightarrow> 'a \<Rightarrow> int) \<Rightarrow> 'a \<Rightarrow> 'a list \<Rightarrow> 'a list" where
  "insort_cmp cmp x [] = [x]"
| "insort_cmp cmp x (y # ys) = (if cmp x y \<le> 0 then x # y # ys else y # insort_cmp cmp x ys)"

definition js_sort :: "('a \<Rightarrow> 'a \<Rightarrow> int) \<Rightarrow> 'a list \<Rightarrow> 'a list" where
  "js_sort cmp xs = foldr (insort_cmp cmp) xs []"

lemma js_sort_Nil [simp]: "js_sort cmp [] = []"
  by (simp add: js_sort_def)

lemma js_sort_Cons [simp]: "js_sort cmp (x # xs) = insort_cmp cmp x (js_sort cmp xs)"
  by (simp add: js_sort_def)

lemma mset_insort_cmp [simp]: "mset (insort_cmp cmp x ys) = add_mset x (mset ys)"
  by (induction ys) auto

lemma mset_js_sort [simp]: "mset (js_sort cmp xs) = mset xs"
  by (induction xs) auto

lemma set_js_sort [simp]: "set (js_sort cmp xs) = set xs"
  by (metis mset_js_sort set_mset_mset)

lemma length_js_sort [simp]: "length (js_sort cmp xs) = length xs"
  by (metis mset_js_sort size_mset)

lemma distinct_js_sort [simp]: "distinct (js_sort cmp xs) = distinct xs"
  by (metis mset_js_sort distinct_count_atmost_1 set_mset_mset)

lemma js_sort_eq_Nil [simp]: "js_sort cmp xs = [] \<longleftrightarrow> xs = []"
  using length_js_sort [of cmp xs] by (metis length_0_conv)

section \<open>Consistent comparators\<close>

locale comparator =
  fixes cmp :: "'a \<Rightarrow> 'a \<Rightarrow> int"
  assumes cmp_swap: "sgn (cmp x y) = - sgn (cmp y x)"
    and cmp_trans: "cmp x y \<le> 0 \<Longrightarrow> cmp y z \<le> 0 \<Longrightarrow> cmp x z \<le> 0"
begin

lemma cmp_refl: "cmp x x = 0"
  using cmp_swap [of x x] by (simp add: sgn_if split: if_splits)

lemma cmp_total: "cmp x y \<le> 0 \<or> cmp y x \<le> 0"
  using cmp_swap [of x y] by (auto simp: sgn_if split: if_splits)

lemma cmp_eq_sym: "cmp x y = 0 \<Longrightarrow> cmp y x = 0"
  using cmp_swap [of x y] by (simp add: sgn_if split: if_splits)

lemma cmp_le_iff: "cmp x y \<le> 0 \<longleftrightarrow> \<not> cmp y x < 0"
  using cmp_swap [of x y] by (auto simp: sgn_if split: if_splits)

lemma sorted_insort:
  "sorted_wrt (\<lambda>a b. cmp a b \<le> 0) ys \<Longrightarrow> sorted_wrt (\<lambda>a b. cmp a b \<le> 0) (insort_cmp cmp x ys)"
proof (induction ys)
  case Nil
  then show ?case by simp
next
  case (Cons y ys)
  show ?case
  proof (cases "cmp x y \<le> 0")
    case True
    with Cons.prems show ?thesis by (auto intro: cmp_trans)
  next
    case False
    then have "cmp y x \<le> 0" using cmp_total by blast
    moreover have "set (insort_cmp cmp x ys) = insert x (set ys)"
      by (metis mset_insort_cmp set_mset_add_mset_insert set_mset_mset)
    ultimately show ?thesis using False Cons by simp
  qed
qed

lemma sorted_js_sort: "sorted_wrt (\<lambda>a b. cmp a b \<le> 0) (js_sort cmp xs)"
  by (induction xs) (simp_all add: sorted_insort)

lemma filter_insort:
  "filter (\<lambda>b. cmp a b = 0) (insort_cmp cmp x ys) =
     (if cmp a x = 0 then x # filter (\<lambda>b. cmp a b = 0) ys else filter (\<lambda>b. cmp a b = 0) ys)"
proof (induction ys)
  case (Cons y ys)
  have "cmp x y = 0" if "cmp a x = 0" "cmp a y = 0"
  proof -
    from that have "cmp x a \<le> 0" "cmp y a \<le> 0" by (simp_all add: cmp_eq_sym)
    then have "cmp x y \<le> 0" "cmp y x \<le> 0" using that by (auto intro: cmp_trans)
    then show ?thesis using cmp_le_iff [of y x] by simp
  qed
  with Cons show ?case by auto
qed simp

lemma stable_js_sort: "filter (\<lambda>b. cmp a b = 0) (js_sort cmp xs) = filter (\<lambda>b. cmp a b = 0) xs"
  by (induction xs) (simp_all add: filter_insort)

text \<open>A stable sorted permutation is unique.\<close>

lemma sort_unique:
  assumes "sorted_wrt (\<lambda>a b. cmp a b \<le> 0) ys"
    and "\<And>a. filter (\<lambda>b. cmp a b = 0) ys = filter (\<lambda>b. cmp a b = 0) xs"
  shows "ys = js_sort cmp xs"
proof -
  have "ys = zs" if "sorted_wrt (\<lambda>a b. cmp a b \<le> 0) zs"
    "sorted_wrt (\<lambda>a b. cmp a b \<le> 0) ys"
    "\<And>a. filter (\<lambda>b. cmp a b = 0) ys = filter (\<lambda>b. cmp a b = 0) zs" for ys zs
    using that
  proof (induction ys arbitrary: zs)
    case Nil
    have False if "zs = z # zs'" for z zs'
      using Nil.prems(3) [of z] that by (simp add: cmp_refl)
    then show ?case by (cases zs) auto
  next
    case (Cons y ys)
    have ne: "zs \<noteq> []" using Cons.prems(3) [of y] by (auto simp: cmp_refl)
    then obtain z zs' where zs: "zs = z # zs'" by (cases zs) auto
    have sub: "set (y # ys) = set zs"
    proof -
      have "x \<in> set (y # ys) \<longleftrightarrow> x \<in> set (filter (\<lambda>b. cmp x b = 0) (y # ys))" for x
        by (auto simp: cmp_refl)
      moreover have "x \<in> set zs \<longleftrightarrow> x \<in> set (filter (\<lambda>b. cmp x b = 0) zs)" for x
        by (simp add: cmp_refl)
      ultimately show ?thesis using Cons.prems(3) by (auto simp: cmp_refl)
    qed
    from sub zs have "z = y \<or> z \<in> set ys" "y = z \<or> y \<in> set zs'" by auto
    then have yz: "cmp y z \<le> 0" and zy: "cmp z y \<le> 0"
      using zs Cons.prems(1,2) by (auto simp: cmp_refl)
    have "cmp y z = 0" using yz zy cmp_le_iff [of z y] by simp
    then have eq: "y = z" using Cons.prems(3) [of y] zs by (simp add: cmp_refl)
    have "filter (\<lambda>b. cmp a b = 0) ys = filter (\<lambda>b. cmp a b = 0) zs'" for a
      using Cons.prems(3) [of a] zs eq by (simp split: if_splits)
    with Cons.IH [of zs'] Cons.prems(1,2) zs eq show ?case by simp
  qed
  then show ?thesis using sorted_js_sort assms(1) assms(2) stable_js_sort by simp
qed

end

text \<open>Only the signs of a comparator matter.\<close>

lemma comparator_sgn_cong:
  assumes "comparator c" "\<And>x y. sgn (c' x y) = sgn (c x y)"
  shows "comparator c'"
proof -
  have le: "c' x y \<le> 0 \<longleftrightarrow> c x y \<le> 0" for x y
    using assms(2) [of x y] by (auto simp: sgn_if split: if_splits)
  show ?thesis
    using assms(1) unfolding comparator_def assms(2) le by blast
qed

text \<open>A comparator that compares keys of a linear order.\<close>

locale keyed_comparator =
  fixes key :: "'a \<Rightarrow> 'k::linorder"
    and kcmp :: "'a \<Rightarrow> 'a \<Rightarrow> int"
  assumes kcmp_neg: "kcmp x y < 0 \<longleftrightarrow> key x < key y"
    and kcmp_pos: "0 < kcmp x y \<longleftrightarrow> key y < key x"
begin

lemma kcmp_le: "kcmp x y \<le> 0 \<longleftrightarrow> key x \<le> key y"
  using kcmp_pos [of x y] by (simp flip: not_less)

lemma kcmp_sgn: "sgn (kcmp x y) = - sgn (kcmp y x)"
  using kcmp_neg [of x y] kcmp_pos [of x y] kcmp_neg [of y x] kcmp_pos [of y x]
  by (auto simp: sgn_if)

end

sublocale keyed_comparator \<subseteq> comparator kcmp
proof
  show "sgn (kcmp x y) = - sgn (kcmp y x)" for x y by (rule kcmp_sgn)
  show "kcmp x y \<le> 0 \<Longrightarrow> kcmp y z \<le> 0 \<Longrightarrow> kcmp x z \<le> 0" for x y z
    by (auto simp: kcmp_le)
qed

context keyed_comparator begin

lemma sorted_by_key: "sorted (map key (js_sort kcmp xs))"
  using sorted_js_sort [of xs] by (simp add: kcmp_le sorted_map)

lemma js_sort_is_sort_key: "js_sort kcmp xs = sort_key key xs"
proof (rule sort_unique [symmetric])
  show "sorted_wrt (\<lambda>a b. kcmp a b \<le> 0) (sort_key key xs)"
    using sorted_sort_key [of key xs] by (simp add: kcmp_le sorted_map)
  fix a
  have "kcmp a b = 0 \<longleftrightarrow> key b = key a" for b
    using kcmp_neg [of a b] kcmp_pos [of a b] by auto
  then have eq: "(\<lambda>b. kcmp a b = 0) = (\<lambda>b. key b = key a)"
    by (rule ext)
  show "filter (\<lambda>b. kcmp a b = 0) (sort_key key xs) = filter (\<lambda>b. kcmp a b = 0) xs"
    unfolding eq by (rule sort_key_stable)
qed

lemma head_is_least: "js_sort kcmp xs = y # ys \<Longrightarrow> x \<in> set xs \<Longrightarrow> key y \<le> key x"
  using sorted_by_key [of xs] set_js_sort [of kcmp xs] by auto

end

section \<open>Collations\<close>

locale collation = comparator lc for lc :: "string \<Rightarrow> string \<Rightarrow> int"

text \<open>Code-unit order, a collation: the order of \<open>localeCompare\<close> on lower-case ASCII identifiers.\<close>

fun codeunit_compare :: "string \<Rightarrow> string \<Rightarrow> int" where
  "codeunit_compare [] [] = 0"
| "codeunit_compare [] (_ # _) = - 1"
| "codeunit_compare (_ # _) [] = 1"
| "codeunit_compare (c # s) (d # t) =
     (if code_of c < code_of d then - 1 else if code_of d < code_of c then 1 else codeunit_compare s t)"

lemma codeunit_swap: "codeunit_compare s t = - codeunit_compare t s"
  by (induction s t rule: codeunit_compare.induct) auto

lemma codeunit_trans:
  "codeunit_compare s t \<le> 0 \<Longrightarrow> codeunit_compare t u \<le> 0 \<Longrightarrow> codeunit_compare s u \<le> 0"
proof (induction s t arbitrary: u rule: codeunit_compare.induct)
  case 1
  then show ?case by simp
next
  case (2 d t)
  then show ?case by (cases u) simp_all
next
  case (3 c s)
  then show ?case by simp
next
  case (4 c s d t)
  show ?case
  proof (cases u)
    case Nil
    with "4.prems"(2) show ?thesis by simp
  next
    case (Cons e v)
    have le: "code_of c \<le> code_of d" "code_of d \<le> code_of e"
      using "4.prems" Cons by (simp_all split: if_splits)
    show ?thesis
    proof (cases "code_of c = code_of e")
      case True
      with le have eqs: "code_of c = code_of d" "code_of d = code_of e" by simp_all
      with "4.prems" Cons have "codeunit_compare s t \<le> 0" "codeunit_compare t v \<le> 0" by simp_all
      with "4.IH" eqs have "codeunit_compare s v \<le> 0" by simp
      with eqs Cons show ?thesis by simp
    next
      case False
      with le Cons show ?thesis by simp
    qed
  qed
qed

interpretation codeunit: collation codeunit_compare
proof
  show "sgn (codeunit_compare x y) = - sgn (codeunit_compare y x)" for x y
    using codeunit_swap [of x y] by simp
  show "codeunit_compare x y \<le> 0 \<Longrightarrow> codeunit_compare y z \<le> 0 \<Longrightarrow> codeunit_compare x z \<le> 0"
    for x y z by (rule codeunit_trans)
qed

text \<open>\<open>a.k - b.k || lc(a.s, b.s)\<close>: by an integer key, then by a string under a collation.\<close>

definition cmp_then :: "('a \<Rightarrow> int) \<Rightarrow> ('a \<Rightarrow> string) \<Rightarrow> (string \<Rightarrow> string \<Rightarrow> int) \<Rightarrow> 'a \<Rightarrow> 'a \<Rightarrow> int" where
  "cmp_then k s lc a b = (let d = k a - k b in if d \<noteq> 0 then d else lc (s a) (s b))"

context collation begin

lemma comparator_on: "comparator (\<lambda>a b. lc (s a) (s b))"
  by (rule comparator.intro) (auto intro: cmp_swap cmp_trans)

lemma comparator_cmp_then: "comparator (cmp_then k s lc)"
proof (rule comparator.intro)
  show "sgn (cmp_then k s lc x y) = - sgn (cmp_then k s lc y x)" for x y
    using cmp_swap [of "s x" "s y"] by (auto simp: cmp_then_def Let_def sgn_if split: if_splits)
  show "cmp_then k s lc x y \<le> 0 \<Longrightarrow> cmp_then k s lc y z \<le> 0 \<Longrightarrow> cmp_then k s lc x z \<le> 0" for x y z
    by (auto simp: cmp_then_def Let_def split: if_splits intro: cmp_trans)
qed

end

end
