(* ===== verification/Ipv4.thy ===== *)
theory Ipv4
  imports JsSort "HOL-Library.Word"
begin

unbundle bit_operations_syntax

text \<open>
  The address arithmetic of \<open>packages/core/src/meross/lan/ping-sweep.ts\<close> and \<open>discovery.ts\<close>:
  dotted quads, CIDR blocks, the hosts of a block, netmasks and the suggested blocks of the
  machine's interfaces.

  JavaScript's bitwise operators work on 32-bit words and return a signed number, except \<open>>>>\<close>,
  which returns an unsigned one. A word is a \<open>u32\<close>; where the source keeps the number an operator
  returned, the model keeps its value as an \<open>int\<close>: \<open>sint w\<close> after \<open>&\<close>, \<open>|\<close> and \<open><<\<close>, \<open>uint w\<close>
  after \<open>>>>\<close>. The operands are read with \<open>word_of_int\<close>, as \<open>ToInt32\<close> and \<open>ToUint32\<close> do.
\<close>

type_synonym u32 = "32 word"

definition ip_to_int :: "string \<Rightarrow> u32 result" where
  "ip_to_int ip = (case map parse_int (split_on (CHR ''.'') ip) of
       [Some a, Some b, Some c, Some d] \<Rightarrow>
         (if list_all (\<lambda>p. 0 \<le> p \<and> p \<le> 255) [a, b, c, d]
          then Inr (push_bit 24 (word_of_int a) OR push_bit 16 (word_of_int b)
                    OR push_bit 8 (word_of_int c) OR word_of_int d)
          else Inl (''Invalid IPv4: '' @ ip))
     | _ \<Rightarrow> Inl (''Invalid IPv4: '' @ ip))"

definition byte_of :: "nat \<Rightarrow> u32 \<Rightarrow> nat" where
  "byte_of k n = unat (drop_bit k n AND 255)"

definition int_to_ip :: "u32 \<Rightarrow> string" where
  "int_to_ip n = dec_of_nat (byte_of 24 n) @ ''.'' @ dec_of_nat (byte_of 16 n) @ ''.''
     @ dec_of_nat (byte_of 8 n) @ ''.'' @ dec_of_nat (byte_of 0 n)"

definition cidr_mask :: "int \<Rightarrow> u32" where
  "cidr_mask prefix = (if prefix = 0 then 0 else push_bit (nat (32 - prefix)) (word_of_int 0xffffffff))"

record cidr_range =
  network :: int
  broadcast :: int
  prefix_len :: int

definition parse_cidr :: "string \<Rightarrow> cidr_range result" where
  "parse_cidr cidr = (let parts = split_on (CHR 0x2F) cidr; ip = hd parts;
       prefix = (case parts of _ # p # _ \<Rightarrow> parse_int p | _ \<Rightarrow> None)
     in if ip = [] then Inl (''Invalid CIDR: '' @ cidr)
        else case prefix of
            None \<Rightarrow> Inl (''Invalid CIDR: '' @ cidr)
          | Some p \<Rightarrow>
              if p < 0 \<or> 32 < p then Inl (''Invalid CIDR: '' @ cidr)
              else and_then (ip_to_int ip) (\<lambda>base.
                let mask = cidr_mask p; net = sint (base AND mask)
                in Inr \<lparr>network = net,
                        broadcast = sint ((word_of_int net :: u32) OR NOT mask),
                        prefix_len = p\<rparr>))"

text \<open>\<open>for (let n = network + 1; n < broadcast; n++) out.push(intToIp(n >>> 0))\<close>\<close>

function host_loop :: "int \<Rightarrow> int \<Rightarrow> string list" where
  "host_loop n b = (if n < b then int_to_ip (word_of_int n) # host_loop (n + 1) b else [])"
  by pat_completeness auto
termination
  by (relation "measure (\<lambda>(n, b). nat (b - n))") auto

declare host_loop.simps [simp del]

definition list_hosts_in_cidr :: "string \<Rightarrow> string list result" where
  "list_hosts_in_cidr cidr = and_then (parse_cidr cidr) (\<lambda>r.
     if 31 \<le> prefix_len r then Inr [] else Inr (host_loop (network r + 1) (broadcast r)))"

fun netmask_loop :: "u32 \<Rightarrow> nat \<Rightarrow> bool \<Rightarrow> int \<Rightarrow> int option" where
  "netmask_loop n 0 seen_zero bits = Some bits"
| "netmask_loop n (Suc i) seen_zero bits =
     (if bit n i then (if seen_zero then None else netmask_loop n i seen_zero (bits + 1))
      else netmask_loop n i True bits)"

definition netmask_to_prefix :: "string \<Rightarrow> int result" where
  "netmask_to_prefix nm = and_then (ip_to_int nm) (\<lambda>n.
     case netmask_loop n 32 False 0 of
       None \<Rightarrow> Inl (''Non-contiguous netmask: '' @ nm)
     | Some bits \<Rightarrow> Inr bits)"

definition is_private_ipv4 :: "string \<Rightarrow> bool" where
  "is_private_ipv4 ip = (case ip_to_int ip of
       Inl _ \<Rightarrow> False
     | Inr n \<Rightarrow> (let a = byte_of 24 n; b = byte_of 16 n in
         a = 10 \<or> (a = 172 \<and> 16 \<le> b \<and> b \<le> 31) \<or> (a = 192 \<and> b = 168)))"

section \<open>Suggested blocks\<close>

text \<open>An entry of \<open>os.networkInterfaces()\<close>.\<close>

record iface_addr =
  family :: string
  internal :: bool
  address :: string
  netmask :: string

record suggestion =
  sg_iface :: string
  sg_address :: string
  sg_netmask :: string
  sg_cidr :: string

definition suggest_one :: "string \<Rightarrow> iface_addr \<Rightarrow> suggestion option" where
  "suggest_one iface a =
     (if family a \<noteq> ''IPv4'' \<or> internal a \<or> address a = [] \<or> netmask a = [] then None
      else case and_then (netmask_to_prefix (netmask a)) (\<lambda>p.
             and_then (ip_to_int (address a)) (\<lambda>ip.
               Inr (int_to_ip (ip AND cidr_mask p) @ [CHR 0x2F] @ dec_of_int p))) of
          Inl _ \<Rightarrow> None
        | Inr cidr \<Rightarrow> Some \<lparr>sg_iface = iface, sg_address = address a, sg_netmask = netmask a, sg_cidr = cidr\<rparr>)"

definition suggestion_cmp :: "(string \<Rightarrow> string \<Rightarrow> int) \<Rightarrow> suggestion \<Rightarrow> suggestion \<Rightarrow> int" where
  "suggestion_cmp lc a b =
     (let ap = (if is_private_ipv4 (sg_address a) then 0 else 1);
          bp = (if is_private_ipv4 (sg_address b) then 0 else 1);
          ae = (if sg_iface a = ''en0'' then 0 else 1);
          be = (if sg_iface b = ''en0'' then 0 else 1)
      in if ap \<noteq> bp then ap - bp
         else if ae \<noteq> be then ae - be
         else lc (sg_iface a) (sg_iface b))"

definition suggest_cidrs ::
  "(string \<Rightarrow> string \<Rightarrow> int) \<Rightarrow> (string \<times> iface_addr list) list \<Rightarrow> suggestion list" where
  "suggest_cidrs lc ifs =
     js_sort (suggestion_cmp lc)
       (concat (map (\<lambda>(iface, addrs). List.map_filter (suggest_one iface) addrs) ifs))"

definition default_suggested_cidr ::
  "(string \<Rightarrow> string \<Rightarrow> int) \<Rightarrow> (string \<times> iface_addr list) list \<Rightarrow> string option" where
  "default_suggested_cidr lc ifs =
     (case suggest_cidrs lc ifs of [] \<Rightarrow> None | s # _ \<Rightarrow> Some (sg_cidr s))"

section \<open>Words\<close>

lemma bit31_uint:
  assumes "0 \<le> (x::int)" "x < 2^32"
  shows "bit x 31 \<longleftrightarrow> 2^31 \<le> x"
proof (cases "2^31 \<le> x")
  case True
  then have "x div 2^31 = 1" using assms by (intro int_div_pos_eq [of _ _ _ "x - 2^31"]) auto
  with True show ?thesis by (simp add: bit_iff_odd)
next
  case False
  then show ?thesis using assms by (simp add: bit_iff_odd)
qed

lemma sint_u32: "sint (w::u32) = (if uint w < 2^31 then uint w else uint w - 2^32)"
proof -
  have "sint w = take_bit 32 (uint w) - 2^32 * of_bool (bit (uint w) 31)"
    by (simp add: sint_uint signed_take_bit_eq_take_bit_minus)
  moreover have "take_bit 32 (uint w) = uint w"
    using uint_bounded [of w] by (simp add: take_bit_eq_mod)
  moreover have "uint w < 2^32" using uint_bounded [of w] by simp
  ultimately show ?thesis using bit31_uint [of "uint w"] by simp
qed

lemma word_of_int_sint [simp]: "word_of_int (sint w) = w"
  by simp

lemma and_high: "w AND push_bit k (- 1) = push_bit k (drop_bit k (w::u32))"
proof (rule bit_word_eqI)
  fix n assume "n < LENGTH(32)"
  then show "bit (w AND push_bit k (- 1)) n = bit (push_bit k (drop_bit k w)) n"
    by (cases "k \<le> n") (auto simp: bit_simps)
qed

lemma unat_push_drop: "unat (push_bit k (drop_bit k (w::u32))) = 2^k * (unat w div 2^k)"
proof -
  have eq: "unat (push_bit k (drop_bit k w)) = (2^k * (unat w div 2^k)) mod 2^32"
    using unsigned_less [of w, where ?'a = nat]
    by (simp only: unsigned_push_bit_eq unsigned_drop_bit_eq)
      (simp add: take_bit_eq_mod push_bit_eq_mult drop_bit_eq_div mult.commute)
  have "unat w < 2^32"
    using unsigned_less [of w, where ?'a = nat] by simp
  then have "2^k * (unat w div 2^k) < 2^32"
    by (rule le_less_trans [OF times_div_less_eq_dividend])
  then show ?thesis unfolding eq by (rule mod_less)
qed

lemma or_low: "push_bit k x OR NOT (push_bit k (- 1)) = push_bit k x + (mask k :: u32)"
proof -
  have "push_bit k x AND mask k = 0"
    by (rule bit_word_eqI) (auto simp: bit_simps)
  then show ?thesis by (simp add: disjunctive_add_eq_or push_bit_minus_one_eq_not_mask)
qed

lemma cidr_mask_pos: "0 < p \<Longrightarrow> cidr_mask p = push_bit (nat (32 - p)) (- 1)"
proof -
  assume "0 < p"
  have "(word_of_int 0xffffffff :: u32) = - 1" by simp
  with \<open>0 < p\<close> show ?thesis by (simp add: cidr_mask_def del: of_int_numeral word_of_int_numeral)
qed

section \<open>Dotted quads round-trip\<close>

lemma and_255: "x AND 255 = take_bit 8 (x :: u32)"
  by (simp add: take_bit_eq_mask mask_numeral)

lemma byte_of_le [simp]: "byte_of k n \<le> 255"
proof -
  have "unat (take_bit 8 (drop_bit k n)) < 2^8"
    by (simp only: unsigned_take_bit_eq take_bit_nat_less_exp)
  then show ?thesis by (simp add: byte_of_def and_255)
qed

lemma bytes_join:
  "push_bit 24 (drop_bit 24 w AND 255) OR push_bit 16 (drop_bit 16 w AND 255)
     OR push_bit 8 (drop_bit 8 w AND 255) OR (w AND 255) = (w :: u32)"
  unfolding and_255
proof (rule bit_word_eqI)
  fix n assume "n < LENGTH(32)"
  then consider "n < 8" | "8 \<le> n" "n < 16" | "16 \<le> n" "n < 24" | "24 \<le> n" "n < 32"
    by fastforce
  then show "bit (push_bit 24 (take_bit 8 (drop_bit 24 w)) OR push_bit 16 (take_bit 8 (drop_bit 16 w))
     OR push_bit 8 (take_bit 8 (drop_bit 8 w)) OR take_bit 8 w) n = bit w n"
    by cases (auto simp: bit_simps)
qed

lemma word_of_byte: "(word_of_nat (byte_of k n) :: u32) = drop_bit k n AND 255"
  by (simp add: byte_of_def)

lemma split_int_to_ip:
  "split_on (CHR ''.'') (int_to_ip n) =
     [dec_of_nat (byte_of 24 n), dec_of_nat (byte_of 16 n), dec_of_nat (byte_of 8 n), dec_of_nat (byte_of 0 n)]"
  unfolding int_to_ip_def by (simp add: split_on_append split_on_none)

lemma ip_to_int_int_to_ip [simp]: "ip_to_int (int_to_ip n) = Inr n"
  unfolding ip_to_int_def split_int_to_ip
  using bytes_join [of n] by (simp add: word_of_byte)

lemma int_to_ip_inject [simp]: "int_to_ip m = int_to_ip n \<longleftrightarrow> m = n"
  by (metis ip_to_int_int_to_ip sum.inject(2))

lemma int_to_ip_nonempty [simp]: "int_to_ip n \<noteq> []"
  by (simp add: int_to_ip_def)

lemma int_to_ip_no_slash [simp]: "CHR 0x2F \<notin> set (int_to_ip n)"
  by (simp add: int_to_ip_def)

definition quad :: "nat \<Rightarrow> nat \<Rightarrow> nat \<Rightarrow> nat \<Rightarrow> string" where
  "quad a b c d = dec_of_nat a @ ''.'' @ dec_of_nat b @ ''.'' @ dec_of_nat c @ ''.'' @ dec_of_nat d"

definition quad_word :: "nat \<Rightarrow> nat \<Rightarrow> nat \<Rightarrow> nat \<Rightarrow> u32" where
  "quad_word a b c d = of_nat (a * 2^24 + b * 2^16 + c * 2^8 + d)"

lemma split_quad: "split_on (CHR ''.'') (quad a b c d) = map dec_of_nat [a, b, c, d]"
  by (simp add: quad_def split_on_append split_on_none)

lemma unat_quad_word:
  assumes "a \<le> 255" "b \<le> 255" "c \<le> 255" "d \<le> 255"
  shows "unat (quad_word a b c d) = a * 2^24 + b * 2^16 + c * 2^8 + d"
proof -
  have "a * 2^24 + b * 2^16 + c * 2^8 + d < 2 ^ 32" using assms by simp
  then show ?thesis unfolding quad_word_def unat_of_nat by (intro mod_less) simp
qed

lemma unat_u32_less: "unat (w :: u32) < 2 ^ 32"
  using unsigned_less [of w, where ?'a = nat] by simp

lemma byte_of_div: "byte_of k n = unat n div 2^k mod 256"
proof -
  have "take_bit 32 (unat n) = unat n"
    using unat_u32_less [of n] by (simp add: take_bit_nat_eq_self_iff)
  then show ?thesis
    unfolding byte_of_def and_255
    by (simp only: unsigned_take_bit_eq unsigned_drop_bit_eq)
      (simp add: take_bit_eq_mod drop_bit_eq_div)
qed

lemma int_to_ip_quad_word:
  assumes "a \<le> 255" "b \<le> 255" "c \<le> 255" "d \<le> 255"
  shows "int_to_ip (quad_word a b c d) = quad a b c d"
proof -
  define n where "n = a * 2^24 + b * 2^16 + c * 2^8 + d"
  have n: "n = d + 256 * (c + 256 * (b + 256 * a))" by (simp add: n_def)
  have step: "(r + 256 * q) div 256 = q" "(r + 256 * q) mod 256 = r" if "r \<le> 255" for r q :: nat
    using that by simp_all
  have "n div 256 = c + 256 * (b + 256 * a)" unfolding n by (rule step) fact
  moreover have "n div 65536 = n div 256 div 256" "n div 16777216 = n div 256 div 256 div 256"
    by (simp_all flip: div_mult2_eq)
  ultimately have 1: "n div 16777216 mod 256 = a" and 2: "n div 65536 mod 256 = b"
    and 3: "n div 256 mod 256 = c"
    using assms by (simp_all only: step) simp
  have 4: "n mod 256 = d" unfolding n by (rule step) fact
  show ?thesis
    unfolding int_to_ip_def quad_def byte_of_div unat_quad_word [OF assms] n_def [symmetric]
    using 1 2 3 4 by simp
qed

text \<open>The four octets of a dotted quad: it is accepted exactly when each is at most 255, its
  word is the big-endian number of the octets, and printing that word gives the quad back; every
  32-bit word prints as a quad that reads back as the word.\<close>

theorem dotted_quad_round_trip:
  "(if a \<le> 255 \<and> b \<le> 255 \<and> c \<le> 255 \<and> d \<le> 255
    then ip_to_int (quad a b c d) = Inr (quad_word a b c d) \<and>
         unat (quad_word a b c d) = a * 2^24 + b * 2^16 + c * 2^8 + d \<and>
         int_to_ip (quad_word a b c d) = quad a b c d
    else ip_to_int (quad a b c d) = Inl (''Invalid IPv4: '' @ quad a b c d))
   \<and> ip_to_int (int_to_ip n) = Inr n"
proof (cases "a \<le> 255 \<and> b \<le> 255 \<and> c \<le> 255 \<and> d \<le> 255")
  case True
  then have "ip_to_int (quad a b c d) = Inr (quad_word a b c d)"
    by (metis int_to_ip_quad_word ip_to_int_int_to_ip)
  with True show ?thesis by (simp add: int_to_ip_quad_word unat_quad_word)
next
  case False
  then have "ip_to_int (quad a b c d) = Inl (''Invalid IPv4: '' @ quad a b c d)"
    by (auto simp: ip_to_int_def split_quad)
  with False show ?thesis by simp
qed

section \<open>Blocks and their hosts\<close>

text \<open>The mask of a prefix splits an address into the block's base and the offset in the block.\<close>

lemma mask_base:
  assumes "0 < p" "p \<le> 32"
  shows "w AND cidr_mask p = push_bit (nat (32 - p)) (drop_bit (nat (32 - p)) w)"
  unfolding cidr_mask_pos [OF assms(1)] by (rule and_high)

lemma unat_base:
  assumes "0 < p" "p \<le> 32"
  shows "unat (w AND cidr_mask p) = 2 ^ nat (32 - p) * (unat w div 2 ^ nat (32 - p))"
  unfolding mask_base [OF assms] by (rule unat_push_drop)

lemma mask_top:
  assumes "0 < p" "p \<le> 32"
  shows "(w AND cidr_mask p) OR NOT (cidr_mask p) = (w AND cidr_mask p) + mask (nat (32 - p))"
  unfolding mask_base [OF assms] unfolding cidr_mask_pos [OF assms(1)] by (rule or_low)

lemma unat_mask_u32: "k < 32 \<Longrightarrow> unat (mask k :: u32) = 2 ^ k - 1"
proof -
  assume k: "k < 32"
  have "(mask k :: u32) = word_of_nat (2 ^ k - 1)"
    by (simp add: mask_eq_exp_minus_1 of_nat_diff)
  moreover have "(2::nat) ^ k < 2 ^ 32" by (rule power_strict_increasing) (use k in simp_all)
  then have "(2::nat) ^ k - 1 < 2 ^ LENGTH(32)" using diff_le_self [of "2 ^ k" 1] by simp
  ultimately show ?thesis by (simp only: unat_of_nat mod_less)
qed

lemma div_block:
  fixes u :: nat
  shows "u = k * (u div k) + u mod k" "0 < k \<Longrightarrow> u mod k < k"
  by simp_all

lemma unat_top:
  assumes "0 < p" "p \<le> 32"
  shows "unat ((w AND cidr_mask p) OR NOT (cidr_mask p)) = unat (w AND cidr_mask p) + (2 ^ nat (32 - p) - 1)"
proof -
  define k where "k = nat (32 - p)"
  have k: "k < 32" using assms by (simp add: k_def)
  have "unat w < 2 ^ 32" using unsigned_less [of w, where ?'a = nat] by simp
  then have "unat w < 2 ^ k * 2 ^ (32 - k)" using k by (simp flip: power_add)
  then have "unat w div 2 ^ k < 2 ^ (32 - k)" by (simp add: less_mult_imp_div_less mult.commute)
  then have "2 ^ k * (unat w div 2 ^ k + 1) \<le> 2 ^ k * 2 ^ (32 - k)" by (intro mult_le_mono2) simp
  then have "unat (w AND cidr_mask p) + 2 ^ k \<le> 2 ^ 32"
    using k unat_base [OF assms, of w] by (simp add: k_def [symmetric] distrib_left flip: power_add)
  then have "unat (w AND cidr_mask p) + unat (mask k :: u32) < 2 ^ LENGTH(32)"
    using k by (simp add: unat_mask_u32)
  then have "unat ((w AND cidr_mask p) + mask k) = unat (w AND cidr_mask p) + unat (mask k :: u32)"
    by (rule unat_add_lem [THEN iffD1])
  then show ?thesis using k by (simp add: mask_top [OF assms] k_def [symmetric] unat_mask_u32)
qed

lemma parse_cidr_block:
  "p \<le> 32 \<Longrightarrow> parse_cidr (int_to_ip w @ CHR 0x2F # dec_of_nat p) =
     Inr \<lparr>network = sint (w AND cidr_mask (int p)),
          broadcast = sint ((w AND cidr_mask (int p)) OR NOT (cidr_mask (int p))),
          prefix_len = int p\<rparr>"
  by (simp add: parse_cidr_def split_on_append split_on_none Let_def)

lemma parse_cidr_too_long:
  "32 < p \<Longrightarrow> parse_cidr (int_to_ip w @ CHR 0x2F # dec_of_nat p) =
     Inl (''Invalid CIDR: '' @ int_to_ip w @ CHR 0x2F # dec_of_nat p)"
  by (simp add: parse_cidr_def split_on_append split_on_none Let_def)

lemma host_loop_upto: "host_loop n b = map (\<lambda>i. int_to_ip (word_of_int i)) [n..b - 1]"
proof (induction n b rule: host_loop.induct)
  case (1 n b)
  then show ?case
    by (cases "n < b") (simp_all add: host_loop.simps [of n b] upto_rec1 [of n "b - 1"])
qed

text \<open>The two ends of a block have the same sign, so their signed difference is the block's size.\<close>

lemma sint_ends:
  assumes "0 < p" "p \<le> 32"
  shows "sint ((w AND cidr_mask p) OR NOT (cidr_mask p)) = sint (w AND cidr_mask p) + (2 ^ nat (32 - p) - 1)"
proof -
  define k where "k = nat (32 - p)"
  define b where "b = unat (w AND cidr_mask p)"
  define q where "q = unat w div 2 ^ k"
  have k: "k \<le> 31" using assms by (simp add: k_def)
  have b: "b = 2 ^ k * q" using unat_base [OF assms, of w] by (simp add: b_def k_def q_def)
  have top: "unat ((w AND cidr_mask p) OR NOT (cidr_mask p)) = b + (2 ^ k - 1)"
    using unat_top [OF assms, of w] by (simp add: b_def k_def)
  have two: "(2::nat) ^ 31 = 2 ^ k * 2 ^ (31 - k)" using k by (simp flip: power_add)
  have same: "b + (2 ^ k - 1) < 2 ^ 31 \<longleftrightarrow> b < 2 ^ 31"
  proof
    assume "b < 2 ^ 31"
    then have "q < 2 ^ (31 - k)" unfolding b two by simp
    then have "2 ^ k * (q + 1) \<le> (2::nat) ^ 31" unfolding two by (intro mult_le_mono2) simp
    then have "b + 2 ^ k \<le> 2 ^ 31" by (simp add: b distrib_left)
    then show "b + (2 ^ k - 1) < 2 ^ 31"
      using zero_less_power [of "2::nat" k] by linarith
  next
    assume "b + (2 ^ k - 1) < 2 ^ 31"
    then show "b < 2 ^ 31" by linarith
  qed
  have u: "uint (w AND cidr_mask p) = int b" unfolding b_def by (rule uint_nat)
  have u': "uint ((w AND cidr_mask p) OR NOT (cidr_mask p)) = int (b + (2 ^ k - 1))"
    unfolding top [symmetric] by (rule uint_nat)
  have "int b < 2 ^ 31 \<longleftrightarrow> b < 2 ^ 31" "int (b + (2 ^ k - 1)) < 2 ^ 31 \<longleftrightarrow> b + (2 ^ k - 1) < 2 ^ 31"
    by (rule of_nat_less_numeral_power_cancel_iff)+
  with same have "int (b + (2 ^ k - 1)) < 2 ^ 31 \<longleftrightarrow> int b < 2 ^ 31" by (simp only:)
  then have "sint ((w AND cidr_mask p) OR NOT (cidr_mask p)) = sint (w AND cidr_mask p) + int (2 ^ k - 1)"
    unfolding sint_u32 u u'
    by (cases "int b < 2 ^ 31") (simp_all only: of_nat_add if_True if_False diff_add_eq)
  then show ?thesis by (simp add: k_def of_nat_diff)
qed

lemma upto_shift: "map (\<lambda>i. f (a + i)) [1..int n - 1] = map (\<lambda>k. f (a + int k)) [1..<n]"
proof -
  have "[1..int n - 1] = map int [1..<n]"
    by (induction n) (auto simp: upto_rec2 le_Suc_eq)
  then show ?thesis by simp
qed

lemma upto_offset: "[a + 1..a + d - 1] = map (\<lambda>i. a + i) [1..d - 1]" for a d :: int
proof (induction "nat d" arbitrary: d)
  case 0
  then show ?case by simp
next
  case (Suc n)
  have "n = nat (d - 1)" using Suc.hyps(2) by simp
  from Suc.hyps(1) [OF this] have IH: "[a + 1..a + d - 2] = map (\<lambda>i. a + i) [1..d - 2]"
    by (simp add: algebra_simps)
  show ?case
  proof (cases "1 < d")
    case True
    have l: "[a + 1..a + d - 1] = [a + 1..a + d - 2] @ [a + d - 1]"
      using True upto_rec2 [of "a + 1" "a + d - 1"] by (simp add: algebra_simps)
    have r: "[1..d - 1] = [1..d - 2] @ [d - 1]"
      using True upto_rec2 [of 1 "d - 1"] by (simp add: algebra_simps)
    show ?thesis unfolding l r using IH by (simp add: algebra_simps)
  qed simp
qed


text \<open>The hosts a sweep visits, as words: the base of the block, one word per offset.\<close>

definition block_hosts :: "u32 \<Rightarrow> nat \<Rightarrow> u32 list" where
  "block_hosts w p = map (\<lambda>k. (w AND cidr_mask (int p)) + word_of_nat k) [1..<2 ^ (32 - p) - 1]"

lemma list_hosts_block:
  assumes "1 \<le> p" "p \<le> 30"
  shows "list_hosts_in_cidr (int_to_ip w @ CHR 0x2F # dec_of_nat p) = Inr (map int_to_ip (block_hosts w p))"
proof -
  define base where "base = w AND cidr_mask (int p)"
  define n :: nat where "n = 2 ^ (32 - p) - 1"
  have nat: "nat (32 - int p) = 32 - p" using assms by simp
  have bc: "sint (base OR NOT (cidr_mask (int p))) = sint base + int n"
    using sint_ends [of "int p" w] assms by (simp add: base_def n_def nat of_nat_diff)
  have "host_loop (sint base + 1) (sint base + int n) = map (\<lambda>k. int_to_ip (base + word_of_nat k)) [1..<n]"
    unfolding host_loop_upto upto_offset map_map comp_def
    using upto_shift [of "\<lambda>i. int_to_ip (word_of_int i)" "sint base" n] by simp
  then show ?thesis
    using assms
    by (simp add: list_hosts_in_cidr_def parse_cidr_block bc base_def [symmetric] block_hosts_def n_def)
qed

lemma unat_host:
  assumes "1 \<le> p" "p \<le> 32" "j < 2 ^ (32 - p)"
  shows "unat ((w AND cidr_mask (int p)) + word_of_nat j) = 2 ^ (32 - p) * (unat w div 2 ^ (32 - p)) + j"
proof -
  define base where "base = w AND cidr_mask (int p)"
  have nat: "nat (32 - int p) = 32 - p" using assms by simp
  have ub: "unat base = 2 ^ (32 - p) * (unat w div 2 ^ (32 - p))"
    using unat_base [of "int p" w] assms by (simp add: base_def nat)
  have "unat base + (2 ^ (32 - p) - 1) < 2 ^ LENGTH(32)"
    using unat_top [of "int p" w] assms unsigned_less [of "(w AND cidr_mask (int p)) OR NOT (cidr_mask (int p))", where ?'a = nat]
    by (simp add: base_def nat)
  then have lt: "unat base + j < 2 ^ LENGTH(32)" using assms(3) by linarith
  then have "j < 2 ^ LENGTH(32)" by linarith
  then have uj: "unat (word_of_nat j :: u32) = j" by (simp only: unat_of_nat mod_less)
  with lt have "unat base + unat (word_of_nat j :: u32) < 2 ^ LENGTH(32)" by (simp only:)
  then have "unat (base + word_of_nat j) = unat base + unat (word_of_nat j :: u32)"
    by (rule unat_add_lem [THEN iffD1])
  then show ?thesis unfolding uj ub by (simp only: base_def)
qed

lemma same_block_iff:
  assumes "1 \<le> p" "p \<le> 32"
  shows "v AND cidr_mask (int p) = w AND cidr_mask (int p) \<longleftrightarrow>
     (\<exists>j < 2 ^ (32 - p). v = (w AND cidr_mask (int p)) + word_of_nat j)"
proof -
  have nat: "nat (32 - int p) = 32 - p" using assms by simp
  have ub: "unat (x AND cidr_mask (int p)) = 2 ^ (32 - p) * (unat x div 2 ^ (32 - p))" for x
    using unat_base [of "int p" x] assms by (simp add: nat)
  have eq: "v AND cidr_mask (int p) = w AND cidr_mask (int p) \<longleftrightarrow> unat v div 2 ^ (32 - p) = unat w div 2 ^ (32 - p)"
    unfolding word_unat_eq_iff ub by simp
  show ?thesis
  proof
    assume "v AND cidr_mask (int p) = w AND cidr_mask (int p)"
    with eq have q: "unat v div 2 ^ (32 - p) = unat w div 2 ^ (32 - p)" by simp
    have j: "unat v mod 2 ^ (32 - p) < 2 ^ (32 - p)" by simp
    have "unat ((w AND cidr_mask (int p)) + word_of_nat (unat v mod 2 ^ (32 - p))) = unat v"
      unfolding unat_host [OF assms j] q [symmetric] by simp
    then have "v = (w AND cidr_mask (int p)) + word_of_nat (unat v mod 2 ^ (32 - p))"
      by (metis word_unat_eq_iff)
    with j show "\<exists>j < 2 ^ (32 - p). v = (w AND cidr_mask (int p)) + word_of_nat j" by blast
  next
    assume "\<exists>j < 2 ^ (32 - p). v = (w AND cidr_mask (int p)) + word_of_nat j"
    then obtain j where j: "j < 2 ^ (32 - p)" "v = (w AND cidr_mask (int p)) + word_of_nat j" by blast
    then have "unat v = j + 2 ^ (32 - p) * (unat w div 2 ^ (32 - p))"
      using unat_host [OF assms j(1)] by simp
    then have "unat v div 2 ^ (32 - p) = unat w div 2 ^ (32 - p)" using j(1) by simp
    with eq show "v AND cidr_mask (int p) = w AND cidr_mask (int p)" by simp
  qed
qed


lemma same_block_hosts:
  assumes "1 \<le> p" "p \<le> 30"
  shows "v \<in> set (block_hosts w p) \<longleftrightarrow>
     v AND cidr_mask (int p) = w AND cidr_mask (int p) \<and> v \<noteq> w AND cidr_mask (int p) \<and>
     v \<noteq> (w AND cidr_mask (int p)) OR NOT (cidr_mask (int p))"
proof -
  define base where "base = w AND cidr_mask (int p)"
  define N :: nat where "N = 2 ^ (32 - p)"
  have p: "1 \<le> p" "p \<le> 32" using assms by simp_all
  have host: "unat (base + word_of_nat j) = unat base + j" if "j < N" for j
    using unat_host [OF p, of j w] unat_host [OF p, of 0 w] that by (simp add: base_def N_def)
  have "unat (base OR NOT (cidr_mask (int p))) = unat base + (N - 1)"
    using unat_top [of "int p" w] assms by (simp add: base_def N_def nat_diff_distrib)
  moreover have N: "0 < N" by (simp add: N_def)
  ultimately have top: "base OR NOT (cidr_mask (int p)) = base + word_of_nat (N - 1)"
    using host [of "N - 1"] by (simp add: word_unat_eq_iff)
  have inj: "base + word_of_nat i = base + word_of_nat j \<longleftrightarrow> i = j" if "i < N" "j < N" for i j
    using host [OF that(1)] host [OF that(2)] by (metis add_left_cancel)
  have base: "base + word_of_nat 0 = base" by simp
  have "v \<in> set (block_hosts w p) \<longleftrightarrow> (\<exists>j. 1 \<le> j \<and> j < N - 1 \<and> v = base + word_of_nat j)"
    by (auto simp: block_hosts_def base_def N_def)
  also have "\<dots> \<longleftrightarrow> (\<exists>j < N. v = base + word_of_nat j) \<and> v \<noteq> base \<and> v \<noteq> base + word_of_nat (N - 1)"
    (is "?l \<longleftrightarrow> ?r")
  proof
    assume ?l
    then obtain j where j: "1 \<le> j" "j < N - 1" "v = base + word_of_nat j" by blast
    then have "j < N" by simp
    moreover have "v \<noteq> base" using inj [of j 0] j \<open>j < N\<close> N by simp
    moreover have "v \<noteq> base + word_of_nat (N - 1)" using inj [of j "N - 1"] j \<open>j < N\<close> N by simp
    ultimately show ?r using j by blast
  next
    assume r: ?r
    then obtain j where j: "j < N" "v = base + word_of_nat j" by blast
    from r have "v \<noteq> base" "v \<noteq> base + word_of_nat (N - 1)" by blast+
    with j(2) base have "j \<noteq> 0" "j \<noteq> N - 1" by metis+
    with j(1) have "1 \<le> j \<and> j < N - 1" by linarith
    with j(2) show ?l by blast
  qed
  finally show ?thesis using same_block_iff [OF p, of v w] by (simp add: base_def N_def top [unfolded base_def])
qed

lemma distinct_block_hosts:
  assumes "1 \<le> p" "p \<le> 30"
  shows "distinct (block_hosts w p)"
proof -
  have "inj_on (\<lambda>k. (w AND cidr_mask (int p)) + (word_of_nat k :: u32)) (set [1..<2 ^ (32 - p) - 1])"
  proof (rule inj_onI)
    fix i j assume ij: "i \<in> set [1..<2 ^ (32 - p) - 1]" "j \<in> set [1..<2 ^ (32 - p) - 1]"
      "(w AND cidr_mask (int p)) + (word_of_nat i :: u32) = (w AND cidr_mask (int p)) + word_of_nat j"
    then have "i < 2 ^ (32 - p)" "j < 2 ^ (32 - p)" by auto
    then have "unat ((w AND cidr_mask (int p)) + (word_of_nat i :: u32)) =
        2 ^ (32 - p) * (unat w div 2 ^ (32 - p)) + i"
      "unat ((w AND cidr_mask (int p)) + (word_of_nat j :: u32)) =
        2 ^ (32 - p) * (unat w div 2 ^ (32 - p)) + j"
      using assms by (intro unat_host; simp)+
    with ij(3) show "i = j" by (metis add_left_cancel)
  qed
  then show ?thesis by (simp add: block_hosts_def distinct_map)
qed

lemma length_block_hosts: "length (block_hosts w p) = 2 ^ (32 - p) - 2"
  by (simp add: block_hosts_def)

text \<open>C32. The sweep of a block given as an address and a prefix: the usable host addresses of the
  block of that address, without its first and last one, each exactly once; nothing for the
  prefixes 0 (where the source's last address is the signed -1), 31 and 32; an error above 32.\<close>

theorem list_hosts_exact:
  "(if 32 < p then list_hosts_in_cidr (int_to_ip w @ CHR 0x2F # dec_of_nat p) =
                  Inl (''Invalid CIDR: '' @ int_to_ip w @ CHR 0x2F # dec_of_nat p)
    else if p = 0 \<or> 31 \<le> p then list_hosts_in_cidr (int_to_ip w @ CHR 0x2F # dec_of_nat p) = Inr []
    else \<exists>hs. list_hosts_in_cidr (int_to_ip w @ CHR 0x2F # dec_of_nat p) = Inr (map int_to_ip hs) \<and>
           distinct hs \<and> length hs = 2 ^ (32 - p) - 2 \<and>
           (\<forall>v. v \<in> set hs \<longleftrightarrow> v AND cidr_mask (int p) = w AND cidr_mask (int p) \<and>
              v \<noteq> w AND cidr_mask (int p) \<and>
              v \<noteq> (w AND cidr_mask (int p)) OR NOT (cidr_mask (int p))))"
proof (cases "p = 0 \<or> 31 \<le> p")
  case True
  show ?thesis
  proof (cases "32 < p")
    case False
    have "host_loop 1 (- 1) = []" by (subst host_loop.simps) simp
    with False True show ?thesis
      by (auto simp: list_hosts_in_cidr_def parse_cidr_block cidr_mask_def)
  qed (simp add: list_hosts_in_cidr_def parse_cidr_too_long)
next
  case False
  then have "1 \<le> p" "p \<le> 30" by simp_all
  then have "\<exists>hs. list_hosts_in_cidr (int_to_ip w @ CHR 0x2F # dec_of_nat p) = Inr (map int_to_ip hs) \<and>
       distinct hs \<and> length hs = 2 ^ (32 - p) - 2 \<and>
       (\<forall>v. v \<in> set hs \<longleftrightarrow> v AND cidr_mask (int p) = w AND cidr_mask (int p) \<and>
          v \<noteq> w AND cidr_mask (int p) \<and>
          v \<noteq> (w AND cidr_mask (int p)) OR NOT (cidr_mask (int p)))"
    by (intro exI [of _ "block_hosts w p"] conjI allI list_hosts_block distinct_block_hosts
        same_block_hosts length_block_hosts)
  moreover have "\<not> 32 < p" using \<open>p \<le> 30\<close> by simp
  ultimately show ?thesis using False by (simp only: if_False)
qed

section \<open>Netmasks\<close>

lemma netmask_loop_seen: "netmask_loop n i True b = (if \<exists>j < i. bit n j then None else Some b)"
  by (induction i) (auto simp: less_Suc_eq)

lemma netmask_loop_prefix:
  "netmask_loop n i False b = Some r \<longleftrightarrow> (\<exists>k \<le> i. (\<forall>j < i. bit n j \<longleftrightarrow> k \<le> j) \<and> r = b + int (i - k))"
proof (induction i arbitrary: b)
  case 0
  then show ?case by auto
next
  case (Suc i)
  show ?case
  proof (cases "bit n i")
    case True
    have "(\<exists>k \<le> Suc i. (\<forall>j < Suc i. bit n j \<longleftrightarrow> k \<le> j) \<and> r = b + int (Suc i - k)) \<longleftrightarrow>
      (\<exists>k \<le> i. (\<forall>j < i. bit n j \<longleftrightarrow> k \<le> j) \<and> r = b + 1 + int (i - k))"
      using True by (auto simp: less_Suc_eq le_Suc_eq Suc_diff_le)
    with True Suc show ?thesis by simp
  next
    case False
    have "(\<exists>k \<le> Suc i. (\<forall>j < Suc i. bit n j \<longleftrightarrow> k \<le> j) \<and> r = b + int (Suc i - k)) \<longleftrightarrow>
      (\<forall>j < i. \<not> bit n j) \<and> r = b"
      using False by (auto simp: less_Suc_eq le_Suc_eq)
    with False show ?thesis by (auto simp: netmask_loop_seen)
  qed
qed

lemma bit_cidr_mask:
  assumes "0 \<le> p" "p \<le> 32" "j < 32"
  shows "bit (cidr_mask p) j \<longleftrightarrow> nat (32 - p) \<le> j"
proof (cases "p = 0")
  case True
  with assms show ?thesis by (simp add: cidr_mask_def)
next
  case False
  with assms have p: "0 < p" by simp
  show ?thesis unfolding cidr_mask_pos [OF p] using assms by (simp only: bit_simps) auto
qed

lemma netmask_loop_mask: "netmask_loop n 32 False 0 = Some p \<longleftrightarrow> 0 \<le> p \<and> p \<le> 32 \<and> n = cidr_mask p"
proof -
  have "n = cidr_mask p \<longleftrightarrow> (\<forall>j < 32. bit n j \<longleftrightarrow> nat (32 - p) \<le> j)" if "0 \<le> p" "p \<le> 32" for p
  proof
    assume "\<forall>j < 32. bit n j \<longleftrightarrow> nat (32 - p) \<le> j"
    then show "n = cidr_mask p"
      by (intro bit_word_eqI) (use bit_cidr_mask [OF that] in simp)
  qed (use bit_cidr_mask [OF that] in simp)
  then have "0 \<le> p \<and> p \<le> 32 \<and> n = cidr_mask p \<longleftrightarrow>
      0 \<le> p \<and> p \<le> 32 \<and> (\<forall>j < 32. bit n j \<longleftrightarrow> nat (32 - p) \<le> j)" by blast
  also have "\<dots> \<longleftrightarrow> (\<exists>k \<le> 32. (\<forall>j < 32. bit n j \<longleftrightarrow> k \<le> j) \<and> p = 0 + int (32 - k))"
  proof
    assume a: "0 \<le> p \<and> p \<le> 32 \<and> (\<forall>j < 32. bit n j \<longleftrightarrow> nat (32 - p) \<le> j)"
    then have "nat (32 - p) \<le> 32" "p = 0 + int (32 - nat (32 - p))" by auto
    with a show "\<exists>k \<le> 32. (\<forall>j < 32. bit n j \<longleftrightarrow> k \<le> j) \<and> p = 0 + int (32 - k)" by blast
  next
    assume "\<exists>k \<le> 32. (\<forall>j < 32. bit n j \<longleftrightarrow> k \<le> j) \<and> p = 0 + int (32 - k)"
    then obtain k where k: "k \<le> 32" "\<forall>j < 32. bit n j \<longleftrightarrow> k \<le> j" "p = int (32 - k)" by auto
    then have "0 \<le> p" "p \<le> 32" "nat (32 - p) = k" by auto
    with k(2) show "0 \<le> p \<and> p \<le> 32 \<and> (\<forall>j < 32. bit n j \<longleftrightarrow> nat (32 - p) \<le> j)" by simp
  qed
  also have "\<dots> \<longleftrightarrow> netmask_loop n 32 False 0 = Some p" by (rule netmask_loop_prefix [symmetric])
  finally show ?thesis by blast
qed

text \<open>The netmasks accepted are the contiguous ones: a mask is given the prefix \<open>p\<close> exactly
  when it is the mask of \<open>p\<close>, and is rejected when it is the mask of no prefix; so the mask of
  every prefix reads back as the prefix.\<close>

theorem netmask_exactly_contiguous:
  "(netmask_to_prefix (int_to_ip n) = Inr p \<longleftrightarrow> 0 \<le> p \<and> p \<le> 32 \<and> n = cidr_mask p) \<and>
   (netmask_to_prefix (int_to_ip n) = Inl (''Non-contiguous netmask: '' @ int_to_ip n) \<longleftrightarrow>
     \<not> (\<exists>q. 0 \<le> q \<and> q \<le> 32 \<and> n = cidr_mask q))"
proof (cases "netmask_loop n 32 False 0")
  case None
  then have "\<not> (\<exists>q. 0 \<le> q \<and> q \<le> 32 \<and> n = cidr_mask q)"
    using netmask_loop_mask [of n] by (metis option.distinct(1))
  with None show ?thesis by (auto simp: netmask_to_prefix_def)
next
  case (Some q)
  then have "\<exists>q. 0 \<le> q \<and> q \<le> 32 \<and> n = cidr_mask q" using netmask_loop_mask [of n q] by blast
  with Some show ?thesis using netmask_loop_mask [of n p] by (auto simp: netmask_to_prefix_def)
qed

section \<open>The suggested blocks\<close>

definition private_rank :: "suggestion \<Rightarrow> int" where
  "private_rank s = (if is_private_ipv4 (sg_address s) then 0 else 1)"

definition iface_rank :: "suggestion \<Rightarrow> int" where
  "iface_rank s = (if sg_iface s = ''en0'' then 0 else 1)"

lemma suggestion_cmp_sgn:
  "sgn (suggestion_cmp lc a b) = sgn (cmp_then (\<lambda>s. 2 * private_rank s + iface_rank s) sg_iface lc a b)"
  by (simp add: suggestion_cmp_def cmp_then_def private_rank_def iface_rank_def Let_def)

lemma suggestion_cmp_le:
  "suggestion_cmp lc a b \<le> 0 \<longleftrightarrow>
     private_rank a < private_rank b \<or> (private_rank a = private_rank b \<and>
       (iface_rank a < iface_rank b \<or> (iface_rank a = iface_rank b \<and> lc (sg_iface a) (sg_iface b) \<le> 0)))"
  by (simp add: suggestion_cmp_def private_rank_def iface_rank_def Let_def)

context collation begin

lemma comparator_suggestion: "comparator (suggestion_cmp lc)"
  using comparator_cmp_then suggestion_cmp_sgn by (rule comparator_sgn_cong)

end

interpretation suggested: comparator "suggestion_cmp codeunit_compare"
  by (rule codeunit.comparator_suggestion)

lemma suggest_oneD:
  assumes "suggest_one iface a = Some s"
  shows "\<exists>ip p. ip_to_int (sg_address s) = Inr ip \<and> netmask_to_prefix (sg_netmask s) = Inr p \<and>
    sg_cidr s = int_to_ip (ip AND cidr_mask p) @ CHR 0x2F # dec_of_int p"
  using assms
  by (auto simp: suggest_one_def and_then_Inr split: if_splits sum.splits)

lemma suggested_block:
  assumes "ip_to_int (sg_address s) = Inr ip" "netmask_to_prefix (sg_netmask s) = Inr p"
    "sg_cidr s = int_to_ip (ip AND cidr_mask p) @ CHR 0x2F # dec_of_int p"
  shows "\<exists>r. parse_cidr (sg_cidr s) = Inr r \<and> prefix_len r = p \<and>
    word_of_int (network r) = ip AND cidr_mask p"
proof -
  obtain n where n: "netmask_loop n 32 False 0 = Some p"
    using assms(2) by (auto simp: netmask_to_prefix_def and_then_Inr split: option.splits)
  then have p: "0 \<le> p" "p \<le> 32" by (auto simp: netmask_loop_mask)
  then have "dec_of_int p = dec_of_nat (nat p)" by (simp add: dec_of_int_def)
  then have parse: "parse_cidr (sg_cidr s) =
      Inr \<lparr>network = sint (ip AND cidr_mask p),
           broadcast = sint ((ip AND cidr_mask p) OR NOT (cidr_mask p)), prefix_len = p\<rparr>"
      (is "_ = Inr ?r")
    using parse_cidr_block [of "nat p" "ip AND cidr_mask p"] p
    by (simp only: assms(3) int_nat_eq if_True and.right_idem)
  show ?thesis
  proof (intro exI conjI)
    show "parse_cidr (sg_cidr s) = Inr ?r" by (rule parse)
    show "prefix_len ?r = p" by (simp only: cidr_range.select_convs)
    show "word_of_int (network ?r) = ip AND cidr_mask p"
      by (simp only: cidr_range.select_convs word_of_int_sint)
  qed
qed

text \<open>The suggested blocks of the machine, for any collation that is a consistent order: private
  addresses come first, among equals the interface \<open>en0\<close>, then the interface names in
  collation order; and every suggestion is a well-formed block with the prefix of its netmask
  that contains its address.\<close>

theorem suggested_blocks_ordered:
  assumes "collation lc"
  shows "sorted_wrt (\<lambda>a b. private_rank a < private_rank b \<or> (private_rank a = private_rank b \<and>
           (iface_rank a < iface_rank b \<or> (iface_rank a = iface_rank b \<and> lc (sg_iface a) (sg_iface b) \<le> 0))))
         (suggest_cidrs lc ifs) \<and>
         (\<forall>s \<in> set (suggest_cidrs lc ifs). \<exists>r ip. parse_cidr (sg_cidr s) = Inr r \<and>
           ip_to_int (sg_address s) = Inr ip \<and> netmask_to_prefix (sg_netmask s) = Inr (prefix_len r) \<and>
           word_of_int (network r) = ip AND cidr_mask (prefix_len r))"
proof
  have c: "comparator (suggestion_cmp lc)" by (rule collation.comparator_suggestion [OF assms])
  show "sorted_wrt (\<lambda>a b. private_rank a < private_rank b \<or> (private_rank a = private_rank b \<and>
           (iface_rank a < iface_rank b \<or> (iface_rank a = iface_rank b \<and> lc (sg_iface a) (sg_iface b) \<le> 0))))
         (suggest_cidrs lc ifs)"
    unfolding suggest_cidrs_def suggestion_cmp_le [symmetric] by (rule comparator.sorted_js_sort [OF c])
  show "\<forall>s \<in> set (suggest_cidrs lc ifs). \<exists>r ip. parse_cidr (sg_cidr s) = Inr r \<and>
           ip_to_int (sg_address s) = Inr ip \<and> netmask_to_prefix (sg_netmask s) = Inr (prefix_len r) \<and>
           word_of_int (network r) = ip AND cidr_mask (prefix_len r)"
  proof
    fix s assume "s \<in> set (suggest_cidrs lc ifs)"
    then obtain iface a where "suggest_one iface a = Some s"
      by (auto simp: suggest_cidrs_def List.map_filter_def)
    from suggest_oneD [OF this] suggested_block [of s] show "\<exists>r ip. parse_cidr (sg_cidr s) = Inr r \<and>
           ip_to_int (sg_address s) = Inr ip \<and> netmask_to_prefix (sg_netmask s) = Inr (prefix_len r) \<and>
           word_of_int (network r) = ip AND cidr_mask (prefix_len r)"
      by blast
  qed
qed

definition two_ifaces :: "(string \<times> iface_addr list) list" where
  "two_ifaces =
     [(''eth9'', [\<lparr>family = ''IPv4'', internal = False, address = ''8.8.8.8'', netmask = ''255.0.255.0''\<rparr>,
                \<lparr>family = ''IPv4'', internal = False, address = ''8.8.4.4'', netmask = ''255.255.0.0''\<rparr>]),
      (''wlan0'', [\<lparr>family = ''IPv4'', internal = False, address = ''192.168.1.23'', netmask = ''255.255.255.0''\<rparr>])]"

lemma suggested_blocks_ordered_witness:
  "map sg_cidr (suggest_cidrs codeunit_compare two_ifaces) = [''192.168.1.0/24'', ''8.8.0.0/16''] \<and>
   list_all (\<lambda>s. \<exists>r ip. parse_cidr (sg_cidr s) = Inr r \<and>
           ip_to_int (sg_address s) = Inr ip \<and> netmask_to_prefix (sg_netmask s) = Inr (prefix_len r) \<and>
           word_of_int (network r) = ip AND cidr_mask (prefix_len r)) (suggest_cidrs codeunit_compare two_ifaces)"
proof
  show "map sg_cidr (suggest_cidrs codeunit_compare two_ifaces) = [''192.168.1.0/24'', ''8.8.0.0/16'']"
    by code_simp
qed (unfold list_all_iff, rule suggested_blocks_ordered [OF codeunit.collation_axioms, THEN conjunct2])

end
