(* ===== verification/Mac.thy ===== *)
theory Mac
  imports Prelude
begin

text \<open>
  Hardware addresses: \<open>packages/core/src/meross/lan/mac.ts\<close> and the neighbour-table lookup of
  \<open>resolve-ip.ts\<close>. The two commands the lookup runs are arguments: the text \<open>runCmd\<close> returns for
  them, empty when the command fails or times out. The regular expressions are matched by hand;
  in each of them a greedy run is followed by a character outside its class, so no backtracking
  can change the result.
\<close>

section \<open>Normal forms\<close>

definition is_hex_lower :: "char \<Rightarrow> bool" where
  "is_hex_lower c \<longleftrightarrow> is_digit c \<or> (97 \<le> code_of c \<and> code_of c \<le> 102)"

text \<open>\<open>/^([0-9a-f]{2}[:-]){5}([0-9a-f]{2})$/i\<close> on a lower-case string\<close>

definition mac_re :: "string \<Rightarrow> bool" where
  "mac_re s \<longleftrightarrow> length s = 17 \<and>
     (\<forall>i \<in> {0..<17}. if i mod 3 = 2 then s ! i = CHR '':'' \<or> s ! i = CHR ''-'' else is_hex_lower (s ! i))"

definition hex12_re :: "string \<Rightarrow> bool" where
  "hex12_re s \<longleftrightarrow> length s = 12 \<and> list_all is_hex_lower s"

text \<open>\<open>compact.match(/.{2}/g)\<close>\<close>

fun pairs :: "string \<Rightarrow> string list" where
  "pairs (a # b # s) = [a, b] # pairs s"
| "pairs _ = []"

definition dash_to_colon :: "char \<Rightarrow> char" where
  "dash_to_colon c = (if c = CHR ''-'' then CHR '':'' else c)"

definition mac_normalized :: "string \<Rightarrow> string" where
  "mac_normalized m = map dash_to_colon (to_lower (trim m))"

definition normalize_mac :: "string \<Rightarrow> string result" where
  "normalize_mac m = (let normalized = mac_normalized m in
     if mac_re normalized then Inr normalized
     else let compact = filter (\<lambda>c. c \<noteq> CHR '':'') normalized in
       if hex12_re compact then Inr (join_with '':'' (pairs compact))
       else Inl (''Invalid MAC address: '' @ m))"

section \<open>The neighbour tables\<close>

text \<open>\<open>\d+\.\d+\.\d+\.\d+\<close> at the start of a string: the match and what follows it.\<close>

fun match_quad :: "nat \<Rightarrow> string \<Rightarrow> (string \<times> string) option" where
  "match_quad n s = (let ds = takeWhile is_digit s; r = dropWhile is_digit s in
     if ds = [] then None
     else case n of
         0 \<Rightarrow> Some (ds, r)
       | Suc k \<Rightarrow> if starts_with ''.'' r
                  then map_option (\<lambda>(q, t). (ds @ ''.'' @ q, t)) (match_quad k (tl r))
                  else None)"

declare match_quad.simps [simp del]

text \<open>\<open>line.match(/\((\d+\.\d+\.\d+\.\d+)\)/)?.[1]\<close>\<close>

fun paren_quad :: "string \<Rightarrow> string option" where
  "paren_quad [] = None"
| "paren_quad (c # s) =
     (if c = CHR ''('' then
        (case match_quad 3 s of
           Some (q, r) \<Rightarrow> if starts_with '')'' r then Some q else paren_quad s
         | None \<Rightarrow> paren_quad s)
      else paren_quad s)"

definition is_word_char :: "char \<Rightarrow> bool" where
  "is_word_char c \<longleftrightarrow> is_digit c \<or> c = CHR ''_'' \<or>
     (97 \<le> code_of c \<and> code_of c \<le> 122) \<or> (65 \<le> code_of c \<and> code_of c \<le> 90)"

definition head_is :: "(char \<Rightarrow> bool) \<Rightarrow> string \<Rightarrow> bool" where
  "head_is P s = (case s of [] \<Rightarrow> False | c # _ \<Rightarrow> P c)"

text \<open>\<open>lower.match(/\blladdr\s+([0-9a-f:]{17})\b/)?.[1]\<close>; the flag is that a word character precedes.\<close>

fun lladdr_of :: "bool \<Rightarrow> string \<Rightarrow> string option" where
  "lladdr_of prev [] = None"
| "lladdr_of prev (c # s) =
     (let rest = drop 6 (c # s); t = dropWhile is_space rest; m = take 17 t; after = drop 17 t in
      if \<not> prev \<and> starts_with ''lladdr'' (c # s) \<and> head_is is_space rest \<and> length m = 17 \<and>
         list_all (\<lambda>d. is_hex_lower d \<or> d = CHR '':'') m \<and>
         (is_word_char (last m) \<noteq> head_is is_word_char after)
      then Some m
      else lladdr_of (is_word_char c) s)"

text \<open>\<open>lower.match(/^(\d+\.\d+\.\d+\.\d+)\s/)?.[1]\<close>\<close>

definition leading_quad :: "string \<Rightarrow> string option" where
  "leading_quad s = (case match_quad 3 s of
       Some (q, r) \<Rightarrow> if head_is is_space r then Some q else None
     | None \<Rightarrow> None)"

definition newline :: char where
  "newline = CHR 0x0A"

fun arp_scan :: "string \<Rightarrow> string list \<Rightarrow> string option" where
  "arp_scan target [] = None"
| "arp_scan target (line # ls) =
     (if \<not> str_includes target (to_lower line) then arp_scan target ls
      else case paren_quad line of Some ip \<Rightarrow> Some ip | None \<Rightarrow> arp_scan target ls)"

fun neigh_scan :: "string \<Rightarrow> string list \<Rightarrow> string option" where
  "neigh_scan target [] = None"
| "neigh_scan target (line # ls) =
     (case lladdr_of False (to_lower line) of
        None \<Rightarrow> neigh_scan target ls
      | Some m \<Rightarrow>
          if m \<noteq> target then neigh_scan target ls
          else case leading_quad (to_lower line) of Some ip \<Rightarrow> Some ip | None \<Rightarrow> neigh_scan target ls)"

definition resolve_ipv4_from_mac :: "string \<Rightarrow> string \<Rightarrow> string \<Rightarrow> string option result" where
  "resolve_ipv4_from_mac arp_out neigh_out mac = and_then (normalize_mac mac) (\<lambda>target.
     Inr (case (if arp_out = [] then None else arp_scan target (split_on newline arp_out)) of
            Some ip \<Rightarrow> Some ip
          | None \<Rightarrow> if neigh_out = [] then None else neigh_scan target (split_on newline neigh_out)))"

section \<open>Normalisation\<close>

definition no_colons :: "string \<Rightarrow> string" where
  "no_colons s = filter (\<lambda>c. c \<noteq> CHR '':'') s"

lemma hex_not_colon: "is_hex_lower c \<Longrightarrow> c \<noteq> CHR '':''"
  by (auto simp: is_hex_lower_def is_digit_def code_of_def)

lemma dash_to_colon_neq [simp]: "dash_to_colon c \<noteq> CHR ''-''"
  by (simp add: dash_to_colon_def)

lemma length_17:
  "length s = 17 \<longleftrightarrow> (\<exists>a b c d e f g h i j k l m n p q r. s = [a, b, c, d, e, f, g, h, i, j, k, l, m, n, p, q, r])"
  by (auto simp: length_Suc_conv numeral_eq_Suc)

text \<open>A string of the first form, with colons, is the pairs of its digits.\<close>

lemma mac_re_pairs:
  assumes "mac_re s" "CHR ''-'' \<notin> set s"
  shows "hex12_re (no_colons s) \<and> join_with '':'' (pairs (no_colons s)) = s"
proof -
  obtain a b c d e f g h i j k l m n p q r
    where s: "s = [a, b, c, d, e, f, g, h, i, j, k, l, m, n, p, q, r]"
    using assms(1) unfolding mac_re_def length_17 by blast
  have pos: "if t mod 3 = 2 then s ! t = CHR '':'' else is_hex_lower (s ! t)" if "t < 17" for t
  proof -
    have "s ! t \<in> set s" using that assms(1) by (simp add: mac_re_def)
    then have "s ! t \<noteq> CHR ''-''" using assms(2) by metis
    moreover have "t \<in> {0..<17}" using that by simp
    ultimately show ?thesis using assms(1) unfolding mac_re_def by metis
  qed
  have "is_hex_lower a" "is_hex_lower b" "c = CHR '':''" "is_hex_lower d" "is_hex_lower e" "f = CHR '':''"
    "is_hex_lower g" "is_hex_lower h" "i = CHR '':''" "is_hex_lower j" "is_hex_lower k" "l = CHR '':''"
    "is_hex_lower m" "is_hex_lower n" "p = CHR '':''" "is_hex_lower q" "is_hex_lower r"
    using pos [of 0] pos [of 1] pos [of 2] pos [of 3] pos [of 4] pos [of 5] pos [of 6] pos [of 7]
      pos [of 8] pos [of 9] pos [of 10] pos [of 11] pos [of 12] pos [of 13] pos [of 14] pos [of 15] pos [of 16]
    unfolding s by simp_all
  then show ?thesis using hex_not_colon by (simp add: s no_colons_def hex12_re_def)
qed

lemma mac_normalized_no_dash: "CHR ''-'' \<notin> set (mac_normalized m)"
  by (auto simp: mac_normalized_def dash_to_colon_def split: if_splits)

lemma normalize_mac_digits:
  "normalize_mac m = (let ds = no_colons (mac_normalized m) in
     if hex12_re ds then Inr (join_with '':'' (pairs ds)) else Inl (''Invalid MAC address: '' @ m))"
  using mac_re_pairs [OF _ mac_normalized_no_dash, of m]
  by (auto simp: normalize_mac_def Let_def no_colons_def)

lemma trim_id: "(\<And>c. c \<in> set s \<Longrightarrow> \<not> is_space c) \<Longrightarrow> trim s = s"
proof -
  assume "\<And>c. c \<in> set s \<Longrightarrow> \<not> is_space c"
  then have "dropWhile is_space s = s" "dropWhile is_space (rev s) = rev s"
    by (cases s; simp) (cases "rev s"; use \<open>\<And>c. c \<in> set s \<Longrightarrow> \<not> is_space c\<close> in force)
  then show ?thesis by (simp add: trim_def trim_left_def)
qed

definition colon_to_dash :: "char \<Rightarrow> char" where
  "colon_to_dash c = (if c = CHR '':'' then CHR ''-'' else c)"

definition mac_char :: "char \<Rightarrow> bool" where
  "mac_char c \<longleftrightarrow> is_hex_lower c \<or> c = CHR '':''"

lemma mac_char_facts:
  assumes "mac_char c"
  shows "\<not> is_space c" "\<not> is_space (upper_char c)" "\<not> is_space (colon_to_dash c)"
    "dash_to_colon (lower_char c) = c" "dash_to_colon (lower_char (upper_char c)) = c"
    "dash_to_colon (lower_char (colon_to_dash c)) = c"
proof -
  have "code_of c = 58 \<or> (48 \<le> code_of c \<and> code_of c \<le> 57) \<or> (97 \<le> code_of c \<and> code_of c \<le> 102)"
    using assms by (auto simp: mac_char_def is_hex_lower_def is_digit_def code_of_def)
  then have "code_of c \<in> set ([48..<59] @ [97..<103])" by (simp only: set_append set_upt Un_iff atLeastLessThan_iff) linarith
  moreover have "c = char_of (code_of c)" by (simp add: code_of_def)
  ultimately have "c \<in> set (map char_of ([48..<59] @ [97..<103::nat]))" by (metis image_eqI set_map)
  moreover have "list_all (\<lambda>c. \<not> is_space c \<and> \<not> is_space (upper_char c) \<and> \<not> is_space (colon_to_dash c) \<and>
    dash_to_colon (lower_char c) = c \<and> dash_to_colon (lower_char (upper_char c)) = c \<and>
    dash_to_colon (lower_char (colon_to_dash c)) = c) (map char_of ([48..<59] @ [97..<103::nat]))"
    by code_simp
  ultimately show "\<not> is_space c" "\<not> is_space (upper_char c)" "\<not> is_space (colon_to_dash c)"
    "dash_to_colon (lower_char c) = c" "dash_to_colon (lower_char (upper_char c)) = c"
    "dash_to_colon (lower_char (colon_to_dash c)) = c"
    unfolding list_all_iff by blast+
qed

lemma mac_normalized_spellings:
  assumes "list_all mac_char s"
  shows "mac_normalized s = s" "mac_normalized (to_upper s) = s" "mac_normalized (map colon_to_dash s) = s"
proof -
  have c: "mac_char c" if "c \<in> set s" for c using assms that by (simp add: list_all_iff)
  have "trim s = s" "trim (to_upper s) = to_upper s" "trim (map colon_to_dash s) = map colon_to_dash s"
    by (rule trim_id; use c mac_char_facts in \<open>auto simp: to_upper_def\<close>)+
  then show "mac_normalized s = s" "mac_normalized (to_upper s) = s" "mac_normalized (map colon_to_dash s) = s"
    using c mac_char_facts by (auto simp: mac_normalized_def to_upper_def to_lower_def intro!: map_idI)
qed

lemma pairs_facts:
  assumes "hex12_re ds"
  shows "no_colons (join_with '':'' (pairs ds)) = ds" "length (join_with '':'' (pairs ds)) = 17"
    "list_all mac_char (join_with '':'' (pairs ds))" "mac_re (join_with '':'' (pairs ds))"
proof -
  obtain a b d e g h j k m n q r where ds: "ds = [a, b, d, e, g, h, j, k, m, n, q, r]"
    using assms by (auto simp: hex12_re_def length_Suc_conv numeral_eq_Suc)
  have all: "list_all is_hex_lower ds" using assms by (simp add: hex12_re_def)
  show "no_colons (join_with '':'' (pairs ds)) = ds" "length (join_with '':'' (pairs ds)) = 17"
    "list_all mac_char (join_with '':'' (pairs ds))" "mac_re (join_with '':'' (pairs ds))"
    using all hex_not_colon
    by (simp_all add: ds no_colons_def mac_char_def mac_re_def atLeastLessThan_nat_numeral)
qed

text \<open>A hardware address is accepted exactly when its hexadecimal digits, whatever separates
  them, are twelve; the result is in canonical form (17 characters, lower case, colons), and every
  spelling of a canonical address (itself, without separators, in upper case, with dashes) is
  normalised back to it.\<close>

theorem normalize_mac_canonical:
  "(case normalize_mac m of
     Inl e \<Rightarrow> e = ''Invalid MAC address: '' @ m \<and> \<not> hex12_re (no_colons (mac_normalized m))
   | Inr c \<Rightarrow> hex12_re (no_colons (mac_normalized m)) \<and> no_colons c = no_colons (mac_normalized m) \<and>
       length c = 17 \<and> mac_re c \<and> CHR ''-'' \<notin> set c \<and>
       normalize_mac c = Inr c \<and> normalize_mac (no_colons c) = Inr c \<and>
       normalize_mac (to_upper c) = Inr c \<and> normalize_mac (map colon_to_dash c) = Inr c)"
proof (cases "hex12_re (no_colons (mac_normalized m))")
  case True
  define ds where "ds = no_colons (mac_normalized m)"
  define c where "c = join_with '':'' (pairs ds)"
  have ds: "hex12_re ds" using True by (simp add: ds_def)
  have c: "no_colons c = ds" "length c = 17" "list_all mac_char c" "mac_re c"
    using pairs_facts [OF ds] by (simp_all add: c_def)
  have res: "normalize_mac m = Inr c" using True by (simp add: normalize_mac_digits Let_def c_def ds_def)
  have again: "normalize_mac x = Inr c" if "no_colons (mac_normalized x) = ds" for x
    using that ds by (simp add: normalize_mac_digits c_def)
  have "list_all mac_char ds" using ds by (auto simp: hex12_re_def list_all_iff mac_char_def)
  then have "no_colons (mac_normalized ds) = ds"
    using c(1) by (simp add: mac_normalized_spellings) (simp add: no_colons_def flip: c(1))
  moreover have "CHR ''-'' \<notin> set c"
    using mac_normalized_no_dash [of c] by (simp add: mac_normalized_spellings c(3))
  ultimately show ?thesis using c ds by (simp add: res again mac_normalized_spellings flip: ds_def)
qed (simp add: normalize_mac_digits)

end
