(* ===== verification/LanMessage.thy ===== *)
theory LanMessage
  imports Prelude
begin

text \<open>
  LAN requests: the signed message of \<open>packages/core/src/meross/lan/message.ts\<close>, the POST of
  \<open>http.ts\<close> and the requests of \<open>togglex.ts\<close>, \<open>light.ts\<close>, \<open>electricity.ts\<close>, \<open>consumptionx.ts\<close>,
  \<open>timerx.ts\<close>, \<open>triggerx.ts\<close> and \<open>system-all.ts\<close>.

  Arguments of the model: \<open>md5\<close> (\<open>node:crypto\<close>), the random UUID and the clock of a request, and
  \<open>fetch\<close>. A message body is kept as the value that \<open>JSON.stringify\<close> prints.
\<close>

section \<open>Messages\<close>

record lan_message_options =
  mo_namespace :: string
  mo_method :: string
  mo_payload :: jsval
  mo_key :: string
  mo_from :: "string option"
  mo_trigger_src :: "string option"
  mo_payload_version :: "int option"
  mo_message_id :: "string option"
  mo_timestamp :: "int option"

record lan_header =
  h_message_id :: string
  h_namespace :: string
  h_method :: string
  h_payload_version :: int
  h_from :: string
  h_trigger_src :: string
  h_timestamp :: int
  h_timestamp_ms :: int
  h_sign :: string

record lan_message =
  m_header :: lan_header
  m_payload :: jsval

definition default_from :: string where
  "default_from = ''MerossClient''"

definition default_trigger_src :: string where
  "default_trigger_src = ''MerossClient''"

text \<open>\<open>crypto.randomUUID().replaceAll('-', '')\<close>\<close>

definition random_message_id :: "string \<Rightarrow> string" where
  "random_message_id uuid = filter (\<lambda>c. c \<noteq> CHR ''-'') uuid"

text \<open>The clock is \<open>Date.now()\<close>, in milliseconds.\<close>

definition build_lan_message ::
  "(string \<Rightarrow> string) \<Rightarrow> string \<Rightarrow> int \<Rightarrow> lan_message_options \<Rightarrow> lan_message" where
  "build_lan_message md5 uuid now opts =
     (let ts = or_else (mo_timestamp opts) (now div 1000);
          message_id = or_else (mo_message_id opts) (random_message_id uuid);
          from = or_else (mo_from opts) default_from;
          trigger_src = or_else (mo_trigger_src opts) default_trigger_src;
          payload_version = or_else (mo_payload_version opts) 1;
          sign = md5 (message_id @ mo_key opts @ dec_of_int ts)
      in \<lparr>m_header = \<lparr>h_message_id = message_id, h_namespace = mo_namespace opts,
              h_method = mo_method opts, h_payload_version = payload_version, h_from = from,
              h_trigger_src = trigger_src, h_timestamp = ts, h_timestamp_ms = 0, h_sign = sign\<rparr>,
          m_payload = mo_payload opts\<rparr>)"

definition json_of_message :: "lan_message \<Rightarrow> jsval" where
  "json_of_message m = (let h = m_header m in JObj
     [(''header'', JObj [(''messageId'', JStr (h_message_id h)), (''namespace'', JStr (h_namespace h)),
        (''method'', JStr (h_method h)), (''payloadVersion'', js_int (h_payload_version h)),
        (''from'', JStr (h_from h)), (''triggerSrc'', JStr (h_trigger_src h)),
        (''timestamp'', js_int (h_timestamp h)), (''timestampMs'', js_int (h_timestamp_ms h)),
        (''sign'', JStr (h_sign h))]),
      (''payload'', m_payload m)])"

section \<open>HTTP\<close>

record http_request =
  rq_method :: string
  rq_url :: string
  rq_headers :: "(string \<times> string) list"
  rq_body :: jsval
  rq_timeout_ms :: rat

text \<open>
  What \<open>fetch\<close> comes back with: a rejection (refused, aborted by the timeout), or a response with
  its status, its status text, its body as text and as JSON, each of which may fail to be read.
\<close>

datatype http_reply =
    Rejected string
  | Response int string "string result" "jsval result"

definition post_config ::
  "(http_request \<Rightarrow> http_reply) \<Rightarrow> string option \<Rightarrow> rat option \<Rightarrow> string \<Rightarrow> lan_message \<Rightarrow> jsval result" where
  "post_config fetch url timeout_ms host message =
     (case fetch \<lparr>rq_method = ''POST'',
                  rq_url = or_else url (''http:'' @ [CHR 0x2F, CHR 0x2F] @ host @ [CHR 0x2F] @ ''config''),
                  rq_headers = [(''content-type'', ''application'' @ [CHR 0x2F] @ ''json'')],
                  rq_body = json_of_message message,
                  rq_timeout_ms = or_else timeout_ms 5000\<rparr> of
        Rejected e \<Rightarrow> Inl e
      | Response st st_text txt js \<Rightarrow>
          if 200 \<le> st \<and> st \<le> 299 then js
          else let t = (case txt of Inr t \<Rightarrow> t | Inl _ \<Rightarrow> [])
               in Inl (''POST '' @ [CHR 0x2F] @ ''config failed: '' @ dec_of_int st @ '' '' @ st_text
                       @ (if t = [] then [] else '': '' @ t)))"

section \<open>Requests\<close>

record lan_request =
  lr_host :: string
  lr_key :: string
  lr_namespace :: string
  lr_method :: string
  lr_payload :: jsval
  lr_timeout :: "rat option"

definition ns_togglex :: string where "ns_togglex = ''Appliance.Control.ToggleX''"
definition ns_light :: string where "ns_light = ''Appliance.Control.Light''"
definition ns_electricity :: string where "ns_electricity = ''Appliance.Control.Electricity''"
definition ns_consumptionx :: string where "ns_consumptionx = ''Appliance.Control.ConsumptionX''"
definition ns_timerx :: string where "ns_timerx = ''Appliance.Control.TimerX''"
definition ns_triggerx :: string where "ns_triggerx = ''Appliance.Control.TriggerX''"
definition ns_system_all :: string where "ns_system_all = ''Appliance.System.All''"

definition get_system_all :: "string \<Rightarrow> string \<Rightarrow> rat option \<Rightarrow> lan_request" where
  "get_system_all host key timeout = \<lparr>lr_host = host, lr_key = key, lr_namespace = ns_system_all,
     lr_method = ''GET'', lr_payload = JObj [], lr_timeout = timeout\<rparr>"

definition set_toggle_x :: "string \<Rightarrow> string \<Rightarrow> int option \<Rightarrow> nat \<Rightarrow> rat option \<Rightarrow> lan_request" where
  "set_toggle_x host key channel onoff timeout = \<lparr>lr_host = host, lr_key = key,
     lr_namespace = ns_togglex, lr_method = ''SET'',
     lr_payload = JObj [(''togglex'', JObj [(''channel'', js_int (or_else channel 0)),
                                           (''onoff'', js_int (int onoff))])],
     lr_timeout = timeout\<rparr>"

record light_options =
  lo_channel :: "int option"
  lo_onoff :: "nat option"
  lo_luminance :: "int option"
  lo_temperature :: "int option"
  lo_rgb :: "int option"
  lo_capacity :: "int option"
  lo_transform :: "int option"

definition opt_int_field :: "string \<Rightarrow> int option \<Rightarrow> (string \<times> jsval) list" where
  "opt_int_field k v = (case v of None \<Rightarrow> [] | Some n \<Rightarrow> [(k, js_int n)])"

definition set_light :: "string \<Rightarrow> string \<Rightarrow> light_options \<Rightarrow> rat option \<Rightarrow> lan_request" where
  "set_light host key opts timeout = \<lparr>lr_host = host, lr_key = key, lr_namespace = ns_light,
     lr_method = ''SET'',
     lr_payload = JObj [(''light'', JObj
       ([(''channel'', js_int (or_else (lo_channel opts) 0))]
        @ opt_int_field ''onoff'' (map_option int (lo_onoff opts))
        @ opt_int_field ''luminance'' (lo_luminance opts)
        @ opt_int_field ''temperature'' (lo_temperature opts)
        @ opt_int_field ''rgb'' (lo_rgb opts)
        @ opt_int_field ''capacity'' (lo_capacity opts)
        @ opt_int_field ''transform'' (lo_transform opts)))],
     lr_timeout = timeout\<rparr>"

definition get_electricity :: "string \<Rightarrow> string \<Rightarrow> int option \<Rightarrow> rat option \<Rightarrow> lan_request" where
  "get_electricity host key channel timeout = \<lparr>lr_host = host, lr_key = key,
     lr_namespace = ns_electricity, lr_method = ''GET'',
     lr_payload = JObj [(''electricity'', JObj [(''channel'', js_int (or_else channel 0))])],
     lr_timeout = timeout\<rparr>"

definition get_consumption_x :: "string \<Rightarrow> string \<Rightarrow> int option \<Rightarrow> rat option \<Rightarrow> lan_request" where
  "get_consumption_x host key channel timeout = \<lparr>lr_host = host, lr_key = key,
     lr_namespace = ns_consumptionx, lr_method = ''GET'',
     lr_payload = JObj [(''consumptionx'', JObj [(''channel'', js_int (or_else channel 0))])],
     lr_timeout = timeout\<rparr>"

definition get_timer_x :: "string \<Rightarrow> string \<Rightarrow> string \<Rightarrow> lan_request" where
  "get_timer_x host key tid = \<lparr>lr_host = host, lr_key = key, lr_namespace = ns_timerx,
     lr_method = ''GET'', lr_payload = JObj [(''timerx'', JObj [(''id'', JStr tid)])], lr_timeout = None\<rparr>"

definition set_timer_x :: "string \<Rightarrow> string \<Rightarrow> jsval \<Rightarrow> lan_request" where
  "set_timer_x host key timer = \<lparr>lr_host = host, lr_key = key, lr_namespace = ns_timerx,
     lr_method = ''SET'', lr_payload = JObj [(''timerx'', timer)], lr_timeout = None\<rparr>"

definition get_trigger_x :: "string \<Rightarrow> string \<Rightarrow> string \<Rightarrow> lan_request" where
  "get_trigger_x host key tid = \<lparr>lr_host = host, lr_key = key, lr_namespace = ns_triggerx,
     lr_method = ''GET'', lr_payload = JObj [(''triggerx'', JObj [(''id'', JStr tid)])], lr_timeout = None\<rparr>"

definition set_trigger_x :: "string \<Rightarrow> string \<Rightarrow> jsval \<Rightarrow> lan_request" where
  "set_trigger_x host key trigger = \<lparr>lr_host = host, lr_key = key, lr_namespace = ns_triggerx,
     lr_method = ''SET'', lr_payload = JObj [(''triggerx'', trigger)], lr_timeout = None\<rparr>"

text \<open>A request on the wire: no operation above passes \<open>from\<close>, a version, an id or a time.\<close>

definition lan_send ::
  "(string \<Rightarrow> string) \<Rightarrow> (http_request \<Rightarrow> http_reply) \<Rightarrow> string \<Rightarrow> int \<Rightarrow> lan_request \<Rightarrow> jsval result" where
  "lan_send md5 fetch uuid now r = post_config fetch None (lr_timeout r) (lr_host r)
     (build_lan_message md5 uuid now
        \<lparr>mo_namespace = lr_namespace r, mo_method = lr_method r, mo_payload = lr_payload r,
         mo_key = lr_key r, mo_from = None, mo_trigger_src = None, mo_payload_version = None,
         mo_message_id = None, mo_timestamp = None\<rparr>)"

section \<open>Properties\<close>

text \<open>What a device that shares the key checks of a message.\<close>

definition well_signed :: "(string \<Rightarrow> string) \<Rightarrow> string \<Rightarrow> jsval \<Rightarrow> bool" where
  "well_signed md5 key body =
     (case (path body [''header'', ''messageId''], path body [''header'', ''timestamp''], path body [''header'', ''sign'']) of
        (JStr mid, ts, JStr sg) \<Rightarrow> sg = md5 (mid @ key @ str_of ts)
      | _ \<Rightarrow> False)"

lemma str_of_rat_of_int [simp]: "str_of_rat (of_int i) = dec_of_int i"
proof -
  have "of_int \<bar>i\<bar> = \<bar>of_int i :: rat\<bar>" by simp
  then have "\<lfloor>\<bar>of_int i :: rat\<bar>\<rfloor> = \<bar>i\<bar>" by (metis floor_of_int)
  then show ?thesis by (auto simp: str_of_rat_def Let_def dec_of_int_def)
qed

lemma build_well_signed: "well_signed md5 (mo_key o') (json_of_message (build_lan_message md5 uuid now o'))"
  by (simp add: well_signed_def json_of_message_def build_lan_message_def Let_def)

text \<open>C33. Every request goes out once, as a POST to the device's \<open>/config\<close> within the given time
  limit (5000 ms by default), with the namespace, method and payload of the operation, signed with
  the key over the message id without dashes and the time in seconds; the call fails with the
  rejection's message, with the status for a reply outside 200..299, and otherwise returns the
  reply's JSON.\<close>

theorem lan_request_on_the_wire:
  "\<exists>rq. rq_method rq = ''POST'' \<and>
     rq_url rq = ''http:'' @ [CHR 0x2F, CHR 0x2F] @ lr_host r @ [CHR 0x2F] @ ''config'' \<and>
     rq_timeout_ms rq = or_else (lr_timeout r) 5000 \<and>
     path (rq_body rq) [''header'', ''namespace''] = JStr (lr_namespace r) \<and>
     path (rq_body rq) [''header'', ''method''] = JStr (lr_method r) \<and>
     path (rq_body rq) [''header'', ''messageId''] = JStr (random_message_id uuid) \<and>
     path (rq_body rq) [''header'', ''timestamp''] = js_int (now div 1000) \<and>
     field (rq_body rq) ''payload'' = lr_payload r \<and>
     well_signed md5 (lr_key r) (rq_body rq) \<and>
     lan_send md5 fetch uuid now r =
       (case fetch rq of
          Rejected e \<Rightarrow> Inl e
        | Response st st_text txt js \<Rightarrow>
            if st \<in> {200..299} then js
            else Inl (''POST '' @ [CHR 0x2F] @ ''config failed: '' @ dec_of_int st @ '' '' @ st_text @
                 (case txt of Inr t \<Rightarrow> (if t = [] then [] else '': '' @ t) | Inl _ \<Rightarrow> [])))"
proof -
  define opts where "opts = \<lparr>mo_namespace = lr_namespace r, mo_method = lr_method r,
    mo_payload = lr_payload r, mo_key = lr_key r, mo_from = None, mo_trigger_src = None,
    mo_payload_version = None, mo_message_id = None, mo_timestamp = None\<rparr>"
  define rq where "rq = \<lparr>rq_method = ''POST'',
    rq_url = ''http:'' @ [CHR 0x2F, CHR 0x2F] @ lr_host r @ [CHR 0x2F] @ ''config'',
    rq_headers = [(''content-type'', ''application'' @ [CHR 0x2F] @ ''json'')],
    rq_body = json_of_message (build_lan_message md5 uuid now opts),
    rq_timeout_ms = or_else (lr_timeout r) 5000\<rparr>"
  have "well_signed md5 (lr_key r) (rq_body rq)"
    using build_well_signed [of md5 opts uuid now] by (simp add: rq_def opts_def)
  then show ?thesis
    by (intro exI [of _ rq])
      (auto simp: rq_def opts_def json_of_message_def build_lan_message_def Let_def lan_send_def
        post_config_def split: http_reply.splits sum.splits)
qed

end
