(* ===== verification/Pool.thy ===== *)
theory Pool
  imports Prelude
begin

text \<open>
  The worker pool the source writes in three places, in \<open>discovery.ts\<close> (\<open>resolveHostByUuidScan\<close>),
  in \<open>ping-sweep.ts\<close> (\<open>pingSweep\<close>) and in \<open>api/discover-hosts.ts\<close>: a number of asynchronous
  loops share a counter \<open>i\<close>; each takes the next job, awaits its answer and goes on, until the jobs
  are used up or, in the first, until one of them has stored a result in \<open>found\<close>.

  JavaScript runs a loop without interruption from one \<open>await\<close> to the next. A step of the pool is
  such a segment: the answer to the request of one worker arrives, the worker looks at it and goes
  on to its next request or returns. The order of the answers is free, so \<open>pool_step\<close> is a relation
  and the lemmas speak of every reachable state. What \<open>hit j\<close> stands for is what the answer to the
  job \<open>j\<close> makes the worker store in \<open>found\<close>.
\<close>

section \<open>The pool\<close>

datatype worker = Idle | Busy nat | Done

record 'f pool =
  next_job :: nat
  found :: "'f option"
  workers :: "worker list"
  started :: "nat list"
  finished :: "nat list"

text \<open>\<open>if (found) return; const idx = i++; if (idx >= ips.length) return\<close>, then the request.\<close>

definition take_job :: "nat \<Rightarrow> nat \<Rightarrow> 'f pool \<Rightarrow> 'f pool" where
  "take_job n w p =
     (if found p \<noteq> None then p\<lparr>workers := (workers p)[w := Done]\<rparr>
      else let idx = next_job p; p1 = p\<lparr>next_job := idx + 1\<rparr> in
        if n \<le> idx then p1\<lparr>workers := (workers p1)[w := Done]\<rparr>
        else p1\<lparr>workers := (workers p1)[w := Busy idx], started := started p1 @ [idx]\<rparr>)"

text \<open>The loops are started one after the other; each runs up to its first request.\<close>

definition pool_start :: "nat \<Rightarrow> nat \<Rightarrow> 'f pool" where
  "pool_start n c = fold (take_job n) [0..<c]
     \<lparr>next_job = 0, found = None, workers = replicate c Idle, started = [], finished = []\<rparr>"

definition pool_reply :: "nat \<Rightarrow> (nat \<Rightarrow> 'f option) \<Rightarrow> nat \<Rightarrow> 'f pool \<Rightarrow> 'f pool" where
  "pool_reply n hit w p =
     (case workers p ! w of
        Busy idx \<Rightarrow>
          (let p1 = p\<lparr>finished := finished p @ [idx]\<rparr> in
           case hit idx of
             Some f \<Rightarrow> p1\<lparr>found := Some f, workers := (workers p1)[w := Done]\<rparr>
           | None \<Rightarrow> take_job n w p1)
      | _ \<Rightarrow> p)"

inductive pool_step :: "nat \<Rightarrow> (nat \<Rightarrow> 'f option) \<Rightarrow> 'f pool \<Rightarrow> 'f pool \<Rightarrow> bool" for n hit where
  reply: "w < length (workers p) \<Longrightarrow> workers p ! w = Busy idx \<Longrightarrow> pool_step n hit p (pool_reply n hit w p)"

inductive pool_reach :: "nat \<Rightarrow> (nat \<Rightarrow> 'f option) \<Rightarrow> nat \<Rightarrow> nat \<Rightarrow> 'f pool \<Rightarrow> bool" for n hit c where
  start: "pool_reach n hit c 0 (pool_start n c)"
| step: "pool_reach n hit c k p \<Longrightarrow> pool_step n hit p q \<Longrightarrow> pool_reach n hit c (Suc k) q"

inductive_simps pool_step_simps: "pool_step n hit p q"
inductive_cases pool_stepE: "pool_step n hit p q"

text \<open>\<open>Promise.all(workers)\<close> is resolved: every loop has returned.\<close>

definition pool_done :: "'f pool \<Rightarrow> bool" where
  "pool_done p \<longleftrightarrow> list_all (\<lambda>w. w = Done) (workers p)"

section \<open>The jobs of the workers\<close>

fun job_of :: "worker \<Rightarrow> nat multiset" where
  "job_of (Busy j) = {#j#}"
| "job_of _ = {#}"

definition busy_jobs :: "worker list \<Rightarrow> nat multiset" where
  "busy_jobs ws = \<Sum>\<^sub># (image_mset job_of (mset ws))"

lemma busy_update:
  assumes "w < length ws"
  shows "busy_jobs (ws[w := v]) + job_of (ws ! w) = busy_jobs ws + job_of v"
proof -
  define M where "M = mset ws - {#ws ! w#}"
  have old: "mset ws = add_mset (ws ! w) M" unfolding M_def using assms by simp
  have new: "mset (ws[w := v]) = add_mset v M" unfolding M_def by (rule mset_update [OF assms])
  show ?thesis unfolding busy_jobs_def old new by simp
qed

lemma busy_replicate [simp]: "busy_jobs (replicate c Idle) = {#}"
  by (simp add: busy_jobs_def)

lemma busy_done: "busy_jobs ws = {#} \<longleftrightarrow> (\<forall>x \<in> set ws. \<forall>j. x \<noteq> Busy j)"
proof -
  have "job_of x = {#} \<longleftrightarrow> (\<forall>j. x \<noteq> Busy j)" for x by (cases x) auto
  then show ?thesis by (auto simp: busy_jobs_def)
qed

lemma size_busy_le: "size (busy_jobs ws) \<le> length ws"
proof (induction ws)
  case (Cons x ws)
  have "size (job_of x) \<le> 1" by (cases x) simp_all
  with Cons show ?case by (simp add: busy_jobs_def)
qed (simp add: busy_jobs_def)

section \<open>The invariant\<close>

text \<open>
  The jobs handed out are the first ones, each once; those that are not answered are with the
  workers; \<open>found\<close> is what an answer has stored, and it is empty only if no answer had anything; a
  worker returns without a result only when the jobs are used up.
\<close>

definition pool_inv :: "nat \<Rightarrow> (nat \<Rightarrow> 'f option) \<Rightarrow> 'f pool \<Rightarrow> bool" where
  "pool_inv n hit p \<longleftrightarrow>
     started p = [0..<min (next_job p) n] \<and>
     mset [0..<min (next_job p) n] = mset (finished p) + busy_jobs (workers p) \<and>
     (case found p of
        None \<Rightarrow> (\<forall>j \<in> set (finished p). hit j = None) \<and> (Done \<in> set (workers p) \<longrightarrow> n \<le> next_job p)
      | Some f \<Rightarrow> \<exists>j \<in> set (finished p). hit j = Some f)"

lemma take_job_workers [simp]: "length (workers (take_job n w p)) = length (workers p)"
  by (simp add: take_job_def Let_def)

lemma take_job_finished [simp]: "finished (take_job n w p) = finished p"
  by (simp add: take_job_def Let_def)

text \<open>A worker without a job takes the next one.\<close>

lemma take_job_inv:
  assumes "w < length (workers p)" and free: "job_of (workers p ! w) = {#}" and inv: "pool_inv n hit p"
  shows "pool_inv n hit (take_job n w p)"
proof -
  have up: "busy_jobs ((workers p)[w := v]) = busy_jobs (workers p) + job_of v" for v
    using busy_update [OF assms(1), of v] free by simp
  have mem: "Done \<in> set ((workers p)[w := Busy j]) \<Longrightarrow> Done \<in> set (workers p)" for j
    using set_update_subset_insert [of "workers p" w "Busy j"] by auto
  show ?thesis
  proof (cases "found p")
    case None
    show ?thesis
    proof (cases "n \<le> next_job p")
      case True
      with None inv show ?thesis by (simp add: take_job_def pool_inv_def up Let_def min.absorb2 le_SucI)
    next
      case False
      then have "[0..<min (Suc (next_job p)) n] = [0..<next_job p] @ [next_job p]"
        by (simp add: min_def)
      with False None inv mem show ?thesis
        by (auto simp: take_job_def pool_inv_def up min_def Let_def atLeast0_lessThan_Suc)
    qed
  next
    case (Some f)
    with inv show ?thesis by (simp add: take_job_def pool_inv_def up)
  qed
qed

text \<open>A worker that has not started yet counts as one without a job.\<close>

lemma take_job_other: "v \<noteq> w \<Longrightarrow> workers (take_job n w p) ! v = workers p ! v"
  by (simp add: take_job_def Let_def)

lemma take_job_not_idle: "w < length (workers p) \<Longrightarrow> workers (take_job n w p) ! w \<noteq> Idle"
  by (simp add: take_job_def Let_def)

lemma fold_take_job:
  assumes "c \<le> length (workers p)" "pool_inv n hit p" "\<And>w. w < length (workers p) \<Longrightarrow> workers p ! w = Idle"
  shows "pool_inv n hit (fold (take_job n) [0..<c] p) \<and>
     length (workers (fold (take_job n) [0..<c] p)) = length (workers p) \<and>
     finished (fold (take_job n) [0..<c] p) = finished p \<and>
     (\<forall>w < length (workers p). (workers (fold (take_job n) [0..<c] p) ! w = Idle) = (c \<le> w))"
  using assms(1)
proof (induction c)
  case 0
  with assms show ?case by simp
next
  case (Suc c)
  define q where "q = fold (take_job n) [0..<c] p"
  have IH: "pool_inv n hit q" "length (workers q) = length (workers p)" "finished q = finished p"
    "\<And>w. w < length (workers p) \<Longrightarrow> (workers q ! w = Idle) = (c \<le> w)"
    using Suc by (auto simp: q_def)
  have c: "c < length (workers q)" using Suc.prems IH(2) by simp
  have idle: "workers q ! c = Idle" using IH(4) [of c] Suc.prems by simp
  have "pool_inv n hit (take_job n c q)" using take_job_inv [OF c] IH(1) idle by simp
  moreover have "(workers (take_job n c q) ! w = Idle) = (Suc c \<le> w)" if "w < length (workers p)" for w
    using take_job_not_idle [OF c] take_job_other [of w c n q] IH(4) [OF that] by (cases "w = c") auto
  ultimately show ?case using IH by (simp add: q_def [symmetric])
qed

lemma pool_start_facts:
  fixes hit :: "nat \<Rightarrow> 'f option"
  shows "pool_inv n hit (pool_start n c)" "length (workers (pool_start n c :: 'f pool)) = c"
  "finished (pool_start n c :: 'f pool) = []" "Idle \<notin> set (workers (pool_start n c :: 'f pool))"
proof -
  define p0 :: "'f pool" where "p0 = \<lparr>next_job = 0, found = None, workers = replicate c Idle, started = [], finished = []\<rparr>"
  have "pool_inv n hit p0" by (simp add: pool_inv_def p0_def)
  from fold_take_job [of c p0, OF _ this]
  show "pool_inv n hit (pool_start n c)" "length (workers (pool_start n c :: 'f pool)) = c"
    "finished (pool_start n c :: 'f pool) = []" "Idle \<notin> set (workers (pool_start n c :: 'f pool))"
    by (auto simp: pool_start_def p0_def in_set_conv_nth)
qed


lemma pool_reply_facts:
  assumes w: "w < length (workers p)" "workers p ! w = Busy j" and inv: "pool_inv n hit p"
    and idle: "Idle \<notin> set (workers p)"
  shows "pool_inv n hit (pool_reply n hit w p)"
    "length (workers (pool_reply n hit w p)) = length (workers p)"
    "finished (pool_reply n hit w p) = finished p @ [j]"
    "Idle \<notin> set (workers (pool_reply n hit w p))"
proof -
  define p1 where "p1 = p\<lparr>finished := finished p @ [j], workers := (workers p)[w := Idle]\<rparr>"
  have up: "add_mset j (busy_jobs ((workers p)[w := v])) = busy_jobs (workers p) + job_of v" for v
    using busy_update [OF w(1), of v] w(2) by simp
  have sub: "set ((workers p)[w := v]) \<subseteq> insert v (set (workers p))" for v
    by (rule set_update_subset_insert)
  show "length (workers (pool_reply n hit w p)) = length (workers p)"
    by (simp add: pool_reply_def w(2) Let_def split: option.split)
  show "finished (pool_reply n hit w p) = finished p @ [j]"
    by (simp add: pool_reply_def w(2) Let_def split: option.split)
  show "Idle \<notin> set (workers (pool_reply n hit w p))"
    using sub [of Done] sub [of "Busy (next_job p)"] idle
    by (auto simp: pool_reply_def w(2) take_job_def Let_def split: option.split)
  show "pool_inv n hit (pool_reply n hit w p)"
  proof (cases "hit j")
    case None
    have eq: "pool_reply n hit w p = take_job n w p1"
      by (simp add: pool_reply_def w(2) None Let_def p1_def take_job_def)
    have "pool_inv n hit p1"
      using inv None up [of Idle] sub [of Idle] by (auto simp: pool_inv_def p1_def split: option.splits)
    then show ?thesis unfolding eq
      by (intro take_job_inv) (use w in \<open>simp_all add: p1_def\<close>)
  next
    case (Some f)
    then have "pool_reply n hit w p = p\<lparr>finished := finished p @ [j], found := Some f, workers := (workers p)[w := Done]\<rparr>"
      by (simp add: pool_reply_def w(2) Let_def)
    with inv Some up [of Done] show ?thesis by (auto simp: pool_inv_def)
  qed
qed

section \<open>Reachable states\<close>

lemma pool_reach_inv:
  assumes "pool_reach n hit c k p"
  shows "pool_inv n hit p \<and> length (workers p) = c \<and> length (finished p) = k \<and> Idle \<notin> set (workers p)"
  using assms
proof (induction rule: pool_reach.induct)
  case start
  show ?case by (simp add: pool_start_facts)
next
  case (step k p q)
  from step.hyps(2) obtain w j where "q = pool_reply n hit w p" "w < length (workers p)" "workers p ! w = Busy j"
    by (auto elim: pool_stepE)
  with step.IH pool_reply_facts [of w p j n hit] show ?case by simp
qed

lemma pool_started_distinct: "pool_inv n hit p \<Longrightarrow> distinct (started p) \<and> set (started p) \<subseteq> {0..<n}"
  by (auto simp: pool_inv_def)

lemma pool_finished_distinct:
  assumes "pool_inv n hit p"
  shows "distinct (finished p)" "set (finished p) \<subseteq> {0..<n}"
proof -
  obtain ys where ys: "mset ys = busy_jobs (workers p)" using ex_mset by blast
  then have eq: "mset (started p) = mset (finished p @ ys)" using assms by (simp add: pool_inv_def)
  then have "distinct (finished p @ ys)" "set (started p) = set (finished p @ ys)"
    using pool_started_distinct [OF assms] by (metis mset_eq_imp_distinct_iff, metis mset_eq_setD)
  then show "distinct (finished p)" "set (finished p) \<subseteq> {0..<n}"
    using pool_started_distinct [OF assms] by auto
qed

text \<open>No more steps than jobs.\<close>

lemma pool_steps_bound: "pool_reach n hit c k p \<Longrightarrow> k \<le> n"
proof -
  assume "pool_reach n hit c k p"
  then have inv: "pool_inv n hit p" "length (finished p) = k" by (auto dest: pool_reach_inv)
  with pool_finished_distinct [OF inv(1)] have "card (set (finished p)) = k" by (simp add: distinct_card)
  with card_mono [OF _ pool_finished_distinct(2) [OF inv(1)]] show ?thesis by simp
qed

text \<open>A pool that cannot go on has returned, and one that has returned cannot go on.\<close>

lemma pool_stuck_iff:
  assumes "pool_reach n hit c k p"
  shows "(\<nexists>q. pool_step n hit p q) \<longleftrightarrow> pool_done p"
proof -
  have idle: "Idle \<notin> set (workers p)" using pool_reach_inv [OF assms] by simp
  have "(\<exists>q. pool_step n hit p q) \<longleftrightarrow> (\<exists>w j. w < length (workers p) \<and> workers p ! w = Busy j)"
    by (auto simp: pool_step_simps)
  also have "\<dots> \<longleftrightarrow> (\<exists>x \<in> set (workers p). \<exists>j. x = Busy j)"
    by (metis in_set_conv_nth)
  also have "\<dots> \<longleftrightarrow> \<not> pool_done p"
    unfolding pool_done_def list_all_iff using idle by (metis worker.distinct(5) worker.exhaust)
  finally show ?thesis by blast
qed

lemma pool_result:
  assumes reach: "pool_reach n hit c k p" and ret: "pool_done p" and c: "0 < c"
  shows "case found p of
      None \<Rightarrow> (\<forall>j < n. hit j = None) \<and> mset (finished p) = mset [0..<n]
    | Some f \<Rightarrow> \<exists>j < n. hit j = Some f"
proof -
  have inv: "pool_inv n hit p" "length (workers p) = c" using pool_reach_inv [OF reach] by auto
  show ?thesis
  proof (cases "found p")
    case None
    have "workers p \<noteq> []" using inv(2) c by auto
    then have "Done \<in> set (workers p)" using ret by (cases "workers p") (auto simp: pool_done_def)
    with inv(1) None have n: "n \<le> next_job p" "\<forall>j \<in> set (finished p). hit j = None"
      by (auto simp: pool_inv_def)
    have "busy_jobs (workers p) = {#}" using ret by (auto simp: busy_done pool_done_def list_all_iff)
    with inv(1) n(1) have fin: "mset (finished p) = mset [0..<n]"
      by (simp add: pool_inv_def min.absorb2)
    then have "set (finished p) = {0..<n}" by (metis atLeast_upt set_upt set_mset_mset)
    with n(2) fin None show ?thesis by (simp)
  next
    case (Some f)
    with inv(1) pool_finished_distinct(2) [OF inv(1)] show ?thesis by (fastforce simp: pool_inv_def)
  qed
qed

lemma pool_exists_done:
  "\<exists>k p. pool_reach n hit c k p \<and> pool_done p"
proof (rule ccontr)
  assume contra: "\<nexists>k p. pool_reach n hit c k p \<and> pool_done p"
  have "\<exists>p. pool_reach n hit c k p" for k
  proof (induction k)
    case 0
    show ?case by (blast intro: pool_reach.start)
  next
    case (Suc k)
    then obtain p where p: "pool_reach n hit c k p" by blast
    with contra pool_stuck_iff [OF p] obtain q where "pool_step n hit p q" by blast
    with p show ?case by (blast intro: pool_reach.step)
  qed
  then obtain p where "pool_reach n hit c (Suc n) p" by blast
  then show False using pool_steps_bound by force
qed

lemmas pool_facts = pool_reach_inv pool_steps_bound pool_stuck_iff pool_result

text \<open>C30. The worker pools end: there is no infinite run of answers, in whatever order they come,
  the pools that cannot go on are exactly those whose loops have all returned, so that
  \<open>Promise.all\<close> is resolved, and a run that gets there exists.\<close>

theorem pool_terminates:
  "wfP (\<lambda>q p. \<exists>k. pool_reach n hit c k p \<and> pool_step n hit p q) \<and>
   {p. (\<exists>k. pool_reach n hit c k p) \<and> (\<nexists>q. pool_step n hit p q)} =
     {p. (\<exists>k. pool_reach n hit c k p) \<and> pool_done p} \<and>
   (\<exists>k p. k \<le> n \<and> pool_reach n hit c k p \<and> pool_done p)"
proof (intro conjI)
  have "n - length (finished q) < n - length (finished p)"
    if p: "pool_reach n hit c k p" and pq: "pool_step n hit p q" for k p q
  proof -
    have q: "pool_reach n hit c (Suc k) q" using pool_reach.step [OF p pq] .
    show ?thesis using pool_reach_inv [OF p] pool_reach_inv [OF q] pool_steps_bound [OF q] by simp
  qed
  then show "wfP (\<lambda>q p. \<exists>k. pool_reach n hit c k p \<and> pool_step n hit p q)"
    by (intro wfp_if_convertible_to_nat [of _ "\<lambda>p. n - length (finished p)"]) blast
  show "{p. (\<exists>k. pool_reach n hit c k p) \<and> (\<nexists>q. pool_step n hit p q)} =
     {p. (\<exists>k. pool_reach n hit c k p) \<and> pool_done p}"
    using pool_stuck_iff by blast
  show "\<exists>k p. k \<le> n \<and> pool_reach n hit c k p \<and> pool_done p"
    using pool_exists_done pool_steps_bound by blast
qed

end
