(* ===== verification/Discovery.thy ===== *)
theory Discovery
  imports Ipv4 Mac LanMessage Pool
begin

text \<open>
  Finding devices on the LAN: the identity a device reports (\<open>extractLanUuid\<close>, \<open>extractLanMac\<close>),
  the scan of a block for a device (\<open>resolveHostByUuidScan\<close>) and the ping sweep that fills the ARP
  table, from \<open>packages/core/src/meross/lan/discovery.ts\<close> and \<open>ping-sweep.ts\<close>. Both visit the hosts
  of a block with the worker pool of \<open>Pool\<close>.

  The network is an argument: \<open>lan r\<close> is what the request \<open>r\<close> comes back with, an error for a host
  that is not there or too slow. A scan asks every host at most once, so a function of the request
  loses nothing.
\<close>

section \<open>Identity\<close>

definition hardware_path :: "string list" where
  "hardware_path = [''payload'', ''all'', ''system'', ''hardware'']"

definition extract_lan_uuid :: "jsval \<Rightarrow> string option" where
  "extract_lan_uuid resp = (let h = path resp hardware_path in
     case nn (field h ''uuid'') (nn (field h ''UUID'') (nn (field h ''deviceUuid'') (field h ''deviceUUID''))) of
       JStr s \<Rightarrow> if trim s = [] then None else Some (trim s)
     | _ \<Rightarrow> None)"

definition extract_lan_mac :: "jsval \<Rightarrow> string option" where
  "extract_lan_mac resp =
     (let system = path resp [''payload'', ''all'', ''system''];
          h = field system ''hardware''; n = field system ''network''; w = field system ''wifi''
      in case nn (field h ''macAddress'') (nn (field h ''mac'') (nn (field h ''macaddr'') (nn (field h ''MAC'')
           (nn (field n ''macAddress'') (nn (field n ''mac'') (nn (field w ''macAddress'') (field w ''mac''))))))) of
         JStr raw \<Rightarrow>
           if trim raw = [] then None
           else (case normalize_mac raw of Inr m \<Rightarrow> Some m | Inl _ \<Rightarrow> None)
       | _ \<Rightarrow> None)"

section \<open>The scan for a device\<close>

record scan_options =
  so_per_host_timeout :: "jsnum option"
  so_concurrency :: "jsnum option"
  so_target_mac :: "string option"

definition opt_finite :: "jsnum option \<Rightarrow> rat option" where
  "opt_finite v = (case v of None \<Rightarrow> None | Some n \<Rightarrow> finite_num n)"

definition scan_timeout :: "scan_options \<Rightarrow> rat" where
  "scan_timeout opts = (case opt_finite (so_per_host_timeout opts) of None \<Rightarrow> 900 | Some r \<Rightarrow> max 200 r)"

definition scan_concurrency :: "scan_options \<Rightarrow> nat" where
  "scan_concurrency opts = (case opt_finite (so_concurrency opts) of None \<Rightarrow> 24 | Some r \<Rightarrow> nat (max 1 \<lfloor>r\<rfloor>))"

text \<open>What the answer of the host \<open>ip\<close> makes the worker store.\<close>

definition scan_hit ::
  "(lan_request \<Rightarrow> jsval result) \<Rightarrow> string \<Rightarrow> string \<Rightarrow> scan_options \<Rightarrow> string \<Rightarrow> (string \<times> string option) option" where
  "scan_hit lan uuid key opts ip =
     (case lan (get_system_all ip key (Some (scan_timeout opts))) of
        Inl _ \<Rightarrow> None
      | Inr resp \<Rightarrow>
          (let got = extract_lan_uuid resp; mac = extract_lan_mac resp;
               mac_match = (case (so_target_mac opts, mac) of
                  (Some t, Some m) \<Rightarrow> t \<noteq> [] \<and> m \<noteq> [] \<and> m = t
                | _ \<Rightarrow> False)
           in if got = Some uuid \<or> mac_match then Some (ip, mac) else None))"

inductive uuid_scan ::
  "(lan_request \<Rightarrow> jsval result) \<Rightarrow> string \<Rightarrow> string \<Rightarrow> string \<Rightarrow> scan_options \<Rightarrow>
     (string \<times> string option) option \<Rightarrow> bool"
  for lan uuid cidr key opts where
  bad_cidr: "list_hosts_in_cidr cidr = Inl e \<Longrightarrow> uuid_scan lan uuid cidr key opts None"
| no_hosts: "list_hosts_in_cidr cidr = Inr [] \<Longrightarrow> uuid_scan lan uuid cidr key opts None"
| scanned: "list_hosts_in_cidr cidr = Inr ips \<Longrightarrow> ips \<noteq> [] \<Longrightarrow>
    pool_reach (length ips) (\<lambda>j. scan_hit lan uuid key opts (ips ! j)) (scan_concurrency opts) k p \<Longrightarrow>
    pool_done p \<Longrightarrow> uuid_scan lan uuid cidr key opts (found p)"

inductive_simps uuid_scan_simps: "uuid_scan lan uuid cidr key opts r"

section \<open>The ping sweep\<close>

text \<open>\<open>for (let w = 0; w < concurrency; w++)\<close>: \<open>None\<close> when the loop does not end.\<close>

definition sweep_workers :: "jsnum option \<Rightarrow> nat option" where
  "sweep_workers c = (case js_max (Fin 1) (or_else c (Fin 64)) of
       Fin r \<Rightarrow> Some (nat \<lceil>r\<rceil>) | NaN \<Rightarrow> Some 0 | NegInf \<Rightarrow> Some 0 | PosInf \<Rightarrow> None)"

text \<open>The arguments of the \<open>ping\<close> of one host, with the platform's unit for \<open>-W\<close>.\<close>

definition ping_args :: "bool \<Rightarrow> rat \<Rightarrow> string \<Rightarrow> string list" where
  "ping_args is_linux timeout_ms ip =
     [''ping'', ''-c'', ''1'', ''-W'',
      if is_linux then dec_of_int (max 1 (js_round (timeout_ms / 1000))) else str_of_rat timeout_ms, ip]"

text \<open>The hosts pinged, in the order the pings ended; a failed ping is ignored.\<close>

inductive ping_sweep :: "string \<Rightarrow> jsnum option \<Rightarrow> string list result \<Rightarrow> bool" for cidr c where
  sweep_error: "list_hosts_in_cidr cidr = Inl e \<Longrightarrow> ping_sweep cidr c (Inl e)"
| sweep_none: "list_hosts_in_cidr cidr = Inr [] \<Longrightarrow> ping_sweep cidr c (Inr [])"
| sweep: "list_hosts_in_cidr cidr = Inr ips \<Longrightarrow> ips \<noteq> [] \<Longrightarrow> sweep_workers c = Some n \<Longrightarrow>
    pool_reach (length ips) (\<lambda>_. None :: unit option) n k p \<Longrightarrow> pool_done p \<Longrightarrow>
    ping_sweep cidr c (Inr (map (\<lambda>j. ips ! j) (finished p)))"

inductive_simps ping_sweep_simps: "ping_sweep cidr c r"

section \<open>Properties\<close>

lemma scan_concurrency_pos: "0 < scan_concurrency opts"
  by (auto simp: scan_concurrency_def less_max_iff_disj split: option.split)

lemma scan_hit_ip: "scan_hit lan uuid key opts ip = Some (h, m) \<Longrightarrow> h = ip"
  by (auto simp: scan_hit_def Let_def split: sum.splits if_splits)

lemma uuid_scan_total: "\<exists>r. uuid_scan lan uuid cidr key opts r"
proof (cases "list_hosts_in_cidr cidr")
  case (Inr ips)
  then show ?thesis
    using pool_exists_done [of "length ips" "\<lambda>j. scan_hit lan uuid key opts (ips ! j)" "scan_concurrency opts"]
    by (cases "ips = []") (auto intro: uuid_scan.intros)
qed (auto intro: uuid_scan.intros)

lemma uuid_scan_result:
  assumes "uuid_scan lan uuid cidr key opts r"
  shows "case r of
       Some (h, m) \<Rightarrow> \<exists>ips. list_hosts_in_cidr cidr = Inr ips \<and> h \<in> set ips \<and>
         scan_hit lan uuid key opts h = Some (h, m)
     | None \<Rightarrow> \<forall>ips. list_hosts_in_cidr cidr = Inr ips \<longrightarrow>
         (\<forall>ip \<in> set ips. scan_hit lan uuid key opts ip = None)"
  using assms
proof cases
  case (scanned ips k p)
  note res = pool_result [OF scanned(4,5) scan_concurrency_pos]
  show ?thesis
  proof (cases "found p")
    case None
    with res scanned show ?thesis by (auto simp: in_set_conv_nth)
  next
    case (Some hm)
    obtain h m where hm: "hm = (h, m)" by (cases hm)
    from res Some obtain j where j: "j < length ips" "scan_hit lan uuid key opts (ips ! j) = Some (h, m)"
      by (auto simp: hm)
    then have "h = ips ! j" by (rule_tac scan_hit_ip)
    with j scanned Some show ?thesis by (auto simp: hm)
  qed
qed auto

text \<open>C7. A scan always returns, whatever the number of workers and the order of the answers: with
  a host of the block whose own answer carries the wanted uuid or hardware address, and the address
  it reported; or with nothing, and then the block is invalid or no host of it has such an answer.\<close>

theorem uuid_scan_correct:
  "(\<exists>r. uuid_scan lan uuid cidr key opts r) \<and>
   (\<forall>r. uuid_scan lan uuid cidr key opts r \<longrightarrow>
      (case r of
         Some (h, m) \<Rightarrow> \<exists>ips. list_hosts_in_cidr cidr = Inr ips \<and> h \<in> set ips \<and>
           scan_hit lan uuid key opts h = Some (h, m)
       | None \<Rightarrow> \<forall>ips. list_hosts_in_cidr cidr = Inr ips \<longrightarrow>
           (\<forall>ip \<in> set ips. scan_hit lan uuid key opts ip = None)))"
  using uuid_scan_total uuid_scan_result by blast

text \<open>A network with one device, in a block of two hosts.\<close>

definition demo_answer :: jsval where
  "demo_answer = JObj [(''payload'', JObj [(''all'', JObj [(''system'', JObj [(''hardware'',
     JObj [(''uuid'', JStr ''u1''), (''macAddress'', JStr ''C4-E7-AE-1A-C4-74'')])])])])]"

definition demo_lan :: "lan_request \<Rightarrow> jsval result" where
  "demo_lan r = (if lr_host r = ''10.0.0.6'' then Inr demo_answer else Inl ''timeout'')"

definition demo_scan :: scan_options where
  "demo_scan = \<lparr>so_per_host_timeout = None, so_concurrency = None, so_target_mac = None\<rparr>"

lemma demo_hosts: "list_hosts_in_cidr ''10.0.0.4/30'' = Inr [''10.0.0.5'', ''10.0.0.6'']"
  by code_simp

lemma demo_hits:
  "scan_hit demo_lan ''u1'' ''k'' demo_scan ''10.0.0.5'' = None"
  "scan_hit demo_lan ''u1'' ''k'' demo_scan ''10.0.0.6'' = Some (''10.0.0.6'', Some ''c4:e7:ae:1a:c4:74'')"
  by code_simp+

lemma uuid_scan_correct_witness:
  "uuid_scan demo_lan ''u1'' ''10.0.0.4/30'' ''k'' demo_scan (Some (''10.0.0.6'', Some ''c4:e7:ae:1a:c4:74''))"
proof -
  note law = uuid_scan_correct [of demo_lan "''u1''" "''10.0.0.4/30''" "''k''" demo_scan]
  from law obtain r where r: "uuid_scan demo_lan ''u1'' ''10.0.0.4/30'' ''k'' demo_scan r" by blast
  with law have "case r of
         Some (h, m) \<Rightarrow> \<exists>ips. list_hosts_in_cidr ''10.0.0.4/30'' = Inr ips \<and> h \<in> set ips \<and>
           scan_hit demo_lan ''u1'' ''k'' demo_scan h = Some (h, m)
       | None \<Rightarrow> \<forall>ips. list_hosts_in_cidr ''10.0.0.4/30'' = Inr ips \<longrightarrow>
           (\<forall>ip \<in> set ips. scan_hit demo_lan ''u1'' ''k'' demo_scan ip = None)"
    by blast
  then have "r = Some (''10.0.0.6'', Some ''c4:e7:ae:1a:c4:74'')"
    by (auto simp: demo_hosts demo_hits split: option.splits)
  with r show ?thesis by simp
qed

text \<open>A pool whose jobs leave nothing behind does every one of them once.\<close>

lemma pool_visits_all:
  assumes "pool_reach (length ips) (\<lambda>_. None :: unit option) c k p" "pool_done p" "0 < c"
  shows "mset (map (\<lambda>j. ips ! j) (finished p)) = mset ips"
proof -
  note res = pool_result [OF assms]
  then have "mset (finished p) = mset [0..<length ips]" by (auto split: option.splits)
  then have "image_mset (\<lambda>j. ips ! j) (mset (finished p)) = image_mset (\<lambda>j. ips ! j) (mset [0..<length ips])"
    by simp
  then have "mset (map (\<lambda>j. ips ! j) (finished p)) = mset (map (\<lambda>j. ips ! j) [0..<length ips])"
    by (simp only: mset_map)
  then show ?thesis by (simp only: map_nth)
qed

text \<open>The sweep of a valid block pings every host of the block exactly once, in any order of
  the answers, with at least one worker.\<close>

theorem ping_sweep_every_host_once:
  assumes "list_hosts_in_cidr cidr = Inr ips" "ping_sweep cidr c r" "sweep_workers c \<noteq> Some 0"
  shows "\<exists>pinged. r = Inr pinged \<and> mset pinged = mset ips"
  using assms(2)
proof cases
  case (sweep ips' n k p)
  have ips: "ips' = ips" using assms(1) sweep by simp
  have "0 < n" using sweep(4) assms(3) by (cases n) auto
  from pool_visits_all [OF sweep(5,6) this] show ?thesis using sweep ips by simp
qed (use assms in auto)

lemma ping_sweep_every_host_once_witness:
  "\<exists>pinged. ping_sweep ''10.0.0.4/30'' None (Inr pinged) \<and> mset pinged = {#''10.0.0.5'', ''10.0.0.6''#}"
proof -
  have n: "sweep_workers None = Some 64" by (simp add: sweep_workers_def)
  obtain k and p :: "unit pool" where "pool_reach (length [''10.0.0.5'', ''10.0.0.6'']) (\<lambda>_. None) 64 k p" "pool_done p"
    using pool_exists_done by blast
  then obtain pinged where p: "ping_sweep ''10.0.0.4/30'' None (Inr pinged)"
    using ping_sweep.sweep [OF demo_hosts _ n] by blast
  have "sweep_workers None \<noteq> Some 0" using n by simp
  from ping_sweep_every_host_once [OF demo_hosts p this] p show ?thesis by auto
qed

end
