(* ===== verification/Extract.thy ===== *)
theory Extract
  imports JsSort "HOL-Library.Word"
begin

unbundle bit_operations_syntax

text \<open>
  Reading device answers: the extractors of \<open>packages/core/src/api/shared.ts\<close>. Firmwares put the
  same data in different places and types, so each extractor tries a list of candidate places and
  coerces what it finds. Records hold the extracted states; \<open>json_of_...\<close> gives the object the API
  returns for each.
\<close>

section \<open>Coercions\<close>

definition coerce_finite_number :: "jsval \<Rightarrow> rat option" where
  "coerce_finite_number v = (case v of
       JStr s \<Rightarrow> if trim s = [] then None else finite_num (num_of_str s)
     | JNum n \<Rightarrow> finite_num n
     | _ \<Rightarrow> None)"

text \<open>The first candidate that yields something.\<close>

fun first_of :: "('a \<Rightarrow> 'b option) \<Rightarrow> 'a list \<Rightarrow> 'b option" where
  "first_of f [] = None"
| "first_of f (x # xs) = (case f x of None \<Rightarrow> first_of f xs | Some y \<Rightarrow> Some y)"

lemma first_of_Some: "first_of f xs = Some y \<Longrightarrow> \<exists>x \<in> set xs. f x = Some y"
  by (induction xs) (auto split: option.splits)

lemma first_of_None: "first_of f xs = None \<longleftrightarrow> (\<forall>x \<in> set xs. f x = None)"
  by (induction xs) (auto split: option.splits)

definition digest_path :: "string list" where
  "digest_path = [''payload'', ''all'', ''digest'']"

section \<open>Toggles\<close>

record toggle_state =
  ts_channel :: int
  ts_onoff :: nat

definition toggle_item :: "jsval \<Rightarrow> toggle_state option" where
  "toggle_item item = (case channel_num (field item ''channel'') of
       None \<Rightarrow> None
     | Some ch \<Rightarrow> Some \<lparr>ts_channel = ch, ts_onoff = onoff_of (field item ''onoff'')\<rparr>)"

definition by_channel :: "('a \<Rightarrow> int) \<Rightarrow> 'a \<Rightarrow> 'a \<Rightarrow> int" where
  "by_channel ch a b = ch a - ch b"

definition toggle_candidate :: "jsval \<Rightarrow> toggle_state list option" where
  "toggle_candidate c = (if \<not> truthy c then None
     else let out = List.map_filter toggle_item (as_array c)
          in if out = [] then None else Some (js_sort (by_channel ts_channel) out))"

definition extract_lan_toggle_x :: "jsval \<Rightarrow> toggle_state list option" where
  "extract_lan_toggle_x resp = (let d = path resp digest_path in
     first_of toggle_candidate
       [field d ''togglex'', field d ''toggleX'', field d ''toggle'', path d [''togglex'', ''togglex'']])"

section \<open>Electricity\<close>

record electricity_state =
  el_channel :: int
  el_voltage_dv :: "int option"
  el_current_ma :: "int option"
  el_power_mw :: "int option"
  el_voltage_ratio :: "rat option"
  el_electricity_ratio :: "rat option"
  el_voltage_v :: "rat option"
  el_current_a :: "rat option"
  el_power_w :: "rat option"

definition electricity_candidate :: "jsval \<Rightarrow> electricity_state option" where
  "electricity_candidate c =
     (if \<not> is_object c then None
      else case integer_num (Fin (or_else (coerce_finite_number (field c ''channel'')) 0)) of
          None \<Rightarrow> None
        | Some channel \<Rightarrow>
            if channel < 0 then None
            else (let voltage_dv = coerce_finite_number (field c ''voltage'');
                      current_ma = coerce_finite_number (field c ''current'');
                      power_mw = coerce_finite_number (field c ''power'');
                      config = field c ''config''
                  in if voltage_dv = None \<and> current_ma = None \<and> power_mw = None then None
                     else Some \<lparr>el_channel = channel,
                       el_voltage_dv = map_option js_round voltage_dv,
                       el_current_ma = map_option js_round current_ma,
                       el_power_mw = map_option js_round power_mw,
                       el_voltage_ratio = coerce_finite_number (field config ''voltageRatio''),
                       el_electricity_ratio = coerce_finite_number (field config ''electricityRatio''),
                       el_voltage_v = map_option (\<lambda>x. x / 10) voltage_dv,
                       el_current_a = map_option (\<lambda>x. x / 1000) current_ma,
                       el_power_w = map_option (\<lambda>x. x / 1000) power_mw\<rparr>))"

definition electricity_places :: "string list list" where
  "electricity_places =
     [[''payload'', ''electricity''],
      [''payload'', ''electricity'', ''electricity''],
      digest_path @ [''electricity''],
      digest_path @ [''electricity'', ''electricity'']]"

definition extract_lan_electricity :: "jsval \<Rightarrow> electricity_state option" where
  "extract_lan_electricity resp = first_of electricity_candidate (map (path resp) electricity_places)"

definition opt_field :: "string \<Rightarrow> ('a \<Rightarrow> jsval) \<Rightarrow> 'a option \<Rightarrow> (string \<times> jsval) list" where
  "opt_field k f v = (case v of None \<Rightarrow> [] | Some x \<Rightarrow> [(k, f x)])"

definition json_of_electricity :: "electricity_state \<Rightarrow> jsval" where
  "json_of_electricity e = JObj
     ([(''channel'', js_int (el_channel e))]
      @ opt_field ''voltageDv'' js_int (el_voltage_dv e)
      @ opt_field ''currentMa'' js_int (el_current_ma e)
      @ opt_field ''powerMw'' js_int (el_power_mw e)
      @ (if el_voltage_ratio e \<noteq> None \<or> el_electricity_ratio e \<noteq> None
         then [(''config'', JObj (opt_field ''voltageRatio'' js_rat (el_voltage_ratio e)
                 @ opt_field ''electricityRatio'' js_rat (el_electricity_ratio e)))]
         else [])
      @ opt_field ''voltageV'' js_rat (el_voltage_v e)
      @ opt_field ''currentA'' js_rat (el_current_a e)
      @ opt_field ''powerW'' js_rat (el_power_w e))"

section \<open>Lights\<close>

text \<open>\<open>((r & 0xff) << 16) | ((g & 0xff) << 8) | (b & 0xff)\<close>, a signed 32-bit result.\<close>

definition pack_rgb :: "int \<Rightarrow> int \<Rightarrow> int \<Rightarrow> int" where
  "pack_rgb r g b = sint (push_bit 16 (word_of_int r AND 0xff) OR push_bit 8 (word_of_int g AND 0xff)
     OR (word_of_int b AND 0xff) :: 32 word)"

definition rgb_component :: "rat option \<Rightarrow> int option" where
  "rgb_component v = (case v of None \<Rightarrow> None | Some x \<Rightarrow>
     (case integer_num (Fin x) of None \<Rightarrow> None | Some i \<Rightarrow> if 0 \<le> i \<and> i \<le> 255 then Some i else None))"

definition rgb_of_components :: "rat option \<Rightarrow> rat option \<Rightarrow> rat option \<Rightarrow> int option" where
  "rgb_of_components r g b = (case (rgb_component r, rgb_component g, rgb_component b) of
       (Some r, Some g, Some b) \<Rightarrow> Some (pack_rgb r g b)
     | _ \<Rightarrow> None)"

definition coerce_rgb :: "jsval \<Rightarrow> int option" where
  "coerce_rgb v = (case coerce_finite_number v of
       Some n \<Rightarrow> Some (js_round n)
     | None \<Rightarrow> (case v of
         JArr vs \<Rightarrow>
           if 3 \<le> length vs
           then rgb_of_components (coerce_finite_number (vs ! 0)) (coerce_finite_number (vs ! 1))
                  (coerce_finite_number (vs ! 2))
           else None
       | JObj kvs \<Rightarrow>
           rgb_of_components (coerce_finite_number (nn (field v ''r'') (field v ''red'')))
             (coerce_finite_number (nn (field v ''g'') (field v ''green'')))
             (coerce_finite_number (nn (field v ''b'') (field v ''blue'')))
       | _ \<Rightarrow> None))"

record light_state =
  ls_channel :: int
  ls_onoff :: nat
  ls_luminance :: "rat option"
  ls_temperature :: "rat option"
  ls_rgb :: "int option"

definition light_item :: "jsval \<Rightarrow> light_state option" where
  "light_item item = (case channel_num (field item ''channel'') of
       None \<Rightarrow> None
     | Some ch \<Rightarrow> Some \<lparr>ls_channel = ch,
         ls_onoff = onoff_of (nn (field item ''onoff'') (field item ''state'')),
         ls_luminance = coerce_finite_number (nn (field item ''luminance'')
           (nn (field item ''brightness'') (nn (field item ''luma'') (field item ''lum'')))),
         ls_temperature = coerce_finite_number (nn (field item ''temperature'')
           (nn (field item ''temp'') (nn (field item ''colorTemp'') (field item ''colortemp'')))),
         ls_rgb = coerce_rgb (field item ''rgb'')\<rparr>)"

definition light_candidate :: "jsval \<Rightarrow> light_state list option" where
  "light_candidate c = (if \<not> truthy c then None
     else let out = List.map_filter light_item (as_array c)
          in if out = [] then None else Some (js_sort (by_channel ls_channel) out))"

definition extract_lan_light :: "jsval \<Rightarrow> light_state list option" where
  "extract_lan_light resp = (let d = path resp digest_path in
     first_of light_candidate
       [field d ''light'', path d [''light'', ''light''], field d ''lamp'', path d [''lamp'', ''lamp'']])"

definition json_of_toggle :: "toggle_state \<Rightarrow> jsval" where
  "json_of_toggle t = JObj [(''channel'', js_int (ts_channel t)), (''onoff'', js_int (int (ts_onoff t)))]"

definition json_of_light :: "light_state \<Rightarrow> jsval" where
  "json_of_light l = JObj ([(''channel'', js_int (ls_channel l)), (''onoff'', js_int (int (ls_onoff l)))]
     @ opt_field ''luminance'' js_rat (ls_luminance l)
     @ opt_field ''temperature'' js_rat (ls_temperature l)
     @ opt_field ''rgb'' js_int (ls_rgb l))"

section \<open>Schedule digests\<close>

record digest_entry =
  de_channel :: int
  de_id :: string
  de_count :: int

definition digest_item :: "jsval \<Rightarrow> digest_entry option" where
  "digest_item item = (case channel_num (field item ''channel'') of
       None \<Rightarrow> None
     | Some ch \<Rightarrow>
         (let eid = trim (str_of (nn (field item ''id'') (JStr [])))
          in if eid = [] then None
             else Some \<lparr>de_channel = ch, de_id = eid,
                de_count = (case coerce_finite_number (field item ''count'') of
                   None \<Rightarrow> 0 | Some c \<Rightarrow> max 0 (js_round c))\<rparr>))"

definition digest_cmp :: "(string \<Rightarrow> string \<Rightarrow> int) \<Rightarrow> digest_entry \<Rightarrow> digest_entry \<Rightarrow> int" where
  "digest_cmp lc = cmp_then de_channel de_id lc"

definition digest_candidate :: "(string \<Rightarrow> string \<Rightarrow> int) \<Rightarrow> jsval \<Rightarrow> digest_entry list option" where
  "digest_candidate lc c = (if \<not> truthy c then None
     else Some (js_sort (digest_cmp lc) (List.map_filter digest_item (as_array c))))"

definition extract_lan_schedule_digest ::
  "(string \<Rightarrow> string \<Rightarrow> int) \<Rightarrow> string \<Rightarrow> jsval \<Rightarrow> digest_entry list" where
  "extract_lan_schedule_digest lc kind resp = (let d = path resp digest_path in
     or_else (first_of (digest_candidate lc) [field d kind, path d [kind, kind]]) [])"

definition extract_lan_timer_x_digest :: "(string \<Rightarrow> string \<Rightarrow> int) \<Rightarrow> jsval \<Rightarrow> digest_entry list" where
  "extract_lan_timer_x_digest lc resp = extract_lan_schedule_digest lc ''timerx'' resp"

definition extract_lan_trigger_x_digest :: "(string \<Rightarrow> string \<Rightarrow> int) \<Rightarrow> jsval \<Rightarrow> digest_entry list" where
  "extract_lan_trigger_x_digest lc resp = extract_lan_schedule_digest lc ''triggerx'' resp"

definition json_of_digest :: "digest_entry \<Rightarrow> jsval" where
  "json_of_digest e = JObj [(''channel'', js_int (de_channel e)), (''id'', JStr (de_id e)), (''count'', js_int (de_count e))]"

section \<open>Sorting by channel\<close>

interpretation toggles: keyed_comparator ts_channel "by_channel ts_channel"
  by unfold_locales (auto simp: by_channel_def)

interpretation lights: keyed_comparator ls_channel "by_channel ls_channel"
  by unfold_locales (auto simp: by_channel_def)

interpretation digests: comparator "digest_cmp codeunit_compare"
  unfolding digest_cmp_def by (rule codeunit.comparator_cmp_then)

section \<open>What is extracted\<close>

lemma set_map_filter: "set (List.map_filter f xs) = {y. \<exists>x \<in> set xs. f x = Some y}"
  by (force simp: List.map_filter_def image_iff)

lemma toggle_itemD: "toggle_item v = Some t \<Longrightarrow> 0 \<le> ts_channel t \<and> ts_onoff t \<le> 1"
  by (auto simp: toggle_item_def dest: channel_num_nonneg split: option.splits)

lemma light_itemD: "light_item v = Some l \<Longrightarrow> 0 \<le> ls_channel l \<and> ls_onoff l \<le> 1"
  by (auto simp: light_item_def dest: channel_num_nonneg split: option.splits)

lemma digest_itemD: "digest_item v = Some e \<Longrightarrow> 0 \<le> de_channel e \<and> de_id e \<noteq> [] \<and> 0 \<le> de_count e"
  unfolding digest_item_def Let_def
  by (split option.split_asm, simp, split if_split_asm, simp, drule channel_num_nonneg)
    (auto split: option.splits)

definition toggle_places :: "jsval \<Rightarrow> jsval list" where
  "toggle_places resp = (let d = path resp digest_path in
     [field d ''togglex'', field d ''toggleX'', field d ''toggle'', path d [''togglex'', ''togglex'']])"

text \<open>The toggle states read from a \<open>System.All\<close> answer: when any of the four places holds a
  readable entry, the readable entries of the first such place, all of them and nothing else,
  sorted by channel (in the device's order within a channel), each with a non-negative channel and a state that
  is 0 or 1; and nothing exactly when no place holds one.\<close>

theorem extract_toggles_first_readable:
  "case extract_lan_toggle_x resp of
     None \<Rightarrow> (\<forall>c \<in> set (toggle_places resp). truthy c \<longrightarrow> (\<forall>v \<in> set (as_array c). toggle_item v = None))
   | Some ts \<Rightarrow> ts \<noteq> [] \<and> sorted (map ts_channel ts) \<and> (\<forall>t \<in> set ts. 0 \<le> ts_channel t \<and> ts_onoff t \<le> 1) \<and>
       (\<exists>pre c post. toggle_places resp = pre @ c # post \<and> truthy c \<and>
          ts = sort_key ts_channel (List.map_filter toggle_item (as_array c)) \<and>
          (\<forall>d \<in> set pre. truthy d \<longrightarrow> (\<forall>v \<in> set (as_array d). toggle_item v = None)))"
proof -
  have empty: "toggle_candidate c = None \<longleftrightarrow> (truthy c \<longrightarrow> (\<forall>v \<in> set (as_array c). toggle_item v = None))" for c
  proof -
    have "List.map_filter toggle_item (as_array c) = [] \<longleftrightarrow> (\<forall>v \<in> set (as_array c). toggle_item v = None)"
      by (auto simp: List.map_filter_def filter_empty_conv)
    then show ?thesis by (auto simp: toggle_candidate_def Let_def)
  qed
  have ex: "extract_lan_toggle_x resp = first_of toggle_candidate (toggle_places resp)"
    by (simp add: extract_lan_toggle_x_def toggle_places_def Let_def)
  have split: "\<exists>pre c post. cs = pre @ c # post \<and> toggle_candidate c = Some ts \<and> (\<forall>d \<in> set pre. toggle_candidate d = None)"
    if "first_of toggle_candidate cs = Some ts" for cs ts
    using that
  proof (induction cs)
    case (Cons c cs)
    show ?case
    proof (cases "toggle_candidate c")
      case None
      with Cons obtain pre x post where "cs = pre @ x # post" "toggle_candidate x = Some ts"
        "\<forall>d \<in> set pre. toggle_candidate d = None" by auto
      with None show ?thesis by (intro exI [of _ "c # pre"] exI [of _ x] exI [of _ post]) auto
    next
      case (Some y)
      with Cons.prems show ?thesis by (intro exI [of _ "[]"] exI [of _ c] exI [of _ cs]) auto
    qed
  qed simp
  show ?thesis
  proof (cases "extract_lan_toggle_x resp")
    case None
    then have "\<forall>c \<in> set (toggle_places resp). toggle_candidate c = None"
      by (simp add: ex first_of_None)
    then show ?thesis unfolding None empty by simp
  next
    case (Some ts)
    with ex split obtain pre c post where c: "toggle_places resp = pre @ c # post"
      "toggle_candidate c = Some ts" "\<forall>d \<in> set pre. toggle_candidate d = None" by metis
    then have ts: "truthy c" "ts \<noteq> []" "ts = js_sort (by_channel ts_channel) (List.map_filter toggle_item (as_array c))"
      by (auto simp: toggle_candidate_def Let_def split: if_splits)
    have "\<forall>t \<in> set ts. 0 \<le> ts_channel t \<and> ts_onoff t \<le> 1"
      using ts(3) by (auto simp: set_map_filter dest: toggle_itemD)
    moreover have "sorted (map ts_channel ts)" unfolding ts(3) by (rule toggles.sorted_by_key)
    moreover have "ts = sort_key ts_channel (List.map_filter toggle_item (as_array c))"
      unfolding ts(3) by (rule toggles.js_sort_is_sort_key)
    ultimately show ?thesis using c(1,3) ts(1,2) unfolding Some empty by auto
  qed
qed

text \<open>An answer whose first place holds no readable entry and whose second holds two.\<close>

definition demo_toggles :: jsval where
  "demo_toggles = JObj [(''payload'', JObj [(''all'', JObj [(''digest'', JObj
     [(''togglex'', JArr [JObj [(''channel'', js_int (- 1))]]),
      (''toggleX'', JArr [JObj [(''channel'', js_int 1), (''onoff'', js_int 1)], JNull,
                         JObj [(''channel'', JStr ''0''), (''onoff'', JStr ''on'')]])])])])]"

lemma demo_toggles_value:
  "extract_lan_toggle_x demo_toggles = Some [\<lparr>ts_channel = 0, ts_onoff = 0\<rparr>, \<lparr>ts_channel = 1, ts_onoff = 1\<rparr>]"
  by code_simp

lemma extract_toggles_first_readable_witness:
  "(\<exists>pre c post. toggle_places demo_toggles = pre @ c # post \<and> truthy c \<and>
      [\<lparr>ts_channel = 0, ts_onoff = 0\<rparr>, \<lparr>ts_channel = 1, ts_onoff = 1\<rparr>] =
        sort_key ts_channel (List.map_filter toggle_item (as_array c)))"
  using extract_toggles_first_readable [of demo_toggles] unfolding demo_toggles_value option.case by blast

section \<open>Colours\<close>

lemma byte_bits:
  assumes "0 \<le> i" "i \<le> 255" "bit (i :: int) n"
  shows "n < 8"
proof -
  have "take_bit 8 i = i" using assms by (simp add: take_bit_int_eq_self_iff)
  then show ?thesis using assms(3) by (metis bit_take_bit_iff)
qed

lemma byte_word:
  assumes "0 \<le> i" "i \<le> 255"
  shows "word_of_int i AND 0xff = (word_of_int i :: 32 word)"
proof -
  have m: "(0xff :: 32 word) = mask 8" by (simp add: mask_numeral)
  show ?thesis unfolding m
    by (rule bit_word_eqI) (auto simp: bit_simps dest: byte_bits [OF assms])
qed

lemma pack_rgb_value:
  assumes "0 \<le> r" "r \<le> 255" "0 \<le> g" "g \<le> 255" "0 \<le> b" "b \<le> 255"
  shows "pack_rgb r g b = r * 65536 + g * 256 + b"
proof -
  define R G B where "R = (word_of_int r :: 32 word)" and "G = (word_of_int g :: 32 word)" and "B = (word_of_int b :: 32 word)"
  have "push_bit 16 R AND push_bit 8 G = 0" "(push_bit 16 R OR push_bit 8 G) AND B = 0"
    unfolding R_def G_def B_def
    by (rule bit_word_eqI; force simp: bit_simps dest: byte_bits [OF assms(1,2)] byte_bits [OF assms(3,4)]
        byte_bits [OF assms(5,6)])+
  then have "push_bit 16 R OR push_bit 8 G OR B = push_bit 16 R + push_bit 8 G + B"
    by (simp only: disjunctive_add_eq_or or.assoc)
  also have "\<dots> = word_of_int (r * 65536 + g * 256 + b)"
    by (simp add: R_def G_def B_def push_bit_eq_mult)
  finally have w: "push_bit 16 R OR push_bit 8 G OR B = word_of_int (r * 65536 + g * 256 + b)" .
  have "0 \<le> r * 65536 + g * 256 + b" "r * 65536 + g * 256 + b < 2 ^ 31" using assms by simp_all
  then have "signed_take_bit 31 (r * 65536 + g * 256 + b) = r * 65536 + g * 256 + b"
    by (intro signed_take_bit_int_eq_self) simp_all
  then show ?thesis
    unfolding pack_rgb_def byte_word [OF assms(1,2)] byte_word [OF assms(3,4)] byte_word [OF assms(5,6)]
      w [unfolded R_def G_def B_def]
    by (simp only: signed_of_int) simp
qed

lemma rgb_componentD: "rgb_component v = Some i \<Longrightarrow> v = Some (of_int i) \<and> 0 \<le> i \<and> i \<le> 255"
  by (auto simp: rgb_component_def split: option.splits if_splits dest: integer_num_SomeD)

text \<open>A colour given by components, as an array or as an object with short or long names, is
  read exactly when the three components are integers from 0 to 255; it is then the number
  0xRRGGBB, from which the components can be read back, without any sign or overflow effect of the
  32-bit operators.\<close>

theorem coerce_rgb_components:
  "(coerce_rgb (JArr (r # g # b # vs)) = Some c \<longleftrightarrow>
     (\<exists>ri gi bi. map coerce_finite_number [r, g, b] = map (\<lambda>i. Some (of_int i)) [ri, gi, bi] \<and>
        list_all (\<lambda>i. 0 \<le> i \<and> i \<le> 255) [ri, gi, bi] \<and> c = ri * 65536 + gi * 256 + bi \<and>
        0 \<le> c \<and> c \<le> 0xffffff \<and> c div 65536 = ri \<and> c div 256 mod 256 = gi \<and> c mod 256 = bi)) \<and>
   coerce_rgb (JObj [(''r'', r), (''g'', g), (''b'', b)]) = coerce_rgb (JArr [r, g, b]) \<and>
   coerce_rgb (JObj [(''red'', r), (''green'', g), (''blue'', b)]) = coerce_rgb (JArr [r, g, b])"
proof -
  have comp: "rgb_component v = Some i \<longleftrightarrow> v = Some (of_int i) \<and> 0 \<le> i \<and> i \<le> 255" for v i
    by (auto simp: rgb_component_def split: option.splits if_splits dest: integer_num_SomeD)
  have val: "rgb_of_components x y z = Some c \<longleftrightarrow>
     (\<exists>ri gi bi. [x, y, z] = map (\<lambda>i. Some (of_int i)) [ri, gi, bi] \<and>
        list_all (\<lambda>i. 0 \<le> i \<and> i \<le> 255) [ri, gi, bi] \<and> c = ri * 65536 + gi * 256 + bi)" for x y z
  proof
    assume "rgb_of_components x y z = Some c"
    then obtain ri gi bi where "rgb_component x = Some ri" "rgb_component y = Some gi"
      "rgb_component z = Some bi" "c = pack_rgb ri gi bi"
      by (auto simp: rgb_of_components_def split: option.splits)
    then show "\<exists>ri gi bi. [x, y, z] = map (\<lambda>i. Some (of_int i)) [ri, gi, bi] \<and>
        list_all (\<lambda>i. 0 \<le> i \<and> i \<le> 255) [ri, gi, bi] \<and> c = ri * 65536 + gi * 256 + bi"
      unfolding comp by (intro exI [of _ ri] exI [of _ gi] exI [of _ bi]) (simp add: pack_rgb_value)
  next
    assume "\<exists>ri gi bi. [x, y, z] = map (\<lambda>i. Some (of_int i)) [ri, gi, bi] \<and>
        list_all (\<lambda>i. 0 \<le> i \<and> i \<le> 255) [ri, gi, bi] \<and> c = ri * 65536 + gi * 256 + bi"
    then obtain ri gi bi where "[x, y, z] = map (\<lambda>i. Some (of_int i)) [ri, gi, bi]"
        "list_all (\<lambda>i. 0 \<le> i \<and> i \<le> 255) [ri, gi, bi]" "c = ri * 65536 + gi * 256 + bi"
      by (elim exE conjE)
    then have "rgb_component x = Some ri" "rgb_component y = Some gi" "rgb_component z = Some bi"
      "c = pack_rgb ri gi bi"
      unfolding comp by (simp_all add: pack_rgb_value)
    then show "rgb_of_components x y z = Some c" by (simp add: rgb_of_components_def)
  qed
  have bytes: "(c = ri * 65536 + gi * 256 + bi) = (c = ri * 65536 + gi * 256 + bi \<and>
        0 \<le> c \<and> c \<le> 0xffffff \<and> c div 65536 = ri \<and> c div 256 mod 256 = gi \<and> c mod 256 = bi)"
    if "list_all (\<lambda>i. 0 \<le> i \<and> i \<le> 255) [ri, gi, bi]" for ri gi bi :: int
  proof -
    have "ri * 65536 + gi * 256 + bi = bi + (gi + ri * 256) * 256" by simp
    then have "(ri * 65536 + gi * 256 + bi) mod 256 = bi" "(ri * 65536 + gi * 256 + bi) div 256 = gi + ri * 256"
      using that by (simp_all only: mod_mult_self1 div_mult_self1) simp_all
    with that show ?thesis by auto
  qed
  have "coerce_rgb (JArr (r # g # b # vs)) = Some c \<longleftrightarrow>
     (\<exists>ri gi bi. map coerce_finite_number [r, g, b] = map (\<lambda>i. Some (of_int i)) [ri, gi, bi] \<and>
        list_all (\<lambda>i. 0 \<le> i \<and> i \<le> 255) [ri, gi, bi] \<and> c = ri * 65536 + gi * 256 + bi)"
    using val by (simp add: coerce_rgb_def coerce_finite_number_def [of "JArr _"])
  also have "\<dots> \<longleftrightarrow> (\<exists>ri gi bi. map coerce_finite_number [r, g, b] = map (\<lambda>i. Some (of_int i)) [ri, gi, bi] \<and>
        list_all (\<lambda>i. 0 \<le> i \<and> i \<le> 255) [ri, gi, bi] \<and> c = ri * 65536 + gi * 256 + bi \<and>
        0 \<le> c \<and> c \<le> 0xffffff \<and> c div 65536 = ri \<and> c div 256 mod 256 = gi \<and> c mod 256 = bi)"
    by (intro ex_cong1 conj_cong refl) (rule bytes)
  finally have arr: "coerce_rgb (JArr (r # g # b # vs)) = Some c \<longleftrightarrow>
     (\<exists>ri gi bi. map coerce_finite_number [r, g, b] = map (\<lambda>i. Some (of_int i)) [ri, gi, bi] \<and>
        list_all (\<lambda>i. 0 \<le> i \<and> i \<le> 255) [ri, gi, bi] \<and> c = ri * 65536 + gi * 256 + bi \<and>
        0 \<le> c \<and> c \<le> 0xffffff \<and> c div 65536 = ri \<and> c div 256 mod 256 = gi \<and> c mod 256 = bi)" .
  have opt: "coerce_finite_number (nn v JUndef) = coerce_finite_number v" "nn JUndef v = v" for v
    by (cases v; simp add: nn_def coerce_finite_number_def)+
  have "coerce_rgb (JObj [(''r'', r), (''g'', g), (''b'', b)]) = coerce_rgb (JArr [r, g, b])"
    "coerce_rgb (JObj [(''red'', r), (''green'', g), (''blue'', b)]) = coerce_rgb (JArr [r, g, b])"
    by (simp_all add: coerce_rgb_def coerce_finite_number_def [of "JArr _"] coerce_finite_number_def [of "JObj _"] opt)
  with arr show ?thesis by blast
qed

text \<open>An electrical reading: the raw figures are the device's, rounded to an integer, and the
  scaled ones are volts, amperes and watts; each is there exactly when the device reported a finite
  number; a reading without any of the three is never returned, and neither is one of an invalid
  channel.\<close>

theorem electricity_scaled:
  "case extract_lan_electricity resp of
     None \<Rightarrow> True
   | Some e \<Rightarrow>
       0 \<le> el_channel e \<and> \<not> (el_voltage_v e = None \<and> el_current_a e = None \<and> el_power_w e = None) \<and>
       el_voltage_dv e = map_option (\<lambda>v. js_round (10 * v)) (el_voltage_v e) \<and>
       el_current_ma e = map_option (\<lambda>a. js_round (1000 * a)) (el_current_a e) \<and>
       el_power_mw e = map_option (\<lambda>w. js_round (1000 * w)) (el_power_w e) \<and>
       (\<exists>src. src \<in> set electricity_places \<and>
          el_voltage_v e = map_option (\<lambda>x. x / 10) (coerce_finite_number (field (path resp src) ''voltage'')) \<and>
          el_current_a e = map_option (\<lambda>x. x / 1000) (coerce_finite_number (field (path resp src) ''current'')) \<and>
          el_power_w e = map_option (\<lambda>x. x / 1000) (coerce_finite_number (field (path resp src) ''power'')))"
proof (cases "extract_lan_electricity resp")
  case (Some e)
  then obtain src where src: "src \<in> set electricity_places"
    "electricity_candidate (path resp src) = Some e"
    unfolding extract_lan_electricity_def by (auto dest!: first_of_Some)
  define c where "c = path resp src"
  have e: "0 \<le> el_channel e"
    "el_voltage_v e = map_option (\<lambda>x. x / 10) (coerce_finite_number (field c ''voltage''))"
    "el_current_a e = map_option (\<lambda>x. x / 1000) (coerce_finite_number (field c ''current''))"
    "el_power_w e = map_option (\<lambda>x. x / 1000) (coerce_finite_number (field c ''power''))"
    "el_voltage_dv e = map_option js_round (coerce_finite_number (field c ''voltage''))"
    "el_current_ma e = map_option js_round (coerce_finite_number (field c ''current''))"
    "el_power_mw e = map_option js_round (coerce_finite_number (field c ''power''))"
    "\<not> (coerce_finite_number (field c ''voltage'') = None \<and>
       coerce_finite_number (field c ''current'') = None \<and> coerce_finite_number (field c ''power'') = None)"
    using src(2) unfolding electricity_candidate_def Let_def c_def [symmetric]
    by (simp_all split: if_split_asm option.split_asm) auto
  then have "\<not> (el_voltage_v e = None \<and> el_current_a e = None \<and> el_power_w e = None)"
    by (simp only: option.map_disc_iff simp_thms)
  moreover from e have "el_voltage_dv e = map_option (\<lambda>v. js_round (10 * v)) (el_voltage_v e)"
    "el_current_ma e = map_option (\<lambda>a. js_round (1000 * a)) (el_current_a e)"
    "el_power_mw e = map_option (\<lambda>w. js_round (1000 * w)) (el_power_w e)"
    by (simp_all add: option.map_comp comp_def)
  ultimately show ?thesis using e src(1) Some unfolding c_def by auto
qed simp

text \<open>A schedule digest comes from the place \<open>digest.timerx\<close> (or \<open>digest.triggerx\<close>) alone: the
  entries there with a non-negative integer channel and a non-empty trimmed id, with a count that
  is not negative, sorted by channel and then by id under the collation; whatever the place below
  it, where some firmwares put the entries, holds is not read.\<close>

theorem schedule_digest_sorted:
  assumes "collation lc"
  shows "(let out = extract_lan_schedule_digest lc kind resp; d = field (path resp digest_path) kind in
     sorted_wrt (\<lambda>a b. de_channel a < de_channel b \<or>
        (de_channel a = de_channel b \<and> lc (de_id a) (de_id b) \<le> 0)) out \<and>
     mset out = mset (if truthy d then List.map_filter digest_item (as_array d) else []) \<and>
     (\<forall>e \<in> set out. 0 \<le> de_channel e \<and> de_id e \<noteq> [] \<and> 0 \<le> de_count e))"
proof -
  define d where "d = field (path resp digest_path) kind"
  define es where "es = (if truthy d then List.map_filter digest_item (as_array d) else [])"
  have out: "extract_lan_schedule_digest lc kind resp = js_sort (digest_cmp lc) es"
  proof (cases "truthy d")
    case False
    then have "\<not> truthy (field d kind)" by (cases d) auto
    with False show ?thesis
      by (simp add: extract_lan_schedule_digest_def digest_candidate_def Let_def path_append es_def flip: d_def)
  qed (simp add: extract_lan_schedule_digest_def digest_candidate_def Let_def es_def flip: d_def)
  have c: "comparator (digest_cmp lc)"
    unfolding digest_cmp_def by (rule collation.comparator_cmp_then [OF assms])
  have le: "digest_cmp lc a b \<le> 0 \<longleftrightarrow> de_channel a < de_channel b \<or>
        (de_channel a = de_channel b \<and> lc (de_id a) (de_id b) \<le> 0)" for a b
    by (auto simp: digest_cmp_def cmp_then_def Let_def)
  have "0 \<le> de_channel e \<and> de_id e \<noteq> [] \<and> 0 \<le> de_count e" if "e \<in> set es" for e
    using that by (auto simp: es_def set_map_filter dest: digest_itemD split: if_splits)
  then show ?thesis
    using comparator.sorted_js_sort [OF c, of es] unfolding out le Let_def d_def [symmetric]
    by (simp add: es_def [symmetric])
qed


definition demo_digest :: jsval where
  "demo_digest = JObj [(''payload'', JObj [(''all'', JObj [(''digest'', JObj
     [(''timerx'', JArr [JObj [(''channel'', js_int 1), (''id'', JStr ''b ''), (''count'', js_int 2)],
        JObj [(''channel'', js_int 0), (''id'', JStr ''c'')], JObj [(''channel'', js_int 1), (''id'', JStr ''a'')],
        JObj [(''channel'', js_int 1), (''id'', JStr '' '')]])])])])]"

lemma schedule_digest_sorted_witness:
  "map de_id (extract_lan_schedule_digest codeunit_compare ''timerx'' demo_digest) = [''c'', ''a'', ''b''] \<and>
   list_all (\<lambda>e. 0 \<le> de_channel e \<and> de_id e \<noteq> [] \<and> 0 \<le> de_count e)
     (extract_lan_schedule_digest codeunit_compare ''timerx'' demo_digest)"
proof
  show "map de_id (extract_lan_schedule_digest codeunit_compare ''timerx'' demo_digest) = [''c'', ''a'', ''b'']"
    by code_simp
qed (use schedule_digest_sorted [OF codeunit.collation_axioms, of "''timerx''" demo_digest] in \<open>simp add: Let_def list_all_iff\<close>)

end
