(* ===== verification/Json.thy ===== *)
theory Json
  imports Prelude
begin

text \<open>
  \<open>JSON.parse\<close>, as far as the source depends on it: the grammar of RFC 8259 on strings of code
  units, objects with their keys in order of first appearance and the last value of a repeated key,
  exact numbers. \<open>None\<close> is the exception. The parser runs on fuel; every nested value consumes at
  least a character, so the length of the text is enough (\<open>json_parse\<close>).
\<close>

definition json_space :: "char \<Rightarrow> bool" where
  "json_space c \<longleftrightarrow> code_of c \<in> {9, 10, 13, 32}"

definition skip_ws :: "string \<Rightarrow> string" where
  "skip_ws s = dropWhile json_space s"

text \<open>The character an escape stands for; \<open>None\<close> when it is not one.\<close>

definition simple_escape :: "char \<Rightarrow> char option" where
  "simple_escape c = (let n = code_of c in
     if n = 34 \<or> n = 92 \<or> n = 47 then Some c
     else if n = 98 then Some (char_of (8 :: nat)) else if n = 102 then Some (char_of (12 :: nat))
     else if n = 110 then Some (char_of (10 :: nat)) else if n = 114 then Some (char_of (13 :: nat))
     else if n = 116 then Some (char_of (9 :: nat)) else None)"

text \<open>What follows an opening quote. A \<open>u\<close> escape above 255 has no place in the string model.\<close>

function json_string :: "string \<Rightarrow> (string \<times> string) option" where
  "json_string s = (case s of
       [] \<Rightarrow> None
     | c # t \<Rightarrow>
         if code_of c = 34 then Some ([], t)
         else if code_of c = 92 then
           (case t of
              [] \<Rightarrow> None
            | e # u \<Rightarrow>
                if code_of e = 117 then
                  (if length u < 4 \<or> \<not> all_radix 16 (take 4 u) \<or> 255 < nat_of_radix 16 (take 4 u) then None
                   else map_option (\<lambda>(x, r). (char_of (nat_of_radix 16 (take 4 u)) # x, r)) (json_string (drop 4 u)))
                else (case simple_escape e of
                    None \<Rightarrow> None
                  | Some d \<Rightarrow> map_option (\<lambda>(x, r). (d # x, r)) (json_string u)))
         else if code_of c < 32 then None
         else map_option (\<lambda>(x, r). (c # x, r)) (json_string t))"
  by pat_completeness auto
termination
  by (relation "measure length") auto

declare json_string.simps [simp del]

text \<open>A number: the value and the rest.\<close>

definition json_number :: "string \<Rightarrow> (jsval \<times> string) option" where
  "json_number s =
     (let (neg, s1) = (if starts_with ''-'' s then (True, tl s) else (False, s));
          ip = takeWhile is_digit s1; r1 = dropWhile is_digit s1;
          (fp, r2, fok) = (if starts_with ''.'' r1
             then (takeWhile is_digit (tl r1), dropWhile is_digit (tl r1), takeWhile is_digit (tl r1) \<noteq> [])
             else ([], r1, True));
          (ex, r3, eok) = (case r2 of
             [] \<Rightarrow> (0, r2, True)
           | c # t \<Rightarrow>
               if code_of c = 101 \<or> code_of c = 69 then
                 (let (sg, u) = split_sign t; ds = takeWhile is_digit u
                  in (sg * int (nat_of_digits ds), dropWhile is_digit u, ds \<noteq> []))
               else (0, r2, True));
          v = of_nat (nat_of_digits (ip @ fp)) * pow10 (ex - int (length fp))
      in if ip = [] \<or> (1 < length ip \<and> code_of (hd ip) = 48) \<or> \<not> fok \<or> \<not> eok then None
         else Some (js_rat (if neg then - v else v), r3))"

fun json_value :: "nat \<Rightarrow> string \<Rightarrow> (jsval \<times> string) option"
  and json_members :: "nat \<Rightarrow> (string \<times> jsval) list \<Rightarrow> string \<Rightarrow> (jsval \<times> string) option"
  and json_elements :: "nat \<Rightarrow> jsval list \<Rightarrow> string \<Rightarrow> (jsval \<times> string) option" where
  "json_value 0 s = None"
| "json_value (Suc n) s0 = (let s = skip_ws s0 in
     if starts_with ''null'' s then Some (JNull, drop 4 s)
     else if starts_with ''true'' s then Some (JBool True, drop 4 s)
     else if starts_with ''false'' s then Some (JBool False, drop 5 s)
     else case s of
         [] \<Rightarrow> None
       | c # t \<Rightarrow>
           if code_of c = 34 then map_option (\<lambda>(x, r). (JStr x, r)) (json_string t)
           else if code_of c = 123 then
             (if starts_with [CHR 0x7D] (skip_ws t) then Some (JObj [], tl (skip_ws t)) else json_members n [] t)
           else if code_of c = 91 then
             (if starts_with [CHR 0x5D] (skip_ws t) then Some (JArr [], tl (skip_ws t)) else json_elements n [] t)
           else json_number s)"
| "json_members 0 acc s = None"
| "json_members (Suc n) acc s = (let t = skip_ws s in
     if \<not> starts_with [CHR 0x22] t then None
     else case json_string (tl t) of
         None \<Rightarrow> None
       | Some (k, r) \<Rightarrow>
           if \<not> starts_with '':'' (skip_ws r) then None
           else case json_value n (tl (skip_ws r)) of
               None \<Rightarrow> None
             | Some (v, r2) \<Rightarrow>
                 (let acc' = AList.update k v acc; r3 = skip_ws r2 in
                  if starts_with '','' r3 then json_members n acc' (tl r3)
                  else if starts_with [CHR 0x7D] r3 then Some (JObj acc', tl r3) else None))"
| "json_elements 0 acc s = None"
| "json_elements (Suc n) acc s =
     (case json_value n s of
        None \<Rightarrow> None
      | Some (v, r2) \<Rightarrow>
          (let r3 = skip_ws r2 in
           if starts_with '','' r3 then json_elements n (acc @ [v]) (tl r3)
           else if starts_with [CHR 0x5D] r3 then Some (JArr (acc @ [v]), tl r3) else None))"

definition json_parse :: "string \<Rightarrow> jsval option" where
  "json_parse s = (case json_value (Suc (length s)) s of
       None \<Rightarrow> None
     | Some (v, r) \<Rightarrow> if skip_ws r = [] then Some v else None)"

text \<open>The parser on a text with nesting, escapes, a repeated key and a fraction.\<close>

lemma json_parse_sample:
  "json_parse ('' {'' @ [CHR 0x22] @ ''a'' @ [CHR 0x22] @ '': [1, -2.5e1 ,null], '' @ [CHR 0x22] @ ''b'' @ [CHR 0x22]
      @ '':'' @ [CHR 0x22, CHR 0x5C] @ ''u0041'' @ [CHR 0x22] @ '', '' @ [CHR 0x22] @ ''a'' @ [CHR 0x22] @ '': {} } '')
   = Some (JObj [(''a'', JObj []), (''b'', JStr ''A'')])"
  by code_simp

end
