(* ===== verification/Cloud.thy ===== *)
theory Cloud
  imports LanMessage Json
begin

text \<open>
  The cloud client, \<open>packages/core/src/meross/cloud/http.ts\<close>: signed posts, the redirect to a
  regional domain (status 1030), the login with its rotation over the regional domains (status
  1004), the device list and its lenient extraction.

  Arguments of the model, in the record \<open>cloud_env\<close>: \<open>md5\<close> and the base64 of a value's JSON text
  (\<open>node:crypto\<close>, \<open>Buffer\<close>), the nonce and the clock of each request, the machine's description and
  \<open>fetch\<close>, which may answer each request in the light of the requests before it. The requests sent
  are threaded through as the list of the calls so far. The debug log is not modelled, its level is.
\<close>

section \<open>Requests\<close>

record cloud_call =
  cc_url :: string
  cc_authorization :: string
  cc_params :: jsval
  cc_encoded :: string
  cc_sign :: string
  cc_timestamp :: int
  cc_nonce :: string
  cc_timeout_ms :: rat

record cloud_env =
  ce_md5 :: "string \<Rightarrow> string"
  ce_encode :: "jsval \<Rightarrow> string"
  ce_nonce :: "nat \<Rightarrow> string"
  ce_clock :: "nat \<Rightarrow> int"
  ce_device_model :: string
  ce_os_version :: string
  ce_os :: string
  ce_log_id :: string
  ce_fetch :: "cloud_call list \<Rightarrow> cloud_call \<Rightarrow> http_reply"

text \<open>A \<open>MerossCloudError\<close> with the status and info it carries, or another exception.\<close>

datatype cloud_error =
    CloudError string "jsnum option" jsval
  | OtherError string

fun error_message :: "cloud_error \<Rightarrow> string" where
  "error_message (CloudError m _ _) = m"
| "error_message (OtherError m) = m"

definition slash :: string where
  "slash = [CHR 0x2F]"

definition secret :: string where
  "secret = ''23x17ahWarFH6w29''"

definition default_domain :: string where
  "default_domain = ''iotx.meross.com''"

definition default_fallback_domains :: "string list" where
  "default_fallback_domains =
     [default_domain, ''iotx-ap.meross.com'', ''iotx-us.meross.com'', ''iotx-eu.meross.com'']"

text \<open>\<open>domain.replace(/^https?:\/\//, '').replace(/\/+$/, '')\<close>\<close>

definition strip_trailing :: "char \<Rightarrow> string \<Rightarrow> string" where
  "strip_trailing c s = rev (dropWhile (\<lambda>d. d = c) (rev s))"

definition strip_scheme :: "string \<Rightarrow> string" where
  "strip_scheme domain =
     strip_trailing (CHR 0x2F)
       (if starts_with (''http:'' @ slash @ slash) domain then drop 7 domain
        else if starts_with (''https:'' @ slash @ slash) domain then drop 8 domain
        else domain)"

definition auth_debug_level :: "string option \<Rightarrow> nat" where
  "auth_debug_level env = (let raw = to_lower (trim (or_else env [])) in
     if raw = [] \<or> raw = ''0'' \<or> raw = ''false'' \<or> raw = ''off'' then 0
     else if raw = ''2'' \<or> raw = ''verbose'' \<or> raw = ''debug'' then 2
     else 1)"

record post_opts =
  po_token :: "string option"
  po_domain :: string
  po_scheme :: string
  po_timeout_ms :: rat

definition cloud_url :: "string \<Rightarrow> string \<Rightarrow> string \<Rightarrow> string" where
  "cloud_url scheme domain endpoint = scheme @ '':'' @ slash @ slash @ domain @ endpoint"

definition api_status :: "jsval \<Rightarrow> jsnum option" where
  "api_status r = (case field r ''apiStatus'' of JNum n \<Rightarrow> Some n | _ \<Rightarrow> None)"

definition authenticated_post ::
  "cloud_env \<Rightarrow> string \<Rightarrow> jsval \<Rightarrow> post_opts \<Rightarrow> cloud_call list \<Rightarrow> cloud_call list \<times> (cloud_error + jsval)" where
  "authenticated_post env endpoint params opts calls =
     (let nonce = ce_nonce env (length calls);
          timestamp_ms = ce_clock env (length calls);
          encoded = ce_encode env params;
          sign = ce_md5 env (secret @ dec_of_int timestamp_ms @ nonce @ encoded);
          call = \<lparr>cc_url = cloud_url (po_scheme opts) (po_domain opts) endpoint,
                  cc_authorization = (case po_token opts of
                      None \<Rightarrow> ''Basic'' | Some t \<Rightarrow> if t = [] then ''Basic'' else ''Basic '' @ t),
                  cc_params = params, cc_encoded = encoded, cc_sign = sign,
                  cc_timestamp = timestamp_ms, cc_nonce = nonce, cc_timeout_ms = po_timeout_ms opts\<rparr>
      in (calls @ [call],
          case ce_fetch env calls call of
            Rejected e \<Rightarrow> Inl (OtherError e)
          | Response st st_text txt _ \<Rightarrow>
              (let raw = (case txt of Inr t \<Rightarrow> t | Inl _ \<Rightarrow> []);
                   json = (if raw = [] then JNull else or_else (json_parse raw) JNull)
               in if api_status json = None
                  then Inl (CloudError (''Invalid cloud response ('' @ dec_of_int st @ '')'') None JUndef)
                  else Inr json)))"

text \<open>A status is compared with a number.\<close>

definition status_is :: "int \<Rightarrow> jsval \<Rightarrow> bool" where
  "status_is n r \<longleftrightarrow> api_status r = Some (Fin (of_int n))"

text \<open>The redirect: two attempts that may be sent elsewhere and a last one that may not.\<close>

fun redirect_loop ::
  "nat \<Rightarrow> cloud_env \<Rightarrow> string \<Rightarrow> jsval \<Rightarrow> post_opts \<Rightarrow> string \<Rightarrow> cloud_call list \<Rightarrow>
     cloud_call list \<times> (cloud_error + string \<times> jsval)" where
  "redirect_loop 0 env endpoint params opts domain calls =
     (case authenticated_post env endpoint params (opts\<lparr>po_domain := domain\<rparr>) calls of
        (cs, Inl e) \<Rightarrow> (cs, Inl e)
      | (cs, Inr resp) \<Rightarrow> (cs, Inr (domain, resp)))"
| "redirect_loop (Suc n) env endpoint params opts domain calls =
     (case authenticated_post env endpoint params (opts\<lparr>po_domain := domain\<rparr>) calls of
        (cs, Inl e) \<Rightarrow> (cs, Inl e)
      | (cs, Inr resp) \<Rightarrow>
          (case path resp [''data'', ''domain''] of
             JStr next \<Rightarrow>
               if status_is 1030 resp \<and> next \<noteq> []
               then redirect_loop n env endpoint params opts (strip_scheme next) cs
               else (cs, Inr (domain, resp))
           | _ \<Rightarrow> (cs, Inr (domain, resp))))"

definition post_with_redirect ::
  "cloud_env \<Rightarrow> string \<Rightarrow> jsval \<Rightarrow> post_opts \<Rightarrow> cloud_call list \<Rightarrow>
     cloud_call list \<times> (cloud_error + string \<times> jsval)" where
  "post_with_redirect env endpoint params opts calls =
     redirect_loop 2 env endpoint params opts (strip_scheme (po_domain opts)) calls"

section \<open>Login\<close>

record cloud_creds =
  cr_domain :: string
  cr_mqtt_domain :: "string option"
  cr_token :: string
  cr_key :: string
  cr_user_id :: string
  cr_user_email :: string

record login_params =
  lp_email :: string
  lp_password :: string
  lp_mfa_code :: "string option"

record cloud_http_options =
  ho_timeout_ms :: "rat option"
  ho_domain :: "string option"
  ho_scheme :: "string option"
  ho_encryption :: "int option"

definition sign_in_params :: "cloud_env \<Rightarrow> login_params \<Rightarrow> cloud_http_options \<Rightarrow> jsval" where
  "sign_in_params env params options = JObj
     ([(''email'', JStr (lp_email params)),
       (''password'', JStr (ce_md5 env (lp_password params))),
       (''accountCountryCode'', JStr ''us''),
       (''agree'', js_int 0),
       (''encryption'', js_int (or_else (ho_encryption options) 1)),
       (''mobileInfo'', JObj
          [(''deviceModel'', JStr (ce_device_model env)), (''mobileOsVersion'', JStr (ce_os_version env)),
           (''mobileOs'', JStr (ce_os env)), (''uuid'', JStr (ce_log_id env)), (''carrier'', JStr [])])]
      @ (case lp_mfa_code params of
           None \<Rightarrow> [] | Some c \<Rightarrow> if c = [] then [] else [(''mfaCode'', JStr c)]))"

definition domain_candidates :: "string option \<Rightarrow> string list" where
  "domain_candidates given =
     (let domain = strip_scheme (or_else given default_domain);
          defaults = map strip_scheme default_fallback_domains
      in if or_else given [] \<noteq> []
         then (if domain \<notin> set defaults then [domain]
               else domain # filter (\<lambda>d. d \<noteq> domain) defaults)
         else remdups defaults)"

fun login_loop ::
  "cloud_env \<Rightarrow> jsval \<Rightarrow> post_opts \<Rightarrow> string list \<Rightarrow> cloud_call list \<Rightarrow>
     cloud_call list \<times> (cloud_error + string \<times> jsval) option" where
  "login_loop env params opts [] calls = (calls, None)"
| "login_loop env params opts (candidate # rest) calls =
     (case post_with_redirect env (slash @ ''v1'' @ slash @ ''Auth'' @ slash @ ''signIn'') params
             (opts\<lparr>po_domain := candidate\<rparr>) calls of
        (cs, Inl e) \<Rightarrow> (cs, Some (Inl e))
      | (cs, Inr (domain, resp)) \<Rightarrow>
          if status_is 0 resp then (cs, Some (Inr (domain, resp)))
          else if status_is 1004 resp \<and> rest \<noteq> [] then login_loop env params opts rest cs
          else (cs, Some (Inr (domain, resp))))"

text \<open>\<open>String(v ?? '')\<close>\<close>

definition str_or_empty :: "jsval \<Rightarrow> string" where
  "str_or_empty v = str_of (nn v (JStr []))"

definition creds_of_response :: "string \<Rightarrow> string \<Rightarrow> jsval \<Rightarrow> cloud_error + cloud_creds" where
  "creds_of_response email resolved resp =
     (let data = nn (field resp ''data'') (JObj []);
          token = str_or_empty (field data ''token'');
          key = str_or_empty (field data ''key'');
          user_id = str_or_empty (nn (field data ''userid'') (field data ''userId''));
          user_email = str_of (nn (field data ''email'') (JStr email));
          mqtt = (case field data ''mqttDomain'' of JStr s \<Rightarrow> Some s | _ \<Rightarrow> None);
          final = strip_scheme (case field data ''domain'' of JStr s \<Rightarrow> s | _ \<Rightarrow> resolved)
      in if token = [] \<or> key = [] \<or> user_id = []
         then Inl (CloudError (''Cloud signIn did not return token'' @ slash @ ''key'' @ slash @ ''userid'') None JUndef)
         else Inr \<lparr>cr_domain = final, cr_mqtt_domain = mqtt, cr_token = token, cr_key = key,
                   cr_user_id = user_id, cr_user_email = user_email\<rparr>)"

definition meross_cloud_login ::
  "cloud_env \<Rightarrow> login_params \<Rightarrow> cloud_http_options \<Rightarrow> cloud_call list \<times> (cloud_error + cloud_creds)" where
  "meross_cloud_login env params options =
     (let opts = \<lparr>po_token = None, po_domain = [], po_scheme = or_else (ho_scheme options) ''https'',
                  po_timeout_ms = or_else (ho_timeout_ms options) 15000\<rparr>;
          (calls, outcome) =
            login_loop env (sign_in_params env params options) opts (domain_candidates (ho_domain options)) []
      in (calls,
          case outcome of
            None \<Rightarrow> Inl (CloudError ''Cloud signIn failed'' None JUndef)
          | Some (Inl e) \<Rightarrow> Inl e
          | Some (Inr (domain, resp)) \<Rightarrow>
              if status_is 0 resp then creds_of_response (lp_email params) domain resp
              else Inl (CloudError ''Cloud signIn failed'' (api_status resp) (field resp ''info''))))"

section \<open>The device list\<close>

definition is_device_like :: "jsval \<Rightarrow> bool" where
  "is_device_like v \<longleftrightarrow> is_object v \<and> is_string (field v ''uuid'')"

definition coerce_json :: "jsval \<Rightarrow> jsval" where
  "coerce_json v = (case v of
       JStr raw \<Rightarrow>
         (let s = trim raw in
          if s = [] then v
          else if \<not> (starts_with [CHR 0x7B] s \<or> starts_with [CHR 0x5B] s) then v
          else or_else (json_parse s) v)
     | _ \<Rightarrow> v)"

definition device_list :: "jsval \<Rightarrow> jsval list option" where
  "device_list v = (case v of
       JArr [] \<Rightarrow> Some []
     | JArr (d # ds) \<Rightarrow> if is_device_like d then Some (d # ds) else None
     | _ \<Rightarrow> None)"

fun first_device_list :: "jsval list \<Rightarrow> jsval list option" where
  "first_device_list [] = None"
| "first_device_list (c # cs) =
     (case device_list c of
        Some ds \<Rightarrow> Some ds
      | None \<Rightarrow>
          (case first_some (device_list (field c ''devList''))
                  (first_some (device_list (field c ''list'')) (device_list (field c ''devices''))) of
             Some ds \<Rightarrow> Some ds
           | None \<Rightarrow> first_device_list cs))"

definition extract_cloud_device_list :: "jsval \<Rightarrow> jsval list option" where
  "extract_cloud_device_list data =
     (let obj = coerce_json data in
      case device_list obj of
        Some ds \<Rightarrow> Some ds
      | None \<Rightarrow>
          if \<not> is_object obj then None
          else first_device_list (map coerce_json
            [field obj ''devList'', field obj ''deviceList'', field obj ''list'', field obj ''devices'',
             path obj [''data'', ''devList''], path obj [''data'', ''deviceList''], path obj [''data'', ''list''],
             if truthy (field obj ''payload'') then coerce_json (field obj ''payload'') else JUndef]))"

fun js_typeof :: "jsval \<Rightarrow> string" where
  "js_typeof JUndef = ''undefined''"
| "js_typeof JNull = ''object''"
| "js_typeof (JBool _) = ''boolean''"
| "js_typeof (JNum _) = ''number''"
| "js_typeof (JStr _) = ''string''"
| "js_typeof (JArr _) = ''object''"
| "js_typeof (JObj _) = ''object''"

definition missing_list_message :: "jsval \<Rightarrow> string" where
  "missing_list_message data =
     (let data_type = (case data of JNull \<Rightarrow> ''null'' | JArr _ \<Rightarrow> ''array'' | _ \<Rightarrow> js_typeof data);
          keys = (case data of JObj kvs \<Rightarrow> take 20 (map fst kvs) | _ \<Rightarrow> [])
      in ''Cloud devList response missing devList[] (dataType='' @ data_type
         @ (if keys = [] then [] else '' keys='' @ join_with '','' keys) @ '')'')"

definition meross_cloud_list_devices ::
  "cloud_env \<Rightarrow> cloud_creds \<Rightarrow> cloud_http_options \<Rightarrow> cloud_call list \<times> (cloud_error + jsval list)" where
  "meross_cloud_list_devices env creds options =
     (case post_with_redirect env (slash @ ''v1'' @ slash @ ''Device'' @ slash @ ''devList'') (JObj [])
             \<lparr>po_token = Some (cr_token creds), po_domain = cr_domain creds,
              po_scheme = or_else (ho_scheme options) ''https'',
              po_timeout_ms = or_else (ho_timeout_ms options) 15000\<rparr> [] of
        (calls, Inl e) \<Rightarrow> (calls, Inl e)
      | (calls, Inr (domain, resp)) \<Rightarrow>
          (calls,
           if \<not> status_is 0 resp then Inl (CloudError ''Cloud devList failed'' (api_status resp) (field resp ''info''))
           else case extract_cloud_device_list (field resp ''data'') of
               None \<Rightarrow> Inl (CloudError (missing_list_message (field resp ''data'')) None JUndef)
             | Some ds \<Rightarrow> Inr ds))"

section \<open>What goes out\<close>

definition authorization :: "string option \<Rightarrow> string" where
  "authorization token = (case token of None \<Rightarrow> ''Basic'' | Some t \<Rightarrow> if t = [] then ''Basic'' else ''Basic '' @ t)"

text \<open>A call is signed over the secret, its own time and nonce and the encoded parameters.\<close>

definition call_of :: "cloud_env \<Rightarrow> jsval \<Rightarrow> string option \<Rightarrow> cloud_call \<Rightarrow> bool" where
  "call_of env params token c \<longleftrightarrow> cc_params c = params \<and> cc_encoded c = ce_encode env params \<and>
     cc_sign c = ce_md5 env (secret @ dec_of_int (cc_timestamp c) @ cc_nonce c @ cc_encoded c) \<and>
     cc_authorization c = authorization token"

lemma authenticated_post_call:
  "authenticated_post env endpoint params opts calls = (cs, r) \<Longrightarrow>
     \<exists>c. cs = calls @ [c] \<and> call_of env params (po_token opts) c \<and>
         cc_url c = cloud_url (po_scheme opts) (po_domain opts) endpoint"
  by (auto simp: authenticated_post_def Let_def call_of_def authorization_def)

text \<open>The calls of one post: at most one per attempt, and the domain reported is the last one asked.\<close>

definition post_calls ::
  "cloud_env \<Rightarrow> string \<Rightarrow> jsval \<Rightarrow> post_opts \<Rightarrow> nat \<Rightarrow> cloud_call list \<Rightarrow> (cloud_error + string \<times> jsval) \<Rightarrow> bool" where
  "post_calls env endpoint params opts n new r \<longleftrightarrow>
     new \<noteq> [] \<and> length new \<le> n \<and> list_all (call_of env params (po_token opts)) new \<and>
     (case r of Inl _ \<Rightarrow> True
      | Inr (domain, _) \<Rightarrow> cc_url (last new) = cloud_url (po_scheme opts) domain endpoint)"

lemma post_calls_cons:
  "post_calls env endpoint params opts n new r \<Longrightarrow> call_of env params (po_token opts) c \<Longrightarrow>
     post_calls env endpoint params opts (Suc n) (c # new) r"
  by (auto simp: post_calls_def split: sum.splits)

lemma post_calls_one:
  "call_of env params (po_token opts) c \<Longrightarrow>
     (case r of Inl _ \<Rightarrow> True | Inr (d, _) \<Rightarrow> cc_url c = cloud_url (po_scheme opts) d endpoint) \<Longrightarrow>
     post_calls env endpoint params opts (Suc n) [c] r"
  by (auto simp: post_calls_def split: sum.splits)

lemma redirect_loop_calls:
  "redirect_loop n env endpoint params opts domain calls = (cs, r) \<Longrightarrow>
     \<exists>new. cs = calls @ new \<and> post_calls env endpoint params opts (Suc n) new r"
proof (induction n arbitrary: domain calls)
  case 0
  obtain cs1 a where post: "authenticated_post env endpoint params (opts\<lparr>po_domain := domain\<rparr>) calls = (cs1, a)"
    by fastforce
  from authenticated_post_call [OF this] obtain c where "cs1 = calls @ [c]" "call_of env params (po_token opts) c"
    "cc_url c = cloud_url (po_scheme opts) domain endpoint" by auto
  with 0 post show ?case by (auto split: sum.splits intro!: post_calls_one)
next
  case (Suc n)
  obtain cs1 a where post: "authenticated_post env endpoint params (opts\<lparr>po_domain := domain\<rparr>) calls = (cs1, a)"
    by fastforce
  from authenticated_post_call [OF this] obtain c where c: "cs1 = calls @ [c]" "call_of env params (po_token opts) c"
    "cc_url c = cloud_url (po_scheme opts) domain endpoint" by auto
  have one: ?case if "cs = cs1" "case r of Inl _ \<Rightarrow> True | Inr (d, _) \<Rightarrow> d = domain"
    using that c by (intro exI [of _ "[c]"]) (auto intro!: post_calls_one split: sum.splits)
  show ?case
  proof (cases a)
    case (Inl e)
    with Suc.prems post have "cs = cs1" "r = Inl e" by auto
    with one show ?thesis by simp
  next
    case (Inr resp)
    show ?thesis
    proof (cases "\<exists>next. path resp [''data'', ''domain''] = JStr next \<and> status_is 1030 resp \<and> next \<noteq> []")
      case True
      then obtain nd where nd: "path resp [''data'', ''domain''] = JStr nd" "status_is 1030 resp" "nd \<noteq> []" by blast
      with Suc.prems post Inr have "redirect_loop n env endpoint params opts (strip_scheme nd) cs1 = (cs, r)" by simp
      from Suc.IH [OF this] obtain new where new: "cs = cs1 @ new" "post_calls env endpoint params opts (Suc n) new r"
        by blast
      with c show ?thesis by (intro exI [of _ "c # new"]) (simp add: post_calls_cons)
    next
      case False
      with Suc.prems post Inr have "cs = cs1" "r = Inr (domain, resp)"
        by (auto split: jsval.splits if_splits)
      with one show ?thesis by simp
    qed
  qed
qed

lemma post_with_redirect_calls:
  "post_with_redirect env endpoint params opts calls = (cs, r) \<Longrightarrow>
     \<exists>new. cs = calls @ new \<and> post_calls env endpoint params opts 3 new r"
  unfolding post_with_redirect_def by (drule redirect_loop_calls) (simp add: numeral_3_eq_3)

section \<open>The rotation over the domains\<close>

definition sign_in_endpoint :: string where
  "sign_in_endpoint = slash @ ''v1'' @ slash @ ''Auth'' @ slash @ ''signIn''"

lemma login_loop_calls:
  assumes "login_loop env params opts ds calls = (cs, out)" "ds \<noteq> []"
  shows "\<exists>new pre d post before r. cs = calls @ new \<and> new \<noteq> [] \<and> length new \<le> 3 * length ds \<and>
     list_all (call_of env params (po_token opts)) new \<and> ds = pre @ d # post \<and>
     post_with_redirect env sign_in_endpoint params (opts\<lparr>po_domain := d\<rparr>) before = (cs, r) \<and> out = Some r \<and>
     (case r of Inl _ \<Rightarrow> True | Inr (_, resp) \<Rightarrow> status_is 1004 resp \<longrightarrow> post = [])"
  using assms
proof (induction ds arbitrary: calls)
  case (Cons c ds)
  let ?post = "post_with_redirect env sign_in_endpoint params (opts\<lparr>po_domain := c\<rparr>) calls"
  obtain cs1 r where post: "?post = (cs1, r)" by fastforce
  from post_with_redirect_calls [OF post] obtain new1 where
    new1: "cs1 = calls @ new1" "new1 \<noteq> []" "length new1 \<le> 3" "list_all (call_of env params (po_token opts)) new1"
    by (auto simp: post_calls_def)
  have stop: ?case if "cs = cs1" "out = Some r" "case r of Inl _ \<Rightarrow> True | Inr (_, resp) \<Rightarrow> status_is 1004 resp \<longrightarrow> ds = []"
    using that new1 post
    by (intro exI [of _ new1] exI [of _ "[]"] exI [of _ c] exI [of _ ds] exI [of _ calls] exI [of _ r]) auto
  show ?case
  proof (cases "\<exists>domain resp. r = Inr (domain, resp) \<and> \<not> status_is 0 resp \<and> status_is 1004 resp \<and> ds \<noteq> []")
    case True
    then obtain domain resp where "r = Inr (domain, resp)" "\<not> status_is 0 resp" "status_is 1004 resp" and ne: "ds \<noteq> []"
      by blast
    with Cons.prems(1) post have "login_loop env params opts ds cs1 = (cs, out)"
      by (simp add: sign_in_endpoint_def)
    from Cons.IH [OF this ne] obtain new pre d po before r' where
      "cs = cs1 @ new" "new \<noteq> []" "length new \<le> 3 * length ds" "list_all (call_of env params (po_token opts)) new"
      "ds = pre @ d # po" "post_with_redirect env sign_in_endpoint params (opts\<lparr>po_domain := d\<rparr>) before = (cs, r')"
      "out = Some r'" "case r' of Inl _ \<Rightarrow> True | Inr (_, resp) \<Rightarrow> status_is 1004 resp \<longrightarrow> po = []" by blast
    with new1 show ?thesis
      by (intro exI [of _ "new1 @ new"] exI [of _ "c # pre"] exI [of _ d] exI [of _ po] exI [of _ before] exI [of _ r']) auto
  next
    case False
    have "status_is 0 resp \<Longrightarrow> \<not> status_is 1004 resp" for resp by (simp add: status_is_def)
    with Cons.prems(1) post False have "cs = cs1" "out = Some r"
      "case r of Inl _ \<Rightarrow> True | Inr (_, resp) \<Rightarrow> status_is 1004 resp \<longrightarrow> ds = []"
      by (auto simp: sign_in_endpoint_def split: sum.splits if_splits)
    then show ?thesis by (rule stop)
  qed
qed simp

lemma default_domains_stripped: "map strip_scheme default_fallback_domains = default_fallback_domains"
  by code_simp

lemma domain_candidates_bound: "domain_candidates given \<noteq> [] \<and> length (domain_candidates given) \<le> 4"
proof -
  have len: "length (filter (\<lambda>d. d \<noteq> x) default_fallback_domains) \<le> 3" if "x \<in> set default_fallback_domains" for x
    using that length_filter_less [of x default_fallback_domains "\<lambda>d. d \<noteq> x"]
    by (auto simp: default_fallback_domains_def)
  have "length (remdups default_fallback_domains) \<le> length default_fallback_domains" by (rule length_remdups_leq)
  moreover have "length default_fallback_domains = 4" by (simp add: default_fallback_domains_def)
  moreover have "remdups default_fallback_domains \<noteq> []" by (simp add: default_fallback_domains_def)
  ultimately show ?thesis
    unfolding domain_candidates_def default_domains_stripped Let_def using len by auto
qed

text \<open>C11. A login sends between one and twelve requests, each signed and each with the hash of the
  password in place of the password; it returns credentials only from an answer of status 0 of a
  candidate domain with a token, a key and a user id, under the domain that answered or the one the
  answer names; and gives up on status 1004 only at the last candidate.\<close>

theorem login_bounded:
  "case meross_cloud_login env params options of (calls, outcome) \<Rightarrow>
     1 \<le> length calls \<and> length calls \<le> 12 \<and>
     list_all (call_of env (sign_in_params env params options) None) calls \<and>
     field (sign_in_params env params options) ''password'' = JStr (ce_md5 env (lp_password params)) \<and>
     (\<exists>pre d post before r. domain_candidates (ho_domain options) = pre @ d # post \<and>
        post_with_redirect env sign_in_endpoint (sign_in_params env params options)
          \<lparr>po_token = None, po_domain = d, po_scheme = or_else (ho_scheme options) ''https'',
           po_timeout_ms = or_else (ho_timeout_ms options) 15000\<rparr> before = (calls, r) \<and>
        (case r of
           Inl e \<Rightarrow> outcome = Inl e
         | Inr (domain, resp) \<Rightarrow>
             (status_is 1004 resp \<longrightarrow> post = []) \<and>
             cc_url (last calls) = cloud_url (or_else (ho_scheme options) ''https'') domain sign_in_endpoint \<and>
             (case outcome of
                Inl _ \<Rightarrow> True
              | Inr cr \<Rightarrow> status_is 0 resp \<and> creds_of_response (lp_email params) domain resp = Inr cr \<and>
                  cr_token cr \<noteq> [] \<and> cr_key cr \<noteq> [] \<and> cr_user_id cr \<noteq> [])))"
proof -
  define opts where "opts = \<lparr>po_token = None, po_domain = [], po_scheme = or_else (ho_scheme options) ''https'',
                  po_timeout_ms = or_else (ho_timeout_ms options) 15000\<rparr>"
  define sp where "sp = sign_in_params env params options"
  obtain calls out where loop: "login_loop env sp opts (domain_candidates (ho_domain options)) [] = (calls, out)"
    by fastforce
  from login_loop_calls [OF loop] domain_candidates_bound [of "ho_domain options"]
  obtain pre d po before r where facts: "calls \<noteq> []" "length calls \<le> 3 * length (domain_candidates (ho_domain options))"
     "list_all (call_of env sp None) calls" "domain_candidates (ho_domain options) = pre @ d # po"
     "post_with_redirect env sign_in_endpoint sp (opts\<lparr>po_domain := d\<rparr>) before = (calls, r)" "out = Some r"
     "case r of Inl _ \<Rightarrow> True | Inr (_, resp) \<Rightarrow> status_is 1004 resp \<longrightarrow> po = []"
    by (auto simp: opts_def)
  from post_with_redirect_calls [OF facts(5)] obtain new where new: "calls = before @ new"
    "post_calls env sign_in_endpoint sp (opts\<lparr>po_domain := d\<rparr>) 3 new r" by blast
  then have url: "case r of Inl _ \<Rightarrow> True
     | Inr (domain, _) \<Rightarrow> cc_url (last calls) = cloud_url (or_else (ho_scheme options) ''https'') domain sign_in_endpoint"
    by (auto simp: post_calls_def opts_def split: sum.splits)
  define outcome where "outcome = (case r of Inl e \<Rightarrow> Inl e
     | Inr (domain, resp) \<Rightarrow> if status_is 0 resp then creds_of_response (lp_email params) domain resp
         else Inl (CloudError ''Cloud signIn failed'' (api_status resp) (field resp ''info'')))"
  have login: "meross_cloud_login env params options = (calls, outcome)"
    using loop by (simp add: meross_cloud_login_def Let_def outcome_def facts(6) flip: opts_def sp_def)
  have "1 \<le> length calls" using facts(1) by (cases calls) auto
  moreover have "length calls \<le> 12" using facts(2) domain_candidates_bound [of "ho_domain options"] by linarith
  moreover have "field sp ''password'' = JStr (ce_md5 env (lp_password params))"
    by (simp add: sp_def sign_in_params_def)
  moreover have "case r of Inl e \<Rightarrow> outcome = Inl e
     | Inr (domain, resp) \<Rightarrow> (status_is 1004 resp \<longrightarrow> po = []) \<and>
         cc_url (last calls) = cloud_url (or_else (ho_scheme options) ''https'') domain sign_in_endpoint \<and>
         (case outcome of Inl _ \<Rightarrow> True
          | Inr cr \<Rightarrow> status_is 0 resp \<and> creds_of_response (lp_email params) domain resp = Inr cr \<and>
              cr_token cr \<noteq> [] \<and> cr_key cr \<noteq> [] \<and> cr_user_id cr \<noteq> [])"
    using facts(7) url
    by (auto simp: outcome_def creds_of_response_def Let_def split: sum.splits if_splits)
  ultimately show ?thesis
    using facts(3,4,5) unfolding login sp_def [symmetric] prod.case
    by (intro conjI exI [of _ pre] exI [of _ d] exI [of _ po] exI [of _ before] exI [of _ r]) (auto simp: opts_def)
qed

text \<open>A cloud that refuses the login on the default domain and grants it on the next.\<close>

definition quoted :: "string \<Rightarrow> string" where
  "quoted s = CHR 0x22 # s @ [CHR 0x22]"

definition demo_refusal :: string where
  "demo_refusal = ''{'' @ quoted ''apiStatus'' @ '':1004}''"

definition demo_grant :: string where
  "demo_grant = ''{'' @ quoted ''apiStatus'' @ '':0,'' @ quoted ''data'' @ '':{'' @ quoted ''token'' @ '':'' @ quoted ''t''
     @ '','' @ quoted ''key'' @ '':'' @ quoted ''k'' @ '','' @ quoted ''userid'' @ '':7}}''"

definition demo_cloud :: cloud_env where
  "demo_cloud = \<lparr>ce_md5 = (\<lambda>s. ''h''), ce_encode = (\<lambda>_. ''b64''), ce_nonce = (\<lambda>_. ''n''), ce_clock = int,
     ce_device_model = ''x86'', ce_os_version = ''1'', ce_os = ''linux'', ce_log_id = ''id'',
     ce_fetch = (\<lambda>calls c. Response 200 ''OK'' (Inr (if calls = [] then demo_refusal else demo_grant)) (Inl []))\<rparr>"

definition demo_login :: "cloud_call list \<times> (cloud_error + cloud_creds)" where
  "demo_login = meross_cloud_login demo_cloud \<lparr>lp_email = ''a@b'', lp_password = ''pw'', lp_mfa_code = None\<rparr>
     \<lparr>ho_timeout_ms = None, ho_domain = None, ho_scheme = None, ho_encryption = None\<rparr>"

lemma demo_refusal_json: "json_parse demo_refusal = Some (JObj [(''apiStatus'', js_int 1004)])"
  by code_simp

lemma demo_grant_json: "json_parse demo_grant = Some (JObj [(''apiStatus'', js_int 0),
    (''data'', JObj [(''token'', JStr ''t''), (''key'', JStr ''k''), (''userid'', js_int 7)])])"
  by code_simp

lemma demo_candidates: "domain_candidates None =
    [''iotx.meross.com'', ''iotx-ap.meross.com'', ''iotx-us.meross.com'', ''iotx-eu.meross.com'']"
  by code_simp

lemma demo_stripped: "strip_scheme ''iotx.meross.com'' = ''iotx.meross.com''"
    "strip_scheme ''iotx-ap.meross.com'' = ''iotx-ap.meross.com''"
  by code_simp+

lemma demo_login_value:
  "snd demo_login = Inr \<lparr>cr_domain = ''iotx-ap.meross.com'', cr_mqtt_domain = None, cr_token = ''t'', cr_key = ''k'',
     cr_user_id = ''7'', cr_user_email = ''a@b''\<rparr>"
proof -
  have seven: "str_of (js_int 7) = ''7''" by code_simp
  have ne: "demo_refusal \<noteq> []" "demo_grant \<noteq> []" by (simp_all add: demo_refusal_def demo_grant_def)
  show ?thesis
    using seven
    by (simp add: demo_login_def meross_cloud_login_def demo_candidates demo_cloud_def post_with_redirect_def
      numeral_2_eq_2 authenticated_post_def Let_def demo_refusal_json demo_grant_json ne api_status_def
      status_is_def demo_stripped creds_of_response_def str_or_empty_def nn_def)
qed

lemma login_bounded_witness:
  "snd demo_login = Inr \<lparr>cr_domain = ''iotx-ap.meross.com'', cr_mqtt_domain = None, cr_token = ''t'', cr_key = ''k'',
     cr_user_id = ''7'', cr_user_email = ''a@b''\<rparr> \<and>
   1 \<le> length (fst demo_login) \<and> length (fst demo_login) \<le> 12 \<and>
   list_all (\<lambda>c. cc_sign c = ''h'' \<and> cc_authorization c = ''Basic'') (fst demo_login)"
proof -
  note law = login_bounded [of demo_cloud "\<lparr>lp_email = ''a@b'', lp_password = ''pw'', lp_mfa_code = None\<rparr>"
     "\<lparr>ho_timeout_ms = None, ho_domain = None, ho_scheme = None, ho_encryption = None\<rparr>", folded demo_login_def]
  obtain calls out where l: "demo_login = (calls, out)" by fastforce
  have "1 \<le> length calls \<and> length calls \<le> 12 \<and> list_all (call_of demo_cloud (sign_in_params demo_cloud
      \<lparr>lp_email = ''a@b'', lp_password = ''pw'', lp_mfa_code = None\<rparr>
      \<lparr>ho_timeout_ms = None, ho_domain = None, ho_scheme = None, ho_encryption = None\<rparr>) None) calls"
    using law [unfolded l prod.case] by (elim conjE) (intro conjI)
  then show ?thesis
    using demo_login_value
    by (auto simp: l call_of_def demo_cloud_def authorization_def list_all_iff)
qed

lemma coerce_json_simps [simp]:
  "coerce_json (JArr vs) = JArr vs" "coerce_json (JObj kvs) = JObj kvs" "coerce_json JUndef = JUndef"
  by (simp_all add: coerce_json_def)

lemma device_list_simps [simp]:
  "device_list (JObj kvs) = None" "device_list JUndef = None"
  "is_device_like d \<Longrightarrow> device_list (JArr (d # ds)) = Some (d # ds)"
  by (simp_all add: device_list_def)

lemma device_listD: "device_list v = Some ds \<Longrightarrow> ds = [] \<or> is_device_like (hd ds)"
  by (auto simp: device_list_def split: jsval.splits list.splits if_splits)

lemma first_device_listD: "first_device_list cs = Some ds \<Longrightarrow> ds = [] \<or> is_device_like (hd ds)"
proof (induction cs)
  case (Cons c cs)
  then show ?case
    by (auto split: option.splits simp: first_some_def dest: device_listD)
qed simp

lemma extract_cloud_device_listD:
  assumes "extract_cloud_device_list data = Some ds"
  shows "ds = [] \<or> is_device_like (hd ds)"
proof (cases "device_list (coerce_json data)")
  case None
  with assms obtain cs where "first_device_list cs = Some ds"
    by (simp only: extract_cloud_device_list_def Let_def option.case option.distinct split: if_split_asm)
  then show ?thesis by (rule first_device_listD)
next
  case (Some es)
  with assms have "es = ds" by (simp only: extract_cloud_device_list_def Let_def option.case option.inject)
  with Some show ?thesis by (simp only: device_listD)
qed

lemma device_list_places:
  assumes "is_device_like d"
  shows "extract_cloud_device_list (JArr (d # ds)) = Some (d # ds)"
    "\<And>k. k \<in> {''devList'', ''deviceList'', ''list'', ''devices'', ''payload''} \<Longrightarrow>
       extract_cloud_device_list (JObj [(k, JArr (d # ds))]) = Some (d # ds)"
    "\<And>k. k \<in> {''devList'', ''deviceList'', ''list''} \<Longrightarrow>
       extract_cloud_device_list (JObj [(''data'', JObj [(k, JArr (d # ds))])]) = Some (d # ds)"
    "\<And>k. k \<in> {''devList'', ''list'', ''devices''} \<Longrightarrow>
       extract_cloud_device_list (JObj [(''payload'', JObj [(k, JArr (d # ds))])]) = Some (d # ds)"
proof -
  show "extract_cloud_device_list (JArr (d # ds)) = Some (d # ds)"
    using assms by (simp add: extract_cloud_device_list_def Let_def)
  fix k
  show "extract_cloud_device_list (JObj [(k, JArr (d # ds))]) = Some (d # ds)"
    if "k \<in> {''devList'', ''deviceList'', ''list'', ''devices'', ''payload''}"
    using that assms unfolding insert_iff empty_iff
    by (elim disjE) (simp_all add: extract_cloud_device_list_def Let_def)
  show "extract_cloud_device_list (JObj [(''data'', JObj [(k, JArr (d # ds))])]) = Some (d # ds)"
    if "k \<in> {''devList'', ''deviceList'', ''list''}"
    using that assms unfolding insert_iff empty_iff
    by (elim disjE) (simp_all add: extract_cloud_device_list_def Let_def)
  show "extract_cloud_device_list (JObj [(''payload'', JObj [(k, JArr (d # ds))])]) = Some (d # ds)"
    if "k \<in> {''devList'', ''list'', ''devices''}"
    using that assms unfolding insert_iff empty_iff
    by (elim disjE) (simp_all add: extract_cloud_device_list_def Let_def)
qed

text \<open>The device list is found wherever the cloud puts it: as the data itself, under any of
  the seven known names and places, one level below one of those, or as the JSON text of such a
  value; and what is returned is always empty or starts with an entry that has a uuid.\<close>

theorem device_list_found:
  "(case extract_cloud_device_list data of
      None \<Rightarrow> True | Some ds \<Rightarrow> ds = [] \<or> is_device_like (hd ds)) \<and>
   (if is_device_like d then
      extract_cloud_device_list (JArr (d # ds)) = Some (d # ds) \<and>
      list_all (\<lambda>k. extract_cloud_device_list (JObj [(k, JArr (d # ds))]) = Some (d # ds))
        [''devList'', ''deviceList'', ''list'', ''devices'', ''payload''] \<and>
      list_all (\<lambda>k. extract_cloud_device_list (JObj [(''data'', JObj [(k, JArr (d # ds))])]) = Some (d # ds))
        [''devList'', ''deviceList'', ''list''] \<and>
      list_all (\<lambda>k. extract_cloud_device_list (JObj [(''payload'', JObj [(k, JArr (d # ds))])]) = Some (d # ds))
        [''devList'', ''list'', ''devices'']
    else True)"
proof -
  have "case extract_cloud_device_list data of None \<Rightarrow> True | Some ds \<Rightarrow> ds = [] \<or> is_device_like (hd ds)"
    by (cases "extract_cloud_device_list data") (auto dest: extract_cloud_device_listD)
  then show ?thesis
    by (cases "is_device_like d")
      (simp_all only: list.pred_inject simp_thms if_True if_False device_list_places insert_iff)
qed

end
