(* ===== verification/Config.thy ===== *)
theory Config
  imports JsSort Json
begin

text \<open>
  The configuration file and what the API shares around it: \<open>packages/core/src/meross/config.ts\<close>,
  \<open>dump.ts\<close>, \<open>inventory.ts\<close> and the request and response helpers of \<open>api/shared.ts\<close>.

  The file is read without validation and written back with most of what it held, so the
  configuration is the JSON value itself; \<open>spread\<close> and \<open>set_field\<close> are the object spreads of the
  source. The file system is the text of the file, or \<open>None\<close> when it cannot be read.
\<close>

section \<open>Object spread\<close>

text \<open>\<open>{ ...v }\<close>: own enumerable properties; the characters of a string and the elements of an
  array are indexed, the other primitives have none.\<close>

fun indexed :: "nat \<Rightarrow> jsval list \<Rightarrow> (string \<times> jsval) list" where
  "indexed i [] = []"
| "indexed i (v # vs) = (dec_of_nat i, v) # indexed (Suc i) vs"

fun spread :: "jsval \<Rightarrow> (string \<times> jsval) list" where
  "spread (JObj kvs) = kvs"
| "spread (JArr vs) = indexed 0 vs"
| "spread (JStr s) = indexed 0 (map (\<lambda>c. JStr [c]) s)"
| "spread _ = []"

text \<open>\<open>{ ...a, ...b }\<close>\<close>

definition spread_over :: "(string \<times> jsval) list \<Rightarrow> (string \<times> jsval) list \<Rightarrow> (string \<times> jsval) list" where
  "spread_over a b = foldl (\<lambda>m (k, v). map_set k v m) a b"

text \<open>\<open>{ ...v, k: x }\<close>\<close>

definition with_field :: "jsval \<Rightarrow> string \<Rightarrow> jsval \<Rightarrow> jsval" where
  "with_field v k x = JObj (map_set k x (spread v))"

lemma field_with_field [simp]: "field (with_field v k x) j = (if j = k then x else field (JObj (spread v)) j)"
  by (simp add: with_field_def)

lemma field_spread_obj [simp]: "is_record v \<Longrightarrow> JObj (spread v) = v"
  by (cases v) simp_all

lemma map_of_spread_over:
  "distinct (map fst b) \<Longrightarrow> map_of (spread_over a b) k = (case map_of b k of Some v \<Rightarrow> Some v | None \<Rightarrow> map_of a k)"
proof (induction b arbitrary: a)
  case Nil
  then show ?case by (simp add: spread_over_def)
next
  case (Cons p b)
  obtain j v where p: "p = (j, v)" by (cases p)
  have "spread_over a (p # b) = spread_over (map_set j v a) b" by (simp add: spread_over_def p)
  with Cons show ?case
    by (auto simp: p map_of_eq_None_iff split: option.splits dest: map_of_SomeD intro: rev_image_eqI)
qed

lemma get_spread: "map_get (spread_over a b) k = (case map_get (rev b) k of Some v \<Rightarrow> Some v | None \<Rightarrow> map_get a k)"
proof (induction b arbitrary: a)
  case (Cons p b)
  then show ?case by (cases p) (simp add: spread_over_def map_add_def split: option.split)
qed (simp add: spread_over_def)

section \<open>The file\<close>

definition load_meross_config :: "string option \<Rightarrow> jsval" where
  "load_meross_config file = (case file of
       None \<Rightarrow> JObj []
     | Some text \<Rightarrow> (case json_parse text of
         None \<Rightarrow> JObj []
       | Some parsed \<Rightarrow> if is_object parsed then parsed else JObj []))"

text \<open>\<open>process.env.MEROSS_CONFIG_PATH || defaultMerossConfigPath()\<close>\<close>

definition config_path :: "string option \<Rightarrow> string \<Rightarrow> string" where
  "config_path env home = (if or_else env [] \<noteq> [] then the env
     else home @ ''/.config/merossity/config.json'')"

section \<open>Cloud dumps\<close>

definition parse_meross_cloud_dump :: "string \<Rightarrow> jsval result" where
  "parse_meross_cloud_dump text =
     (case json_parse text of
        None \<Rightarrow> Inl ''Invalid JSON''
      | Some parsed \<Rightarrow>
          if \<not> is_object parsed then Inl ''Expected object''
          else if \<not> is_object (field parsed ''cloud'') then Inl ''Missing cloud object''
          else if \<not> (is_string (path parsed [''cloud'', ''domain'']) \<and> is_string (path parsed [''cloud'', ''key''])
                     \<and> is_string (path parsed [''cloud'', ''mqtt_domain'']))
               then Inl ''cloud.domain, cloud.key, cloud.mqtt_domain are required''
          else (case field parsed ''devices'' of
              JArr _ \<Rightarrow> Inr parsed
            | _ \<Rightarrow> Inl ''devices must be an array''))"

section \<open>The inventory\<close>

record inventory_device =
  iv_uuid :: string
  iv_name :: string
  iv_type :: string
  iv_online :: string
  iv_host :: "string option"
  iv_mac :: "string option"
  iv_host_updated_at :: "string option"

definition norm :: "string \<Rightarrow> string" where
  "norm s = to_lower (trim s)"

definition device_sort_key :: "inventory_device \<Rightarrow> string" where
  "device_sort_key d =
     (let name = norm (iv_name d);
          name_key = (if name \<noteq> [] then ''0:'' @ name else ''1:'')
      in name_key @ [CHR 0x0A] @ norm (iv_type d) @ [CHR 0x0A] @ norm (iv_uuid d))"

definition truthy_str :: "jsval \<Rightarrow> string option" where
  "truthy_str v = (if truthy v then Some (str_of v) else None)"

definition string_or_empty :: "jsval \<Rightarrow> string" where
  "string_or_empty v = str_of (nn v (JStr []))"

definition inventory_device_of :: "jsval \<Rightarrow> jsval \<Rightarrow> inventory_device option" where
  "inventory_device_of hosts d =
     (let uuid = string_or_empty (field d ''uuid''); entry = field hosts uuid in
      if uuid = [] then None
      else Some \<lparr>iv_uuid = uuid,
        iv_name = string_or_empty (field d ''devName''),
        iv_type = join_with '' / '' (map str_of (filter truthy [field d ''deviceType'', field d ''subType''])),
        iv_online = string_or_empty (field d ''onlineStatus''),
        iv_host = truthy_str (field entry ''host''),
        iv_mac = truthy_str (field entry ''mac''),
        iv_host_updated_at = truthy_str (field entry ''updatedAt'')\<rparr>)"

definition by_sort_key :: "(string \<Rightarrow> string \<Rightarrow> int) \<Rightarrow> inventory_device \<Rightarrow> inventory_device \<Rightarrow> int" where
  "by_sort_key lc a b = lc (device_sort_key a) (device_sort_key b)"

definition group_devices_for_control ::
  "(string \<Rightarrow> string \<Rightarrow> int) \<Rightarrow> jsval list \<Rightarrow> jsval \<Rightarrow> inventory_device list \<times> inventory_device list" where
  "group_devices_for_control lc devices hosts =
     (let invs = List.map_filter (inventory_device_of hosts) devices
      in (js_sort (by_sort_key lc) (filter (\<lambda>d. or_else (iv_host d) [] \<noteq> []) invs),
          js_sort (by_sort_key lc) (filter (\<lambda>d. or_else (iv_host d) [] = []) invs)))"

section \<open>Requests and responses of the API\<close>

record api_request =
  ar_content_type :: "string option"
  ar_body :: "jsval option"

text \<open>A response: data, or a message and a code, with details or without.\<close>

datatype api_response =
    ApiOk jsval
  | ApiErr string string
  | ApiErrWith string string jsval

fun is_api_ok :: "api_response \<Rightarrow> bool" where
  "is_api_ok (ApiOk _) = True"
| "is_api_ok (ApiErr _ _) = False"
| "is_api_ok (ApiErrWith _ _ _) = False"

definition parse_json_body :: "api_request \<Rightarrow> jsval" where
  "parse_json_body req =
     (if str_includes ''application/json'' (to_lower (or_else (ar_content_type req) []))
      then or_else (ar_body req) JNull else JNull)"

text \<open>\<open>(await parseJsonBody(req)) ?? {}\<close>\<close>

definition body_of :: "api_request \<Rightarrow> jsval" where
  "body_of req = nn (parse_json_body req) (JObj [])"

text \<open>\<open>body.channel === undefined ? 0 : Number(body.channel)\<close> and the check that follows.\<close>

definition body_channel :: "jsval \<Rightarrow> int option" where
  "body_channel body = (if field body ''channel'' = JUndef then Some 0 else channel_num (field body ''channel''))"

definition require_lan_host :: "jsval \<Rightarrow> string \<Rightarrow> jsval result" where
  "require_lan_host cfg uuid = (let host = path cfg [''hosts'', uuid, ''host''] in
     if truthy host then Inr host
     else Inl (''No LAN host known for device uuid='' @ uuid @ ''. Resolve host first.''))"

definition require_lan_key :: "jsval \<Rightarrow> string option \<Rightarrow> jsval result" where
  "require_lan_key cfg env_key =
     (let key = (if truthy (path cfg [''cloud'', ''key'']) then path cfg [''cloud'', ''key'']
                 else case env_key of None \<Rightarrow> JUndef | Some k \<Rightarrow> JStr k)
      in if truthy key then Inr key else Inl ''Missing Meross key. Login (cloud) or set MEROSS_KEY.'')"

text \<open>The token of \<open>summarizeCloud\<close>: its first and last four characters around an ellipsis, as a pair.\<close>

definition redact_token :: "string \<Rightarrow> (string \<times> string) option" where
  "redact_token token = (if token = [] then None else Some (take 4 token, slice_end 4 token))"

section \<open>Properties\<close>

text \<open>The inventory for any collation that is a consistent order: every listed device with a
  uuid appears exactly once, in the first group when the hosts name a host for it and in the
  second otherwise, and each group is sorted by the key, so that in code-unit order unnamed devices
  come last.\<close>

theorem inventory_groups:
  assumes "collation lc" "group_devices_for_control lc devices hosts = (ready, inaccessible)"
  shows "mset ready + mset inaccessible = mset (List.map_filter (inventory_device_of hosts) devices) \<and>
    (\<forall>d \<in> set ready. iv_host d = truthy_str (path hosts [iv_uuid d, ''host'']) \<and> or_else (iv_host d) [] \<noteq> [] \<and> iv_uuid d \<noteq> []) \<and>
    (\<forall>d \<in> set inaccessible. or_else (truthy_str (path hosts [iv_uuid d, ''host''])) [] = [] \<and> iv_uuid d \<noteq> []) \<and>
    sorted_wrt (\<lambda>a b. lc (device_sort_key a) (device_sort_key b) \<le> 0) ready \<and>
    sorted_wrt (\<lambda>a b. lc (device_sort_key a) (device_sort_key b) \<le> 0) inaccessible"
proof -
  define invs where "invs = List.map_filter (inventory_device_of hosts) devices"
  have eqs: "ready = js_sort (by_sort_key lc) (filter (\<lambda>d. or_else (iv_host d) [] \<noteq> []) invs)"
    "inaccessible = js_sort (by_sort_key lc) (filter (\<lambda>d. or_else (iv_host d) [] = []) invs)"
    using assms(2) by (simp_all add: group_devices_for_control_def Let_def invs_def)
  have entry: "iv_host d = truthy_str (path hosts [iv_uuid d, ''host'']) \<and> iv_uuid d \<noteq> []" if "d \<in> set invs" for d
    using that by (auto simp: invs_def List.map_filter_def inventory_device_of_def Let_def split: if_splits)
  have part: "mset (filter (\<lambda>d. or_else (iv_host d) [] \<noteq> []) invs) + mset (filter (\<lambda>d. or_else (iv_host d) [] = []) invs) = mset invs"
    by (induction invs) auto
  have c: "comparator (by_sort_key lc)"
    unfolding by_sort_key_def by (rule collation.comparator_on [OF assms(1)])
  have "sorted_wrt (\<lambda>a b. lc (device_sort_key a) (device_sort_key b) \<le> 0) (js_sort (by_sort_key lc) ds)" for ds
    using comparator.sorted_js_sort [OF c, of ds] by (simp add: by_sort_key_def)
  with part entry show ?thesis by (auto simp: eqs simp flip: invs_def)
qed

lemma grouped_device:
  assumes "group_devices_for_control lc ds hosts = (ready, inaccessible)" "d \<in> set ready \<union> set inaccessible"
  shows "iv_host d = truthy_str (path hosts [iv_uuid d, ''host''])" "(d \<in> set ready) = (or_else (iv_host d) [] \<noteq> [])"
    "iv_uuid d \<noteq> []" "\<exists>dev\<in>set ds. string_or_empty (field dev ''uuid'') = iv_uuid d"
proof -
  have sets: "set ready = {d \<in> set (List.map_filter (inventory_device_of hosts) ds). or_else (iv_host d) [] \<noteq> []}"
    "set inaccessible = {d \<in> set (List.map_filter (inventory_device_of hosts) ds). or_else (iv_host d) [] = []}"
    using assms(1) by (auto simp: group_devices_for_control_def Let_def set_js_sort)
  then have d: "d \<in> set (List.map_filter (inventory_device_of hosts) ds)" using assms(2) by blast
  then show "iv_host d = truthy_str (path hosts [iv_uuid d, ''host''])" "iv_uuid d \<noteq> []"
    "\<exists>dev\<in>set ds. string_or_empty (field dev ''uuid'') = iv_uuid d"
    by (auto simp: List.map_filter_def inventory_device_of_def Let_def split: if_splits)
  show "(d \<in> set ready) = (or_else (iv_host d) [] \<noteq> [])" using d sets by blast
qed

definition demo_devices :: "jsval list" where
  "demo_devices = [JObj [(''uuid'', JStr ''u2''), (''devName'', JStr '' lamp'')], JObj [(''uuid'', JStr ''u1''), (''devName'', JStr ''Fan'')],
     JObj [(''devName'', JStr ''x'')], JObj [(''uuid'', JStr ''u3'')]]"

definition demo_hosts_map :: jsval where
  "demo_hosts_map = JObj [(''u2'', JObj [(''host'', JStr ''10.0.0.2'')]), (''u1'', JObj [(''host'', JStr ''10.0.0.1'')])]"

lemma inventory_groups_witness:
  "map iv_uuid (fst (group_devices_for_control codeunit_compare demo_devices demo_hosts_map)) = [''u1'', ''u2''] \<and>
   sorted_wrt (\<lambda>a b. codeunit_compare (device_sort_key a) (device_sort_key b) \<le> 0)
     (fst (group_devices_for_control codeunit_compare demo_devices demo_hosts_map))"
proof
  show "map iv_uuid (fst (group_devices_for_control codeunit_compare demo_devices demo_hosts_map)) = [''u1'', ''u2'']"
    by code_simp
  show "sorted_wrt (\<lambda>a b. codeunit_compare (device_sort_key a) (device_sort_key b) \<le> 0)
     (fst (group_devices_for_control codeunit_compare demo_devices demo_hosts_map))"
    using inventory_groups [OF codeunit.collation_axioms surjective_pairing, of demo_devices demo_hosts_map] by blast
qed

text \<open>A cloud dump is accepted exactly when its text is a JSON object with a cloud object
  holding the three strings and an array of devices, and is then returned as it is; every other
  text is an error.\<close>

theorem cloud_dump_accepted:
  "(parse_meross_cloud_dump text = Inr dump \<longleftrightarrow>
     json_parse text = Some dump \<and> is_record dump \<and> is_record (field dump ''cloud'') \<and>
     is_string (path dump [''cloud'', ''domain'']) \<and> is_string (path dump [''cloud'', ''key'']) \<and>
     is_string (path dump [''cloud'', ''mqtt_domain'']) \<and> (\<exists>ds. field dump ''devices'' = JArr ds))"
proof -
  have record_of: "is_record v" if "is_string (field v k)" for v k
    using that by (cases v) simp_all
  show ?thesis
  proof (cases "json_parse text")
    case (Some parsed)
    show ?thesis
    proof (cases "is_record parsed")
      case True
      then have "is_object parsed" by (cases parsed) simp_all
      moreover have "is_object (field parsed ''cloud'')" if "is_record (field parsed ''cloud'')"
        using that by (cases "field parsed ''cloud''") simp_all
      ultimately show ?thesis
        using Some True record_of [of "field parsed ''cloud''" "''domain''"]
        by (auto simp: parse_meross_cloud_dump_def split: jsval.splits)
    next
      case False
      then have "field parsed ''cloud'' = JUndef" by simp
      with Some False show ?thesis by (auto simp: parse_meross_cloud_dump_def)
    qed
  qed (simp add: parse_meross_cloud_dump_def)
qed

end
