(* ===== verification/PollState.thy ===== *)
theory PollState
  imports Extract Config
begin

text \<open>
  The data of the state poller and its pure functions, from the first part of
  \<open>packages/core/src/api/state-poller.ts\<close>: the states it publishes, the comparison that decides
  whether a state is published, intervals, back-off and jitter, percentiles and error codes. Times
  are milliseconds as integers.
\<close>

section \<open>Data\<close>

datatype poll_kind = KToggleX | KLight | KMixed

datatype poll_reason = RPoller | RManual

record device_state =
  ds_uuid :: string
  ds_host :: string
  ds_kind :: poll_kind
  ds_channel :: int
  ds_onoff :: nat
  ds_channels :: "toggle_state list"
  ds_lights :: "light_state list"
  ds_light :: "light_state option"
  ds_timerx :: "digest_entry list"
  ds_triggerx :: "digest_entry list"
  ds_updated_at :: int
  ds_source :: poll_reason
  ds_stale :: bool
  ds_error :: "string option"

record device_power =
  dp_uuid :: string
  dp_host :: string
  dp_channel :: int
  dp_voltage_v :: "rat option"
  dp_current_a :: "rat option"
  dp_power_w :: "rat option"
  dp_voltage_dv :: "int option"
  dp_current_ma :: "int option"
  dp_power_mw :: "int option"
  dp_updated_at :: int
  dp_source :: string
  dp_stale :: bool
  dp_error :: "string option"

record poll_error =
  pe_uuid :: string
  pe_code :: string
  pe_message :: string
  pe_at :: int

record poll_meta =
  next_due_at :: int
  failure_count :: nat
  last_success_at :: "int option"
  last_change_at :: "int option"
  last_resolve_attempt_at :: "int option"
  boost_until_at :: "int option"
  telemetry_next_due_at :: int
  telemetry_failure_count :: nat
  telemetry_last_success_at :: "int option"

record known_host =
  kh_host :: string
  kh_mac :: "string option"

record poller_stats =
  ps_in_flight :: nat
  ps_queue_depth :: nat
  ps_cycle_p50 :: int
  ps_cycle_p95 :: int
  ps_last_cycle_at :: "int option"
  ps_active_clients :: nat

section \<open>Constants\<close>

definition default_poll_timeout_ms :: rat where "default_poll_timeout_ms = 2500"
definition poll_max_concurrency :: nat where "poll_max_concurrency = 6"
definition stable_interval_ms :: int where "stable_interval_ms = 45000"
definition hot_interval_ms :: int where "hot_interval_ms = 12000"
definition boost_interval_ms :: int where "boost_interval_ms = 8000"
definition telemetry_max_concurrency :: nat where "telemetry_max_concurrency = 4"
definition hot_window_ms :: int where "hot_window_ms = 120000"
definition boost_window_ms :: int where "boost_window_ms = 30000"
definition sync_hosts_every_ms :: int where "sync_hosts_every_ms = 5000"
definition resolve_cooldown_ms :: int where "resolve_cooldown_ms = 300000"
definition health_broadcast_every_ms :: int where "health_broadcast_every_ms = 5000"
definition failure_backoff_sequence_ms :: "int list" where
  "failure_backoff_sequence_ms = [30000, 60000, 120000, 300000]"

lemmas poll_constants = poll_max_concurrency_def stable_interval_ms_def hot_interval_ms_def
  boost_interval_ms_def telemetry_max_concurrency_def hot_window_ms_def boost_window_ms_def
  sync_hosts_every_ms_def resolve_cooldown_ms_def health_broadcast_every_ms_def
  failure_backoff_sequence_ms_def

text \<open>The telemetry interval of the environment variable \<open>MEROSS_TELEMETRY_INTERVAL_MS\<close>.\<close>

definition telemetry_interval_ms :: "string option \<Rightarrow> int" where
  "telemetry_interval_ms env =
     (case (case env of None \<Rightarrow> NaN | Some s \<Rightarrow> num_of_str s) of
        Fin r \<Rightarrow> if r \<le> 0 then 10000 else max 2000 (js_round r)
      | _ \<Rightarrow> 10000)"

section \<open>Back-off and jitter\<close>

definition failure_backoff_ms :: "int \<Rightarrow> int" where
  "failure_backoff_ms fc =
     (if fc \<le> 0 then 0
      else let idx = min (int (length failure_backoff_sequence_ms) - 1) (fc - 1)
           in failure_backoff_sequence_ms ! nat idx)"

definition with_jitter_ms :: "int \<Rightarrow> rat \<Rightarrow> rat \<Rightarrow> int" where
  "with_jitter_ms base_ms percent random_value =
     (let bounded_percent = max 0 (min percent 1);
          delta = of_int base_ms * bounded_percent;
          centered = (max 0 (min random_value 1) * 2 - 1) * delta
      in max 1000 (js_round (of_int base_ms + centered)))"

text \<open>The interval to the next poll of a device; the random number is the one \<open>withJitterMs\<close> draws.\<close>

definition next_interval_ms :: "poll_meta \<Rightarrow> int \<Rightarrow> rat \<Rightarrow> int" where
  "next_interval_ms m now rnd =
     (if 0 < failure_count m then failure_backoff_ms (int (failure_count m))
      else if (case boost_until_at m of None \<Rightarrow> False | Some b \<Rightarrow> b \<noteq> 0 \<and> now < b)
           then with_jitter_ms boost_interval_ms (1 / 10) rnd
      else if (case last_change_at m of None \<Rightarrow> False | Some c \<Rightarrow> c \<noteq> 0 \<and> now - c < hot_window_ms)
           then with_jitter_ms hot_interval_ms (15 / 100) rnd
      else with_jitter_ms stable_interval_ms (15 / 100) rnd)"

section \<open>Comparing states\<close>

definition normalize_channels :: "toggle_state list \<Rightarrow> toggle_state list" where
  "normalize_channels cs = js_sort (by_channel ts_channel) cs"

fun same_channels :: "toggle_state list \<Rightarrow> toggle_state list \<Rightarrow> bool" where
  "same_channels [] [] = True"
| "same_channels (l # a) (r # b) =
     (if ts_channel l \<noteq> ts_channel r \<or> ts_onoff l \<noteq> ts_onoff r then False else same_channels a b)"
| "same_channels _ _ = False"

fun same_schedule_digest :: "digest_entry list \<Rightarrow> digest_entry list \<Rightarrow> bool" where
  "same_schedule_digest [] [] = True"
| "same_schedule_digest (l # a) (r # b) =
     (if de_channel l \<noteq> de_channel r then False
      else if de_id l \<noteq> de_id r then False
      else if de_count l \<noteq> de_count r then False
      else same_schedule_digest a b)"
| "same_schedule_digest _ _ = False"

definition light_changed :: "light_state \<Rightarrow> light_state \<Rightarrow> bool" where
  "light_changed a b \<longleftrightarrow> ls_channel a \<noteq> ls_channel b \<or> ls_onoff a \<noteq> ls_onoff b \<or>
     ls_luminance a \<noteq> ls_luminance b \<or> ls_temperature a \<noteq> ls_temperature b \<or> ls_rgb a \<noteq> ls_rgb b"

definition has_material_state_change :: "device_state option \<Rightarrow> device_state \<Rightarrow> bool" where
  "has_material_state_change prev next =
     (case prev of
        None \<Rightarrow> True
      | Some p \<Rightarrow>
          if ds_host p \<noteq> ds_host next then True
          else if ds_kind p \<noteq> ds_kind next then True
          else if ds_channel p \<noteq> ds_channel next then True
          else if ds_onoff p \<noteq> ds_onoff next then True
          else if ds_stale p \<noteq> ds_stale next then True
          else if \<not> same_channels (ds_channels p) (ds_channels next) then True
          else if \<not> same_schedule_digest (ds_timerx p) (ds_timerx next) then True
          else if \<not> same_schedule_digest (ds_triggerx p) (ds_triggerx next) then True
          else if length (ds_lights p) \<noteq> length (ds_lights next) then True
          else if list_ex (\<lambda>(a, b). light_changed a b) (zip (ds_lights p) (ds_lights next)) then True
          else (case (ds_light p, ds_light next) of
              (None, None) \<Rightarrow> False
            | (Some a, Some b) \<Rightarrow> light_changed a b
            | _ \<Rightarrow> True))"

section \<open>Percentiles and error codes\<close>

definition percentile :: "int list \<Rightarrow> nat \<Rightarrow> int" where
  "percentile values p =
     (if values = [] then 0
      else let sorted = js_sort (\<lambda>a b. a - b) values;
               idx = min (int (length sorted) - 1) (max 0 (int p * int (length sorted) div 100))
           in sorted ! nat idx)"

definition poll_code_from_error :: "string \<Rightarrow> string" where
  "poll_code_from_error message = (let m = to_lower message in
     if str_includes ''missing meross key'' m then ''missing_key''
     else if str_includes ''no lan host known'' m then ''host_unavailable''
     else if str_includes ''state unavailable'' m \<or> str_includes ''togglex state not found'' m
             \<or> str_includes ''device state not found'' m then ''state_unavailable''
     else ''lan_error'')"

definition create_meta :: "int \<Rightarrow> poll_meta" where
  "create_meta now = \<lparr>next_due_at = now, failure_count = 0, last_success_at = None, last_change_at = None,
     last_resolve_attempt_at = None, boost_until_at = None, telemetry_next_due_at = now,
     telemetry_failure_count = 0, telemetry_last_success_at = None\<rparr>"

section \<open>Properties\<close>

lemma same_channels_eq: "same_channels a b \<longleftrightarrow> a = b"
  by (induction a b rule: same_channels.induct) auto

lemma same_schedule_digest_eq: "same_schedule_digest a b \<longleftrightarrow> a = b"
  by (induction a b rule: same_schedule_digest.induct) auto

lemma light_changed_neq: "light_changed a b \<longleftrightarrow> a \<noteq> b"
  by (auto simp: light_changed_def)

lemma lights_changed:
  "length as = length bs \<Longrightarrow> list_ex (\<lambda>(a, b). light_changed a b) (zip as bs) \<longleftrightarrow> as \<noteq> bs"
  by (induction as bs rule: list_induct2) (auto simp: light_changed_neq)

lemma light_opt:
  "(case (x, y) of (None, None) \<Rightarrow> False | (Some a, Some b) \<Rightarrow> light_changed a b | _ \<Rightarrow> True) \<longleftrightarrow> x \<noteq> y"
  by (cases x; cases y) (simp_all add: light_changed_neq)

text \<open>What a state shows, without its identity, its time, its origin and its error.\<close>

definition material :: "device_state \<Rightarrow> device_state" where
  "material d = d\<lparr>ds_uuid := [], ds_updated_at := 0, ds_source := RPoller, ds_error := None\<rparr>"

lemma material_eq_iff:
  "material p = material n \<longleftrightarrow> ds_host p = ds_host n \<and> ds_kind p = ds_kind n \<and> ds_channel p = ds_channel n \<and>
     ds_onoff p = ds_onoff n \<and> ds_channels p = ds_channels n \<and> ds_lights p = ds_lights n \<and>
     ds_light p = ds_light n \<and> ds_timerx p = ds_timerx n \<and> ds_triggerx p = ds_triggerx n \<and> ds_stale p = ds_stale n"
  by (cases p; cases n) (auto simp: material_def)

text \<open>The field-by-field comparison of two states is the inequality of all they show: everything
  but the uuid, the time, the source and the error text. A device seen for the first time always
  counts as changed.\<close>

theorem material_change_iff:
  "has_material_state_change prev next \<longleftrightarrow> (case prev of None \<Rightarrow> True | Some p \<Rightarrow> material p \<noteq> material next)"
proof (cases prev)
  case (Some p)
  define ll where "ll \<longleftrightarrow> length (ds_lights p) \<noteq> length (ds_lights next) \<or>
      list_ex (\<lambda>(a, b). light_changed a b) (zip (ds_lights p) (ds_lights next))"
  have lights: "ll \<longleftrightarrow> ds_lights p \<noteq> ds_lights next"
    using lights_changed [of "ds_lights p" "ds_lights next"] unfolding ll_def by metis
  have split: "(if A then True else if B then True else C) \<longleftrightarrow> (A \<or> B) \<or> C" for A B C by simp
  show ?thesis
    unfolding Some has_material_state_change_def option.case material_eq_iff split ll_def [symmetric]
      light_opt same_channels_eq same_schedule_digest_eq lights by auto
qed (simp add: has_material_state_change_def)

lemma jitter_bounds:
  assumes "1000 \<le> base" "0 \<le> percent" "percent \<le> 1"
  shows "1000 \<le> with_jitter_ms base percent rnd"
    "of_int (with_jitter_ms base percent rnd) \<le> max 1000 (of_int base * (1 + percent) + 1 / 2)"
    "of_int base * (1 - percent) - 1 / 2 \<le> (of_int (with_jitter_ms base percent rnd) :: rat)"
proof -
  define c where "c = (max 0 (min rnd 1) * 2 - 1) * (of_int base * percent)"
  have bp: "max 0 (min percent 1) = percent" using assms by simp
  have j: "with_jitter_ms base percent rnd = max 1000 (js_round (of_int base + c))"
    by (simp add: with_jitter_ms_def Let_def bp c_def)
  have pos: "0 \<le> of_int base * percent" using assms by simp
  have "- 1 \<le> max 0 (min rnd 1) * 2 - 1" "max 0 (min rnd 1) * 2 - 1 \<le> 1" by auto
  then have c: "- (of_int base * percent) \<le> c" "c \<le> of_int base * percent"
    unfolding c_def using mult_right_mono [OF _ pos, of "- 1" "max 0 (min rnd 1) * 2 - 1"]
      mult_right_mono [OF _ pos, of "max 0 (min rnd 1) * 2 - 1" 1] by auto
  have r: "\<bar>of_int (js_round (of_int base + c)) - (of_int base + c)\<bar> \<le> 1 / 2" by (rule js_round_error)
  show "1000 \<le> with_jitter_ms base percent rnd" by (simp add: j)
  have "of_int (js_round (of_int base + c)) \<le> of_int base * (1 + percent) + 1 / 2"
    using abs_le_D1 [OF r] c(2) unfolding distrib_left by linarith
  then show "of_int (with_jitter_ms base percent rnd) \<le> max 1000 (of_int base * (1 + percent) + 1 / 2)"
    by (auto simp: j max_def)
  have "of_int base * (1 - percent) - 1 / 2 \<le> (of_int (js_round (of_int base + c)) :: rat)"
    using abs_le_D2 [OF r] c(1) unfolding right_diff_distrib by linarith
  then show "of_int base * (1 - percent) - 1 / 2 \<le> (of_int (with_jitter_ms base percent rnd) :: rat)"
    by (auto simp: j max_def)
qed

lemma failure_backoff_cases:
  "0 < fc \<Longrightarrow> failure_backoff_ms fc \<in> {30000, 60000, 120000, 300000}"
proof -
  assume "0 < fc"
  then have "nat (min 3 (fc - 1)) \<in> {0, 1, 2, 3}" by (auto simp: min_def)
  then have "failure_backoff_sequence_ms ! nat (min 3 (fc - 1)) \<in> {30000, 60000, 120000, 300000}"
    by (auto simp: failure_backoff_sequence_ms_def numeral_eq_Suc)
  moreover have "int (length failure_backoff_sequence_ms) - 1 = 3"
    by (simp add: failure_backoff_sequence_ms_def)
  ultimately show ?thesis using \<open>0 < fc\<close> by (simp only: failure_backoff_ms_def Let_def) simp
qed

lemma failure_backoff_mono: "fc \<le> fd \<Longrightarrow> failure_backoff_ms fc \<le> failure_backoff_ms fd"
proof -
  assume le: "fc \<le> fd"
  have seq: "failure_backoff_sequence_ms ! i \<le> failure_backoff_sequence_ms ! j" if "i \<le> j" "j \<le> 3" for i j
  proof -
    from that have "i \<in> {0, 1, 2, 3}" "j \<in> {0, 1, 2, 3}" by auto
    with \<open>i \<le> j\<close> show ?thesis by (auto simp: failure_backoff_sequence_ms_def numeral_eq_Suc)
  qed
  have len: "int (length failure_backoff_sequence_ms) - 1 = 3"
    by (simp add: failure_backoff_sequence_ms_def)
  show ?thesis
  proof (cases "fc \<le> 0")
    case True
    then show ?thesis using failure_backoff_cases [of fd] by (cases "fd \<le> 0") (auto simp: failure_backoff_ms_def)
  next
    case False
    have "nat (min 3 (fc - 1)) \<le> nat (min 3 (fd - 1))" using le by (intro nat_mono) linarith
    moreover have "nat (min 3 (fd - 1)) \<le> 3" by linarith
    ultimately have "failure_backoff_sequence_ms ! nat (min 3 (fc - 1)) \<le> failure_backoff_sequence_ms ! nat (min 3 (fd - 1))"
      by (rule seq)
    with False le show ?thesis by (simp add: failure_backoff_ms_def Let_def len)
  qed
qed

text \<open>The time to the next poll is bounded and honest about failures: after a failure it is the
  step of the back-off sequence for the number of failures, never shorter for more failures and
  never above five minutes; without failures it is, in any draw of the random number, within
  10 percent of 8 seconds while boosted, within 15 percent of 12 seconds for two minutes after a
  change, and within 15 percent of 45 seconds otherwise.\<close>

theorem next_interval_bounds:
  "(if 0 < failure_count m then
      next_interval_ms m now rnd \<in> {30000, 60000, 120000, 300000} \<and>
      next_interval_ms m now rnd \<le> next_interval_ms (m\<lparr>failure_count := failure_count m + k\<rparr>) now rnd
    else if (\<exists>b. boost_until_at m = Some b \<and> b \<noteq> 0 \<and> now < b) then
      7199 \<le> next_interval_ms m now rnd \<and> next_interval_ms m now rnd \<le> 8801
    else if (\<exists>c. last_change_at m = Some c \<and> c \<noteq> 0 \<and> now - c < hot_window_ms) then
      10199 \<le> next_interval_ms m now rnd \<and> next_interval_ms m now rnd \<le> 13801
    else 38249 \<le> next_interval_ms m now rnd \<and> next_interval_ms m now rnd \<le> 51751)"
proof -
  have range: "lo \<le> with_jitter_ms base percent rnd \<and> with_jitter_ms base percent rnd \<le> hi"
    if "1000 \<le> base" "0 \<le> percent" "percent \<le> 1" "of_int lo \<le> of_int base * (1 - percent) - (1 / 2 :: rat)"
      "max 1000 (of_int base * (1 + percent) + (1 / 2 :: rat)) \<le> of_int hi" for base percent lo hi
  proof -
    have "(of_int lo :: rat) \<le> of_int (with_jitter_ms base percent rnd)"
      using jitter_bounds(3) [OF that(1-3), of rnd] that(4) by linarith
    moreover have "of_int (with_jitter_ms base percent rnd) \<le> (of_int hi :: rat)"
      using jitter_bounds(2) [OF that(1-3), of rnd] that(5) by linarith
    ultimately show ?thesis by simp
  qed
  have b: "7199 \<le> with_jitter_ms boost_interval_ms (1 / 10) rnd \<and> with_jitter_ms boost_interval_ms (1 / 10) rnd \<le> 8801"
    by (rule range) (simp_all add: boost_interval_ms_def)
  have h: "10199 \<le> with_jitter_ms hot_interval_ms (15 / 100) rnd \<and> with_jitter_ms hot_interval_ms (15 / 100) rnd \<le> 13801"
    by (rule range) (simp_all add: hot_interval_ms_def)
  have st: "38249 \<le> with_jitter_ms stable_interval_ms (15 / 100) rnd \<and> with_jitter_ms stable_interval_ms (15 / 100) rnd \<le> 51751"
    by (rule range) (simp_all add: stable_interval_ms_def)
  show ?thesis
  proof (cases "0 < failure_count m")
    case True
    then show ?thesis
      using failure_backoff_cases [of "int (failure_count m)"]
        failure_backoff_mono [of "int (failure_count m)" "int (failure_count m + k)"]
      by (simp add: next_interval_ms_def)
  next
    case False
    with b h st show ?thesis by (simp add: next_interval_ms_def split: option.splits)
  qed
qed

end
