(* ===== verification/Telemetry.thy ===== *)
theory Telemetry
  imports Config
begin

text \<open>
  The telemetry store, \<open>packages/core/src/api/telemetry-db.ts\<close>, and the handlers that read it,
  \<open>get-telemetry-power-current.ts\<close> and \<open>get-telemetry-power-history.ts\<close>. A table is the list of its
  rows in the order of their ids; the SQL statements are functions on tables. SQLite leaves open
  which of several rows with the greatest time \<open>LIMIT 1\<close> returns: the model takes the last one, as
  its index scan does.
\<close>

section \<open>Tables\<close>

record sample =
  sm_uuid :: string
  sm_channel :: int
  sm_at_ms :: int
  sm_voltage_v :: "rat option"
  sm_current_a :: "rat option"
  sm_power_w :: "rat option"
  sm_raw_voltage_dv :: "int option"
  sm_raw_current_ma :: "int option"
  sm_raw_power_mw :: "int option"
  sm_source :: string

text \<open>A stored row has its id, the next one in order, for rows are never deleted.\<close>

record sample_row = sample +
  sm_id :: nat

record telemetry_db =
  db_samples :: "sample_row list"
  db_days :: "((string \<times> int \<times> string) \<times> (int \<times> int)) list"

definition empty_db :: telemetry_db where
  "empty_db = \<lparr>db_samples = [], db_days = []\<rparr>"

definition next_row :: "sample \<Rightarrow> telemetry_db \<Rightarrow> sample_row" where
  "next_row row db = sample.extend row \<lparr>sm_id = Suc (length (db_samples db))\<rparr>"

definition insert_telemetry_sample :: "sample \<Rightarrow> telemetry_db \<Rightarrow> telemetry_db" where
  "insert_telemetry_sample row db = db\<lparr>db_samples := db_samples db @ [next_row row db]\<rparr>"

definition upsert_consumption_day ::
  "string \<Rightarrow> int \<Rightarrow> string \<Rightarrow> int \<Rightarrow> int \<Rightarrow> telemetry_db \<Rightarrow> telemetry_db" where
  "upsert_consumption_day uuid channel date at_s wh db =
     db\<lparr>db_days := map_set (uuid, channel, date) (at_s, wh) (db_days db)\<rparr>"

text \<open>\<open>ORDER BY at_ms DESC LIMIT 1\<close>: the last of the rows with the greatest time.\<close>

fun latest_of :: "sample_row list \<Rightarrow> sample_row option" where
  "latest_of [] = None"
| "latest_of (r # rs) = (case latest_of rs of
     None \<Rightarrow> Some r | Some m \<Rightarrow> if sm_at_ms m < sm_at_ms r then Some r else Some m)"

definition get_latest_telemetry_sample :: "string \<Rightarrow> int \<Rightarrow> telemetry_db \<Rightarrow> sample_row option" where
  "get_latest_telemetry_sample uuid channel db =
     latest_of (filter (\<lambda>r. sm_uuid r = uuid \<and> sm_channel r = channel) (db_samples db))"

section \<open>Buckets\<close>

record bucket_point =
  bp_t :: int
  bp_power_avg :: "rat option"
  bp_power_max :: "rat option"
  bp_voltage_avg :: "rat option"
  bp_current_avg :: "rat option"

text \<open>\<open>AVG\<close> and \<open>MAX\<close> skip \<open>NULL\<close> and are \<open>NULL\<close> when there is nothing else.\<close>

definition sql_avg :: "rat option list \<Rightarrow> rat option" where
  "sql_avg vs = (let xs = List.map_filter (\<lambda>v. v) vs
     in if xs = [] then None else Some (sum_list xs / of_nat (length xs)))"

definition sql_max :: "rat option list \<Rightarrow> rat option" where
  "sql_max vs = (let xs = List.map_filter (\<lambda>v. v) vs in if xs = [] then None else Some (foldr max xs (hd xs)))"

text \<open>\<open>CAST(at_ms / ? AS INTEGER) * ?\<close>; the division truncates, and times are not negative.\<close>

definition bucket_of :: "int \<Rightarrow> sample_row \<Rightarrow> int" where
  "bucket_of bucket_ms r = sm_at_ms r div bucket_ms * bucket_ms"

definition in_range :: "string \<Rightarrow> int \<Rightarrow> int \<Rightarrow> int \<Rightarrow> sample_row \<Rightarrow> bool" where
  "in_range uuid channel from_ms to_ms r \<longleftrightarrow>
     sm_uuid r = uuid \<and> sm_channel r = channel \<and> from_ms \<le> sm_at_ms r \<and> sm_at_ms r \<le> to_ms"

definition get_telemetry_history_buckets ::
  "string \<Rightarrow> int \<Rightarrow> int \<Rightarrow> int \<Rightarrow> int \<Rightarrow> telemetry_db \<Rightarrow> bucket_point list" where
  "get_telemetry_history_buckets uuid channel from_ms to_ms bucket_ms db =
     (let rows = filter (in_range uuid channel from_ms to_ms) (db_samples db);
          ts = sort (remdups (map (bucket_of bucket_ms) rows))
      in map (\<lambda>t. let g = filter (\<lambda>r. bucket_of bucket_ms r = t) rows
                   in \<lparr>bp_t = t, bp_power_avg = sql_avg (map sm_power_w g), bp_power_max = sql_max (map sm_power_w g),
                      bp_voltage_avg = sql_avg (map sm_voltage_v g), bp_current_avg = sql_avg (map sm_current_a g)\<rparr>) ts)"

section \<open>Handlers\<close>

definition opt_json :: "('a \<Rightarrow> jsval) \<Rightarrow> 'a option \<Rightarrow> jsval" where
  "opt_json f v = (case v of None \<Rightarrow> JNull | Some x \<Rightarrow> f x)"

definition json_of_sample :: "sample_row \<Rightarrow> jsval" where
  "json_of_sample r = JObj [(''id'', js_int (int (sm_id r))), (''uuid'', JStr (sm_uuid r)), (''channel'', js_int (sm_channel r)),
     (''atMs'', js_int (sm_at_ms r)), (''voltageV'', opt_json js_rat (sm_voltage_v r)),
     (''currentA'', opt_json js_rat (sm_current_a r)), (''powerW'', opt_json js_rat (sm_power_w r)),
     (''rawVoltageDv'', opt_json js_int (sm_raw_voltage_dv r)),
     (''rawCurrentMa'', opt_json js_int (sm_raw_current_ma r)),
     (''rawPowerMw'', opt_json js_int (sm_raw_power_mw r)), (''source'', JStr (sm_source r))]"

definition json_of_bucket :: "bucket_point \<Rightarrow> jsval" where
  "json_of_bucket p = JObj [(''t'', js_int (bp_t p)), (''powerWAvg'', opt_json js_rat (bp_power_avg p)),
     (''powerWMax'', opt_json js_rat (bp_power_max p)), (''voltageVAvg'', opt_json js_rat (bp_voltage_avg p)),
     (''currentAAvg'', opt_json js_rat (bp_current_avg p))]"

definition telemetry_power_current :: "telemetry_db \<Rightarrow> api_request \<Rightarrow> api_response" where
  "telemetry_power_current db req =
     (let body = body_of req; uuid = trim (string_or_empty (field body ''uuid'')) in
      if uuid = [] then ApiErr ''Missing uuid'' ''missing_uuid''
      else case body_channel body of
          None \<Rightarrow> ApiErr ''Invalid channel'' ''invalid_channel''
        | Some channel \<Rightarrow>
            ApiOk (JObj [(''sample'', opt_json json_of_sample (get_latest_telemetry_sample uuid channel db))]))"

text \<open>\<open>x === undefined ? d : Number(x)\<close>, then \<open>Number.isFinite(..) ? Math.max(lo, Math.floor(..)) : d\<close>.\<close>

definition bounded_param :: "jsval \<Rightarrow> int \<Rightarrow> int \<Rightarrow> int" where
  "bounded_param v lo d = (case (if v = JUndef then Fin (of_int d) else num_of v) of
     Fin r \<Rightarrow> max lo \<lfloor>r\<rfloor> | _ \<Rightarrow> d)"

definition telemetry_power_history :: "telemetry_db \<Rightarrow> int \<Rightarrow> api_request \<Rightarrow> api_response" where
  "telemetry_power_history db now req =
     (let body = body_of req; uuid = trim (string_or_empty (field body ''uuid'')) in
      if uuid = [] then ApiErr ''Missing uuid'' ''missing_uuid''
      else case body_channel body of
          None \<Rightarrow> ApiErr ''Invalid channel'' ''invalid_channel''
        | Some channel \<Rightarrow>
            (let to_ms = bounded_param (field body ''toMs'') 0 now;
                 from_ms = bounded_param (field body ''fromMs'') 0 (now - 21600000);
                 bucket_ms = bounded_param (field body ''bucketMs'') 1000 60000
             in if to_ms < from_ms then ApiErr ''fromMs must be <= toMs'' ''invalid_range''
                else if 2592000000 < to_ms - from_ms then ApiErr ''Range too large (max 30 days)'' ''invalid_range''
                else ApiOk (JObj [(''fromMs'', js_int from_ms), (''toMs'', js_int to_ms), (''bucketMs'', js_int bucket_ms),
                  (''points'', JArr (map json_of_bucket
                     (get_telemetry_history_buckets uuid channel from_ms to_ms bucket_ms db)))])))"

section \<open>Properties\<close>

lemma latest_of_facts:
  "case latest_of rs of None \<Rightarrow> rs = [] | Some m \<Rightarrow> m \<in> set rs \<and> (\<forall>r \<in> set rs. sm_at_ms r \<le> sm_at_ms m)"
proof (induction rs)
  case (Cons r rs)
  then show ?case by (cases "latest_of rs") (auto intro: order_trans)
qed simp

text \<open>The current reading: a sample just recorded is the one returned, unless one of the same
  device and channel has a later time; and the answer is always a recorded sample of the device and
  channel that no other exceeds, or nothing if there is none.\<close>

theorem latest_sample:
  "(case get_latest_telemetry_sample uuid channel db of
      None \<Rightarrow> filter (\<lambda>r. sm_uuid r = uuid \<and> sm_channel r = channel) (db_samples db) = []
    | Some m \<Rightarrow> m \<in> set (db_samples db) \<and> sm_uuid m = uuid \<and> sm_channel m = channel \<and>
        list_all (\<lambda>r. sm_at_ms r \<le> sm_at_ms m) (filter (\<lambda>r. sm_uuid r = uuid \<and> sm_channel r = channel) (db_samples db))) \<and>
   get_latest_telemetry_sample (sm_uuid row) (sm_channel row) (insert_telemetry_sample row db) =
     (case get_latest_telemetry_sample (sm_uuid row) (sm_channel row) db of
        None \<Rightarrow> Some (next_row row db)
      | Some m \<Rightarrow> if sm_at_ms row < sm_at_ms m then Some m else Some (next_row row db))"
proof -
  have app: "latest_of (rs @ [row]) = (case latest_of rs of None \<Rightarrow> Some row
      | Some m \<Rightarrow> if sm_at_ms row < sm_at_ms m then Some m else Some row)" for rs row
  proof (induction rs)
    case (Cons r rs)
    then show ?case by (cases "latest_of rs") auto
  qed simp
  show ?thesis
    using latest_of_facts [of "filter (\<lambda>r. sm_uuid r = uuid \<and> sm_channel r = channel) (db_samples db)"]
    by (auto simp: get_latest_telemetry_sample_def insert_telemetry_sample_def next_row_def sample.defs app list_all_iff
        split: option.splits)
qed

lemma sum_list_le_max: "(\<forall>x \<in> set xs. x \<le> (m :: rat)) \<Longrightarrow> sum_list xs \<le> of_nat (length xs) * m"
proof (induction xs)
  case (Cons x xs)
  then have "x + sum_list xs \<le> m + of_nat (length xs) * m" by (intro add_mono) auto
  then show ?case by (simp add: algebra_simps)
qed simp

lemma foldr_max: "foldr max xs y \<in> insert (y :: rat) (set xs) \<and> (\<forall>x \<in> insert y (set xs). x \<le> foldr max xs y)"
  by (induction xs) (auto simp: max_def)

lemma sql_avg_le_max:
  "case (sql_avg vs, sql_max vs) of (None, None) \<Rightarrow> \<forall>v \<in> set vs. v = None
   | (Some a, Some m) \<Rightarrow> a \<le> m \<and> Some m \<in> set vs \<and> (\<forall>x. Some x \<in> set vs \<longrightarrow> x \<le> m)
   | _ \<Rightarrow> False"
proof -
  define xs where "xs = List.map_filter (\<lambda>v. v) vs"
  have mem: "x \<in> set xs \<longleftrightarrow> Some x \<in> set vs" for x
    by (force simp: xs_def List.map_filter_def)
  show ?thesis
  proof (cases "xs = []")
    case True
    then have "Some x \<notin> set vs" for x using mem [of x] by simp
    then have "\<forall>v \<in> set vs. v = None" by (metis not_None_eq)
    with True show ?thesis by (simp add: sql_avg_def sql_max_def Let_def flip: xs_def)
  next
    case False
    define m where "m = foldr max xs (hd xs)"
    have m: "m \<in> set xs" "\<forall>x \<in> set xs. x \<le> m"
      using foldr_max [of xs "hd xs"] False by (auto simp: m_def)
    have "sum_list xs / of_nat (length xs) \<le> m"
      using sum_list_le_max [OF m(2)] False by (simp add: divide_le_eq mult.commute)
    with False m mem show ?thesis by (simp add: sql_avg_def sql_max_def Let_def flip: xs_def m_def)
  qed
qed

text \<open>A bucket and what it shows of its samples.\<close>

lemma in_bucket:
  assumes "0 < bucket_ms"
  shows "bucket_of bucket_ms r = t \<longleftrightarrow> bucket_ms dvd t \<and> t \<le> sm_at_ms r \<and> sm_at_ms r < t + bucket_ms"
proof
  assume eq: "bucket_of bucket_ms r = t"
  have "sm_at_ms r = t + sm_at_ms r mod bucket_ms"
    using eq by (simp add: bucket_of_def flip: eq)
  with assms pos_mod_bound [OF assms] pos_mod_sign [OF assms] have "t \<le> sm_at_ms r \<and> sm_at_ms r < t + bucket_ms"
    by (smt (verit))
  moreover have "bucket_ms dvd t" using eq by (auto simp: bucket_of_def)
  ultimately show "bucket_ms dvd t \<and> t \<le> sm_at_ms r \<and> sm_at_ms r < t + bucket_ms" by blast
next
  assume a: "bucket_ms dvd t \<and> t \<le> sm_at_ms r \<and> sm_at_ms r < t + bucket_ms"
  then obtain k where k: "t = bucket_ms * k" by (auto elim: dvdE)
  have "sm_at_ms r div bucket_ms = k"
    using a assms by (intro int_div_pos_eq [of _ _ _ "sm_at_ms r - bucket_ms * k"]) (auto simp: k)
  then show "bucket_of bucket_ms r = t" by (simp add: bucket_of_def k)
qed

definition point_of_bucket :: "int \<Rightarrow> sample_row list \<Rightarrow> int \<Rightarrow> bucket_point" where
  "point_of_bucket bucket_ms rows t = (let g = filter (\<lambda>r. bucket_of bucket_ms r = t) rows
      in \<lparr>bp_t = t, bp_power_avg = sql_avg (map sm_power_w g), bp_power_max = sql_max (map sm_power_w g),
         bp_voltage_avg = sql_avg (map sm_voltage_v g), bp_current_avg = sql_avg (map sm_current_a g)\<rparr>)"

lemma point_of_bucket_time [simp]: "bp_t (point_of_bucket bucket_ms rows t) = t"
  by (simp add: point_of_bucket_def Let_def)

lemma point_of_bucket_power:
  assumes "0 < bucket_ms"
  shows "case (bp_power_avg (point_of_bucket bucket_ms rows t), bp_power_max (point_of_bucket bucket_ms rows t)) of
       (None, None) \<Rightarrow> True
     | (Some a, Some m) \<Rightarrow> a \<le> m \<and> (\<exists>r \<in> set rows. t \<le> sm_at_ms r \<and> sm_at_ms r < t + bucket_ms \<and> sm_power_w r = Some m)
     | _ \<Rightarrow> False"
  using sql_avg_le_max [of "map sm_power_w (filter (\<lambda>r. bucket_of bucket_ms r = t) rows)"]
  by (auto simp: point_of_bucket_def Let_def in_bucket [OF assms] split: option.splits)

text \<open>C31. The history: the buckets come in increasing order of their start, without repetition;
  the start is a multiple of the width; every sample of the range lies in exactly one bucket, the
  one that starts at most a width before it, and no bucket is empty; in every bucket the average
  power is at most the maximum, which is the power of a sample of the bucket.\<close>

theorem history_buckets_partition:
  assumes "0 < bucket_ms"
  shows "(let ps = get_telemetry_history_buckets uuid channel from_ms to_ms bucket_ms db;
              rows = filter (in_range uuid channel from_ms to_ms) (db_samples db) in
     sorted (map bp_t ps) \<and> distinct (map bp_t ps) \<and>
     (\<forall>r \<in> set rows. \<exists>!p. p \<in> set ps \<and> bp_t p \<le> sm_at_ms r \<and> sm_at_ms r < bp_t p + bucket_ms) \<and>
     (\<forall>p \<in> set ps. bucket_ms dvd bp_t p \<and>
        (\<exists>r \<in> set rows. bp_t p \<le> sm_at_ms r \<and> sm_at_ms r < bp_t p + bucket_ms) \<and>
        (case (bp_power_avg p, bp_power_max p) of
           (None, None) \<Rightarrow> True
         | (Some a, Some m) \<Rightarrow> a \<le> m \<and>
             (\<exists>r \<in> set rows. bp_t p \<le> sm_at_ms r \<and> sm_at_ms r < bp_t p + bucket_ms \<and> sm_power_w r = Some m)
         | _ \<Rightarrow> False)))"
proof -
  define rows where "rows = filter (in_range uuid channel from_ms to_ms) (db_samples db)"
  define ts where "ts = sort (remdups (map (bucket_of bucket_ms) rows))"
  let ?ps = "map (point_of_bucket bucket_ms rows) ts"
  have ps: "get_telemetry_history_buckets uuid channel from_ms to_ms bucket_ms db = ?ps"
    by (simp add: get_telemetry_history_buckets_def point_of_bucket_def Let_def rows_def ts_def)
  have map_t: "map bp_t ?ps = ts" by (simp add: comp_def)
  have set_ts: "set ts = bucket_of bucket_ms ` set rows" by (simp add: ts_def)
  have whole: "bucket_ms dvd t" if "t \<in> set ts" for t using that by (auto simp: set_ts bucket_of_def)
  have uniq: "\<exists>!p. p \<in> set ?ps \<and> bp_t p \<le> sm_at_ms r \<and> sm_at_ms r < bp_t p + bucket_ms" if r: "r \<in> set rows" for r
  proof (rule ex1I [of _ "point_of_bucket bucket_ms rows (bucket_of bucket_ms r)"])
    show "point_of_bucket bucket_ms rows (bucket_of bucket_ms r) \<in> set ?ps \<and>
        bp_t (point_of_bucket bucket_ms rows (bucket_of bucket_ms r)) \<le> sm_at_ms r \<and>
        sm_at_ms r < bp_t (point_of_bucket bucket_ms rows (bucket_of bucket_ms r)) + bucket_ms"
      using r in_bucket [OF assms, of r "bucket_of bucket_ms r"] by (auto simp: set_ts)
  next
    fix p assume "p \<in> set ?ps \<and> bp_t p \<le> sm_at_ms r \<and> sm_at_ms r < bp_t p + bucket_ms"
    then show "p = point_of_bucket bucket_ms rows (bucket_of bucket_ms r)"
      using in_bucket [OF assms, of r "bp_t p"] whole by auto
  qed
  have met: "bucket_ms dvd t \<and> (\<exists>r \<in> set rows. t \<le> sm_at_ms r \<and> sm_at_ms r < t + bucket_ms)" if t: "t \<in> set ts" for t
  proof -
    obtain r where "r \<in> set rows" "bucket_of bucket_ms r = t" using t by (auto simp: set_ts)
    with in_bucket [OF assms, of r t] show ?thesis by blast
  qed
  show ?thesis
    unfolding Let_def ps rows_def [symmetric] map_t
  proof (intro conjI)
    show "sorted ts" "distinct ts" by (simp_all add: ts_def)
    show "\<forall>r \<in> set rows. \<exists>!p. p \<in> set ?ps \<and> bp_t p \<le> sm_at_ms r \<and> sm_at_ms r < bp_t p + bucket_ms" using uniq by blast
  qed (use met point_of_bucket_power [OF assms, of rows] in \<open>simp only: set_map ball_simps point_of_bucket_time, blast\<close>)
qed

definition demo_sample :: "int \<Rightarrow> rat \<Rightarrow> sample" where
  "demo_sample tm w = \<lparr>sm_uuid = ''u'', sm_channel = 0, sm_at_ms = tm, sm_voltage_v = None, sm_current_a = None,
     sm_power_w = Some w, sm_raw_voltage_dv = None, sm_raw_current_ma = None, sm_raw_power_mw = None,
     sm_source = ''telemetry_poller''\<rparr>"

definition demo_db :: telemetry_db where
  "demo_db = fold insert_telemetry_sample [demo_sample 2500 4, demo_sample 1000 1, demo_sample 1500 3] empty_db"

lemma history_buckets_partition_witness:
  "map (\<lambda>p. (bp_t p, bp_power_avg p, bp_power_max p)) (get_telemetry_history_buckets ''u'' 0 0 9999 1000 demo_db) =
     [(1000, Some 2, Some 3), (2000, Some 4, Some 4)] \<and>
   distinct (map bp_t (get_telemetry_history_buckets ''u'' 0 0 9999 1000 demo_db))"
proof
  show "map (\<lambda>p. (bp_t p, bp_power_avg p, bp_power_max p)) (get_telemetry_history_buckets ''u'' 0 0 9999 1000 demo_db) =
     [(1000, Some 2, Some 3), (2000, Some 4, Some 4)]"
    by code_simp
  show "distinct (map bp_t (get_telemetry_history_buckets ''u'' 0 0 9999 1000 demo_db))"
    using history_buckets_partition [of 1000 "''u''" 0 0 9999 demo_db] by (simp add: Let_def)
qed

end
