(* ===== verification/Poller.thy ===== *)
theory Poller
  imports PollState Telemetry LanMessage Mac
begin

text \<open>
  The state poller service, class \<open>StatePollerServiceImpl\<close> of
  \<open>packages/core/src/api/state-poller.ts\<close>: its fields as a record and one function for every
  stretch of code between two \<open>await\<close>s, which JavaScript runs without interruption.

  A poll is \<open>poll_start\<close> (up to the first await; the promise goes into \<open>inFlight\<close>), then the awaits
  of configuration, key and device, whose outcome is \<open>poll_fetch\<close>, then \<open>poll_settle\<close> (the rest of
  the task) and \<open>poll_release\<close> (the \<open>finally\<close> that takes it out of \<open>inFlight\<close>); telemetry polls have
  the same four parts. A tick is \<open>tick_begin\<close>, the synchronisation of the known hosts and
  \<open>tick_body\<close>. The recovery of a host is \<open>resolve_start\<close> and \<open>resolve_finish\<close>; \<open>pollNow\<close> is a record
  of its own in \<open>p_calls\<close>. A stream subscriber is the list of the events written to it. Times and
  random draws are arguments.
\<close>

section \<open>Service state\<close>

datatype poll_result = PrState device_state | PrError poll_error

record poll_task =
  pt_now :: int
  pt_reason :: poll_reason
  pt_timeout :: "rat option"
  pt_result :: "poll_result option"

record telemetry_task =
  tt_now :: int
  tt_source :: string
  tt_done :: bool

datatype event =
    EvSnapshot "device_state list"
  | EvPowerSnapshot "device_power list"
  | EvHealth poller_stats
  | EvHeartbeat int
  | EvState device_state
  | EvStale device_state
  | EvPower device_power
  | EvPowerStale device_power

record subscriber =
  sb_open :: bool
  sb_events :: "event list"

datatype tick_phase = TickIdle | TickSyncing int | TickReady int

datatype now_worker = Awaiting string | Got poll_result | Returned

text \<open>\<open>nc_uuids\<close> is the list the workers take from as it was at first, kept for reference.\<close>

record now_call =
  nc_given :: "string list"
  nc_uuids :: "string list"
  nc_reason :: poll_reason
  nc_timeout :: "rat option"
  nc_running :: bool
  nc_pending :: "string list"
  nc_workers :: "now_worker list"
  nc_states :: "device_state list"
  nc_errors :: "poll_error list"

record poller =
  p_states :: "(string, device_state) jsmap"
  p_metas :: "(string, poll_meta) jsmap"
  p_hosts :: "(string, known_host) jsmap"
  p_in_flight :: "(string, poll_task) jsmap"
  p_powers :: "(string, device_power) jsmap"
  p_telemetry :: "(string, telemetry_task) jsmap"
  p_resolving :: "string list"
  p_subs :: "(nat, subscriber) jsmap"
  p_last_sync :: int
  p_last_cycle_at :: "int option"
  p_last_health :: int
  p_queue_depth :: nat
  p_cycles :: "int list"
  p_tick :: tick_phase
  p_next_sub :: nat
  p_calls :: "now_call list"
  p_db :: telemetry_db

definition poller_init :: poller where
  "poller_init = \<lparr>p_states = [], p_metas = [], p_hosts = [], p_in_flight = [], p_powers = [], p_telemetry = [],
     p_resolving = [], p_subs = [], p_last_sync = 0, p_last_cycle_at = None, p_last_health = 0,
     p_queue_depth = 0, p_cycles = [], p_tick = TickIdle, p_next_sub = 1, p_calls = [], p_db = empty_db\<rparr>"

definition get_status :: "poller \<Rightarrow> poller_stats" where
  "get_status s = \<lparr>ps_in_flight = length (p_in_flight s), ps_queue_depth = p_queue_depth s,
     ps_cycle_p50 = percentile (p_cycles s) 50, ps_cycle_p95 = percentile (p_cycles s) 95,
     ps_last_cycle_at = p_last_cycle_at s, ps_active_clients = length (p_subs s)\<rparr>"

section \<open>Metas\<close>

definition ensure_meta :: "string \<Rightarrow> int \<Rightarrow> poller \<Rightarrow> poller" where
  "ensure_meta uuid now s =
     (if map_has (p_metas s) uuid then s else s\<lparr>p_metas := map_set uuid (create_meta now) (p_metas s)\<rparr>)"

definition meta_of :: "poller \<Rightarrow> string \<Rightarrow> poll_meta" where
  "meta_of s uuid = or_else (map_get (p_metas s) uuid) (create_meta 0)"

definition update_meta :: "string \<Rightarrow> (poll_meta \<Rightarrow> poll_meta) \<Rightarrow> poller \<Rightarrow> poller" where
  "update_meta uuid f s = s\<lparr>p_metas := map_set uuid (f (meta_of s uuid)) (p_metas s)\<rparr>"

definition boost_device :: "string \<Rightarrow> int \<Rightarrow> poller \<Rightarrow> poller" where
  "boost_device uuid now s =
     (if uuid = [] then s
      else update_meta uuid (\<lambda>m. m\<lparr>boost_until_at := Some (now + boost_window_ms), next_due_at := now\<rparr>)
             (ensure_meta uuid now s))"

section \<open>Subscribers\<close>

text \<open>\<open>enqueue\<close> throws on a closed stream; the subscriber is dropped then.\<close>

definition push_to_subscriber :: "nat \<Rightarrow> event \<Rightarrow> poller \<Rightarrow> poller" where
  "push_to_subscriber sid ev s =
     (case map_get (p_subs s) sid of
        None \<Rightarrow> s
      | Some sub \<Rightarrow>
          if sb_open sub then s\<lparr>p_subs := map_set sid (sub\<lparr>sb_events := sb_events sub @ [ev]\<rparr>) (p_subs s)\<rparr>
          else s\<lparr>p_subs := map_del sid (p_subs s)\<rparr>)"

definition broadcast_event :: "event \<Rightarrow> poller \<Rightarrow> poller" where
  "broadcast_event ev s = fold (\<lambda>sid. push_to_subscriber sid ev) (map_keys (p_subs s)) s"

definition create_stream :: "(string \<Rightarrow> string \<Rightarrow> int) \<Rightarrow> poller \<Rightarrow> poller" where
  "create_stream lc s =
     (let sid = p_next_sub s;
          s1 = s\<lparr>p_next_sub := sid + 1, p_subs := map_set sid \<lparr>sb_open = True, sb_events = []\<rparr> (p_subs s)\<rparr>;
          s2 = push_to_subscriber sid (EvSnapshot (js_sort (\<lambda>a b. lc (ds_uuid a) (ds_uuid b)) (map snd (p_states s1)))) s1;
          s3 = push_to_subscriber sid (EvPowerSnapshot (js_sort (\<lambda>a b. lc (dp_uuid a) (dp_uuid b)) (map snd (p_powers s2)))) s2
      in push_to_subscriber sid (EvHealth (get_status s3)) s3)"

definition cancel_stream :: "nat \<Rightarrow> poller \<Rightarrow> poller" where
  "cancel_stream sid s = s\<lparr>p_subs := map_del sid (p_subs s)\<rparr>"

text \<open>The connection breaks: the next write fails.\<close>

definition close_stream :: "nat \<Rightarrow> poller \<Rightarrow> poller" where
  "close_stream sid s = (case map_get (p_subs s) sid of
     None \<Rightarrow> s | Some sub \<Rightarrow> s\<lparr>p_subs := map_set sid (sub\<lparr>sb_open := False\<rparr>) (p_subs s)\<rparr>)"

definition heartbeat :: "nat \<Rightarrow> int \<Rightarrow> poller \<Rightarrow> poller" where
  "heartbeat sid now s = push_to_subscriber sid (EvHeartbeat now) s"

section \<open>State polls\<close>

text \<open>\<open>pollDevice\<close> up to its first await; a device that is polled already is joined.\<close>

definition poll_start :: "string \<Rightarrow> poll_reason \<Rightarrow> rat option \<Rightarrow> int \<Rightarrow> poller \<Rightarrow> poller" where
  "poll_start uuid reason timeout now s =
     (if map_has (p_in_flight s) uuid then s
      else let s1 = ensure_meta uuid now s in
        s1\<lparr>p_in_flight := map_set uuid
             \<lparr>pt_now = now, pt_reason = reason, pt_timeout = timeout, pt_result = None\<rparr> (p_in_flight s1)\<rparr>)"

text \<open>What the awaits of a poll bring: the host and the device's answer, or the message of an
  exception. The configuration is read twice, for the host and for the key.\<close>

definition poll_fetch ::
  "jsval \<Rightarrow> jsval \<Rightarrow> string option \<Rightarrow> (lan_request \<Rightarrow> jsval result) \<Rightarrow> string \<Rightarrow> rat option \<Rightarrow> (string \<times> jsval) result" where
  "poll_fetch cfg cfg_key env_key lan uuid timeout =
     (let host = path cfg [''hosts'', uuid, ''host''] in
      if \<not> truthy host then Inl ''No LAN host known for device uuid. Resolve host first.''
      else and_then (require_lan_key cfg_key env_key) (\<lambda>key.
        and_then (lan (get_system_all (str_of host) (str_of key) (Some (or_else timeout default_poll_timeout_ms)))) (\<lambda>resp.
          Inr (str_of host, resp))))"

definition find_channel :: "('a \<Rightarrow> int) \<Rightarrow> 'a list \<Rightarrow> 'a option" where
  "find_channel ch xs = (case find (\<lambda>x. ch x = 0) xs of
     Some x \<Rightarrow> Some x | None \<Rightarrow> (case xs of [] \<Rightarrow> None | x # _ \<Rightarrow> Some x))"

text \<open>The state an answer describes, before its time is known.\<close>

definition state_of_answer ::
  "(string \<Rightarrow> string \<Rightarrow> int) \<Rightarrow> string \<Rightarrow> poll_reason \<Rightarrow> string \<Rightarrow> jsval \<Rightarrow> device_state result" where
  "state_of_answer lc uuid reason host resp =
     (let channels = normalize_channels (or_else (extract_lan_toggle_x resp) []);
          lights = or_else (extract_lan_light resp) []
      in if channels = [] \<and> lights = []
         then Inl ''Device state not found in Appliance.System.All digest (state unavailable).''
         else let light0 = find_channel ls_channel lights;
                  ch0 = find_channel ts_channel channels;
                  primary = (case light0 of
                     Some l \<Rightarrow> Some (ls_channel l, ls_onoff l)
                   | None \<Rightarrow> map_option (\<lambda>c. (ts_channel c, ts_onoff c)) ch0)
              in case primary of
                  None \<Rightarrow> Inl ''Device state unavailable (no channels).''
                | Some (channel, onoff) \<Rightarrow> Inr
                    \<lparr>ds_uuid = uuid, ds_host = host,
                     ds_kind = (if light0 \<noteq> None \<and> ch0 \<noteq> None then KMixed else if light0 \<noteq> None then KLight else KToggleX),
                     ds_channel = channel, ds_onoff = onoff, ds_channels = channels, ds_lights = lights,
                     ds_light = light0, ds_timerx = extract_lan_timer_x_digest lc resp,
                     ds_triggerx = extract_lan_trigger_x_digest lc resp, ds_updated_at = 0,
                     ds_source = reason, ds_stale = False, ds_error = None\<rparr>)"

definition next_updated_at :: "int \<Rightarrow> int option \<Rightarrow> int" where
  "next_updated_at now prev = (case prev of None \<Rightarrow> now | Some u \<Rightarrow> max now (u + 1))"

definition stale_state :: "string \<Rightarrow> poll_reason \<Rightarrow> string \<Rightarrow> int \<Rightarrow> poller \<Rightarrow> device_state" where
  "stale_state uuid reason message t s =
     (let prev = map_get (p_states s) uuid in
      \<lparr>ds_uuid = uuid,
       ds_host = (case prev of Some p \<Rightarrow> ds_host p | None \<Rightarrow>
          (case map_get (p_hosts s) uuid of Some h \<Rightarrow> kh_host h | None \<Rightarrow> [])),
       ds_kind = (case prev of Some p \<Rightarrow> ds_kind p | None \<Rightarrow> KToggleX),
       ds_channel = (case prev of Some p \<Rightarrow> ds_channel p | None \<Rightarrow> 0),
       ds_onoff = (case prev of Some p \<Rightarrow> ds_onoff p | None \<Rightarrow> 0),
       ds_channels = (case prev of Some p \<Rightarrow> ds_channels p | None \<Rightarrow> []),
       ds_lights = (case prev of Some p \<Rightarrow> ds_lights p | None \<Rightarrow> []),
       ds_light = (case prev of Some p \<Rightarrow> ds_light p | None \<Rightarrow> None),
       ds_timerx = (case prev of Some p \<Rightarrow> ds_timerx p | None \<Rightarrow> []),
       ds_triggerx = (case prev of Some p \<Rightarrow> ds_triggerx p | None \<Rightarrow> []),
       ds_updated_at = next_updated_at t (map_option ds_updated_at prev),
       ds_source = reason, ds_stale = True, ds_error = Some message\<rparr>)"

section \<open>Recovering a host\<close>

text \<open>\<open>tryResolveHost\<close> up to its first await.\<close>

definition resolve_start :: "string \<Rightarrow> int \<Rightarrow> poller \<Rightarrow> poller" where
  "resolve_start uuid now s =
     (if uuid \<in> set (p_resolving s) then s
      else let s1 = ensure_meta uuid now s in
        if (case last_resolve_attempt_at (meta_of s1 uuid) of
              None \<Rightarrow> False | Some l \<Rightarrow> l \<noteq> 0 \<and> now - l < resolve_cooldown_ms)
        then s1
        else update_meta uuid (\<lambda>m. m\<lparr>last_resolve_attempt_at := Some now\<rparr>)
               (s1\<lparr>p_resolving := p_resolving s1 @ [uuid]\<rparr>))"

text \<open>The hardware address and the block it searches, from the configuration.\<close>

definition resolve_targets :: "jsval \<Rightarrow> string \<Rightarrow> string option \<Rightarrow> string option \<times> string" where
  "resolve_targets cfg uuid suggested =
     (let configured = trim (string_or_empty (path cfg [''network'', ''cidr'']));
          cidr = (if configured \<noteq> [] then configured else or_else suggested []);
          device = find (\<lambda>d. string_or_empty (field d ''uuid'') = uuid)
                     (case path cfg [''devices'', ''list''] of JArr ds \<Rightarrow> ds | _ \<Rightarrow> []);
          dev = or_else device JUndef;
          raw = trim (string_or_empty (nn (path cfg [''hosts'', uuid, ''mac''])
                  (nn (field dev ''macAddress'') (field dev ''mac''))));
          mac = (if raw = [] then None
                 else Some (case normalize_mac raw of Inr m \<Rightarrow> m | Inl _ \<Rightarrow> raw))
      in (mac, cidr))"

text \<open>\<open>{ host, updatedAt, mac? }\<close> written over the entry of the device.\<close>

definition host_entry :: "jsval \<Rightarrow> string \<Rightarrow> string \<Rightarrow> string option \<Rightarrow> string \<Rightarrow> jsval" where
  "host_entry hosts uuid host mac updated_at =
     (let prev = field hosts uuid;
          base = [(''host'', JStr host), (''updatedAt'', JStr updated_at)];
          kept = (if truthy (field prev ''mac'') then map_set ''mac'' (field prev ''mac'') base else base)
      in JObj (case mac of
          None \<Rightarrow> kept
        | Some m \<Rightarrow> if m = [] then kept else map_set ''mac'' (JStr m) kept))"

definition save_host :: "jsval \<Rightarrow> string \<Rightarrow> string \<Rightarrow> string option \<Rightarrow> string \<Rightarrow> jsval" where
  "save_host cfg uuid host mac updated_at =
     (let hosts = JObj (spread (field cfg ''hosts'')) in
      with_field cfg ''hosts'' (with_field hosts uuid (host_entry hosts uuid host mac updated_at)))"

text \<open>The end of \<open>tryResolveHost\<close>: a host and an address, or nothing (not found, or an exception).\<close>

definition resolve_finish :: "string \<Rightarrow> (string \<times> string option) option \<Rightarrow> int \<Rightarrow> poller \<Rightarrow> poller" where
  "resolve_finish uuid outcome now s =
     (let s1 = (case outcome of
           None \<Rightarrow> s
         | Some (host, mac) \<Rightarrow>
             update_meta uuid (\<lambda>m. m\<lparr>boost_until_at := Some (now + boost_window_ms), next_due_at := now\<rparr>)
               (s\<lparr>p_hosts := map_set uuid \<lparr>kh_host = host, kh_mac = (if mac = Some [] then None else mac)\<rparr> (p_hosts s)\<rparr>))
      in s1\<lparr>p_resolving := filter (\<lambda>u. u \<noteq> uuid) (p_resolving s1)\<rparr>)"

section \<open>The end of a poll\<close>

text \<open>The success branch of the task. The random number is drawn by \<open>nextIntervalMs\<close>.\<close>

definition poll_success :: "device_state \<Rightarrow> int \<Rightarrow> rat \<Rightarrow> poller \<Rightarrow> poller \<times> poll_result" where
  "poll_success next now rnd s =
     (let uuid = ds_uuid next;
          prev = map_get (p_states s) uuid;
          changed = has_material_state_change prev next;
          s1 = (if changed
                then broadcast_event (EvState next)
                       ((update_meta uuid (\<lambda>m. m\<lparr>last_change_at := Some now\<rparr>) s)
                          \<lparr>p_states := map_set uuid next (p_states s)\<rparr>)
                else case prev of
                    None \<Rightarrow> s\<lparr>p_states := map_set uuid next (p_states s)\<rparr>
                  | Some p \<Rightarrow> s\<lparr>p_states := map_set uuid (p\<lparr>ds_source := ds_source next\<rparr>) (p_states s)\<rparr>);
          s2 = update_meta uuid (\<lambda>m. m\<lparr>failure_count := 0, last_success_at := Some now\<rparr>) s1;
          s3 = update_meta uuid (\<lambda>m. m\<lparr>next_due_at := now + next_interval_ms m now rnd\<rparr>) s2
      in (s3, PrState (or_else (map_get (p_states s3) uuid) next)))"

text \<open>The \<open>catch\<close> branch; \<open>t\<close> is the time it runs at.\<close>

definition poll_failure ::
  "string \<Rightarrow> poll_reason \<Rightarrow> string \<Rightarrow> int \<Rightarrow> int \<Rightarrow> rat \<Rightarrow> poller \<Rightarrow> poller \<times> poll_result" where
  "poll_failure uuid reason message now t rnd s =
     (let s1 = update_meta uuid (\<lambda>m. m\<lparr>failure_count := failure_count m + 1\<rparr>) s;
          s2 = update_meta uuid (\<lambda>m. m\<lparr>next_due_at := now + next_interval_ms m now rnd\<rparr>) s1;
          prev = map_get (p_states s2) uuid;
          stale_next = stale_state uuid reason message t s2;
          became_stale = (case prev of None \<Rightarrow> True | Some p \<Rightarrow> \<not> ds_stale p);
          s3 = (if has_material_state_change prev stale_next
                then broadcast_event (EvState stale_next) (s2\<lparr>p_states := map_set uuid stale_next (p_states s2)\<rparr>)
                else if prev = None then s2\<lparr>p_states := map_set uuid stale_next (p_states s2)\<rparr>
                else s2);
          s4 = (if became_stale then broadcast_event (EvStale stale_next) s3 else s3);
          s5 = (if 3 \<le> failure_count (meta_of s4 uuid) then resolve_start uuid t s4 else s4)
      in (s5, PrError \<lparr>pe_uuid = uuid, pe_code = poll_code_from_error message, pe_message = message, pe_at = t\<rparr>))"

text \<open>The task goes on when the last of its awaits is over, and its promise is resolved.\<close>

definition poll_settle ::
  "(string \<Rightarrow> string \<Rightarrow> int) \<Rightarrow> string \<Rightarrow> (string \<times> jsval) result \<Rightarrow> int \<Rightarrow> rat \<Rightarrow> poller \<Rightarrow> poller" where
  "poll_settle lc uuid outcome t rnd s =
     (case map_get (p_in_flight s) uuid of
        None \<Rightarrow> s
      | Some task \<Rightarrow>
          (let (s1, res) =
             (case and_then outcome (\<lambda>(host, resp). state_of_answer lc uuid (pt_reason task) host resp) of
                Inr st \<Rightarrow> poll_success
                   (st\<lparr>ds_updated_at := next_updated_at t (map_option ds_updated_at (map_get (p_states s) uuid))\<rparr>)
                   (pt_now task) rnd s
              | Inl message \<Rightarrow> poll_failure uuid (pt_reason task) message (pt_now task) t rnd s)
           in s1\<lparr>p_in_flight := map_set uuid (task\<lparr>pt_result := Some res\<rparr>) (p_in_flight s1)\<rparr>))"

text \<open>\<open>finally { this.inFlight.delete(uuid) }\<close>; the workers of \<open>pollNow\<close> that wait for the promise
  have their result.\<close>

definition deliver :: "string \<Rightarrow> poll_result \<Rightarrow> now_call \<Rightarrow> now_call" where
  "deliver uuid res c = c\<lparr>nc_workers := map (\<lambda>w. if w = Awaiting uuid then Got res else w) (nc_workers c)\<rparr>"

definition poll_release :: "string \<Rightarrow> poller \<Rightarrow> poller" where
  "poll_release uuid s =
     (case map_get (p_in_flight s) uuid of
        None \<Rightarrow> s
      | Some task \<Rightarrow>
          (case pt_result task of
             None \<Rightarrow> s
           | Some res \<Rightarrow> s\<lparr>p_in_flight := map_del uuid (p_in_flight s),
                          p_calls := map (deliver uuid res) (p_calls s)\<rparr>))"

section \<open>Telemetry polls\<close>

datatype telemetry_outcome =
    TelSkip
  | TelError string
  | TelAnswer string jsval

definition telemetry_start :: "string \<Rightarrow> string \<Rightarrow> int \<Rightarrow> poller \<Rightarrow> poller" where
  "telemetry_start uuid source now s =
     (if map_has (p_telemetry s) uuid then s
      else let s1 = ensure_meta uuid now s in
        s1\<lparr>p_telemetry := map_set uuid \<lparr>tt_now = now, tt_source = source, tt_done = False\<rparr> (p_telemetry s1)\<rparr>)"

text \<open>The awaits of a telemetry poll. Devices known not to be plugs are skipped.\<close>

definition telemetry_fetch ::
  "jsval \<Rightarrow> jsval \<Rightarrow> string option \<Rightarrow> (lan_request \<Rightarrow> jsval result) \<Rightarrow> string \<Rightarrow> rat option \<Rightarrow> telemetry_outcome" where
  "telemetry_fetch cfg cfg_key env_key lan uuid timeout =
     (let host = path cfg [''hosts'', uuid, ''host'']; ds = path cfg [''devices'', ''list''] in
      if \<not> truthy host then TelError ''No LAN host known for device uuid. Resolve host first.''
      else if \<not> nullish ds \<and> (case ds of JArr _ \<Rightarrow> False | _ \<Rightarrow> True) then TelError ''find is not a function''
      else let device = (case ds of JArr vs \<Rightarrow> find (\<lambda>d. string_or_empty (field d ''uuid'') = uuid) vs | _ \<Rightarrow> None);
               model = to_upper (trim (string_or_empty (field (or_else device JUndef) ''deviceType'')))
           in if model \<noteq> [] \<and> \<not> (starts_with ''MSS'' model \<or> starts_with ''MSP'' model \<or> str_includes ''MSS'' model)
              then TelSkip
              else case and_then (require_lan_key cfg_key env_key) (\<lambda>key.
                     lan (get_electricity (str_of host) (str_of key) (Some 0) (Some (or_else timeout default_poll_timeout_ms)))) of
                  Inl e \<Rightarrow> TelError e
                | Inr resp \<Rightarrow> TelAnswer (str_of host) resp)"

definition telemetry_schedule :: "int \<Rightarrow> int \<Rightarrow> poll_meta \<Rightarrow> poll_meta" where
  "telemetry_schedule tel_ms now m =
     (let backoff = (if 0 < telemetry_failure_count m then failure_backoff_ms (int (telemetry_failure_count m)) else 0)
      in m\<lparr>telemetry_next_due_at := now + max tel_ms backoff\<rparr>)"

text \<open>The success branch; the sample is recorded unless the insertion throws.\<close>

definition telemetry_success ::
  "int \<Rightarrow> string \<Rightarrow> string \<Rightarrow> electricity_state \<Rightarrow> string \<Rightarrow> int \<Rightarrow> int \<Rightarrow> bool \<Rightarrow> poller \<Rightarrow> poller" where
  "telemetry_success tel_ms uuid host parsed source now t db_ok s =
     (let prev = map_get (p_powers s) uuid;
          next = \<lparr>dp_uuid = uuid, dp_host = host, dp_channel = el_channel parsed,
            dp_voltage_v = el_voltage_v parsed, dp_current_a = el_current_a parsed, dp_power_w = el_power_w parsed,
            dp_voltage_dv = el_voltage_dv parsed, dp_current_ma = el_current_ma parsed, dp_power_mw = el_power_mw parsed,
            dp_updated_at = next_updated_at t (map_option dp_updated_at prev),
            dp_source = source, dp_stale = False, dp_error = None\<rparr>;
          row = \<lparr>sm_uuid = uuid, sm_channel = dp_channel next, sm_at_ms = t, sm_voltage_v = dp_voltage_v next,
            sm_current_a = dp_current_a next, sm_power_w = dp_power_w next, sm_raw_voltage_dv = dp_voltage_dv next,
            sm_raw_current_ma = dp_current_ma next, sm_raw_power_mw = dp_power_mw next, sm_source = source\<rparr>;
          s1 = (if db_ok then s\<lparr>p_db := insert_telemetry_sample row (p_db s)\<rparr> else s);
          changed = (case prev of None \<Rightarrow> True
            | Some p \<Rightarrow> dp_stale p \<noteq> dp_stale next \<or> dp_power_w p \<noteq> dp_power_w next \<or>
                dp_voltage_v p \<noteq> dp_voltage_v next \<or> dp_current_a p \<noteq> dp_current_a next);
          s2 = s1\<lparr>p_powers := map_set uuid next (p_powers s1)\<rparr>;
          s3 = (if changed then broadcast_event (EvPower next) s2 else s2)
      in update_meta uuid (\<lambda>m. telemetry_schedule tel_ms now
            (m\<lparr>telemetry_failure_count := 0, telemetry_last_success_at := Some now\<rparr>)) s3)"

definition telemetry_failure ::
  "int \<Rightarrow> string \<Rightarrow> string \<Rightarrow> string \<Rightarrow> int \<Rightarrow> int \<Rightarrow> poller \<Rightarrow> poller" where
  "telemetry_failure tel_ms uuid message source now t s =
     (let s1 = update_meta uuid (\<lambda>m. telemetry_schedule tel_ms now
                 (m\<lparr>telemetry_failure_count := telemetry_failure_count m + 1\<rparr>)) s;
          prev = map_get (p_powers s1) uuid;
          stale_next = \<lparr>dp_uuid = uuid,
            dp_host = (case prev of Some p \<Rightarrow> dp_host p | None \<Rightarrow>
               (case map_get (p_hosts s1) uuid of Some h \<Rightarrow> kh_host h | None \<Rightarrow> [])),
            dp_channel = (case prev of Some p \<Rightarrow> dp_channel p | None \<Rightarrow> 0),
            dp_voltage_v = (case prev of None \<Rightarrow> None | Some p \<Rightarrow> dp_voltage_v p),
            dp_current_a = (case prev of None \<Rightarrow> None | Some p \<Rightarrow> dp_current_a p),
            dp_power_w = (case prev of None \<Rightarrow> None | Some p \<Rightarrow> dp_power_w p),
            dp_voltage_dv = (case prev of None \<Rightarrow> None | Some p \<Rightarrow> dp_voltage_dv p),
            dp_current_ma = (case prev of None \<Rightarrow> None | Some p \<Rightarrow> dp_current_ma p),
            dp_power_mw = (case prev of None \<Rightarrow> None | Some p \<Rightarrow> dp_power_mw p),
            dp_updated_at = next_updated_at t (map_option dp_updated_at prev),
            dp_source = source, dp_stale = True, dp_error = Some message\<rparr>;
          became_stale = (case prev of None \<Rightarrow> True | Some p \<Rightarrow> \<not> dp_stale p);
          changed = (case prev of None \<Rightarrow> True
            | Some p \<Rightarrow> dp_stale p \<noteq> dp_stale stale_next \<or> dp_error p \<noteq> dp_error stale_next \<or>
                dp_power_w p \<noteq> dp_power_w stale_next);
          s2 = s1\<lparr>p_powers := map_set uuid stale_next (p_powers s1)\<rparr>;
          s3 = (if changed then broadcast_event (EvPower stale_next) s2 else s2)
      in if became_stale then broadcast_event (EvPowerStale stale_next) s3 else s3)"

definition telemetry_settle ::
  "int \<Rightarrow> string \<Rightarrow> telemetry_outcome \<Rightarrow> int \<Rightarrow> bool \<Rightarrow> poller \<Rightarrow> poller" where
  "telemetry_settle tel_ms uuid outcome t db_ok s =
     (case map_get (p_telemetry s) uuid of
        None \<Rightarrow> s
      | Some task \<Rightarrow>
          (let s1 = (case outcome of
               TelSkip \<Rightarrow> update_meta uuid (\<lambda>m. m\<lparr>telemetry_next_due_at := tt_now task + max 60000 tel_ms\<rparr>) s
             | TelError e \<Rightarrow> telemetry_failure tel_ms uuid e (tt_source task) (tt_now task) t s
             | TelAnswer host resp \<Rightarrow>
                 (case extract_lan_electricity resp of
                    None \<Rightarrow> telemetry_failure tel_ms uuid
                      ''Electricity data unavailable (namespace unsupported or empty payload).''
                      (tt_source task) (tt_now task) t s
                  | Some parsed \<Rightarrow>
                      telemetry_success tel_ms uuid host parsed (tt_source task) (tt_now task) t db_ok s))
           in s1\<lparr>p_telemetry := map_set uuid (task\<lparr>tt_done := True\<rparr>) (p_telemetry s1)\<rparr>))"

definition telemetry_release :: "string \<Rightarrow> poller \<Rightarrow> poller" where
  "telemetry_release uuid s =
     (case map_get (p_telemetry s) uuid of
        None \<Rightarrow> s
      | Some task \<Rightarrow> if tt_done task then s\<lparr>p_telemetry := map_del uuid (p_telemetry s)\<rparr> else s)"

section \<open>The tick\<close>

text \<open>\<open>syncKnownHosts\<close> after its await.\<close>

definition sync_known_hosts :: "jsval \<Rightarrow> int \<Rightarrow> poller \<Rightarrow> poller" where
  "sync_known_hosts cfg now s =
     fold (\<lambda>(uuid, v) s.
         if \<not> truthy (field v ''host'') then s
         else ensure_meta uuid now (s\<lparr>p_hosts := map_set uuid
                \<lparr>kh_host = str_of (field v ''host''), kh_mac = truthy_str (field v ''mac'')\<rparr> (p_hosts s)\<rparr>))
       (spread (field cfg ''hosts''))
       (s\<lparr>p_last_sync := now, p_hosts := []\<rparr>)"

definition tick_begin :: "int \<Rightarrow> poller \<Rightarrow> poller" where
  "tick_begin now s =
     (if p_tick s \<noteq> TickIdle then s
      else s\<lparr>p_tick := (if sync_hosts_every_ms < now - p_last_sync s then TickSyncing now else TickReady now)\<rparr>)"

definition tick_synced :: "poller \<Rightarrow> poller" where
  "tick_synced s = (case p_tick s of TickSyncing started \<Rightarrow> s\<lparr>p_tick := TickReady started\<rparr> | _ \<Rightarrow> s)"

definition due_cmp :: "(poll_meta \<Rightarrow> int) \<Rightarrow> poller \<Rightarrow> string \<Rightarrow> string \<Rightarrow> int" where
  "due_cmp due s a b = (let due_at = (\<lambda>u. case map_get (p_metas s) u of None \<Rightarrow> 0 | Some m \<Rightarrow> due m) in due_at a - due_at b)"

definition due_polls :: "int \<Rightarrow> poller \<Rightarrow> string list" where
  "due_polls now s = map fst (filter (\<lambda>(uuid, m). map_has (p_hosts s) uuid \<and> \<not> map_has (p_in_flight s) uuid \<and>
     next_due_at m \<le> now) (p_metas s))"

definition due_telemetry :: "int \<Rightarrow> poller \<Rightarrow> string list" where
  "due_telemetry now s = map fst (filter (\<lambda>(uuid, m). map_has (p_hosts s) uuid \<and> \<not> map_has (p_in_flight s) uuid \<and>
     \<not> map_has (p_telemetry s) uuid \<and> telemetry_next_due_at m \<le> now) (p_metas s))"

text \<open>\<open>while (due.length && this.inFlight.size < POLL_MAX_CONCURRENCY)\<close>; an empty uuid ends it.\<close>

fun start_polls :: "int \<Rightarrow> string list \<Rightarrow> poller \<Rightarrow> poller" where
  "start_polls now [] s = s"
| "start_polls now (uuid # due) s =
     (if length (p_in_flight s) < poll_max_concurrency
      then (if uuid = [] then s else start_polls now due (poll_start uuid RPoller None now s))
      else s)"

fun start_telemetry :: "int \<Rightarrow> string list \<Rightarrow> poller \<Rightarrow> poller" where
  "start_telemetry now [] s = s"
| "start_telemetry now (uuid # due) s =
     (if length (p_telemetry s) < telemetry_max_concurrency
      then (if uuid = [] then s else start_telemetry now due (telemetry_start uuid ''telemetry_poller'' now s))
      else s)"

definition push_cycle :: "int \<Rightarrow> int list \<Rightarrow> int list" where
  "push_cycle d cs = (let cs1 = cs @ [d] in if 200 < length cs1 then tl cs1 else cs1)"

text \<open>The rest of the tick with its \<open>finally\<close> block.\<close>

definition tick_body :: "int \<Rightarrow> poller \<Rightarrow> poller" where
  "tick_body now s =
     (case p_tick s of
        TickReady started \<Rightarrow>
          (let due = js_sort (due_cmp next_due_at s) (due_polls now s);
               tel = due_telemetry now s;
               s1 = start_polls now due (s\<lparr>p_queue_depth := length due\<rparr>);
               s2 = start_telemetry now (js_sort (due_cmp telemetry_next_due_at s1) tel) s1;
               s3 = s2\<lparr>p_last_cycle_at := Some now, p_cycles := push_cycle (now - started) (p_cycles s2)\<rparr>;
               s4 = (if health_broadcast_every_ms < now - p_last_health s3
                     then let s' = s3\<lparr>p_last_health := now\<rparr> in broadcast_event (EvHealth (get_status s')) s'
                     else s3)
           in s4\<lparr>p_tick := TickIdle\<rparr>)
      | _ \<Rightarrow> s)"

section \<open>Polls on request\<close>

definition now_begin :: "string list \<Rightarrow> poll_reason \<Rightarrow> jsnum option \<Rightarrow> poller \<Rightarrow> poller" where
  "now_begin uuids reason timeout s =
     s\<lparr>p_calls := p_calls s @ [\<lparr>nc_given = uuids, nc_uuids = [], nc_reason = reason,
        nc_timeout = (case timeout of None \<Rightarrow> None | Some n \<Rightarrow> map_option (max 500) (finite_num n)),
        nc_running = False, nc_pending = [], nc_workers = [], nc_states = [], nc_errors = []\<rparr>]\<rparr>"

text \<open>\<open>uuids.shift()\<close> and the poll of what it returns; an empty list or uuid ends the worker.\<close>

definition now_take :: "nat \<Rightarrow> nat \<Rightarrow> int \<Rightarrow> poller \<Rightarrow> poller" where
  "now_take i w now s =
     (let c = p_calls s ! i in
      case nc_pending c of
        [] \<Rightarrow> s\<lparr>p_calls := (p_calls s)[i := c\<lparr>nc_workers := (nc_workers c)[w := Returned]\<rparr>]\<rparr>
      | uuid # rest \<Rightarrow>
          if uuid = [] then
            s\<lparr>p_calls := (p_calls s)[i := c\<lparr>nc_pending := rest, nc_workers := (nc_workers c)[w := Returned]\<rparr>]\<rparr>
          else
            poll_start uuid (nc_reason c) (nc_timeout c) now
              (s\<lparr>p_calls := (p_calls s)[i := c\<lparr>nc_pending := rest, nc_workers := (nc_workers c)[w := Awaiting uuid]\<rparr>]\<rparr>))"

definition now_uuids :: "string list \<Rightarrow> poller \<Rightarrow> string list" where
  "now_uuids given s =
     (if given \<noteq> [] then rev (remdups (rev (map trim (filter (\<lambda>u. trim u \<noteq> []) given))))
      else map_keys (p_hosts s))"

text \<open>After its synchronisation \<open>pollNow\<close> boosts the devices and starts its workers.\<close>

definition now_launch :: "nat \<Rightarrow> int \<Rightarrow> poller \<Rightarrow> poller" where
  "now_launch i now s =
     (let c = p_calls s ! i;
          uuids = now_uuids (nc_given c) s;
          n = max 1 (min poll_max_concurrency (if uuids = [] then 1 else length uuids));
          s1 = fold (\<lambda>u. boost_device u now) uuids s;
          s2 = s1\<lparr>p_calls := (p_calls s1)[i := c\<lparr>nc_running := True, nc_uuids := uuids, nc_pending := uuids, nc_workers := replicate n Returned\<rparr>]\<rparr>
      in fold (\<lambda>w. now_take i w now) [0..<n] s2)"

text \<open>A worker whose poll is over notes the result and goes on.\<close>

definition now_resume :: "nat \<Rightarrow> nat \<Rightarrow> int \<Rightarrow> poller \<Rightarrow> poller" where
  "now_resume i w now s =
     (let c = p_calls s ! i in
      case nc_workers c ! w of
        Got (PrState st) \<Rightarrow>
          now_take i w now (s\<lparr>p_calls := (p_calls s)[i := c\<lparr>nc_states := nc_states c @ [st]\<rparr>]\<rparr>)
      | Got (PrError e) \<Rightarrow>
          now_take i w now (s\<lparr>p_calls := (p_calls s)[i := c\<lparr>nc_errors := nc_errors c @ [e]\<rparr>]\<rparr>)
      | _ \<Rightarrow> s)"

end
