(* ===== verification/PollerRuns.thy ===== *)
theory PollerRuns
  imports Poller
begin

text \<open>
  The runs of the poller: a step is one uninterrupted stretch of its code, a run any sequence of
  steps, with any configuration read, any answer of a device, any clock and any random draw. The
  lemmas describe what each operation does to the published states, the subscribers and the polls in
  flight; the theorems are invariants of every reachable state.
\<close>

section \<open>Steps\<close>

inductive poller_step :: "(string \<Rightarrow> string \<Rightarrow> int) \<Rightarrow> int \<Rightarrow> poller \<Rightarrow> poller \<Rightarrow> bool" for lc tel_ms where
  boost: "poller_step lc tel_ms s (boost_device uuid now s)"
| stream: "poller_step lc tel_ms s (create_stream lc s)"
| cancel: "poller_step lc tel_ms s (cancel_stream sid s)"
| closed: "poller_step lc tel_ms s (close_stream sid s)"
| beat: "poller_step lc tel_ms s (heartbeat sid now s)"
| settle: "map_get (p_in_flight s) uuid = Some task \<Longrightarrow> pt_result task = None \<Longrightarrow>
    poller_step lc tel_ms s (poll_settle lc uuid outcome t rnd s)"
| release: "poller_step lc tel_ms s (poll_release uuid s)"
| tel_settle: "map_get (p_telemetry s) uuid = Some tt \<Longrightarrow> \<not> tt_done tt \<Longrightarrow>
    poller_step lc tel_ms s (telemetry_settle tel_ms uuid tel_outcome t db_ok s)"
| tel_release: "poller_step lc tel_ms s (telemetry_release uuid s)"
| tick: "poller_step lc tel_ms s (tick_begin now s)"
| tick_sync: "p_tick s = TickSyncing started \<Longrightarrow>
    poller_step lc tel_ms s (tick_synced (sync_known_hosts cfg now s))"
| tick_go: "poller_step lc tel_ms s (tick_body now s)"
| now_begin: "poller_step lc tel_ms s (now_begin uuids reason timeout s)"
| now_sync: "poller_step lc tel_ms s (sync_known_hosts cfg now s)"
| now_launch: "i < length (p_calls s) \<Longrightarrow> \<not> nc_running (p_calls s ! i) \<Longrightarrow>
    poller_step lc tel_ms s (now_launch i now s)"
| now_resume: "i < length (p_calls s) \<Longrightarrow> w < length (nc_workers (p_calls s ! i)) \<Longrightarrow>
    nc_workers (p_calls s ! i) ! w = Got res \<Longrightarrow> poller_step lc tel_ms s (now_resume i w now s)"
| resolved: "uuid \<in> set (p_resolving s) \<Longrightarrow> poller_step lc tel_ms s (resolve_finish uuid found now s)"

inductive poller_reach :: "(string \<Rightarrow> string \<Rightarrow> int) \<Rightarrow> int \<Rightarrow> poller \<Rightarrow> bool" for lc tel_ms where
  init: "poller_reach lc tel_ms poller_init"
| step: "poller_reach lc tel_ms s \<Longrightarrow> poller_step lc tel_ms s s' \<Longrightarrow> poller_reach lc tel_ms s'"

inductive_cases poller_stepE: "poller_step lc tel_ms s s'"

section \<open>Metas, boosts and starts leave the rest alone\<close>

lemmas frame_defs = ensure_meta_def update_meta_def boost_device_def poll_start_def telemetry_start_def
  resolve_start_def Let_def

named_theorems frames \<open>what an operation leaves as it was\<close>

lemma ensure_meta_frame [frames, simp]:
  "p_states (ensure_meta u now s) = p_states s" "p_subs (ensure_meta u now s) = p_subs s"
  "p_in_flight (ensure_meta u now s) = p_in_flight s" "p_calls (ensure_meta u now s) = p_calls s"
  "p_hosts (ensure_meta u now s) = p_hosts s" "p_resolving (ensure_meta u now s) = p_resolving s"
  "p_telemetry (ensure_meta u now s) = p_telemetry s" "p_powers (ensure_meta u now s) = p_powers s"
  "p_next_sub (ensure_meta u now s) = p_next_sub s" "p_tick (ensure_meta u now s) = p_tick s"
  by (simp_all add: frame_defs)

lemma update_meta_frame [frames, simp]:
  "p_states (update_meta u f s) = p_states s" "p_subs (update_meta u f s) = p_subs s"
  "p_in_flight (update_meta u f s) = p_in_flight s" "p_calls (update_meta u f s) = p_calls s"
  "p_hosts (update_meta u f s) = p_hosts s" "p_resolving (update_meta u f s) = p_resolving s"
  "p_telemetry (update_meta u f s) = p_telemetry s" "p_powers (update_meta u f s) = p_powers s"
  "p_next_sub (update_meta u f s) = p_next_sub s" "p_tick (update_meta u f s) = p_tick s"
  by (simp_all add: frame_defs)

lemma boost_frame [frames, simp]:
  "p_states (boost_device u now s) = p_states s" "p_subs (boost_device u now s) = p_subs s"
  "p_in_flight (boost_device u now s) = p_in_flight s" "p_calls (boost_device u now s) = p_calls s"
  "p_hosts (boost_device u now s) = p_hosts s" "p_resolving (boost_device u now s) = p_resolving s"
  "p_telemetry (boost_device u now s) = p_telemetry s" "p_powers (boost_device u now s) = p_powers s"
  "p_next_sub (boost_device u now s) = p_next_sub s"
  by (simp_all add: boost_device_def)

lemma poll_start_frame [frames, simp]:
  "p_states (poll_start u r to now s) = p_states s" "p_subs (poll_start u r to now s) = p_subs s"
  "p_calls (poll_start u r to now s) = p_calls s" "p_hosts (poll_start u r to now s) = p_hosts s"
  "p_resolving (poll_start u r to now s) = p_resolving s" "p_telemetry (poll_start u r to now s) = p_telemetry s"
  "p_powers (poll_start u r to now s) = p_powers s" "p_next_sub (poll_start u r to now s) = p_next_sub s"
  by (simp_all add: poll_start_def Let_def)

lemma telemetry_start_frame [frames, simp]:
  "p_states (telemetry_start u r now s) = p_states s" "p_subs (telemetry_start u r now s) = p_subs s"
  "p_calls (telemetry_start u r now s) = p_calls s" "p_hosts (telemetry_start u r now s) = p_hosts s"
  "p_in_flight (telemetry_start u r now s) = p_in_flight s" "p_resolving (telemetry_start u r now s) = p_resolving s"
  "p_powers (telemetry_start u r now s) = p_powers s" "p_next_sub (telemetry_start u r now s) = p_next_sub s"
  by (simp_all add: telemetry_start_def Let_def)

lemma resolve_start_frame [frames, simp]:
  "p_states (resolve_start u now s) = p_states s" "p_subs (resolve_start u now s) = p_subs s"
  "p_in_flight (resolve_start u now s) = p_in_flight s" "p_calls (resolve_start u now s) = p_calls s"
  "p_telemetry (resolve_start u now s) = p_telemetry s" "p_powers (resolve_start u now s) = p_powers s"
  "p_next_sub (resolve_start u now s) = p_next_sub s"
  by (simp_all add: resolve_start_def Let_def)

lemma start_polls_frame [frames, simp]:
  "p_states (start_polls now us s) = p_states s" "p_subs (start_polls now us s) = p_subs s"
  "p_calls (start_polls now us s) = p_calls s" "p_hosts (start_polls now us s) = p_hosts s"
  "p_resolving (start_polls now us s) = p_resolving s" "p_telemetry (start_polls now us s) = p_telemetry s"
  "p_powers (start_polls now us s) = p_powers s" "p_next_sub (start_polls now us s) = p_next_sub s"
  by (induction us arbitrary: s) simp_all

lemma start_telemetry_frame [frames, simp]:
  "p_states (start_telemetry now us s) = p_states s" "p_subs (start_telemetry now us s) = p_subs s"
  "p_calls (start_telemetry now us s) = p_calls s" "p_hosts (start_telemetry now us s) = p_hosts s"
  "p_in_flight (start_telemetry now us s) = p_in_flight s" "p_resolving (start_telemetry now us s) = p_resolving s"
  "p_powers (start_telemetry now us s) = p_powers s" "p_next_sub (start_telemetry now us s) = p_next_sub s"
  by (induction us arbitrary: s) simp_all

lemma boosts_frame [frames, simp]:
  "p_states (fold (\<lambda>u. boost_device u now) us s) = p_states s" "p_subs (fold (\<lambda>u. boost_device u now) us s) = p_subs s"
  "p_in_flight (fold (\<lambda>u. boost_device u now) us s) = p_in_flight s"
  "p_calls (fold (\<lambda>u. boost_device u now) us s) = p_calls s"
  "p_powers (fold (\<lambda>u. boost_device u now) us s) = p_powers s"
  "p_next_sub (fold (\<lambda>u. boost_device u now) us s) = p_next_sub s"
  by (induction us arbitrary: s) simp_all

lemma now_take_frame [frames, simp]:
  "p_states (now_take i w now s) = p_states s" "p_subs (now_take i w now s) = p_subs s"
  "p_powers (now_take i w now s) = p_powers s" "p_next_sub (now_take i w now s) = p_next_sub s"
  by (simp_all add: now_take_def Let_def split: list.splits)

lemma now_takes_frame [frames, simp]:
  "p_states (fold (\<lambda>w. now_take i w now) ws s) = p_states s" "p_subs (fold (\<lambda>w. now_take i w now) ws s) = p_subs s"
  "p_powers (fold (\<lambda>w. now_take i w now) ws s) = p_powers s"
  "p_next_sub (fold (\<lambda>w. now_take i w now) ws s) = p_next_sub s"
  by (induction ws arbitrary: s) simp_all

lemma sync_frame [frames, simp]:
  "p_states (sync_known_hosts cfg now s) = p_states s" "p_subs (sync_known_hosts cfg now s) = p_subs s"
  "p_in_flight (sync_known_hosts cfg now s) = p_in_flight s" "p_calls (sync_known_hosts cfg now s) = p_calls s"
  "p_powers (sync_known_hosts cfg now s) = p_powers s" "p_next_sub (sync_known_hosts cfg now s) = p_next_sub s"
  "p_resolving (sync_known_hosts cfg now s) = p_resolving s"
proof -
  define f where "f = (\<lambda>(uuid, v) s.
         if \<not> truthy (field v ''host'') then s
         else ensure_meta uuid now (s\<lparr>p_hosts := map_set uuid
                \<lparr>kh_host = str_of (field v ''host''), kh_mac = truthy_str (field v ''mac'')\<rparr> (p_hosts s)\<rparr>))"
  have one: "p_states (f p s) = p_states s \<and> p_subs (f p s) = p_subs s \<and> p_in_flight (f p s) = p_in_flight s \<and>
      p_calls (f p s) = p_calls s \<and> p_powers (f p s) = p_powers s \<and> p_next_sub (f p s) = p_next_sub s \<and>
      p_resolving (f p s) = p_resolving s" for p s
    by (cases p) (simp add: f_def)
  have "p_states (fold f ps s) = p_states s \<and> p_subs (fold f ps s) = p_subs s \<and> p_in_flight (fold f ps s) = p_in_flight s \<and>
      p_calls (fold f ps s) = p_calls s \<and> p_powers (fold f ps s) = p_powers s \<and> p_next_sub (fold f ps s) = p_next_sub s \<and>
      p_resolving (fold f ps s) = p_resolving s" for ps s
    by (induction ps arbitrary: s) (simp_all add: one)
  then show "p_states (sync_known_hosts cfg now s) = p_states s" "p_subs (sync_known_hosts cfg now s) = p_subs s"
    "p_in_flight (sync_known_hosts cfg now s) = p_in_flight s" "p_calls (sync_known_hosts cfg now s) = p_calls s"
    "p_powers (sync_known_hosts cfg now s) = p_powers s" "p_next_sub (sync_known_hosts cfg now s) = p_next_sub s"
    "p_resolving (sync_known_hosts cfg now s) = p_resolving s"
    by (simp_all add: sync_known_hosts_def flip: f_def)
qed

section \<open>Writing to subscribers\<close>

definition push_subs :: "nat \<Rightarrow> event \<Rightarrow> (nat, subscriber) jsmap \<Rightarrow> (nat, subscriber) jsmap" where
  "push_subs sid ev m = (case map_get m sid of
     None \<Rightarrow> m
   | Some sub \<Rightarrow> if sb_open sub then map_set sid (sub\<lparr>sb_events := sb_events sub @ [ev]\<rparr>) m else map_del sid m)"

definition received :: "event \<Rightarrow> subscriber option \<Rightarrow> subscriber option" where
  "received ev x = (case x of None \<Rightarrow> None
     | Some sub \<Rightarrow> if sb_open sub then Some (sub\<lparr>sb_events := sb_events sub @ [ev]\<rparr>) else None)"

lemma push_to_subscriber_subs: "push_to_subscriber sid ev s = s\<lparr>p_subs := push_subs sid ev (p_subs s)\<rparr>"
  by (cases s) (auto simp: push_to_subscriber_def push_subs_def split: option.splits)

lemma push_subs_get: "map_get (push_subs sid ev m) i = (if i = sid then received ev (map_get m i) else map_get m i)"
  by (auto simp: push_subs_def received_def split: option.splits)

lemma push_subs_ok: "map_ok m \<Longrightarrow> map_ok (push_subs sid ev m)"
  by (auto simp: push_subs_def split: option.splits)

lemma broadcast_subs:
  "broadcast_event ev s = s\<lparr>p_subs := fold (\<lambda>sid. push_subs sid ev) (map_keys (p_subs s)) (p_subs s)\<rparr>"
proof -
  have "fold (\<lambda>sid. push_to_subscriber sid ev) ks s = s\<lparr>p_subs := fold (\<lambda>sid. push_subs sid ev) ks (p_subs s)\<rparr>" for ks s
    by (induction ks arbitrary: s) (simp_all add: push_to_subscriber_subs)
  then show ?thesis by (simp add: broadcast_event_def)
qed

lemma broadcast_frame [frames, simp]:
  "p_states (broadcast_event ev s) = p_states s" "p_in_flight (broadcast_event ev s) = p_in_flight s"
  "p_calls (broadcast_event ev s) = p_calls s" "p_hosts (broadcast_event ev s) = p_hosts s"
  "p_metas (broadcast_event ev s) = p_metas s" "p_resolving (broadcast_event ev s) = p_resolving s"
  "p_telemetry (broadcast_event ev s) = p_telemetry s" "p_powers (broadcast_event ev s) = p_powers s"
  "p_next_sub (broadcast_event ev s) = p_next_sub s"
  by (simp_all add: broadcast_subs)

lemma fold_push_get:
  "distinct ks \<Longrightarrow> map_get (fold (\<lambda>sid. push_subs sid ev) ks m) i =
     (if i \<in> set ks then received ev (map_get m i) else map_get m i)"
  by (induction ks arbitrary: m) (auto simp: push_subs_get)

lemma fold_push_ok: "map_ok m \<Longrightarrow> map_ok (fold (\<lambda>sid. push_subs sid ev) ks m)"
  by (induction ks arbitrary: m) (simp_all add: push_subs_ok)

lemma broadcast_get [simp]:
  "map_ok (p_subs s) \<Longrightarrow> map_get (p_subs (broadcast_event ev s)) i = received ev (map_get (p_subs s) i)"
proof -
  assume ok: "map_ok (p_subs s)"
  have key: "i \<in> set (map_keys (p_subs s)) \<longleftrightarrow> map_get (p_subs s) i \<noteq> None" by (simp add: map_of_eq_None_iff)
  have dist: "distinct (map_keys (p_subs s))" using ok by (simp add: map_ok_def)
  have subs: "p_subs (broadcast_event ev s) = fold (\<lambda>sid. push_subs sid ev) (map_keys (p_subs s)) (p_subs s)"
    by (simp add: broadcast_subs)
  have "map_get (p_subs (broadcast_event ev s)) i =
      (if map_get (p_subs s) i \<noteq> None then received ev (map_get (p_subs s) i) else map_get (p_subs s) i)"
    unfolding subs by (simp only: fold_push_get [OF dist] key)
  then show ?thesis by (cases "map_get (p_subs s) i") (simp_all add: received_def)
qed

lemma broadcast_ok [simp]: "map_ok (p_subs s) \<Longrightarrow> map_ok (p_subs (broadcast_event ev s))"
  by (simp add: broadcast_subs fold_push_ok)

section \<open>What a step does to the published states\<close>

text \<open>
  Besides leaving them alone, a step can publish a state: store it and write it to every open
  subscriber, with or without the further notice that the device has become stale.
\<close>

definition published :: "event list \<Rightarrow> device_state \<Rightarrow> poller \<Rightarrow> poller \<Rightarrow> bool" where
  "published evs st s s' \<longleftrightarrow> p_states s' = map_set (ds_uuid st) st (p_states s) \<and>
     (\<forall>i. map_get (p_subs s') i = fold received evs (map_get (p_subs s) i)) \<and> map_ok (p_subs s')"

lemma fold_meta_publish:
  assumes "map_ok (p_subs s)"
  shows "published [EvState st] st s
    (broadcast_event (EvState st) ((update_meta u f s)\<lparr>p_states := map_set (ds_uuid st) st (p_states s)\<rparr>))"
  using assms by (simp add: published_def)

text \<open>The effect of the end of a poll: published, or stored without visible change and not written.\<close>

definition poll_effect :: "string \<Rightarrow> poller \<Rightarrow> poller \<Rightarrow> bool" where
  "poll_effect uuid s s' \<longleftrightarrow>
     (\<exists>st evs. ds_uuid st = uuid \<and> (ds_stale st \<longleftrightarrow> ds_error st \<noteq> None) \<and>
        (case map_get (p_states s) uuid of None \<Rightarrow> True
         | Some p \<Rightarrow> ds_updated_at p < ds_updated_at st \<and> material p \<noteq> material st) \<and>
        evs \<in> {[EvState st], [EvState st, EvStale st]} \<and> published evs st s s') \<or>
     (\<exists>p src. map_get (p_states s) uuid = Some p \<and>
        p_states s' = map_set uuid (p\<lparr>ds_source := src\<rparr>) (p_states s) \<and> p_subs s' = p_subs s)"

lemma next_updated_at_less: "(case prev of None \<Rightarrow> True | Some u \<Rightarrow> u < next_updated_at t prev)"
  by (cases prev) (simp_all add: next_updated_at_def)

lemma poll_success_effect:
  assumes ok: "map_ok (p_subs s)" and up: "ds_updated_at st = next_updated_at t (map_option ds_updated_at (map_get (p_states s) (ds_uuid st)))"
    and fresh: "\<not> ds_stale st" "ds_error st = None"
  shows "poll_effect (ds_uuid st) s (fst (poll_success st now rnd s))"
proof (cases "has_material_state_change (map_get (p_states s) (ds_uuid st)) st")
  case True
  have "published [EvState st] st s (fst (poll_success st now rnd s))"
    using True ok by (simp add: published_def poll_success_def Let_def)
  moreover have "case map_get (p_states s) (ds_uuid st) of None \<Rightarrow> True
      | Some p \<Rightarrow> ds_updated_at p < ds_updated_at st \<and> material p \<noteq> material st"
    using True next_updated_at_less [where prev = "map_option ds_updated_at (map_get (p_states s) (ds_uuid st))" and t = t]
    by (auto simp: up material_change_iff split: option.splits)
  ultimately show ?thesis using fresh unfolding poll_effect_def by blast
next
  case False
  then obtain p where p: "map_get (p_states s) (ds_uuid st) = Some p"
    by (auto simp: material_change_iff split: option.splits)
  with False have "p_states (fst (poll_success st now rnd s)) = map_set (ds_uuid st) (p\<lparr>ds_source := ds_source st\<rparr>) (p_states s)"
    "p_subs (fst (poll_success st now rnd s)) = p_subs s"
    by (simp_all add: poll_success_def Let_def)
  with p show ?thesis unfolding poll_effect_def by blast
qed

lemma map_set_same: "map_ok m \<Longrightarrow> map_get m k = Some v \<Longrightarrow> map_set k v m = m"
  by (induction m) (auto simp: map_ok_def)

lemma poll_failure_effect:
  assumes ok: "map_ok (p_subs s)" "map_ok (p_states s)"
  shows "poll_effect uuid s (fst (poll_failure uuid reason message now t rnd s))"
proof -
  define prev where "prev = map_get (p_states s) uuid"
  define st where "st = stale_state uuid reason message t s"
  have st_eq: "stale_state uuid reason message t s2 = st"
    if "p_states s2 = p_states s" "p_hosts s2 = p_hosts s" for s2
    unfolding st_def stale_state_def that ..
  have uuid: "ds_uuid st = uuid" "ds_stale st" "ds_error st \<noteq> None" by (simp_all add: st_def stale_state_def Let_def)
  show ?thesis
  proof (cases "has_material_state_change prev st")
    case True
    define evs where "evs = (if case prev of None \<Rightarrow> True | Some p \<Rightarrow> \<not> ds_stale p then [EvState st, EvStale st] else [EvState st])"
    have "published evs st s (fst (poll_failure uuid reason message now t rnd s))"
      using True ok unfolding poll_failure_def Let_def
      by (simp add: published_def st_eq evs_def uuid flip: prev_def)
    moreover have "case prev of None \<Rightarrow> True | Some p \<Rightarrow> ds_updated_at p < ds_updated_at st \<and> material p \<noteq> material st"
      using True next_updated_at_less [where prev = "map_option ds_updated_at prev" and t = t]
      by (auto simp: material_change_iff st_def stale_state_def Let_def prev_def split: option.splits)
    ultimately show ?thesis using uuid unfolding poll_effect_def prev_def evs_def
      by (intro disjI1 exI [of _ st] exI [of _ evs]) (auto simp: evs_def prev_def)
  next
    case False
    then obtain p where p: "prev = Some p" "material p = material st" by (auto simp: material_change_iff split: option.splits)
    then have "ds_stale p" using uuid(2) by (simp add: material_eq_iff)
    with False p have same: "p_states (fst (poll_failure uuid reason message now t rnd s)) = p_states s"
      "p_subs (fst (poll_failure uuid reason message now t rnd s)) = p_subs s"
      unfolding poll_failure_def Let_def by (simp_all add: st_eq flip: prev_def)
    have "p_states s = map_set uuid (p\<lparr>ds_source := ds_source p\<rparr>) (p_states s)"
      using p(1) ok(2) by (simp add: map_set_same prev_def)
    with same p(1) show ?thesis unfolding poll_effect_def prev_def by metis
  qed
qed

lemma poll_settle_effect:
  assumes "map_ok (p_subs s)" "map_ok (p_states s)" "map_get (p_in_flight s) uuid = Some task"
  shows "poll_effect uuid s (poll_settle lc uuid outcome t rnd s)"
proof -
  have wrap: "poll_effect uuid s (s1\<lparr>p_in_flight := m\<rparr>)" if "poll_effect uuid s s1" for s1 m
    using that by (simp add: poll_effect_def published_def)
  show ?thesis
  proof (cases "and_then outcome (\<lambda>(host, resp). state_of_answer lc uuid (pt_reason task) host resp)")
    case (Inl message)
    obtain s1 res where r: "poll_failure uuid (pt_reason task) message (pt_now task) t rnd s = (s1, res)"
      by (cases "poll_failure uuid (pt_reason task) message (pt_now task) t rnd s")
    have "poll_effect uuid s s1"
      using poll_failure_effect [OF assms(1,2), of uuid "pt_reason task" message "pt_now task" t rnd] by (simp add: r)
    then show ?thesis using wrap by (simp add: poll_settle_def Inl assms r)
  next
    case (Inr st)
    then obtain host resp where "state_of_answer lc uuid (pt_reason task) host resp = Inr st"
      by (auto simp: and_then_Inr)
    then have st: "ds_uuid st = uuid" "\<not> ds_stale st" "ds_error st = None"
      by (auto simp: state_of_answer_def Let_def split: if_splits option.splits)
    define st2 where "st2 = st\<lparr>ds_updated_at := next_updated_at t (map_option ds_updated_at (map_get (p_states s) uuid))\<rparr>"
    have st2: "ds_uuid st2 = uuid" "\<not> ds_stale st2" "ds_error st2 = None" using st by (simp_all add: st2_def)
    obtain s1 res where r: "poll_success st2 (pt_now task) rnd s = (s1, res)"
      by (cases "poll_success st2 (pt_now task) rnd s")
    have "poll_effect (ds_uuid st2) s (fst (poll_success st2 (pt_now task) rnd s))"
      by (rule poll_success_effect [where t = t]) (use assms st2 in \<open>simp_all add: st2_def st\<close>)
    then have "poll_effect uuid s s1" by (simp only: st2 r fst_conv)
    then show ?thesis using wrap by (simp add: poll_settle_def Inr assms r flip: st2_def)
  qed
qed

section \<open>What a subscriber knows\<close>

text \<open>
  The states a client has that starts from nothing and applies what it was sent: a snapshot brings
  its states, \<open>device_state\<close> and \<open>device_stale\<close> one each. Other events do not matter here.
\<close>

definition learn :: "device_state \<Rightarrow> (string \<rightharpoonup> device_state) \<Rightarrow> (string \<rightharpoonup> device_state)" where
  "learn st m = m(ds_uuid st \<mapsto> st)"

fun apply_event :: "event \<Rightarrow> (string \<rightharpoonup> device_state) \<Rightarrow> (string \<rightharpoonup> device_state)" where
  "apply_event (EvSnapshot sts) m = fold learn sts m"
| "apply_event (EvState st) m = learn st m"
| "apply_event (EvStale st) m = learn st m"
| "apply_event _ m = m"

definition replay :: "event list \<Rightarrow> (string \<rightharpoonup> device_state)" where
  "replay evs = fold apply_event evs Map.empty"

fun quiet :: "event \<Rightarrow> bool" where
  "quiet (EvSnapshot _) = False"
| "quiet (EvState _) = False"
| "quiet (EvStale _) = False"
| "quiet _ = True"

lemma replay_snoc [simp]: "replay (evs @ [ev]) = apply_event ev (replay evs)"
  by (simp add: replay_def)

lemma apply_quiet: "quiet ev \<Longrightarrow> apply_event ev m = m"
  by (cases ev) simp_all

lemma fold_learn_distinct:
  "distinct (map ds_uuid sts) \<Longrightarrow> fold learn sts m u = (case map_of (map (\<lambda>d. (ds_uuid d, d)) sts) u of None \<Rightarrow> m u | Some d \<Rightarrow> Some d)"
proof (induction sts arbitrary: m)
  case (Cons st sts)
  then have "map_of (map (\<lambda>d. (ds_uuid d, d)) sts) (ds_uuid st) = None"
    by (auto simp: map_of_eq_None_iff)
  with Cons show ?case by (auto simp: learn_def split: option.splits)
qed simp

text \<open>All of a state but where it was last polled from, which is the only part a poll without a
  visible change updates silently.\<close>

definition visible :: "device_state \<Rightarrow> device_state" where
  "visible d = d\<lparr>ds_source := RPoller\<rparr>"

definition knows :: "(string \<rightharpoonup> device_state) \<Rightarrow> (string, device_state) jsmap \<Rightarrow> bool" where
  "knows view sts \<longleftrightarrow> (\<forall>u. map_option visible (view u) = map_option visible (map_get sts u))"

definition poller_inv :: "poller \<Rightarrow> bool" where
  "poller_inv s \<longleftrightarrow> map_ok (p_states s) \<and> map_ok (p_subs s) \<and>
     (\<forall>u st. map_get (p_states s) u = Some st \<longrightarrow> ds_uuid st = u \<and> (ds_stale st \<longleftrightarrow> ds_error st \<noteq> None)) \<and>
     (\<forall>i sub. map_get (p_subs s) i = Some sub \<longrightarrow>
        i < p_next_sub s \<and> (sb_open sub \<longrightarrow> knows (replay (sb_events sub)) (p_states s)))"

lemma poller_invI:
  assumes "map_ok (p_states s)" "map_ok (p_subs s)"
    "\<And>u st. map_get (p_states s) u = Some st \<Longrightarrow> ds_uuid st = u \<and> (ds_stale st \<longleftrightarrow> ds_error st \<noteq> None)"
    "\<And>i sub. map_get (p_subs s) i = Some sub \<Longrightarrow>
        i < p_next_sub s \<and> (sb_open sub \<longrightarrow> knows (replay (sb_events sub)) (p_states s))"
  shows "poller_inv s"
  using assms unfolding poller_inv_def by blast

lemma poller_invD:
  assumes "poller_inv s"
  shows "map_ok (p_states s)" "map_ok (p_subs s)"
    "map_get (p_states s) u = Some st \<Longrightarrow> ds_uuid st = u"
    "map_get (p_states s) u = Some st \<Longrightarrow> ds_stale st \<longleftrightarrow> ds_error st \<noteq> None"
    "map_get (p_subs s) i = Some sub \<Longrightarrow> i < p_next_sub s"
    "map_get (p_subs s) i = Some sub \<Longrightarrow> sb_open sub \<Longrightarrow> knows (replay (sb_events sub)) (p_states s)"
  using assms unfolding poller_inv_def by blast+

lemma inv_cong:
  "p_states s' = p_states s \<Longrightarrow> p_subs s' = p_subs s \<Longrightarrow> p_next_sub s' = p_next_sub s \<Longrightarrow>
   poller_inv s' = poller_inv s"
  by (simp add: poller_inv_def)

lemma inv_push_quiet:
  assumes "poller_inv s" "quiet ev"
  shows "poller_inv (push_to_subscriber sid ev s)"
proof (rule poller_invI)
  fix i sub assume "map_get (p_subs (push_to_subscriber sid ev s)) i = Some sub"
  then have "(if i = sid then received ev (map_get (p_subs s) i) else map_get (p_subs s) i) = Some sub"
    by (simp add: push_to_subscriber_subs push_subs_get)
  then obtain sub0 where "map_get (p_subs s) i = Some sub0" "sb_open sub \<longrightarrow> sb_open sub0"
    "replay (sb_events sub) = replay (sb_events sub0)"
    by (auto simp: received_def apply_quiet [OF assms(2)] split: if_splits option.splits)
  then show "i < p_next_sub (push_to_subscriber sid ev s) \<and>
      (sb_open sub \<longrightarrow> knows (replay (sb_events sub)) (p_states (push_to_subscriber sid ev s)))"
    using poller_invD(5,6) [OF assms(1)] by (auto simp: push_to_subscriber_subs)
qed (use poller_invD [OF assms(1)] in \<open>simp_all add: push_to_subscriber_subs push_subs_ok\<close>)

lemma inv_broadcast_quiet:
  assumes "poller_inv s" "quiet ev"
  shows "poller_inv (broadcast_event ev s)"
proof -
  have "poller_inv (fold (\<lambda>sid. push_to_subscriber sid ev) ks s)" for ks
    using assms by (induction ks arbitrary: s) (simp_all add: inv_push_quiet)
  then show ?thesis by (simp add: broadcast_event_def)
qed

lemma inv_heartbeat: "poller_inv s \<Longrightarrow> poller_inv (heartbeat sid now s)"
  by (simp add: heartbeat_def inv_push_quiet)

lemma inv_cancel: "poller_inv s \<Longrightarrow> poller_inv (cancel_stream sid s)"
  unfolding cancel_stream_def poller_inv_def by (auto split: if_splits)

lemma inv_close: "poller_inv s \<Longrightarrow> poller_inv (close_stream sid s)"
  unfolding close_stream_def poller_inv_def by (auto split: if_splits option.splits)

lemma inv_stream:
  assumes inv: "poller_inv s"
  shows "poller_inv (create_stream lc s)"
proof -
  define sid where "sid = p_next_sub s"
  define snap where "snap = js_sort (\<lambda>a b. lc (ds_uuid a) (ds_uuid b)) (map snd (p_states s))"
  define s1 where "s1 = s\<lparr>p_next_sub := sid + 1, p_subs := map_set sid \<lparr>sb_open = True, sb_events = [EvSnapshot snap]\<rparr> (p_subs s)\<rparr>"
  have keyed: "map ds_uuid (map snd (p_states s)) = map_keys (p_states s)"
  proof -
    have "map (ds_uuid \<circ> snd) (p_states s) = map fst (p_states s)"
      using poller_invD(1,3) [OF inv] by (auto simp: map_ok_def)
    then show ?thesis by simp
  qed
  have "mset (map ds_uuid snap) = mset (map_keys (p_states s))"
    unfolding keyed [symmetric] snap_def mset_map by simp
  then have dist: "distinct (map ds_uuid snap)"
    using poller_invD(1) [OF inv] unfolding map_ok_def by (metis mset_eq_imp_distinct_iff)
  have "knows (replay [EvSnapshot snap]) (p_states s)"
  proof -
    have "map_of (map (\<lambda>d. (ds_uuid d, d)) snap) u = map_get (p_states s) u" for u
    proof -
      have "set (map (\<lambda>d. (ds_uuid d, d)) snap) = set (p_states s)"
        using poller_invD(1,3) [OF inv] by (force simp: snap_def map_ok_def)
      moreover have "distinct (map fst (map (\<lambda>d. (ds_uuid d, d)) snap))" using dist by (simp add: comp_def)
      moreover have "distinct (map fst (p_states s))" using poller_invD(1) [OF inv] by (simp add: map_ok_def)
      ultimately show ?thesis using map_of_eqI by (metis (no_types, lifting) list.set_map map_of_eq_Some_iff not_None_eq)
    qed
    then show ?thesis by (simp add: knows_def replay_def fold_learn_distinct [OF dist] split: option.splits)
  qed
  then have "poller_inv s1"
    using poller_invD [OF inv] by (intro poller_invI) (auto simp: s1_def sid_def less_Suc_eq split: if_splits)
  then have "poller_inv (push_to_subscriber sid (EvHealth h) (push_to_subscriber sid (EvPowerSnapshot pw) s1))" for h pw
    by (intro inv_push_quiet) simp_all
  moreover have "push_to_subscriber sid (EvSnapshot snap)
     (s\<lparr>p_next_sub := sid + 1, p_subs := map_set sid \<lparr>sb_open = True, sb_events = []\<rparr> (p_subs s)\<rparr>) = s1"
  proof -
    have "map_set sid x (map_set sid y m) = map_set sid x m" for x y and m :: "(nat, subscriber) jsmap"
      by (induction m) auto
    then show ?thesis by (simp add: s1_def push_to_subscriber_def)
  qed
  ultimately show ?thesis by (simp add: create_stream_def Let_def flip: sid_def snap_def)
qed

lemma fold_received:
  "fold received evs (Some sub) = Some sub' \<Longrightarrow> sb_open sub \<Longrightarrow>
     sb_open sub' \<and> sb_events sub' = sb_events sub @ evs"
  by (induction evs arbitrary: sub) (auto simp: received_def)

lemma fold_received_None [simp]: "fold received evs None = None"
  by (induction evs) (simp_all add: received_def)

lemma fold_received_closed: "fold received evs (Some sub) = Some sub' \<Longrightarrow> evs \<noteq> [] \<Longrightarrow> sb_open sub"
  by (cases evs) (auto simp: received_def split: if_splits)

lemma knows_learn: "knows view sts \<Longrightarrow> knows (learn st view) (map_set (ds_uuid st) st sts)"
  by (simp add: knows_def learn_def)

lemma learn_twice [simp]: "learn st (learn st m) = learn st m"
  by (simp add: learn_def)

lemma inv_published:
  assumes inv: "poller_inv s" and pub: "published evs st s s'"
    and evs: "evs \<in> {[EvState st], [EvState st, EvStale st]}"
    and stale: "ds_stale st \<longleftrightarrow> ds_error st \<noteq> None" and sid: "p_next_sub s' = p_next_sub s"
  shows "poller_inv s'"
proof (rule poller_invI)
  fix i sub' assume got: "map_get (p_subs s') i = Some sub'"
  then obtain sub where sub: "map_get (p_subs s) i = Some sub" "fold received evs (Some sub) = Some sub'"
    using pub unfolding published_def by (metis fold_received_None not_Some_eq)
  then have "sb_open sub" using evs fold_received_closed by blast
  with sub evs have "replay (sb_events sub') = learn st (replay (sb_events sub))"
    using fold_received [OF sub(2)] replay_snoc [of "sb_events sub @ [EvState st]" "EvStale st"] by auto
  then show "i < p_next_sub s' \<and> (sb_open sub' \<longrightarrow> knows (replay (sb_events sub')) (p_states s'))"
    using poller_invD(5,6) [OF inv sub(1)] \<open>sb_open sub\<close> pub sid by (simp add: published_def knows_learn)
next
  fix u x assume "map_get (p_states s') u = Some x"
  then show "ds_uuid x = u \<and> (ds_stale x \<longleftrightarrow> ds_error x \<noteq> None)"
    using pub stale poller_invD(3,4) [OF inv] by (auto simp: published_def split: if_splits)
qed (use poller_invD [OF inv] pub in \<open>simp_all add: published_def\<close>)

lemma inv_poll_effect:
  assumes inv: "poller_inv s" and eff: "poll_effect uuid s s'" and sid: "p_next_sub s' = p_next_sub s"
  shows "poller_inv s'"
  using eff unfolding poll_effect_def
proof (elim disjE exE conjE)
  fix p src assume p: "map_get (p_states s) uuid = Some p"
    and s': "p_states s' = map_set uuid (p\<lparr>ds_source := src\<rparr>) (p_states s)" "p_subs s' = p_subs s"
  have "knows view (p_states s')" if "knows view (p_states s)" for view
    using that p by (simp add: knows_def s' visible_def)
  then show ?thesis
    using poller_invD [OF inv] p sid by (intro poller_invI) (auto simp: s' split: if_splits)
qed (rule inv_published [OF inv _ _ _ sid])

lemma poll_success_next_sub [simp]: "p_next_sub (fst (poll_success st now rnd s)) = p_next_sub s"
  by (simp add: poll_success_def Let_def split: option.splits)

lemma poll_failure_next_sub [simp]: "p_next_sub (fst (poll_failure u r m now t rnd s)) = p_next_sub s"
  by (simp add: poll_failure_def Let_def)

lemma poll_settle_next_sub [simp]: "p_next_sub (poll_settle lc uuid outcome t rnd s) = p_next_sub s"
proof -
  have "p_next_sub s1 = p_next_sub s" if "poll_success st now rnd s = (s1, res)" for st now s1 res
    using poll_success_next_sub [of st now rnd s] that by simp
  moreover have "p_next_sub s1 = p_next_sub s" if "poll_failure u r m now t rnd s = (s1, res)" for u r m now s1 res
    using poll_failure_next_sub [of u r m now t rnd s] that by simp
  ultimately show ?thesis
    unfolding poll_settle_def by (auto simp: Let_def split: option.splits prod.splits sum.splits)
qed

lemma inv_settle: "poller_inv s \<Longrightarrow> poller_inv (poll_settle lc uuid outcome t rnd s)"
  by (cases "map_get (p_in_flight s) uuid")
    (simp add: poll_settle_def, meson inv_poll_effect poll_settle_effect poll_settle_next_sub poller_invD(1,2))

subsection \<open>Telemetry\<close>

lemma telemetry_success_frame [frames, simp]:
  "p_states (telemetry_success ms u h e src now t ok s) = p_states s"
  "p_in_flight (telemetry_success ms u h e src now t ok s) = p_in_flight s"
  "p_calls (telemetry_success ms u h e src now t ok s) = p_calls s"
  "p_hosts (telemetry_success ms u h e src now t ok s) = p_hosts s"
  "p_telemetry (telemetry_success ms u h e src now t ok s) = p_telemetry s"
  by (simp_all add: telemetry_success_def Let_def)

lemma telemetry_failure_frame [frames, simp]:
  "p_states (telemetry_failure ms u m src now t s) = p_states s"
  "p_in_flight (telemetry_failure ms u m src now t s) = p_in_flight s"
  "p_calls (telemetry_failure ms u m src now t s) = p_calls s"
  "p_hosts (telemetry_failure ms u m src now t s) = p_hosts s"
  "p_telemetry (telemetry_failure ms u m src now t s) = p_telemetry s"
  by (simp_all add: telemetry_failure_def Let_def)

lemma telemetry_settle_frame [frames, simp]:
  "p_states (telemetry_settle ms u oc t ok s) = p_states s"
  "p_in_flight (telemetry_settle ms u oc t ok s) = p_in_flight s"
  "p_calls (telemetry_settle ms u oc t ok s) = p_calls s"
  "p_hosts (telemetry_settle ms u oc t ok s) = p_hosts s"
  by (simp_all add: telemetry_settle_def Let_def split: option.splits telemetry_outcome.splits)

lemma inv_update_meta [simp]: "poller_inv (update_meta u f s) = poller_inv s"
  by (rule inv_cong) simp_all

lemma inv_record_updates [simp]:
  "poller_inv (s\<lparr>p_db := d\<rparr>) = poller_inv s" "poller_inv (s\<lparr>p_powers := pw\<rparr>) = poller_inv s"
  "poller_inv (s\<lparr>p_telemetry := tls\<rparr>) = poller_inv s" "poller_inv (s\<lparr>p_tick := tk\<rparr>) = poller_inv s"
  "poller_inv (s\<lparr>p_last_cycle_at := lca, p_cycles := cy\<rparr>) = poller_inv s" "poller_inv (s\<lparr>p_last_health := lh\<rparr>) = poller_inv s"
  by (rule inv_cong; simp)+

lemma inv_telemetry_success: "poller_inv s \<Longrightarrow> poller_inv (telemetry_success ms u h e src now t ok s)"
  by (simp add: telemetry_success_def Let_def inv_broadcast_quiet)

lemma inv_telemetry_failure: "poller_inv s \<Longrightarrow> poller_inv (telemetry_failure ms u m src now t s)"
  by (simp add: telemetry_failure_def Let_def inv_broadcast_quiet)

lemma inv_telemetry_settle: "poller_inv s \<Longrightarrow> poller_inv (telemetry_settle ms u oc t ok s)"
  by (simp add: telemetry_settle_def Let_def inv_telemetry_success inv_telemetry_failure
      split: option.splits telemetry_outcome.splits)

lemma inv_tick_body: "poller_inv s \<Longrightarrow> poller_inv (tick_body now s)"
proof (cases "p_tick s")
  case (TickReady started)
  assume "poller_inv s"
  then have "poller_inv (start_telemetry now tel (start_polls now due (s\<lparr>p_queue_depth := q\<rparr>)))" for tel due q
    by (subst inv_cong [of _ s]) simp_all
  then show ?thesis
    by (simp add: tick_body_def TickReady Let_def inv_broadcast_quiet)
qed (simp_all add: tick_body_def)

section \<open>Every reachable state\<close>

lemma inv_init: "poller_inv poller_init"
  by (simp add: poller_inv_def poller_init_def)

lemma resolve_finish_frame [frames, simp]:
  "p_states (resolve_finish u found now s) = p_states s" "p_subs (resolve_finish u found now s) = p_subs s"
  "p_in_flight (resolve_finish u found now s) = p_in_flight s" "p_calls (resolve_finish u found now s) = p_calls s"
  "p_next_sub (resolve_finish u found now s) = p_next_sub s"
  by (simp_all add: resolve_finish_def Let_def split: option.splits prod.splits)

lemma release_frame [frames, simp]:
  "p_states (poll_release u s) = p_states s" "p_subs (poll_release u s) = p_subs s"
  "p_next_sub (poll_release u s) = p_next_sub s" "p_metas (poll_release u s) = p_metas s"
  by (simp_all add: poll_release_def split: option.splits)

lemma tel_release_frame [frames, simp]:
  "p_states (telemetry_release u s) = p_states s" "p_subs (telemetry_release u s) = p_subs s"
  "p_next_sub (telemetry_release u s) = p_next_sub s" "p_in_flight (telemetry_release u s) = p_in_flight s"
  "p_calls (telemetry_release u s) = p_calls s" "p_metas (telemetry_release u s) = p_metas s"
  by (simp_all add: telemetry_release_def split: option.splits)

lemma tick_begin_frame [frames, simp]:
  "p_states (tick_begin now s) = p_states s" "p_subs (tick_begin now s) = p_subs s"
  "p_next_sub (tick_begin now s) = p_next_sub s" "p_in_flight (tick_begin now s) = p_in_flight s"
  "p_calls (tick_begin now s) = p_calls s" "p_metas (tick_begin now s) = p_metas s"
  by (simp_all add: tick_begin_def)

lemma tick_synced_frame [frames, simp]:
  "p_states (tick_synced s) = p_states s" "p_subs (tick_synced s) = p_subs s"
  "p_next_sub (tick_synced s) = p_next_sub s" "p_in_flight (tick_synced s) = p_in_flight s"
  "p_calls (tick_synced s) = p_calls s" "p_metas (tick_synced s) = p_metas s"
  by (simp_all add: tick_synced_def split: tick_phase.splits)

lemma now_begin_frame [frames, simp]:
  "p_states (now_begin us r t s) = p_states s" "p_subs (now_begin us r t s) = p_subs s"
  "p_next_sub (now_begin us r t s) = p_next_sub s" "p_in_flight (now_begin us r t s) = p_in_flight s"
  "p_metas (now_begin us r t s) = p_metas s"
  by (simp_all add: now_begin_def)

lemma now_launch_frame [frames, simp]:
  "p_states (now_launch i now s) = p_states s" "p_subs (now_launch i now s) = p_subs s"
  "p_next_sub (now_launch i now s) = p_next_sub s"
  by (simp_all add: now_launch_def Let_def)

lemma now_resume_frame [frames, simp]:
  "p_states (now_resume i w now s) = p_states s" "p_subs (now_resume i w now s) = p_subs s"
  "p_next_sub (now_resume i w now s) = p_next_sub s"
  by (simp_all add: now_resume_def Let_def split: now_worker.splits poll_result.splits)

lemma tick_body_states [frames, simp]: "p_states (tick_body now s) = p_states s"
  by (simp add: tick_body_def Let_def split: tick_phase.splits)

lemma create_stream_frame [frames, simp]:
  "p_states (create_stream lc s) = p_states s" "p_in_flight (create_stream lc s) = p_in_flight s"
  "p_calls (create_stream lc s) = p_calls s" "p_metas (create_stream lc s) = p_metas s"
  by (simp_all add: create_stream_def Let_def push_to_subscriber_subs)

lemma subscriber_frame [frames, simp]:
  "p_states (cancel_stream i s) = p_states s" "p_in_flight (cancel_stream i s) = p_in_flight s"
  "p_calls (cancel_stream i s) = p_calls s" "p_metas (cancel_stream i s) = p_metas s"
  "p_states (close_stream i s) = p_states s" "p_in_flight (close_stream i s) = p_in_flight s"
  "p_calls (close_stream i s) = p_calls s" "p_metas (close_stream i s) = p_metas s"
  "p_states (heartbeat i now s) = p_states s" "p_in_flight (heartbeat i now s) = p_in_flight s"
  "p_calls (heartbeat i now s) = p_calls s" "p_metas (heartbeat i now s) = p_metas s"
  by (simp_all add: cancel_stream_def close_stream_def heartbeat_def push_to_subscriber_subs split: option.splits)

lemma step_inv: "poller_step lc tel_ms s s' \<Longrightarrow> poller_inv s \<Longrightarrow> poller_inv s'"
  by (induction rule: poller_step.induct)
    (simp_all add: inv_heartbeat inv_cancel inv_close inv_stream inv_settle inv_telemetry_settle inv_tick_body
      inv_cong [of "boost_device _ _ _"] inv_cong [of "poll_release _ _"] inv_cong [of "telemetry_release _ _"]
      inv_cong [of "tick_begin _ _"] inv_cong [of "tick_synced _"] inv_cong [of "now_begin _ _ _ _"]
      inv_cong [of "sync_known_hosts _ _ _"] inv_cong [of "now_launch _ _ _"] inv_cong [of "now_resume _ _ _ _"]
      inv_cong [of "resolve_finish _ _ _ _"])

lemma reach_inv: "poller_reach lc tel_ms s \<Longrightarrow> poller_inv s"
  by (induction rule: poller_reach.induct) (auto simp: inv_init step_inv)

text \<open>C1. What a stream client is sent is enough: in every reachable state of the service, whatever
  polls, failures, ticks, other clients and requests came before and in whatever order, a client
  that applies the events it was sent since it connected (the snapshot, then every device_state and
  device_stale) has exactly the states the service holds, for every device, but for the note of who
  polled last.\<close>

theorem stream_client_up_to_date:
  assumes "poller_reach lc tel_ms s" "map_get (p_subs s) i = Some sub" "sb_open sub"
  shows "map_option visible (replay (sb_events sub) u) = map_option visible (map_get (p_states s) u)"
  using poller_invD(6) [OF reach_inv [OF assms(1)] assms(2,3)] unfolding knows_def by blast

text \<open>A run: a known host is polled by a tick, a client connects, the poll fails.\<close>

definition sample_run :: poller where
  "sample_run =
     (let s1 = sync_known_hosts (JObj [(''hosts'', JObj [(''u1'', JObj [(''host'', JStr ''10.0.0.2'')])])]) 1000 poller_init;
          s2 = tick_body 1100 (tick_begin 1050 s1);
          s3 = create_stream codeunit_compare s2
      in poll_settle codeunit_compare ''u1'' (Inl ''EIO'') 2000 0 s3)"

lemma sample_run_reach: "poller_reach codeunit_compare 10000 sample_run"
proof -
  define s1 where "s1 = sync_known_hosts (JObj [(''hosts'', JObj [(''u1'', JObj [(''host'', JStr ''10.0.0.2'')])])]) 1000 poller_init"
  define s2 where "s2 = tick_body 1100 (tick_begin 1050 s1)"
  define s3 where "s3 = create_stream codeunit_compare s2"
  have "poller_reach codeunit_compare 10000 s1"
    unfolding s1_def by (rule poller_reach.step [OF poller_reach.init poller_step.now_sync])
  then have "poller_reach codeunit_compare 10000 s3"
    unfolding s2_def s3_def by (meson poller_reach.step poller_step.tick poller_step.tick_go poller_step.stream)
  moreover have "map_get (p_in_flight s3) ''u1'' =
      Some \<lparr>pt_now = 1100, pt_reason = RPoller, pt_timeout = None, pt_result = None\<rparr>"
    unfolding s3_def s2_def s1_def by code_simp
  ultimately show ?thesis
    unfolding sample_run_def Let_def s1_def [symmetric] s2_def [symmetric] s3_def [symmetric]
    by (meson poller_reach.step poller_step.settle poll_task.select_convs(4))
qed

lemma sample_run_values:
  "map_option sb_open (map_get (p_subs sample_run) 1) = Some True"
  "map_option (\<lambda>d. (ds_host d, ds_stale d)) (map_get (p_states sample_run) ''u1'') = Some (''10.0.0.2'', True)"
  by code_simp+

theorem stream_client_up_to_date_witness:
  "\<exists>sub. map_get (p_subs sample_run) 1 = Some sub \<and>
     map_option visible (replay (sb_events sub) ''u1'') = map_option visible (map_get (p_states sample_run) ''u1'') \<and>
     map_get (p_states sample_run) ''u1'' \<noteq> None"
proof -
  obtain sub where sub: "map_get (p_subs sample_run) 1 = Some sub" "sb_open sub"
    using sample_run_values(1) by auto
  have "map_get (p_states sample_run) ''u1'' \<noteq> None" using sample_run_values(2) by auto
  then show ?thesis
    using stream_client_up_to_date [OF sample_run_reach sub, of "''u1''"] sub(1) by blast
qed

text \<open>C2. The time of a device's state orders what clients see: in any step of the service a stored
  state either stays as it is (up to who polled last) or is replaced by one that shows something
  else and has a strictly later time, even when the clock stands still or goes back.\<close>

theorem state_time_increases:
  assumes "poller_reach lc tel_ms s" "poller_step lc tel_ms s s'" "map_get (p_states s) u = Some p"
  shows "\<exists>p'. map_get (p_states s') u = Some p' \<and>
    (visible p' = visible p \<and> ds_updated_at p' = ds_updated_at p \<or>
     material p' \<noteq> material p \<and> ds_updated_at p < ds_updated_at p')"
proof -
  note inv = reach_inv [OF assms(1)]
  have eff: "p_states s' = p_states s \<or> (\<exists>uuid. poll_effect uuid s s')"
    using assms(2)
  proof (cases rule: poller_step.cases)
    case (settle uuid task outcome t rnd)
    then show ?thesis using poll_settle_effect poller_invD(1,2) [OF inv] by blast
  qed simp_all
  show ?thesis using eff
  proof
    assume "\<exists>uuid. poll_effect uuid s s'"
    then obtain uuid where "poll_effect uuid s s'" ..
    then show ?thesis
      using assms(3) unfolding poll_effect_def published_def
      by (cases "u = uuid") (auto simp: visible_def)
  qed (use assms(3) in simp)
qed

theorem state_time_increases_witness:
  "\<exists>p'. map_get (p_states (poll_release ''u1'' sample_run)) ''u1'' = Some p' \<and> ds_host p' = ''10.0.0.2''"
proof -
  obtain p where p: "map_get (p_states sample_run) ''u1'' = Some p" "ds_host p = ''10.0.0.2''"
    using sample_run_values(2) by auto
  have v: "visible a = visible b \<Longrightarrow> ds_host a = ds_host b" for a b
    by (cases a; cases b) (simp add: visible_def)
  have m: "p' = p" if "map_get (p_states (poll_release ''u1'' sample_run)) ''u1'' = Some p'" for p'
    using that p by simp
  show ?thesis
    using state_time_increases [OF sample_run_reach poller_step.release p(1), of "''u1''"] v m p(2) by metis
qed

end
