(* ===== verification/PollerTick.thy ===== *)
theory PollerTick
  imports PollerRuns
begin

text \<open>
  What a tick of the poller starts, and what the failures of a device do to its next poll: the
  bounds on polls in flight, the order of the due devices, back-off and the recovery of a host.
\<close>

section \<open>Metas are keyed\<close>

lemma ensure_meta_ok [simp]: "map_ok (p_metas s) \<Longrightarrow> map_ok (p_metas (ensure_meta u now s))"
  by (simp add: ensure_meta_def)

lemma update_meta_ok [simp]: "map_ok (p_metas s) \<Longrightarrow> map_ok (p_metas (update_meta u f s))"
  by (simp add: update_meta_def)

lemma boost_ok [simp]: "map_ok (p_metas s) \<Longrightarrow> map_ok (p_metas (boost_device u now s))"
  by (simp add: boost_device_def)

lemma poll_start_ok [simp]: "map_ok (p_metas s) \<Longrightarrow> map_ok (p_metas (poll_start u r to now s))"
  by (simp add: poll_start_def Let_def)

lemma telemetry_start_ok [simp]: "map_ok (p_metas s) \<Longrightarrow> map_ok (p_metas (telemetry_start u r now s))"
  by (simp add: telemetry_start_def Let_def)

lemma resolve_start_ok [simp]: "map_ok (p_metas s) \<Longrightarrow> map_ok (p_metas (resolve_start u now s))"
  by (simp add: resolve_start_def Let_def update_meta_def ensure_meta_def)

lemma resolve_finish_ok [simp]: "map_ok (p_metas s) \<Longrightarrow> map_ok (p_metas (resolve_finish u found now s))"
  by (simp add: resolve_finish_def Let_def update_meta_def split: option.splits prod.splits)

lemma start_polls_ok [simp]: "map_ok (p_metas s) \<Longrightarrow> map_ok (p_metas (start_polls now us s))"
  by (induction us arbitrary: s) simp_all

lemma start_telemetry_ok [simp]: "map_ok (p_metas s) \<Longrightarrow> map_ok (p_metas (start_telemetry now us s))"
  by (induction us arbitrary: s) simp_all

lemma fold_boost_ok [simp]: "map_ok (p_metas s) \<Longrightarrow> map_ok (p_metas (fold (\<lambda>u. boost_device u now) us s))"
  by (induction us arbitrary: s) simp_all

lemma now_take_ok [simp]: "map_ok (p_metas s) \<Longrightarrow> map_ok (p_metas (now_take i w now s))"
  by (simp add: now_take_def Let_def split: list.splits)

lemma fold_now_take_ok [simp]: "map_ok (p_metas s) \<Longrightarrow> map_ok (p_metas (fold (\<lambda>w. now_take i w now) ws s))"
  by (induction ws arbitrary: s) simp_all

lemma sync_ok [simp]: "map_ok (p_metas s) \<Longrightarrow> map_ok (p_metas (sync_known_hosts cfg now s))"
proof -
  assume ok: "map_ok (p_metas s)"
  have "map_ok (p_metas (fold (\<lambda>(uuid, v) s.
         if \<not> truthy (field v ''host'') then s
         else ensure_meta uuid now (s\<lparr>p_hosts := map_set uuid
                \<lparr>kh_host = str_of (field v ''host''), kh_mac = truthy_str (field v ''mac'')\<rparr> (p_hosts s)\<rparr>)) ps s))"
    if "map_ok (p_metas s)" for ps s
    using that by (induction ps arbitrary: s) (auto simp: ensure_meta_def)
  then show ?thesis using ok by (simp add: sync_known_hosts_def)
qed

lemma poll_success_ok [simp]: "map_ok (p_metas s) \<Longrightarrow> map_ok (p_metas (fst (poll_success st now rnd s)))"
  by (simp add: poll_success_def Let_def update_meta_def split: option.splits)

lemma poll_failure_ok [simp]: "map_ok (p_metas s) \<Longrightarrow> map_ok (p_metas (fst (poll_failure u r m now t rnd s)))"
  by (simp add: poll_failure_def Let_def)

lemma poll_settle_ok [simp]: "map_ok (p_metas s) \<Longrightarrow> map_ok (p_metas (poll_settle lc u oc t rnd s))"
proof -
  assume ok: "map_ok (p_metas s)"
  have "map_ok (p_metas s1)" if "poll_success st now rnd s = (s1, res)" for st now s1 res
    using poll_success_ok [OF ok, of st now rnd] that by simp
  moreover have "map_ok (p_metas s1)" if "poll_failure u r m now t rnd s = (s1, res)" for u r m now s1 res
    using poll_failure_ok [OF ok, of u r m now t rnd] that by simp
  ultimately show ?thesis
    using ok unfolding poll_settle_def by (auto simp: Let_def split: option.splits prod.splits sum.splits)
qed

lemma telemetry_settle_ok [simp]: "map_ok (p_metas s) \<Longrightarrow> map_ok (p_metas (telemetry_settle ms u oc t ok s))"
  by (simp add: telemetry_settle_def telemetry_success_def telemetry_failure_def Let_def
      split: option.splits telemetry_outcome.splits)

lemma tick_body_ok [simp]: "map_ok (p_metas s) \<Longrightarrow> map_ok (p_metas (tick_body now s))"
  by (simp add: tick_body_def Let_def split: tick_phase.splits)

lemma step_metas_ok: "poller_step lc tel_ms s s' \<Longrightarrow> map_ok (p_metas s) \<Longrightarrow> map_ok (p_metas s')"
  by (induction rule: poller_step.induct)
    (simp_all add: now_launch_def now_resume_def Let_def split: now_worker.splits poll_result.splits)

lemma reach_metas_ok: "poller_reach lc tel_ms s \<Longrightarrow> map_ok (p_metas s)"
  by (induction rule: poller_reach.induct) (simp_all add: poller_init_def step_metas_ok)

section \<open>What a tick starts\<close>

definition due_at :: "(poll_meta \<Rightarrow> int) \<Rightarrow> poller \<Rightarrow> string \<Rightarrow> int" where
  "due_at due s u = (case map_get (p_metas s) u of None \<Rightarrow> 0 | Some m \<Rightarrow> due m)"

interpretation due: keyed_comparator "due_at due s" "due_cmp due s" for due s
  by unfold_locales (simp_all add: due_cmp_def due_at_def)

lemma map_keys_start:
  "map_keys (p_in_flight (poll_start u r to now s)) =
     (if u \<in> set (map_keys (p_in_flight s)) then map_keys (p_in_flight s) else map_keys (p_in_flight s) @ [u])"
  by (simp add: poll_start_def Let_def map_has_iff map_keys_set)

lemma map_keys_tel_start:
  "map_keys (p_telemetry (telemetry_start u r now s)) =
     (if u \<in> set (map_keys (p_telemetry s)) then map_keys (p_telemetry s) else map_keys (p_telemetry s) @ [u])"
  by (simp add: telemetry_start_def Let_def map_has_iff map_keys_set)

lemma length_keys: "length m = length (map_keys m)"
  by simp

lemma start_polls_keys:
  assumes "distinct us" "set us \<inter> set (map_keys (p_in_flight s)) = {}"
  shows "map_keys (p_in_flight (start_polls now us s)) =
     map_keys (p_in_flight s) @ take (6 - length (p_in_flight s)) (takeWhile (\<lambda>u. u \<noteq> []) us)"
  using assms
proof (induction us arbitrary: s)
  case (Cons u us)
  define s1 where "s1 = poll_start u RPoller None now s"
  have k: "map_keys (p_in_flight s1) = map_keys (p_in_flight s) @ [u]"
    using Cons.prems by (simp add: s1_def map_keys_start)
  then have len: "length (p_in_flight s1) = Suc (length (p_in_flight s))" by (metis length_keys length_append_singleton)
  have ih: "map_keys (p_in_flight (start_polls now us s1)) =
     map_keys (p_in_flight s1) @ take (6 - length (p_in_flight s1)) (takeWhile (\<lambda>u. u \<noteq> []) us)"
    using Cons.prems by (intro Cons.IH) (auto simp: k)
  show ?case
    using ih by (auto simp: poll_max_concurrency_def k len Suc_diff_Suc take_Cons' simp flip: s1_def)
qed simp

lemma start_telemetry_keys:
  assumes "distinct us" "set us \<inter> set (map_keys (p_telemetry s)) = {}"
  shows "map_keys (p_telemetry (start_telemetry now us s)) =
     map_keys (p_telemetry s) @ take (4 - length (p_telemetry s)) (takeWhile (\<lambda>u. u \<noteq> []) us)"
  using assms
proof (induction us arbitrary: s)
  case (Cons u us)
  define s1 where "s1 = telemetry_start u ''telemetry_poller'' now s"
  have k: "map_keys (p_telemetry s1) = map_keys (p_telemetry s) @ [u]"
    using Cons.prems by (simp add: s1_def map_keys_tel_start)
  then have len: "length (p_telemetry s1) = Suc (length (p_telemetry s))" by (metis length_keys length_append_singleton)
  have ih: "map_keys (p_telemetry (start_telemetry now us s1)) =
     map_keys (p_telemetry s1) @ take (4 - length (p_telemetry s1)) (takeWhile (\<lambda>u. u \<noteq> []) us)"
    using Cons.prems by (intro Cons.IH) (auto simp: k)
  show ?case
    using ih by (auto simp: telemetry_max_concurrency_def k len Suc_diff_Suc take_Cons' simp flip: s1_def)
qed simp

lemma poll_start_known [simp]: "map_has (p_metas s) u \<Longrightarrow> p_metas (poll_start u r to now s) = p_metas s"
  by (simp add: poll_start_def Let_def ensure_meta_def)

lemma telemetry_start_known [simp]: "map_has (p_metas s) u \<Longrightarrow> p_metas (telemetry_start u r now s) = p_metas s"
  by (simp add: telemetry_start_def Let_def ensure_meta_def)

lemma start_polls_known: "list_all (map_has (p_metas s)) us \<Longrightarrow> p_metas (start_polls now us s) = p_metas s"
  by (induction us arbitrary: s) simp_all

definition due_set :: "(poll_meta \<Rightarrow> int) \<Rightarrow> int \<Rightarrow> poller \<Rightarrow> string set" where
  "due_set due now s = {u. map_has (p_hosts s) u \<and> \<not> map_has (p_in_flight s) u \<and>
     (\<exists>m. map_get (p_metas s) u = Some m \<and> due m \<le> now)}"

lemma map_fst_filter:
  assumes "map_ok ms"
  shows "distinct (map fst (filter (\<lambda>(u, m). P u m) ms))"
    "set (map fst (filter (\<lambda>(u, m). P u m) ms)) = {u. \<exists>m. map_get ms u = Some m \<and> P u m}"
proof -
  have "(u, m) \<in> set ms \<longleftrightarrow> map_get ms u = Some m" for u m
    using assms by (simp add: map_ok_def)
  then show "set (map fst (filter (\<lambda>(u, m). P u m) ms)) = {u. \<exists>m. map_get ms u = Some m \<and> P u m}"
    by force
qed (use assms in \<open>simp add: map_ok_def distinct_map_filter\<close>)

lemma due_polls_facts:
  assumes "map_ok (p_metas s)"
  shows "distinct (due_polls now s)" "set (due_polls now s) = due_set next_due_at now s"
    "distinct (due_telemetry now s)"
    "set (due_telemetry now s) = due_set telemetry_next_due_at now s - set (map_keys (p_telemetry s))"
  unfolding due_polls_def due_telemetry_def map_fst_filter(2) [OF assms]
  by (auto simp: due_set_def map_has_iff intro: map_fst_filter(1) [OF assms])

lemma due_polls_known: "list_all (map_has (p_metas s)) (due_polls now s)"
  by (auto simp: due_polls_def list_all_iff map_has_iff)

lemma starting_keeps_depth:
  "p_queue_depth (start_telemetry now us t) = p_queue_depth t" "p_queue_depth (start_polls now us t) = p_queue_depth t"
  by (induction us arbitrary: t) (simp_all add: telemetry_start_def poll_start_def ensure_meta_def Let_def)

text \<open>C5. A tick starts the polls of the devices that have waited longest: of the known devices that
  are due and not being polled, sorted by the time they were due, exactly as many of the first as
  bring the polls in flight to six (and the telemetry polls to four), never more, and every due
  device when there is room; the queue depth it reports is the number of due devices. An empty
  uuid among the due devices ends the selection.\<close>

theorem tick_starts_longest_due:
  assumes "poller_reach lc tel_ms s" "p_tick s = TickReady started"
  shows "let s' = tick_body now s;
             due = js_sort (due_cmp next_due_at s) (due_polls now s);
             tel = js_sort (due_cmp telemetry_next_due_at s) (due_telemetry now s)
    in set due = due_set next_due_at now s \<and> distinct due \<and> sorted (map (due_at next_due_at s) due) \<and>
       map_keys (p_in_flight s') = map_keys (p_in_flight s) @
         take (6 - length (p_in_flight s)) (takeWhile (\<lambda>u. u \<noteq> []) due) \<and>
       length (p_in_flight s') \<le> max 6 (length (p_in_flight s)) \<and>
       set tel = due_set telemetry_next_due_at now s - set (map_keys (p_telemetry s)) \<and>
       sorted (map (due_at telemetry_next_due_at s) tel) \<and>
       map_keys (p_telemetry s') = map_keys (p_telemetry s) @
         take (4 - length (p_telemetry s)) (takeWhile (\<lambda>u. u \<noteq> []) tel) \<and>
       length (p_telemetry s') \<le> max 4 (length (p_telemetry s)) \<and>
       p_queue_depth s' = length due \<and> p_tick s' = TickIdle"
proof -
  note ok = reach_metas_ok [OF assms(1)]
  define due where "due = js_sort (due_cmp next_due_at s) (due_polls now s)"
  define tel where "tel = js_sort (due_cmp telemetry_next_due_at s) (due_telemetry now s)"
  define s1 where "s1 = start_polls now due (s\<lparr>p_queue_depth := length due\<rparr>)"
  have "list_all (map_has (p_metas s)) due"
    using due_polls_known [of s now] by (simp add: due_def list_all_iff)
  then have metas: "p_metas s1 = p_metas s" unfolding s1_def by (subst start_polls_known) simp_all
  have cmp: "due_cmp telemetry_next_due_at s1 = due_cmp telemetry_next_due_at s"
    unfolding due_cmp_def metas ..
  have due: "set due = due_set next_due_at now s" "distinct due" "set due \<inter> set (map_keys (p_in_flight s)) = {}"
    using due_polls_facts [OF ok, of now] by (auto simp: due_def due_set_def map_has_iff)
  have tl: "set tel = due_set telemetry_next_due_at now s - set (map_keys (p_telemetry s))" "distinct tel"
    using due_polls_facts [OF ok, of now] by (auto simp: tel_def)
  have k1: "map_keys (p_in_flight s1) = map_keys (p_in_flight s) @
      take (6 - length (p_in_flight s)) (takeWhile (\<lambda>u. u \<noteq> []) due)"
    unfolding s1_def using due by (subst start_polls_keys) simp_all
  have k2: "map_keys (p_telemetry (start_telemetry now tel s1)) = map_keys (p_telemetry s) @
      take (4 - length (p_telemetry s)) (takeWhile (\<lambda>u. u \<noteq> []) tel)"
    using tl by (subst start_telemetry_keys) (auto simp: s1_def)
  have body: "p_in_flight (tick_body now s) = p_in_flight s1"
    "p_telemetry (tick_body now s) = p_telemetry (start_telemetry now tel s1)"
    "p_queue_depth (tick_body now s) = length due" "p_tick (tick_body now s) = TickIdle"
    unfolding tick_body_def Let_def assms(2) tick_phase.case due_def [symmetric] s1_def [symmetric] cmp tel_def [symmetric]
    by (simp_all add: broadcast_subs starting_keeps_depth s1_def)
  have len: "length (p_in_flight (tick_body now s)) \<le> max 6 (length (p_in_flight s))"
    "length (p_telemetry (tick_body now s)) \<le> max 4 (length (p_telemetry s))"
    using arg_cong [OF k1, of length] arg_cong [OF k2, of length] by (auto simp: body)
  show ?thesis
    unfolding Let_def due_def [symmetric] tel_def [symmetric]
    using due tl k1 k2 len body due.sorted_by_key [of next_due_at s "due_polls now s"]
      due.sorted_by_key [of telemetry_next_due_at s "due_telemetry now s"]
    by (simp flip: due_def tel_def)
qed

text \<open>A tick in a service that has one known host and one other poll under way.\<close>

definition sample_ready :: poller where
  "sample_ready = tick_begin 1050 (sync_known_hosts (JObj [(''hosts'',
     JObj [(''u1'', JObj [(''host'', JStr ''10.0.0.2'')]), (''u2'', JObj [(''host'', JStr ''10.0.0.3'')])])]) 1000 poller_init)"

lemma sample_ready_reach: "poller_reach lc tel_ms sample_ready"
  unfolding sample_ready_def
  by (rule poller_reach.step [OF _ poller_step.tick], rule poller_reach.step [OF poller_reach.init poller_step.now_sync])

lemma sample_ready_tick: "p_tick sample_ready = TickReady 1050"
  by code_simp

lemma tick_starts_longest_due_witness:
  "p_queue_depth (tick_body 1100 sample_ready) = 2 \<and> length (p_in_flight (tick_body 1100 sample_ready)) \<le> 6"
proof
  show "p_queue_depth (tick_body 1100 sample_ready) = 2" by code_simp
  have "p_in_flight sample_ready = []" by code_simp
  then show "length (p_in_flight (tick_body 1100 sample_ready)) \<le> 6"
    using tick_starts_longest_due [OF sample_ready_reach sample_ready_tick, of 1100] by (simp add: Let_def)
qed

section \<open>Failures\<close>

lemma meta_of_update [simp]: "meta_of (update_meta u f s) v = (if v = u then f (meta_of s u) else meta_of s v)"
  by (simp add: meta_of_def update_meta_def)

lemma meta_of_cong: "p_metas s' = p_metas s \<Longrightarrow> meta_of s' v = meta_of s v"
  by (simp add: meta_of_def)

lemma meta_of_frame [simp]:
  "meta_of (broadcast_event ev s) v = meta_of s v" "meta_of (s\<lparr>p_states := sts\<rparr>) v = meta_of s v"
  "meta_of (s\<lparr>p_resolving := rs\<rparr>) v = meta_of s v" "meta_of (s\<lparr>p_in_flight := fl\<rparr>) v = meta_of s v"
  by (rule meta_of_cong; simp)+

lemma ensure_known [simp]: "map_has (p_metas s) u \<Longrightarrow> ensure_meta u now s = s"
  by (simp add: ensure_meta_def)

lemma has_update_meta [simp]: "map_has (p_metas (update_meta u f s)) u"
  by (simp add: update_meta_def map_has_def)

lemma resolve_start_meta:
  "map_has (p_metas s) u \<Longrightarrow>
     failure_count (meta_of (resolve_start u t s) u) = failure_count (meta_of s u) \<and>
     next_due_at (meta_of (resolve_start u t s) u) = next_due_at (meta_of s u)"
  by (simp add: resolve_start_def Let_def)

text \<open>When an attempt to find a device again begins.\<close>

definition may_resolve :: "string \<Rightarrow> int \<Rightarrow> poller \<Rightarrow> bool" where
  "may_resolve u t s \<longleftrightarrow> u \<notin> set (p_resolving s) \<and>
     (case last_resolve_attempt_at (meta_of s u) of None \<Rightarrow> True | Some l \<Rightarrow> l = 0 \<or> resolve_cooldown_ms \<le> t - l)"

lemma resolve_start_begins:
  "map_has (p_metas s) u \<Longrightarrow> p_resolving (resolve_start u t s) =
     (if may_resolve u t s then p_resolving s @ [u] else p_resolving s)"
  by (auto simp: resolve_start_def Let_def may_resolve_def split: option.splits)

lemma resolve_start_p_states [simp]: "map_get (p_states (resolve_start u t s)) v = map_get (p_states s) v"
  by simp

lemma failure_interval: "0 < failure_count m \<Longrightarrow> next_interval_ms m now rnd = failure_backoff_ms (int (failure_count m))"
  by (simp add: next_interval_ms_def)

lemma poll_failure_meta:
  assumes "s' = fst (poll_failure uuid reason message now t rnd s)"
  shows "failure_count (meta_of s' uuid) = failure_count (meta_of s uuid) + 1"
    "next_due_at (meta_of s' uuid) = now + failure_backoff_ms (int (failure_count (meta_of s uuid) + 1))"
    "p_resolving s' = (if 2 \<le> failure_count (meta_of s uuid) \<and> may_resolve uuid t s
       then p_resolving s @ [uuid] else p_resolving s)"
proof -
  define s2 where "s2 = update_meta uuid (\<lambda>m. m\<lparr>next_due_at := now + next_interval_ms m now rnd\<rparr>)
     (update_meta uuid (\<lambda>m. m\<lparr>failure_count := failure_count m + 1\<rparr>) s)"
  define prev where "prev = map_get (p_states s2) uuid"
  define stale where "stale = stale_state uuid reason message t s2"
  define s3 where "s3 = (if has_material_state_change prev stale
                then broadcast_event (EvState stale) (s2\<lparr>p_states := map_set uuid stale (p_states s2)\<rparr>)
                else if prev = None then s2\<lparr>p_states := map_set uuid stale (p_states s2)\<rparr>
                else s2)"
  define s4 where "s4 = (if case prev of None \<Rightarrow> True | Some p \<Rightarrow> \<not> ds_stale p then broadcast_event (EvStale stale) s3 else s3)"
  have s': "s' = (if 3 \<le> failure_count (meta_of s4 uuid) then resolve_start uuid t s4 else s4)"
    unfolding assms poll_failure_def Let_def fst_conv s2_def [symmetric] prev_def [symmetric] stale_def [symmetric]
      s3_def [symmetric] s4_def [symmetric] ..
  have frame: "p_metas s4 = p_metas s2" "p_resolving s4 = p_resolving s"
    by (simp_all add: s4_def s3_def s2_def)
  then have m: "meta_of s4 v = meta_of s2 v" for v by (intro meta_of_cong)
  have has: "map_has (p_metas s4) uuid" by (simp add: frame s2_def)
  have m2: "failure_count (meta_of s2 uuid) = failure_count (meta_of s uuid) + 1"
    "next_due_at (meta_of s2 uuid) = now + failure_backoff_ms (int (failure_count (meta_of s uuid) + 1))"
    "last_resolve_attempt_at (meta_of s2 uuid) = last_resolve_attempt_at (meta_of s uuid)"
    by (simp_all add: s2_def failure_interval)
  have mr: "may_resolve uuid t s4 = may_resolve uuid t s" by (simp only: may_resolve_def frame m m2)
  show "failure_count (meta_of s' uuid) = failure_count (meta_of s uuid) + 1"
    "next_due_at (meta_of s' uuid) = now + failure_backoff_ms (int (failure_count (meta_of s uuid) + 1))"
    using resolve_start_meta [OF has, of t] by (simp_all add: s' m m2)
  show "p_resolving s' = (if 2 \<le> failure_count (meta_of s uuid) \<and> may_resolve uuid t s
       then p_resolving s @ [uuid] else p_resolving s)"
    using resolve_start_begins [OF has, of t] by (simp add: s' m m2 mr frame numeral_3_eq_3 numeral_2_eq_2)
qed

lemma stale_state_shows:
  "case map_get (p_states s) uuid of
     None \<Rightarrow> ds_onoff (stale_state uuid reason message t s) = 0
   | Some p \<Rightarrow> material (stale_state uuid reason message t s) = material (p\<lparr>ds_stale := True\<rparr>)"
  by (simp add: stale_state_def material_def Let_def split: option.splits)

lemma poll_failure_state:
  assumes "s' = fst (poll_failure uuid reason message now t rnd s)"
  shows "\<exists>st. map_get (p_states s') uuid = Some st \<and> ds_stale st \<and>
     (case map_get (p_states s) uuid of
        None \<Rightarrow> ds_error st = Some message
      | Some p \<Rightarrow> material st = material (p\<lparr>ds_stale := True\<rparr>) \<and>
          ds_error st = (if ds_stale p then ds_error p else Some message))"
proof -
  define s2 where "s2 = update_meta uuid (\<lambda>m. m\<lparr>next_due_at := now + next_interval_ms m now rnd\<rparr>)
     (update_meta uuid (\<lambda>m. m\<lparr>failure_count := failure_count m + 1\<rparr>) s)"
  define stale where "stale = stale_state uuid reason message t s2"
  have sts: "p_states s2 = p_states s" by (simp add: s2_def)
  have st: "ds_stale stale" "ds_error stale = Some message" by (simp_all add: stale_def stale_state_def Let_def)
  have kept: "case map_get (p_states s) uuid of None \<Rightarrow> True
     | Some p \<Rightarrow> material stale = material (p\<lparr>ds_stale := True\<rparr>)"
    using stale_state_shows [of uuid reason message t s2] by (simp add: sts stale_def split: option.splits)
  have changed: "has_material_state_change (Some p) stale \<longleftrightarrow> \<not> ds_stale p"
    if "map_get (p_states s) uuid = Some p" for p
  proof -
    have "material stale = material (p\<lparr>ds_stale := True\<rparr>)" using kept that by simp
    then show ?thesis unfolding material_change_iff option.case by (auto simp: material_eq_iff)
  qed
  have s': "map_get (p_states s') uuid = (if has_material_state_change (map_get (p_states s) uuid) stale
      \<or> map_get (p_states s) uuid = None then Some stale else map_get (p_states s) uuid)"
    unfolding assms poll_failure_def Let_def fst_conv s2_def [symmetric] stale_def [symmetric] sts
    by (simp add: sts)
  show ?thesis
  proof (cases "map_get (p_states s) uuid")
    case None
    then show ?thesis using s' st by simp
  next
    case (Some p)
    have "material (p\<lparr>ds_stale := True\<rparr>) = material p" if "ds_stale p"
      using that by (simp add: material_eq_iff)
    with Some s' st kept changed [OF Some] show ?thesis by simp
  qed
qed

text \<open>C6. A failed poll: the failure is counted, and the next poll is due the back-off for the new
  count after the start of this one; the state is kept as last seen and marked stale, with the
  message of the first failure since the device was last reached (later messages are not kept);
  and from the third failure in a row on, the search for the device's new address begins, unless
  one is under way or began less than five minutes ago.\<close>

theorem failed_poll_backs_off:
  assumes "map_get (p_in_flight s) uuid = Some task"
    and "and_then outcome (\<lambda>(host, resp). state_of_answer lc uuid (pt_reason task) host resp) = Inl message"
    and "s' = poll_settle lc uuid outcome t rnd s" and "fails = failure_count (meta_of s uuid)"
  shows "failure_count (meta_of s' uuid) = fails + 1 \<and>
    next_due_at (meta_of s' uuid) = pt_now task + failure_backoff_ms (int (fails + 1)) \<and>
    (\<exists>st. map_get (p_states s') uuid = Some st \<and> ds_stale st \<and>
       (case map_get (p_states s) uuid of
          None \<Rightarrow> ds_error st = Some message
        | Some p \<Rightarrow> material st = material (p\<lparr>ds_stale := True\<rparr>) \<and>
            ds_error st = (if ds_stale p then ds_error p else Some message))) \<and>
    p_resolving s' = (if 2 \<le> fails \<and> may_resolve uuid t s then p_resolving s @ [uuid] else p_resolving s)"
proof -
  obtain s1 res where r: "poll_failure uuid (pt_reason task) message (pt_now task) t rnd s = (s1, res)"
    by (cases "poll_failure uuid (pt_reason task) message (pt_now task) t rnd s")
  have s1: "s1 = fst (poll_failure uuid (pt_reason task) message (pt_now task) t rnd s)" by (simp add: r)
  have s': "s' = s1\<lparr>p_in_flight := map_set uuid (task\<lparr>pt_result := Some res\<rparr>) (p_in_flight s1)\<rparr>"
    by (simp add: assms poll_settle_def r)
  show ?thesis
    using poll_failure_meta [OF s1] poll_failure_state [OF s1] by (simp add: s' assms(4))
qed

lemma failed_poll_backs_off_witness:
  "failure_count (meta_of sample_run ''u1'') = 1 \<and> next_due_at (meta_of sample_run ''u1'') = 31100"
proof -
  define s0 where "s0 = create_stream codeunit_compare (tick_body 1100 (tick_begin 1050 (sync_known_hosts
    (JObj [(''hosts'', JObj [(''u1'', JObj [(''host'', JStr ''10.0.0.2'')])])]) 1000 poller_init)))"
  have run: "sample_run = poll_settle codeunit_compare ''u1'' (Inl ''EIO'') 2000 0 s0"
    by (simp add: sample_run_def s0_def Let_def)
  have fl: "map_get (p_in_flight s0) ''u1'' =
      Some \<lparr>pt_now = 1100, pt_reason = RPoller, pt_timeout = None, pt_result = None\<rparr>"
    unfolding s0_def by code_simp
  have fc: "0 = failure_count (meta_of s0 ''u1'')" unfolding s0_def by code_simp
  have "failure_backoff_ms 1 = 30000" by code_simp
  then show ?thesis
    using failed_poll_backs_off [OF fl _ run fc, of "''EIO''"] by simp
qed

end
