(* ===== verification/PollerNow.thy ===== *)
theory PollerNow
  imports PollerRuns
begin

text \<open>
  Polls on request: \<open>pollNow\<close> shares its list of uuids between up to six workers, which join polls
  that are under way. The invariant balances what a call was given against what is left, what its
  workers wait for or hold, and what it has collected.
\<close>

section \<open>What a worker holds\<close>

fun res_uuid :: "poll_result \<Rightarrow> string" where
  "res_uuid (PrState st) = ds_uuid st"
| "res_uuid (PrError e) = pe_uuid e"

fun holds :: "now_worker \<Rightarrow> string multiset" where
  "holds (Awaiting u) = {#u#}"
| "holds (Got res) = {#res_uuid res#}"
| "holds Returned = {#}"

definition held :: "now_worker list \<Rightarrow> string multiset" where
  "held ws = sum_list (map holds ws)"

lemma held_simps [simp]: "held [] = {#}" "held (w # ws) = holds w + held ws"
  by (simp_all add: held_def)

lemma held_replicate [simp]: "held (replicate n Returned) = {#}"
  by (induction n) simp_all

lemma held_update: "w < length ws \<Longrightarrow> held (ws[w := x]) + holds (ws ! w) = held ws + holds x"
  by (induction ws arbitrary: w) (auto simp: ac_simps split: nat.splits)

lemma held_all_returned: "list_all (\<lambda>w. w = Returned) ws \<Longrightarrow> held ws = {#}"
  by (induction ws) auto

lemma held_deliver:
  "res_uuid res = uuid \<Longrightarrow> held (map (\<lambda>w. if w = Awaiting uuid then Got res else w) ws) = held ws"
  by (induction ws) auto

section \<open>The balance of a call\<close>

definition collected :: "now_call \<Rightarrow> string multiset" where
  "collected c = mset (map ds_uuid (nc_states c)) + mset (map pe_uuid (nc_errors c))"

lemma collected_update [simp]:
  "collected (c\<lparr>nc_workers := ws\<rparr>) = collected c" "collected (c\<lparr>nc_pending := p\<rparr>) = collected c" "collected (c\<lparr>nc_pending := p, nc_workers := ws\<rparr>) = collected c"
  by (simp_all add: collected_def)

definition take_call :: "nat \<Rightarrow> now_call \<Rightarrow> now_call" where
  "take_call w c = (case nc_pending c of
       [] \<Rightarrow> c\<lparr>nc_workers := (nc_workers c)[w := Returned]\<rparr>
     | u # rest \<Rightarrow> c\<lparr>nc_pending := rest,
         nc_workers := (nc_workers c)[w := (if u = [] then Returned else Awaiting u)]\<rparr>)"

text \<open>\<open>ws\<close> are the workers that have started.\<close>

definition balanced :: "nat set \<Rightarrow> string multiset \<Rightarrow> now_call \<Rightarrow> bool" where
  "balanced ws extra c \<longleftrightarrow> [] \<notin> set (nc_uuids c) \<longrightarrow>
     mset (nc_uuids c) + extra = mset (nc_pending c) + held (nc_workers c) + collected c \<and>
     [] \<notin> set (nc_pending c) \<and>
     (\<forall>w \<in> ws. nc_workers c ! w = Returned \<longrightarrow> nc_pending c = [])"

lemma take_call_frame [simp]:
  "length (nc_workers (take_call w c)) = length (nc_workers c)" "nc_running (take_call w c) = nc_running c"
  "nc_uuids (take_call w c) = nc_uuids c" "collected (take_call w c) = collected c"
  by (simp_all add: take_call_def collected_def split: list.splits)

lemma take_call_balanced:
  assumes "balanced (ws - {w}) (holds (nc_workers c ! w)) c" "w < length (nc_workers c)"
    and "\<forall>v \<in> ws. v < length (nc_workers c)"
  shows "balanced (insert w ws) {#} (take_call w c)"
proof -
  have bal: "mset (nc_uuids c) = mset (nc_pending (take_call w c)) + held (nc_workers (take_call w c)) + collected c"
    if "[] \<notin> set (nc_uuids c)"
  proof -
    have eq: "mset (nc_uuids c) + holds (nc_workers c ! w) = mset (nc_pending c) + held (nc_workers c) + collected c"
      and no: "[] \<notin> set (nc_pending c)" using assms(1) that by (simp_all add: balanced_def)
    have "mset (nc_uuids c) + holds (nc_workers c ! w) =
        mset (nc_pending (take_call w c)) + held (nc_workers (take_call w c)) + collected c + holds (nc_workers c ! w)"
    proof (cases "nc_pending c")
      case Nil
      then show ?thesis using eq held_update [OF assms(2), of Returned] by (simp add: take_call_def ac_simps)
    next
      case (Cons u rest)
      then have "u \<noteq> []" using no by auto
      have "held ((nc_workers c)[w := Awaiting u]) + holds (nc_workers c ! w) = held (nc_workers c) + {#u#}"
        using held_update [OF assms(2), of "Awaiting u"] by simp
      then show ?thesis using eq Cons \<open>u \<noteq> []\<close>
        by (simp add: take_call_def ac_simps)
    qed
    then show ?thesis by simp
  qed
  show ?thesis
    using assms bal unfolding balanced_def
    by (auto simp: take_call_def nth_list_update split: list.splits)
qed

definition call_ok :: "now_call \<Rightarrow> bool" where
  "call_ok c \<longleftrightarrow> (if nc_running c then
      0 < length (nc_workers c) \<and> length (nc_workers c) \<le> 6 \<and> balanced {..<length (nc_workers c)} {#} c
    else nc_workers c = [] \<and> collected c = {#})"

lemma deliver_ok: "res_uuid res = uuid \<Longrightarrow> call_ok c \<Longrightarrow> call_ok (deliver uuid res c)"
  by (auto simp: call_ok_def deliver_def balanced_def collected_def held_deliver split: if_splits)

section \<open>Polls in flight\<close>

text \<open>Polls that go on as they are, next to new ones without a result.\<close>

definition flights_grow :: "poller \<Rightarrow> poller \<Rightarrow> bool" where
  "flights_grow s s' \<longleftrightarrow>
     (\<forall>u task. map_get (p_in_flight s) u = Some task \<longrightarrow> map_get (p_in_flight s') u = Some task) \<and>
     (\<forall>u task. map_get (p_in_flight s') u = Some task \<longrightarrow> map_get (p_in_flight s) u = Some task \<or> pt_result task = None)"

lemma grow_refl: "p_in_flight s' = p_in_flight s \<Longrightarrow> flights_grow s s'"
  by (simp add: flights_grow_def)

lemma grow_trans: "flights_grow s s1 \<Longrightarrow> flights_grow s1 s2 \<Longrightarrow> flights_grow s s2"
  unfolding flights_grow_def by metis

lemma grow_start: "flights_grow s (poll_start u r to now s)"
  by (auto simp: flights_grow_def poll_start_def Let_def map_has_def)

lemma grow_start_polls: "flights_grow s (start_polls now us s)"
  by (induction us arbitrary: s) (auto simp: grow_refl intro: grow_trans grow_start)

lemma started: "map_has (p_in_flight (poll_start u r to now s)) u"
  by (auto simp: poll_start_def Let_def map_has_def)

lemma grow_has: "flights_grow s s' \<Longrightarrow> map_has (p_in_flight s) u \<Longrightarrow> map_has (p_in_flight s') u"
  unfolding flights_grow_def map_has_def by auto

definition flights_ok :: "poller \<Rightarrow> bool" where
  "flights_ok s \<longleftrightarrow> (\<forall>u task res. map_get (p_in_flight s) u = Some task \<longrightarrow> pt_result task = Some res \<longrightarrow> res_uuid res = u)"

definition awaits_ok :: "poller \<Rightarrow> now_call \<Rightarrow> bool" where
  "awaits_ok s c \<longleftrightarrow> (\<forall>u. Awaiting u \<in> set (nc_workers c) \<longrightarrow> map_has (p_in_flight s) u)"

definition now_inv :: "poller \<Rightarrow> bool" where
  "now_inv s \<longleftrightarrow> flights_ok s \<and> (\<forall>c \<in> set (p_calls s). call_ok c \<and> awaits_ok s c)"

lemma grow_flights_ok: "flights_grow s s' \<Longrightarrow> flights_ok s \<Longrightarrow> flights_ok s'"
  unfolding flights_grow_def flights_ok_def by (metis option.distinct(1))

lemma grow_awaits_ok: "flights_grow s s' \<Longrightarrow> awaits_ok s c \<Longrightarrow> awaits_ok s' c"
  unfolding awaits_ok_def using grow_has by blast

lemma grow_now_inv: "flights_grow s s' \<Longrightarrow> p_calls s' = p_calls s \<Longrightarrow> now_inv s \<Longrightarrow> now_inv s'"
  unfolding now_inv_def using grow_flights_ok grow_awaits_ok by auto

lemma now_inv_cong: "p_in_flight s' = p_in_flight s \<Longrightarrow> p_calls s' = p_calls s \<Longrightarrow> now_inv s \<Longrightarrow> now_inv s'"
  using grow_now_inv grow_refl by blast

section \<open>Taking the next uuid\<close>

lemma now_take_calls:
  "i < length (p_calls s) \<Longrightarrow> p_calls (now_take i w now s) = (p_calls s)[i := take_call w (p_calls s ! i)]"
  by (simp add: now_take_def take_call_def Let_def split: list.splits)

lemma now_take_grow: "flights_grow s (now_take i w now s)"
proof (cases "nc_pending (p_calls s ! i)")
  case (Cons u rest)
  define c where "c = p_calls s ! i"
  have "flights_grow s (poll_start u (nc_reason c) (nc_timeout c) now
      (s\<lparr>p_calls := (p_calls s)[i := c\<lparr>nc_pending := rest, nc_workers := (nc_workers c)[w := Awaiting u]\<rparr>]\<rparr>))"
    by (rule grow_trans [OF _ grow_start]) (simp add: grow_refl)
  then show ?thesis using Cons by (simp add: now_take_def Let_def grow_refl flip: c_def)
qed (simp add: now_take_def Let_def grow_refl)

lemma now_take_awaits:
  assumes "awaits_ok s (p_calls s ! i)"
  shows "awaits_ok (now_take i w now s) (take_call w (p_calls s ! i))"
proof -
  have old: "map_has (p_in_flight (now_take i w now s)) u" if "Awaiting u \<in> set (nc_workers (p_calls s ! i))" for u
    using assms that grow_has [OF now_take_grow] unfolding awaits_ok_def by blast
  have new: "map_has (p_in_flight (now_take i w now s)) u" if "nc_pending (p_calls s ! i) = u # rest" "u \<noteq> []" for u rest
    using that by (simp add: now_take_def Let_def started)
  have "Awaiting u \<in> insert x (set ws)" if "Awaiting u \<in> set (ws[w := x])" for u x and ws
    using that set_update_subset_insert by fastforce
  then show ?thesis
    using old new unfolding awaits_ok_def take_call_def
    by (auto split: list.splits if_splits) blast+
qed

text \<open>All is well but for call \<open>i\<close>, of which the workers \<open>ws\<close> have started.\<close>

definition launching :: "nat \<Rightarrow> nat set \<Rightarrow> string multiset \<Rightarrow> poller \<Rightarrow> bool" where
  "launching i ws extra s \<longleftrightarrow> i < length (p_calls s) \<and> flights_ok s \<and> (\<forall>c \<in> set (p_calls s). awaits_ok s c) \<and>
     (\<forall>j < length (p_calls s). j \<noteq> i \<longrightarrow> call_ok (p_calls s ! j)) \<and>
     (let c = p_calls s ! i in nc_running c \<and> 0 < length (nc_workers c) \<and> length (nc_workers c) \<le> 6 \<and>
        ws \<subseteq> {..<length (nc_workers c)} \<and> balanced ws extra c)"

lemma launching_take:
  assumes "launching i (ws - {w}) (holds (nc_workers (p_calls s ! i) ! w)) s"
    and "w < length (nc_workers (p_calls s ! i))"
  shows "launching i (insert w ws) {#} (now_take i w now s)"
proof -
  define c where "c = p_calls s ! i"
  have i: "i < length (p_calls s)" and aw: "\<forall>c \<in> set (p_calls s). awaits_ok s c"
    using assms(1) by (simp_all add: launching_def)
  have sub: "\<forall>v \<in> ws. v < length (nc_workers c)"
    using assms unfolding launching_def Let_def c_def [symmetric] by auto
  have bal: "balanced (insert w ws) {#} (take_call w c)"
    using assms sub unfolding launching_def Let_def c_def [symmetric] by (intro take_call_balanced) auto
  have calls: "p_calls (now_take i w now s) = (p_calls s)[i := take_call w c]"
    using now_take_calls [OF i] by (simp add: c_def)
  have "awaits_ok (now_take i w now s) (take_call w c)"
    unfolding c_def using aw i by (intro now_take_awaits) simp
  moreover have "awaits_ok (now_take i w now s) d" if "d \<in> set (p_calls s)" for d
    using aw that grow_awaits_ok [OF now_take_grow] by blast
  ultimately have aw2: "\<forall>d \<in> set (p_calls (now_take i w now s)). awaits_ok (now_take i w now s) d"
    unfolding calls using set_update_subset_insert by fastforce
  show ?thesis
    using assms bal aw2 sub i grow_flights_ok [OF now_take_grow]
    unfolding launching_def Let_def c_def [symmetric] calls by (auto simp: nth_list_update)
qed

lemma launching_done:
  assumes "launching i {..<length (nc_workers (p_calls s ! i))} {#} s"
  shows "now_inv s"
proof -
  have "call_ok (p_calls s ! j)" if "j < length (p_calls s)" for j
  proof (cases "j = i")
    case True
    then show ?thesis using assms unfolding launching_def call_ok_def Let_def by simp
  next
    case False
    then show ?thesis using assms that unfolding launching_def by blast
  qed
  then show ?thesis
    using assms by (auto simp: now_inv_def launching_def in_set_conv_nth)
qed

lemma now_take_workers:
  "i < length (p_calls s) \<Longrightarrow> length (nc_workers (p_calls (now_take i w now s) ! i)) = length (nc_workers (p_calls s ! i))"
  "i < length (p_calls s) \<Longrightarrow> v \<noteq> w \<Longrightarrow>
     nc_workers (p_calls (now_take i w now s) ! i) ! v = nc_workers (p_calls s ! i) ! v"
  by (simp_all add: now_take_calls take_call_def split: list.splits)

lemma launch_fold:
  assumes "launching i {} {#} s" "nc_workers (p_calls s ! i) = replicate n Returned" "k \<le> n"
  shows "launching i {..<k} {#} (fold (\<lambda>w. now_take i w now) [0..<k] s) \<and>
     length (nc_workers (p_calls (fold (\<lambda>w. now_take i w now) [0..<k] s) ! i)) = n \<and>
     (\<forall>v. k \<le> v \<longrightarrow> v < n \<longrightarrow> nc_workers (p_calls (fold (\<lambda>w. now_take i w now) [0..<k] s) ! i) ! v = Returned)"
  using assms(3)
proof (induction k)
  case 0
  then show ?case using assms by simp
next
  case (Suc k)
  define t where "t = fold (\<lambda>w. now_take i w now) [0..<k] s"
  have t: "launching i {..<k} {#} t" "length (nc_workers (p_calls t ! i)) = n"
    "\<And>v. k \<le> v \<Longrightarrow> v < n \<Longrightarrow> nc_workers (p_calls t ! i) ! v = Returned"
    using Suc by (simp_all add: t_def)
  then have i: "i < length (p_calls t)" by (simp add: launching_def)
  have "launching i (insert k {..<k}) {#} (now_take i k now t)"
    using t Suc.prems by (intro launching_take) simp_all
  moreover have "insert k {..<k} = {..<Suc k}" by auto
  moreover have "fold (\<lambda>w. now_take i w now) [0..<Suc k] s = now_take i k now t" by (simp add: t_def)
  ultimately show ?case using t now_take_workers [OF i] by simp
qed

lemma inv_launch:
  assumes inv: "now_inv s" and i: "i < length (p_calls s)" and idle: "\<not> nc_running (p_calls s ! i)"
  shows "now_inv (now_launch i now s)"
proof -
  define c where "c = p_calls s ! i"
  define uuids where "uuids = now_uuids (nc_given c) s"
  define n where "n = max 1 (min poll_max_concurrency (if uuids = [] then 1 else length uuids))"
  define s1 where "s1 = fold (\<lambda>u. boost_device u now) uuids s"
  define c2 where "c2 = c\<lparr>nc_running := True, nc_uuids := uuids, nc_pending := uuids, nc_workers := replicate n Returned\<rparr>"
  define s2 where "s2 = s1\<lparr>p_calls := (p_calls s1)[i := c2]\<rparr>"
  have n: "0 < n" "n \<le> 6" by (simp_all add: n_def poll_max_concurrency_def)
  have calls: "p_calls s2 = (p_calls s)[i := c2]" "p_in_flight s2 = p_in_flight s" by (simp_all add: s2_def s1_def)
  have ok: "\<forall>d \<in> set (p_calls s). call_ok d \<and> awaits_ok s d" "flights_ok s" using inv by (simp_all add: now_inv_def)
  have "collected c = {#}" using ok(1) i idle by (auto simp: call_ok_def c_def split: if_splits)
  then have none: "collected c2 = {#}" by (simp add: collected_def c2_def)
  have aw: "awaits_ok s2 d" if "d \<in> set (p_calls s2)" for d
    using that ok(1) set_update_subset_insert [of "p_calls s" i c2]
    by (auto simp: calls awaits_ok_def c2_def)
  have "launching i {} {#} s2"
    using ok aw i n none by (auto simp: launching_def calls Let_def c2_def balanced_def flights_ok_def)
  moreover have "nc_workers (p_calls s2 ! i) = replicate n Returned" using i by (simp add: calls c2_def)
  ultimately have l: "launching i {..<n} {#} (fold (\<lambda>w. now_take i w now) [0..<n] s2)"
    "length (nc_workers (p_calls (fold (\<lambda>w. now_take i w now) [0..<n] s2) ! i)) = n"
    using launch_fold [of i s2 n n] by simp_all
  have "now_inv (fold (\<lambda>w. now_take i w now) [0..<n] s2)" by (rule launching_done [of i]) (simp add: l)
  moreover have "now_launch i now s = fold (\<lambda>w. now_take i w now) [0..<n] s2"
    unfolding now_launch_def Let_def c_def [symmetric] uuids_def [symmetric] n_def [symmetric] s1_def [symmetric]
      c2_def [symmetric] s2_def [symmetric] ..
  ultimately show ?thesis by simp
qed

lemma inv_resume:
  assumes inv: "now_inv s" and i: "i < length (p_calls s)" and w: "w < length (nc_workers (p_calls s ! i))"
    and got: "nc_workers (p_calls s ! i) ! w = Got res"
  shows "now_inv (now_resume i w now s)"
proof -
  define c where "c = p_calls s ! i"
  define c2 where "c2 = (case res of PrState st \<Rightarrow> c\<lparr>nc_states := nc_states c @ [st]\<rparr>
     | PrError e \<Rightarrow> c\<lparr>nc_errors := nc_errors c @ [e]\<rparr>)"
  define s2 where "s2 = s\<lparr>p_calls := (p_calls s)[i := c2]\<rparr>"
  have resume: "now_resume i w now s = now_take i w now s2"
    using got by (simp add: now_resume_def Let_def s2_def c2_def flip: c_def split: poll_result.splits)
  have c2: "nc_workers c2 = nc_workers c" "nc_running c2 = nc_running c" "nc_uuids c2 = nc_uuids c"
    "nc_pending c2 = nc_pending c" "collected c2 = collected c + {#res_uuid res#}"
    by (simp_all add: c2_def collected_def split: poll_result.splits)
  have ok: "\<forall>d \<in> set (p_calls s). call_ok d \<and> awaits_ok s d" "flights_ok s" using inv by (simp_all add: now_inv_def)
  then have cok: "call_ok c" "awaits_ok s c" using i by (simp_all add: c_def)
  have run: "nc_running c" using cok(1) w by (auto simp: call_ok_def c_def split: if_splits)
  define n where "n = length (nc_workers c)"
  have bal: "balanced {..<n} {#} c" "n \<le> 6" using cok(1) run by (simp_all add: call_ok_def n_def)
  have "launching i ({..<n} - {w}) (holds (nc_workers (p_calls s2 ! i) ! w)) s2"
  proof -
    have "awaits_ok s2 d" if "d \<in> set (p_calls s2)" for d
      using that ok(1) cok(2) c2(1) set_update_subset_insert [of "p_calls s" i c2]
      by (auto simp: s2_def awaits_ok_def)
    moreover have "balanced ({..<n} - {w}) {#res_uuid res#} c2"
      using bal(1) unfolding balanced_def c2 by auto
    ultimately show ?thesis
      using ok i w bal(2) run got
      by (auto simp: launching_def Let_def s2_def c2 n_def nth_list_update flights_ok_def simp flip: c_def)
  qed
  moreover have "w < length (nc_workers (p_calls s2 ! i))" using w i by (simp add: s2_def c2 c_def)
  ultimately have "launching i (insert w {..<n}) {#} (now_take i w now s2)" by (rule launching_take)
  moreover have "insert w {..<n} = {..<n}" using w by (auto simp: n_def c_def)
  moreover have "length (nc_workers (p_calls (now_take i w now s2) ! i)) = n"
    using now_take_workers(1) [of i s2 w now] i by (simp add: s2_def c2 n_def)
  ultimately show ?thesis unfolding resume by (intro launching_done [of i]) simp
qed

section \<open>Every reachable state\<close>

lemma poll_failure_result: "res_uuid (snd (poll_failure uuid r m now t rnd s)) = uuid"
  by (simp add: poll_failure_def Let_def)

lemma poll_success_result:
  assumes "\<forall>u st. map_get (p_states s) u = Some st \<longrightarrow> ds_uuid st = u"
  shows "res_uuid (snd (poll_success st now rnd s)) = ds_uuid st"
  using assms by (simp add: poll_success_def Let_def split: option.splits)

lemma poll_success_flights [simp]:
  "p_in_flight (fst (poll_success st now rnd s)) = p_in_flight s" "p_calls (fst (poll_success st now rnd s)) = p_calls s"
  by (simp_all add: poll_success_def Let_def split: option.splits)

lemma poll_failure_flights [simp]:
  "p_in_flight (fst (poll_failure u r m now t rnd s)) = p_in_flight s"
  "p_calls (fst (poll_failure u r m now t rnd s)) = p_calls s"
  by (simp_all add: poll_failure_def Let_def)

lemma poll_settle_flights:
  assumes "poller_inv s" "map_get (p_in_flight s) uuid = Some task"
  shows "\<exists>res. res_uuid res = uuid \<and> p_calls (poll_settle lc uuid oc t rnd s) = p_calls s \<and>
    p_in_flight (poll_settle lc uuid oc t rnd s) = map_set uuid (task\<lparr>pt_result := Some res\<rparr>) (p_in_flight s)"
proof (cases "and_then oc (\<lambda>(host, resp). state_of_answer lc uuid (pt_reason task) host resp)")
  case (Inl message)
  obtain s1 res where r: "poll_failure uuid (pt_reason task) message (pt_now task) t rnd s = (s1, res)"
    by (cases "poll_failure uuid (pt_reason task) message (pt_now task) t rnd s")
  then have "res_uuid res = uuid" "p_calls s1 = p_calls s" "p_in_flight s1 = p_in_flight s"
    using poll_failure_result [of uuid "pt_reason task" message "pt_now task" t rnd s]
      poll_failure_flights [of uuid "pt_reason task" message "pt_now task" t rnd s] by simp_all
  then show ?thesis by (auto simp: poll_settle_def Inl assms r)
next
  case (Inr st)
  define st2 where "st2 = st\<lparr>ds_updated_at := next_updated_at t (map_option ds_updated_at (map_get (p_states s) uuid))\<rparr>"
  obtain host resp where "state_of_answer lc uuid (pt_reason task) host resp = Inr st"
    using Inr by (auto simp: and_then_Inr)
  then have "ds_uuid st2 = uuid"
    by (auto simp: st2_def state_of_answer_def Let_def split: if_splits option.splits)
  obtain s1 res where r: "poll_success st2 (pt_now task) rnd s = (s1, res)"
    by (cases "poll_success st2 (pt_now task) rnd s")
  have "\<forall>u st. map_get (p_states s) u = Some st \<longrightarrow> ds_uuid st = u" using poller_invD(3) [OF assms(1)] by blast
  then have "res_uuid res = uuid" "p_calls s1 = p_calls s" "p_in_flight s1 = p_in_flight s"
    using poll_success_result [of s st2 "pt_now task" rnd] \<open>ds_uuid st2 = uuid\<close>
      poll_success_flights [of st2 "pt_now task" rnd s] r by simp_all
  then show ?thesis by (auto simp: poll_settle_def Inr assms r simp flip: st2_def)
qed

lemma inv_settle_now:
  assumes "now_inv s" "poller_inv s" "map_get (p_in_flight s) uuid = Some task"
  shows "now_inv (poll_settle lc uuid oc t rnd s)"
proof -
  obtain res where res: "res_uuid res = uuid" "p_calls (poll_settle lc uuid oc t rnd s) = p_calls s"
    "p_in_flight (poll_settle lc uuid oc t rnd s) = map_set uuid (task\<lparr>pt_result := Some res\<rparr>) (p_in_flight s)"
    using poll_settle_flights [OF assms(2,3)] by blast
  then show ?thesis
    using assms(1) by (auto simp: now_inv_def flights_ok_def awaits_ok_def map_has_def)
qed

lemma inv_release_now:
  assumes inv: "now_inv s"
  shows "now_inv (poll_release uuid s)"
proof (cases "\<exists>task res. map_get (p_in_flight s) uuid = Some task \<and> pt_result task = Some res")
  case True
  then obtain task res where t: "map_get (p_in_flight s) uuid = Some task" "pt_result task = Some res" by blast
  then have u: "res_uuid res = uuid" using inv by (auto simp: now_inv_def flights_ok_def)
  have "call_ok (deliver uuid res c) \<and> awaits_ok (poll_release uuid s) (deliver uuid res c)" if "c \<in> set (p_calls s)" for c
  proof
    show "call_ok (deliver uuid res c)" using inv that deliver_ok [OF u] by (simp add: now_inv_def)
    show "awaits_ok (poll_release uuid s) (deliver uuid res c)"
      using inv that t by (auto simp: now_inv_def awaits_ok_def deliver_def poll_release_def map_has_def split: if_splits)
  qed
  moreover have "flights_ok (poll_release uuid s)"
    using inv t by (auto simp: now_inv_def flights_ok_def poll_release_def split: if_splits)
  moreover have "p_calls (poll_release uuid s) = map (deliver uuid res) (p_calls s)"
    using t by (simp add: poll_release_def)
  ultimately show ?thesis by (simp add: now_inv_def)
next
  case False
  then have "poll_release uuid s = s" by (auto simp: poll_release_def split: option.splits)
  with inv show ?thesis by simp
qed

lemma inv_tick_now: "now_inv s \<Longrightarrow> now_inv (tick_body now s)"
proof (cases "p_tick s")
  case (TickReady started)
  assume inv: "now_inv s"
  have "flights_grow s (tick_body now s)"
  proof -
    define due where "due = js_sort (due_cmp next_due_at s) (due_polls now s)"
    have "p_in_flight (tick_body now s) = p_in_flight (start_polls now due (s\<lparr>p_queue_depth := length due\<rparr>))"
      by (simp add: tick_body_def TickReady Let_def due_def)
    moreover have "flights_grow s (start_polls now due (s\<lparr>p_queue_depth := length due\<rparr>))"
      by (rule grow_trans [OF _ grow_start_polls]) (simp add: grow_refl)
    ultimately show ?thesis by (simp add: flights_grow_def)
  qed
  moreover have "p_calls (tick_body now s) = p_calls s" by (simp add: tick_body_def TickReady Let_def)
  ultimately show ?thesis using grow_now_inv inv by blast
qed (simp_all add: tick_body_def)

lemma inv_begin_now: "now_inv s \<Longrightarrow> now_inv (now_begin us r t s)"
  by (auto simp: now_inv_def now_begin_def call_ok_def awaits_ok_def flights_ok_def collected_def)

lemma now_inv_eq: "p_in_flight s' = p_in_flight s \<Longrightarrow> p_calls s' = p_calls s \<Longrightarrow> now_inv s' = now_inv s"
  using now_inv_cong by metis

lemma step_now_inv: "poller_step lc tel_ms s s' \<Longrightarrow> poller_inv s \<Longrightarrow> now_inv s \<Longrightarrow> now_inv s'"
  by (induction rule: poller_step.induct)
    (simp_all add: inv_settle_now inv_release_now inv_tick_now inv_begin_now inv_launch inv_resume
      now_inv_eq [of "boost_device _ _ _"] now_inv_eq [of "create_stream _ _"] now_inv_eq [of "cancel_stream _ _"]
      now_inv_eq [of "close_stream _ _"] now_inv_eq [of "heartbeat _ _ _"] now_inv_eq [of "telemetry_settle _ _ _ _ _ _"]
      now_inv_eq [of "telemetry_release _ _"] now_inv_eq [of "tick_begin _ _"] now_inv_eq [of "tick_synced _"]
      now_inv_eq [of "sync_known_hosts _ _ _"] now_inv_eq [of "resolve_finish _ _ _ _"])

lemma reach_now_inv: "poller_reach lc tel_ms s \<Longrightarrow> now_inv s"
proof (induction rule: poller_reach.induct)
  case init
  then show ?case by (simp add: now_inv_def flights_ok_def poller_init_def)
next
  case (step s s')
  then show ?case using step_now_inv reach_inv by blast
qed

text \<open>C4. A poll on request answers for every device it was asked about: while it runs it has one to
  six workers, each poll a worker waits for is under way, and every uuid is still to be taken, with a
  worker, or answered; when its workers have returned there is exactly one state or error for each
  uuid and none for any other, whatever ticks, other requests and joined polls did meanwhile.\<close>

theorem poll_now_answers_all:
  assumes "poller_reach lc tel_ms s" "c \<in> set (p_calls s)" "nc_running c" "[] \<notin> set (nc_uuids c)"
  shows "0 < length (nc_workers c) \<and> length (nc_workers c) \<le> 6 \<and>
    list_all (\<lambda>w. case w of Awaiting u \<Rightarrow> map_has (p_in_flight s) u | _ \<Rightarrow> True) (nc_workers c) \<and>
    mset (nc_uuids c) = mset (nc_pending c) + held (nc_workers c) + collected c \<and>
    (list_all (\<lambda>w. w = Returned) (nc_workers c) \<longrightarrow>
      mset (map ds_uuid (nc_states c)) + mset (map pe_uuid (nc_errors c)) = mset (nc_uuids c))"
proof -
  have ok: "call_ok c" "awaits_ok s c"
    using reach_now_inv [OF assms(1)] assms(2) by (simp_all add: now_inv_def)
  then have len: "0 < length (nc_workers c)" "length (nc_workers c) \<le> 6"
    and bal: "balanced {..<length (nc_workers c)} {#} c"
    using assms(3) by (simp_all add: call_ok_def)
  have eq: "mset (nc_uuids c) = mset (nc_pending c) + held (nc_workers c) + collected c"
    using bal assms(4) by (simp add: balanced_def)
  have "nc_pending c = []" if "list_all (\<lambda>w. w = Returned) (nc_workers c)"
    using that bal assms(4) len(1) by (auto simp: balanced_def list_all_length)
  with eq held_all_returned have fin: "collected c = mset (nc_uuids c)"
    if "list_all (\<lambda>w. w = Returned) (nc_workers c)" using that by simp
  have "list_all (\<lambda>w. case w of Awaiting u \<Rightarrow> map_has (p_in_flight s) u | _ \<Rightarrow> True) (nc_workers c)"
    using ok(2) by (auto simp: awaits_ok_def list_all_iff split: now_worker.splits)
  then show ?thesis using len eq fin by (simp add: collected_def)
qed

text \<open>A request for one device that does not answer, from its start to its end.\<close>

definition sample_call :: poller where
  "sample_call = now_launch 0 1200 (now_begin [''u1''] RManual None poller_init)"

definition sample_end :: poller where
  "sample_end = now_resume 0 0 1400 (poll_release ''u1''
     (poll_settle codeunit_compare ''u1'' (Inl ''EIO'') 1300 0 sample_call))"

lemma sample_end_reach: "poller_reach codeunit_compare tel_ms sample_end"
proof -
  have "poller_reach codeunit_compare tel_ms sample_call"
    unfolding sample_call_def
    by (rule poller_reach.step [OF poller_reach.step [OF poller_reach.init poller_step.now_begin] poller_step.now_launch])
      code_simp+
  moreover have "map_option pt_result (map_get (p_in_flight sample_call) ''u1'') = Some None" by code_simp
  then obtain task where "map_get (p_in_flight sample_call) ''u1'' = Some task" "pt_result task = None" by auto
  ultimately have r: "poller_reach codeunit_compare tel_ms (poll_release ''u1''
      (poll_settle codeunit_compare ''u1'' (Inl ''EIO'') 1300 0 sample_call))"
    by (meson poller_reach.step poller_step.settle poller_step.release)
  have g: "nc_workers (p_calls (poll_release ''u1''
      (poll_settle codeunit_compare ''u1'' (Inl ''EIO'') 1300 0 sample_call)) ! 0) =
      [Got (PrError \<lparr>pe_uuid = ''u1'', pe_code = ''lan_error'', pe_message = ''EIO'', pe_at = 1300\<rparr>)]"
    by code_simp
  have l: "0 < length (p_calls (poll_release ''u1''
      (poll_settle codeunit_compare ''u1'' (Inl ''EIO'') 1300 0 sample_call)))" by code_simp
  show ?thesis
    unfolding sample_end_def
    by (rule poller_reach.step [OF r poller_step.now_resume [OF l]]) (simp_all add: g)
qed

lemma sample_end_call:
  "length (p_calls sample_end) = 1"
  "nc_running (p_calls sample_end ! 0)" "nc_uuids (p_calls sample_end ! 0) = [''u1'']"
  "nc_workers (p_calls sample_end ! 0) = [Returned]" "nc_states (p_calls sample_end ! 0) = []"
  by code_simp+

lemma poll_now_answers_all_witness:
  "mset (map pe_uuid (nc_errors (p_calls sample_end ! 0))) = {#''u1''#}"
proof -
  have "p_calls sample_end ! 0 \<in> set (p_calls sample_end)" by (simp add: sample_end_call)
  then show ?thesis
    using poll_now_answers_all [OF sample_end_reach, of "p_calls sample_end ! 0"] by (simp add: sample_end_call)
qed

end
