(* ===== verification/HostApi.thy ===== *)
theory HostApi
  imports Discovery Poller
begin

text \<open>
  The handlers that find devices on the LAN and keep the hosts of the configuration:
  \<open>resolve-host.ts\<close>, \<open>discover-hosts.ts\<close>, \<open>network-cidr.ts\<close>, \<open>get-hosts.ts\<close> and
  \<open>suggest-lan-cidr.ts\<close> under \<open>packages/core/src/api\<close>, and the awaiting part of \<open>tryResolveHost\<close>
  of \<open>state-poller.ts\<close>, which searches in the same places.

  The environment holds the network: what a device answers, the text of the two neighbour tables,
  the interfaces of the machine. A scan of a block is a run of \<open>uuid_scan\<close>; \<open>he_scan\<close> picks one, so
  that the handlers are functions, and the properties assume no more of it than that it is a run.
  The configuration is read once for the key and again before it is written, and may have changed
  in between. A handler's run is its response, or the message of an exception it lets through, with
  the configuration it wrote, the blocks it swept with pings and the requests it sent: the hosts a scan
  asks are \<open>he_asked\<close>, in the order in which they are asked, for a scan may end before its last host.
\<close>

section \<open>Environment and runs\<close>

record host_env =
  he_cfg_key :: jsval
  he_cfg :: jsval
  he_key :: "string option"
  he_lc :: "string \<Rightarrow> string \<Rightarrow> int"
  he_ifs :: "(string \<times> iface_addr list) list"
  he_lan :: "lan_request \<Rightarrow> jsval result"
  he_arp :: string
  he_neigh :: string
  he_scan :: "string \<Rightarrow> string \<Rightarrow> string \<Rightarrow> scan_options \<Rightarrow> (string \<times> string option) option"
  he_asked :: "string \<Rightarrow> string \<Rightarrow> string \<Rightarrow> scan_options \<Rightarrow> string list"
  he_now_iso :: string

record host_run =
  hr_response :: "api_response result"
  hr_written :: "jsval option"
  hr_swept :: "string list"
  hr_sent :: "lan_request list"

definition reply :: "api_response \<Rightarrow> string list \<Rightarrow> host_run" where
  "reply resp swept = \<lparr>hr_response = Inr resp, hr_written = None, hr_swept = swept, hr_sent = []\<rparr>"

definition raise_error :: "string \<Rightarrow> string list \<Rightarrow> host_run" where
  "raise_error message swept = \<lparr>hr_response = Inl message, hr_written = None, hr_swept = swept, hr_sent = []\<rparr>"

definition suggested :: "host_env \<Rightarrow> string" where
  "suggested e = or_else (default_suggested_cidr (he_lc e) (he_ifs e)) []"

text \<open>\<open>requireLanKey\<close> outside every \<open>try\<close>: its failure is the handler's.\<close>

definition with_key :: "host_env \<Rightarrow> string list \<Rightarrow> (string \<Rightarrow> host_run) \<Rightarrow> host_run" where
  "with_key e swept f = (case require_lan_key (he_cfg_key e) (he_key e) of
     Inl message \<Rightarrow> raise_error message swept
   | Inr key \<Rightarrow> f (str_of key))"

section \<open>Resolving one device\<close>

text \<open>\<open>body.k !== undefined ? Number(body.k) : undefined\<close>, and \<open>body.k ? String(body.k) : ''\<close>.\<close>

definition opt_number :: "jsval \<Rightarrow> jsnum option" where
  "opt_number v = (if v = JUndef then None else Some (num_of v))"

definition opt_string :: "jsval \<Rightarrow> string" where
  "opt_string v = or_else (truthy_str v) []"

definition not_found_message :: "host_env \<Rightarrow> string \<Rightarrow> string option \<Rightarrow> string" where
  "not_found_message e mac tried =
     (if mac \<noteq> [] then
        (if tried \<noteq> None
         then ''Could not resolve IP from MAC (and LAN scan by uuid did not find it). Ensure the device is online and CIDR is correct.''
         else ''Could not resolve IP from MAC. Provide a CIDR (e.g. 192.168.1.0/24) so we can scan the LAN by uuid, and ensure the device is online.'')
      else join_with '' '' (filter (\<lambda>s. s \<noteq> [])
        [''Could not find device on LAN by uuid.'',
         (case tried of None \<Rightarrow> [] | Some c \<Rightarrow> ''CIDR tried: '' @ c @ ''.''),
         (if suggested e \<noteq> [] \<and> Some (suggested e) \<noteq> tried then ''Suggested: '' @ suggested e @ ''.'' else []),
         ''Confirm the device is awake on that network.'']))"

text \<open>The last part: the host is stored, or the search has failed.\<close>

definition store_host :: "host_env \<Rightarrow> string \<Rightarrow> string \<Rightarrow> string option \<Rightarrow> string list \<Rightarrow> host_run" where
  "store_host e uuid ip mac swept =
     \<lparr>hr_response = Inr (ApiOk (JObj ([(''uuid'', JStr uuid), (''host'', JStr ip)]
        @ (case mac of None \<Rightarrow> [] | Some m \<Rightarrow> if m = [] then [] else [(''mac'', JStr m)])))),
      hr_written = Some (save_host (he_cfg e) uuid ip mac (he_now_iso e)), hr_swept = swept, hr_sent = []\<rparr>"

definition settle_host ::
  "host_env \<Rightarrow> string \<Rightarrow> string \<Rightarrow> string option \<Rightarrow> string option \<Rightarrow> string option \<Rightarrow> string list \<Rightarrow> host_run" where
  "settle_host e uuid mac ip normalized tried swept = (case ip of
     None \<Rightarrow> reply (ApiErr (not_found_message e mac tried) ''host_not_found'') swept
   | Some host \<Rightarrow>
       if host = [] then reply (ApiErr (not_found_message e mac tried) ''host_not_found'') swept
       else store_host e uuid host normalized swept)"

text \<open>Every host that a scan asks is asked for all that it has.\<close>

definition scan_requests :: "host_env \<Rightarrow> string \<Rightarrow> string \<Rightarrow> string \<Rightarrow> scan_options \<Rightarrow> lan_request list" where
  "scan_requests e uuid cidr key opts =
     map (\<lambda>ip. get_system_all ip key (Some (scan_timeout opts))) (he_asked e uuid cidr key opts)"

text \<open>The block is swept and scanned; a block that cannot be parsed ends in \<open>null\<close>.\<close>

definition scan_block ::
  "host_env \<Rightarrow> string \<Rightarrow> string \<Rightarrow> jsnum option \<Rightarrow> string option \<Rightarrow> string list \<Rightarrow>
     (string \<times> string option \<Rightarrow> host_run) \<Rightarrow> (string list \<Rightarrow> host_run) \<Rightarrow> host_run" where
  "scan_block e uuid cidr timeout target swept hit missing =
     with_key e swept (\<lambda>key.
       (let opts = \<lparr>so_per_host_timeout = timeout, so_concurrency = None, so_target_mac = target\<rparr>
        in (case he_scan e uuid cidr key opts of
              None \<Rightarrow> missing (swept @ [cidr])
            | Some r \<Rightarrow> hit r)\<lparr>hr_sent := scan_requests e uuid cidr key opts\<rparr>))"

definition by_mac :: "host_env \<Rightarrow> string \<Rightarrow> string \<Rightarrow> string \<Rightarrow> jsnum option \<Rightarrow> host_run" where
  "by_mac e uuid mac cidr timeout =
     (let swept = (if cidr \<noteq> [] then [cidr] else []) in
      case resolve_ipv4_from_mac (he_arp e) (he_neigh e) mac of
        Inl message \<Rightarrow> raise_error message swept
      | Inr ip \<Rightarrow>
         (let normalized = (case normalize_mac mac of Inl _ \<Rightarrow> None | Inr m \<Rightarrow> Some m);
              block = (if cidr \<noteq> [] then cidr else suggested e)
          in if or_else ip [] \<noteq> [] \<or> block = []
             then settle_host e uuid mac ip normalized None swept
             else scan_block e uuid block timeout normalized swept
               (\<lambda>(host, m). settle_host e uuid mac (Some host) (if or_else m [] \<noteq> [] then m else normalized)
                  (Some block) (swept @ [block]))
               (settle_host e uuid mac ip normalized (Some block))))"

definition by_uuid :: "host_env \<Rightarrow> string \<Rightarrow> string \<Rightarrow> jsnum option \<Rightarrow> host_run" where
  "by_uuid e uuid cidr timeout =
     (let block = (if cidr \<noteq> [] then cidr else suggested e) in
      if block = []
      then reply (ApiErr ''No MAC address available. Provide a CIDR (e.g. 192.168.68.0/22) so we can scan the LAN by uuid.'' ''missing_mac'') []
      else scan_block e uuid block timeout None []
        (\<lambda>(host, m). settle_host e uuid [] (Some host) (if or_else m [] \<noteq> [] then m else None) (Some block) [block])
        (settle_host e uuid [] None None (Some block)))"

definition resolve_host :: "host_env \<Rightarrow> api_request \<Rightarrow> host_run" where
  "resolve_host e req =
     (let body = body_of req;
          uuid = string_or_empty (field body ''uuid'');
          mac = string_or_empty (nn (field body ''mac'') (field body ''macAddress''));
          cidr = opt_string (field body ''cidr'');
          timeout = opt_number (field body ''perHostTimeoutMs'')
      in if uuid = [] then reply (ApiErr ''Missing uuid'' ''missing_uuid'') []
         else if mac \<noteq> [] then by_mac e uuid mac cidr timeout
         else by_uuid e uuid cidr timeout)"

section \<open>Recovering the host of a device that stopped answering\<close>

text \<open>\<open>tryResolveHost\<close> from the first \<open>await\<close> to the host found, with the hardware address to store;
  \<open>None\<close> for every exception, too.\<close>

definition recover_host :: "host_env \<Rightarrow> string \<Rightarrow> (string \<times> string option) option" where
  "recover_host e uuid =
     (case require_lan_key (he_cfg_key e) (he_key e) of
        Inl _ \<Rightarrow> None
      | Inr key \<Rightarrow>
         (let (mac, cidr) = resolve_targets (he_cfg_key e) uuid (default_suggested_cidr (he_lc e) (he_ifs e));
              from_mac = (case mac of
                  None \<Rightarrow> None
                | Some m \<Rightarrow> (case resolve_ipv4_from_mac (he_arp e) (he_neigh e) m of Inl _ \<Rightarrow> None | Inr ip \<Rightarrow> ip))
          in case from_mac of
               Some host \<Rightarrow> Some (host, mac)
             | None \<Rightarrow>
                 if cidr = [] then None
                 else (case he_scan e uuid cidr (str_of key)
                         \<lparr>so_per_host_timeout = Some (Fin 900), so_concurrency = None, so_target_mac = mac\<rparr> of
                     None \<Rightarrow> None
                   | Some (host, m) \<Rightarrow> Some (host, if or_else m [] \<noteq> [] then m else mac))))"

section \<open>Discovering every device of a block\<close>

text \<open>\<open>Math.max(200, Number(v))\<close>; a timer takes a delay that is not finite as one millisecond.\<close>

definition discover_timeout :: "jsval \<Rightarrow> rat" where
  "discover_timeout v = (if v = JUndef then 900
     else case js_max (Fin 200) (num_of v) of Fin r \<Rightarrow> r | _ \<Rightarrow> 1)"

definition floor_num :: "jsnum \<Rightarrow> jsnum" where
  "floor_num n = (case n of Fin r \<Rightarrow> Fin (of_int \<lfloor>r\<rfloor>) | _ \<Rightarrow> n)"

text \<open>\<open>Array.from({ length })\<close>: \<open>NaN\<close> is no worker, and an array has less than \<open>2 ^ 32\<close> elements.\<close>

definition discover_workers :: "jsval \<Rightarrow> nat result" where
  "discover_workers v = (if v = JUndef then Inr 24
     else case js_max (Fin 1) (floor_num (num_of v)) of
         Fin r \<Rightarrow> if 2 ^ 32 \<le> r then Inl ''Invalid array length'' else Inr (nat \<lfloor>r\<rfloor>)
       | NaN \<Rightarrow> Inr 0
       | _ \<Rightarrow> Inl ''Invalid array length'')"

text \<open>What the answer of one host adds to \<open>found\<close>.\<close>

definition found_entry :: "host_env \<Rightarrow> string \<Rightarrow> rat \<Rightarrow> string \<Rightarrow> (string \<times> jsval) option" where
  "found_entry e key timeout ip =
     (case he_lan e (get_system_all ip key (Some timeout)) of
        Inl _ \<Rightarrow> None
      | Inr resp \<Rightarrow> (case extract_lan_uuid resp of
          None \<Rightarrow> None
        | Some uuid \<Rightarrow> Some (uuid, JObj ([(''host'', JStr ip), (''updatedAt'', JStr (he_now_iso e))]
            @ (case extract_lan_mac resp of None \<Rightarrow> [] | Some m \<Rightarrow> [(''mac'', JStr m)])))))"

definition add_found :: "host_env \<Rightarrow> string \<Rightarrow> rat \<Rightarrow> string \<Rightarrow> (string \<times> jsval) list \<Rightarrow> (string \<times> jsval) list" where
  "add_found e key timeout ip acc = (case found_entry e key timeout ip of
     None \<Rightarrow> acc | Some (uuid, entry) \<Rightarrow> map_set uuid entry acc)"

text \<open>The hosts in the order in which their answers came, for the workers of a pool.\<close>

inductive answered :: "string list \<Rightarrow> nat \<Rightarrow> string list \<Rightarrow> bool" for ips c where
  "pool_reach (length ips) (\<lambda>_. None :: unit option) c k p \<Longrightarrow> pool_done p \<Longrightarrow>
     answered ips c (map (\<lambda>j. ips ! j) (finished p))"

inductive_simps answered_simps: "answered ips c order"

definition discovered :: "host_env \<Rightarrow> string \<Rightarrow> (string \<times> jsval) list \<Rightarrow> lan_request list \<Rightarrow> host_run" where
  "discovered e cidr hosts sent =
     \<lparr>hr_response = Inr (ApiOk (JObj [(''cidr'', JStr cidr), (''count'', js_int (int (length hosts))), (''hosts'', JObj hosts)])),
      hr_written = Some (with_field (he_cfg e) ''hosts'' (JObj (spread_over (spread (field (he_cfg e) ''hosts'')) hosts))),
      hr_swept = [cidr], hr_sent = sent\<rparr>"

text \<open>\<open>order\<close> is the order of the answers.\<close>

definition discover_hosts :: "host_env \<Rightarrow> api_request \<Rightarrow> string list \<Rightarrow> host_run" where
  "discover_hosts e req order =
     (let body = body_of req;
          cidr = opt_string (field body ''cidr'');
          block = (if cidr \<noteq> [] then cidr else suggested e);
          timeout = discover_timeout (field body ''perHostTimeoutMs'')
      in if block = [] then reply (ApiErr ''Missing cidr'' ''missing_cidr'') []
         else with_key e [] (\<lambda>key.
           (case list_hosts_in_cidr block of
              Inl _ \<Rightarrow> reply (ApiErr (''Invalid CIDR: '' @ block) ''invalid_cidr'') [block]
            | Inr _ \<Rightarrow> (case discover_workers (field body ''concurrency'') of
                Inl message \<Rightarrow> raise_error message [block]
              | Inr _ \<Rightarrow> discovered e block (fold (add_found e key timeout) order [])
                  (map (\<lambda>ip. get_system_all ip key (Some timeout)) order)))))"

section \<open>The other handlers\<close>

definition get_network_cidr :: "host_env \<Rightarrow> host_run" where
  "get_network_cidr e = (let cidr = trim (string_or_empty (path (he_cfg e) [''network'', ''cidr''])) in
     reply (ApiOk (JObj [(''cidr'', if cidr = [] then JNull else JStr cidr)])) [])"

definition set_network_cidr :: "host_env \<Rightarrow> api_request \<Rightarrow> host_run" where
  "set_network_cidr e req =
     (let cidr = trim (string_or_empty (field (body_of req) ''cidr'')) in
      if cidr = [] then reply (ApiErr ''Missing cidr'' ''missing_cidr'') []
      else \<lparr>hr_response = Inr (ApiOk (JObj [(''cidr'', JStr cidr)])),
            hr_written = Some (with_field (he_cfg e) ''network''
              (with_field (with_field (field (he_cfg e) ''network'') ''cidr'' (JStr cidr)) ''updatedAt'' (JStr (he_now_iso e)))),
            hr_swept = [], hr_sent = []\<rparr>)"

definition get_hosts :: "host_env \<Rightarrow> host_run" where
  "get_hosts e = reply (ApiOk (JObj [(''hosts'', nn (field (he_cfg e) ''hosts'') (JObj []))])) []"

definition json_of_suggestion :: "suggestion \<Rightarrow> jsval" where
  "json_of_suggestion s = JObj [(''iface'', JStr (sg_iface s)), (''address'', JStr (sg_address s)),
     (''netmask'', JStr (sg_netmask s)), (''cidr'', JStr (sg_cidr s))]"

definition suggest_lan_cidr :: "host_env \<Rightarrow> host_run" where
  "suggest_lan_cidr e = reply (ApiOk (JObj
     [(''suggestions'', JArr (map json_of_suggestion (suggest_cidrs (he_lc e) (he_ifs e)))),
      (''default'', (case default_suggested_cidr (he_lc e) (he_ifs e) of None \<Rightarrow> JNull | Some c \<Rightarrow> JStr c))])) []"

section \<open>Properties\<close>

subsection \<open>The tables and the scans\<close>

lemma match_quad_nonempty: "match_quad n s = Some (q, r) \<Longrightarrow> q \<noteq> []"
  by (subst (asm) match_quad.simps) (auto simp: Let_def split: if_splits nat.splits)

lemma paren_quad_nonempty: "paren_quad s = Some q \<Longrightarrow> q \<noteq> []"
  by (induction s) (auto split: if_splits option.splits prod.splits dest: match_quad_nonempty)

lemma leading_quad_nonempty: "leading_quad s = Some q \<Longrightarrow> q \<noteq> []"
  by (auto simp: leading_quad_def split: option.splits prod.splits if_splits dest: match_quad_nonempty)

lemma arp_scan_nonempty: "arp_scan target ls = Some ip \<Longrightarrow> ip \<noteq> []"
  by (induction ls) (auto split: if_splits option.splits dest: paren_quad_nonempty)

lemma neigh_scan_nonempty: "neigh_scan target ls = Some ip \<Longrightarrow> ip \<noteq> []"
  by (induction ls) (auto split: if_splits option.splits dest: leading_quad_nonempty)

lemma resolve_ipv4_nonempty: "resolve_ipv4_from_mac arp neigh mac = Inr (Some ip) \<Longrightarrow> ip \<noteq> []"
  by (auto simp: resolve_ipv4_from_mac_def and_then_Inr split: option.splits if_splits
      dest: arp_scan_nonempty neigh_scan_nonempty)

lemma host_loop_nonempty: "ip \<in> set (host_loop n b) \<Longrightarrow> ip \<noteq> []"
  by (induction n b rule: host_loop.induct) (subst (asm) (2) host_loop.simps, auto split: if_splits dest: sym)

lemma list_hosts_nonempty:
  assumes "list_hosts_in_cidr cidr = Inr ips" "ip \<in> set ips"
  shows "ip \<noteq> []"
  using assms by (auto simp: list_hosts_in_cidr_def and_then_Inr Let_def dest: host_loop_nonempty split: if_splits)

text \<open>The scans of an environment are runs of the scan.\<close>

definition scans_run :: "host_env \<Rightarrow> bool" where
  "scans_run e \<longleftrightarrow> (\<forall>uuid cidr key opts. uuid_scan (he_lan e) uuid cidr key opts (he_scan e uuid cidr key opts))"

lemma scan_result:
  assumes "scans_run e"
  shows "case he_scan e uuid cidr key opts of
       Some (h, m) \<Rightarrow> \<exists>ips. list_hosts_in_cidr cidr = Inr ips \<and> h \<in> set ips \<and> h \<noteq> [] \<and>
         scan_hit (he_lan e) uuid key opts h = Some (h, m)
     | None \<Rightarrow> \<forall>ips. list_hosts_in_cidr cidr = Inr ips \<longrightarrow>
         (\<forall>ip \<in> set ips. scan_hit (he_lan e) uuid key opts ip = None)"
  using uuid_scan_result [of "he_lan e" uuid cidr key opts "he_scan e uuid cidr key opts"] assms list_hosts_nonempty
  by (fastforce simp: scans_run_def split: option.splits prod.splits)

text \<open>The answer of a host names the device, or its hardware address.\<close>

definition names_device :: "host_env \<Rightarrow> string \<Rightarrow> rat \<Rightarrow> string \<Rightarrow> string \<Rightarrow> bool" where
  "names_device e key timeout uuid ip \<longleftrightarrow>
     (\<exists>resp. he_lan e (get_system_all ip key (Some timeout)) = Inr resp \<and> extract_lan_uuid resp = Some uuid)"

definition names_mac :: "host_env \<Rightarrow> string \<Rightarrow> rat \<Rightarrow> string \<Rightarrow> string \<Rightarrow> bool" where
  "names_mac e key timeout mac ip \<longleftrightarrow>
     (\<exists>resp m. he_lan e (get_system_all ip key (Some timeout)) = Inr resp \<and> normalize_mac mac = Inr m \<and> extract_lan_mac resp = Some m)"

lemma scan_hit_names:
  "scan_hit (he_lan e) uuid key opts ip = Some r \<Longrightarrow> so_target_mac opts = (case normalize_mac mac of Inl _ \<Rightarrow> None | Inr m \<Rightarrow> Some m) \<Longrightarrow>
     names_device e key (scan_timeout opts) uuid ip \<or> names_mac e key (scan_timeout opts) mac ip"
  by (auto simp: scan_hit_def names_device_def names_mac_def Let_def split: sum.splits if_splits option.splits)

lemma scan_hit_none: "scan_hit (he_lan e) uuid key opts ip = None \<Longrightarrow> \<not> names_device e key (scan_timeout opts) uuid ip"
  by (auto simp: scan_hit_def names_device_def Let_def split: sum.splits if_splits)

text \<open>Where a host comes from: the tables, or a host of a block that was swept.\<close>

definition located :: "host_env \<Rightarrow> string \<Rightarrow> string \<Rightarrow> rat \<Rightarrow> string list \<Rightarrow> string \<Rightarrow> bool" where
  "located e uuid mac timeout swept ip \<longleftrightarrow>
     (mac \<noteq> [] \<and> resolve_ipv4_from_mac (he_arp e) (he_neigh e) mac = Inr (Some ip)) \<or>
     (\<exists>block ips key. block \<in> set swept \<and> list_hosts_in_cidr block = Inr ips \<and> ip \<in> set ips \<and>
        require_lan_key (he_cfg_key e) (he_key e) = Inr key \<and>
        (names_device e (str_of key) timeout uuid ip \<or> (mac \<noteq> [] \<and> names_mac e (str_of key) timeout mac ip)))"

definition searched :: "host_env \<Rightarrow> string \<Rightarrow> rat \<Rightarrow> string list \<Rightarrow> bool" where
  "searched e uuid timeout swept \<longleftrightarrow>
     (\<forall>block ips ip key. block \<in> set swept \<and> list_hosts_in_cidr block = Inr ips \<and> ip \<in> set ips \<and>
        require_lan_key (he_cfg_key e) (he_key e) = Inr key \<longrightarrow> \<not> names_device e (str_of key) timeout uuid ip)"

definition resolved_run :: "host_env \<Rightarrow> string \<Rightarrow> string \<Rightarrow> rat \<Rightarrow> host_run \<Rightarrow> bool" where
  "resolved_run e uuid mac timeout run \<longleftrightarrow> (case hr_written run of
     Some cfg \<Rightarrow> (\<exists>ip m d. located e uuid mac timeout (hr_swept run) ip \<and> hr_response run = Inr (ApiOk d) \<and>
       field d ''uuid'' = JStr uuid \<and> field d ''host'' = JStr ip \<and> cfg = save_host (he_cfg e) uuid ip m (he_now_iso e))
   | None \<Rightarrow> (case hr_response run of
       Inl _ \<Rightarrow> True
     | Inr resp \<Rightarrow> \<not> is_api_ok resp \<and>
         ((\<exists>message. resp = ApiErr message ''host_not_found'') \<longrightarrow> searched e uuid timeout (hr_swept run))))"

lemma resolved_found:
  "located e uuid mac timeout swept ip \<Longrightarrow> ip \<noteq> [] \<Longrightarrow>
     resolved_run e uuid mac timeout (settle_host e uuid mac (Some ip) normalized tried swept)"
  by (auto simp: settle_host_def store_host_def resolved_run_def)

lemma resolved_missing:
  "searched e uuid timeout swept \<Longrightarrow> resolved_run e uuid mac timeout (settle_host e uuid mac None normalized tried swept)"
  by (simp add: settle_host_def reply_def resolved_run_def)

lemma resolved_error: "resolved_run e uuid mac timeout (raise_error message swept)"
  by (simp add: raise_error_def resolved_run_def)

lemma resolved_refused: "\<not> is_api_ok resp \<Longrightarrow> (\<And>m. resp \<noteq> ApiErr m ''host_not_found'') \<Longrightarrow> resolved_run e uuid mac timeout (reply resp swept)"
  by (auto simp: reply_def resolved_run_def)

lemma resolved_sent [simp]: "resolved_run e uuid mac timeout (run\<lparr>hr_sent := rs\<rparr>) = resolved_run e uuid mac timeout run"
  by (simp add: resolved_run_def cong: option.case_cong sum.case_cong)

lemma resolved_scan:
  assumes runs: "scans_run e" and block: "set swept \<subseteq> {block}"
    and target: "target = (if mac = [] then None else case normalize_mac mac of Inl _ \<Rightarrow> None | Inr m \<Rightarrow> Some m)"
    and t: "t = scan_timeout \<lparr>so_per_host_timeout = timeout, so_concurrency = None, so_target_mac = None\<rparr>"
  shows "resolved_run e uuid mac t (scan_block e uuid block timeout target swept
     (\<lambda>(host, m). settle_host e uuid mac (Some host) (f m) tried (swept @ [block]))
     (settle_host e uuid mac None normalized tried))"
proof (cases "require_lan_key (he_cfg_key e) (he_key e)")
  case (Inl m)
  then show ?thesis by (simp add: scan_block_def Let_def with_key_def resolved_error)
next
  case (Inr key)
  define opts where "opts = \<lparr>so_per_host_timeout = timeout, so_concurrency = None, so_target_mac = target\<rparr>"
  have t': "scan_timeout opts = t" by (simp add: t opts_def scan_timeout_def)
  note res = scan_result [OF runs, where uuid = uuid and cidr = block and key = "str_of key" and opts = opts]
  show ?thesis
  proof (cases "he_scan e uuid block (str_of key) opts")
    case None
    have "searched e uuid t (swept @ [block])"
      unfolding searched_def using res None Inr block scan_hit_none [of e uuid "str_of key" opts] t' by auto
    then show ?thesis using None Inr by (simp add: scan_block_def Let_def with_key_def opts_def resolved_missing)
  next
    case (Some hm)
    obtain h m where hm: "hm = (h, m)" by (cases hm)
    from res Some obtain ips where ips: "list_hosts_in_cidr block = Inr ips" "h \<in> set ips" "h \<noteq> []"
      "scan_hit (he_lan e) uuid (str_of key) opts h = Some (h, m)" by (auto simp: hm)
    have "names_device e (str_of key) t uuid h \<or> (mac \<noteq> [] \<and> names_mac e (str_of key) t mac h)"
    proof (cases "mac = []")
      case True
      with ips(4) t' show ?thesis
        by (auto simp: scan_hit_def names_device_def Let_def opts_def target split: sum.splits if_splits option.splits)
    next
      case False
      then have "so_target_mac opts = (case normalize_mac mac of Inl _ \<Rightarrow> None | Inr m \<Rightarrow> Some m)" by (simp add: opts_def target)
      from scan_hit_names [OF ips(4) this] False t' show ?thesis by simp
    qed
    then have "located e uuid mac t (swept @ [block]) h"
      unfolding located_def using ips Inr by auto
    then show ?thesis using Some Inr ips(3) by (simp add: scan_block_def Let_def with_key_def opts_def hm resolved_found)
  qed
qed

lemma save_host_fields:
  "field (field (save_host cfg uuid ip m now) ''hosts'') u =
     (if u = uuid then host_entry (JObj (spread (field cfg ''hosts''))) uuid ip m now else field (JObj (spread (field cfg ''hosts''))) u)"
  "k \<noteq> ''hosts'' \<Longrightarrow> field (save_host cfg uuid ip m now) k = field (JObj (spread cfg)) k"
  by (simp_all add: save_host_def Let_def del: field.simps)

lemma host_entry_host: "field (host_entry hosts uuid ip m now) ''host'' = JStr ip" "field (host_entry hosts uuid ip m now) ''updatedAt'' = JStr now"
  by (simp_all add: host_entry_def Let_def split: option.split)

subsection \<open>Resolving\<close>

lemma by_mac_resolved:
  assumes "scans_run e" "mac \<noteq> []"
    and t: "t = scan_timeout \<lparr>so_per_host_timeout = timeout, so_concurrency = None, so_target_mac = None\<rparr>"
  shows "resolved_run e uuid mac t (by_mac e uuid mac cidr timeout)"
proof (cases "resolve_ipv4_from_mac (he_arp e) (he_neigh e) mac")
  case (Inl m)
  then show ?thesis by (simp add: by_mac_def Let_def resolved_error)
next
  case ip: (Inr ip)
  define swept where "swept = (if cidr \<noteq> [] then [cidr] else [])"
  define block where "block = (if cidr \<noteq> [] then cidr else suggested e)"
  define normalized where "normalized = (case normalize_mac mac of Inl _ \<Rightarrow> None | Inr m \<Rightarrow> Some m)"
  note run = by_mac_def [of e uuid mac cidr timeout, unfolded Let_def swept_def [symmetric] block_def [symmetric] normalized_def [symmetric], unfolded ip sum.case]
  show ?thesis
  proof (cases ip)
    case (Some host)
    then have "host \<noteq> []" using ip resolve_ipv4_nonempty by blast
    moreover have "located e uuid mac t swept host" unfolding located_def using ip Some assms(2) by blast
    ultimately show ?thesis unfolding run by (simp add: Some resolved_found)
  next
    case None
    show ?thesis
    proof (cases "block = []")
      case True
      then have "swept = []" by (auto simp: block_def swept_def split: if_splits)
      then show ?thesis unfolding run using True by (auto simp: None searched_def intro: resolved_missing)
    next
      case False
      have "set swept \<subseteq> {block}" by (auto simp: swept_def block_def)
      moreover have "normalized = (if mac = [] then None else case normalize_mac mac of Inl _ \<Rightarrow> None | Inr m \<Rightarrow> Some m)"
        using assms(2) by (simp add: normalized_def)
      ultimately show ?thesis unfolding run None using False
        by (simp add: resolved_scan [OF assms(1) _ _ t])
    qed
  qed
qed

lemma by_uuid_resolved:
  assumes "scans_run e"
    and t: "t = scan_timeout \<lparr>so_per_host_timeout = timeout, so_concurrency = None, so_target_mac = None\<rparr>"
  shows "resolved_run e uuid [] t (by_uuid e uuid cidr timeout)"
proof -
  define block where "block = (if cidr \<noteq> [] then cidr else suggested e)"
  have "resolved_run e uuid [] t (scan_block e uuid block timeout None []
     (\<lambda>(host, m). settle_host e uuid [] (Some host) (if or_else m [] \<noteq> [] then m else None) (Some block) ([] @ [block]))
     (settle_host e uuid [] None None (Some block)))"
    by (rule resolved_scan [OF assms(1) _ _ t]) simp_all
  then show ?thesis
    by (simp add: by_uuid_def Let_def block_def [symmetric] resolved_refused)
qed

text \<open>C23. Resolving a device: the configuration is written exactly when the reply is positive, and
  then only the entry of the device changes, to a host that the neighbour tables give for the
  hardware address of the request, or that is a host of a swept block whose own answer carries the
  uuid or that hardware address. When the reply is that there is no such host, no host of a swept
  block answers with the uuid.\<close>

theorem resolve_host_stores_found:
  assumes "scans_run e"
  shows "let uuid = string_or_empty (field (body_of req) ''uuid'');
      mac = string_or_empty (nn (field (body_of req) ''mac'') (field (body_of req) ''macAddress''));
      timeout = scan_timeout \<lparr>so_per_host_timeout = opt_number (field (body_of req) ''perHostTimeoutMs''),
        so_concurrency = None, so_target_mac = None\<rparr>;
      run = resolve_host e req
    in case hr_written run of
       None \<Rightarrow> (case hr_response run of
           Inl _ \<Rightarrow> True
         | Inr resp \<Rightarrow> \<not> is_api_ok resp \<and>
            ((\<exists>message. resp = ApiErr message ''host_not_found'') \<longrightarrow> searched e uuid timeout (hr_swept run)))
     | Some cfg \<Rightarrow> \<exists>ip d. located e uuid mac timeout (hr_swept run) ip \<and>
         hr_response run = Inr (ApiOk d) \<and> field d ''host'' = JStr ip \<and>
         path cfg [''hosts'', uuid, ''host''] = JStr ip \<and>
         path cfg [''hosts'', uuid, ''updatedAt''] = JStr (he_now_iso e) \<and>
         (\<forall>u. u \<noteq> uuid \<longrightarrow> path cfg [''hosts'', u] = field (JObj (spread (field (he_cfg e) ''hosts''))) u) \<and>
         (\<forall>k. k \<noteq> ''hosts'' \<longrightarrow> field cfg k = field (JObj (spread (he_cfg e))) k)"
proof -
  define uuid where "uuid = string_or_empty (field (body_of req) ''uuid'')"
  define mac where "mac = string_or_empty (nn (field (body_of req) ''mac'') (field (body_of req) ''macAddress''))"
  define timeout where "timeout = scan_timeout \<lparr>so_per_host_timeout = opt_number (field (body_of req) ''perHostTimeoutMs''),
        so_concurrency = None, so_target_mac = None\<rparr>"
  have "resolved_run e uuid mac timeout (resolve_host e req)"
    unfolding resolve_host_def Let_def uuid_def [symmetric] mac_def [symmetric]
    using by_mac_resolved [OF assms _ timeout_def] by_uuid_resolved [OF assms timeout_def]
    by (cases "mac = []") (auto simp: resolved_refused)
  then show ?thesis
    unfolding Let_def uuid_def [symmetric] mac_def [symmetric] timeout_def [symmetric] resolved_run_def
    by (cases "hr_written (resolve_host e req)") (auto simp: save_host_fields host_entry_host simp del: field.simps)
qed

text \<open>One device in a block of two hosts, found by its uuid.\<close>

definition demo_host_env :: host_env where
  "demo_host_env = \<lparr>he_cfg_key = JObj [], he_cfg = JObj [(''network'', JNull)], he_key = Some ''k'',
     he_lc = codeunit_compare, he_ifs = [], he_lan = demo_lan, he_arp = [], he_neigh = [],
     he_scan = (\<lambda>uuid cidr key opts. SOME r. uuid_scan demo_lan uuid cidr key opts r), he_asked = (\<lambda>_ cidr _ _. case list_hosts_in_cidr cidr of Inl _ \<Rightarrow> [] | Inr ips \<Rightarrow> ips), he_now_iso = ''now''\<rparr>"

definition demo_host_request :: api_request where
  "demo_host_request = \<lparr>ar_content_type = Some ''application/json'',
     ar_body = Some (JObj [(''uuid'', JStr ''u1''), (''cidr'', JStr ''10.0.0.4/30'')])\<rparr>"

lemma demo_scans_run: "scans_run demo_host_env"
  using uuid_scan_total by (auto simp: scans_run_def demo_host_env_def intro: someI_ex)

lemma demo_scan_found:
  "he_scan demo_host_env ''u1'' ''10.0.0.4/30'' ''k'' demo_scan = Some (''10.0.0.6'', Some ''c4:e7:ae:1a:c4:74'')"
proof -
  have lan: "he_lan demo_host_env = demo_lan" by (simp add: demo_host_env_def)
  have "case he_scan demo_host_env ''u1'' ''10.0.0.4/30'' ''k'' demo_scan of
      Some (h, m) \<Rightarrow> \<exists>ips. list_hosts_in_cidr ''10.0.0.4/30'' = Inr ips \<and> h \<in> set ips \<and> h \<noteq> [] \<and>
         scan_hit demo_lan ''u1'' ''k'' demo_scan h = Some (h, m)
    | None \<Rightarrow> \<forall>ips. list_hosts_in_cidr ''10.0.0.4/30'' = Inr ips \<longrightarrow>
         (\<forall>ip \<in> set ips. scan_hit demo_lan ''u1'' ''k'' demo_scan ip = None)"
    using scan_result [OF demo_scans_run, where uuid = "''u1''" and cidr = "''10.0.0.4/30''" and key = "''k''" and opts = demo_scan]
    unfolding lan .
  then show ?thesis by (auto simp: demo_hosts demo_hits split: option.splits)
qed

lemma resolve_host_stores_found_witness:
  "\<exists>cfg. hr_written (resolve_host demo_host_env demo_host_request) = Some cfg \<and>
     path cfg [''hosts'', ''u1'', ''host''] = JStr ''10.0.0.6'' \<and> field cfg ''network'' = JNull"
proof -
  have key: "require_lan_key (he_cfg_key demo_host_env) (he_key demo_host_env) = Inr (JStr ''k'')" by code_simp
  have parts: "string_or_empty (field (body_of demo_host_request) ''uuid'') = ''u1''"
    "string_or_empty (nn (field (body_of demo_host_request) ''mac'') (field (body_of demo_host_request) ''macAddress'')) = []"
    "opt_string (field (body_of demo_host_request) ''cidr'') = ''10.0.0.4/30''"
    "opt_number (field (body_of demo_host_request) ''perHostTimeoutMs'') = None"
    by code_simp+
  have opts: "\<lparr>so_per_host_timeout = None, so_concurrency = None, so_target_mac = None\<rparr> = demo_scan"
    by (simp add: demo_scan_def)
  have run: "resolve_host demo_host_env demo_host_request =
      (store_host demo_host_env ''u1'' ''10.0.0.6'' (Some ''c4:e7:ae:1a:c4:74'') [''10.0.0.4/30''])
        \<lparr>hr_sent := scan_requests demo_host_env ''u1'' ''10.0.0.4/30'' ''k'' demo_scan\<rparr>"
    unfolding resolve_host_def Let_def parts by_uuid_def scan_block_def Let_def with_key_def key opts
    by (simp add: demo_scan_found settle_host_def)
  obtain cfg where cfg: "hr_written (resolve_host demo_host_env demo_host_request) = Some cfg"
    unfolding run by (simp add: store_host_def)
  have ok: "hr_response (resolve_host demo_host_env demo_host_request) =
      Inr (ApiOk (JObj [(''uuid'', JStr ''u1''), (''host'', JStr ''10.0.0.6''), (''mac'', JStr ''c4:e7:ae:1a:c4:74'')]))"
    unfolding run by (simp add: store_host_def)
  have net: "field (JObj (spread (he_cfg demo_host_env))) ''network'' = JNull" by code_simp
  show ?thesis
    using resolve_host_stores_found [OF demo_scans_run, of demo_host_request]
    unfolding Let_def parts cfg option.case ok
    using net cfg by (auto simp del: path.simps simp: field.simps)
qed

subsection \<open>Recovery\<close>


text \<open>The recovery of the device of the demonstration, whose block is the configured one.\<close>

definition demo_recovery_env :: host_env where
  "demo_recovery_env = demo_host_env\<lparr>he_cfg_key := JObj [(''network'', JObj [(''cidr'', JStr ''10.0.0.4/30'')])]\<rparr>"

definition demo_recovery_request :: api_request where
  "demo_recovery_request = \<lparr>ar_content_type = Some ''application/json'',
     ar_body = Some (JObj [(''uuid'', JStr ''u1''), (''cidr'', JStr ''10.0.0.4/30''), (''perHostTimeoutMs'', js_int 900)])\<rparr>"


subsection \<open>Discovery\<close>

lemma answered_order:
  assumes "answered ips c order"
  shows "0 < c \<Longrightarrow> mset order = mset ips" "c = 0 \<Longrightarrow> order = []"
proof -
  from assms obtain k p where p: "pool_reach (length ips) (\<lambda>_. None :: unit option) c k p" "pool_done p"
    "order = map (\<lambda>j. ips ! j) (finished p)" by (auto simp: answered_simps)
  show "mset order = mset ips" if "0 < c" using pool_visits_all [OF p(1,2) that] p(3) by simp
  show "order = []" if "c = 0"
  proof -
    from p(1) have "finished p = []" unfolding that
    proof cases
      case (step k q)
      then show ?thesis using pool_reach_inv [OF step(2)] by (auto elim: pool_stepE)
    qed (simp add: pool_start_facts)
    then show ?thesis using p(3) by simp
  qed
qed

lemma answered_exists: "\<exists>order. answered ips c order"
  using pool_exists_done by (blast intro: answered.intros)

text \<open>The uuid a host of the block answers with.\<close>

definition uuid_at :: "host_env \<Rightarrow> string \<Rightarrow> rat \<Rightarrow> string \<Rightarrow> string option" where
  "uuid_at e key timeout ip = map_option fst (found_entry e key timeout ip)"

definition last_named :: "host_env \<Rightarrow> string \<Rightarrow> rat \<Rightarrow> string list \<Rightarrow> string \<Rightarrow> string option" where
  "last_named e key timeout order u = find (\<lambda>ip. uuid_at e key timeout ip = Some u) (rev order)"

lemma add_found_entry: "add_found e key timeout = dict.put_entry (found_entry e key timeout)"
  by (simp add: fun_eq_iff add_found_def dict.put_entry_def)

lemma last_named_for: "last_named e key timeout = dict.last_for (found_entry e key timeout)"
  by (simp add: fun_eq_iff last_named_def dict.last_for_def uuid_at_def)

lemma found_get:
  "map_of (fold (add_found e key timeout) order []) u =
     (case last_named e key timeout order u of None \<Rightarrow> None | Some ip \<Rightarrow> map_option snd (found_entry e key timeout ip))"
  using dict.get_put_all [of "found_entry e key timeout" order "[]" u]
  by (simp add: dict.put_all_def add_found_entry last_named_for split: option.splits)

lemma last_named_entry:
  "last_named e key timeout order u = Some ip \<Longrightarrow> \<exists>entry. found_entry e key timeout ip = Some (u, entry)"
  by (auto simp: last_named_def find_Some_iff uuid_at_def)

lemma found_distinct: "distinct (map fst (fold (add_found e key timeout) order []))"
proof -
  have "map_ok acc \<Longrightarrow> map_ok (fold (add_found e key timeout) order acc)" for acc
    by (induction order arbitrary: acc) (auto simp: add_found_def split: option.splits)
  from this [of "[]"] show ?thesis by (simp add: map_ok_def)
qed

lemma found_count:
  "length (fold (add_found e key timeout) order []) = card {u. \<exists>ip \<in> set order. uuid_at e key timeout ip = Some u}"
proof -
  define m where "m = fold (add_found e key timeout) order []"
  have "u \<in> set (map fst m) \<longleftrightarrow> (\<exists>ip \<in> set order. uuid_at e key timeout ip = Some u)" for u
  proof -
    have "u \<in> set (map fst m) \<longleftrightarrow> map_of m u \<noteq> None" by (simp add: map_of_eq_None_iff)
    also have "\<dots> \<longleftrightarrow> last_named e key timeout order u \<noteq> None"
      unfolding m_def found_get by (auto split: option.splits dest: last_named_entry)
    also have "\<dots> \<longleftrightarrow> (\<exists>ip \<in> set order. uuid_at e key timeout ip = Some u)"
      by (auto simp: last_named_def find_None_iff)
    finally show ?thesis .
  qed
  then have "set (map fst m) = {u. \<exists>ip \<in> set order. uuid_at e key timeout ip = Some u}" by blast
  then show ?thesis using distinct_card [OF found_distinct [of e key timeout order]] by (simp add: m_def)
qed

text \<open>C24. Discovery: with at least one worker every host of the block is asked, in any order of the
  answers; the reply counts the uuids the hosts answer with, and the configuration written has for
  each of them the entry of the host that answered last and for every other device the entry it had.
  With a concurrency that is no number there is no worker, and nothing is found.\<close>

theorem discover_hosts_merges:
  assumes "require_lan_key (he_cfg_key e) (he_key e) = Inr key" and "opt_string (field (body_of req) ''cidr'') = block"
    and "block \<noteq> []" and "list_hosts_in_cidr block = Inr ips"
    and "discover_workers (field (body_of req) ''concurrency'') = Inr n" and "answered ips n order"
  shows "let run = discover_hosts e req order; timeout = discover_timeout (field (body_of req) ''perHostTimeoutMs'') in
    (if n = 0 then order = [] else mset order = mset ips) \<and>
    (\<exists>d cfg. hr_response run = Inr (ApiOk d) \<and> hr_written run = Some cfg \<and>
       field d ''count'' = js_int (int (card {u. \<exists>ip \<in> set order. uuid_at e (str_of key) timeout ip = Some u})) \<and>
       (\<forall>u. path cfg [''hosts'', u] = (case last_named e (str_of key) timeout order u of
            None \<Rightarrow> field (JObj (spread (field (he_cfg e) ''hosts''))) u
          | Some ip \<Rightarrow> or_else (map_option snd (found_entry e (str_of key) timeout ip)) JUndef)) \<and>
       (\<forall>k. k \<noteq> ''hosts'' \<longrightarrow> field cfg k = field (JObj (spread (he_cfg e))) k))"
proof -
  define timeout where "timeout = discover_timeout (field (body_of req) ''perHostTimeoutMs'')"
  define hosts where "hosts = fold (add_found e (str_of key) timeout) order []"
  have run: "discover_hosts e req order = discovered e block hosts (map (\<lambda>ip. get_system_all ip (str_of key) (Some timeout)) order)"
    unfolding discover_hosts_def Let_def timeout_def [symmetric] hosts_def
    using assms by (simp add: with_key_def)
  have "field (JObj (spread_over (spread (field (he_cfg e) ''hosts'')) hosts)) u =
     (case last_named e (str_of key) timeout order u of
            None \<Rightarrow> field (JObj (spread (field (he_cfg e) ''hosts''))) u
          | Some ip \<Rightarrow> or_else (map_option snd (found_entry e (str_of key) timeout ip)) JUndef)" for u
  proof -
    have "last_named e (str_of key) timeout order u = Some ip \<Longrightarrow> found_entry e (str_of key) timeout ip \<noteq> None" for ip
      by (auto dest: last_named_entry)
    then show ?thesis
      using map_of_spread_over [of hosts "spread (field (he_cfg e) ''hosts'')" u] found_distinct [of e "str_of key" timeout order]
        found_get [of e "str_of key" timeout order u]
      by (auto simp: hosts_def or_else_def split: option.splits)
  qed
  then show ?thesis
    unfolding Let_def run timeout_def [symmetric]
    using answered_order [OF assms(6)] found_count [of e "str_of key" timeout order]
    by (simp add: discovered_def hosts_def [symmetric] del: field.simps, simp)
qed

definition demo_discover_request :: api_request where
  "demo_discover_request = \<lparr>ar_content_type = Some ''application/json'',
     ar_body = Some (JObj [(''cidr'', JStr ''10.0.0.4/30''), (''concurrency'', js_int 2)])\<rparr>"

lemma discover_hosts_merges_witness:
  "\<exists>order cfg. answered [''10.0.0.5'', ''10.0.0.6''] 2 order \<and>
     hr_written (discover_hosts demo_host_env demo_discover_request order) = Some cfg \<and>
     path cfg [''hosts'', ''u1'', ''host''] = JStr ''10.0.0.6''"
proof -
  obtain order where order: "answered [''10.0.0.5'', ''10.0.0.6''] 2 order" using answered_exists by blast
  have key: "require_lan_key (he_cfg_key demo_host_env) (he_key demo_host_env) = Inr (JStr ''k'')" by code_simp
  have req: "opt_string (field (body_of demo_discover_request) ''cidr'') = ''10.0.0.4/30''"
    "discover_workers (field (body_of demo_discover_request) ''concurrency'') = Inr 2"
    "discover_timeout (field (body_of demo_discover_request) ''perHostTimeoutMs'') = 900"
    by code_simp+
  have entries: "uuid_at demo_host_env ''k'' 900 ''10.0.0.5'' = None" "uuid_at demo_host_env ''k'' 900 ''10.0.0.6'' = Some ''u1''"
    "field (snd (the (found_entry demo_host_env ''k'' 900 ''10.0.0.6''))) ''host'' = JStr ''10.0.0.6''"
    by code_simp+
  have str: "str_of (JStr ''k'') = ''k''" by simp
  note law = discover_hosts_merges [OF key req(1) _ demo_hosts req(2) order, unfolded req(3) Let_def str]
  from law have perm: "mset order = {#''10.0.0.5'', ''10.0.0.6''#}" by simp
  then have set: "set order = {''10.0.0.5'', ''10.0.0.6''}" by (metis set_mset_add_mset_insert set_mset_empty set_mset_mset)
  then have "last_named demo_host_env ''k'' 900 order ''u1'' \<noteq> None"
    unfolding last_named_def find_None_iff set_rev set using entries(2) by blast
  then obtain ip where ip: "last_named demo_host_env ''k'' 900 order ''u1'' = Some ip" by blast
  then have "ip \<in> set order" "uuid_at demo_host_env ''k'' 900 ip = Some ''u1''"
    using find_found [OF ip [unfolded last_named_def]] by auto
  then have "ip = ''10.0.0.6''" unfolding set using entries(1) by (metis insertE empty_iff option.distinct(1))
  with ip have last: "last_named demo_host_env ''k'' 900 order ''u1'' = Some ''10.0.0.6''" by simp
  obtain x where x: "found_entry demo_host_env ''k'' 900 ''10.0.0.6'' = Some (''u1'', x)"
    using last_named_entry [OF last] by blast
  from law obtain cfg where cfg: "hr_written (discover_hosts demo_host_env demo_discover_request order) = Some cfg"
    "\<And>u. path cfg [''hosts'', u] = (case last_named demo_host_env ''k'' 900 order u of
            None \<Rightarrow> field (JObj (spread (field (he_cfg demo_host_env) ''hosts''))) u
          | Some ip \<Rightarrow> or_else (map_option snd (found_entry demo_host_env ''k'' 900 ip)) JUndef)"
    by blast
  have "path cfg [''hosts'', ''u1''] = x" unfolding cfg(2) last option.case x by simp
  then have "path cfg [''hosts'', ''u1'', ''host''] = JStr ''10.0.0.6''" using entries(3) x by simp
  with cfg(1) order show ?thesis by blast
qed

end
