(* ===== verification/CloudApi.thy ===== *)
theory CloudApi
  imports Cloud Config
begin

text \<open>
  The handlers around the cloud account, \<open>login-cloud.ts\<close>, \<open>refresh-cloud-devices.ts\<close>,
  \<open>get-cloud-creds.ts\<close>, \<open>get-cloud-devices.ts\<close> and \<open>get-status.ts\<close> under
  \<open>packages/core/src/api\<close>, with \<open>summarizeCloud\<close> and \<open>inferMfaRequired\<close> of \<open>shared.ts\<close>.

  A handler's run holds the reply with its HTTP status, or the message of an exception it lets
  through, the configuration it wrote, the requests sent to the cloud and the lines of the debug log.
\<close>

section \<open>Environment and runs\<close>

record account_env =
  ca_cfg :: jsval
  ca_path :: string
  ca_cloud :: cloud_env
  ca_debug :: "string option"
  ca_request_id :: string
  ca_elapsed :: int
  ca_now_iso :: string

record account_run =
  cn_reply :: "(nat \<times> api_response) result"
  cn_written :: "jsval option"
  cn_calls :: "cloud_call list"
  cn_log :: "(string \<times> jsval) list"

definition just_reply :: "nat \<Rightarrow> api_response \<Rightarrow> account_run" where
  "just_reply status resp = \<lparr>cn_reply = Inr (status, resp), cn_written = None, cn_calls = [], cn_log = []\<rparr>"

section \<open>Summaries of the account\<close>

text \<open>\<open>v.slice(0, 4)\<close> and \<open>v.slice(-4)\<close> around the ellipsis, as a pair.\<close>

definition redacted :: "jsval \<Rightarrow> jsval result" where
  "redacted token = (if \<not> truthy token then Inr (JStr [])
     else case token of
         JStr s \<Rightarrow> (case redact_token s of None \<Rightarrow> Inr (JStr []) | Some (a, b) \<Rightarrow> Inr (JArr [JStr a, JStr b]))
       | JArr vs \<Rightarrow> Inr (JArr [JStr (str_of (JArr (take 4 vs))), JStr (str_of (JArr (drop (length vs - 4) vs)))])
       | _ \<Rightarrow> Inl ''cloud.token.slice is not a function'')"

definition summarize_cloud :: "jsval \<Rightarrow> jsval result" where
  "summarize_cloud cloud = and_then (redacted (field cloud ''token'')) (\<lambda>token. Inr (JObj
     [(''domain'', field cloud ''domain''), (''mqttDomain'', field cloud ''mqttDomain''), (''userId'', field cloud ''userId''),
      (''userEmail'', field cloud ''userEmail''), (''key'', field cloud ''key''), (''tokenRedacted'', token)]))"

text \<open>\<open>(e.info ?? '').toLowerCase()\<close> throws unless the information is a string or missing.\<close>

definition infer_mfa_required :: "cloud_error \<Rightarrow> bool result" where
  "infer_mfa_required e = (case e of
     OtherError _ \<Rightarrow> Inr False
   | CloudError _ _ raw \<Rightarrow> (case nn raw (JStr []) of
       JStr s \<Rightarrow> (let info = to_lower s in
         Inr (str_includes ''mfa'' info \<or> str_includes ''totp'' info \<or> str_includes ''verify'' info \<or> str_includes ''verification'' info))
     | _ \<Rightarrow> Inl ''toLowerCase is not a function''))"

definition get_cloud_creds :: "account_env \<Rightarrow> account_run" where
  "get_cloud_creds e =
     (if \<not> truthy (field (ca_cfg e) ''cloud'') then just_reply 200 (ApiOk (JObj [(''cloud'', JNull)]))
      else case summarize_cloud (field (ca_cfg e) ''cloud'') of
          Inl message \<Rightarrow> \<lparr>cn_reply = Inl message, cn_written = None, cn_calls = [], cn_log = []\<rparr>
        | Inr cloud \<Rightarrow> just_reply 200 (ApiOk (JObj [(''cloud'', cloud)])))"

definition get_cloud_devices :: "account_env \<Rightarrow> account_run" where
  "get_cloud_devices e = just_reply 200 (ApiOk (JObj
     [(''updatedAt'', nn (path (ca_cfg e) [''devices'', ''updatedAt'']) JNull),
      (''list'', nn (path (ca_cfg e) [''devices'', ''list'']) (JArr []))]))"

text \<open>\<open>Boolean(v?.length)\<close>\<close>

definition has_length :: "jsval \<Rightarrow> bool" where
  "has_length v = (case v of JArr vs \<Rightarrow> vs \<noteq> [] | JStr s \<Rightarrow> s \<noteq> [] | _ \<Rightarrow> truthy (field v ''length''))"

definition get_status :: "account_env \<Rightarrow> account_run" where
  "get_status e = (let cfg = ca_cfg e in just_reply 200 (ApiOk (JObj [(''config'', JObj
     [(''path'', JStr (ca_path e)),
      (''hasCloudCreds'', JBool (truthy (path cfg [''cloud'', ''token'']) \<and> truthy (path cfg [''cloud'', ''key'']))),
      (''hasDevices'', JBool (has_length (path cfg [''devices'', ''list'']))),
      (''hasHosts'', JBool (truthy (field cfg ''hosts'') \<and> spread (field cfg ''hosts'') \<noteq> [])),
      (''updatedAt'', JObj [(''cloud'', path cfg [''cloud'', ''updatedAt'']), (''devices'', path cfg [''devices'', ''updatedAt''])])])])))"

section \<open>Login\<close>

definition opt_str :: "jsval \<Rightarrow> string option" where
  "opt_str v = (if truthy v then Some (str_of v) else None)"

text \<open>\<open>Number.isFinite(t) ? t : undefined\<close> for \<open>t\<close> the number of a given member.\<close>

definition finite_timeout :: "jsval \<Rightarrow> rat option" where
  "finite_timeout v = (if v = JUndef then None else finite_num (num_of v))"

definition json_of_opt_str :: "string option \<Rightarrow> jsval" where
  "json_of_opt_str s = (case s of None \<Rightarrow> JUndef | Some t \<Rightarrow> JStr t)"

definition json_of_creds :: "cloud_creds \<Rightarrow> (string \<times> jsval) list" where
  "json_of_creds c = [(''domain'', JStr (cr_domain c)), (''mqttDomain'', json_of_opt_str (cr_mqtt_domain c)), (''token'', JStr (cr_token c)),
     (''key'', JStr (cr_key c)), (''userId'', JStr (cr_user_id c)), (''userEmail'', JStr (cr_user_email c))]"

definition json_of_status :: "jsnum option \<Rightarrow> jsval" where
  "json_of_status s = (case s of None \<Rightarrow> JUndef | Some n \<Rightarrow> JNum n)"

definition error_details :: "cloud_error \<Rightarrow> jsval" where
  "error_details e = (case e of
     CloudError _ status info \<Rightarrow> JObj [(''apiStatus'', json_of_status status), (''info'', info)]
   | OtherError _ \<Rightarrow> JUndef)"

definition auth_log :: "account_env \<Rightarrow> nat \<Rightarrow> string \<Rightarrow> (string \<times> jsval) list \<Rightarrow> (string \<times> jsval) list" where
  "auth_log e level what members =
     (if auth_debug_level (ca_debug e) < level then []
      else [(''login '' @ what, JObj ((''requestId'', JStr (ca_request_id e)) # members))])"

definition elapsed :: "account_env \<Rightarrow> string \<times> jsval" where
  "elapsed e = (''elapsedMs'', js_int (ca_elapsed e))"

definition login_failed :: "account_env \<Rightarrow> cloud_error \<Rightarrow> (string \<times> jsval) list \<times> (nat \<times> api_response) result" where
  "login_failed e err = (case infer_mfa_required err of
     Inl message \<Rightarrow> ([], Inl message)
   | Inr True \<Rightarrow> (auth_log e 1 ''failure:mfa_required'' [elapsed e, (''error'', JStr (error_message err))],
       Inr (200, ApiErrWith ''MFA required. Provide a TOTP code and try again.'' ''mfa_required'' (error_details err)))
   | Inr False \<Rightarrow> (case err of
       CloudError message status info \<Rightarrow>
         (auth_log e 1 ''failure:cloud_error'' [elapsed e, (''message'', JStr message), (''apiStatus'', json_of_status status), (''info'', info)],
          Inr (200, ApiErrWith message ''cloud_error'' (error_details err)))
     | OtherError message \<Rightarrow>
         (auth_log e 1 ''failure:unknown'' [elapsed e, (''error'', JStr message)], Inr (500, ApiErr message ''unknown''))))"

definition login_cloud :: "account_env \<Rightarrow> api_request \<Rightarrow> account_run" where
  "login_cloud e req =
     (let body = body_of req;
          email = string_or_empty (field body ''email''); password = string_or_empty (field body ''password'');
          mfa = opt_str (field body ''mfaCode''); domain = opt_str (field body ''domain'');
          scheme = (if field body ''scheme'' = JStr ''http'' then Some ''http''
                    else if field body ''scheme'' = JStr ''https'' then Some ''https'' else None);
          timeout = field body ''timeoutMs'';
          log = auth_log e 1 ''request body'' [(''email'', JStr email), (''password'', JStr password), (''mfaCode'', json_of_opt_str mfa),
                  (''passwordLength'', js_int (int (length password))), (''mfaLength'', js_int (int (length (or_else mfa []))))]
             @ auth_log e 2 ''request options'' [(''domain'', json_of_opt_str domain), (''scheme'', json_of_opt_str scheme),
                  (''timeoutMs'', if timeout = JUndef then JUndef else JNum (num_of timeout))]
      in if email = [] \<or> password = []
         then \<lparr>cn_reply = Inr (200, ApiErr ''Missing email/password in request body.'' ''missing_creds''), cn_written = None, cn_calls = [], cn_log = log\<rparr>
         else (case meross_cloud_login (ca_cloud e) \<lparr>lp_email = email, lp_password = password, lp_mfa_code = mfa\<rparr>
                     \<lparr>ho_timeout_ms = finite_timeout timeout, ho_domain = domain, ho_scheme = scheme, ho_encryption = None\<rparr> of
             (calls, Inl err) \<Rightarrow> (let (failed, answer) = login_failed e err in
                \<lparr>cn_reply = answer, cn_written = None, cn_calls = calls, cn_log = log @ failed\<rparr>)
           | (calls, Inr creds) \<Rightarrow>
               \<lparr>cn_reply = map_sum (\<lambda>m. m) (\<lambda>cloud. (200, ApiOk (JObj [(''cloud'', cloud)]))) (summarize_cloud (JObj (json_of_creds creds))),
                cn_written = Some (with_field (ca_cfg e) ''cloud'' (JObj (json_of_creds creds @ [(''updatedAt'', JStr (ca_now_iso e))]))),
                cn_calls = calls,
                cn_log = log @ auth_log e 1 ''success'' [elapsed e, (''resolvedDomain'', JStr (cr_domain creds)), (''userId'', JStr (cr_user_id creds))]\<rparr>))"

section \<open>The device list\<close>

text \<open>The stored account as the credentials of the client; a domain that is no string throws.\<close>

definition stored_creds :: "jsval \<Rightarrow> cloud_creds result" where
  "stored_creds cloud = (case field cloud ''domain'' of
     JStr domain \<Rightarrow> Inr \<lparr>cr_domain = domain, cr_mqtt_domain = opt_str (field cloud ''mqttDomain''),
       cr_token = or_else (opt_str (field cloud ''token'')) [], cr_key = string_or_empty (field cloud ''key''),
       cr_user_id = string_or_empty (field cloud ''userId''), cr_user_email = string_or_empty (field cloud ''userEmail'')\<rparr>
   | _ \<Rightarrow> Inl ''domain.replace is not a function'')"

definition refresh_cloud_devices :: "account_env \<Rightarrow> api_request \<Rightarrow> account_run" where
  "refresh_cloud_devices e req =
     (let cloud = field (ca_cfg e) ''cloud''; timeout = field (body_of req) ''timeoutMs'';
          failed = (\<lambda>calls answer. \<lparr>cn_reply = Inr answer, cn_written = None, cn_calls = calls, cn_log = []\<rparr>)
      in if \<not> truthy cloud then just_reply 200 (ApiErr ''Not logged in. Run /api/cloud/login first.'' ''not_logged_in'')
      else (case stored_creds cloud of
          Inl message \<Rightarrow> failed [] (500, ApiErr message ''unknown'')
        | Inr creds \<Rightarrow>
           (case meross_cloud_list_devices (ca_cloud e) creds
                   \<lparr>ho_timeout_ms = finite_timeout timeout, ho_domain = None, ho_scheme = None, ho_encryption = None\<rparr> of
              (calls, Inl (CloudError message status info)) \<Rightarrow>
                failed calls (200, ApiErrWith message ''cloud_error'' (error_details (CloudError message status info)))
            | (calls, Inl (OtherError message)) \<Rightarrow> failed calls (500, ApiErr message ''unknown'')
            | (calls, Inr ds) \<Rightarrow>
                \<lparr>cn_reply = Inr (200, ApiOk (JObj [(''count'', js_int (int (length ds))), (''list'', JArr ds)])),
                 cn_written = Some (with_field (ca_cfg e) ''devices''
                   (JObj [(''updatedAt'', JStr (ca_now_iso e)), (''list'', JArr ds)])),
                 cn_calls = calls, cn_log = []\<rparr>)))"

section \<open>Properties\<close>

lemma auth_log_off: "auth_debug_level (ca_debug e) = 0 \<Longrightarrow> 0 < level \<Longrightarrow> auth_log e level what members = []"
  by (simp add: auth_log_def)

lemma summarize_creds:
  "summarize_cloud (JObj (json_of_creds creds)) = Inr (JObj
     [(''domain'', JStr (cr_domain creds)), (''mqttDomain'', json_of_opt_str (cr_mqtt_domain creds)), (''userId'', JStr (cr_user_id creds)),
      (''userEmail'', JStr (cr_user_email creds)), (''key'', JStr (cr_key creds)),
      (''tokenRedacted'', (if cr_token creds = [] then JStr [] else JArr [JStr (take 4 (cr_token creds)), JStr (slice_end 4 (cr_token creds))]))])"
  by (simp add: summarize_cloud_def json_of_creds_def redacted_def redact_token_def)

lemma login_failed_no_ok: "login_failed e err = (l, Inr (n, r)) \<Longrightarrow> \<not> is_api_ok r"
  by (auto simp: login_failed_def split: sum.splits bool.splits cloud_error.splits)

lemma login_failed_log: "auth_debug_level (ca_debug e) = 0 \<Longrightarrow> fst (login_failed e err) = []"
  by (auto simp: login_failed_def auth_log_off split: sum.splits bool.splits cloud_error.splits)

text \<open>Logging in: the configuration is written exactly when the cloud grants the login for the
  given email and password; what is written is the granted account with the time, over the old
  account and with everything else kept; the reply shows the account without its token, of which it
  has the first and the last four characters. Without email or password the cloud is not asked, and
  nothing is logged unless the debug variable asks for it.\<close>

theorem login_keeps_account:
  "let email = string_or_empty (field (body_of req) ''email''); password = string_or_empty (field (body_of req) ''password'');
       run = login_cloud e req
   in (case cn_written run of
         None \<Rightarrow> (case cn_reply run of Inl _ \<Rightarrow> True | Inr (_, resp) \<Rightarrow> \<not> is_api_ok resp)
       | Some cfg \<Rightarrow> \<exists>params options creds. lp_email params = email \<and> lp_password params = password \<and>
           meross_cloud_login (ca_cloud e) params options = (cn_calls run, Inr creds) \<and>
           field cfg = (\<lambda>k. if k = ''cloud'' then JObj (json_of_creds creds @ [(''updatedAt'', JStr (ca_now_iso e))])
                         else field (JObj (spread (ca_cfg e))) k) \<and>
           cn_reply run = Inr (200, ApiOk (JObj [(''cloud'', JObj
             [(''domain'', JStr (cr_domain creds)), (''mqttDomain'', json_of_opt_str (cr_mqtt_domain creds)), (''userId'', JStr (cr_user_id creds)),
              (''userEmail'', JStr (cr_user_email creds)), (''key'', JStr (cr_key creds)),
              (''tokenRedacted'', (if cr_token creds = [] then JStr [] else JArr [JStr (take 4 (cr_token creds)), JStr (slice_end 4 (cr_token creds))]))])]))) \<and>
      (if email = [] \<or> password = [] then cn_calls run = [] \<and> cn_written run = None else True) \<and>
      (if auth_debug_level (ca_debug e) = 0 then cn_log run = [] else True)"
proof -
  define email where "email = string_or_empty (field (body_of req) ''email'')"
  define password where "password = string_or_empty (field (body_of req) ''password'')"
  define params where "params = \<lparr>lp_email = email, lp_password = password, lp_mfa_code = opt_str (field (body_of req) ''mfaCode'')\<rparr>"
  define options where "options = \<lparr>ho_timeout_ms = finite_timeout (field (body_of req) ''timeoutMs''),
     ho_domain = opt_str (field (body_of req) ''domain''),
     ho_scheme = (if field (body_of req) ''scheme'' = JStr ''http'' then Some ''http''
                    else if field (body_of req) ''scheme'' = JStr ''https'' then Some ''https'' else None), ho_encryption = None\<rparr>"
  obtain calls out where login: "meross_cloud_login (ca_cloud e) params options = (calls, out)" by fastforce
  note run = login_cloud_def [of e req, unfolded Let_def email_def [symmetric] password_def [symmetric], folded params_def options_def, unfolded login prod.case]
  show ?thesis
  proof (cases "email = [] \<or> password = []")
    case True
    then show ?thesis unfolding Let_def email_def [symmetric] password_def [symmetric] unfolding run by (simp add: auth_log_off)
  next
    case False
    show ?thesis
    proof (cases out)
      case (Inl err)
      obtain l a where f: "login_failed e err = (l, a)" by fastforce
      show ?thesis
        unfolding Let_def email_def [symmetric] password_def [symmetric] unfolding run
        using False login_failed_no_ok [of e err l] login_failed_log [of e err] f
        by (auto simp: Inl auth_log_off split: sum.split)
    next
      case (Inr creds)
      define account where "account = JObj (json_of_creds creds @ [(''updatedAt'', JStr (ca_now_iso e))])"
      have facts: "cn_written (login_cloud e req) = Some (with_field (ca_cfg e) ''cloud'' account)"
        "cn_reply (login_cloud e req) = map_sum (\<lambda>m. m) (\<lambda>cloud. (200, ApiOk (JObj [(''cloud'', cloud)]))) (summarize_cloud (JObj (json_of_creds creds)))"
        "cn_calls (login_cloud e req) = calls"
        "auth_debug_level (ca_debug e) = 0 \<Longrightarrow> cn_log (login_cloud e req) = []"
        unfolding run using False by (simp_all add: Inr account_def auth_log_off)
      have fields: "field (with_field (ca_cfg e) ''cloud'' v) = (\<lambda>k. if k = ''cloud'' then v else field (JObj (spread (ca_cfg e))) k)" for v
        by (rule ext) (simp del: field.simps)
      have given: "lp_email params = email" "lp_password params = password" by (simp_all add: params_def)
      show ?thesis
        unfolding Let_def email_def [symmetric] password_def [symmetric] facts(1-3) option.case fields summarize_creds map_sum.simps account_def
        using False facts(4) by (intro conjI exI [of _ params] exI [of _ options] exI [of _ creds]) (simp_all add: given login Inr)
    qed
  qed
qed

end
