(* ===== verification/DeviceApi.thy ===== *)
theory DeviceApi
  imports PollState Telemetry LanMessage
begin

text \<open>
  The handlers of the HTTP API that talk to one device: \<open>toggle-device.ts\<close>, \<open>set-device-light.ts\<close>,
  \<open>get-device-system-all.ts\<close>, \<open>get-device-electricity.ts\<close>, \<open>get-device-consumptionx.ts\<close>,
  \<open>get-device-state.ts\<close> and \<open>get-device-states.ts\<close> under \<open>packages/core/src/api\<close>.

  A handler is a function of its environment, the request and the world, and returns a response and
  the new world. The environment holds the configuration (read once per request), the key of the
  process environment, the devices, and \<open>pollNow\<close> of the poller if the handler was given one. A
  device answers depending on all requests sent before, so that any device behaviour is covered. The
  world records the requests sent, the polls asked for and the telemetry store.
\<close>

section \<open>Environment and world\<close>

type_synonym lan = "lan_request list \<Rightarrow> lan_request \<Rightarrow> jsval result"

record env =
  e_cfg :: jsval
  e_key :: "string option"
  e_lan :: lan
  e_poll :: "(string list \<Rightarrow> poll_reason \<Rightarrow> jsnum option \<Rightarrow> device_state list \<times> poll_error list) option"
  e_now_iso :: string

record world =
  w_sent :: "lan_request list"
  w_polled :: "string list"
  w_db :: telemetry_db

type_synonym handler = "env \<Rightarrow> api_request \<Rightarrow> world \<Rightarrow> api_response \<times> world"

definition ask :: "env \<Rightarrow> lan_request \<Rightarrow> world \<Rightarrow> jsval result \<times> world" where
  "ask e r w = (e_lan e (w_sent w) r, w\<lparr>w_sent := w_sent w @ [r]\<rparr>)"

text \<open>\<open>boostDevice(uuid)\<close> and \<open>void pollNow({ uuids: [uuid], reason: 'manual' })\<close>.\<close>

definition poll_after :: "env \<Rightarrow> string \<Rightarrow> world \<Rightarrow> world" where
  "poll_after e uuid w = (if e_poll e = None then w else w\<lparr>w_polled := w_polled w @ [uuid]\<rparr>)"

text \<open>The part of a \<open>try\<close> block that finds the host and the key; \<open>catch\<close> answers \<open>lan_error\<close>.\<close>

definition lan_failure :: "string \<Rightarrow> api_response" where
  "lan_failure message = ApiErr message ''lan_error''"

definition host_and_key :: "env \<Rightarrow> string \<Rightarrow> (jsval \<times> string) result" where
  "host_and_key e uuid = and_then (require_lan_host (e_cfg e) uuid) (\<lambda>host.
     and_then (require_lan_key (e_cfg e) (e_key e)) (\<lambda>key. Inr (host, str_of key)))"

definition with_device ::
  "env \<Rightarrow> string \<Rightarrow> (jsval \<Rightarrow> string \<Rightarrow> world \<Rightarrow> api_response \<times> world) \<Rightarrow> world \<Rightarrow> api_response \<times> world" where
  "with_device e uuid f w = (case host_and_key e uuid of
     Inl message \<Rightarrow> (lan_failure message, w)
   | Inr (host, key) \<Rightarrow> f host key w)"

text \<open>\<open>await\<close> of a request inside the \<open>try\<close> block.\<close>

definition asking ::
  "env \<Rightarrow> lan_request \<Rightarrow> (jsval \<Rightarrow> world \<Rightarrow> api_response \<times> world) \<Rightarrow> world \<Rightarrow> api_response \<times> world" where
  "asking e r f w = (case ask e r w of
     (Inl message, w1) \<Rightarrow> (lan_failure message, w1)
   | (Inr v, w1) \<Rightarrow> f v w1)"

section \<open>Toggling a device\<close>

definition cloud_device :: "jsval \<Rightarrow> string \<Rightarrow> jsval result" where
  "cloud_device cfg uuid = (case nn (path cfg [''devices'', ''list'']) (JArr []) of
     JArr ds \<Rightarrow> Inr (or_else (find (\<lambda>d. string_or_empty (field d ''uuid'') = uuid) ds) JUndef)
   | _ \<Rightarrow> Inl ''find is not a function'')"

definition prefer_light :: "jsval \<Rightarrow> bool" where
  "prefer_light device = (let model = to_upper (trim (string_or_empty (field device ''deviceType'')))
     in starts_with ''MSL'' model \<or> str_includes ''LIGHT'' model)"

definition toggle_requests :: "bool \<Rightarrow> string \<Rightarrow> string \<Rightarrow> int \<Rightarrow> nat \<Rightarrow> lan_request \<times> lan_request" where
  "toggle_requests light host key channel onoff =
     (let l = set_light host key \<lparr>lo_channel = Some channel, lo_onoff = Some onoff, lo_luminance = None,
                lo_temperature = None, lo_rgb = None, lo_capacity = None, lo_transform = None\<rparr> None;
          t = set_toggle_x host key (Some channel) onoff None
      in if light then (l, t) else (t, l))"

definition toggled :: "env \<Rightarrow> string \<Rightarrow> jsval \<Rightarrow> int \<Rightarrow> nat \<Rightarrow> jsval \<Rightarrow> world \<Rightarrow> api_response \<times> world" where
  "toggled e uuid host channel onoff resp w = (ApiOk (JObj [(''host'', host), (''channel'', js_int channel),
      (''onoff'', js_int (int onoff)), (''resp'', resp)]), poll_after e uuid w)"

definition toggle_device :: handler where
  "toggle_device e req w =
     (let body = body_of req;
          uuid = string_or_empty (field body ''uuid'');
          onoff = onoff_of (field body ''onoff'')
      in if uuid = [] then (ApiErr ''Missing uuid'' ''missing_uuid'', w)
      else case body_channel body of
          None \<Rightarrow> (ApiErr ''Invalid channel'' ''invalid_channel'', w)
        | Some channel \<Rightarrow>
            with_device e uuid (\<lambda>host key w.
              (case cloud_device (e_cfg e) uuid of
                 Inl message \<Rightarrow> (lan_failure message, w)
               | Inr device \<Rightarrow>
                   (let (r1, r2) = toggle_requests (prefer_light device) (str_of host) key channel onoff
                    in case ask e r1 w of
                        (Inr resp, w1) \<Rightarrow> toggled e uuid host channel onoff resp w1
                      | (Inl _, w1) \<Rightarrow> asking e r2 (toggled e uuid host channel onoff) w1))) w)"

section \<open>Setting a light\<close>

text \<open>\<open>typeof v === 'string' && v.trim() ? Number(v) : typeof v === 'number' ? v : NaN\<close>\<close>

fun int_like :: "jsval \<Rightarrow> jsnum" where
  "int_like (JStr s) = (if trim s \<noteq> [] then num_of_str s else NaN)"
| "int_like (JNum n) = n"
| "int_like _ = NaN"

definition clamp_int :: "jsval \<Rightarrow> int \<Rightarrow> int \<Rightarrow> int option" where
  "clamp_int v lo hi = map_option (\<lambda>r. max lo (min hi (js_round r))) (finite_num (int_like v))"

text \<open>An optional field: absent, invalid, or clamped.\<close>

definition light_field :: "jsval \<Rightarrow> int \<Rightarrow> string \<Rightarrow> string \<Rightarrow> (string \<times> string) + int option" where
  "light_field v hi message code =
     (if v = JUndef then Inr None
      else case clamp_int v 0 hi of None \<Rightarrow> Inl (message, code) | Some n \<Rightarrow> Inr (Some n))"

definition set_device_light :: handler where
  "set_device_light e req w =
     (let body = body_of req; uuid = string_or_empty (field body ''uuid'') in
      if uuid = [] then (ApiErr ''Missing uuid'' ''missing_uuid'', w)
      else case body_channel body of
          None \<Rightarrow> (ApiErr ''Invalid channel'' ''invalid_channel'', w)
        | Some channel \<Rightarrow>
          (let onoff = (if field body ''onoff'' = JUndef then None else Some (onoff_of (field body ''onoff''))) in
           case light_field (field body ''luminance'') 100 ''Invalid luminance'' ''invalid_luminance'' of
             Inl (m, c) \<Rightarrow> (ApiErr m c, w)
           | Inr luminance \<Rightarrow>
          (case light_field (field body ''temperature'') 100 ''Invalid temperature'' ''invalid_temperature'' of
             Inl (m, c) \<Rightarrow> (ApiErr m c, w)
           | Inr temperature \<Rightarrow>
          (case light_field (field body ''rgb'') 16777215 ''Invalid rgb'' ''invalid_rgb'' of
             Inl (m, c) \<Rightarrow> (ApiErr m c, w)
           | Inr rgb \<Rightarrow>
             if onoff = None \<and> luminance = None \<and> temperature = None \<and> rgb = None
             then (ApiErr ''No light fields provided'' ''missing_fields'', w)
             else with_device e uuid (\<lambda>host key.
               asking e (set_light (str_of host) key \<lparr>lo_channel = Some channel, lo_onoff = onoff,
                   lo_luminance = luminance, lo_temperature = temperature, lo_rgb = rgb,
                   lo_capacity = None, lo_transform = None\<rparr> None)
                 (\<lambda>resp w. (ApiOk (JObj [(''host'', host), (''channel'', js_int channel), (''resp'', resp)]),
                    poll_after e uuid w))) w))))"

section \<open>Reading from a device\<close>

definition get_device_system_all :: handler where
  "get_device_system_all e req w =
     (let uuid = string_or_empty (field (body_of req) ''uuid'') in
      if uuid = [] then (ApiErr ''Missing uuid'' ''missing_uuid'', w)
      else with_device e uuid (\<lambda>host key. asking e (get_system_all (str_of host) key None)
             (\<lambda>data w. (ApiOk (JObj [(''host'', host), (''data'', data)]), w))) w)"

definition get_device_electricity :: handler where
  "get_device_electricity e req w =
     (let body = body_of req; uuid = trim (string_or_empty (field body ''uuid'')) in
      if uuid = [] then (ApiErr ''Missing uuid'' ''missing_uuid'', w)
      else case body_channel body of
          None \<Rightarrow> (ApiErr ''Invalid channel'' ''invalid_channel'', w)
        | Some channel \<Rightarrow>
            with_device e uuid (\<lambda>host key.
              asking e (get_electricity (str_of host) key (Some channel) (Some 3000))
                (\<lambda>resp w. (case extract_lan_electricity resp of
                     None \<Rightarrow> (ApiErrWith ''Electricity data unavailable'' ''telemetry_unavailable''
                                (JObj [(''uuid'', JStr uuid), (''host'', host)]), w)
                   | Some reading \<Rightarrow>
                       (ApiOk (JObj [(''host'', host), (''reading'', json_of_electricity reading)]), w)))) w)"

record consumption_entry =
  ce_date :: string
  ce_time :: int
  ce_value :: int

text \<open>\<open>/^\d{4}-\d{2}-\d{2}$/\<close>\<close>

definition is_date :: "string \<Rightarrow> bool" where
  "is_date s \<longleftrightarrow> length s = 10 \<and> list_all is_digit (take 4 s) \<and> s ! 4 = CHR ''-'' \<and>
     list_all is_digit (take 2 (drop 5 s)) \<and> s ! 7 = CHR ''-'' \<and> list_all is_digit (drop 8 s)"

definition consumption_item :: "jsval \<Rightarrow> consumption_entry option" where
  "consumption_item item = (let date = trim (string_or_empty (field item ''date'')) in
     if \<not> is_date date then None
     else case (finite_num (num_of (field item ''time'')), finite_num (num_of (field item ''value''))) of
         (Some tm, Some v) \<Rightarrow>
           if tm \<le> 0 \<or> v < 0 then None
           else Some \<lparr>ce_date = date, ce_time = \<lfloor>tm\<rfloor>, ce_value = \<lfloor>v\<rfloor>\<rparr>
       | _ \<Rightarrow> None)"

fun consumption_candidates :: "(string \<Rightarrow> string \<Rightarrow> int) \<Rightarrow> jsval list \<Rightarrow> consumption_entry list" where
  "consumption_candidates lc [] = []"
| "consumption_candidates lc (c # cs) =
     (if \<not> truthy c then consumption_candidates lc cs
      else js_sort (\<lambda>a b. lc (ce_date a) (ce_date b))
             (List.map_filter consumption_item (case c of JArr vs \<Rightarrow> vs | _ \<Rightarrow> [])))"

definition extract_consumption_x :: "(string \<Rightarrow> string \<Rightarrow> int) \<Rightarrow> jsval \<Rightarrow> consumption_entry list" where
  "extract_consumption_x lc resp = consumption_candidates lc
     [path resp [''payload'', ''consumptionx''], path resp [''payload'', ''consumptionx'', ''consumptionx''],
      path resp [''payload'', ''ConsumptionX'']]"

definition json_of_consumption :: "consumption_entry \<Rightarrow> jsval" where
  "json_of_consumption c = JObj [(''date'', JStr (ce_date c)), (''time'', js_int (ce_time c)), (''value'', js_int (ce_value c))]"

text \<open>The insertions that fail are given by their dates.\<close>

definition record_consumption ::
  "string \<Rightarrow> int \<Rightarrow> (string \<Rightarrow> bool) \<Rightarrow> consumption_entry list \<Rightarrow> telemetry_db \<Rightarrow> telemetry_db" where
  "record_consumption uuid channel fails cs db =
     fold (\<lambda>c db. if fails (ce_date c) then db
                  else upsert_consumption_day uuid channel (ce_date c) (ce_time c) (ce_value c) db) cs db"

definition get_device_consumption_x ::
  "(string \<Rightarrow> string \<Rightarrow> int) \<Rightarrow> (string \<Rightarrow> bool) \<Rightarrow> handler" where
  "get_device_consumption_x lc fails e req w =
     (let body = body_of req; uuid = trim (string_or_empty (field body ''uuid'')) in
      if uuid = [] then (ApiErr ''Missing uuid'' ''missing_uuid'', w)
      else case body_channel body of
          None \<Rightarrow> (ApiErr ''Invalid channel'' ''invalid_channel'', w)
        | Some channel \<Rightarrow>
            with_device e uuid (\<lambda>host key.
              asking e (get_consumption_x (str_of host) key (Some channel) (Some 5000))
                (\<lambda>resp w. (let cs = extract_consumption_x lc resp in
                   (ApiOk (JObj [(''host'', host), (''list'', JArr (map json_of_consumption cs))]),
                    w\<lparr>w_db := record_consumption uuid channel fails cs (w_db w)\<rparr>)))) w)"

section \<open>Device states\<close>

definition json_of_kind :: "poll_kind \<Rightarrow> jsval" where
  "json_of_kind k = JStr (case k of KToggleX \<Rightarrow> ''togglex'' | KLight \<Rightarrow> ''light'' | KMixed \<Rightarrow> ''mixed'')"

definition json_of_reason :: "poll_reason \<Rightarrow> jsval" where
  "json_of_reason r = JStr (case r of RPoller \<Rightarrow> ''poller'' | RManual \<Rightarrow> ''manual'')"

definition json_of_device_state :: "device_state \<Rightarrow> jsval" where
  "json_of_device_state d = JObj ([(''uuid'', JStr (ds_uuid d)), (''host'', JStr (ds_host d)), (''kind'', json_of_kind (ds_kind d)),
     (''channel'', js_int (ds_channel d)), (''onoff'', js_int (int (ds_onoff d))),
     (''channels'', JArr (map json_of_toggle (ds_channels d))), (''lights'', JArr (map json_of_light (ds_lights d))),
     (''light'', opt_json json_of_light (ds_light d)), (''timerxDigest'', JArr (map json_of_digest (ds_timerx d))),
     (''triggerxDigest'', JArr (map json_of_digest (ds_triggerx d))), (''updatedAt'', js_int (ds_updated_at d)),
     (''source'', json_of_reason (ds_source d)), (''stale'', JBool (ds_stale d))]
     @ (case ds_error d of None \<Rightarrow> [] | Some m \<Rightarrow> [(''error'', JStr m)]))"

text \<open>The time of an error is printed by \<open>at_str\<close>.\<close>

definition json_of_poll_error :: "(int \<Rightarrow> string) \<Rightarrow> poll_error \<Rightarrow> jsval" where
  "json_of_poll_error at_str x = JObj [(''uuid'', JStr (pe_uuid x)), (''code'', JStr (pe_code x)),
     (''message'', JStr (pe_message x)), (''at'', JStr (at_str (pe_at x)))]"

definition channel_match :: "int \<Rightarrow> toggle_state list \<Rightarrow> light_state list \<Rightarrow> (int \<times> nat) option" where
  "channel_match channel ts ls = (case find (\<lambda>l. ls_channel l = channel) ls of
     Some l \<Rightarrow> Some (ls_channel l, ls_onoff l)
   | None \<Rightarrow> map_option (\<lambda>x. (ts_channel x, ts_onoff x)) (find (\<lambda>x. ts_channel x = channel) ts))"

definition state_body ::
  "jsval \<Rightarrow> poll_kind \<Rightarrow> int \<times> nat \<Rightarrow> toggle_state list \<Rightarrow> light_state list \<Rightarrow> light_state option \<Rightarrow>
     digest_entry list \<Rightarrow> digest_entry list \<Rightarrow> jsval" where
  "state_body host kind m ts ls light timerx triggerx = JObj [(''host'', host), (''kind'', json_of_kind kind),
     (''channel'', js_int (fst m)), (''onoff'', js_int (int (snd m))), (''channels'', JArr (map json_of_toggle ts)),
     (''lights'', JArr (map json_of_light ls)), (''light'', opt_json json_of_light light),
     (''timerxDigest'', JArr (map json_of_digest timerx)), (''triggerxDigest'', JArr (map json_of_digest triggerx))]"

text \<open>\<open>find(x => x.channel === 0) ?? (length ? [0] : null)\<close>\<close>

definition main_entry :: "('a \<Rightarrow> int) \<Rightarrow> 'a list \<Rightarrow> 'a option" where
  "main_entry ch xs = (case find (\<lambda>x. ch x = 0) xs of
     Some x \<Rightarrow> Some x | None \<Rightarrow> (case xs of [] \<Rightarrow> None | x # _ \<Rightarrow> Some x))"

definition get_device_state :: "(string \<Rightarrow> string \<Rightarrow> int) \<Rightarrow> handler" where
  "get_device_state lc e req w =
     (let body = body_of req; uuid = string_or_empty (field body ''uuid'') in
      if uuid = [] then (ApiErr ''Missing uuid'' ''missing_uuid'', w)
      else case body_channel body of
          None \<Rightarrow> (ApiErr ''Invalid channel'' ''invalid_channel'', w)
        | Some channel \<Rightarrow>
          (case e_poll e of
             Some poll_now \<Rightarrow>
               (let (states, errors) = poll_now [uuid] RManual None in
                case find (\<lambda>x. pe_uuid x = uuid) errors of
                  Some failed \<Rightarrow> (ApiErr (pe_message failed) (pe_code failed), w)
                | None \<Rightarrow>
                   (case find (\<lambda>d. ds_uuid d = uuid) states of
                      None \<Rightarrow> (ApiErr ''State unavailable'' ''state_unavailable'', w)
                    | Some d \<Rightarrow>
                       (case channel_match channel (ds_channels d) (ds_lights d) of
                          None \<Rightarrow> (ApiErr ''Channel not found'' ''state_unavailable'', w)
                        | Some m \<Rightarrow> (ApiOk (state_body (JStr (ds_host d)) (ds_kind d) m (ds_channels d)
                            (ds_lights d) (ds_light d) (ds_timerx d) (ds_triggerx d)), w))))
           | None \<Rightarrow>
               with_device e uuid (\<lambda>host key. asking e (get_system_all (str_of host) key (Some 3000)) (\<lambda>data w.
                 (let togglex = or_else (extract_lan_toggle_x data) []; lights = or_else (extract_lan_light data) [] in
                  case channel_match channel togglex lights of
                    None \<Rightarrow> (ApiErr ''State not found in Appliance.System.All digest'' ''state_unavailable'', w)
                  | Some m \<Rightarrow>
                     (let light0 = main_entry ls_channel lights; ch0 = main_entry ts_channel togglex;
                          kind = (if light0 \<noteq> None \<and> ch0 \<noteq> None then KMixed else if light0 \<noteq> None then KLight else KToggleX)
                      in (ApiOk (state_body host kind m togglex lights light0 (extract_lan_timer_x_digest lc data)
                            (extract_lan_trigger_x_digest lc data)), w))))) w))"

definition get_device_states ::
  "(int \<Rightarrow> string) \<Rightarrow> (string list \<Rightarrow> poll_reason \<Rightarrow> jsnum option \<Rightarrow> device_state list \<times> poll_error list) \<Rightarrow> handler" where
  "get_device_states at_str poll_now e req w =
     (let body = body_of req;
          uuids = (case field body ''uuids'' of
              JArr vs \<Rightarrow> Some (filter (\<lambda>u. u \<noteq> []) (map string_or_empty vs)) | _ \<Rightarrow> None);
          reason = (if field body ''reason'' = JStr ''poller'' then RPoller else RManual);
          timeout = (if field body ''timeoutMs'' = JUndef then None else Some (num_of (field body ''timeoutMs'')))
      in if list_ex (\<lambda>u. trim u = []) (or_else uuids []) then (ApiErr ''Invalid uuids'' ''invalid_uuids'', w)
      else if (case timeout of None \<Rightarrow> False | Some n \<Rightarrow> (case finite_num n of None \<Rightarrow> True | Some r \<Rightarrow> r \<le> 0))
           then (ApiErr ''Invalid timeoutMs'' ''invalid_timeout'', w)
      else  (let (states, errors) = poll_now (filter (\<lambda>u. u \<noteq> []) (map trim (or_else uuids []))) reason timeout
             in (ApiOk (JObj [(''polledAt'', JStr (e_now_iso e)), (''states'', JArr (map json_of_device_state states)),
                   (''errors'', JArr (map (json_of_poll_error at_str) errors))]), w)))"

section \<open>Properties\<close>

lemma ask_simps [simp]: "ask e r w = (e_lan e (w_sent w) r, w\<lparr>w_sent := w_sent w @ [r]\<rparr>)"
  by (simp add: ask_def)

lemma poll_after_simps [simp]:
  "w_sent (poll_after e uuid w) = w_sent w" "w_db (poll_after e uuid w) = w_db w"
  "w_polled (poll_after e uuid w) = w_polled w @ (if e_poll e = None then [] else [uuid])"
  by (simp_all add: poll_after_def)

text \<open>The channel a request asks for: 0 by default, else a whole number that is not negative.\<close>

definition asks_channel :: "jsval \<Rightarrow> int \<Rightarrow> bool" where
  "asks_channel v c \<longleftrightarrow> (if v = JUndef then c = 0 else num_of v = Fin (of_int c) \<and> 0 \<le> c)"

lemma body_channel_iff: "body_channel body = Some c \<longleftrightarrow> asks_channel (field body ''channel'') c"
  by (auto simp: body_channel_def asks_channel_def channel_num_def dest!: integer_num_SomeD split: option.splits if_splits)

text \<open>What a request sets: \<open>{ channel, onoff }\<close> under the name of its namespace.\<close>

definition sets_onoff :: "int \<Rightarrow> nat \<Rightarrow> lan_request \<Rightarrow> bool" where
  "sets_onoff channel onoff r \<longleftrightarrow> lr_method r = ''SET'' \<and>
     (let body = (if lr_namespace r = ns_light then field (lr_payload r) ''light'' else field (lr_payload r) ''togglex'')
      in field body ''channel'' = js_int channel \<and> field body ''onoff'' = js_int (int onoff))"

lemma toggle_requests_facts:
  assumes "toggle_requests light host key channel onoff = (r1, r2)"
  shows "sets_onoff channel onoff r1" "sets_onoff channel onoff r2"
    "lr_namespace r1 = (if light then ns_light else ns_togglex)" "lr_namespace r2 = (if light then ns_togglex else ns_light)"
    "lr_host r1 = host" "lr_host r2 = host"
  using assms
  by (auto simp: toggle_requests_def Let_def sets_onoff_def set_light_def set_toggle_x_def ns_light_def ns_togglex_def
      opt_int_field_def split: if_splits)

text \<open>Either the request is refused without sending anything, or two requests are tried in turn.\<close>

definition toggle_refused :: "env \<Rightarrow> jsval \<Rightarrow> bool" where
  "toggle_refused e body \<longleftrightarrow> (let uuid = string_or_empty (field body ''uuid'') in
     uuid = [] \<or> (\<forall>c. \<not> asks_channel (field body ''channel'') c) \<or> \<not> is_ok (host_and_key e uuid) \<or> \<not> is_ok (cloud_device (e_cfg e) uuid))"

lemma toggle_refused_unsent:
  assumes "toggle_refused e (body_of req)"
  shows "\<exists>resp. toggle_device e req w = (resp, w) \<and> \<not> is_api_ok resp"
proof -
  define uuid where "uuid = string_or_empty (field (body_of req) ''uuid'')"
  show ?thesis
  proof (cases "uuid = [] \<or> body_channel (body_of req) = None")
    case True
    then show ?thesis by (auto simp: toggle_device_def Let_def simp flip: uuid_def)
  next
    case False
    then obtain c where ch: "body_channel (body_of req) = Some c" by blast
    with False assms have "\<not> is_ok (host_and_key e uuid) \<or> \<not> is_ok (cloud_device (e_cfg e) uuid)"
      by (auto simp: toggle_refused_def Let_def body_channel_iff simp flip: uuid_def)
    with False ch show ?thesis
      by (cases "host_and_key e uuid"; cases "cloud_device (e_cfg e) uuid")
        (auto simp: toggle_device_def Let_def with_device_def lan_failure_def simp flip: uuid_def)
  qed
qed

text \<open>C21. Toggling a device. A request without a uuid, with a channel that is no whole number from 0 on,
  for a device without a known host or key, or against a list of devices that is none, sends nothing,
  changes nothing and is not answered positively. Every other request sends the device the wanted
  state for the wanted channel, at most twice: a light first as a light, any other device first as a
  switch, and the other way only if the first request failed. The answer is positive exactly when the
  last request sent was answered, it carries that answer, and only then is a poll of the device asked
  for. The telemetry store is not touched.\<close>

theorem toggle_device_effect:
  "let uuid = string_or_empty (field (body_of req) ''uuid''); (resp, w') = toggle_device e req w in
     w_db w' = w_db w \<and> w_polled w' = w_polled w @ (if is_api_ok resp \<and> e_poll e \<noteq> None then [uuid] else []) \<and>
     (if toggle_refused e (body_of req) then w' = w \<and> \<not> is_api_ok resp
      else \<exists>host key device channel r1 r2.
        host_and_key e uuid = Inr (host, key) \<and> cloud_device (e_cfg e) uuid = Inr device \<and>
        asks_channel (field (body_of req) ''channel'') channel \<and>
        list_all (sets_onoff channel (onoff_of (field (body_of req) ''onoff''))) [r1, r2] \<and>
        map lr_host [r1, r2] = [str_of host, str_of host] \<and>
        map lr_namespace [r1, r2] = (if prefer_light device then [ns_light, ns_togglex] else [ns_togglex, ns_light]) \<and>
        (case e_lan e (w_sent w) r1 of
           Inr v \<Rightarrow> w_sent w' = w_sent w @ [r1] \<and> (\<exists>d. resp = ApiOk d \<and> field d ''resp'' = v)
         | Inl _ \<Rightarrow> w_sent w' = w_sent w @ [r1, r2] \<and>
             (case e_lan e (w_sent w @ [r1]) r2 of
                Inl m \<Rightarrow> resp = ApiErr m ''lan_error''
              | Inr v \<Rightarrow> (\<exists>d. resp = ApiOk d \<and> field d ''resp'' = v))))"
proof (cases "toggle_refused e (body_of req)")
  case True
  then obtain resp where "toggle_device e req w = (resp, w)" "\<not> is_api_ok resp" using toggle_refused_unsent by blast
  with True show ?thesis by (simp add: Let_def)
next
  case False
  define uuid where "uuid = string_or_empty (field (body_of req) ''uuid'')"
  from False obtain channel where ok: "uuid \<noteq> []" "body_channel (body_of req) = Some channel"
    "is_ok (host_and_key e uuid)" "is_ok (cloud_device (e_cfg e) uuid)"
    by (auto simp: toggle_refused_def Let_def body_channel_iff simp flip: uuid_def)
  obtain host key device where d: "host_and_key e uuid = Inr (host, key)" "cloud_device (e_cfg e) uuid = Inr device"
    using ok(3,4) by (cases "host_and_key e uuid"; cases "cloud_device (e_cfg e) uuid") auto
  obtain r1 r2 where r: "toggle_requests (prefer_light device) (str_of host) key channel (onoff_of (field (body_of req) ''onoff'')) = (r1, r2)"
    by fastforce
  note f = toggle_requests_facts [OF r]
  have run: "toggle_device e req w = (case ask e r1 w of
      (Inr resp, w1) \<Rightarrow> toggled e uuid host channel (onoff_of (field (body_of req) ''onoff'')) resp w1
    | (Inl _, w1) \<Rightarrow> asking e r2 (toggled e uuid host channel (onoff_of (field (body_of req) ''onoff''))) w1)"
    unfolding toggle_device_def Let_def with_device_def uuid_def [symmetric] by (simp add: ok d r)
  have ch: "asks_channel (field (body_of req) ''channel'') channel" using ok(2) by (simp add: body_channel_iff)
  show ?thesis
    unfolding Let_def uuid_def [symmetric] run split_def if_not_P [OF False]
    by (intro conjI exI [of _ host] exI [of _ key] exI [of _ device] exI [of _ channel] exI [of _ r1] exI [of _ r2])
      (use d ch f in \<open>simp_all add: asking_def lan_failure_def toggled_def split: sum.split\<close>)
qed

text \<open>What a light request may carry for a member of the body.\<close>

definition carries :: "jsval \<Rightarrow> int \<Rightarrow> int option \<Rightarrow> bool" where
  "carries v hi x = (case x of
     None \<Rightarrow> v = JUndef
   | Some n \<Rightarrow> v \<noteq> JUndef \<and> 0 \<le> n \<and> n \<le> hi \<and> (\<exists>r. int_like v = Fin r \<and> n = max 0 (min hi (js_round r))))"

lemma light_field_carries: "light_field v hi m c = Inr x \<Longrightarrow> 0 \<le> hi \<Longrightarrow> carries v hi x"
  by (cases "int_like v") (auto simp: light_field_def clamp_int_def carries_def split: if_splits option.splits)

lemma light_field_refuses: "light_field v hi m c = Inl mc \<Longrightarrow> mc = (m, c)"
  by (auto simp: light_field_def split: if_splits option.splits)

text \<open>Setting a light: a request with a missing uuid, a bad channel, a bad value or nothing to
  set sends nothing. Otherwise exactly one request is sent, which carries for each of luminance,
  temperature and colour the number given, rounded and brought into its range, and no member that
  was not given; the device's failure is reported, and a poll asked for only after its answer.\<close>

theorem set_light_carries_request:
  "case set_device_light e req w of (resp, w') \<Rightarrow>
     (w' = w \<and> \<not> is_api_ok resp) \<or>
     (\<exists>host key opts. host_and_key e (string_or_empty (field (body_of req) ''uuid'')) = Inr (host, key) \<and>
        w_sent w' = w_sent w @ [set_light (str_of host) key opts None] \<and>
        lo_channel opts = body_channel (body_of req) \<and>
        (lo_onoff opts = (if field (body_of req) ''onoff'' = JUndef then None else Some (onoff_of (field (body_of req) ''onoff'')))) \<and>
        carries (field (body_of req) ''luminance'') 100 (lo_luminance opts) \<and>
        carries (field (body_of req) ''temperature'') 100 (lo_temperature opts) \<and>
        carries (field (body_of req) ''rgb'') 16777215 (lo_rgb opts) \<and>
        \<not> (lo_onoff opts = None \<and> lo_luminance opts = None \<and> lo_temperature opts = None \<and> lo_rgb opts = None) \<and>
        (case e_lan e (w_sent w) (set_light (str_of host) key opts None) of
           Inl m \<Rightarrow> resp = ApiErr m ''lan_error'' \<and> w_polled w' = w_polled w
         | Inr v \<Rightarrow> (\<exists>d. resp = ApiOk d \<and> field d ''resp'' = v) \<and>
             w_polled w' = w_polled w @ (if e_poll e = None then [] else [string_or_empty (field (body_of req) ''uuid'')])))"
proof (cases "string_or_empty (field (body_of req) ''uuid'') = [] \<or> body_channel (body_of req) = None")
  case True
  then show ?thesis by (auto simp: set_device_light_def Let_def)
next
  case False
  then obtain channel where ch: "body_channel (body_of req) = Some channel"
    and uuid: "string_or_empty (field (body_of req) ''uuid'') \<noteq> []" by auto
  define lf where "lf = light_field (field (body_of req) ''luminance'') 100 ''Invalid luminance'' ''invalid_luminance''"
  define tf where "tf = light_field (field (body_of req) ''temperature'') 100 ''Invalid temperature'' ''invalid_temperature''"
  define rf where "rf = light_field (field (body_of req) ''rgb'') 16777215 ''Invalid rgb'' ''invalid_rgb''"
  note fold = lf_def [symmetric] tf_def [symmetric] rf_def [symmetric]
  show ?thesis
  proof (cases "(\<lambda>x. case x of Inl _ \<Rightarrow> False | Inr _ \<Rightarrow> True) lf \<and> (\<lambda>x. case x of Inl _ \<Rightarrow> False | Inr _ \<Rightarrow> True) tf \<and> (\<lambda>x. case x of Inl _ \<Rightarrow> False | Inr _ \<Rightarrow> True) rf")
    case False
    then show ?thesis
      by (cases lf; cases tf; cases rf) (auto simp: set_device_light_def Let_def ch uuid fold split: prod.splits)
  next
    case True
    then obtain l t r where ok: "lf = Inr l" "tf = Inr t" "rf = Inr r"
      by (cases lf; cases tf; cases rf) auto
    have c: "carries (field (body_of req) ''luminance'') 100 l" "carries (field (body_of req) ''temperature'') 100 t"
      "carries (field (body_of req) ''rgb'') 16777215 r"
      using ok light_field_carries unfolding lf_def tf_def rf_def by simp_all
    define onoff where "onoff = (if field (body_of req) ''onoff'' = JUndef then None else Some (onoff_of (field (body_of req) ''onoff'')))"
    define opts where "opts = \<lparr>lo_channel = Some channel, lo_onoff = onoff, lo_luminance = l, lo_temperature = t,
      lo_rgb = r, lo_capacity = None, lo_transform = None\<rparr>"
    have run: "set_device_light e req w = (if onoff = None \<and> l = None \<and> t = None \<and> r = None
        then (ApiErr ''No light fields provided'' ''missing_fields'', w)
        else with_device e (string_or_empty (field (body_of req) ''uuid'')) (\<lambda>host key.
           asking e (set_light (str_of host) key opts None)
             (\<lambda>resp w. (ApiOk (JObj [(''host'', host), (''channel'', js_int channel), (''resp'', resp)]),
                poll_after e (string_or_empty (field (body_of req) ''uuid'')) w))) w)"
      unfolding set_device_light_def Let_def fold onoff_def [symmetric] opts_def by (simp add: ch uuid ok)
    show ?thesis
    proof (cases "(onoff = None \<and> l = None \<and> t = None \<and> r = None) \<or> \<not> is_ok (host_and_key e (string_or_empty (field (body_of req) ''uuid'')))")
      case True
      then show ?thesis
        by (cases "host_and_key e (string_or_empty (field (body_of req) ''uuid''))")
          (auto simp: run with_device_def lan_failure_def)
    next
      case False
      then obtain host key where hk: "host_and_key e (string_or_empty (field (body_of req) ''uuid'')) = Inr (host, key)"
        by (cases "host_and_key e (string_or_empty (field (body_of req) ''uuid''))") auto
      have o: "lo_channel opts = body_channel (body_of req)" "lo_onoff opts = onoff" "lo_luminance opts = l"
        "lo_temperature opts = t" "lo_rgb opts = r" by (simp_all add: opts_def ch)
      have some: "\<not> (lo_onoff opts = None \<and> lo_luminance opts = None \<and> lo_temperature opts = None \<and> lo_rgb opts = None)"
        using False unfolding o by blast
      show ?thesis
        unfolding run split_def
        by (rule disjI2, rule exI [of _ host], rule exI [of _ key], rule exI [of _ opts])
          (use False c hk some in \<open>simp add: with_device_def asking_def lan_failure_def o split: sum.split flip: onoff_def\<close>)
    qed
  qed
qed

lemma consumption_item_valid:
  "consumption_item v = Some c \<Longrightarrow> is_date (ce_date c) \<and> 0 \<le> ce_time c \<and> 0 \<le> ce_value c"
  by (auto simp: consumption_item_def Let_def split: if_splits option.splits)

definition consumption_of :: "(string \<Rightarrow> string \<Rightarrow> int) \<Rightarrow> jsval \<Rightarrow> consumption_entry list" where
  "consumption_of lc c = js_sort (\<lambda>a b. lc (ce_date a) (ce_date b))
     (List.map_filter consumption_item (case c of JArr vs \<Rightarrow> vs | _ \<Rightarrow> []))"

lemma consumption_of_valid:
  "list_all (\<lambda>c. is_date (ce_date c) \<and> 0 \<le> ce_time c \<and> 0 \<le> ce_value c) (consumption_of lc c)"
  by (auto simp: consumption_of_def list_all_iff List.map_filter_def dest: consumption_item_valid split: jsval.splits)

lemma falsy_field: "\<not> truthy v \<Longrightarrow> field v k = JUndef"
  by (cases v) simp_all

lemma extract_consumption_place:
  "extract_consumption_x lc resp = (let p = field resp ''payload''; c = field p ''consumptionx'' in
     if truthy c then consumption_of lc c
     else if truthy (field p ''ConsumptionX'') then consumption_of lc (field p ''ConsumptionX'') else [])"
  by (simp add: extract_consumption_x_def consumption_of_def Let_def falsy_field)

text \<open>The table of the daily totals is a store with the primary key of its rows.\<close>

definition day_entry :: "string \<Rightarrow> int \<Rightarrow> consumption_entry \<Rightarrow> ((string \<times> int \<times> string) \<times> int \<times> int) option" where
  "day_entry uuid channel c = Some ((uuid, channel, ce_date c), ce_time c, ce_value c)"

interpretation day_table: keyed_store "\<lambda>db. map_get (db_days db)" "\<lambda>(u, k, d) (t, v). upsert_consumption_day u k d t v"
  by unfold_locales (simp add: upsert_consumption_day_def split: prod.split)

lemma record_consumption_put: "record_consumption uuid channel (\<lambda>_. False) = day_table.put_all (day_entry uuid channel)"
  by (simp add: fun_eq_iff record_consumption_def day_table.put_all_def day_table.put_entry_def [abs_def] day_entry_def)

lemma day_last_for:
  "day_table.last_for (day_entry uuid channel) cs (u, k, d) =
     (if u = uuid \<and> k = channel then find (\<lambda>c. ce_date c = d) (rev cs) else None)"
  by (auto simp: day_table.last_for_def day_entry_def find_None_iff)

lemma record_consumption_get:
  "map_get (db_days (record_consumption uuid channel (\<lambda>_. False) cs db)) (u, k, d) =
     (if u = uuid \<and> k = channel then
        (case find (\<lambda>c. ce_date c = d) (rev cs) of
           Some c \<Rightarrow> Some (ce_time c, ce_value c)
         | None \<Rightarrow> map_get (db_days db) (u, k, d))
      else map_get (db_days db) (u, k, d))"
  by (auto simp: record_consumption_put day_table.get_put_all day_last_for day_entry_def split: option.split)

text \<open>C22. Daily consumption: the totals taken from an answer are those of the first present place,
  the nested place is never looked at; every one has a calendar date and no negative figure; what is
  stored for a device, channel and day is the last total of the answer for that day, every other
  entry of the table is kept, and storing the same answer again changes nothing.\<close>

theorem consumption_recorded:
  "(let p = field resp ''payload'' in extract_consumption_x lc resp =
      (if truthy (field p ''consumptionx'') then consumption_of lc (field p ''consumptionx'')
       else if truthy (field p ''ConsumptionX'') then consumption_of lc (field p ''ConsumptionX'') else [])) \<and>
   list_all (\<lambda>c. is_date (ce_date c) \<and> 0 \<le> ce_time c \<and> 0 \<le> ce_value c) (extract_consumption_x lc resp) \<and>
   (let cs = extract_consumption_x lc resp; record = record_consumption uuid channel (\<lambda>_. False) cs in
     map_get (db_days (record db)) (u, k, d) =
       (if u = uuid \<and> k = channel then
          (case find (\<lambda>c. ce_date c = d) (rev cs) of
             Some c \<Rightarrow> Some (ce_time c, ce_value c)
           | None \<Rightarrow> map_get (db_days db) (u, k, d))
        else map_get (db_days db) (u, k, d)) \<and>
     map_get (db_days (record (record db))) = map_get (db_days (record db)) \<and>
     db_samples (record db) = db_samples db)"
proof -
  define cs where "cs = extract_consumption_x lc resp"
  have valid: "list_all (\<lambda>c. is_date (ce_date c) \<and> 0 \<le> ce_time c \<and> 0 \<le> ce_value c) cs"
    unfolding cs_def extract_consumption_place Let_def using consumption_of_valid by simp
  have twice: "map_get (db_days (record_consumption uuid channel (\<lambda>_. False) cs
      (record_consumption uuid channel (\<lambda>_. False) cs db))) key =
      map_get (db_days (record_consumption uuid channel (\<lambda>_. False) cs db)) key" for key
    unfolding record_consumption_put by (rule day_table.put_all_twice)
  have "db_samples (record_consumption uuid channel f cs db) = db_samples db" for f
    by (induction cs arbitrary: db) (simp_all add: record_consumption_def upsert_consumption_day_def)
  then show ?thesis
    unfolding Let_def cs_def [symmetric] using valid twice
    by (simp add: record_consumption_get extract_consumption_place cs_def Let_def fun_eq_iff)
qed

end
