(* ===== verification/ScheduleApi.thy ===== *)
theory ScheduleApi
  imports DeviceApi
begin

text \<open>
  The handlers for the schedules of a device, timers (TimerX) and triggers (TriggerX):
  \<open>get-\<close>, \<open>set-\<close>, \<open>patch-\<close> and \<open>delete-device-timerx.ts\<close>, \<open>get-\<close>, \<open>set-\<close> and
  \<open>delete-device-triggerx.ts\<close> under \<open>packages/core/src/api\<close>. A rule is the JSON object the device
  keeps; the handlers change single members of it and send it back. Both kinds share their code but
  for names, so the model takes the name, \<open>''timerx''\<close> or \<open>''triggerx''\<close>, as an argument where the
  source repeats the function.
\<close>

section \<open>Finding the rule in an answer\<close>

lemma size_member [termination_simp]:
  "map_of kvs k = Some v \<Longrightarrow> size v < Suc (size_list (\<lambda>x. Suc (size (snd x))) kvs)"
  by (induction kvs) (auto split: if_splits)

text \<open>The first element with a value, and its value.\<close>

definition first_value :: "'a option list \<Rightarrow> 'a option" where
  "first_value xs = (case List.map_filter (\<lambda>x. x) xs of [] \<Rightarrow> None | y # _ \<Rightarrow> Some y)"

definition has_id :: "jsval \<Rightarrow> bool" where
  "has_id v = (case field v ''id'' of JStr s \<Rightarrow> trim s \<noteq> [] | _ \<Rightarrow> False)"

text \<open>\<open>asTimerRuleRecord\<close> and \<open>asTriggerRuleRecord\<close>.\<close>

fun as_rule :: "string \<Rightarrow> jsval \<Rightarrow> jsval option" where
  "as_rule kind (JArr vs) = first_value (map (as_rule kind) vs)"
| "as_rule kind (JObj kvs) =
     (if has_id (JObj kvs) then Some (JObj kvs)
      else case map_of kvs kind of None \<Rightarrow> None | Some v \<Rightarrow> as_rule kind v)"
| "as_rule kind _ = None"

section \<open>Listing timers\<close>

record timer_rule =
  tr_id :: string
  tr_fields :: "(string \<times> jsval) list"

definition coerce_int :: "jsval \<Rightarrow> jsval" where
  "coerce_int v = (case finite_num (int_like v) of None \<Rightarrow> JUndef | Some r \<Rightarrow> js_int (js_round r))"

text \<open>\<open>...(raw.k !== undefined ? { k: f(raw.k) } : {})\<close>\<close>

definition opt_member :: "jsval \<Rightarrow> string \<Rightarrow> (jsval \<Rightarrow> jsval) \<Rightarrow> (string \<times> jsval) list" where
  "opt_member raw k f = (if field raw k = JUndef then [] else [(k, f (field raw k))])"

definition coerce_01 :: "jsval \<Rightarrow> jsval" where
  "coerce_01 v = js_int (int (onoff_of v))"

text \<open>\<open>parseTimerXRule\<close>; the listing rounds its numbers, the patch handler keeps \<open>Number(v)\<close>.\<close>

definition parse_timer_rule :: "(jsval \<Rightarrow> jsval) \<Rightarrow> jsval \<Rightarrow> timer_rule" where
  "parse_timer_rule num raw = \<lparr>tr_id = trim (string_or_empty (field raw ''id'')),
     tr_fields = opt_member raw ''enable'' coerce_01 @ opt_member raw ''channel'' num @
       opt_member raw ''alias'' (\<lambda>v. JStr (string_or_empty v)) @ opt_member raw ''type'' num @
       opt_member raw ''week'' num @ opt_member raw ''time'' num @ opt_member raw ''sunOffset'' num @
       opt_member raw ''duration'' num @ opt_member raw ''extend'' (\<lambda>v. v)\<rparr>"

definition json_of_timer :: "timer_rule \<Rightarrow> jsval" where
  "json_of_timer r = JObj ((''id'', JStr (tr_id r)) # tr_fields r)"

definition number_of :: "jsval \<Rightarrow> jsval" where
  "number_of v = JNum (num_of v)"

text \<open>The distinct, nonempty ids of a digest in the order of their first appearance.\<close>

definition digest_ids :: "digest_entry list \<Rightarrow> string list" where
  "digest_ids ds = rev (remdups (rev (filter (\<lambda>i. i \<noteq> []) (map de_id ds))))"

text \<open>One request per id, in order; the first failure ends the loop.\<close>

fun fetch_each :: "env \<Rightarrow> (string \<Rightarrow> lan_request) \<Rightarrow> string list \<Rightarrow> world \<Rightarrow> (string \<times> jsval) list result \<times> world" where
  "fetch_each e req [] w = (Inr [], w)"
| "fetch_each e req (i # is) w =
     (case ask e (req i) w of
        (Inl m, w1) \<Rightarrow> (Inl m, w1)
      | (Inr v, w1) \<Rightarrow> (case fetch_each e req is w1 of
            (Inl m, w2) \<Rightarrow> (Inl m, w2)
          | (Inr rest, w2) \<Rightarrow> (Inr ((i, v) # rest), w2)))"

definition timer_of_answer :: "jsval \<Rightarrow> timer_rule option" where
  "timer_of_answer resp =
     (case first_some (as_rule ''timerx'' (path resp [''payload'', ''timerx'']))
                      (as_rule ''timerx'' (path resp [''payload'', ''timerx'', ''timerx''])) of
        None \<Rightarrow> None
      | Some rule \<Rightarrow> (let parsed = parse_timer_rule coerce_int rule in if tr_id parsed = [] then None else Some parsed))"

text \<open>The position of the first entry with an id, and the order of the timers.\<close>

fun first_index :: "nat \<Rightarrow> string \<Rightarrow> digest_entry list \<Rightarrow> nat option" where
  "first_index n i [] = None"
| "first_index n i (d # ds) = (if de_id d = i then Some n else first_index (Suc n) i ds)"

definition timer_cmp :: "(string \<Rightarrow> string \<Rightarrow> int) \<Rightarrow> digest_entry list \<Rightarrow> timer_rule \<Rightarrow> timer_rule \<Rightarrow> int" where
  "timer_cmp lc digest a b = (case (first_index 0 (tr_id a) digest, first_index 0 (tr_id b) digest) of
       (Some i, Some j) \<Rightarrow> int i - int j
     | (Some _, None) \<Rightarrow> - 1
     | (None, Some _) \<Rightarrow> 1
     | (None, None) \<Rightarrow> lc (tr_id a) (tr_id b))"

definition get_device_timer_x :: "(string \<Rightarrow> string \<Rightarrow> int) \<Rightarrow> handler" where
  "get_device_timer_x lc e req w =
     (let uuid = string_or_empty (field (body_of req) ''uuid'') in
      if uuid = [] then (ApiErr ''Missing uuid'' ''missing_uuid'', w)
      else with_device e uuid (\<lambda>host key.
        asking e (get_system_all (str_of host) key None) (\<lambda>all w.
          (let digest = extract_lan_timer_x_digest lc all in
           case fetch_each e (get_timer_x (str_of host) key) (digest_ids digest) w of
             (Inl m, w1) \<Rightarrow> (lan_failure m, w1)
           | (Inr raw, w1) \<Rightarrow>
               (ApiOk (JObj [(''host'', host), (''digest'', JArr (map json_of_digest digest)),
                  (''timers'', JArr (map json_of_timer (js_sort (timer_cmp lc digest)
                     (List.map_filter (\<lambda>(i, v). timer_of_answer v) raw)))),
                  (''rawById'', JObj raw)]), w1)))) w)"

definition get_device_trigger_x :: "(string \<Rightarrow> string \<Rightarrow> int) \<Rightarrow> handler" where
  "get_device_trigger_x lc e req w =
     (let uuid = string_or_empty (field (body_of req) ''uuid'') in
      if uuid = [] then (ApiErr ''Missing uuid'' ''missing_uuid'', w)
      else with_device e uuid (\<lambda>host key.
        asking e (get_system_all (str_of host) key None) (\<lambda>all w.
          (let digest = extract_lan_trigger_x_digest lc all in
           case fetch_each e (get_trigger_x (str_of host) key) (digest_ids digest) w of
             (Inl m, w1) \<Rightarrow> (lan_failure m, w1)
           | (Inr raw, w1) \<Rightarrow>
               (ApiOk (JObj [(''host'', host), (''digest'', JArr (map json_of_digest digest)), (''rawById'', JObj raw)]), w1)))) w)"

section \<open>Writing a whole rule\<close>

text \<open>\<open>set\<close> is the request that writes the rule; \<open>name\<close> is \<open>timer\<close> or \<open>trigger\<close>.\<close>

definition set_schedule :: "string \<Rightarrow> (string \<Rightarrow> string \<Rightarrow> jsval \<Rightarrow> lan_request) \<Rightarrow> handler" where
  "set_schedule name set_rule e req w =
     (let body = body_of req;
          uuid = string_or_empty (field body ''uuid'');
          rule = field body name;
          i = trim (if is_record rule then string_or_empty (field rule ''id'') else [])
      in if uuid = [] then (ApiErr ''Missing uuid'' ''missing_uuid'', w)
      else if \<not> is_record rule then (ApiErr (''Missing '' @ name) (''missing_'' @ name), w)
      else if i = [] then (ApiErr (''Missing '' @ name @ ''.id'') ''missing_id'', w)
      else with_device e uuid (\<lambda>host key. asking e (set_rule (str_of host) key rule)
             (\<lambda>resp w. (ApiOk (JObj [(''host'', host), (''id'', JStr i), (''resp'', resp)]), poll_after e uuid w))) w)"

definition set_device_timer_x :: handler where
  "set_device_timer_x = set_schedule ''timer'' set_timer_x"

definition set_device_trigger_x :: handler where
  "set_device_trigger_x = set_schedule ''trigger'' set_trigger_x"

section \<open>Changing members of a timer\<close>

text \<open>The members a patch may name, besides \<open>toggleOnoff\<close>, in the order the handler checks them.
  A change is the new value of the member, or the error of an invalid one.\<close>

definition as_finite_int :: "jsval \<Rightarrow> int option" where
  "as_finite_int v = map_option js_round (finite_num (int_like v))"

definition patched_int :: "string \<Rightarrow> string \<Rightarrow> string \<Rightarrow> bool \<Rightarrow> jsval \<Rightarrow> jsval \<Rightarrow> (string \<times> string) + jsval" where
  "patched_int k message code nonneg patch rule =
     (if field patch k = JUndef then Inr rule
      else case as_finite_int (field patch k) of
          None \<Rightarrow> Inl (message, code)
        | Some n \<Rightarrow> if nonneg \<and> n < 0 then Inl (message, code) else Inr (set_field rule k (js_int n)))"

fun bind_err :: "('e + 'a) \<Rightarrow> ('a \<Rightarrow> 'e + 'b) \<Rightarrow> 'e + 'b" where
  "bind_err (Inl e) f = Inl e"
| "bind_err (Inr x) f = f x"

definition patched_toggle :: "jsval \<Rightarrow> jsval \<Rightarrow> (string \<times> string) + jsval" where
  "patched_toggle patch rule =
     (if field patch ''toggleOnoff'' = JUndef then Inr rule
      else let extend = field rule ''extend''; toggle = field extend ''toggle'' in
        if is_record extend \<and> is_record toggle \<and> field toggle ''onoff'' \<noteq> JUndef
        then Inr (set_field rule ''extend'' (set_field extend ''toggle''
               (set_field toggle ''onoff'' (coerce_01 (field patch ''toggleOnoff'')))))
        else Inl (''TimerX rule does not support extend.toggle.onoff'', ''unsupported_action''))"

definition patched_rule :: "jsval \<Rightarrow> jsval \<Rightarrow> (string \<times> string) + jsval" where
  "patched_rule patch rule =
     (let r1 = (if field patch ''enable'' = JUndef then rule else set_field rule ''enable'' (coerce_01 (field patch ''enable'')));
          r2 = (if field patch ''alias'' = JUndef then r1 else set_field r1 ''alias'' (JStr (string_or_empty (field patch ''alias''))))
      in bind_err (patched_int ''channel'' ''Invalid channel'' ''invalid_channel'' True patch r2)
        (\<lambda>r. bind_err (patched_int ''type'' ''Invalid type'' ''invalid_type'' False patch r)
        (\<lambda>r. bind_err (patched_int ''week'' ''Invalid week'' ''invalid_week'' False patch r)
        (\<lambda>r. bind_err (patched_int ''time'' ''Invalid time'' ''invalid_time'' False patch r)
        (\<lambda>r. bind_err (patched_int ''sunOffset'' ''Invalid sunOffset'' ''invalid_sunoffset'' False patch r)
        (\<lambda>r. bind_err (patched_int ''duration'' ''Invalid duration'' ''invalid_duration'' False patch r)
        (patched_toggle patch)))))))"

definition patch_members :: "string list" where
  "patch_members = [''enable'', ''toggleOnoff'', ''alias'', ''channel'', ''type'', ''week'', ''time'', ''sunOffset'', ''duration'']"

definition patch_device_timer_x :: handler where
  "patch_device_timer_x e req w =
     (let body = body_of req;
          uuid = string_or_empty (field body ''uuid'');
          i = trim (string_or_empty (field body ''id''));
          patch = (if is_record (field body ''patch'') then field body ''patch'' else JObj [])
      in if uuid = [] then (ApiErr ''Missing uuid'' ''missing_uuid'', w)
      else if i = [] then (ApiErr ''Missing id'' ''missing_id'', w)
      else if list_all (\<lambda>k. field patch k = JUndef) patch_members
           then (ApiErr ''No patch fields provided'' ''missing_fields'', w)
      else with_device e uuid (\<lambda>host key. asking e (get_timer_x (str_of host) key i) (\<lambda>current w.
        (case as_rule ''timerx'' (path current [''payload'', ''timerx'']) of
           None \<Rightarrow> (ApiErr ''TimerX rule not found in response'' ''timerx_not_found'', w)
         | Some rule \<Rightarrow>
            (case patched_rule patch rule of
               Inl (m, c) \<Rightarrow> (ApiErr m c, w)
             | Inr new \<Rightarrow> asking e (set_timer_x (str_of host) key new) (\<lambda>resp w.
                 (ApiOk (JObj [(''host'', host), (''id'', JStr i),
                    (''updated'', json_of_timer (parse_timer_rule number_of new)), (''resp'', resp)]),
                  poll_after e uuid w)) w)))) w)"

section \<open>Deleting a rule\<close>

definition lan_error_code :: "jsval \<Rightarrow> int option" where
  "lan_error_code resp = as_finite_int (path resp [''payload'', ''error'', ''code''])"

definition accepted :: "jsval \<Rightarrow> bool" where
  "accepted resp \<longleftrightarrow> (case lan_error_code resp of None \<Rightarrow> True | Some c \<Rightarrow> c = 0)"

text \<open>From the rule to the response: \<open>enable = -1\<close>, and if the device refuses it, \<open>enable = 0\<close>.\<close>

definition delete_rule ::
  "string \<Rightarrow> string \<Rightarrow> (jsval \<Rightarrow> lan_request) \<Rightarrow> env \<Rightarrow> string \<Rightarrow> jsval \<Rightarrow> string \<Rightarrow> jsval \<Rightarrow> world \<Rightarrow> api_response \<times> world" where
  "delete_rule label code set_rule e uuid host i rule w =
     (let reply = (\<lambda>deleted resp w. (ApiOk (JObj [(''host'', host), (''id'', JStr i), (''deleted'', JBool deleted),
                     (''disabled'', JBool (\<not> deleted)), (''resp'', resp)]), poll_after e uuid w))
      in asking e (set_rule (set_field rule ''enable'' (js_int (- 1)))) (\<lambda>resp w.
           if accepted resp then reply True resp w
           else asking e (set_rule (set_field rule ''enable'' (js_int 0))) (\<lambda>resp w.
             (case lan_error_code resp of
                None \<Rightarrow> reply False resp w
              | Some c \<Rightarrow>
                  if c = 0 then reply False resp w
                  else (ApiErrWith (label @ '' delete failed (error code '' @ dec_of_int c @ '')'') code resp, w))) w) w)"

definition delete_device_timer_x :: handler where
  "delete_device_timer_x e req w =
     (let body = body_of req;
          uuid = string_or_empty (field body ''uuid'');
          i = trim (string_or_empty (field body ''id''))
      in if uuid = [] then (ApiErr ''Missing uuid'' ''missing_uuid'', w)
      else if i = [] then (ApiErr ''Missing id'' ''missing_id'', w)
      else with_device e uuid (\<lambda>host key. asking e (get_timer_x (str_of host) key i) (\<lambda>current w.
        (case as_rule ''timerx'' (path current [''payload'', ''timerx'']) of
           None \<Rightarrow> (ApiErr ''TimerX rule not found in response'' ''timerx_not_found'', w)
         | Some rule \<Rightarrow> delete_rule ''TimerX'' ''timerx_delete_failed'' (set_timer_x (str_of host) key) e uuid host i rule w))) w)"

text \<open>A trigger is deleted even when the device does not say what it is.\<close>

definition delete_device_trigger_x :: handler where
  "delete_device_trigger_x e req w =
     (let body = body_of req;
          uuid = string_or_empty (field body ''uuid'');
          i = trim (string_or_empty (field body ''id''))
      in if uuid = [] then (ApiErr ''Missing uuid'' ''missing_uuid'', w)
      else if i = [] then (ApiErr ''Missing id'' ''missing_id'', w)
      else with_device e uuid (\<lambda>host key w.
        (let (current, w1) = ask e (get_trigger_x (str_of host) key i) w;
             rule = (case current of
                 Inl _ \<Rightarrow> None
               | Inr v \<Rightarrow> if truthy v then as_rule ''triggerx'' (path v [''payload'', ''triggerx'']) else None)
         in delete_rule ''TriggerX'' ''triggerx_delete_failed'' (set_trigger_x (str_of host) key) e uuid host i
              (or_else rule (JObj [(''id'', JStr i)])) w1)) w)"

section \<open>Properties\<close>

subsection \<open>Rules found\<close>

lemma first_value_Some: "first_value xs = Some y \<Longrightarrow> Some y \<in> set xs"
  by (induction xs) (auto simp: first_value_def List.map_filter_simps split: option.splits list.splits)

lemma as_rule_sound: "as_rule kind v = Some r \<Longrightarrow> is_record r \<and> has_id r"
proof (induction kind v rule: as_rule.induct)
  case (1 kind vs)
  then obtain v where "v \<in> set vs" "as_rule kind v = Some r" by (auto dest!: first_value_Some)
  with 1 show ?case by blast
next
  case (2 kind kvs)
  then show ?case by (auto split: if_splits option.splits)
qed simp_all

subsection \<open>Patches\<close>

text \<open>What a member of the rule should be after the patch.\<close>

definition patched_member :: "jsval \<Rightarrow> jsval \<Rightarrow> string \<Rightarrow> jsval" where
  "patched_member patch rule k =
     (if k = ''extend'' \<and> field patch ''toggleOnoff'' \<noteq> JUndef then
        set_field (field rule ''extend'') ''toggle'' (set_field (field (field rule ''extend'') ''toggle'') ''onoff''
          (coerce_01 (field patch ''toggleOnoff'')))
      else if k = ''toggleOnoff'' \<or> \<not> List.member patch_members k \<or> field patch k = JUndef then field rule k
      else if k = ''enable'' then coerce_01 (field patch k)
      else if k = ''alias'' then JStr (string_or_empty (field patch k))
      else (case as_finite_int (field patch k) of None \<Rightarrow> JUndef | Some n \<Rightarrow> js_int n))"

lemma bind_err_Inr: "bind_err m f = Inr y \<longleftrightarrow> (\<exists>x. m = Inr x \<and> f x = Inr y)"
  by (cases m) auto

lemma patched_int_Inr:
  "patched_int k message code nonneg patch rule = Inr new \<Longrightarrow> is_record rule \<Longrightarrow>
     is_record new \<and> (\<forall>j. field new j = (if j = k \<and> field patch k \<noteq> JUndef
       then (case as_finite_int (field patch k) of None \<Rightarrow> JUndef | Some n \<Rightarrow> js_int n) else field rule j))"
  by (auto simp: patched_int_def split: if_splits option.splits)

lemma patched_toggle_Inr:
  "patched_toggle patch rule = Inr new \<Longrightarrow> is_record rule \<Longrightarrow>
     is_record new \<and> (\<forall>j. field new j = (if j = ''extend'' \<and> field patch ''toggleOnoff'' \<noteq> JUndef
       then set_field (field rule ''extend'') ''toggle'' (set_field (field (field rule ''extend'') ''toggle'') ''onoff''
          (coerce_01 (field patch ''toggleOnoff''))) else field rule j))"
  by (auto simp: patched_toggle_def Let_def split: if_splits)

lemma patched_rule_members:
  assumes "patched_rule patch rule = Inr new" "is_record rule"
  shows "is_record new \<and> (\<forall>k. field new k = patched_member patch rule k)"
proof -
  define r1 where "r1 = (if field patch ''enable'' = JUndef then rule else set_field rule ''enable'' (coerce_01 (field patch ''enable'')))"
  define r2 where "r2 = (if field patch ''alias'' = JUndef then r1 else set_field r1 ''alias'' (JStr (string_or_empty (field patch ''alias''))))"
  have r2: "is_record r2" "field r2 j = (if j = ''alias'' \<and> field patch ''alias'' \<noteq> JUndef
      then JStr (string_or_empty (field patch ''alias''))
      else if j = ''enable'' \<and> field patch ''enable'' \<noteq> JUndef then coerce_01 (field patch ''enable'') else field rule j)" for j
    using assms(2) by (simp_all add: r2_def r1_def)
  obtain r3 r4 r5 r6 r7 r8 where step:
    "patched_int ''channel'' ''Invalid channel'' ''invalid_channel'' True patch r2 = Inr r3"
    "patched_int ''type'' ''Invalid type'' ''invalid_type'' False patch r3 = Inr r4"
    "patched_int ''week'' ''Invalid week'' ''invalid_week'' False patch r4 = Inr r5"
    "patched_int ''time'' ''Invalid time'' ''invalid_time'' False patch r5 = Inr r6"
    "patched_int ''sunOffset'' ''Invalid sunOffset'' ''invalid_sunoffset'' False patch r6 = Inr r7"
    "patched_int ''duration'' ''Invalid duration'' ''invalid_duration'' False patch r7 = Inr r8"
    "patched_toggle patch r8 = Inr new"
    using assms(1) unfolding patched_rule_def Let_def r1_def [symmetric] r2_def [symmetric]
    by (auto simp: bind_err_Inr)
  note f3 = patched_int_Inr [OF step(1) r2(1)]
  note f4 = patched_int_Inr [OF step(2) f3 [THEN conjunct1]]
  note f5 = patched_int_Inr [OF step(3) f4 [THEN conjunct1]]
  note f6 = patched_int_Inr [OF step(4) f5 [THEN conjunct1]]
  note f7 = patched_int_Inr [OF step(5) f6 [THEN conjunct1]]
  note f8 = patched_int_Inr [OF step(6) f7 [THEN conjunct1]]
  note f9 = patched_toggle_Inr [OF step(7) f8 [THEN conjunct1]]
  note eqs = f9 [THEN conjunct2, rule_format] f8 [THEN conjunct2, rule_format] f7 [THEN conjunct2, rule_format]
    f6 [THEN conjunct2, rule_format] f5 [THEN conjunct2, rule_format] f4 [THEN conjunct2, rule_format]
    f3 [THEN conjunct2, rule_format] r2(2)
  have "field new k = patched_member patch rule k" for k
  proof (cases "k \<in> set (''extend'' # patch_members)")
    case True
    then show ?thesis
      unfolding patch_members_def list.set
      by (elim insertE emptyE) (simp_all add: eqs patched_member_def patch_members_def)
  next
    case False
    then show ?thesis by (simp add: eqs patched_member_def patch_members_def)
  qed
  with f9 show ?thesis by blast
qed

lemma patch_keeps_id: "patched_member patch rule ''id'' = field rule ''id''"
  by (simp add: patched_member_def patch_members_def)

text \<open>A response that is an error without anything but reads having been sent, and without a poll.\<close>

definition only_read :: "world \<Rightarrow> api_response \<Rightarrow> world \<Rightarrow> lan_request list \<Rightarrow> bool" where
  "only_read w resp w' sent \<longleftrightarrow> w_sent w' = w_sent w @ sent \<and> w_polled w' = w_polled w \<and> w_db w' = w_db w \<and>
     \<not> is_api_ok resp \<and> list_all (\<lambda>r. lr_method r = ''GET'') sent"

lemma get_timer_method [simp]: "lr_method (get_timer_x h k i) = ''GET''"
  by (simp add: get_timer_x_def)

lemma only_read_intros [intro]:
  "\<not> is_api_ok resp \<Longrightarrow> only_read w resp w []"
  "\<not> is_api_ok resp \<Longrightarrow> lr_method r = ''GET'' \<Longrightarrow> only_read w resp (w\<lparr>w_sent := w_sent w @ [r]\<rparr>) [r]"
  by (simp_all add: only_read_def)

text \<open>The patch of a request; requests refused before anything is sent; and the run of the others.\<close>

definition patch_of :: "api_request \<Rightarrow> jsval" where
  "patch_of req = (if is_record (field (body_of req) ''patch'') then field (body_of req) ''patch'' else JObj [])"

definition patch_bad :: "api_request \<Rightarrow> bool" where
  "patch_bad req \<longleftrightarrow> string_or_empty (field (body_of req) ''uuid'') = [] \<or> trim (string_or_empty (field (body_of req) ''id'')) = [] \<or>
     list_all (\<lambda>k. field (patch_of req) k = JUndef) patch_members"

lemma patch_refused:
  assumes "patch_bad req \<or> \<not> is_ok (host_and_key e (string_or_empty (field (body_of req) ''uuid'')))"
  shows "\<exists>resp. patch_device_timer_x e req w = (resp, w) \<and> \<not> is_api_ok resp"
  using assms unfolding patch_device_timer_x_def Let_def patch_of_def [symmetric] patch_bad_def
  by (cases "host_and_key e (string_or_empty (field (body_of req) ''uuid''))") (auto simp: with_device_def lan_failure_def)

lemma patch_run:
  assumes "\<not> patch_bad req" "host_and_key e (string_or_empty (field (body_of req) ''uuid'')) = Inr (host, key)"
  shows "patch_device_timer_x e req w =
    asking e (get_timer_x (str_of host) key (trim (string_or_empty (field (body_of req) ''id'')))) (\<lambda>current w.
      (case as_rule ''timerx'' (path current [''payload'', ''timerx'']) of
         None \<Rightarrow> (ApiErr ''TimerX rule not found in response'' ''timerx_not_found'', w)
       | Some rule \<Rightarrow>
          (case patched_rule (patch_of req) rule of
             Inl (m, c) \<Rightarrow> (ApiErr m c, w)
           | Inr new \<Rightarrow> asking e (set_timer_x (str_of host) key new) (\<lambda>resp w.
               (ApiOk (JObj [(''host'', host), (''id'', JStr (trim (string_or_empty (field (body_of req) ''id'')))),
                  (''updated'', json_of_timer (parse_timer_rule number_of new)), (''resp'', resp)]),
                poll_after e (string_or_empty (field (body_of req) ''uuid'')) w)) w))) w"
  using assms unfolding patch_device_timer_x_def Let_def patch_of_def [symmetric] patch_bad_def by (simp add: with_device_def)

text \<open>C13. Patching a timer: either the request fails having at most read the rule, or exactly two
  requests go out, one that reads the rule with the id and one that writes back the rule found in
  the answer, in which every member is what the patch makes of it: the named numbers rounded, the
  switches 0 or 1, the nested on/off state, and everything else, the id included, as the device
  sent it. The reply is positive exactly when the device answers the second request.\<close>

theorem patch_changes_only_named:
  "case patch_device_timer_x e req w of (resp, w') \<Rightarrow>
     (let i = trim (string_or_empty (field (body_of req) ''id''));
          uuid = string_or_empty (field (body_of req) ''uuid'');
          patch = (if is_record (field (body_of req) ''patch'') then field (body_of req) ''patch'' else JObj []) in
      (\<exists>sent. only_read w resp w' sent) \<or>
      (\<exists>host key v rule new. host_and_key e uuid = Inr (host, key) \<and>
         w_sent w' = w_sent w @ [get_timer_x (str_of host) key i, set_timer_x (str_of host) key new] \<and>
         e_lan e (w_sent w) (get_timer_x (str_of host) key i) = Inr v \<and>
         as_rule ''timerx'' (path v [''payload'', ''timerx'']) = Some rule \<and> has_id rule \<and>
         (\<forall>k. field new k = patched_member patch rule k) \<and> field new ''id'' = field rule ''id'' \<and>
         (case e_lan e (w_sent w @ [get_timer_x (str_of host) key i]) (set_timer_x (str_of host) key new) of
            Inl m \<Rightarrow> resp = ApiErr m ''lan_error'' \<and> w_polled w' = w_polled w
          | Inr r \<Rightarrow> (\<exists>d. resp = ApiOk d \<and> field d ''resp'' = r) \<and>
              w_polled w' = w_polled w @ (if e_poll e = None then [] else [uuid]))))"
proof -
  define i where "i = trim (string_or_empty (field (body_of req) ''id''))"
  define uuid where "uuid = string_or_empty (field (body_of req) ''uuid'')"
  note folds = i_def [symmetric] uuid_def [symmetric] patch_of_def [symmetric]
  show ?thesis
  proof (cases "patch_bad req \<or> \<not> is_ok (host_and_key e uuid)")
    case True
    then obtain resp where "patch_device_timer_x e req w = (resp, w)" "\<not> is_api_ok resp"
      using patch_refused [of req e w] unfolding folds by blast
    then show ?thesis unfolding Let_def by auto
  next
    case False
    then obtain host key where hk: "host_and_key e uuid = Inr (host, key)" by (cases "host_and_key e uuid") auto
    define get where "get = get_timer_x (str_of host) key i"
    note run = patch_run [of req e host key w, unfolded folds, OF _ hk, folded get_def]
    show ?thesis
    proof (cases "\<exists>v rule new. e_lan e (w_sent w) get = Inr v \<and>
        as_rule ''timerx'' (path v [''payload'', ''timerx'']) = Some rule \<and> patched_rule (patch_of req) rule = Inr new")
      case no: False
      define w1 where "w1 = w\<lparr>w_sent := w_sent w @ [get]\<rparr>"
      have "\<exists>resp. patch_device_timer_x e req w = (resp, w1) \<and> \<not> is_api_ok resp"
        using False no by (auto simp: run asking_def lan_failure_def w1_def split: sum.splits option.splits)
      then obtain resp where r: "patch_device_timer_x e req w = (resp, w1)" "\<not> is_api_ok resp" by blast
      have "only_read w resp w1 [get]"
        unfolding w1_def get_def by (rule only_read_intros(2)) (use r(2) in simp_all)
      with r(1) show ?thesis unfolding Let_def by auto
    next
      case True
      then obtain v rule new where ok: "e_lan e (w_sent w) get = Inr v"
        "as_rule ''timerx'' (path v [''payload'', ''timerx'']) = Some rule" "patched_rule (patch_of req) rule = Inr new" by blast
      note rule = as_rule_sound [OF ok(2)]
      note new = patched_rule_members [OF ok(3) rule [THEN conjunct1]]
      then have id: "field new ''id'' = field rule ''id''" by (simp add: patch_keeps_id)
      show ?thesis
        unfolding Let_def folds split_def
        by (rule disjI2, rule exI [of _ host], rule exI [of _ key], rule exI [of _ v], rule exI [of _ rule], rule exI [of _ new])
          (use False ok rule new id hk in \<open>simp add: run asking_def lan_failure_def flip: get_def split: sum.split\<close>)
    qed
  qed
qed

subsection \<open>Deletion\<close>

text \<open>The outcome of a deletion, for what the device answers.\<close>

definition deletes :: "(jsval \<Rightarrow> lan_request) \<Rightarrow> env \<Rightarrow> string \<Rightarrow> jsval \<Rightarrow> world \<Rightarrow> api_response \<Rightarrow> world \<Rightarrow> bool" where
  "deletes set_rule e uuid rule w resp w' \<longleftrightarrow>
     (\<exists>hard soft. (\<forall>k. field hard k = (if k = ''enable'' then js_int (- 1) else field rule k)) \<and>
        (\<forall>k. field soft k = (if k = ''enable'' then js_int 0 else field rule k)) \<and>
        (case e_lan e (w_sent w) (set_rule hard) of
           Inl m \<Rightarrow> resp = ApiErr m ''lan_error'' \<and> w' = w\<lparr>w_sent := w_sent w @ [set_rule hard]\<rparr>
         | Inr a \<Rightarrow>
             if accepted a then
               (\<exists>d. resp = ApiOk d \<and> field d ''deleted'' = JBool True \<and> field d ''disabled'' = JBool False) \<and>
               w' = poll_after e uuid (w\<lparr>w_sent := w_sent w @ [set_rule hard]\<rparr>)
             else (case e_lan e (w_sent w @ [set_rule hard]) (set_rule soft) of
                 Inl m \<Rightarrow> resp = ApiErr m ''lan_error'' \<and> w' = w\<lparr>w_sent := w_sent w @ [set_rule hard, set_rule soft]\<rparr>
               | Inr b \<Rightarrow>
                   if accepted b then
                     (\<exists>d. resp = ApiOk d \<and> field d ''deleted'' = JBool False \<and> field d ''disabled'' = JBool True) \<and>
                     w' = poll_after e uuid (w\<lparr>w_sent := w_sent w @ [set_rule hard, set_rule soft]\<rparr>)
                   else (\<exists>m c. resp = ApiErrWith m c b) \<and>
                     w' = w\<lparr>w_sent := w_sent w @ [set_rule hard, set_rule soft]\<rparr>)))"

lemma delete_rule_deletes:
  assumes "is_record rule" "delete_rule label code set_rule e uuid host i rule w = (resp, w')"
  shows "deletes set_rule e uuid rule w resp w'"
proof -
  have "deletes set_rule e uuid rule w (fst (delete_rule label code set_rule e uuid host i rule w))
      (snd (delete_rule label code set_rule e uuid host i rule w))"
    unfolding deletes_def
    by (rule exI [of _ "set_field rule ''enable'' (js_int (- 1))"], rule exI [of _ "set_field rule ''enable'' (js_int 0)"])
      (simp add: assms(1) delete_rule_def Let_def asking_def lan_failure_def accepted_def split: sum.split option.split)
  then show ?thesis by (simp add: assms(2))
qed

lemma delete_timer_effect:
  "case delete_device_timer_x e req w of (resp, w') \<Rightarrow>
      (\<exists>sent. only_read w resp w' sent) \<or>
      (\<exists>host key v rule. as_rule ''timerx'' (path v [''payload'', ''timerx'']) = Some rule \<and>
         (let get = get_timer_x (str_of host) key (trim (string_or_empty (field (body_of req) ''id''))) in
          e_lan e (w_sent w) get = Inr v \<and>
          deletes (set_timer_x (str_of host) key) e (string_or_empty (field (body_of req) ''uuid'')) rule
            (w\<lparr>w_sent := w_sent w @ [get]\<rparr>) resp w'))"
proof -
  define i where "i = trim (string_or_empty (field (body_of req) ''id''))"
  define uuid where "uuid = string_or_empty (field (body_of req) ''uuid'')"
  note folds = i_def [symmetric] uuid_def [symmetric]
  show ?thesis
  proof (cases "uuid = [] \<or> i = [] \<or> \<not> is_ok (host_and_key e uuid)")
    case True
    then have "\<exists>resp. delete_device_timer_x e req w = (resp, w) \<and> \<not> is_api_ok resp"
      unfolding delete_device_timer_x_def Let_def folds
      by (cases "host_and_key e uuid") (auto simp: with_device_def lan_failure_def)
    then obtain resp where r: "delete_device_timer_x e req w = (resp, w)" "\<not> is_api_ok resp" by blast
    show ?thesis
      unfolding r(1) prod.case by (rule disjI1, rule exI [of _ "[]"], rule only_read_intros(1) [OF r(2)])
  next
    case False
    then obtain host key where hk: "host_and_key e uuid = Inr (host, key)" by (cases "host_and_key e uuid") auto
    define get where "get = get_timer_x (str_of host) key i"
    have run: "delete_device_timer_x e req w = asking e get (\<lambda>current w.
        (case as_rule ''timerx'' (path current [''payload'', ''timerx'']) of
           None \<Rightarrow> (ApiErr ''TimerX rule not found in response'' ''timerx_not_found'', w)
         | Some rule \<Rightarrow> delete_rule ''TimerX'' ''timerx_delete_failed'' (set_timer_x (str_of host) key) e uuid host i rule w)) w"
      using False unfolding delete_device_timer_x_def Let_def folds get_def by (simp add: with_device_def hk)
    show ?thesis
    proof (cases "\<exists>v rule. e_lan e (w_sent w) get = Inr v \<and> as_rule ''timerx'' (path v [''payload'', ''timerx'']) = Some rule")
      case True
      then obtain v rule where ok: "e_lan e (w_sent w) get = Inr v"
        "as_rule ''timerx'' (path v [''payload'', ''timerx'']) = Some rule" by blast
      obtain resp w' where d: "delete_rule ''TimerX'' ''timerx_delete_failed'' (set_timer_x (str_of host) key) e uuid host i rule
          (w\<lparr>w_sent := w_sent w @ [get]\<rparr>) = (resp, w')" by fastforce
      have r: "delete_device_timer_x e req w = (resp, w')" using ok d by (simp add: run asking_def)
      show ?thesis
        unfolding r prod.case Let_def folds
        by (rule disjI2, rule exI [of _ host], rule exI [of _ key], rule exI [of _ v], rule exI [of _ rule])
          (use delete_rule_deletes [OF as_rule_sound [OF ok(2), THEN conjunct1] d] ok in \<open>simp flip: get_def\<close>)
    next
      case False
      then have "\<exists>resp. delete_device_timer_x e req w = (resp, w\<lparr>w_sent := w_sent w @ [get]\<rparr>) \<and> \<not> is_api_ok resp"
        unfolding run by (auto simp: asking_def lan_failure_def split: sum.splits option.splits)
      then obtain resp where r: "delete_device_timer_x e req w = (resp, w\<lparr>w_sent := w_sent w @ [get]\<rparr>)" "\<not> is_api_ok resp" by blast
      show ?thesis
        unfolding r(1) prod.case
        by (rule disjI1, rule exI [of _ "[get]"], rule only_read_intros(2) [OF r(2)]) (simp add: get_def)
    qed
  qed
qed

lemma delete_trigger_effect:
  "case delete_device_trigger_x e req w of (resp, w') \<Rightarrow>
      w' = w \<and> \<not> is_api_ok resp \<or>
      (\<exists>host key rule.
         (let i = trim (string_or_empty (field (body_of req) ''id''));
              get = get_trigger_x (str_of host) key i in
          (case e_lan e (w_sent w) get of
             Inl _ \<Rightarrow> rule = JObj [(''id'', JStr i)]
           | Inr v \<Rightarrow> rule = or_else (as_rule ''triggerx'' (path v [''payload'', ''triggerx''])) (JObj [(''id'', JStr i)])) \<and>
          deletes (set_trigger_x (str_of host) key) e (string_or_empty (field (body_of req) ''uuid'')) rule
            (w\<lparr>w_sent := w_sent w @ [get]\<rparr>) resp w'))"
proof -
  define i where "i = trim (string_or_empty (field (body_of req) ''id''))"
  define uuid where "uuid = string_or_empty (field (body_of req) ''uuid'')"
  note folds = i_def [symmetric] uuid_def [symmetric]
  show ?thesis
  proof (cases "uuid = [] \<or> i = [] \<or> \<not> is_ok (host_and_key e uuid)")
    case True
    then have "\<exists>resp. delete_device_trigger_x e req w = (resp, w) \<and> \<not> is_api_ok resp"
      unfolding delete_device_trigger_x_def Let_def folds
      by (cases "host_and_key e uuid") (auto simp: with_device_def lan_failure_def)
    then obtain resp where r: "delete_device_trigger_x e req w = (resp, w)" "\<not> is_api_ok resp" by blast
    show ?thesis unfolding r(1) prod.case by (rule disjI1) (simp add: r(2))
  next
    case False
    then obtain host key where hk: "host_and_key e uuid = Inr (host, key)" by (cases "host_and_key e uuid") auto
    define get where "get = get_trigger_x (str_of host) key i"
    define rule where "rule = or_else (case e_lan e (w_sent w) get of Inl _ \<Rightarrow> None
      | Inr v \<Rightarrow> if truthy v then as_rule ''triggerx'' (path v [''payload'', ''triggerx'']) else None) (JObj [(''id'', JStr i)])"
    have rec: "is_record rule"
      unfolding rule_def by (auto simp: or_else_def dest: as_rule_sound split: sum.splits option.splits)
    have falsy: "as_rule ''triggerx'' (path v [''payload'', ''triggerx'']) = None" if "\<not> truthy v" for v
      using that by (simp add: falsy_field)
    obtain resp w' where d: "delete_rule ''TriggerX'' ''triggerx_delete_failed'' (set_trigger_x (str_of host) key) e uuid host i rule
        (w\<lparr>w_sent := w_sent w @ [get]\<rparr>) = (resp, w')" by fastforce
    have r: "delete_device_trigger_x e req w = (resp, w')"
      using False d unfolding delete_device_trigger_x_def Let_def folds by (simp add: with_device_def hk rule_def flip: get_def)
    show ?thesis
      unfolding r prod.case Let_def folds
      by (rule disjI2, rule exI [of _ host], rule exI [of _ key], rule exI [of _ rule])
        (use delete_rule_deletes [OF rec d] falsy in \<open>auto simp: rule_def simp flip: get_def split: sum.split\<close>)
  qed
qed

text \<open>C27. Deleting a rule: the device is asked to take back its own rule with nothing changed but
  \<open>enable = -1\<close>; if it refuses with an error code, the rule is sent once more with \<open>enable = 0\<close>.
  The reply says deleted exactly in the first case and disabled exactly in the second, is an error
  if that is refused too, and a poll is asked for only after success. A timer the device does not
  show is not deleted; a trigger is, by its id alone.\<close>

theorem delete_hard_then_soft:
  "(case delete_device_timer_x e req w of (resp, w') \<Rightarrow>
      (\<exists>sent. only_read w resp w' sent) \<or>
      (\<exists>host key v rule. as_rule ''timerx'' (path v [''payload'', ''timerx'']) = Some rule \<and>
         (let get = get_timer_x (str_of host) key (trim (string_or_empty (field (body_of req) ''id''))) in
          e_lan e (w_sent w) get = Inr v \<and>
          deletes (set_timer_x (str_of host) key) e (string_or_empty (field (body_of req) ''uuid'')) rule
            (w\<lparr>w_sent := w_sent w @ [get]\<rparr>) resp w'))) \<and>
   (case delete_device_trigger_x e req w of (resp, w') \<Rightarrow>
      w' = w \<and> \<not> is_api_ok resp \<or>
      (\<exists>host key rule.
         (let i = trim (string_or_empty (field (body_of req) ''id''));
              get = get_trigger_x (str_of host) key i in
          (case e_lan e (w_sent w) get of
             Inl _ \<Rightarrow> rule = JObj [(''id'', JStr i)]
           | Inr v \<Rightarrow> rule = or_else (as_rule ''triggerx'' (path v [''payload'', ''triggerx''])) (JObj [(''id'', JStr i)])) \<and>
          deletes (set_trigger_x (str_of host) key) e (string_or_empty (field (body_of req) ''uuid'')) rule
            (w\<lparr>w_sent := w_sent w @ [get]\<rparr>) resp w')))"
  using delete_timer_effect delete_trigger_effect by (rule conjI)

subsection \<open>Listing\<close>

lemma fetch_each_ok:
  "fetch_each e req is w = (Inr raw, w') \<Longrightarrow>
     map fst raw = is \<and> w_sent w' = w_sent w @ map req is \<and> w_polled w' = w_polled w \<and> w_db w' = w_db w"
proof (induction "is" arbitrary: w raw w')
  case (Cons i "is")
  then show ?case by (auto split: sum.splits prod.splits)
qed simp

lemma fetch_each_sends:
  "fetch_each e req is w = (res, w') \<Longrightarrow> \<exists>n. w_sent w' = w_sent w @ map req (take n is) \<and> w_polled w' = w_polled w"
proof (induction "is" arbitrary: w res w')
  case (Cons i "is")
  show ?case
  proof (cases "e_lan e (w_sent w) (req i)")
    case (Inl m)
    with Cons.prems show ?thesis by (auto intro: exI [of _ 1])
  next
    case (Inr v)
    obtain res2 w2 where r: "fetch_each e req is (w\<lparr>w_sent := w_sent w @ [req i]\<rparr>) = (res2, w2)" by fastforce
    from Cons.IH [OF r] obtain n where "w_sent w2 = w_sent w @ req i # map req (take n is)" "w_polled w2 = w_polled w" by auto
    moreover have "w' = w2" using Cons.prems Inr r by (auto split: sum.splits)
    ultimately show ?thesis by (intro exI [of _ "Suc n"]) simp
  qed
qed simp

lemma first_index_bound: "first_index n i ds = Some j \<Longrightarrow> n \<le> j"
  by (induction ds arbitrary: n) (auto split: if_splits dest: Suc_leD)

lemma digest_ids_facts: "distinct (digest_ids ds)" "set (digest_ids ds) = de_id ` set ds - {[]}"
  by (auto simp: digest_ids_def)

context collation begin

text \<open>The order of the timers, a comparator when the order of the ids is one.\<close>

lemma comparator_timer_cmp: "comparator (timer_cmp lc digest)"
proof
  fix x y z
  show "sgn (timer_cmp lc digest x y) = - sgn (timer_cmp lc digest y x)"
    using cmp_swap [of "tr_id x" "tr_id y"]
    by (cases "first_index 0 (tr_id x) digest"; cases "first_index 0 (tr_id y) digest")
      (simp_all add: timer_cmp_def, simp add: sgn_if)
  assume "timer_cmp lc digest x y \<le> 0" "timer_cmp lc digest y z \<le> 0"
  then show "timer_cmp lc digest x z \<le> 0"
    using cmp_trans [of "tr_id x" "tr_id y" "tr_id z"] by (auto simp: timer_cmp_def split: option.splits)
qed

end

text \<open>The order the list is meant to have: by first appearance of the id in the digest, timers
  without one last.\<close>

definition digest_order :: "digest_entry list \<Rightarrow> timer_rule \<Rightarrow> timer_rule \<Rightarrow> bool" where
  "digest_order digest a b \<longleftrightarrow> (case (first_index 0 (tr_id a) digest, first_index 0 (tr_id b) digest) of
       (Some i, Some j) \<Rightarrow> i \<le> j | (None, Some _) \<Rightarrow> False | _ \<Rightarrow> True)"

lemma timer_cmp_order: "timer_cmp lc digest a b \<le> 0 \<Longrightarrow> digest_order digest a b"
  by (auto simp: timer_cmp_def digest_order_def split: option.splits)

text \<open>The list of timers: when it is returned, the device was asked for its digest once and then
  for each of its distinct nonempty ids once, in the order of their appearance, and nothing else was
  sent; every answer is in the reply under its id, and the timers are exactly the readable rules
  found in these answers, in the order of the digest.\<close>

theorem timers_listed:
  assumes "collation lc" "get_device_timer_x lc e req w = (ApiOk d, w')"
  shows "\<exists>host key all raw ts. host_and_key e (string_or_empty (field (body_of req) ''uuid'')) = Inr (host, key) \<and>
    e_lan e (w_sent w) (get_system_all (str_of host) key None) = Inr all \<and>
    (let digest = extract_lan_timer_x_digest lc all; ids = digest_ids digest in
      w_sent w' = w_sent w @ get_system_all (str_of host) key None # map (get_timer_x (str_of host) key) ids \<and>
      w_polled w' = w_polled w \<and> distinct ids \<and> set ids = de_id ` set digest - {[]} \<and>
      field d ''rawById'' = JObj raw \<and> map fst raw = ids \<and>
      field d ''timers'' = JArr (map json_of_timer ts) \<and>
      mset ts = mset (List.map_filter (\<lambda>(i, v). timer_of_answer v) raw) \<and> sorted_wrt (digest_order digest) ts)"
proof -
  define uuid where "uuid = string_or_empty (field (body_of req) ''uuid'')"
  have "uuid \<noteq> []" "is_ok (host_and_key e uuid)"
    using assms(2) unfolding get_device_timer_x_def Let_def uuid_def [symmetric]
    by (auto simp: with_device_def lan_failure_def split: if_splits sum.splits)
  then obtain host key where hk: "host_and_key e uuid = Inr (host, key)" by (cases "host_and_key e uuid") auto
  define sys where "sys = get_system_all (str_of host) key None"
  obtain all where all: "e_lan e (w_sent w) sys = Inr all"
    using assms(2) \<open>uuid \<noteq> []\<close> unfolding get_device_timer_x_def Let_def uuid_def [symmetric]
    by (cases "e_lan e (w_sent w) sys") (auto simp: with_device_def asking_def lan_failure_def hk sys_def)
  define digest where "digest = extract_lan_timer_x_digest lc all"
  obtain fetched w2 where f: "fetch_each e (get_timer_x (str_of host) key) (digest_ids digest)
      (w\<lparr>w_sent := w_sent w @ [sys]\<rparr>) = (fetched, w2)" by fastforce
  have run: "get_device_timer_x lc e req w = (case fetched of
      Inl m \<Rightarrow> (lan_failure m, w2)
    | Inr raw \<Rightarrow> (ApiOk (JObj [(''host'', host), (''digest'', JArr (map json_of_digest digest)),
        (''timers'', JArr (map json_of_timer (js_sort (timer_cmp lc digest)
           (List.map_filter (\<lambda>(i, v). timer_of_answer v) raw)))), (''rawById'', JObj raw)]), w2))"
    using \<open>uuid \<noteq> []\<close> f unfolding get_device_timer_x_def Let_def uuid_def [symmetric]
    by (auto simp: with_device_def asking_def hk all digest_def simp flip: sys_def split: sum.split)
  then obtain raw where raw: "fetched = Inr raw"
    using assms(2) by (cases fetched) (simp_all add: lan_failure_def)
  define ts where "ts = js_sort (timer_cmp lc digest) (List.map_filter (\<lambda>(i, v). timer_of_answer v) raw)"
  have sorted: "sorted_wrt (digest_order digest) ts"
    using comparator.sorted_js_sort [OF collation.comparator_timer_cmp [OF assms(1)]] timer_cmp_order
    unfolding ts_def by (rule sorted_wrt_mono_rel [rotated])
  have d: "d = JObj [(''host'', host), (''digest'', JArr (map json_of_digest digest)),
        (''timers'', JArr (map json_of_timer ts)), (''rawById'', JObj raw)]" "w' = w2"
    using assms(2) run by (simp_all add: raw ts_def)
  show ?thesis
    using hk all fetch_each_ok [OF f [unfolded raw]] digest_ids_facts [of digest] sorted
    unfolding uuid_def [symmetric] Let_def
    by (intro exI [of _ host] exI [of _ key] exI [of _ all] exI [of _ raw] exI [of _ ts])
      (simp add: d ts_def flip: sys_def digest_def)
qed

text \<open>A device with two timers, of which it lists the one with the greater id first.\<close>

definition demo_lan :: lan where
  "demo_lan sent r = (if lr_namespace r = ns_system_all
     then Inr (JObj [(''payload'', JObj [(''all'', JObj [(''digest'', JObj [(''timerx'', JArr
        [JObj [(''channel'', js_int 1), (''id'', JStr ''a''), (''count'', js_int 1)],
         JObj [(''channel'', js_int 0), (''id'', JStr ''b''), (''count'', js_int 1)]])])])])])
     else Inr (JObj [(''payload'', JObj [(''timerx'', JArr [path (lr_payload r) [''timerx'']])])]))"

definition demo_env :: env where
  "demo_env = \<lparr>e_cfg = JObj [(''hosts'', JObj [(''u'', JObj [(''host'', JStr ''h'')])])], e_key = Some ''k'',
     e_lan = demo_lan, e_poll = None, e_now_iso = []\<rparr>"

definition demo_request :: api_request where
  "demo_request = \<lparr>ar_content_type = Some ''application/json'', ar_body = Some (JObj [(''uuid'', JStr ''u'')])\<rparr>"

definition demo_world :: world where
  "demo_world = \<lparr>w_sent = [], w_polled = [], w_db = empty_db\<rparr>"

lemma demo_list:
  "fst (get_device_timer_x codeunit_compare demo_env demo_request demo_world) = ApiOk
     (JObj [(''host'', JStr ''h''),
        (''digest'', JArr [JObj [(''channel'', js_int 0), (''id'', JStr ''b''), (''count'', js_int 1)],
                           JObj [(''channel'', js_int 1), (''id'', JStr ''a''), (''count'', js_int 1)]]),
        (''timers'', JArr [JObj [(''id'', JStr ''b'')], JObj [(''id'', JStr ''a'')]]),
        (''rawById'', JObj [(''b'', JObj [(''payload'', JObj [(''timerx'', JArr [JObj [(''id'', JStr ''b'')]])])]),
                            (''a'', JObj [(''payload'', JObj [(''timerx'', JArr [JObj [(''id'', JStr ''a'')]])])])])])"
  by code_simp

lemma timers_listed_witness:
  "length (w_sent (snd (get_device_timer_x codeunit_compare demo_env demo_request demo_world))) = 3"
proof -
  obtain d w' where r: "get_device_timer_x codeunit_compare demo_env demo_request demo_world = (ApiOk d, w')"
    "field d ''rawById'' = JObj [(''b'', JObj [(''payload'', JObj [(''timerx'', JArr [JObj [(''id'', JStr ''b'')]])])]),
       (''a'', JObj [(''payload'', JObj [(''timerx'', JArr [JObj [(''id'', JStr ''a'')]])])])]"
    using demo_list by (cases "get_device_timer_x codeunit_compare demo_env demo_request demo_world") auto
  have "w_sent demo_world = []" by (simp add: demo_world_def)
  then show ?thesis
    using timers_listed [OF codeunit.collation_axioms r(1)] r by (auto simp: Let_def dest: arg_cong [of _ _ length])
qed

end
