(* ===== verification/JsonPrint.thy ===== *)
theory JsonPrint
  imports Json
begin

text \<open>
  \<open>JSON.stringify\<close>, with and without indentation, and what it keeps of a value. Members that are
  undefined are dropped, elements that are undefined and numbers that are not finite become null
  (\<open>json_round\<close>); what is left is read back by \<open>json_parse\<close>, provided that no object has a key twice,
  as in JavaScript, and that every number is printed in full, with at most 17 places.
\<close>

section \<open>Printing\<close>

definition hex_digit :: "nat \<Rightarrow> char" where
  "hex_digit n = (if n < 10 then digit_char n else char_of (87 + n))"

definition escape_char :: "char \<Rightarrow> string" where
  "escape_char c = (let n = code_of c; e = (\<lambda>d. [CHR 0x5C, d]) in
     if n = 34 \<or> n = 92 then e c
     else if n = 8 then e (CHR ''b'') else if n = 9 then e (CHR ''t'') else if n = 10 then e (CHR ''n'')
     else if n = 12 then e (CHR ''f'') else if n = 13 then e (CHR ''r'')
     else if n < 32 then [CHR 0x5C, CHR ''u'', CHR ''0'', CHR ''0'', hex_digit (n div 16), hex_digit (n mod 16)]
     else [c])"

definition json_quote :: "string \<Rightarrow> string" where
  "json_quote s = CHR 0x22 # concat (map escape_char s) @ [CHR 0x22]"

text \<open>The break before a line at a level, for a width of indentation; none without.\<close>

definition line_break :: "nat \<Rightarrow> nat \<Rightarrow> string" where
  "line_break w l = (if w = 0 then [] else CHR 0x0A # replicate (w * l) (CHR '' ''))"

fun json_print :: "nat \<Rightarrow> nat \<Rightarrow> jsval \<Rightarrow> string" where
  "json_print w l (JArr vs) = (if vs = [] then [CHR 0x5B, CHR 0x5D]
     else CHR 0x5B # line_break w (l + 1) @ join_with (CHR '','' # line_break w (l + 1)) (map (json_print w (l + 1)) vs)
       @ line_break w l @ [CHR 0x5D])"
| "json_print w l (JObj kvs) = (if kvs = [] then [CHR 0x7B, CHR 0x7D]
     else CHR 0x7B # line_break w (l + 1)
       @ join_with (CHR '','' # line_break w (l + 1))
           (map (\<lambda>(k, v). json_quote k @ CHR '':'' # (if w = 0 then [] else '' '') @ json_print w (l + 1) v) kvs)
       @ line_break w l @ [CHR 0x7D])"
| "json_print w l (JStr s) = json_quote s"
| "json_print w l (JNum (Fin r)) = str_of_rat r"
| "json_print w l (JBool b) = (if b then ''true'' else ''false'')"
| "json_print w l _ = ''null''"

fun json_round :: "jsval \<Rightarrow> jsval" where
  "json_round (JArr vs) = JArr (map (\<lambda>v. if v = JUndef then JNull else json_round v) vs)"
| "json_round (JObj kvs) = JObj (map (\<lambda>(k, v). (k, json_round v)) (filter (\<lambda>(k, v). v \<noteq> JUndef) kvs))"
| "json_round (JNum n) = (case n of Fin _ \<Rightarrow> JNum n | _ \<Rightarrow> JNull)"
| "json_round v = v"

text \<open>\<open>JSON.stringify(v, null, w)\<close> of a value that is not undefined.\<close>

definition json_stringify :: "nat \<Rightarrow> jsval \<Rightarrow> string" where
  "json_stringify w v = json_print w 0 (json_round v)"

section \<open>Strings\<close>

lemma control_escape:
  assumes "n < 32"
  shows "all_radix 16 [CHR ''0'', CHR ''0'', hex_digit (n div 16), hex_digit (n mod 16)] \<and>
    nat_of_radix 16 [CHR ''0'', CHR ''0'', hex_digit (n div 16), hex_digit (n mod 16)] = n"
proof -
  have digit: "radix_val 16 (hex_digit d) = Some d" if "d < 16" for d
  proof (cases "d < 10")
    case False
    then have "code_of (hex_digit d) = 87 + d" using that by (simp add: hex_digit_def code_of_def)
    then show ?thesis using False that by (simp add: radix_val_def)
  qed (simp add: hex_digit_def radix_val_def)
  have zero: "radix_val 16 (CHR ''0'') = Some 0" by (simp add: radix_val_def code_of_def)
  have "n div 16 < 16" using assms by simp
  with digit [of "n div 16"] digit [of "n mod 16"] zero show ?thesis
    by (simp add: all_radix_def nat_of_radix_def)
qed

lemma char_of_code [simp]: "char_of (code_of c) = c"
  by (simp add: code_of_def)

lemma code_of_inj: "code_of c = n \<Longrightarrow> c = char_of n"
  by (metis char_of_code)

lemma json_string_escape: "json_string (escape_char c @ r) = map_option (\<lambda>(x, t). (c # x, t)) (json_string r)"
proof -
  have codes: "code_of (CHR 0x5C) = 92" "code_of (CHR ''u'') = 117" "code_of (CHR ''b'') = 98" "code_of (CHR ''t'') = 116"
    "code_of (CHR ''n'') = 110" "code_of (CHR ''f'') = 102" "code_of (CHR ''r'') = 114"
    by code_simp+
  show ?thesis
    by (subst json_string.simps)
      (use control_escape [of "code_of c"] in \<open>auto simp: escape_char_def Let_def codes simple_escape_def dest: code_of_inj\<close>)
qed

lemma json_string_quoted: "json_string (concat (map escape_char s) @ CHR 0x22 # r) = Some (s, r)"
proof (induction s)
  case Nil
  have "code_of (CHR 0x22) = 34" by code_simp
  then show ?case by (subst json_string.simps) simp
qed (simp add: json_string_escape)

section \<open>Numbers\<close>

text \<open>At most 17 places after the point.\<close>

definition short_decimal :: "rat \<Rightarrow> bool" where
  "short_decimal r \<longleftrightarrow> of_int \<lfloor>r * 10 ^ 17\<rfloor> = r * 10 ^ 17"

lemma nat_of_digits_append: "nat_of_digits (xs @ ys) = nat_of_digits xs * 10 ^ length ys + nat_of_digits ys"
proof (induction ys rule: rev_induct)
  case (snoc y ys)
  have "nat_of_digits (xs @ ys @ [y]) = 10 * nat_of_digits (xs @ ys) + digit_val y"
    using nat_of_digits_snoc [of "xs @ ys" y] by simp
  with snoc show ?case by (simp add: nat_of_digits_snoc algebra_simps)
qed (simp add: nat_of_digits_def)

lemma frac_digits_value:
  assumes "0 \<le> f" "f < 1" "of_int \<lfloor>f * 10 ^ n\<rfloor> = f * 10 ^ n"
  shows "list_all is_digit (frac_digits n f) \<and> of_nat (nat_of_digits (frac_digits n f)) = f * 10 ^ length (frac_digits n f)"
  using assms
proof (induction n arbitrary: f)
  case 0
  then have "\<lfloor>f\<rfloor> = 0" by (simp add: floor_eq_iff)
  with 0(3) have "f = 0" by simp
  then show ?case by (simp add: nat_of_digits_def)
next
  case (Suc n)
  show ?case
  proof (cases "f = 0")
    case False
    define d where "d = \<lfloor>10 * f\<rfloor>"
    have d: "0 \<le> d" "d < 10" using Suc.prems(1,2) by (simp_all add: d_def floor_less_iff)
    define g where "g = 10 * f - of_int d"
    have g: "0 \<le> g" "g < 1" unfolding g_def d_def by linarith+
    have "g * 10 ^ n = f * 10 ^ Suc n - of_int (d * 10 ^ n)" by (simp add: g_def algebra_simps)
    also have "\<dots> = of_int (\<lfloor>f * 10 ^ Suc n\<rfloor> - d * 10 ^ n)" using Suc.prems(3) by (simp only: of_int_diff)
    finally have "of_int \<lfloor>g * 10 ^ n\<rfloor> = g * 10 ^ n" by (simp only: floor_of_int)
    from Suc.IH [OF g this] have ih: "list_all is_digit (frac_digits n g)"
      "of_nat (nat_of_digits (frac_digits n g)) = g * 10 ^ length (frac_digits n g)" by auto
    have step: "frac_digits (Suc n) f = digit_char (nat d) # frac_digits n g" using False by (simp add: d_def g_def)
    have nd: "nat d < 10" using d by simp
    have "nat_of_digits (digit_char (nat d) # frac_digits n g) =
        nat_of_digits [digit_char (nat d)] * 10 ^ length (frac_digits n g) + nat_of_digits (frac_digits n g)"
      using nat_of_digits_append [of "[digit_char (nat d)]" "frac_digits n g"] by simp
    also have "nat_of_digits [digit_char (nat d)] = nat d" using nd by (simp add: nat_of_digits_def)
    finally have "of_nat (nat_of_digits (digit_char (nat d) # frac_digits n g)) = of_int d * 10 ^ length (frac_digits n g) + g * 10 ^ length (frac_digits n g)"
      using d ih(2) by simp
    also have "\<dots> = f * 10 ^ Suc (length (frac_digits n g))" by (simp add: g_def algebra_simps)
    finally show ?thesis unfolding step using ih(1) nd by simp
  qed (simp add: nat_of_digits_def)
qed

lemma frac_digits_nonempty: "f \<noteq> 0 \<Longrightarrow> 0 < n \<Longrightarrow> frac_digits n f \<noteq> []"
  by (cases n) simp_all

lemma dec_of_nat_no_leading_zero: "1 < length (dec_of_nat n) \<Longrightarrow> code_of (hd (dec_of_nat n)) \<noteq> 48"
proof (induction n rule: dec_of_nat.induct)
  case (1 n)
  show ?case
  proof (cases "n < 100")
    case True
    with 1 show ?thesis by (auto simp: dec_of_nat.simps [of n] dec_of_nat.simps [of "n div 10"] split: if_splits)
  next
    case False
    then have "1 < length (dec_of_nat (n div 10))" by (subst dec_of_nat.simps) auto
    with 1 False show ?thesis by (subst dec_of_nat.simps) (auto simp: hd_append)
  qed
qed

text \<open>What may follow a number.\<close>

definition number_ends :: "string \<Rightarrow> bool" where
  "number_ends r \<longleftrightarrow> (case r of [] \<Rightarrow> True
     | c # _ \<Rightarrow> \<not> is_digit c \<and> c \<noteq> CHR ''.'' \<and> code_of c \<noteq> 101 \<and> code_of c \<noteq> 69)"

lemma json_number_print:
  assumes "short_decimal r" "number_ends rest"
  shows "json_number (str_of_rat r @ rest) = Some (js_rat r, rest)"
proof -
  define a where "a = \<bar>r\<bar>"
  define n where "n = nat \<lfloor>a\<rfloor>"
  define f where "f = a - of_int \<lfloor>a\<rfloor>"
  define ds where "ds = (if f = 0 then [] else frac_digits 17 f)"
  have a: "0 \<le> a" by (simp add: a_def)
  have f: "0 \<le> f" "f < 1" unfolding f_def by linarith+
  have "a * 10 ^ 17 = \<bar>r * 10 ^ 17\<bar>" by (simp add: a_def abs_mult)
  also have "\<dots> = of_int \<bar>\<lfloor>r * 10 ^ 17\<rfloor>\<bar>" using assms(1) by (simp only: short_decimal_def of_int_abs)
  finally have "of_int \<lfloor>a * 10 ^ 17\<rfloor> = a * 10 ^ 17" by (simp only: floor_of_int)
  then have scaled: "a * 10 ^ 17 = of_int \<lfloor>a * 10 ^ 17\<rfloor>" by (rule sym)
  have "f * 10 ^ 17 = a * 10 ^ 17 - of_int \<lfloor>a\<rfloor> * 10 ^ 17" by (simp add: f_def left_diff_distrib)
  also have "\<dots> = of_int (\<lfloor>a * 10 ^ 17\<rfloor> - \<lfloor>a\<rfloor> * 10 ^ 17)"
    unfolding of_int_diff of_int_mult of_int_power of_int_numeral scaled [symmetric] ..
  finally have "of_int \<lfloor>f * 10 ^ 17\<rfloor> = f * 10 ^ 17" by (simp only: floor_of_int)
  from frac_digits_value [OF f this] have ds: "list_all is_digit ds" "of_nat (nat_of_digits ds) = f * 10 ^ length ds"
    by (simp_all add: ds_def nat_of_digits_def)
  have ne: "f \<noteq> 0 \<Longrightarrow> ds \<noteq> []" by (simp add: ds_def frac_digits_nonempty)
  have whole: "of_nat n = (of_int \<lfloor>a\<rfloor> :: rat)" using a by (simp add: n_def)
  have printed: "str_of_rat r = (if r < 0 then ''-'' else []) @ dec_of_nat n @ (if f = 0 then [] else ''.'' @ ds)"
    using a by (simp add: str_of_rat_def Let_def a_def [symmetric] f_def ds_def dec_of_int_def n_def)
  have ip: "takeWhile is_digit (dec_of_nat n @ x) = dec_of_nat n @ takeWhile is_digit x"
    "dropWhile is_digit (dec_of_nat n @ x) = dropWhile is_digit x" for x
    using dec_of_nat_digits [of n] by (auto simp: list_all_iff takeWhile_append dropWhile_append)
  have fp: "takeWhile is_digit (ds @ x) = ds @ takeWhile is_digit x" "dropWhile is_digit (ds @ x) = dropWhile is_digit x" for x
    using ds(1) by (auto simp: list_all_iff takeWhile_append dropWhile_append)
  have ends: "takeWhile is_digit rest = []" "dropWhile is_digit rest = rest" "\<not> starts_with ''.'' rest"
    using assms(2) by (cases rest; simp add: number_ends_def starts_with_def)+
  have dot: "\<not> is_digit (CHR ''.'')" by (simp add: is_digit_def code_of_def)
  have val: "of_nat (nat_of_digits (dec_of_nat n @ ds)) * pow10 (0 - int (length ds)) = a"
    using ds(2) whole by (simp add: nat_of_digits_append pow10_def f_def field_simps)
  have sign: "\<not> starts_with ''-'' (dec_of_nat n @ x)" for x
    using dec_of_nat_digits [of n] digit_not_special(2) dec_of_nat_nonempty [of n]
    by (cases "dec_of_nat n") (auto simp: starts_with_def)
  define body where "body = dec_of_nat n @ (if f = 0 then [] else CHR ''.'' # ds) @ rest"
  have s: "(if starts_with ''-'' (str_of_rat r @ rest) then (True, tl (str_of_rat r @ rest)) else (False, str_of_rat r @ rest)) = (r < 0, body)"
    using sign by (simp add: printed body_def starts_with_def)
  have int_part: "takeWhile is_digit body = dec_of_nat n" "dropWhile is_digit body = (if f = 0 then [] else CHR ''.'' # ds) @ rest"
    using ends dot by (simp_all add: body_def ip)
  have frac_part: "(if starts_with ''.'' (dropWhile is_digit body)
       then (takeWhile is_digit (tl (dropWhile is_digit body)), dropWhile is_digit (tl (dropWhile is_digit body)),
             takeWhile is_digit (tl (dropWhile is_digit body)) \<noteq> [])
       else ([], dropWhile is_digit body, True)) = (ds, rest, True)"
    using ends ne by (cases "f = 0") (simp_all add: int_part fp starts_with_def, simp add: ds_def)
  have expo: "(case rest of [] \<Rightarrow> (0, rest, True) | c # t \<Rightarrow> if code_of c = 101 \<or> code_of c = 69 then g t else (0, rest, True)) = (0, rest, True)"
    for g :: "string \<Rightarrow> int \<times> string \<times> bool"
    using assms(2) by (cases rest) (simp_all add: number_ends_def)
  have number: "json_number (str_of_rat r @ rest) = Some (js_rat (if r < 0 then - a else a), rest)"
    unfolding json_number_def s Let_def prod.case frac_part int_part(1) expo [of "\<lambda>t. case split_sign t of (sg, u) \<Rightarrow> (sg * int (nat_of_digits (takeWhile is_digit u)), dropWhile is_digit u, takeWhile is_digit u \<noteq> [])"]
    using val dec_of_nat_no_leading_zero [of n] by auto
  then show ?thesis by (simp add: a_def abs_if)
qed

section \<open>Values\<close>

text \<open>What a printed value can be read back from: no \<open>undefined\<close>, numbers in full, keys once.\<close>

fun plain :: "jsval \<Rightarrow> bool" where
  "plain (JArr vs) = list_all plain vs"
| "plain (JObj kvs) = (distinct (map fst kvs) \<and> list_all (\<lambda>(k, v). plain v) kvs)"
| "plain (JNum n) = (case n of Fin r \<Rightarrow> short_decimal r | _ \<Rightarrow> False)"
| "plain JUndef = False"
| "plain _ = True"

definition reads :: "jsval \<Rightarrow> string \<Rightarrow> bool" where
  "reads v t \<longleftrightarrow> (\<forall>n rest. number_ends rest \<longrightarrow> length t \<le> n \<longrightarrow> json_value n (t @ rest) = Some (v, rest))"

lemma skip_break [simp]: "skip_ws (line_break w l @ s) = skip_ws s"
proof -
  have "json_space (CHR 0x0A)" "json_space (CHR '' '')" by code_simp+
  then have "list_all json_space (line_break w l)" by (auto simp: line_break_def list_all_iff)
  then show ?thesis by (simp add: skip_ws_def list_all_iff dropWhile_append)
qed

lemma skip_mark [simp]: "skip_ws (c # s) = (if json_space c then skip_ws s else c # s)"
  by (simp add: skip_ws_def)

lemma json_value_break [simp]: "json_value n (line_break w l @ s) = json_value n s"
  by (cases n) simp_all

lemma marks [simp]:
  "\<not> json_space (CHR 0x22)" "\<not> json_space (CHR 0x5B)" "\<not> json_space (CHR 0x5D)" "\<not> json_space (CHR 0x7B)" "\<not> json_space (CHR 0x7D)"
  "\<not> json_space (CHR '','')" "\<not> json_space (CHR '':'')" "json_space (CHR '' '')"
  by code_simp+

lemma number_ends_marks [simp]:
  "number_ends (line_break w l @ CHR 0x5D # r)" "number_ends (line_break w l @ CHR 0x7D # r)" "number_ends (CHR '','' # r)" "number_ends []"
proof -
  have "number_ends (c # r)" if "c \<in> {CHR 0x5D, CHR 0x7D, CHR '','', CHR 0x0A}" for c r
    using that by (auto simp: number_ends_def is_digit_def code_of_def)
  then show "number_ends (line_break w l @ CHR 0x5D # r)" "number_ends (line_break w l @ CHR 0x7D # r)" "number_ends (CHR '','' # r)" "number_ends []"
    by (simp_all add: line_break_def number_ends_def [of "[]"])
qed

lemma json_elements_print:
  assumes "\<And>x. x \<in> set vs \<Longrightarrow> reads x (f x)" and "vs \<noteq> []"
    and "length (join_with (CHR '','' # line_break w l) (map f vs)) < n"
  shows "json_elements n acc (line_break w l @ join_with (CHR '','' # line_break w l) (map f vs) @ line_break w k @ CHR 0x5D # rest)
    = Some (JArr (acc @ vs), rest)"
  using assms
proof (induction vs arbitrary: n acc)
  case (Cons v vs)
  obtain m where n: "n = Suc m" using Cons.prems(3) by (cases n) auto
  have v: "json_value m (f v @ r) = Some (v, r)" if "number_ends r" "length (f v) \<le> m" for r
    using Cons.prems(1) [of v] that by (simp add: reads_def)
  show ?case
  proof (cases vs)
    case Nil
    with Cons.prems(3) v [of "line_break w k @ CHR 0x5D # rest"] show ?thesis by (simp add: n Let_def starts_with_def)
  next
    case (Cons u us)
    then have "json_elements m (acc @ [v]) (line_break w l @ join_with (CHR '','' # line_break w l) (map f vs) @ line_break w k @ CHR 0x5D # rest)
        = Some (JArr ((acc @ [v]) @ vs), rest)"
      using Cons.prems by (intro Cons.IH) (simp_all add: n)
    with Cons Cons.prems(3) v show ?thesis by (simp add: n Let_def starts_with_def)
  qed
qed simp

lemma json_value_gap [simp]: "json_value n (CHR '' '' # s) = json_value n s"
  by (cases n) simp_all

lemma update_new: "k \<notin> fst ` set acc \<Longrightarrow> AList.update k v acc = acc @ [(k, v)]"
  by (induction acc) auto

definition member_text :: "nat \<Rightarrow> (jsval \<Rightarrow> string) \<Rightarrow> string \<times> jsval \<Rightarrow> string" where
  "member_text w f = (\<lambda>(k, v). json_quote k @ CHR '':'' # (if w = 0 then [] else '' '') @ f v)"

lemma member_start: "\<exists>s. member_text w f m @ r = CHR 0x22 # s"
  by (cases m) (simp add: member_text_def json_quote_def)

lemma json_members_print:
  assumes "\<And>k x. (k, x) \<in> set kvs \<Longrightarrow> reads x (f x)" and "kvs \<noteq> []" and "distinct (map fst (acc @ kvs))"
    and "length (join_with (CHR '','' # line_break w l) (map (member_text w f) kvs)) < n"
  shows "json_members n acc (line_break w l @ join_with (CHR '','' # line_break w l) (map (member_text w f) kvs) @ line_break w k @ CHR 0x7D # rest)
    = Some (JObj (acc @ kvs), rest)"
  using assms
proof (induction kvs arbitrary: n acc)
  case (Cons kv kvs)
  obtain m where n: "n = Suc m" using Cons.prems(4) by (cases n) auto
  obtain key v where kv: "kv = (key, v)" by (cases kv)
  have val: "json_value m (f v @ r) = Some (v, r)" if "number_ends r" "length (f v) \<le> m" for r
    using Cons.prems(1) [of key v] that by (simp add: reads_def kv)
  have new: "AList.update key v acc = acc @ [(key, v)]"
    using Cons.prems(3) by (intro update_new) (auto simp: kv)
  have step: "json_members n acc (line_break w l @ member_text w f kv @ r) =
      (let r3 = skip_ws r in
         if starts_with '','' r3 then json_members m (acc @ [(key, v)]) (tl r3)
         else if starts_with [CHR 0x7D] r3 then Some (JObj (acc @ [(key, v)]), tl r3) else None)"
    if "number_ends r" "length (f v) \<le> m" for r
    using json_string_quoted [of key "CHR '':'' # (if w = 0 then [] else '' '') @ f v @ r"] val [OF that]
    by (simp add: n kv member_text_def json_quote_def Let_def starts_with_def new)
  show ?case
  proof (cases kvs)
    case Nil
    have "length (f v) \<le> m" using Cons.prems(4) by (simp add: Nil n kv member_text_def)
    from step [OF _ this, of "line_break w k @ CHR 0x7D # rest"] show ?thesis
      by (simp add: Nil kv Let_def starts_with_def)
  next
    case (Cons u us)
    have len: "length (f v) \<le> m" using Cons.prems(4) by (simp add: Cons n kv member_text_def)
    have "json_members m (acc @ [(key, v)]) (line_break w l @ join_with (CHR '','' # line_break w l) (map (member_text w f) kvs) @ line_break w k @ CHR 0x7D # rest)
        = Some (JObj ((acc @ [(key, v)]) @ kvs), rest)"
      using Cons.prems Cons by (intro Cons.IH) (auto simp: n kv)
    with step [OF _ len, of "CHR '','' # line_break w l @ join_with (CHR '','' # line_break w l) (map (member_text w f) kvs) @ line_break w k @ CHR 0x7D # rest"]
    show ?thesis by (simp add: Cons kv Let_def starts_with_def)
  qed
qed simp

lemma not_keyword:
  assumes "c \<in> {CHR 0x22, CHR 0x5B, CHR 0x7B, CHR ''-''} \<or> is_digit c"
  shows "\<not> json_space c \<and> \<not> starts_with ''null'' (c # s) \<and> \<not> starts_with ''true'' (c # s) \<and> \<not> starts_with ''false'' (c # s)"
proof -
  have "\<not> is_digit (CHR ''n'')" "\<not> is_digit (CHR ''t'')" "\<not> is_digit (CHR ''f'')" by code_simp+
  with assms show ?thesis by (auto simp: starts_with_def json_space_def is_digit_def code_of_def)
qed

lemma number_first:
  obtains c s where "str_of_rat r = c # s" "c = CHR ''-'' \<or> is_digit c"
proof -
  have "\<exists>c s. dec_of_int \<lfloor>\<bar>r\<bar>\<rfloor> = c # s \<and> is_digit c"
    using dec_of_nat_digits [of "nat \<lfloor>\<bar>r\<bar>\<rfloor>"] dec_of_nat_nonempty [of "nat \<lfloor>\<bar>r\<bar>\<rfloor>"]
    by (cases "dec_of_nat (nat \<lfloor>\<bar>r\<bar>\<rfloor>)") (auto simp: dec_of_int_def)
  then show thesis
    using that by (cases "r < 0") (force simp: str_of_rat_def Let_def)+
qed

lemma reads_number: "short_decimal r \<Longrightarrow> reads (JNum (Fin r)) (str_of_rat r)"
proof -
  assume r: "short_decimal r"
  obtain c s where c: "str_of_rat r = c # s" "c = CHR ''-'' \<or> is_digit c" by (rule number_first)
  have code: "code_of c \<noteq> 34" "code_of c \<noteq> 123" "code_of c \<noteq> 91"
    using c(2) by (auto simp: is_digit_def code_of_def)
  show ?thesis
    unfolding reads_def
  proof (intro allI impI)
    fix n :: nat and rest assume ends: "number_ends rest" "length (str_of_rat r) \<le> n"
    then obtain m where "n = Suc m" using c by (cases n) auto
    moreover have "json_number (c # s @ rest) = Some (JNum (Fin r), rest)"
      using json_number_print [OF r ends(1)] by (simp add: c js_rat_def)
    ultimately show "json_value n (str_of_rat r @ rest) = Some (JNum (Fin r), rest)"
      using not_keyword [of c "s @ rest"] c(2) code by (auto simp: c(1) Let_def)
  qed
qed

lemma elements_start:
  assumes "json_elements m acc s = Some r"
  shows "\<not> starts_with [CHR 0x5D] (skip_ws s)"
proof
  assume start: "starts_with [CHR 0x5D] (skip_ws s)"
  then obtain t where t: "skip_ws s = CHR 0x5D # t" by (cases "skip_ws s") (auto simp: starts_with_def)
  have "code_of (CHR 0x5D) = 93" "\<not> is_digit (CHR 0x5D)" by code_simp+
  then have "json_value n s = None" for n
    by (cases n) (simp_all add: t Let_def starts_with_def json_number_def)
  with assms show False by (cases m) simp_all
qed

lemma members_start: "json_members m acc s = Some r \<Longrightarrow> \<not> starts_with [CHR 0x7D] (skip_ws s)"
  by (cases m) (auto simp: Let_def starts_with_def split: if_splits)

lemma reads_array:
  assumes "\<And>x. x \<in> set vs \<Longrightarrow> reads x (json_print w (Suc l) x)"
  shows "reads (JArr vs) (json_print w l (JArr vs))"
  unfolding reads_def
proof (intro allI impI)
  fix n :: nat and rest assume n: "length (json_print w l (JArr vs)) \<le> n"
  then obtain m where m: "n = Suc m" by (cases n) (auto split: if_splits)
  have code: "code_of (CHR 0x5B) = 91" by code_simp
  show "json_value n (json_print w l (JArr vs) @ rest) = Some (JArr vs, rest)"
  proof (cases "vs = []")
    case False
    with n m have "length (join_with (CHR '','' # line_break w (Suc l)) (map (json_print w (Suc l)) vs)) < m" by simp
    note printed = json_elements_print [OF assms False this, where acc = "[]" and k = l and rest = rest]
    show ?thesis
      using printed elements_start [OF printed] not_keyword [of "CHR 0x5B"] False by (simp add: m code Let_def)
  qed (simp add: m code Let_def starts_with_def not_keyword)
qed

lemma reads_object:
  assumes "\<And>k x. (k, x) \<in> set kvs \<Longrightarrow> reads x (json_print w (Suc l) x)" and "distinct (map fst kvs)"
  shows "reads (JObj kvs) (json_print w l (JObj kvs))"
  unfolding reads_def
proof (intro allI impI)
  fix n :: nat and rest assume n: "length (json_print w l (JObj kvs)) \<le> n"
  then obtain m where m: "n = Suc m" by (cases n) (auto split: if_splits)
  have code: "code_of (CHR 0x7B) = 123" by code_simp
  have texts: "(\<lambda>(k, v). json_quote k @ CHR '':'' # (if w = 0 then [] else '' '') @ json_print w (l + 1) v) = member_text w (json_print w (Suc l))"
    by (simp add: member_text_def)
  show "json_value n (json_print w l (JObj kvs) @ rest) = Some (JObj kvs, rest)"
  proof (cases "kvs = []")
    case False
    with n m have "length (join_with (CHR '','' # line_break w (Suc l)) (map (member_text w (json_print w (Suc l))) kvs)) < m"
      unfolding json_print.simps texts by simp
    from json_members_print [where acc = "[]", OF assms(1) False _ this] assms(2)
    have printed: "json_members m [] (line_break w (Suc l) @ join_with (CHR '','' # line_break w (Suc l))
        (map (member_text w (json_print w (Suc l))) kvs) @ line_break w l @ CHR 0x7D # rest) = Some (JObj kvs, rest)" by simp
    show ?thesis
      using printed members_start [OF printed] not_keyword [of "CHR 0x7B"] False unfolding json_print.simps texts by (simp add: m code Let_def)
  qed (simp add: m code Let_def starts_with_def not_keyword)
qed

lemma reads_string: "reads (JStr s) (json_quote s)"
  unfolding reads_def
proof (intro allI impI)
  fix n :: nat and rest assume "length (json_quote s) \<le> n"
  then obtain m where "n = Suc m" by (cases n) (auto simp: json_quote_def)
  moreover have "code_of (CHR 0x22) = 34" by code_simp
  ultimately show "json_value n (json_quote s @ rest) = Some (JStr s, rest)"
    using not_keyword [of "CHR 0x22"] by (simp add: json_quote_def Let_def json_string_quoted)
qed

lemma reads_keyword: "reads JNull ''null''" "reads (JBool True) ''true''" "reads (JBool False) ''false''"
proof -
  have "\<not> json_space (CHR ''n'')" "\<not> json_space (CHR ''t'')" "\<not> json_space (CHR ''f'')" by code_simp+
  then show "reads JNull ''null''" "reads (JBool True) ''true''" "reads (JBool False) ''false''"
    unfolding reads_def by (intro allI impI; case_tac n; simp add: Let_def starts_with_def)+
qed

lemma reads_print: "plain v \<Longrightarrow> reads v (json_print w l v)"
proof (induction w l v rule: json_print.induct)
  case (1 w l vs)
  show ?case
  proof (rule reads_array)
    show "reads x (json_print w (Suc l) x)" if "x \<in> set vs" for x
      using that 1(1) [of x] 1(2) by (cases "vs = []") (simp_all add: list_all_iff)
  qed
next
  case (2 w l kvs)
  show ?case
  proof (rule reads_object)
    show "reads x (json_print w (Suc l) x)" if "(k, x) \<in> set kvs" for k x
      using that 2(1) [of "(k, x)" k x] 2(2) by (cases "kvs = []") (auto simp: list_all_iff)
    show "distinct (map fst kvs)" using 2(2) by simp
  qed
qed (auto simp: reads_number reads_string reads_keyword)

theorem json_print_parse:
  assumes "plain v"
  shows "json_parse (json_print w 0 v) = Some v" "json_parse (json_print w 0 v @ [CHR 0x0A]) = Some v"
proof -
  have read: "json_value (Suc n) (json_print w 0 v @ rest) = Some (v, rest)" if "number_ends rest" "length (json_print w 0 v) \<le> n" for n rest
    using reads_print [OF assms, of w 0] that unfolding reads_def by (simp del: json_value.simps)
  have space: "json_space (CHR 0x0A)" and nl: "number_ends [CHR 0x0A]" by code_simp+
  have "skip_ws [] = []" by (simp add: skip_ws_def)
  then show "json_parse (json_print w 0 v) = Some v" "json_parse (json_print w 0 v @ [CHR 0x0A]) = Some v"
    using read [of "[]"] read [OF nl] space by (simp_all add: json_parse_def del: json_value.simps)
qed

section \<open>What is kept of a value\<close>

text \<open>A value as the program holds it: keys once, and numbers that are finite in full.\<close>

fun storable :: "jsval \<Rightarrow> bool" where
  "storable (JArr vs) = list_all storable vs"
| "storable (JObj kvs) = (distinct (map fst kvs) \<and> list_all (\<lambda>(k, v). storable v) kvs)"
| "storable (JNum n) = (case n of Fin r \<Rightarrow> short_decimal r | _ \<Rightarrow> True)"
| "storable _ = True"

lemma json_round_undef: "json_round v = JUndef \<longleftrightarrow> v = JUndef"
  by (cases v) (simp_all split: jsnum.split)

lemma round_keys: "map fst (map (\<lambda>(k, v). (k, json_round v)) (filter (\<lambda>(k, v). v \<noteq> JUndef) kvs)) = map fst (filter (\<lambda>(k, v). v \<noteq> JUndef) kvs)"
  by (induction kvs) auto

lemma plain_round: "storable v \<Longrightarrow> v \<noteq> JUndef \<Longrightarrow> plain (json_round v)"
proof (induction v rule: json_round.induct)
  case (2 kvs)
  then have "distinct (map fst (filter (\<lambda>(k, v). v \<noteq> JUndef) kvs))" by (simp add: distinct_map_filter)
  with 2 show ?case by (auto simp: list_all_iff comp_def case_prod_beta)
qed (auto simp: list_all_iff split: jsnum.splits)

lemma storable_round: "storable v \<Longrightarrow> storable (json_round v)"
proof (induction v rule: json_round.induct)
  case (2 kvs)
  then have "distinct (map fst (filter (\<lambda>(k, v). v \<noteq> JUndef) kvs))" by (simp add: distinct_map_filter)
  with 2 show ?case by (auto simp: list_all_iff comp_def case_prod_beta)
qed (auto simp: list_all_iff split: jsnum.splits)

lemma map_of_round:
  "distinct (map fst kvs) \<Longrightarrow> map_of (map (\<lambda>(k, v). (k, json_round v)) (filter (\<lambda>(k, v). v \<noteq> JUndef) kvs)) k =
     (case map_of kvs k of None \<Rightarrow> None | Some x \<Rightarrow> if x = JUndef then None else Some (json_round x))"
proof (induction kvs)
  case (Cons p kvs)
  obtain j x where p: "p = (j, x)" by (cases p)
  from Cons show ?case
    by (cases "j = k") (auto simp: p map_of_eq_None_iff [THEN iffD2])
qed simp

lemma field_json_round: "storable v \<Longrightarrow> field (json_round v) k = json_round (field v k)"
  by (cases v) (auto simp: map_of_round split: option.splits jsnum.split)

theorem stringify_parse:
  assumes "storable v" "v \<noteq> JUndef"
  shows "json_parse (json_stringify w v) = Some (json_round v)" "json_parse (json_stringify w v @ [CHR 0x0A]) = Some (json_round v)"
  using json_print_parse [OF plain_round [OF assms], of w] by (simp_all add: json_stringify_def)

section \<open>Texts as an interface\<close>

text \<open>
  What the parts that keep or send values as text rely on, the configuration file, the bodies of the
  requests and the envelope of the replies: what was printed is read back, up to what the text keeps.
\<close>

locale text_format =
  fixes print_text :: "'a \<Rightarrow> string" and read_text :: "string \<Rightarrow> 'a option" and good :: "'a \<Rightarrow> bool" and kept :: "'a \<Rightarrow> 'a"
  assumes read_print: "good v \<Longrightarrow> read_text (print_text v) = Some (kept v)"
begin

lemma read_print_or: "good v \<Longrightarrow> or_else (read_text (print_text v)) d = kept v"
  by (simp add: read_print)

lemma print_determines: "good v \<Longrightarrow> good w \<Longrightarrow> print_text v = print_text w \<Longrightarrow> kept v = kept w"
  by (metis option.inject read_print)

lemma print_nonempty: "read_text [] = None \<Longrightarrow> good v \<Longrightarrow> print_text v \<noteq> []"
  by (metis option.distinct(1) read_print)

end

text \<open>A value that can be stored, as compact or indented text, and as a line of a file.\<close>

interpretation json_text: text_format "json_stringify w" json_parse "\<lambda>v. storable v \<and> v \<noteq> JUndef" json_round for w
  by unfold_locales (simp add: stringify_parse)

interpretation json_line: text_format "\<lambda>v. json_stringify w v @ [CHR 0x0A]" json_parse "\<lambda>v. storable v \<and> v \<noteq> JUndef" json_round for w
  by unfold_locales (simp add: stringify_parse)

end
