(* ===== verification/Routes.thy ===== *)
theory Routes
  imports HostApi CloudApi ScheduleApi JsonPrint
begin

text \<open>
  The server side of the HTTP API as a whole: the envelope of the replies and the security headers
  (\<open>shared.ts\<close>, \<open>applySecurityHeaders.ts\<close>), the status and the stream of the poller
  (\<open>get-events-status.ts\<close>, \<open>get-events-stream.ts\<close>) and the route table (\<open>api/index.ts\<close>), which
  composes the handlers of the other theories, and the client's reading of the envelope
  (\<open>apps/web/src/lib/api.ts\<close>).
\<close>

section \<open>The envelope\<close>

fun json_of_response :: "api_response \<Rightarrow> jsval" where
  "json_of_response (ApiOk d) = JObj [(''ok'', JBool True), (''data'', d)]"
| "json_of_response (ApiErr m c) = JObj [(''ok'', JBool False), (''error'', JObj [(''message'', JStr m), (''code'', JStr c)])]"
| "json_of_response (ApiErrWith m c details) =
     JObj [(''ok'', JBool False), (''error'', JObj [(''message'', JStr m), (''code'', JStr c), (''details'', details)])]"

text \<open>Header names are compared as the platform does, in lower case.\<close>

definition set_header :: "string \<Rightarrow> string \<Rightarrow> (string, string) jsmap \<Rightarrow> (string, string) jsmap" where
  "set_header name v hs = map_set (to_lower name) v hs"

definition quoted :: "string \<Rightarrow> string" where
  "quoted s = [CHR 0x27] @ s @ [CHR 0x27]"

definition content_security_policy :: string where
  "content_security_policy = join_with ''; ''
     [''default-src '' @ quoted ''self'', ''script-src '' @ quoted ''self'',
      ''style-src '' @ quoted ''self'' @ '' '' @ quoted ''unsafe-inline'' @ '' https:'' @ slash @ slash @ ''fonts.googleapis.com'',
      ''img-src '' @ quoted ''self'' @ '' data:'', ''font-src '' @ quoted ''self'' @ '' data: https:'' @ slash @ slash @ ''fonts.gstatic.com'',
      ''connect-src '' @ quoted ''self'', ''base-uri '' @ quoted ''self'', ''form-action '' @ quoted ''self'', ''frame-ancestors '' @ quoted ''none'']"

definition security_headers :: "(string \<times> string) list" where
  "security_headers = [(''X-Content-Type-Options'', ''nosniff''), (''Referrer-Policy'', ''strict-origin-when-cross-origin''),
     (''Permissions-Policy'', ''camera=(), microphone=(), geolocation=()''), (''Cross-Origin-Opener-Policy'', ''same-origin''),
     (''Cross-Origin-Resource-Policy'', ''same-origin''), (''Cross-Origin-Embedder-Policy'', ''require-corp''),
     (''Content-Security-Policy'', content_security_policy)]"

definition apply_security_headers :: "bool \<Rightarrow> (string, string) jsmap \<Rightarrow> (string, string) jsmap" where
  "apply_security_headers production hs =
     (if production then fold (\<lambda>(name, v). set_header name v) security_headers hs else hs)"

text \<open>A reply on the wire: status, headers and the JSON value of the body.\<close>

record http_response =
  hs_status :: nat
  hs_headers :: "(string, string) jsmap"
  hs_body :: jsval

definition json_content :: "bool \<Rightarrow> nat \<Rightarrow> api_response \<Rightarrow> http_response" where
  "json_content production status resp = \<lparr>hs_status = status,
     hs_headers = apply_security_headers production [(''content-type'', ''application/json;charset=utf-8'')],
     hs_body = json_of_response resp\<rparr>"

section \<open>The handlers of one server\<close>

text \<open>Everything the handlers depend on: their environments, the poller, the order of the answers
  to a discovery, the collation and the clock.\<close>

record server_env =
  sv_device :: env
  sv_host :: host_env
  sv_account :: account_env
  sv_poller :: poller
  sv_poll_now :: "string list \<Rightarrow> poll_reason \<Rightarrow> jsnum option \<Rightarrow> device_state list \<times> poll_error list"
  sv_order :: "string list"
  sv_lc :: "string \<Rightarrow> string \<Rightarrow> int"
  sv_day_fails :: "string \<Rightarrow> bool"
  sv_at_str :: "int \<Rightarrow> string"
  sv_now :: int

datatype route_reply = Json "(nat \<times> api_response) result" | EventStream

record route_run =
  rr_reply :: route_reply
  rr_world :: world
  rr_written :: "jsval option"
  rr_calls :: "cloud_call list"
  rr_stream :: "poller option"

text \<open>\<open>rr_stream\<close> is the poller with the client of the reply subscribed, when the reply is a stream; the
  handler leaves the poller as it is otherwise.\<close>

type_synonym route = "server_env \<Rightarrow> api_request \<Rightarrow> world \<Rightarrow> route_run"

definition device_route :: "handler \<Rightarrow> route" where
  "device_route h s req w = (let (resp, w1) = h (sv_device s\<lparr>e_poll := None\<rparr>) req w in
     \<lparr>rr_reply = Json (Inr (200, resp)), rr_world = w1, rr_written = None, rr_calls = [], rr_stream = None\<rparr>)"

text \<open>A handler that is given the poller.\<close>

definition polling_route :: "handler \<Rightarrow> route" where
  "polling_route h s req w = (let (resp, w1) = h (sv_device s\<lparr>e_poll := Some (sv_poll_now s)\<rparr>) req w in
     \<lparr>rr_reply = Json (Inr (200, resp)), rr_world = w1, rr_written = None, rr_calls = [], rr_stream = None\<rparr>)"

text \<open>The searches for hosts ask devices, too.\<close>

definition host_route :: "(server_env \<Rightarrow> api_request \<Rightarrow> host_run) \<Rightarrow> route" where
  "host_route h s req w = (let run = h s req in
     \<lparr>rr_reply = Json (map_sum (\<lambda>m. m) (Pair 200) (hr_response run)), rr_world = w\<lparr>w_sent := w_sent w @ hr_sent run\<rparr>,
       rr_written = hr_written run, rr_calls = [], rr_stream = None\<rparr>)"

definition account_route :: "(server_env \<Rightarrow> api_request \<Rightarrow> account_run) \<Rightarrow> route" where
  "account_route h s req w = (let run = h s req in
     \<lparr>rr_reply = Json (cn_reply run), rr_world = w, rr_written = cn_written run, rr_calls = cn_calls run, rr_stream = None\<rparr>)"

definition db_route :: "(server_env \<Rightarrow> telemetry_db \<Rightarrow> api_request \<Rightarrow> api_response) \<Rightarrow> route" where
  "db_route h s req w =
     \<lparr>rr_reply = Json (Inr (200, h s (w_db w) req)), rr_world = w, rr_written = None, rr_calls = [], rr_stream = None\<rparr>"

definition json_of_stats :: "poller_stats \<Rightarrow> (int \<Rightarrow> string) \<Rightarrow> jsval" where
  "json_of_stats p at_str = JObj [(''running'', JBool True), (''inFlight'', js_int (int (ps_in_flight p))),
     (''queueDepth'', js_int (int (ps_queue_depth p))), (''cycleMsP50'', js_int (ps_cycle_p50 p)),
     (''cycleMsP95'', js_int (ps_cycle_p95 p)),
     (''lastCycleAt'', (case ps_last_cycle_at p of None \<Rightarrow> JNull | Some t \<Rightarrow> JStr (at_str t))),
     (''activeClients'', js_int (int (ps_active_clients p)))]"

definition get_events_status :: route where
  "get_events_status s req w =
     \<lparr>rr_reply = Json (Inr (200, ApiOk (json_of_stats (Poller.get_status (sv_poller s)) (sv_at_str s)))), rr_world = w,
      rr_written = None, rr_calls = [], rr_stream = None\<rparr>"

text \<open>The stream subscribes a client with the poller: \<open>create_stream\<close>.\<close>

definition get_events_stream :: route where
  "get_events_stream s req w = \<lparr>rr_reply = EventStream, rr_world = w, rr_written = None, rr_calls = [],
     rr_stream = Some (create_stream (sv_lc s) (sv_poller s))\<rparr>"

section \<open>The route table\<close>

definition api_path :: "string list \<Rightarrow> string" where
  "api_path parts = concat (map (\<lambda>p. slash @ p) (''api'' # parts))"

definition api_routes :: "(string \<times> (string \<times> route) list) list" where
  "api_routes =
    [(api_path [''lan'', ''cidr-suggest''], [(''GET'', host_route (\<lambda>s _. suggest_lan_cidr (sv_host s)))]),
     (api_path [''status''], [(''GET'', account_route (\<lambda>s _. CloudApi.get_status (sv_account s)))]),
     (api_path [''cloud'', ''login''], [(''POST'', account_route (\<lambda>s. login_cloud (sv_account s)))]),
     (api_path [''cloud'', ''creds''], [(''GET'', account_route (\<lambda>s _. get_cloud_creds (sv_account s)))]),
     (api_path [''cloud'', ''devices''], [(''GET'', account_route (\<lambda>s _. get_cloud_devices (sv_account s)))]),
     (api_path [''cloud'', ''devices'', ''refresh''], [(''POST'', account_route (\<lambda>s. refresh_cloud_devices (sv_account s)))]),
     (api_path [''hosts''], [(''GET'', host_route (\<lambda>s _. get_hosts (sv_host s)))]),
     (api_path [''hosts'', ''resolve''], [(''POST'', host_route (\<lambda>s. resolve_host (sv_host s)))]),
     (api_path [''hosts'', ''discover''], [(''POST'', host_route (\<lambda>s req. discover_hosts (sv_host s) req (sv_order s)))]),
     (api_path [''network'', ''cidr''], [(''GET'', host_route (\<lambda>s _. get_network_cidr (sv_host s))),
        (''POST'', host_route (\<lambda>s. set_network_cidr (sv_host s)))]),
     (api_path [''device'', ''system-all''], [(''POST'', device_route get_device_system_all)]),
     (api_path [''device'', ''electricity''], [(''POST'', device_route get_device_electricity)]),
     (api_path [''device'', ''consumptionx''], [(''POST'', (\<lambda>s. device_route (get_device_consumption_x (sv_lc s) (sv_day_fails s)) s))]),
     (api_path [''device'', ''state''], [(''POST'', (\<lambda>s. polling_route (get_device_state (sv_lc s)) s))]),
     (api_path [''device'', ''states''], [(''POST'', (\<lambda>s. polling_route (get_device_states (sv_at_str s) (sv_poll_now s)) s))]),
     (api_path [''device'', ''toggle''], [(''POST'', polling_route toggle_device)]),
     (api_path [''device'', ''light''], [(''POST'', polling_route set_device_light)]),
     (api_path [''device'', ''timerx'', ''list''], [(''POST'', (\<lambda>s. device_route (get_device_timer_x (sv_lc s)) s))]),
     (api_path [''device'', ''timerx'', ''patch''], [(''POST'', polling_route patch_device_timer_x)]),
     (api_path [''device'', ''timerx'', ''set''], [(''POST'', polling_route set_device_timer_x)]),
     (api_path [''device'', ''timerx'', ''delete''], [(''POST'', polling_route delete_device_timer_x)]),
     (api_path [''device'', ''triggerx'', ''list''], [(''POST'', (\<lambda>s. device_route (get_device_trigger_x (sv_lc s)) s))]),
     (api_path [''device'', ''triggerx'', ''set''], [(''POST'', polling_route set_device_trigger_x)]),
     (api_path [''device'', ''triggerx'', ''delete''], [(''POST'', polling_route delete_device_trigger_x)]),
     (api_path [''events'', ''stream''], [(''GET'', get_events_stream)]),
     (api_path [''events'', ''status''], [(''GET'', get_events_status)]),
     (api_path [''telemetry'', ''power'', ''current''], [(''POST'', db_route (\<lambda>_. telemetry_power_current))]),
     (api_path [''telemetry'', ''power'', ''history''], [(''POST'', db_route (\<lambda>s db. telemetry_power_history db (sv_now s)))])]"

definition dispatch :: "string \<Rightarrow> string \<Rightarrow> route option" where
  "dispatch url_path verb = (case map_of api_routes url_path of None \<Rightarrow> None | Some methods \<Rightarrow> map_of methods verb)"

section \<open>The client of the envelope\<close>

datatype client_error =
    ApiError string jsval jsval nat
  | TypeErr string

text \<open>\<open>parseJson\<close>: \<open>JNull\<close> for an empty or unreadable body.\<close>

definition parse_reply_body :: "string result \<Rightarrow> jsval" where
  "parse_reply_body body = (case body of
     Inl _ \<Rightarrow> JNull | Inr s \<Rightarrow> if s = [] then JNull else or_else (json_parse s) JNull)"

text \<open>\<open>json.error.message\<close>: reading a member of a missing error throws.\<close>

definition envelope_error :: "jsval \<Rightarrow> nat \<Rightarrow> client_error" where
  "envelope_error json status =
     (if nullish (field json ''error'') then TypeErr ''error is not an object''
      else let err = field json ''error'' in
        ApiError (str_of (field err ''message'')) (field err ''code'') (field err ''details'') status)"

text \<open>\<open>apiGet\<close> and \<open>apiPost\<close> from the response on, with the status text.\<close>

definition read_envelope :: "nat \<Rightarrow> string \<Rightarrow> string result \<Rightarrow> client_error + jsval" where
  "read_envelope status status_text body =
     (let json = parse_reply_body body in
      if \<not> (200 \<le> status \<and> status < 300) then
        Inl (if truthy json \<and> \<not> truthy (field json ''ok'') then envelope_error json status
             else ApiError (dec_of_nat status @ '' '' @ status_text) JUndef JUndef status)
      else if \<not> truthy json then Inl (ApiError ''Invalid JSON response'' (JStr ''invalid_json'') JUndef status)
      else if \<not> truthy (field json ''ok'') then Inl (envelope_error json status)
      else Inr (field json ''data''))"

section \<open>Properties\<close>

subsection \<open>What a route may do\<close>

definition writing_routes :: "string list" where
  "writing_routes = map api_path [[''cloud'', ''login''], [''cloud'', ''devices'', ''refresh''], [''hosts'', ''resolve''],
     [''hosts'', ''discover''], [''network'', ''cidr'']]"

definition cloud_routes :: "string list" where
  "cloud_routes = map api_path [[''cloud'', ''login''], [''cloud'', ''devices'', ''refresh'']]"

definition search_routes :: "string list" where
  "search_routes = map api_path [[''hosts'', ''resolve''], [''hosts'', ''discover'']]"

definition changing_routes :: "string list" where
  "changing_routes = map api_path [[''device'', ''toggle''], [''device'', ''light''], [''device'', ''timerx'', ''patch''],
     [''device'', ''timerx'', ''set''], [''device'', ''timerx'', ''delete''], [''device'', ''triggerx'', ''set''], [''device'', ''triggerx'', ''delete'']]"

definition is_device_path :: "string \<Rightarrow> bool" where
  "is_device_path url \<longleftrightarrow> starts_with (api_path [''device''] @ slash) url"

text \<open>What a handler adds to the world: requests that satisfy \<open>P\<close>, polls and records of the store where they
  are allowed.\<close>

definition adds :: "(lan_request \<Rightarrow> bool) \<Rightarrow> bool \<Rightarrow> bool \<Rightarrow> world \<Rightarrow> world \<Rightarrow> bool" where
  "adds P polls store w w' \<longleftrightarrow> (\<exists>sent. w_sent w' = w_sent w @ sent \<and> list_all P sent) \<and>
     (polls \<or> w_polled w' = w_polled w) \<and> (store \<or> w_db w' = w_db w)"

definition is_read :: "lan_request \<Rightarrow> bool" where
  "is_read r \<longleftrightarrow> lr_method r = ''GET''"

named_theorems adding

lemma adds_refl [adding, intro!, simp]: "adds P polls store w w"
  by (simp add: adds_def)

lemma adds_trans: "adds P polls store w w1 \<Longrightarrow> adds P polls store w1 w2 \<Longrightarrow> adds P polls store w w2"
  unfolding adds_def by (metis append.assoc list_all_append)

lemma adds_ask: "P r \<Longrightarrow> adds P polls store w (w\<lparr>w_sent := w_sent w @ [r]\<rparr>)"
  by (simp add: adds_def)

lemma adds_poll [adding]: "adds P True store w (poll_after e uuid w)"
  by (simp add: adds_def)

lemma adds_store [adding]: "adds P polls True w (w\<lparr>w_db := db\<rparr>)"
  by (simp add: adds_def)

lemma adds_asking [adding]:
  assumes "P r" "\<And>v w. adds P polls store w (snd (f v w))"
  shows "adds P polls store w (snd (asking e r f w))"
proof -
  have sent: "adds P polls store w (w\<lparr>w_sent := w_sent w @ [r]\<rparr>)" by (rule adds_ask) (rule assms(1))
  with adds_trans [OF sent assms(2)] show ?thesis by (auto simp: asking_def split: sum.split)
qed

lemma adds_with_device [adding]:
  "(\<And>host key w. adds P polls store w (snd (f host key w))) \<Longrightarrow> adds P polls store w (snd (with_device e uuid f w))"
  by (auto simp: with_device_def split: sum.split prod.split)

lemma adds_fetch: "(\<And>i. P (req i)) \<Longrightarrow> adds P polls store w (snd (fetch_each e req is w))"
proof (induction "is" arbitrary: w)
  case (Cons i "is")
  have "adds P polls store w (w\<lparr>w_sent := w_sent w @ [req i]\<rparr>)" by (rule adds_ask) (rule Cons.prems)
  with adds_trans [OF this Cons.IH [OF Cons.prems]] show ?case by (auto split: sum.split prod.split)
qed simp

lemma adds_delete [adding]: "adds (\<lambda>_. True) True store w (snd (delete_rule label code set_rule e uuid host i rule w))"
  unfolding delete_rule_def Let_def by (auto intro!: adding split: option.split)

lemma read_requests [simp]:
  "is_read (get_system_all host key t)" "is_read (get_electricity host key c t)" "is_read (get_consumption_x host key c t)"
  "is_read (get_timer_x host key i)" "is_read (get_trigger_x host key i)"
  by (simp_all add: is_read_def get_system_all_def get_electricity_def get_consumption_x_def get_timer_x_def get_trigger_x_def)

definition handler_adds :: "(lan_request \<Rightarrow> bool) \<Rightarrow> bool \<Rightarrow> bool \<Rightarrow> handler \<Rightarrow> bool" where
  "handler_adds P polls store h \<longleftrightarrow> (\<forall>e req w. adds P polls store w (snd (h e req w)))"

lemma reading_handlers:
  "handler_adds is_read False False get_device_system_all"
  "handler_adds is_read False False get_device_electricity"
  "handler_adds is_read False True (get_device_consumption_x lc fails)"
  "handler_adds is_read False False (get_device_state lc)"
  "handler_adds is_read False False (get_device_states at_str poll_now)"
  by (auto simp: handler_adds_def get_device_system_all_def get_device_electricity_def get_device_consumption_x_def
      get_device_state_def get_device_states_def Let_def intro!: adding split: option.split prod.split)

lemma listing_handlers:
  "handler_adds is_read False False (get_device_timer_x lc)" "handler_adds is_read False False (get_device_trigger_x lc)"
proof -
  have fetched: "adds is_read False False w (snd (case fetch_each e req is w of (Inl m, w1) \<Rightarrow> (f m, w1) | (Inr raw, w1) \<Rightarrow> (g raw, w1)))"
    if "\<And>i. is_read (req i)" for e req "is" w f g
    using adds_fetch [of is_read req False False w e "is", OF that] by (auto split: prod.split sum.split)
  show "handler_adds is_read False False (get_device_timer_x lc)" "handler_adds is_read False False (get_device_trigger_x lc)"
    by (auto simp: handler_adds_def get_device_timer_x_def get_device_trigger_x_def Let_def intro!: adding fetched)
qed

lemma changing_handlers:
  "handler_adds (\<lambda>_. True) True False toggle_device" "handler_adds (\<lambda>_. True) True False set_device_light"
  "handler_adds (\<lambda>_. True) True False patch_device_timer_x" "handler_adds (\<lambda>_. True) True False set_device_timer_x"
  "handler_adds (\<lambda>_. True) True False delete_device_timer_x" "handler_adds (\<lambda>_. True) True False set_device_trigger_x"
  "handler_adds (\<lambda>_. True) True False delete_device_trigger_x"
proof -
  note adds_all = adds_ask [of "\<lambda>_. True", OF TrueI]
  have toggled: "adds (\<lambda>_. True) True False w (snd (toggled e uuid host channel onoff resp w))" for e uuid host channel onoff resp w
    by (simp add: toggled_def adding)
  show "handler_adds (\<lambda>_. True) True False toggle_device"
    using adds_trans [OF adds_all toggled] adds_trans [OF adds_all adds_asking [of "\<lambda>_. True", OF TrueI toggled]]
    by (auto simp: handler_adds_def toggle_device_def Let_def intro!: adds_with_device split: option.split prod.split sum.split)
  show "handler_adds (\<lambda>_. True) True False set_device_light" "handler_adds (\<lambda>_. True) True False patch_device_timer_x"
    "handler_adds (\<lambda>_. True) True False set_device_timer_x" "handler_adds (\<lambda>_. True) True False delete_device_timer_x"
    "handler_adds (\<lambda>_. True) True False set_device_trigger_x"
    by (auto simp: handler_adds_def set_device_light_def patch_device_timer_x_def set_device_timer_x_def set_device_trigger_x_def
        set_schedule_def delete_device_timer_x_def Let_def intro!: adding split: option.split sum.split)
  show "handler_adds (\<lambda>_. True) True False delete_device_trigger_x"
    using adds_trans [OF adds_all adds_delete]
    by (auto simp: handler_adds_def delete_device_trigger_x_def Let_def intro!: adds_with_device)
qed

text \<open>The searches send reads only, and the other handlers of the hosts send nothing.\<close>

definition searches :: "lan_request \<Rightarrow> bool" where
  "searches r \<longleftrightarrow> (\<exists>host key timeout. r = get_system_all host key (Some timeout))"

lemma sent_by_steps [simp]:
  "hr_sent (reply resp swept) = []" "hr_sent (raise_error message swept) = []" "hr_sent (settle_host e uuid mac ip normalized tried swept) = []"
  by (simp_all add: reply_def raise_error_def settle_host_def store_host_def split: option.split)

lemma scan_block_sends: "list_all searches (hr_sent (scan_block e uuid cidr timeout target swept hit missing))"
  by (auto simp: scan_block_def with_key_def Let_def scan_requests_def searches_def list_all_iff split: sum.split)

lemma host_searches:
  "list_all searches (hr_sent (resolve_host e req))" "list_all searches (hr_sent (discover_hosts e req order))"
  "hr_sent (set_network_cidr e req) = []"
proof -
  show "list_all searches (hr_sent (resolve_host e req))"
    by (simp add: resolve_host_def by_mac_def by_uuid_def Let_def scan_block_sends split: sum.split)
  have "list_all searches (map (\<lambda>ip. get_system_all ip key (Some timeout)) order)" for key timeout
    by (auto simp: searches_def list_all_iff)
  then show "list_all searches (hr_sent (discover_hosts e req order))"
    by (simp add: discover_hosts_def Let_def with_key_def discovered_def split: sum.split)
qed (simp add: set_network_cidr_def Let_def)

lemma searches_read: "searches r \<Longrightarrow> is_read r"
  by (auto simp: searches_def)

text \<open>What the run of a route may be.\<close>

definition run_allowed :: "string \<Rightarrow> string \<Rightarrow> server_env \<Rightarrow> world \<Rightarrow> route_run \<Rightarrow> bool" where
  "run_allowed url verb s w run \<longleftrightarrow>
     (verb = ''POST'' \<or> (verb = ''GET'' \<and> rr_world run = w \<and> rr_written run = None \<and> rr_calls run = [])) \<and>
     (\<exists>sent. w_sent (rr_world run) = w_sent w @ sent \<and>
        (sent \<noteq> [] \<longrightarrow> is_device_path url \<or> url \<in> set search_routes) \<and>
        (\<forall>r\<in>set sent. is_read r \<or> url \<in> set changing_routes) \<and> (\<forall>r\<in>set sent. searches r \<or> is_device_path url)) \<and>
     (w_polled (rr_world run) = w_polled w \<or> url \<in> set changing_routes) \<and>
     (w_db (rr_world run) = w_db w \<or> url = api_path [''device'', ''consumptionx'']) \<and>
     (rr_written run = None \<or> url \<in> set writing_routes) \<and> (rr_calls run = [] \<or> url \<in> set cloud_routes) \<and>
     rr_stream run = (if url = api_path [''events'', ''stream''] then Some (create_stream (sv_lc s) (sv_poller s)) else None)"

definition route_allowed :: "string \<Rightarrow> string \<Rightarrow> route \<Rightarrow> bool" where
  "route_allowed url verb h \<longleftrightarrow> (\<forall>s req w. run_allowed url verb s w (h s req w))"

lemma adds_allowed:
  assumes "adds P polls store w w'" "is_device_path url" "url \<noteq> api_path [''events'', ''stream'']"
    and "\<And>r. P r \<Longrightarrow> is_read r \<or> url \<in> set changing_routes" "polls \<longrightarrow> url \<in> set changing_routes"
    and "store \<longrightarrow> url = api_path [''device'', ''consumptionx'']"
  shows "run_allowed url ''POST'' s w \<lparr>rr_reply = r, rr_world = w', rr_written = None, rr_calls = [], rr_stream = None\<rparr>"
  using assms unfolding adds_def run_allowed_def by (auto simp: list_all_iff)

definition device_url :: "string \<Rightarrow> bool" where
  "device_url url \<longleftrightarrow> is_device_path url \<and> url \<noteq> api_path [''events'', ''stream'']"

lemma reading_allowed:
  assumes "\<And>s. handler_adds is_read False store (h s)" "device_url url" "store \<longrightarrow> url = api_path [''device'', ''consumptionx'']"
  shows "route_allowed url ''POST'' (\<lambda>s. device_route (h s) s)" "route_allowed url ''POST'' (\<lambda>s. polling_route (h s) s)"
  using assms
  by (auto simp: route_allowed_def device_route_def polling_route_def device_url_def handler_adds_def Let_def
      intro!: adds_allowed [where P = is_read and polls = False and store = store] split: prod.split) (metis snd_conv)+

lemma changing_allowed:
  assumes "handler_adds (\<lambda>_. True) True False h" "url \<in> set changing_routes" "device_url url"
  shows "route_allowed url ''POST'' (polling_route h)"
  using assms
  by (auto simp: route_allowed_def polling_route_def device_url_def handler_adds_def Let_def
      intro!: adds_allowed [where P = "\<lambda>_. True" and polls = True and store = False] split: prod.split) (metis snd_conv)+

lemma searching_allowed:
  assumes "\<And>s req. list_all searches (hr_sent (h s req))" "url \<in> set search_routes" "url \<in> set writing_routes" "url \<noteq> api_path [''events'', ''stream'']"
  shows "route_allowed url ''POST'' (host_route h)"
  using assms searches_read by (fastforce simp: route_allowed_def run_allowed_def host_route_def Let_def list_all_iff)

lemma just_reply_fields [simp]: "cn_written (just_reply n r) = None" "cn_calls (just_reply n r) = []"
  by (simp_all add: just_reply_def)

lemma other_routes:
  "url \<noteq> api_path [''events'', ''stream''] \<Longrightarrow> url \<in> set writing_routes \<Longrightarrow> route_allowed url ''POST'' (host_route (\<lambda>s. set_network_cidr (sv_host s)))"
  "url \<noteq> api_path [''events'', ''stream''] \<Longrightarrow> url \<in> set cloud_routes \<Longrightarrow> url \<in> set writing_routes \<Longrightarrow> route_allowed url ''POST'' (account_route a)"
  "url \<noteq> api_path [''events'', ''stream''] \<Longrightarrow> route_allowed url ''POST'' (db_route d)"
  "url \<noteq> api_path [''events'', ''stream''] \<Longrightarrow> route_allowed url ''GET'' get_events_status"
  "route_allowed (api_path [''events'', ''stream'']) ''GET'' get_events_stream"
  by (simp_all add: route_allowed_def run_allowed_def host_route_def account_route_def db_route_def
      get_events_stream_def get_events_status_def host_searches Let_def)

lemma reading_routes:
  assumes "url \<noteq> api_path [''events'', ''stream'']"
  shows "route_allowed url ''GET'' (host_route (\<lambda>s _. suggest_lan_cidr (sv_host s)))"
    "route_allowed url ''GET'' (host_route (\<lambda>s _. get_hosts (sv_host s)))"
    "route_allowed url ''GET'' (host_route (\<lambda>s _. get_network_cidr (sv_host s)))"
    "route_allowed url ''GET'' (account_route (\<lambda>s _. CloudApi.get_status (sv_account s)))"
    "route_allowed url ''GET'' (account_route (\<lambda>s _. get_cloud_creds (sv_account s)))"
    "route_allowed url ''GET'' (account_route (\<lambda>s _. get_cloud_devices (sv_account s)))"
  using assms
  by (auto simp: route_allowed_def run_allowed_def host_route_def account_route_def suggest_lan_cidr_def get_hosts_def
      get_network_cidr_def reply_def Let_def CloudApi.get_status_def get_cloud_creds_def get_cloud_devices_def split: sum.split)

lemma route_table_allowed:
  "list_all (\<lambda>(url, methods). list_all (\<lambda>(verb, h). route_allowed url verb h) methods) api_routes"
proof -
  have dev: "device_url (api_path (''device'' # parts))" if "parts \<noteq> []" for parts
    using that by (cases parts) (simp_all add: device_url_def is_device_path_def starts_with_def api_path_def slash_def)
  note device_routes = reading_handlers(1-3) [THEN reading_allowed(1)] listing_handlers [THEN reading_allowed(1)]
    reading_handlers(4,5) [THEN reading_allowed(2)] changing_handlers [THEN changing_allowed]
  note search = searching_allowed [OF host_searches(1)] searching_allowed [OF host_searches(2)]
  show ?thesis
    unfolding api_routes_def list.pred_inject(1) list.pred_inject(2) prod.case
    by (intro conjI TrueI reading_routes other_routes device_routes search dev impI)
     (simp_all add: writing_routes_def cloud_routes_def search_routes_def changing_routes_def, simp_all add: api_path_def)
qed

lemma dispatch_allowed:
  assumes "dispatch url verb = Some h"
  shows "run_allowed url verb s w (h s req w)"
proof -
  from assms obtain methods where m: "map_of api_routes url = Some methods" "map_of methods verb = Some h"
    by (auto simp: dispatch_def split: option.splits)
  then have "(url, methods) \<in> set api_routes" "(verb, h) \<in> set methods" by (auto dest: map_of_SomeD)
  with route_table_allowed show ?thesis by (fastforce simp: list_all_iff route_allowed_def)
qed



subsection \<open>The envelope\<close>

text \<open>C28. Client and server agree on the envelope: a reply of a handler that arrives as the JSON text
  it is sent as is read back as the data, or as an error with the message, the code and the details,
  and the status, whatever the status is, with what JSON keeps of them. In production no reply goes
  out without the security headers, and the content type is kept.\<close>

theorem envelope_read_back:
  assumes "storable (json_of_response resp)" and "200 \<le> status \<and> status < 300 \<or> \<not> is_api_ok resp"
  shows "read_envelope status status_text (Inr (json_stringify 0 (hs_body (json_content production status resp)))) = (case resp of
      ApiOk d \<Rightarrow> Inr (json_round d)
    | ApiErr m c \<Rightarrow> Inl (ApiError m (JStr c) JUndef status)
    | ApiErrWith m c details \<Rightarrow> Inl (ApiError m (JStr c) (json_round details) status)) \<and>
    map_get (hs_headers (json_content production status resp)) ''content-type'' = Some ''application/json;charset=utf-8'' \<and>
    list_all (\<lambda>(name, v). map_get (hs_headers (json_content True status resp)) (to_lower name) = Some v) security_headers"
proof (intro conjI)
  have "json_of_response resp \<noteq> JUndef" by (cases resp) simp_all
  with assms(1) have good: "storable (json_of_response resp) \<and> json_of_response resp \<noteq> JUndef" by blast
  note arrives = json_text.read_print [OF this, of 0]
  have "json_parse [] = None" by code_simp
  from json_text.print_nonempty [OF this good] have "json_stringify 0 (json_of_response resp) \<noteq> []" .
  then show "read_envelope status status_text (Inr (json_stringify 0 (hs_body (json_content production status resp)))) = (case resp of
      ApiOk d \<Rightarrow> Inr (json_round d)
    | ApiErr m c \<Rightarrow> Inl (ApiError m (JStr c) JUndef status)
    | ApiErrWith m c details \<Rightarrow> Inl (ApiError m (JStr c) (json_round details) status))"
    using assms(2) arrives
    by (cases resp) (auto simp: read_envelope_def parse_reply_body_def json_content_def envelope_error_def Let_def json_round_undef)
  show "map_get (hs_headers (json_content production status resp)) ''content-type'' = Some ''application/json;charset=utf-8''"
  proof (cases production)
    case True
    then show ?thesis unfolding json_content_def apply_security_headers_def http_response.simps by simp code_simp
  qed (simp add: json_content_def apply_security_headers_def)
  show "list_all (\<lambda>(name, v). map_get (hs_headers (json_content True status resp)) (to_lower name) = Some v) security_headers"
    unfolding json_content_def apply_security_headers_def http_response.simps if_True by code_simp
qed

lemma envelope_read_back_witness:
  "read_envelope 200 ''OK'' (Inr (json_stringify 0 (hs_body (json_content False 200 (ApiOk (JObj [(''n'', js_int 7), (''x'', JUndef)]))))))
     = Inr (JObj [(''n'', js_int 7)])"
proof -
  have "storable (json_of_response (ApiOk (JObj [(''n'', js_int 7), (''x'', JUndef)])))" by (simp add: short_decimal_def)
  from envelope_read_back [OF this, of 200 "''OK''" False] show ?thesis by simp
qed

end
