(* ===== verification/WebParse.thy ===== *)
theory WebParse
  imports PollerRuns Routes
begin

text \<open>
  What travels over the event stream: the messages the poller writes (\<open>pushToSubscriber\<close> and the
  DTO types of \<open>state-poller.ts\<close>) and how the web client reads them, the parsers of
  \<open>apps/web/src/state/devicesMachine.ts\<close>. The client trusts nothing: it coerces every member, sorts
  every list and drops what it cannot read. The payload of a message is printed as JSON text, by the
  printer of \<open>JsonPrint\<close>, and parsed again before it is read.
\<close>

section \<open>The messages of the stream\<close>

definition json_of_power :: "device_power \<Rightarrow> jsval" where
  "json_of_power d = JObj ([(''uuid'', JStr (dp_uuid d)), (''host'', JStr (dp_host d)), (''channel'', js_int (dp_channel d))]
     @ opt_field ''voltageV'' js_rat (dp_voltage_v d) @ opt_field ''currentA'' js_rat (dp_current_a d)
     @ opt_field ''powerW'' js_rat (dp_power_w d) @ opt_field ''voltageDv'' js_int (dp_voltage_dv d)
     @ opt_field ''currentMa'' js_int (dp_current_ma d) @ opt_field ''powerMw'' js_int (dp_power_mw d)
     @ [(''updatedAt'', js_int (dp_updated_at d)), (''source'', JStr (dp_source d)), (''stale'', JBool (dp_stale d))]
     @ opt_field ''error'' JStr (dp_error d))"

text \<open>The name of the event and its payload; times of day are printed by \<open>at_str\<close>.\<close>

fun event_message :: "(int \<Rightarrow> string) \<Rightarrow> event \<Rightarrow> string \<times> jsval" where
  "event_message at_str (EvSnapshot ds) = (''snapshot'', JObj [(''states'', JArr (map json_of_device_state ds))])"
| "event_message at_str (EvPowerSnapshot ps) = (''power_snapshot'', JObj [(''readings'', JArr (map json_of_power ps))])"
| "event_message at_str (EvHealth st) = (''poller_health'', json_of_stats st at_str)"
| "event_message at_str (EvHeartbeat t) = (''heartbeat'', JObj [(''at'', JStr (at_str t))])"
| "event_message at_str (EvState d) = (''device_state'', json_of_device_state d)"
| "event_message at_str (EvStale d) = (''device_stale'', json_of_device_state d)"
| "event_message at_str (EvPower p) = (''device_power'', json_of_power p)"
| "event_message at_str (EvPowerStale p) = (''device_power_stale'', json_of_power p)"

section \<open>Reading them\<close>

record web_light =
  wl_channel :: int
  wl_onoff :: nat
  wl_luminance :: "rat option"
  wl_temperature :: "rat option"
  wl_rgb :: "rat option"

text \<open>\<open>Number.isFinite(Number(entry?.k)) ? Number(entry?.k) : undefined\<close>\<close>

definition number_member :: "jsval \<Rightarrow> string \<Rightarrow> rat option" where
  "number_member v k = finite_num (num_of (field v k))"

definition parse_light :: "jsval \<Rightarrow> web_light option" where
  "parse_light v = (if \<not> is_object v then None
     else case channel_num (field v ''channel'') of
         None \<Rightarrow> None
       | Some ch \<Rightarrow> Some \<lparr>wl_channel = ch, wl_onoff = onoff_of (field v ''onoff''),
           wl_luminance = number_member v ''luminance'', wl_temperature = number_member v ''temperature'',
           wl_rgb = number_member v ''rgb''\<rparr>)"

definition parse_channel :: "jsval \<Rightarrow> toggle_state option" where
  "parse_channel item = (case channel_num (field item ''channel'') of
     None \<Rightarrow> None
   | Some ch \<Rightarrow> Some \<lparr>ts_channel = ch, ts_onoff = onoff_of (field item ''onoff'')\<rparr>)"

fun array_items :: "jsval \<Rightarrow> jsval list" where
  "array_items (JArr vs) = vs"
| "array_items _ = []"

definition parse_channels :: "jsval \<Rightarrow> toggle_state list" where
  "parse_channels v = js_sort (by_channel ts_channel) (List.map_filter parse_channel (array_items v))"

definition parse_lights :: "jsval \<Rightarrow> web_light list" where
  "parse_lights v = js_sort (by_channel wl_channel) (List.map_filter parse_light (array_items v))"

definition parse_digest_entry :: "jsval \<Rightarrow> digest_entry option" where
  "parse_digest_entry item = (case channel_num (field item ''channel'') of
     None \<Rightarrow> None
   | Some ch \<Rightarrow> (let i = trim (string_or_empty (field item ''id'')) in
       if i = [] then None
       else Some \<lparr>de_channel = ch, de_id = i,
         de_count = (case number_member item ''count'' of None \<Rightarrow> 0 | Some c \<Rightarrow> max 0 (js_round c))\<rparr>))"

definition parse_schedule_digest :: "(string \<Rightarrow> string \<Rightarrow> int) \<Rightarrow> jsval \<Rightarrow> digest_entry list" where
  "parse_schedule_digest lc v = js_sort (digest_cmp lc) (List.map_filter parse_digest_entry (array_items v))"

record web_state =
  ws_uuid :: string
  ws_host :: string
  ws_kind :: "string option"
  ws_channel :: int
  ws_onoff :: nat
  ws_channels :: "toggle_state list"
  ws_lights :: "web_light list"
  ws_light :: "web_light option"
  ws_timerx :: "digest_entry list"
  ws_triggerx :: "digest_entry list"
  ws_updated_at :: rat
  ws_stale :: bool
  ws_source :: "string option"
  ws_error :: "string option"

text \<open>\<open>typeof v === 'string' ? v : undefined\<close>\<close>

fun string_value :: "jsval \<Rightarrow> string option" where
  "string_value (JStr s) = Some s"
| "string_value _ = None"

text \<open>\<open>Number.isFinite(updatedAt) && updatedAt > 0\<close>\<close>

definition positive_time :: "jsval \<Rightarrow> rat option" where
  "positive_time v = (case finite_num (num_of v) of None \<Rightarrow> None | Some t \<Rightarrow> if t \<le> 0 then None else Some t)"

definition parse_stream_state :: "(string \<Rightarrow> string \<Rightarrow> int) \<Rightarrow> jsval \<Rightarrow> web_state option" where
  "parse_stream_state lc v =
     (let uuid = trim (string_or_empty (field v ''uuid'')) in
      if \<not> is_object v \<or> uuid = [] then None
      else case channel_num (field v ''channel'') of
          None \<Rightarrow> None
        | Some channel \<Rightarrow> (case positive_time (field v ''updatedAt'') of
            None \<Rightarrow> None
          | Some updated_at \<Rightarrow> Some
              \<lparr>ws_uuid = uuid, ws_host = string_or_empty (field v ''host''), ws_kind = string_value (field v ''kind''),
               ws_channel = channel, ws_onoff = onoff_of (field v ''onoff''),
               ws_channels = parse_channels (field v ''channels''), ws_lights = parse_lights (field v ''lights''),
               ws_light = parse_light (field v ''light''),
               ws_timerx = parse_schedule_digest lc (field v ''timerxDigest''),
               ws_triggerx = parse_schedule_digest lc (field v ''triggerxDigest''),
               ws_updated_at = updated_at, ws_stale = truthy (field v ''stale''),
               ws_source = string_value (field v ''source''), ws_error = string_value (field v ''error'')\<rparr>))"

definition parse_snapshot_states :: "(string \<Rightarrow> string \<Rightarrow> int) \<Rightarrow> jsval \<Rightarrow> web_state list" where
  "parse_snapshot_states lc v = List.map_filter (parse_stream_state lc) (array_items (field v ''states''))"

record web_power =
  wp_uuid :: string
  wp_host :: string
  wp_channel :: int
  wp_voltage_v :: "rat option"
  wp_current_a :: "rat option"
  wp_power_w :: "rat option"
  wp_updated_at :: rat
  wp_stale :: bool
  wp_error :: "string option"

definition parse_power :: "jsval \<Rightarrow> web_power option" where
  "parse_power v =
     (let uuid = trim (string_or_empty (field v ''uuid'')) in
      if \<not> is_object v \<or> uuid = [] then None
      else case channel_num (field v ''channel'') of
          None \<Rightarrow> None
        | Some channel \<Rightarrow> (case positive_time (field v ''updatedAt'') of
            None \<Rightarrow> None
          | Some updated_at \<Rightarrow> Some
              \<lparr>wp_uuid = uuid, wp_host = string_or_empty (field v ''host''), wp_channel = channel,
               wp_voltage_v = number_member v ''voltageV'', wp_current_a = number_member v ''currentA'',
               wp_power_w = number_member v ''powerW'', wp_updated_at = updated_at,
               wp_stale = truthy (field v ''stale''), wp_error = string_value (field v ''error'')\<rparr>))"

definition parse_power_snapshot :: "jsval \<Rightarrow> web_power list" where
  "parse_power_snapshot v = List.map_filter parse_power (array_items (field v ''readings''))"

section \<open>Well-formed states\<close>

text \<open>What the service guarantees of a state, besides its name and its time.\<close>

definition typed_toggle :: "toggle_state \<Rightarrow> bool" where
  "typed_toggle t \<longleftrightarrow> 0 \<le> ts_channel t \<and> ts_onoff t \<le> 1"

definition typed_light :: "light_state \<Rightarrow> bool" where
  "typed_light l \<longleftrightarrow> 0 \<le> ls_channel l \<and> ls_onoff l \<le> 1"

definition typed_digest :: "digest_entry \<Rightarrow> bool" where
  "typed_digest d \<longleftrightarrow> 0 \<le> de_channel d \<and> de_id d \<noteq> [] \<and> trim (de_id d) = de_id d \<and> 0 \<le> de_count d"

definition typed_state :: "(string \<Rightarrow> string \<Rightarrow> int) \<Rightarrow> device_state \<Rightarrow> bool" where
  "typed_state lc d \<longleftrightarrow> 0 \<le> ds_channel d \<and> ds_onoff d \<le> 1 \<and>
     list_all typed_toggle (ds_channels d) \<and> sorted (map ts_channel (ds_channels d)) \<and>
     list_all typed_light (ds_lights d) \<and> sorted (map ls_channel (ds_lights d)) \<and>
     (case ds_light d of None \<Rightarrow> True | Some l \<Rightarrow> typed_light l) \<and>
     list_all typed_digest (ds_timerx d) \<and> sorted_wrt (\<lambda>a b. digest_cmp lc a b \<le> 0) (ds_timerx d) \<and>
     list_all typed_digest (ds_triggerx d) \<and> sorted_wrt (\<lambda>a b. digest_cmp lc a b \<le> 0) (ds_triggerx d)"

section \<open>The service only holds well-formed states\<close>

lemma js_sort_sorted: "sorted_wrt (\<lambda>a b. cmp a b \<le> 0) xs \<Longrightarrow> js_sort cmp xs = xs"
proof (induction xs)
  case (Cons x xs)
  then show ?case by (cases xs) auto
qed simp

lemma trim_left_no_space: "trim_left s = [] \<or> \<not> is_space (hd (trim_left s))"
  unfolding trim_left_def by (metis hd_dropWhile)

lemma trim_left_id: "s = [] \<or> \<not> is_space (hd s) \<Longrightarrow> trim_left s = s"
  by (cases s) (auto simp: trim_left_def)

lemma trim_trim [simp]: "trim (trim s) = trim s"
proof -
  define a where "a = trim_left s"
  define b where "b = rev (trim_left (rev a))"
  have b: "trim s = b" by (simp add: trim_def a_def b_def)
  have "b = [] \<or> \<not> is_space (hd b)"
  proof (cases "b = []")
    case False
    obtain ys where "rev a = ys @ trim_left (rev a)"
      unfolding trim_left_def by (metis takeWhile_dropWhile_id)
    then have "a = b @ rev ys" by (metis b_def rev_append rev_rev_ident)
    with False have "hd b = hd a" "a \<noteq> []" by auto
    then show ?thesis using trim_left_no_space [of s] by (simp add: a_def)
  qed simp
  then have "trim_left b = b" by (rule trim_left_id)
  moreover have "trim_left (rev b) = rev b"
    by (rule trim_left_id) (use trim_left_no_space [of "rev a"] in \<open>simp add: b_def\<close>)
  ultimately have "trim b = b" by (simp add: trim_def)
  then show ?thesis by (simp only: b)
qed

lemma typed_map_filter:
  assumes "\<And>v y. f v = Some y \<Longrightarrow> P y"
  shows "list_all P (List.map_filter f vs)"
  using assms by (auto simp: list_all_iff set_map_filter)

lemma list_all_js_sort [simp]: "list_all P (js_sort cmp xs) = list_all P xs"
  by (simp add: list_all_iff)

lemma first_of_value:
  assumes "Extract.first_of f xs = Some y"
  obtains x where "f x = Some y"
  using Extract.first_of_Some [OF assms] by blast

lemma extract_toggles_typed:
  assumes "extract_lan_toggle_x resp = Some ts"
  shows "list_all typed_toggle ts \<and> sorted (map ts_channel ts)"
proof -
  obtain c where c: "toggle_candidate c = Some ts"
    by (rule first_of_value [OF assms [unfolded extract_lan_toggle_x_def Let_def]])
  have "list_all typed_toggle (List.map_filter toggle_item vs)" for vs
    by (rule typed_map_filter) (use toggle_itemD in \<open>auto simp: typed_toggle_def\<close>)
  with c show ?thesis by (auto simp: toggle_candidate_def Let_def toggles.sorted_by_key split: if_splits)
qed

lemma extract_lights_typed:
  assumes "extract_lan_light resp = Some ls"
  shows "list_all typed_light ls \<and> sorted (map ls_channel ls)"
proof -
  obtain c where c: "light_candidate c = Some ls"
    by (rule first_of_value [OF assms [unfolded extract_lan_light_def Let_def]])
  have "list_all typed_light (List.map_filter light_item vs)" for vs
    by (rule typed_map_filter) (use light_itemD in \<open>auto simp: typed_light_def\<close>)
  with c show ?thesis by (auto simp: light_candidate_def Let_def lights.sorted_by_key split: if_splits)
qed

lemma digest_item_typed: "digest_item v = Some d \<Longrightarrow> typed_digest d"
  using digest_itemD [of v d] by (auto simp: typed_digest_def digest_item_def Let_def split: option.splits if_splits)

lemma extract_digest_typed:
  assumes "collation lc"
  shows "list_all typed_digest (extract_lan_schedule_digest lc kind resp) \<and>
    sorted_wrt (\<lambda>a b. digest_cmp lc a b \<le> 0) (extract_lan_schedule_digest lc kind resp)"
proof (cases "first_of (digest_candidate lc) [field (path resp digest_path) kind, path (path resp digest_path) [kind, kind]]")
  case (Some ds)
  then obtain c where c: "digest_candidate lc c = Some ds" by (rule first_of_value)
  have "comparator (digest_cmp lc)" unfolding digest_cmp_def by (rule collation.comparator_cmp_then [OF assms])
  moreover have "list_all typed_digest (List.map_filter digest_item vs)" for vs
    by (rule typed_map_filter) (rule digest_item_typed)
  ultimately have "list_all typed_digest ds \<and> sorted_wrt (\<lambda>a b. digest_cmp lc a b \<le> 0) ds"
    using c by (auto simp: digest_candidate_def comparator.sorted_js_sort split: if_splits)
  with Some show ?thesis by (simp add: extract_lan_schedule_digest_def Let_def del: path.simps)
qed (simp add: extract_lan_schedule_digest_def Let_def del: path.simps)

lemma find_channel_in: "find_channel ch xs = Some x \<Longrightarrow> x \<in> set xs"
  by (auto simp: find_channel_def dest: find_found split: option.splits list.splits)

lemma electricity_channel: "extract_lan_electricity resp = Some e \<Longrightarrow> 0 \<le> el_channel e"
  unfolding extract_lan_electricity_def
  by (elim first_of_value) (auto simp: electricity_candidate_def Let_def split: if_splits option.splits)

lemma state_of_answer_typed:
  assumes "collation lc" "state_of_answer lc uuid reason host resp = Inr d"
  shows "typed_state lc d"
proof -
  define cs where "cs = normalize_channels (or_else (extract_lan_toggle_x resp) [])"
  define ls where "ls = or_else (extract_lan_light resp) []"
  have cs: "list_all typed_toggle cs" "sorted (map ts_channel cs)"
    using extract_toggles_typed [of resp]
    by (cases "extract_lan_toggle_x resp"; simp add: cs_def normalize_channels_def toggles.sorted_by_key)+
  have ls: "list_all typed_light ls" "sorted (map ls_channel ls)"
    using extract_lights_typed [of resp] by (cases "extract_lan_light resp"; simp add: ls_def)+
  have l0: "find_channel ls_channel ls = Some l \<Longrightarrow> typed_light l" for l
    using ls(1) find_channel_in by (metis list_all_iff)
  have c0: "find_channel ts_channel cs = Some c \<Longrightarrow> typed_toggle c" for c
    using cs(1) find_channel_in by (metis list_all_iff)
  show ?thesis
    using assms(2) unfolding state_of_answer_def Let_def cs_def [symmetric] ls_def [symmetric]
    using cs ls l0 c0 extract_digest_typed [OF assms(1), of "''timerx''" resp] extract_digest_typed [OF assms(1), of "''triggerx''" resp]
    by (auto simp: typed_state_def extract_lan_timer_x_digest_def extract_lan_trigger_x_digest_def typed_light_def typed_toggle_def
        split: if_splits option.splits)
qed

lemma typed_state_updates [simp]:
  "typed_state lc (d\<lparr>ds_source := r\<rparr>) = typed_state lc d" "typed_state lc (d\<lparr>ds_updated_at := t\<rparr>) = typed_state lc d"
  by (simp_all add: typed_state_def)

definition states_typed :: "(string \<Rightarrow> string \<Rightarrow> int) \<Rightarrow> (string, device_state) jsmap \<Rightarrow> bool" where
  "states_typed lc m \<longleftrightarrow> (\<forall>u d. map_get m u = Some d \<longrightarrow> typed_state lc d)"

lemma states_typed_set: "states_typed lc m \<Longrightarrow> typed_state lc d \<Longrightarrow> states_typed lc (map_set u d m)"
  by (simp add: states_typed_def)

lemma poll_success_typed:
  "states_typed lc (p_states s) \<Longrightarrow> typed_state lc next \<Longrightarrow> states_typed lc (p_states (fst (poll_success next now rnd s)))"
  by (auto simp: poll_success_def Let_def states_typed_def split: option.splits)

lemma stale_state_typed: "states_typed lc (p_states s) \<Longrightarrow> typed_state lc (stale_state uuid reason message t s)"
  by (cases "map_get (p_states s) uuid") (auto simp: states_typed_def stale_state_def Let_def typed_state_def)

lemma poll_failure_typed:
  assumes "states_typed lc (p_states s)"
  shows "states_typed lc (p_states (fst (poll_failure uuid reason message now t rnd s)))"
proof -
  have "states_typed lc (p_states s2) \<Longrightarrow> typed_state lc (stale_state uuid reason message t s2)" for s2
    by (rule stale_state_typed)
  with assms show ?thesis
    unfolding poll_failure_def Let_def by (auto intro!: states_typed_set)
qed

lemma poll_settle_typed:
  assumes "collation lc" "states_typed lc (p_states s)"
  shows "states_typed lc (p_states (poll_settle lc uuid outcome t rnd s))"
proof (cases "map_get (p_in_flight s) uuid")
  case (Some task)
  show ?thesis
  proof (cases "and_then outcome (\<lambda>(host, resp). state_of_answer lc uuid (pt_reason task) host resp)")
    case (Inl message)
    obtain s1 res where r: "poll_failure uuid (pt_reason task) message (pt_now task) t rnd s = (s1, res)"
      by (cases "poll_failure uuid (pt_reason task) message (pt_now task) t rnd s")
    with poll_failure_typed [OF assms(2), of uuid "pt_reason task" message "pt_now task" t rnd]
    show ?thesis by (simp add: poll_settle_def Inl Some)
  next
    case (Inr st)
    then obtain host resp where "state_of_answer lc uuid (pt_reason task) host resp = Inr st" by (auto simp: and_then_Inr)
    from state_of_answer_typed [OF assms(1) this] have st: "typed_state lc st" .
    define st2 where "st2 = st\<lparr>ds_updated_at := next_updated_at t (map_option ds_updated_at (map_get (p_states s) uuid))\<rparr>"
    obtain s1 res where r: "poll_success st2 (pt_now task) rnd s = (s1, res)"
      by (cases "poll_success st2 (pt_now task) rnd s")
    have "states_typed lc (p_states (fst (poll_success st2 (pt_now task) rnd s)))"
      by (rule poll_success_typed [OF assms(2)]) (simp add: st2_def st)
    with r show ?thesis by (simp add: poll_settle_def Inr Some flip: st2_def)
  qed
qed (simp add: poll_settle_def assms)

lemma step_states_typed:
  assumes "collation lc" "poller_step lc tel_ms s s'" "states_typed lc (p_states s)"
  shows "states_typed lc (p_states s')"
  using assms(2)
proof (cases rule: poller_step.cases)
  case (settle uuid task outcome t rnd)
  then show ?thesis using poll_settle_typed [OF assms(1,3)] by simp
qed (use assms(3) in simp_all)

text \<open>The readings of the service are well formed, too.\<close>

definition typed_power :: "device_power \<Rightarrow> bool" where
  "typed_power p \<longleftrightarrow> 0 \<le> dp_channel p"

definition powers_typed :: "(string, device_power) jsmap \<Rightarrow> bool" where
  "powers_typed m \<longleftrightarrow> (\<forall>u p. map_get m u = Some p \<longrightarrow> typed_power p)"

lemma powers_typed_set: "powers_typed m \<Longrightarrow> typed_power p \<Longrightarrow> powers_typed (map_set u p m)"
  by (simp add: powers_typed_def)

lemma powers_typed_get: "powers_typed m \<Longrightarrow> map_get m u = Some p \<Longrightarrow> 0 \<le> dp_channel p"
  by (auto simp: powers_typed_def typed_power_def)

lemma telemetry_success_powers:
  "powers_typed (p_powers s) \<Longrightarrow> 0 \<le> el_channel e \<Longrightarrow> powers_typed (p_powers (telemetry_success ms u host e src now t ok s))"
  by (auto simp: telemetry_success_def Let_def typed_power_def intro!: powers_typed_set)

lemma telemetry_failure_powers:
  "powers_typed (p_powers s) \<Longrightarrow> powers_typed (p_powers (telemetry_failure ms u message src now t s))"
  by (auto simp: telemetry_failure_def Let_def typed_power_def intro!: powers_typed_set dest: powers_typed_get split: option.split)

lemma telemetry_settle_powers:
  "powers_typed (p_powers s) \<Longrightarrow> powers_typed (p_powers (telemetry_settle ms u oc t ok s))"
  by (auto simp: telemetry_settle_def Let_def telemetry_success_powers telemetry_failure_powers electricity_channel
      split: option.split telemetry_outcome.split)

lemma sending_keeps_powers [simp]:
  "p_powers (push_to_subscriber sid ev s) = p_powers s" "p_powers (create_stream lc s) = p_powers s"
  "p_powers (cancel_stream sid s) = p_powers s" "p_powers (close_stream sid s) = p_powers s" "p_powers (heartbeat sid now s) = p_powers s"
  by (simp_all add: create_stream_def cancel_stream_def close_stream_def heartbeat_def Let_def push_to_subscriber_subs split: option.splits)

lemma polling_keeps_powers [simp]:
  "p_powers (fst (poll_success st now rnd s)) = p_powers s" "p_powers (fst (poll_failure u r m now t rnd s)) = p_powers s"
  "p_powers (poll_settle lc u oc t rnd s) = p_powers s"
proof -
  show success: "p_powers (fst (poll_success st now rnd s)) = p_powers s" for st now s
    by (auto simp: poll_success_def Let_def split: option.splits)
  show failure: "p_powers (fst (poll_failure u r m now t rnd s)) = p_powers s" for r m now s
    by (auto simp: poll_failure_def Let_def split: option.splits)
  show "p_powers (poll_settle lc u oc t rnd s) = p_powers s"
    using success failure by (auto simp: poll_settle_def Let_def split: option.split sum.split prod.split) (metis fst_conv)+
qed

lemma others_keep_powers [simp]:
  "p_powers (poll_release u s) = p_powers s" "p_powers (telemetry_release u s) = p_powers s"
  "p_powers (tick_begin now s) = p_powers s" "p_powers (tick_synced s) = p_powers s"
  "p_powers (tick_body now s) = p_powers s" "p_powers (now_begin us r tmo s) = p_powers s" "p_powers (now_launch i now s) = p_powers s"
  "p_powers (now_resume i w now s) = p_powers s" "p_powers (resolve_finish u hit now s) = p_powers s"
  by (simp_all add: poll_release_def telemetry_release_def tick_begin_def tick_synced_def tick_body_def now_begin_def now_launch_def
      now_resume_def resolve_finish_def Let_def split: option.splits prod.splits tick_phase.splits now_worker.splits poll_result.splits)

lemma step_powers_typed:
  assumes "poller_step lc tel_ms s s'" "powers_typed (p_powers s)"
  shows "powers_typed (p_powers s')"
  using assms(1) by (cases rule: poller_step.cases) (use assms(2) in \<open>simp_all add: telemetry_settle_powers\<close>)

text \<open>The states and the readings an event holds.\<close>

fun event_states :: "event \<Rightarrow> device_state list" where
  "event_states (EvSnapshot ds) = ds"
| "event_states (EvState d) = [d]"
| "event_states (EvStale d) = [d]"
| "event_states _ = []"

fun event_powers :: "event \<Rightarrow> device_power list" where
  "event_powers (EvPowerSnapshot ps) = ps"
| "event_powers (EvPower p) = [p]"
| "event_powers (EvPowerStale p) = [p]"
| "event_powers _ = []"

definition carries_only :: "(device_state \<Rightarrow> bool) \<Rightarrow> (device_power \<Rightarrow> bool) \<Rightarrow> event \<Rightarrow> bool" where
  "carries_only P R ev \<longleftrightarrow> list_all P (event_states ev) \<and> list_all R (event_powers ev)"

text \<open>What was written to subscribers so far, for any property of states and of readings.\<close>

definition all_sent :: "(device_state \<Rightarrow> bool) \<Rightarrow> (device_power \<Rightarrow> bool) \<Rightarrow> (nat, subscriber) jsmap \<Rightarrow> bool" where
  "all_sent P R m \<longleftrightarrow> (\<forall>i sub. map_get m i = Some sub \<longrightarrow> list_all (carries_only P R) (sb_events sub))"

lemma all_sent_push: "all_sent P R (p_subs s) \<Longrightarrow> carries_only P R ev \<Longrightarrow> all_sent P R (p_subs (push_to_subscriber sid ev s))"
  by (auto simp: all_sent_def push_to_subscriber_subs push_subs_get received_def split: if_splits option.splits)

lemma all_sent_broadcast: "all_sent P R (p_subs s) \<Longrightarrow> carries_only P R ev \<Longrightarrow> all_sent P R (p_subs (broadcast_event ev s))"
proof -
  have "all_sent P R (p_subs s) \<Longrightarrow> carries_only P R ev \<Longrightarrow> all_sent P R (p_subs (fold (\<lambda>sid. push_to_subscriber sid ev) ks s))" for ks
    by (induction ks arbitrary: s) (simp_all add: all_sent_push)
  then show "all_sent P R (p_subs s) \<Longrightarrow> carries_only P R ev \<Longrightarrow> ?thesis" by (simp add: broadcast_event_def)
qed

lemma all_sent_stream:
  assumes "all_sent P R (p_subs s)" "\<And>d. d \<in> snd ` set (p_states s) \<Longrightarrow> P d" "\<And>p. p \<in> snd ` set (p_powers s) \<Longrightarrow> R p"
  shows "all_sent P R (p_subs (create_stream lc s))"
proof -
  have "all_sent P R (map_set i \<lparr>sb_open = True, sb_events = []\<rparr> (p_subs s))" for i
    using assms(1) by (auto simp: all_sent_def)
  moreover have "list_all P (js_sort c (map snd (p_states s)))" for c
    using assms(2) by (auto simp: list_all_iff)
  moreover have "list_all R (js_sort c (map snd (p_powers s)))" for c
    using assms(3) by (auto simp: list_all_iff)
  ultimately show ?thesis
    unfolding create_stream_def Let_def by (intro all_sent_push) (simp_all add: carries_only_def del: list_all_js_sort)
qed

lemma all_sent_effect:
  assumes "all_sent P R (p_subs s)" "poll_effect uuid s s'" "\<And>u d. map_get (p_states s') u = Some d \<Longrightarrow> P d"
  shows "all_sent P R (p_subs s')"
  using assms(2) unfolding poll_effect_def
proof (elim disjE exE conjE)
  fix st evs assume evs: "evs \<in> {[EvState st], [EvState st, EvStale st]}" and pub: "published evs st s s'"
  have P: "P st" by (rule assms(3) [of "ds_uuid st"]) (use pub in \<open>simp add: published_def\<close>)
  have one: "list_all (carries_only P R) (sb_events sub')"
    if "received ev (Some sub) = Some sub'" "carries_only P R ev"
      "list_all (carries_only P R) (sb_events sub)" for ev sub sub'
    using that by (auto simp: received_def split: if_splits)
  have "list_all (carries_only P R) (sb_events sub')" if got: "map_get (p_subs s') i = Some sub'" for i sub'
  proof -
    obtain sub where sub: "map_get (p_subs s) i = Some sub" "fold received evs (Some sub) = Some sub'"
      using got pub unfolding published_def by (metis fold_received_None not_Some_eq)
    have old: "list_all (carries_only P R) (sb_events sub)"
      using assms(1) sub(1) by (simp add: all_sent_def)
    have "sb_open sub" using sub(2) evs fold_received_closed by blast
    then have "sb_events sub' = sb_events sub @ evs" using fold_received [OF sub(2)] by blast
    then show ?thesis using old P evs by (auto simp: carries_only_def)
  qed
  then show ?thesis by (simp add: all_sent_def)
qed (simp add: assms(1))

lemma all_sent_success:
  assumes "all_sent P R (p_subs s)" "\<And>p. map_get (p_powers (telemetry_success ms u host e src now t ok s)) u = Some p \<Longrightarrow> R p"
  shows "all_sent P R (p_subs (telemetry_success ms u host e src now t ok s))"
  using assms by (auto simp: telemetry_success_def Let_def intro!: all_sent_broadcast simp: carries_only_def)

lemma all_sent_failure:
  assumes "all_sent P R (p_subs s)" "\<And>p. map_get (p_powers (telemetry_failure ms u message src now t s)) u = Some p \<Longrightarrow> R p"
  shows "all_sent P R (p_subs (telemetry_failure ms u message src now t s))"
  using assms by (auto simp: telemetry_failure_def Let_def intro!: all_sent_broadcast simp: carries_only_def split: option.splits)

lemma all_sent_telemetry:
  assumes "all_sent P R (p_subs s)" "\<And>p. map_get (p_powers (telemetry_settle ms u oc t ok s)) u = Some p \<Longrightarrow> R p"
  shows "all_sent P R (p_subs (telemetry_settle ms u oc t ok s))"
  using assms by (auto simp: telemetry_settle_def Let_def all_sent_success all_sent_failure split: option.splits telemetry_outcome.splits)

lemma all_sent_tick: "all_sent P R (p_subs s) \<Longrightarrow> all_sent P R (p_subs (tick_body now s))"
  by (auto simp: tick_body_def Let_def all_sent_broadcast carries_only_def split: tick_phase.splits)

lemma all_sent_subscribers:
  "all_sent P R (p_subs s) \<Longrightarrow> all_sent P R (p_subs (cancel_stream i s))"
  "all_sent P R (p_subs s) \<Longrightarrow> all_sent P R (p_subs (close_stream i s))"
  by (auto simp: cancel_stream_def close_stream_def all_sent_def split: option.splits if_splits)

lemma all_sent_heartbeat: "all_sent P R (p_subs s) \<Longrightarrow> all_sent P R (p_subs (heartbeat i now s))"
  by (simp add: heartbeat_def all_sent_push carries_only_def)

lemma step_all_sent:
  assumes "poller_step lc tel_ms s s'" "poller_inv s" "map_ok (p_powers s)" "all_sent P R (p_subs s)"
    and old: "\<And>u d. map_get (p_states s) u = Some d \<Longrightarrow> P d" "\<And>u p. map_get (p_powers s) u = Some p \<Longrightarrow> R p"
    and new: "\<And>u d. map_get (p_states s') u = Some d \<Longrightarrow> P d" "\<And>u p. map_get (p_powers s') u = Some p \<Longrightarrow> R p"
  shows "all_sent P R (p_subs s')"
  using assms(1)
proof (cases rule: poller_step.cases)
  case stream
  have "P d" if "d \<in> snd ` set (p_states s)" for d
    using that old(1) poller_invD(1) [OF assms(2)] by (auto simp: map_ok_def)
  moreover have "R p" if "p \<in> snd ` set (p_powers s)" for p
    using that old(2) assms(3) by (auto simp: map_ok_def)
  ultimately show ?thesis unfolding stream by (rule all_sent_stream [OF assms(4)])
next
  case (settle uuid task outcome t rnd)
  then show ?thesis
    using all_sent_effect [OF assms(4) poll_settle_effect [OF poller_invD(2,1) [OF assms(2)]], of uuid task] new(1) by blast
next
  case (tel_settle uuid tt tel_outcome t db_ok)
  then show ?thesis using all_sent_telemetry [OF assms(4)] new(2) by blast
qed (use assms(4) in \<open>simp_all add: all_sent_subscribers all_sent_heartbeat all_sent_tick\<close>)

lemma step_powers_ok:
  assumes "poller_step lc tel_ms s s'" "map_ok (p_powers s)"
  shows "map_ok (p_powers s')"
proof -
  have "map_ok (p_powers (telemetry_settle ms u oc t ok s))" for ms u oc t ok
    using assms(2) by (auto simp: telemetry_settle_def telemetry_success_def telemetry_failure_def Let_def split: option.split telemetry_outcome.split)
  with assms(1) show ?thesis by (cases rule: poller_step.cases) (use assms(2) in simp_all)
qed

lemma reach_typed:
  assumes "collation lc" "poller_reach lc tel_ms s"
  shows "states_typed lc (p_states s) \<and> powers_typed (p_powers s) \<and> map_ok (p_powers s) \<and> all_sent (typed_state lc) typed_power (p_subs s)"
  using assms(2)
proof (induction rule: poller_reach.induct)
  case init
  show ?case by (simp add: states_typed_def powers_typed_def all_sent_def poller_init_def)
next
  case (step s s')
  have typed: "states_typed lc (p_states s')" "powers_typed (p_powers s')" "map_ok (p_powers s')"
    using step_states_typed [OF assms(1) step.hyps(2)] step_powers_typed [OF step.hyps(2)] step_powers_ok [OF step.hyps(2)] step.IH by blast+
  moreover from typed have "all_sent (typed_state lc) typed_power (p_subs s')"
    using step_all_sent [OF step.hyps(2) reach_inv [OF step.hyps(1)]] step.IH by (simp add: states_typed_def powers_typed_def)
  ultimately show ?case by blast
qed

section \<open>The client reads what the service wrote\<close>

definition web_light_of :: "light_state \<Rightarrow> web_light" where
  "web_light_of l = \<lparr>wl_channel = ls_channel l, wl_onoff = ls_onoff l, wl_luminance = ls_luminance l,
     wl_temperature = ls_temperature l, wl_rgb = map_option of_int (ls_rgb l)\<rparr>"

text \<open>A state under the name and with the members the client knows.\<close>

definition web_state_of :: "device_state \<Rightarrow> web_state" where
  "web_state_of d = \<lparr>ws_uuid = ds_uuid d, ws_host = ds_host d,
     ws_kind = Some (case ds_kind d of KToggleX \<Rightarrow> ''togglex'' | KLight \<Rightarrow> ''light'' | KMixed \<Rightarrow> ''mixed''),
     ws_channel = ds_channel d, ws_onoff = ds_onoff d, ws_channels = ds_channels d,
     ws_lights = map web_light_of (ds_lights d), ws_light = map_option web_light_of (ds_light d),
     ws_timerx = ds_timerx d, ws_triggerx = ds_triggerx d, ws_updated_at = of_int (ds_updated_at d),
     ws_stale = ds_stale d, ws_source = Some (case ds_source d of RPoller \<Rightarrow> ''poller'' | RManual \<Rightarrow> ''manual''),
     ws_error = ds_error d\<rparr>"

text \<open>What the client needs beyond the types: a name without blanks around it and a positive time.\<close>

definition readable :: "device_state \<Rightarrow> bool" where
  "readable d \<longleftrightarrow> ds_uuid d \<noteq> [] \<and> trim (ds_uuid d) = ds_uuid d \<and> 0 < ds_updated_at d"

lemma channel_num_int [simp]: "channel_num (js_int i) = (if i < 0 then None else Some i)"
  by (simp add: channel_num_def)

lemma onoff_num: "n \<le> 1 \<Longrightarrow> onoff_of (JNum (Fin (of_nat n))) = n"
  by (cases "n = 0") (auto simp: onoff_of_def)

lemma parse_channel_json: "typed_toggle t \<Longrightarrow> parse_channel (json_of_toggle t) = Some t"
  by (simp add: typed_toggle_def parse_channel_def json_of_toggle_def onoff_num)

lemma parse_light_json: "typed_light l \<Longrightarrow> parse_light (json_of_light l) = Some (web_light_of l)"
  by (cases "ls_luminance l"; cases "ls_temperature l"; cases "ls_rgb l")
    (simp_all add: typed_light_def parse_light_def json_of_light_def number_member_def opt_field_def js_rat_def web_light_of_def onoff_num)

lemma parse_digest_json: "typed_digest d \<Longrightarrow> parse_digest_entry (json_of_digest d) = Some d"
  by (auto simp: typed_digest_def parse_digest_entry_def json_of_digest_def string_or_empty_def nn_def number_member_def)

lemma map_filter_json:
  "list_all P xs \<Longrightarrow> (\<And>x. P x \<Longrightarrow> f (g x) = Some (h x)) \<Longrightarrow> List.map_filter f (map g xs) = map h xs"
  by (induction xs) (auto simp: List.map_filter_simps)

lemma parse_channels_json:
  "list_all typed_toggle ts \<Longrightarrow> sorted (map ts_channel ts) \<Longrightarrow> parse_channels (JArr (map json_of_toggle ts)) = ts"
  using map_filter_json [of typed_toggle ts parse_channel json_of_toggle "\<lambda>t. t"]
  by (simp add: parse_channels_def parse_channel_json js_sort_sorted by_channel_def sorted_map)

lemma parse_lights_json:
  "list_all typed_light ls \<Longrightarrow> sorted (map ls_channel ls) \<Longrightarrow> parse_lights (JArr (map json_of_light ls)) = map web_light_of ls"
  using map_filter_json [of typed_light ls parse_light json_of_light web_light_of]
  by (simp add: parse_lights_def parse_light_json js_sort_sorted by_channel_def sorted_map sorted_wrt_map web_light_of_def)

lemma parse_digests_json:
  "list_all typed_digest ds \<Longrightarrow> sorted_wrt (\<lambda>a b. digest_cmp lc a b \<le> 0) ds \<Longrightarrow>
     parse_schedule_digest lc (JArr (map json_of_digest ds)) = ds"
  using map_filter_json [of typed_digest ds parse_digest_entry json_of_digest "\<lambda>d. d"]
  by (simp add: parse_schedule_digest_def parse_digest_json js_sort_sorted)

lemma parse_state_json:
  assumes "typed_state lc d" "readable d"
  shows "parse_stream_state lc (json_of_device_state d) = Some (web_state_of d)"
proof -
  have parts: "field (json_of_device_state d) ''uuid'' = JStr (ds_uuid d)" "field (json_of_device_state d) ''host'' = JStr (ds_host d)"
    "field (json_of_device_state d) ''kind'' = json_of_kind (ds_kind d)" "field (json_of_device_state d) ''channel'' = js_int (ds_channel d)"
    "field (json_of_device_state d) ''onoff'' = JNum (Fin (of_nat (ds_onoff d)))"
    "field (json_of_device_state d) ''channels'' = JArr (map json_of_toggle (ds_channels d))"
    "field (json_of_device_state d) ''lights'' = JArr (map json_of_light (ds_lights d))"
    "field (json_of_device_state d) ''light'' = opt_json json_of_light (ds_light d)"
    "field (json_of_device_state d) ''timerxDigest'' = JArr (map json_of_digest (ds_timerx d))"
    "field (json_of_device_state d) ''triggerxDigest'' = JArr (map json_of_digest (ds_triggerx d))"
    "field (json_of_device_state d) ''updatedAt'' = js_int (ds_updated_at d)"
    "field (json_of_device_state d) ''source'' = json_of_reason (ds_source d)"
    "field (json_of_device_state d) ''stale'' = JBool (ds_stale d)"
    "field (json_of_device_state d) ''error'' = (case ds_error d of None \<Rightarrow> JUndef | Some m \<Rightarrow> JStr m)"
    "is_object (json_of_device_state d)"
    by (simp_all add: json_of_device_state_def map_add_def split: option.split)
  have light: "parse_light (opt_json json_of_light (ds_light d)) = map_option web_light_of (ds_light d)"
    using assms(1) by (cases "ds_light d") (simp_all add: opt_json_def typed_state_def parse_light_json, simp add: parse_light_def)
  show ?thesis
    unfolding parse_stream_state_def Let_def parts(1-14) light
    using assms parse_channels_json parse_lights_json parse_digests_json
    by (auto simp: typed_state_def readable_def string_or_empty_def nn_def positive_time_def onoff_num web_state_of_def
        json_of_kind_def json_of_reason_def parts(15) split: option.split)
qed

lemma parse_snapshot_json:
  assumes "list_all (\<lambda>d. typed_state lc d \<and> readable d) ds"
  shows "parse_snapshot_states lc (JObj [(''states'', JArr (map json_of_device_state ds))]) = map web_state_of ds"
  using map_filter_json [OF assms, of "parse_stream_state lc" json_of_device_state web_state_of] parse_state_json
  by (simp add: parse_snapshot_states_def)

text \<open>The same for readings.\<close>

definition web_power_of :: "device_power \<Rightarrow> web_power" where
  "web_power_of p = \<lparr>wp_uuid = dp_uuid p, wp_host = dp_host p, wp_channel = dp_channel p, wp_voltage_v = dp_voltage_v p,
     wp_current_a = dp_current_a p, wp_power_w = dp_power_w p, wp_updated_at = of_int (dp_updated_at p),
     wp_stale = dp_stale p, wp_error = dp_error p\<rparr>"

definition readable_power :: "device_power \<Rightarrow> bool" where
  "readable_power p \<longleftrightarrow> dp_uuid p \<noteq> [] \<and> trim (dp_uuid p) = dp_uuid p \<and> 0 < dp_updated_at p"

lemma number_of_optional:
  "finite_num (num_of (case x of None \<Rightarrow> JUndef | Some r \<Rightarrow> js_rat r)) = x"
  by (simp add: js_rat_def split: option.split)

lemma parse_power_json:
  assumes "typed_power p" "readable_power p"
  shows "parse_power (json_of_power p) = Some (web_power_of p)"
proof -
  have parts: "field (json_of_power p) ''uuid'' = JStr (dp_uuid p)" "field (json_of_power p) ''host'' = JStr (dp_host p)"
    "field (json_of_power p) ''channel'' = js_int (dp_channel p)" "field (json_of_power p) ''updatedAt'' = js_int (dp_updated_at p)"
    "field (json_of_power p) ''stale'' = JBool (dp_stale p)"
    "field (json_of_power p) ''error'' = (case dp_error p of None \<Rightarrow> JUndef | Some m \<Rightarrow> JStr m)"
    "field (json_of_power p) ''voltageV'' = (case dp_voltage_v p of None \<Rightarrow> JUndef | Some r \<Rightarrow> js_rat r)"
    "field (json_of_power p) ''currentA'' = (case dp_current_a p of None \<Rightarrow> JUndef | Some r \<Rightarrow> js_rat r)"
    "field (json_of_power p) ''powerW'' = (case dp_power_w p of None \<Rightarrow> JUndef | Some r \<Rightarrow> js_rat r)"
    "is_object (json_of_power p)"
    by (simp_all add: json_of_power_def opt_field_def map_add_def split: option.split)
  show ?thesis
    unfolding parse_power_def Let_def number_member_def parts(1-9) number_of_optional
    using assms by (auto simp: typed_power_def readable_power_def string_or_empty_def nn_def positive_time_def web_power_of_def parts(10) split: option.split)
qed

lemma parse_power_snapshot_json:
  assumes "list_all (\<lambda>p. typed_power p \<and> readable_power p) ps"
  shows "parse_power_snapshot (JObj [(''readings'', JArr (map json_of_power ps))]) = map web_power_of ps"
  using map_filter_json [OF assms, of parse_power json_of_power web_power_of] parse_power_json
  by (simp add: parse_power_snapshot_def)

text \<open>The messages lose nothing as text.\<close>

lemma round_items:
  assumes "\<And>x. json_round (f x) = f x" "\<And>x. f x \<noteq> JUndef"
  shows "json_round (JArr (map f xs)) = JArr (map f xs)"
  using assms by simp

lemma round_parts:
  "json_round (json_of_toggle t) = json_of_toggle t" "json_round (json_of_light l) = json_of_light l" "json_round (json_of_digest g) = json_of_digest g"
  "json_of_toggle t \<noteq> JUndef" "json_of_light l \<noteq> JUndef" "json_of_digest g \<noteq> JUndef"
  by (simp_all add: json_of_toggle_def json_of_light_def json_of_digest_def opt_field_def js_rat_def split: option.split)

lemma round_state: "json_round (json_of_device_state d) = json_of_device_state d" "json_of_device_state d \<noteq> JUndef"
  by (simp_all add: json_of_device_state_def json_of_kind_def json_of_reason_def opt_json_def round_parts round_items split: option.split)

lemma round_power: "json_round (json_of_power p) = json_of_power p" "json_of_power p \<noteq> JUndef"
  by (simp_all add: json_of_power_def opt_field_def js_rat_def split: option.split)

text \<open>A message arrives: the text of its payload is parsed, and the parser of its kind gives the states and
  the readings that it was made of.\<close>

definition arrives :: "(string \<Rightarrow> string \<Rightarrow> int) \<Rightarrow> (int \<Rightarrow> string) \<Rightarrow> event \<Rightarrow> bool" where
  "arrives lc at_str ev \<longleftrightarrow> (case json_parse (json_stringify 0 (snd (event_message at_str ev))) of
     None \<Rightarrow> False
   | Some v \<Rightarrow> (case ev of
       EvSnapshot ds \<Rightarrow> parse_snapshot_states lc v = map web_state_of ds
     | EvState d \<Rightarrow> parse_stream_state lc v = Some (web_state_of d)
     | EvStale d \<Rightarrow> parse_stream_state lc v = Some (web_state_of d)
     | EvPowerSnapshot ps \<Rightarrow> parse_power_snapshot v = map web_power_of ps
     | EvPower p \<Rightarrow> parse_power v = Some (web_power_of p)
     | EvPowerStale p \<Rightarrow> parse_power v = Some (web_power_of p)
     | _ \<Rightarrow> True))"

definition legible :: "(int \<Rightarrow> string) \<Rightarrow> event \<Rightarrow> bool" where
  "legible at_str ev \<longleftrightarrow> carries_only readable readable_power ev \<and> storable (snd (event_message at_str ev))"

lemma message_arrives:
  assumes typed: "carries_only (typed_state lc) typed_power ev" and "legible at_str ev"
  shows "arrives lc at_str ev"
proof -
  have there: "storable (snd (event_message at_str ev))" "snd (event_message at_str ev) \<noteq> JUndef"
    using assms(2) by (cases ev; simp add: legible_def round_state round_power json_of_stats_def)+
  have both: "list_all (\<lambda>d. typed_state lc d \<and> readable d) (event_states ev)" "list_all (\<lambda>p. typed_power p \<and> readable_power p) (event_powers ev)"
    using assms by (auto simp: carries_only_def legible_def list_all_iff)
  have "json_parse (json_stringify 0 (snd (event_message at_str ev))) = Some (json_round (snd (event_message at_str ev)))"
    using there by (intro stringify_parse(1))
  moreover have "event_states ev \<noteq> [] \<or> event_powers ev \<noteq> [] \<Longrightarrow> json_round (snd (event_message at_str ev)) = snd (event_message at_str ev)"
    by (cases ev) (simp_all add: round_state round_power comp_def)
  ultimately show ?thesis
    using both by (cases ev) (auto simp: arrives_def parse_state_json parse_power_json parse_snapshot_json parse_power_snapshot_json
      round_state round_power comp_def)
qed

text \<open>C10. What the service holds and writes is read back by the web client: in every reachable state, every
  stored state and every state that was ever written to a client has valid channels and switch values,
  its channels and lights sorted by channel, a valid main light and schedule digests with trimmed,
  non-empty ids and non-negative counts, sorted by channel and id, and every reading a valid
  channel, whatever the devices answered. The text of every message with them, of a snapshot as of a
  change, is parsed, and the parser of the client for messages of its kind gives the same states and
  the same readings: uuid, host, channel, lights, digests, figures, time and marks; provided that the
  names of the devices have no blanks around them, the clock is after 1970 and the numbers have a
  short decimal text.\<close>

theorem service_states_typed:
  assumes "collation lc" "poller_reach lc tel_ms s"
  shows "(\<forall>u d. map_get (p_states s) u = Some d \<longrightarrow> typed_state lc d \<and> (legible at_str (EvState d) \<longrightarrow> arrives lc at_str (EvState d))) \<and>
    (\<forall>u p. map_get (p_powers s) u = Some p \<longrightarrow> typed_power p \<and> (legible at_str (EvPower p) \<longrightarrow> arrives lc at_str (EvPower p))) \<and>
    (\<forall>i sub. map_get (p_subs s) i = Some sub \<longrightarrow> (\<forall>ev\<in>set (sb_events sub).
       list_all (typed_state lc) (event_states ev) \<and> list_all typed_power (event_powers ev) \<and>
       (legible at_str ev \<longrightarrow> arrives lc at_str ev)))"
proof -
  have typed: "states_typed lc (p_states s)" "powers_typed (p_powers s)" "all_sent (typed_state lc) typed_power (p_subs s)"
    using reach_typed [OF assms] by blast+
  then show ?thesis
    by (auto simp: states_typed_def powers_typed_def all_sent_def list_all_iff carries_only_def intro!: message_arrives)
qed

lemma service_states_typed_witness:
  "\<exists>sub d v. map_get (p_subs sample_run) 1 = Some sub \<and> EvState d \<in> set (sb_events sub) \<and>
     json_parse (json_stringify 0 (json_of_device_state d)) = Some v \<and> parse_stream_state codeunit_compare v = Some (web_state_of d) \<and>
     ds_host d = ''10.0.0.2''"
proof -
  obtain sub where sub: "map_get (p_subs sample_run) 1 = Some sub" using sample_run_values(1) by auto
  let ?ok = "\<lambda>ev. case ev of EvState d \<Rightarrow> ds_host d = ''10.0.0.2'' \<and> readable d \<and> storable (json_of_device_state d) | _ \<Rightarrow> False"
  have "map_option (\<lambda>sub. list_ex ?ok (sb_events sub)) (map_get (p_subs sample_run) 1) = Some True" by code_simp
  then have "list_ex ?ok (sb_events sub)" by (simp only: sub option.map option.inject simp_thms)
  then obtain ev where ev: "ev \<in> set (sb_events sub)" "?ok ev" unfolding list_ex_iff by blast
  then obtain d where d: "EvState d \<in> set (sb_events sub)" "ds_host d = ''10.0.0.2''" "readable d" "storable (json_of_device_state d)"
    by (cases ev rule: event.exhaust) simp_all
  have "legible (\<lambda>_. []) (EvState d)" using d(3,4) by (simp add: legible_def carries_only_def)
  with service_states_typed [OF codeunit.collation_axioms sample_run_reach, of "\<lambda>_. []"] sub d(1)
  have "arrives codeunit_compare (\<lambda>_. []) (EvState d)" by blast
  then show ?thesis using sub d(1,2) by (auto simp: arrives_def split: option.splits)
qed

end
