(* ===== verification/WebDevices.thy ===== *)
theory WebDevices
  imports WebParse
begin

text \<open>
  The state machine of the web client's device list, \<open>apps/web/src/state/devicesMachine.ts\<close>: its
  context, the parallel regions \<open>inventory\<close>, \<open>operations\<close> and \<open>monitor\<close>, the transitions on events
  and on the outcomes of the invoked requests, and the actor that keeps the event stream open.

  \<open>web_send\<close> is the reaction to an event, \<open>web_settle\<close> to the outcome of an invoked request, which
  only a machine still in the invoking state receives. Both return what the machine asks for: the
  HTTP requests it sends and what it stores locally. Absent and \<open>null\<close> lights are not told apart;
  no reader of the source tells them apart.
\<close>

section \<open>The context\<close>

record web_device =
  wd_host :: string
  wd_kind :: "string option"
  wd_channel :: int
  wd_onoff :: nat
  wd_channels :: "toggle_state list option"
  wd_lights :: "web_light list option"
  wd_light :: "web_light option"
  wd_timerx :: "digest_entry list option"
  wd_triggerx :: "digest_entry list option"
  wd_updated_at :: rat
  wd_stale :: "bool option"
  wd_source :: "string option"
  wd_error :: "string option"

record web_context =
  wc_devices :: jsval
  wc_hosts :: jsval
  wc_cidr :: string
  wc_states :: "(string, web_device) jsmap"
  wc_power :: "(string, web_power) jsmap"
  wc_dump :: "(string \<times> jsval \<times> jsval) option"
  wc_active :: "string option"
  wc_rollback :: "(string \<times> web_device option) option"

definition web_context_init :: "string \<Rightarrow> web_context" where
  "web_context_init cidr = \<lparr>wc_devices = JArr [], wc_hosts = JObj [], wc_cidr = cidr, wc_states = [], wc_power = [],
     wc_dump = None, wc_active = None, wc_rollback = None\<rparr>"

section \<open>Actions on the context\<close>

text \<open>\<open>state.error ? { error: state.error } : {}\<close>\<close>

definition nonempty :: "string option \<Rightarrow> string option" where
  "nonempty s = (if s = Some [] then None else s)"

definition device_of_stream :: "web_state \<Rightarrow> web_device" where
  "device_of_stream s = \<lparr>wd_host = ws_host s, wd_kind = ws_kind s, wd_channel = ws_channel s, wd_onoff = ws_onoff s,
     wd_channels = Some (ws_channels s), wd_lights = Some (ws_lights s), wd_light = ws_light s,
     wd_timerx = Some (ws_timerx s), wd_triggerx = Some (ws_triggerx s), wd_updated_at = ws_updated_at s,
     wd_stale = Some (ws_stale s), wd_source = ws_source s, wd_error = nonempty (ws_error s)\<rparr>"

definition set_stream_device_state :: "web_state \<Rightarrow> web_context \<Rightarrow> web_context" where
  "set_stream_device_state s c = c\<lparr>wc_states := map_set (ws_uuid s) (device_of_stream s) (wc_states c)\<rparr>"

definition merge_snapshot :: "web_state list \<Rightarrow> web_context \<Rightarrow> web_context" where
  "merge_snapshot ss c = c\<lparr>wc_states := fold (\<lambda>s. map_set (ws_uuid s) (device_of_stream s)) ss (wc_states c)\<rparr>"

definition merge_power_snapshot :: "web_power list \<Rightarrow> web_context \<Rightarrow> web_context" where
  "merge_power_snapshot ps c = c\<lparr>wc_power := fold (\<lambda>p. map_set (wp_uuid p) p) ps (wc_power c)\<rparr>"

definition set_power_reading :: "web_power \<Rightarrow> web_context \<Rightarrow> web_context" where
  "set_power_reading p c = c\<lparr>wc_power := map_set (wp_uuid p) p (wc_power c)\<rparr>"

text \<open>\<open>context.deviceStates[uuid] || { host: '', channel: 0, onoff: 0, updatedAt: 0 }\<close>\<close>

definition blank_device :: web_device where
  "blank_device = \<lparr>wd_host = [], wd_kind = None, wd_channel = 0, wd_onoff = 0, wd_channels = None, wd_lights = None,
     wd_light = None, wd_timerx = None, wd_triggerx = None, wd_updated_at = 0, wd_stale = None, wd_source = None, wd_error = None\<rparr>"

definition failed_device :: "string \<Rightarrow> web_device option \<Rightarrow> web_device" where
  "failed_device message d = (or_else d blank_device)\<lparr>wd_stale := Some True, wd_error := Some message\<rparr>"

definition set_device_error :: "string \<Rightarrow> string \<Rightarrow> web_context \<Rightarrow> web_context" where
  "set_device_error uuid message c =
     c\<lparr>wc_states := map_set uuid (failed_device message (map_get (wc_states c) uuid)) (wc_states c)\<rparr>"

definition toggled_channels :: "nat \<Rightarrow> toggle_state list \<Rightarrow> toggle_state list" where
  "toggled_channels onoff cs =
     (if list_ex (\<lambda>c. ts_channel c = 0) cs
      then map (\<lambda>c. if ts_channel c = 0 then c\<lparr>ts_onoff := onoff\<rparr> else c) cs
      else \<lparr>ts_channel = 0, ts_onoff = onoff\<rparr> # cs)"

definition light0_of :: "web_light option \<Rightarrow> web_light list \<Rightarrow> web_light option" where
  "light0_of light ls = first_some light (find (\<lambda>l. wl_channel l = 0) ls)"

definition toggled_lights :: "nat \<Rightarrow> nat \<Rightarrow> web_light option \<Rightarrow> web_light list \<Rightarrow> web_light list option" where
  "toggled_lights onoff before light ls =
     (let light0 = light0_of light ls in
      if light0 = None \<and> ls = [] then None
      else Some (if list_ex (\<lambda>l. wl_channel l = 0) ls
                 then map (\<lambda>l. if wl_channel l = 0 then l\<lparr>wl_onoff := onoff\<rparr> else l) ls
                 else (or_else light0 \<lparr>wl_channel = 0, wl_onoff = before, wl_luminance = None, wl_temperature = None, wl_rgb = None\<rparr>)
                        \<lparr>wl_onoff := onoff\<rparr> # ls))"

text \<open>The state shown until the service reports the real one.\<close>

definition optimistic_state :: "rat \<Rightarrow> nat \<Rightarrow> string \<Rightarrow> web_device option \<Rightarrow> web_device" where
  "optimistic_state now onoff known_host previous =
     (let p = or_else previous blank_device;
          lights = toggled_lights onoff (wd_onoff p) (wd_light p) (or_else (wd_lights p) [])
      in \<lparr>wd_host = (if wd_host p \<noteq> [] then wd_host p else known_host), wd_kind = wd_kind p, wd_channel = wd_channel p, wd_onoff = onoff,
          wd_channels = Some (toggled_channels onoff (or_else (wd_channels p) [])), wd_lights = lights,
          wd_light = (case lights of None \<Rightarrow> wd_light p | Some ls \<Rightarrow> find (\<lambda>l. wl_channel l = 0) ls),
          wd_timerx = wd_timerx p, wd_triggerx = wd_triggerx p, wd_updated_at = now, wd_stale = Some False,
          wd_source = Some ''optimistic'', wd_error = None\<rparr>)"

definition prepare_optimistic_toggle :: "rat \<Rightarrow> string \<Rightarrow> nat \<Rightarrow> web_context \<Rightarrow> web_context" where
  "prepare_optimistic_toggle now uuid onoff c =
     (let previous = map_get (wc_states c) uuid;
          known_host = or_else (truthy_str (path (wc_hosts c) [uuid, ''host''])) []
      in c\<lparr>wc_rollback := Some (uuid, previous),
           wc_states := map_set uuid (optimistic_state now onoff known_host previous) (wc_states c)\<rparr>)"

definition rollback_optimistic_toggle :: "web_context \<Rightarrow> web_context" where
  "rollback_optimistic_toggle c = (case wc_rollback c of
     None \<Rightarrow> c
   | Some (uuid, Some d) \<Rightarrow> c\<lparr>wc_states := map_set uuid d (wc_states c), wc_rollback := None\<rparr>
   | Some (uuid, None) \<Rightarrow> c\<lparr>wc_states := map_del uuid (wc_states c), wc_rollback := None\<rparr>)"

definition set_cidr_if_empty :: "string option \<Rightarrow> web_context \<Rightarrow> web_context" where
  "set_cidr_if_empty suggestion c = (if trim (wc_cidr c) \<noteq> [] then c else c\<lparr>wc_cidr := or_else suggestion []\<rparr>)"

section \<open>Requests and outcomes\<close>

text \<open>An HTTP request to the own server, or a value put into the local storage.\<close>

datatype web_effect = Call string string jsval | StoreCidr string

definition cidr_member :: "string \<Rightarrow> (string \<times> jsval) list" where
  "cidr_member cidr = (if trim cidr = [] then [] else [(''cidr'', JStr (trim cidr))])"

definition request_device_refresh :: "string \<Rightarrow> web_effect list" where
  "request_device_refresh uuid = (if uuid = [] then []
     else [Call ''POST'' (api_path [''device'', ''states'']) (JObj [(''uuids'', JArr [JStr uuid]), (''reason'', JStr ''manual'')])])"

definition persist_cidr_remote :: "string \<Rightarrow> web_effect list" where
  "persist_cidr_remote cidr = (if trim cidr = [] then []
     else [Call ''POST'' (api_path [''network'', ''cidr'']) (JObj [(''cidr'', JStr (trim cidr))])])"

datatype inventory = InventoryIdle | RefreshingCloud | SuggestingCidr | DiscoveringHosts
datatype operation = OperationIdle | Resolving string | Toggling string nat | Diagnosing string
datatype monitor = Connecting | Live | Degraded

record web_machine =
  wm_context :: web_context
  wm_inventory :: inventory
  wm_operation :: operation
  wm_monitor :: monitor

definition web_init :: "string \<Rightarrow> web_machine" where
  "web_init cidr = \<lparr>wm_context = web_context_init cidr, wm_inventory = InventoryIdle, wm_operation = OperationIdle, wm_monitor = Connecting\<rparr>"

text \<open>The first requests of the invoked actors.\<close>

definition discover_calls :: "web_context \<Rightarrow> web_effect list" where
  "discover_calls c = [Call ''POST'' (api_path [''hosts'', ''discover'']) (JObj (cidr_member (wc_cidr c)))]"

definition resolve_calls :: "string \<Rightarrow> string \<Rightarrow> web_context \<Rightarrow> web_effect list" where
  "resolve_calls uuid mac c = [Call ''POST'' (api_path [''hosts'', ''resolve''])
     (JObj ([(''uuid'', JStr uuid), (''mac'', JStr mac)] @ cidr_member (wc_cidr c)))]"

definition toggle_calls :: "string \<Rightarrow> nat \<Rightarrow> web_effect list" where
  "toggle_calls uuid onoff = [Call ''POST'' (api_path [''device'', ''toggle''])
     (JObj [(''uuid'', JStr uuid), (''channel'', js_int 0), (''onoff'', js_int (int onoff))])]"

definition refresh_calls :: "web_effect list" where
  "refresh_calls = [Call ''POST'' (api_path [''cloud'', ''devices'', ''refresh'']) (JObj []), Call ''GET'' (api_path [''hosts'']) JUndef]"

definition diagnostics_calls :: "string \<Rightarrow> web_effect list" where
  "diagnostics_calls uuid = [Call ''POST'' (api_path [''device'', ''system-all'']) (JObj [(''uuid'', JStr uuid)])]"

text \<open>What an invoked actor comes to, from the replies to its requests.\<close>

datatype outcome =
    Refreshed jsval jsval
  | Suggested "string option"
  | Discovered jsval
  | Resolved jsval
  | Toggled
  | Diagnosed jsval jsval
  | Failed string

fun client_message :: "client_error \<Rightarrow> string" where
  "client_message (ApiError m _ _ _) = m"
| "client_message (TypeErr m) = m"

text \<open>\<open>data.key\<close>, which throws when a reply has no data.\<close>

definition read_member :: "jsval \<Rightarrow> string \<Rightarrow> client_error + jsval" where
  "read_member d key = (if d = JUndef then Inl (TypeErr (''Cannot read properties of undefined (reading '' @ [CHR 0x27] @ key @ [CHR 0x27] @ '')''))
     else if d = JNull then Inl (TypeErr (''Cannot read properties of null (reading '' @ [CHR 0x27] @ key @ [CHR 0x27] @ '')''))
     else Inr (field d key))"

text \<open>The two requests are sent at once; without an answer to the second there are no hosts.\<close>

definition refresh_outcome :: "client_error + jsval \<Rightarrow> client_error + jsval \<Rightarrow> outcome" where
  "refresh_outcome devices hosts = (case devices of
     Inl e \<Rightarrow> Failed (client_message e)
   | Inr d \<Rightarrow> (case hosts of Inl _ \<Rightarrow> Refreshed (field d ''list'') (JObj [])
                | Inr h \<Rightarrow> (case read_member h ''hosts'' of
                    Inl e \<Rightarrow> Failed (client_message e) | Inr hs \<Rightarrow> Refreshed (field d ''list'') hs)))"

definition suggest_outcome :: "client_error + jsval \<Rightarrow> outcome" where
  "suggest_outcome r = (case r of Inl e \<Rightarrow> Failed (client_message e) | Inr d \<Rightarrow> Suggested (string_value (field d ''default'')))"

text \<open>The search for hosts, then the list of all hosts; the second request is sent after the first.\<close>

definition discover_outcome :: "client_error + jsval \<Rightarrow> client_error + jsval \<Rightarrow> outcome" where
  "discover_outcome res hosts = (case (res, hosts) of
     (Inl e, _) \<Rightarrow> Failed (client_message e) | (_, Inl e) \<Rightarrow> Failed (client_message e)
   | (_, Inr h) \<Rightarrow> (case read_member h ''hosts'' of Inl e \<Rightarrow> Failed (client_message e) | Inr hs \<Rightarrow> Discovered hs))"

definition resolve_outcome :: "client_error + jsval \<Rightarrow> client_error + jsval \<Rightarrow> outcome" where
  "resolve_outcome res hosts = (case (res, hosts) of
     (Inl e, _) \<Rightarrow> Failed (client_message e) | (_, Inl e) \<Rightarrow> Failed (client_message e)
   | (_, Inr h) \<Rightarrow> (case read_member h ''hosts'' of Inl e \<Rightarrow> Failed (client_message e) | Inr hs \<Rightarrow> Resolved hs))"

definition toggle_outcome :: "client_error + jsval \<Rightarrow> outcome" where
  "toggle_outcome r = (case r of Inl e \<Rightarrow> Failed (client_message e) | Inr _ \<Rightarrow> Toggled)"

definition diagnostics_outcome :: "client_error + jsval \<Rightarrow> outcome" where
  "diagnostics_outcome r = (case r of Inl e \<Rightarrow> Failed (client_message e)
     | Inr d \<Rightarrow> (case read_member d ''host'' of Inl e \<Rightarrow> Failed (client_message e) | Inr host \<Rightarrow> Diagnosed host (field d ''data'')))"

section \<open>Events\<close>

datatype web_event =
    Refresh
  | SetCidr string
  | Scan
  | Resolve string string
  | Toggle string nat
  | RefreshState string
  | Diagnostics string
  | StreamConnected
  | StreamDisconnected
  | StateReceived web_state
  | DeviceStale web_state
  | Snapshot "web_state list"
  | PowerSnapshot "web_power list"
  | PowerReceived web_power
  | RequestRefresh string
  | CloseDump

definition has_host :: "web_context \<Rightarrow> string \<Rightarrow> bool" where
  "has_host c uuid \<longleftrightarrow> truthy (path (wc_hosts c) [uuid, ''host''])"

text \<open>The region \<open>inventory\<close>.\<close>

fun inventory_event :: "web_event \<Rightarrow> web_machine \<Rightarrow> web_machine \<times> web_effect list" where
  "inventory_event Refresh m = (if wm_inventory m = InventoryIdle then (m\<lparr>wm_inventory := RefreshingCloud\<rparr>, refresh_calls) else (m, []))"
| "inventory_event Scan m = (if wm_inventory m \<noteq> InventoryIdle then (m, [])
     else if trim (wc_cidr (wm_context m)) = []
          then (m\<lparr>wm_inventory := SuggestingCidr\<rparr>, [Call ''GET'' (api_path [''lan'', ''cidr-suggest'']) JUndef])
          else (m\<lparr>wm_inventory := DiscoveringHosts\<rparr>, discover_calls (wm_context m)))"
| "inventory_event _ m = (m, [])"

text \<open>The region \<open>operations\<close>; the time is that of the optimistic state.\<close>

fun operation_event :: "rat \<Rightarrow> web_event \<Rightarrow> web_machine \<Rightarrow> web_machine \<times> web_effect list" where
  "operation_event now (Resolve uuid mac) m = (if wm_operation m \<noteq> OperationIdle then (m, [])
     else (m\<lparr>wm_operation := Resolving uuid, wm_context := (wm_context m)\<lparr>wc_active := Some uuid\<rparr>\<rparr>, resolve_calls uuid mac (wm_context m)))"
| "operation_event now (Toggle uuid onoff) m = (if wm_operation m \<noteq> OperationIdle \<or> \<not> has_host (wm_context m) uuid then (m, [])
     else (m\<lparr>wm_operation := Toggling uuid onoff,
             wm_context := prepare_optimistic_toggle now uuid onoff ((wm_context m)\<lparr>wc_active := Some uuid\<rparr>)\<rparr>, toggle_calls uuid onoff))"
| "operation_event now (RefreshState uuid) m = (m, if wm_operation m = OperationIdle then request_device_refresh uuid else [])"
| "operation_event now (Diagnostics uuid) m = (if wm_operation m \<noteq> OperationIdle \<or> \<not> has_host (wm_context m) uuid then (m, [])
     else (m\<lparr>wm_operation := Diagnosing uuid, wm_context := (wm_context m)\<lparr>wc_active := Some uuid\<rparr>\<rparr>, diagnostics_calls uuid))"
| "operation_event now _ m = (m, [])"

text \<open>The region \<open>monitor\<close>.\<close>

fun monitor_event :: "web_event \<Rightarrow> web_machine \<Rightarrow> web_machine" where
  "monitor_event StreamConnected m = m\<lparr>wm_monitor := Live\<rparr>"
| "monitor_event StreamDisconnected m = m\<lparr>wm_monitor := Degraded\<rparr>"
| "monitor_event _ m = m"

text \<open>The transitions of the machine itself, taken in every state.\<close>

fun root_event :: "web_event \<Rightarrow> web_context \<Rightarrow> web_context \<times> web_effect list" where
  "root_event (SetCidr cidr) c = (c\<lparr>wc_cidr := cidr\<rparr>, StoreCidr cidr # persist_cidr_remote cidr)"
| "root_event (RequestRefresh uuid) c = (c, request_device_refresh uuid)"
| "root_event (Snapshot ss) c = (merge_snapshot ss c, [])"
| "root_event (PowerSnapshot ps) c = (merge_power_snapshot ps c, [])"
| "root_event (StateReceived s) c = (set_stream_device_state s c, [])"
| "root_event (DeviceStale s) c = (set_stream_device_state s c, [])"
| "root_event (PowerReceived p) c = (set_power_reading p c, [])"
| "root_event CloseDump c = (c\<lparr>wc_dump := None\<rparr>, [])"
| "root_event _ c = (c, [])"

definition web_send :: "rat \<Rightarrow> web_event \<Rightarrow> web_machine \<Rightarrow> web_machine \<times> web_effect list" where
  "web_send now ev m =
     (let (m1, e1) = inventory_event ev m;
          (m2, e2) = operation_event now ev m1;
          m3 = monitor_event ev m2;
          (c, e3) = root_event ev (wm_context m3)
      in (m3\<lparr>wm_context := c\<rparr>, e1 @ e2 @ e3))"

section \<open>Outcomes\<close>

text \<open>The invocation of the region \<open>inventory\<close> ends.\<close>

definition inventory_settle :: "outcome \<Rightarrow> web_machine \<Rightarrow> web_machine \<times> web_effect list" where
  "inventory_settle oc m = (case wm_inventory m of
     InventoryIdle \<Rightarrow> (m, [])
   | RefreshingCloud \<Rightarrow> (m\<lparr>wm_inventory := InventoryIdle,
       wm_context := (case oc of Refreshed ds hosts \<Rightarrow> (wm_context m)\<lparr>wc_devices := ds, wc_hosts := hosts\<rparr> | _ \<Rightarrow> wm_context m)\<rparr>, [])
   | SuggestingCidr \<Rightarrow>
       (let c = (case oc of Suggested d \<Rightarrow> set_cidr_if_empty d (wm_context m) | _ \<Rightarrow> wm_context m)
        in (m\<lparr>wm_inventory := DiscoveringHosts, wm_context := c\<rparr>, discover_calls c))
   | DiscoveringHosts \<Rightarrow> (m\<lparr>wm_inventory := InventoryIdle,
       wm_context := (case oc of Discovered hosts \<Rightarrow> (wm_context m)\<lparr>wc_hosts := hosts\<rparr> | _ \<Rightarrow> wm_context m)\<rparr>, []))"

definition failure_message :: "outcome \<Rightarrow> string" where
  "failure_message oc = (case oc of Failed m \<Rightarrow> m | _ \<Rightarrow> [])"

text \<open>The invocation of the region \<open>operations\<close> ends.\<close>

definition operation_settle :: "outcome \<Rightarrow> web_machine \<Rightarrow> web_machine \<times> web_effect list" where
  "operation_settle oc m = (let c = wm_context m in
     case wm_operation m of
       OperationIdle \<Rightarrow> (m, [])
     | Resolving uuid \<Rightarrow>
         (m\<lparr>wm_operation := OperationIdle,
            wm_context := (case oc of Resolved hosts \<Rightarrow> c\<lparr>wc_hosts := hosts\<rparr> | _ \<Rightarrow> c)\<lparr>wc_active := None\<rparr>\<rparr>, [])
     | Toggling uuid onoff \<Rightarrow>
         (if oc = Toggled
          then (m\<lparr>wm_operation := OperationIdle, wm_context := c\<lparr>wc_rollback := None, wc_active := None\<rparr>\<rparr>, request_device_refresh uuid)
          else (m\<lparr>wm_operation := OperationIdle,
                 wm_context := (set_device_error (or_else (wc_active c) []) (failure_message oc) (rollback_optimistic_toggle c))
                                  \<lparr>wc_rollback := None, wc_active := None\<rparr>\<rparr>, []))
     | Diagnosing uuid \<Rightarrow>
         (m\<lparr>wm_operation := OperationIdle,
            wm_context := (case oc of Diagnosed host data \<Rightarrow> c\<lparr>wc_dump := Some (uuid, host, data)\<rparr> | _ \<Rightarrow> c)\<lparr>wc_active := None\<rparr>\<rparr>, []))"

section \<open>The event stream\<close>

definition reconnect_delays_ms :: "nat list" where
  "reconnect_delays_ms = [1000, 2000, 5000, 10000, 30000]"

record stream_actor =
  sa_retry :: nat
  sa_source :: bool
  sa_timer :: "nat option"
  sa_closed :: bool

definition open_stream :: "stream_actor \<Rightarrow> stream_actor" where
  "open_stream a = (if sa_closed a then a else a\<lparr>sa_source := True\<rparr>)"

definition schedule_reconnect :: "stream_actor \<Rightarrow> stream_actor" where
  "schedule_reconnect a = (if sa_closed a \<or> sa_timer a \<noteq> None then a
     else a\<lparr>sa_timer := Some (reconnect_delays_ms ! min (sa_retry a) (length reconnect_delays_ms - 1)), sa_retry := sa_retry a + 1\<rparr>)"

definition stream_start :: stream_actor where
  "stream_start = open_stream \<lparr>sa_retry = 0, sa_source = False, sa_timer = None, sa_closed = False\<rparr>"

text \<open>The callbacks of the current source, of the timer, and the clean-up.\<close>

definition stream_opened :: "stream_actor \<Rightarrow> stream_actor \<times> web_event" where
  "stream_opened a = (a\<lparr>sa_retry := 0\<rparr>, StreamConnected)"

definition stream_failed :: "stream_actor \<Rightarrow> stream_actor \<times> web_event" where
  "stream_failed a = (schedule_reconnect (a\<lparr>sa_source := False\<rparr>), StreamDisconnected)"

definition timer_fired :: "stream_actor \<Rightarrow> stream_actor" where
  "timer_fired a = open_stream (a\<lparr>sa_timer := None\<rparr>)"

definition stream_stop :: "stream_actor \<Rightarrow> stream_actor" where
  "stream_stop a = a\<lparr>sa_closed := True, sa_timer := None, sa_source := False\<rparr>"

text \<open>A message of the stream as an event of the machine; an unreadable one, and every kind the
  client does not listen to, is dropped.\<close>

definition stream_message :: "(string \<Rightarrow> string \<Rightarrow> int) \<Rightarrow> string \<Rightarrow> jsval \<Rightarrow> web_event option" where
  "stream_message lc name payload =
     (if name = ''snapshot'' then Some (Snapshot (parse_snapshot_states lc payload))
      else if name = ''power_snapshot'' then Some (PowerSnapshot (parse_power_snapshot payload))
      else if name = ''device_state'' then map_option StateReceived (parse_stream_state lc payload)
      else if name = ''device_power'' then map_option PowerReceived (parse_power payload)
      else if name = ''device_stale'' then map_option DeviceStale (parse_stream_state lc payload)
      else None)"

section \<open>Runs\<close>

text \<open>The outcome of the request of an operation is the only step that ends it.\<close>

inductive web_step :: "web_machine \<Rightarrow> web_machine \<Rightarrow> bool" where
  event: "web_step m (fst (web_send now ev m))"
| inventory_done: "web_step m (fst (inventory_settle oc m))"

inductive web_reach :: "string \<Rightarrow> web_machine \<Rightarrow> bool" for cidr where
  init: "web_reach cidr (web_init cidr)"
| step: "web_reach cidr m \<Longrightarrow> web_step m m' \<Longrightarrow> web_reach cidr m'"
| operation_done: "web_reach cidr m \<Longrightarrow> web_reach cidr (fst (operation_settle oc m))"

inductive_cases web_stepE: "web_step m m'"

lemma web_reach_intros:
  "web_reach cidr m \<Longrightarrow> web_reach cidr (fst (web_send now ev m))"
  "web_reach cidr m \<Longrightarrow> web_reach cidr (fst (inventory_settle oc m))"
  by (blast intro: web_reach.step web_step.intros)+

section \<open>Properties\<close>

subsection \<open>Operations\<close>

text \<open>What an operation keeps in the context.\<close>

definition operation_matches :: "operation \<Rightarrow> web_context \<Rightarrow> bool" where
  "operation_matches op c \<longleftrightarrow> (case op of
     OperationIdle \<Rightarrow> wc_active c = None \<and> wc_rollback c = None
   | Resolving uuid \<Rightarrow> wc_active c = Some uuid \<and> wc_rollback c = None
   | Toggling uuid onoff \<Rightarrow> wc_active c = Some uuid \<and> map_option fst (wc_rollback c) = Some uuid
   | Diagnosing uuid \<Rightarrow> wc_active c = Some uuid \<and> wc_rollback c = None)"

lemma root_event_keeps [simp]:
  "wc_active (fst (root_event ev c)) = wc_active c" "wc_rollback (fst (root_event ev c)) = wc_rollback c"
  by (cases ev; simp add: merge_snapshot_def merge_power_snapshot_def set_stream_device_state_def set_power_reading_def)+

lemma monitor_event_keeps [simp]:
  "wm_context (monitor_event ev m) = wm_context m" "wm_operation (monitor_event ev m) = wm_operation m"
  "wm_inventory (monitor_event ev m) = wm_inventory m"
  by (cases ev; simp)+

lemma inventory_event_keeps [simp]:
  "wm_context (fst (inventory_event ev m)) = wm_context m" "wm_operation (fst (inventory_event ev m)) = wm_operation m"
  by (cases ev; simp)+

lemma web_send_parts:
  "wm_operation (fst (web_send now ev m)) = wm_operation (fst (operation_event now ev (fst (inventory_event ev m))))"
  "wm_context (fst (web_send now ev m)) = fst (root_event ev (wm_context (fst (operation_event now ev (fst (inventory_event ev m))))))"
  by (simp_all add: web_send_def split_def Let_def)

lemma operation_event_matches:
  "operation_matches (wm_operation m) (wm_context m) \<Longrightarrow>
     operation_matches (wm_operation (fst (operation_event now ev m))) (wm_context (fst (operation_event now ev m)))"
  by (cases ev) (auto simp: operation_matches_def prepare_optimistic_toggle_def Let_def split: operation.splits)

lemma web_send_matches:
  assumes "operation_matches (wm_operation m) (wm_context m)"
  shows "operation_matches (wm_operation (fst (web_send now ev m))) (wm_context (fst (web_send now ev m)))"
proof -
  have "operation_matches (wm_operation (fst (inventory_event ev m))) (wm_context (fst (inventory_event ev m)))"
    using assms by simp
  from operation_event_matches [OF this, of now ev]
  show ?thesis unfolding web_send_parts by (simp add: operation_matches_def split: operation.splits)
qed

lemma inventory_settle_keeps [simp]:
  "wm_operation (fst (inventory_settle oc m)) = wm_operation m"
  "wc_active (wm_context (fst (inventory_settle oc m))) = wc_active (wm_context m)"
  "wc_rollback (wm_context (fst (inventory_settle oc m))) = wc_rollback (wm_context m)"
  "wc_states (wm_context (fst (inventory_settle oc m))) = wc_states (wm_context m)"
  by (auto simp: inventory_settle_def Let_def set_cidr_if_empty_def split: inventory.splits outcome.splits)

lemma web_step_matches:
  "web_step m m' \<Longrightarrow> operation_matches (wm_operation m) (wm_context m) \<Longrightarrow> operation_matches (wm_operation m') (wm_context m')"
  by (erule web_stepE) (simp add: web_send_matches, simp add: operation_matches_def split: operation.splits)

lemma operation_settle_matches:
  "operation_matches (wm_operation (fst (operation_settle oc m))) (wm_context (fst (operation_settle oc m)))"
  if "operation_matches (wm_operation m) (wm_context m)"
  using that by (auto simp: operation_matches_def operation_settle_def Let_def split: operation.splits outcome.splits)

text \<open>The operations of the device list never overlap and leave nothing behind: in every
  reachable state a device is active exactly while an operation on it is under way, and something
  can be rolled back exactly while a toggle is under way, for that device.\<close>

theorem operations_exclusive:
  assumes "web_reach cidr m"
  shows "case wm_operation m of
     OperationIdle \<Rightarrow> wc_active (wm_context m) = None \<and> wc_rollback (wm_context m) = None
   | Resolving uuid \<Rightarrow> wc_active (wm_context m) = Some uuid \<and> wc_rollback (wm_context m) = None
   | Toggling uuid onoff \<Rightarrow> wc_active (wm_context m) = Some uuid \<and> map_option fst (wc_rollback (wm_context m)) = Some uuid
   | Diagnosing uuid \<Rightarrow> wc_active (wm_context m) = Some uuid \<and> wc_rollback (wm_context m) = None"
proof -
  have "operation_matches (wm_operation m) (wm_context m)"
    using assms
  proof (induction rule: web_reach.induct)
    case init
    show ?case by (simp add: web_init_def web_context_init_def operation_matches_def)
  qed (simp_all add: web_step_matches operation_settle_matches)
  then show ?thesis by (simp add: operation_matches_def)
qed

text \<open>A machine whose device is being toggled.\<close>

definition demo_web :: web_machine where
  "demo_web = fst (operation_settle Toggled
     (fst (web_send 1 (Toggle ''u1'' 1) (fst (inventory_settle (Refreshed (JArr []) (JObj [(''u1'', JObj [(''host'', JStr ''10.0.0.2'')])]))
       (fst (web_send 0 Refresh (web_init []))))))))"

definition demo_toggling :: web_machine where
  "demo_toggling = fst (web_send 2 (Toggle ''u1'' 0) demo_web)"

lemma demo_web_reach: "web_reach [] demo_web" "web_reach [] demo_toggling"
proof -
  show "web_reach [] demo_web" unfolding demo_web_def
    by (intro web_reach.operation_done web_reach_intros web_reach.init)
  then show "web_reach [] demo_toggling" unfolding demo_toggling_def by (rule web_reach_intros)
qed

lemma operations_exclusive_witness:
  "wm_operation demo_toggling = Toggling ''u1'' 0 \<and> wc_active (wm_context demo_toggling) = Some ''u1''"
proof -
  have op: "wm_operation demo_toggling = Toggling ''u1'' 0" by code_simp
  with operations_exclusive [OF demo_web_reach(2)] show ?thesis by simp
qed

subsection \<open>Optimistic toggles\<close>

lemma web_step_toggling:
  assumes "web_step m m'" "wm_operation m = Toggling uuid onoff"
  shows "wm_operation m' = Toggling uuid onoff \<and> wc_rollback (wm_context m') = wc_rollback (wm_context m) \<and>
    wc_active (wm_context m') = wc_active (wm_context m)"
  using assms(1)
proof (cases rule: web_step.cases)
  case (event now ev)
  have "operation_event now ev n = (n, [])" if "wm_operation n = Toggling uuid onoff" for n
    using that by (cases ev) simp_all
  then show ?thesis using assms(2) by (simp add: event web_send_parts)
next
  case (inventory_done oc)
  then show ?thesis using assms(2) by simp
qed

lemma web_steps_toggling:
  assumes "web_step\<^sup>*\<^sup>* m m'" "wm_operation m = Toggling uuid onoff"
  shows "wm_operation m' = Toggling uuid onoff \<and> wc_rollback (wm_context m') = wc_rollback (wm_context m) \<and>
    wc_active (wm_context m') = wc_active (wm_context m)"
  using assms(1)
proof (induction rule: rtranclp_induct)
  case (step n n')
  then show ?case using web_step_toggling [OF step.hyps(2), of uuid onoff] by simp
qed (simp add: assms(2))

lemma web_send_toggle:
  assumes "wm_operation m = OperationIdle" "has_host (wm_context m) uuid"
  shows "fst (web_send now (Toggle uuid onoff) m) =
    m\<lparr>wm_operation := Toggling uuid onoff,
      wm_context := prepare_optimistic_toggle now uuid onoff ((wm_context m)\<lparr>wc_active := Some uuid\<rparr>)\<rparr>"
    "snd (web_send now (Toggle uuid onoff) m) = toggle_calls uuid onoff"
  using assms by (simp_all add: web_send_def)

lemma toggled_channels_shown:
  "list_all (\<lambda>c. ts_channel c \<noteq> 0 \<or> ts_onoff c = onoff) (toggled_channels onoff cs) \<and>
   list_ex (\<lambda>c. ts_channel c = 0) (toggled_channels onoff cs) \<and>
   filter (\<lambda>c. ts_channel c \<noteq> 0) (toggled_channels onoff cs) = filter (\<lambda>c. ts_channel c \<noteq> 0) cs"
proof -
  have "filter (\<lambda>c. ts_channel c \<noteq> 0) (map (\<lambda>c. if ts_channel c = 0 then c\<lparr>ts_onoff := onoff\<rparr> else c) cs) = filter (\<lambda>c. ts_channel c \<noteq> 0) cs"
    by (induction cs) simp_all
  then show ?thesis by (auto simp: toggled_channels_def list_all_iff list_ex_iff intro: rev_bexI)
qed

text \<open>C19. Toggling in the client. The wanted state is shown at once, for the main channel and no
  other, and for no other device, while the request is sent. Whatever events and refreshes come in
  before the reply: when it is a failure, the device is shown exactly as it was when the toggle was
  asked for, marked stale with the message of the failure, and everything else as it is now; when it
  is a success, nothing changes but that a refresh of the device is asked for. What the stream
  brought for the device in the meantime is lost with a failure.\<close>

theorem toggle_shown_and_rolled_back:
  assumes "wm_operation m = OperationIdle" "has_host (wm_context m) uuid"
    and "web_step\<^sup>*\<^sup>* (fst (web_send now (Toggle uuid onoff) m)) m2"
  shows "(let m1 = fst (web_send now (Toggle uuid onoff) m) in
      \<exists>d cs. snd (web_send now (Toggle uuid onoff) m) = toggle_calls uuid onoff \<and>
        map_get (wc_states (wm_context m1)) = (map_get (wc_states (wm_context m)))(uuid \<mapsto> d) \<and>
        wd_onoff d = onoff \<and> wd_error d = None \<and> wd_channels d = Some cs \<and>
        list_all (\<lambda>c. ts_channel c \<noteq> 0 \<or> ts_onoff c = onoff) cs \<and> list_ex (\<lambda>c. ts_channel c = 0) cs \<and>
        filter (\<lambda>c. ts_channel c \<noteq> 0) cs =
          filter (\<lambda>c. ts_channel c \<noteq> 0) (or_else (Option.bind (map_get (wc_states (wm_context m)) uuid) wd_channels) [])) \<and>
    (let m3 = fst (operation_settle (Failed message) m2) in
      wm_operation m3 = OperationIdle \<and>
      map_get (wc_states (wm_context m3)) =
        (map_get (wc_states (wm_context m2)))(uuid \<mapsto> failed_device message (map_get (wc_states (wm_context m)) uuid))) \<and>
    (let (m4, calls) = operation_settle Toggled m2 in
      wm_operation m4 = OperationIdle \<and> wc_states (wm_context m4) = wc_states (wm_context m2) \<and> calls = request_device_refresh uuid)"
proof -
  define m1 where "m1 = fst (web_send now (Toggle uuid onoff) m)"
  define prev where "prev = map_get (wc_states (wm_context m)) uuid"
  have m1: "wm_operation m1 = Toggling uuid onoff" "wc_active (wm_context m1) = Some uuid" "wc_rollback (wm_context m1) = Some (uuid, prev)"
    by (simp_all add: m1_def web_send_toggle [OF assms(1,2)] prepare_optimistic_toggle_def Let_def prev_def)
  have m2: "wm_operation m2 = Toggling uuid onoff" "wc_active (wm_context m2) = Some uuid" "wc_rollback (wm_context m2) = Some (uuid, prev)"
    using web_steps_toggling [OF assms(3) [folded m1_def] m1(1)] m1 by simp_all
  have undone: "map_get (wc_states (set_device_error uuid message (rollback_optimistic_toggle (wm_context m2)))) =
      (map_get (wc_states (wm_context m2)))(uuid \<mapsto> failed_device message prev)"
    by (cases prev) (auto simp: rollback_optimistic_toggle_def m2 set_device_error_def fun_eq_iff)
  have shown: "map_get (wc_states (wm_context m1)) = (map_get (wc_states (wm_context m)))
      (uuid \<mapsto> optimistic_state now onoff (or_else (truthy_str (path (wc_hosts (wm_context m)) [uuid, ''host''])) []) prev)"
    by (simp add: m1_def web_send_toggle [OF assms(1,2)] prepare_optimistic_toggle_def Let_def prev_def fun_eq_iff del: path.simps)
  define cs where "cs = toggled_channels onoff (or_else (wd_channels (or_else prev blank_device)) [])"
  have before: "or_else (wd_channels (or_else prev blank_device)) [] = or_else (Option.bind prev wd_channels) []"
    by (cases prev) (simp_all add: blank_device_def)
  have state: "wd_onoff (optimistic_state now onoff h prev) = onoff \<and> wd_error (optimistic_state now onoff h prev) = None \<and>
      wd_channels (optimistic_state now onoff h prev) = Some cs" for h
    by (simp add: optimistic_state_def Let_def cs_def)
  show ?thesis
    unfolding Let_def m1_def [symmetric] prev_def [symmetric] web_send_toggle(2) [OF assms(1,2)]
    using shown state toggled_channels_shown [of onoff "or_else (Option.bind prev wd_channels) []"] undone
    by (simp add: operation_settle_def Let_def m2 failure_message_def cs_def before) blast
qed

lemma toggle_shown_and_rolled_back_witness:
  "map_get (wc_states (wm_context (fst (operation_settle (Failed ''timeout'') demo_toggling)))) ''u1'' =
     Some (failed_device ''timeout'' (map_get (wc_states (wm_context demo_web)) ''u1''))"
proof -
  have "wm_operation demo_web = OperationIdle" "has_host (wm_context demo_web) ''u1''" by code_simp+
  from toggle_shown_and_rolled_back [OF this rtranclp.rtrancl_refl, of 2 0 "''timeout''", folded demo_toggling_def]
  show ?thesis by (simp add: Let_def)
qed

subsection \<open>From the service to the screen\<close>

text \<open>The machine after the messages of a stream, in order.\<close>

definition deliver :: "(string \<Rightarrow> string \<Rightarrow> int) \<Rightarrow> (int \<Rightarrow> string) \<Rightarrow> rat \<Rightarrow> event \<Rightarrow> web_machine \<Rightarrow> web_machine" where
  "deliver lc at_str now ev m = (case stream_message lc (fst (event_message at_str ev)) (snd (event_message at_str ev)) of
     None \<Rightarrow> m | Some wev \<Rightarrow> fst (web_send now wev m))"

definition device_shown :: "device_state \<Rightarrow> web_device" where
  "device_shown d = device_of_stream (web_state_of d)"

definition screen :: "web_machine \<Rightarrow> string \<Rightarrow> web_device option" where
  "screen m u = map_get (wc_states (wm_context m)) u"

lemma screen_send:
  "screen (fst (web_send now (StateReceived s) m)) = (screen m)(ws_uuid s \<mapsto> device_of_stream s)"
  "screen (fst (web_send now (DeviceStale s) m)) = (screen m)(ws_uuid s \<mapsto> device_of_stream s)"
  "screen (fst (web_send now (PowerReceived p) m)) = screen m"
  "screen (fst (web_send now (PowerSnapshot ps) m)) = screen m"
  by (simp_all add: screen_def fun_eq_iff web_send_parts set_stream_device_state_def set_power_reading_def merge_power_snapshot_def)

lemma screen_snapshot:
  "screen (fst (web_send now (Snapshot ss) m)) = fold (\<lambda>s v. v(ws_uuid s \<mapsto> device_of_stream s)) ss (screen m)"
proof -
  have "map_get (fold (\<lambda>s. map_set (ws_uuid s) (device_of_stream s)) ss sts) = fold (\<lambda>s v. v(ws_uuid s \<mapsto> device_of_stream s)) ss (map_get sts)" for sts
  proof (induction ss arbitrary: sts)
    case (Cons s ss)
    have "map_get (map_set (ws_uuid s) (device_of_stream s) sts) = (map_get sts)(ws_uuid s \<mapsto> device_of_stream s)" by (simp add: fun_eq_iff)
    with Cons show ?case by simp
  qed simp
  moreover have "screen n = map_get (wc_states (wm_context n))" for n by (simp add: screen_def fun_eq_iff)
  ultimately show ?thesis by (simp add: web_send_parts merge_snapshot_def)
qed

text \<open>A view of the service's states on top of what was on the screen.\<close>

definition overlay :: "(string \<rightharpoonup> device_state) \<Rightarrow> (string \<rightharpoonup> web_device) \<Rightarrow> string \<rightharpoonup> web_device" where
  "overlay view old u = (case view u of None \<Rightarrow> old u | Some d \<Rightarrow> Some (device_shown d))"

lemma overlay_learn: "overlay (learn d view) old = (overlay view old)(ds_uuid d \<mapsto> device_shown d)"
  by (auto simp: overlay_def learn_def fun_eq_iff)

lemma overlay_learns:
  "overlay (fold learn ds view) old = fold (\<lambda>s v. v(ws_uuid s \<mapsto> device_of_stream s)) (map web_state_of ds) (overlay view old)"
  by (induction ds arbitrary: view) (simp_all add: overlay_learn device_shown_def web_state_of_def)

lemma deliver_learns:
  assumes "list_all (\<lambda>d. typed_state lc d \<and> readable d) (event_states ev)" and "screen m = overlay view old"
  shows "screen (deliver lc at_str now ev m) = overlay (apply_event ev view) old"
proof (cases ev)
  case (EvSnapshot ds)
  with assms show ?thesis
    by (simp add: deliver_def stream_message_def parse_snapshot_json screen_snapshot overlay_learns)
next
  case (EvState d)
  with assms show ?thesis
    by (simp add: deliver_def stream_message_def parse_state_json screen_send overlay_learn device_shown_def web_state_of_def)
next
  case (EvStale d)
  with assms show ?thesis
    by (simp add: deliver_def stream_message_def parse_state_json screen_send overlay_learn device_shown_def web_state_of_def)
next
  case (EvPower p)
  with assms show ?thesis by (cases "parse_power (json_of_power p)") (simp_all add: deliver_def stream_message_def screen_send)
qed (use assms in \<open>simp_all add: deliver_def stream_message_def screen_send\<close>)

lemma deliver_all:
  assumes "list_all (\<lambda>ev. list_all (\<lambda>d. typed_state lc d \<and> readable d) (event_states ev)) evs"
  shows "screen (fold (deliver lc at_str now) evs m) = overlay (replay evs) (screen m)"
  using assms
proof (induction evs rule: rev_induct)
  case Nil
  show ?case by (simp add: replay_def overlay_def fun_eq_iff)
next
  case (snoc ev evs)
  then show ?case using deliver_learns [of lc ev "fold (deliver lc at_str now) evs m" "replay evs" "screen m"] by simp
qed

definition unsourced :: "web_device \<Rightarrow> web_device" where
  "unsourced d = d\<lparr>wd_source := None\<rparr>"

lemma shown_visible: "visible d = visible d' \<Longrightarrow> unsourced (device_shown d) = unsourced (device_shown d')"
  by (cases d; cases d') (simp add: visible_def unsourced_def device_shown_def device_of_stream_def web_state_of_def)

text \<open>C3. From the service to the screen: take any reachable state of the service and a client whose
  connection is open, and let the client's machine, whatever it showed before, receive the messages
  written to it, as JSON and in order. Then every device the service holds is shown exactly as the
  service holds it (but for who polled last), and every other device as before; provided the names
  of the devices have no blanks around them and the clock is after 1970.\<close>

theorem screen_follows_service:
  assumes "collation lc" "poller_reach lc tel_ms s" "map_get (p_subs s) i = Some sub" "sb_open sub"
    and "list_all (\<lambda>ev. list_all readable (event_states ev)) (sb_events sub)"
  shows "map_option unsourced (screen (fold (deliver lc at_str now) (sb_events sub) m) u) =
    map_option unsourced (case map_get (p_states s) u of None \<Rightarrow> screen m u | Some d \<Rightarrow> Some (device_shown d))"
proof -
  have "list_all (\<lambda>ev. list_all (typed_state lc) (event_states ev)) (sb_events sub)"
    using reach_typed [OF assms(1,2)] assms(3) by (auto simp: all_sent_def carries_only_def list_all_iff)
  then have "list_all (\<lambda>ev. list_all (\<lambda>d. typed_state lc d \<and> readable d) (event_states ev)) (sb_events sub)"
    using assms(5) by (auto simp: list_all_iff)
  note screen = deliver_all [OF this, of at_str now m]
  have "map_option visible (replay (sb_events sub) u) = map_option visible (map_get (p_states s) u)"
    using poller_invD(6) [OF reach_inv [OF assms(2)] assms(3,4)] by (simp add: knows_def)
  then show ?thesis
    unfolding screen overlay_def
    by (cases "replay (sb_events sub) u"; cases "map_get (p_states s) u") (auto intro: shown_visible)
qed

lemma screen_follows_service_witness:
  "\<exists>sub d. map_get (p_subs sample_run) 1 = Some sub \<and> map_get (p_states sample_run) ''u1'' = Some d \<and>
     map_option unsourced (screen (fold (deliver codeunit_compare (\<lambda>_. []) 0) (sb_events sub) (web_init [])) ''u1'') =
       Some (unsourced (device_shown d))"
proof -
  obtain sub where sub: "map_get (p_subs sample_run) 1 = Some sub" "sb_open sub"
    using sample_run_values(1) by auto
  obtain d where d: "map_get (p_states sample_run) ''u1'' = Some d" using sample_run_values(2) by auto
  have "map_option (\<lambda>sub. list_all (\<lambda>ev. list_all readable (event_states ev)) (sb_events sub)) (map_get (p_subs sample_run) 1) = Some True"
    by code_simp
  then have "list_all (\<lambda>ev. list_all readable (event_states ev)) (sb_events sub)" by (simp only: sub(1) option.map option.inject simp_thms)
  from screen_follows_service [OF codeunit.collation_axioms sample_run_reach sub this, where u = "''u1''" and at_str = "\<lambda>_. []" and now = 0 and m = "web_init []"]
  show ?thesis using sub d by auto
qed

subsection \<open>The connection\<close>

text \<open>A callback of the source comes only while there is one, the timer's only while it is set.\<close>

inductive actor_reach :: "stream_actor \<Rightarrow> bool" where
  start: "actor_reach stream_start"
| opened: "actor_reach a \<Longrightarrow> sa_source a \<Longrightarrow> actor_reach (fst (stream_opened a))"
| failed: "actor_reach a \<Longrightarrow> sa_source a \<Longrightarrow> actor_reach (fst (stream_failed a))"
| fired: "actor_reach a \<Longrightarrow> sa_timer a \<noteq> None \<Longrightarrow> actor_reach (timer_fired a)"
| stopped: "actor_reach a \<Longrightarrow> actor_reach (stream_stop a)"

text \<open>The client never gives up on its connection and never has two: in every reachable state of
  the stream actor, a stopped actor has neither a connection nor a timer, and a running one has
  exactly one of the two. A timer waits one second after the first failure in a row, then two, five,
  ten and thirty seconds, never longer.\<close>

theorem stream_keeps_connecting:
  assumes "actor_reach a"
  shows "if sa_closed a then \<not> sa_source a \<and> sa_timer a = None
    else (sa_source a \<longleftrightarrow> sa_timer a = None) \<and>
      (case sa_timer a of None \<Rightarrow> True
       | Some delay \<Rightarrow> 0 < sa_retry a \<and> delay = [1000, 2000, 5000, 10000, 30000] ! min (sa_retry a - 1) 4 \<and> 1000 \<le> delay \<and> delay \<le> 30000)"
  using assms
proof (induction rule: actor_reach.induct)
  case start
  show ?case by (simp add: stream_start_def open_stream_def)
next
  case (failed a)
  have "\<forall>k \<in> {0, 1, 2, 3, 4}. 1000 \<le> [1000, 2000, 5000, 10000, 30000 :: nat] ! k \<and> [1000, 2000, 5000, 10000, 30000 :: nat] ! k \<le> 30000"
    by simp
  moreover have "min n 4 \<in> {0, 1, 2, 3, 4}" for n :: nat by (simp add: min_def) arith
  ultimately have "1000 \<le> [1000, 2000, 5000, 10000, 30000 :: nat] ! min n 4 \<and> [1000, 2000, 5000, 10000, 30000 :: nat] ! min n 4 \<le> 30000" for n
    by blast
  moreover have last: "length reconnect_delays_ms - 1 = 4" by (simp add: reconnect_delays_ms_def)
  ultimately show ?case
    using failed unfolding stream_failed_def schedule_reconnect_def last by (auto simp add: reconnect_delays_ms_def simp del: nth_Cons_numeral)
qed (auto simp: stream_opened_def timer_fired_def stream_stop_def open_stream_def)

lemma stream_keeps_connecting_witness:
  "sa_timer (fst (stream_failed (timer_fired (fst (stream_failed stream_start))))) = Some 2000"
proof -
  note defs = stream_start_def open_stream_def stream_failed_def schedule_reconnect_def timer_fired_def
  have "sa_source stream_start" "sa_timer (fst (stream_failed stream_start)) \<noteq> None"
    "sa_source (timer_fired (fst (stream_failed stream_start)))" by (simp_all add: defs)
  then have reach: "actor_reach (fst (stream_failed (timer_fired (fst (stream_failed stream_start)))))"
    by (intro actor_reach.failed actor_reach.fired actor_reach.start)
  have "sa_retry (fst (stream_failed (timer_fired (fst (stream_failed stream_start))))) = 2"
    "\<not> sa_closed (fst (stream_failed (timer_fired (fst (stream_failed stream_start)))))"
    "\<not> sa_source (fst (stream_failed (timer_fired (fst (stream_failed stream_start)))))" by (simp_all add: defs)
  with stream_keeps_connecting [OF reach] show ?thesis by (auto split: option.splits)
qed

end
