(* ===== verification/WebAuth.thy ===== *)
theory WebAuth
  imports WebDevices
begin

text \<open>
  Signing in: the machine of the login form, \<open>apps/web/src/state/authMachine.ts\<close>, the region it
  starts with, \<open>views/auth/loginRegion.ts\<close>, the machine that chooses the view, \<open>state/appMachine.ts\<close>,
  and the effects of \<open>views/AuthView.tsx\<close> that connect the two.

  \<open>auth_send\<close> and \<open>app_send\<close> are the reactions to an event, \<open>auth_settle\<close> and \<open>app_boot\<close> those to the
  outcome of the invoked request.
\<close>

section \<open>Regions\<close>

datatype login_region = RegionAuto | RegionGlobal | RegionUs | RegionEu | RegionAp

fun domain_for_region :: "login_region \<Rightarrow> string option" where
  "domain_for_region RegionGlobal = Some ''iotx.meross.com''"
| "domain_for_region RegionUs = Some ''iotx-us.meross.com''"
| "domain_for_region RegionEu = Some ''iotx-eu.meross.com''"
| "domain_for_region RegionAp = Some ''iotx-ap.meross.com''"
| "domain_for_region RegionAuto = None"

fun region_name :: "login_region \<Rightarrow> string" where
  "region_name RegionAuto = ''auto''"
| "region_name RegionGlobal = ''global''"
| "region_name RegionUs = ''us''"
| "region_name RegionEu = ''eu''"
| "region_name RegionAp = ''ap''"

text \<open>The local storage holds the name; what is no name is as nothing stored.\<close>

definition stored_login_region :: "string option \<Rightarrow> login_region option" where
  "stored_login_region raw =
     find (\<lambda>r. region_name r = or_else raw []) [RegionAuto, RegionGlobal, RegionUs, RegionEu, RegionAp]"

definition region_of_timezone :: "string \<Rightarrow> login_region option" where
  "region_of_timezone tz =
     (if starts_with ''America/'' tz then Some RegionUs
      else if starts_with ''Europe/'' tz then Some RegionEu
      else if list_ex (\<lambda>p. starts_with p tz) [''Asia/'', ''Australia/'', ''Pacific/''] then Some RegionAp
      else None)"

text \<open>\<open>/-(US|CA|MX)\b/i.test(s)\<close> for a list of codes: a dash, a code, and no word character after it.\<close>

definition word_char :: "char \<Rightarrow> bool" where
  "word_char c \<longleftrightarrow> is_digit c \<or> (65 \<le> code_of (upper_char c) \<and> code_of (upper_char c) \<le> 90) \<or> c = CHR ''_''"

fun has_region_code :: "string list \<Rightarrow> string \<Rightarrow> bool" where
  "has_region_code codes [] = False"
| "has_region_code codes (c # cs) =
     ((c = CHR ''-'' \<and> list_ex (\<lambda>code. starts_with code (to_upper cs) \<and>
         (case drop (length code) cs of [] \<Rightarrow> True | d # _ \<Rightarrow> \<not> word_char d)) codes)
      \<or> has_region_code codes cs)"

definition us_codes :: "string list" where
  "us_codes = [''US'', ''CA'', ''MX'']"

definition eu_codes :: "string list" where
  "eu_codes = [''GB'', ''IE'', ''FR'', ''DE'', ''ES'', ''IT'', ''NL'', ''BE'', ''SE'', ''NO'', ''DK'', ''FI'', ''PL'', ''PT'', ''AT'', ''CH'']"

definition ap_codes :: "string list" where
  "ap_codes = [''AU'', ''NZ'', ''JP'', ''KR'', ''SG'', ''HK'', ''TW'']"

text \<open>The region and the reason, from the time zone and the languages of the browser.\<close>

definition likely_login_region :: "string \<Rightarrow> string list \<Rightarrow> login_region \<times> string" where
  "likely_login_region tz languages =
     (let names = join_with '', '' (filter (\<lambda>l. l \<noteq> []) languages) in
      case region_of_timezone tz of
        Some r \<Rightarrow> (r, ''timezone: '' @ tz)
      | None \<Rightarrow>
          if has_region_code us_codes names then (RegionUs, ''language: '' @ names)
          else if has_region_code eu_codes names then (RegionEu, ''language: '' @ names)
          else if has_region_code ap_codes names then (RegionAp, ''language: '' @ names)
          else (RegionGlobal, if tz \<noteq> [] then ''timezone: '' @ tz else ''default''))"

section \<open>The login form\<close>

record auth_context =
  ax_email :: string
  ax_password :: string
  ax_totp :: string
  ax_region :: login_region
  ax_cloud :: jsval
  ax_error :: "string option"

datatype auth_state = AuthEditing | AuthSubmitting | AuthSuccess

record auth_machine =
  am_context :: auth_context
  am_state :: auth_state

definition auth_init :: auth_machine where
  "auth_init = \<lparr>am_context = \<lparr>ax_email = [], ax_password = [], ax_totp = [], ax_region = RegionAuto, ax_cloud = JNull, ax_error = None\<rparr>,
     am_state = AuthEditing\<rparr>"

datatype auth_event = SetEmail string | SetPassword string | SetTotp string | SetRegion login_region | Submit

definition is_totp_valid :: "string \<Rightarrow> bool" where
  "is_totp_valid s \<longleftrightarrow> length (trim s) = 6 \<and> list_all is_digit (trim s)"

definition can_submit :: "auth_context \<Rightarrow> bool" where
  "can_submit c \<longleftrightarrow> is_totp_valid (ax_totp c) \<and> trim (ax_email c) \<noteq> [] \<and> ax_password c \<noteq> []"

definition login_body :: "auth_context \<Rightarrow> jsval" where
  "login_body c = JObj ([(''email'', JStr (trim (ax_email c))), (''password'', JStr (ax_password c)), (''mfaCode'', JStr (trim (ax_totp c)))]
     @ (case domain_for_region (ax_region c) of None \<Rightarrow> [] | Some d \<Rightarrow> [(''domain'', JStr d)]))"

fun auth_assign :: "auth_event \<Rightarrow> auth_context \<Rightarrow> auth_context" where
  "auth_assign (SetEmail s) c = c\<lparr>ax_email := s, ax_error := None\<rparr>"
| "auth_assign (SetPassword s) c = c\<lparr>ax_password := s, ax_error := None\<rparr>"
| "auth_assign (SetTotp s) c = c\<lparr>ax_totp := s, ax_error := None\<rparr>"
| "auth_assign (SetRegion r) c = c\<lparr>ax_region := r, ax_error := None\<rparr>"
| "auth_assign Submit c = c"

text \<open>The final state takes no events.\<close>

definition auth_send :: "auth_event \<Rightarrow> auth_machine \<Rightarrow> auth_machine \<times> web_effect list" where
  "auth_send ev m =
     (if am_state m = AuthSuccess then (m, [])
      else if ev = Submit \<and> am_state m = AuthEditing \<and> can_submit (am_context m)
      then (m\<lparr>am_state := AuthSubmitting\<rparr>, [Call ''POST'' (api_path [''cloud'', ''login'']) (login_body (am_context m))])
      else (m\<lparr>am_context := auth_assign ev (am_context m)\<rparr>, []))"

fun format_auth_error :: "client_error \<Rightarrow> string" where
  "format_auth_error (TypeErr m) = m"
| "format_auth_error (ApiError message code details status) =
     (let info = (case field details ''info'' of JStr s \<Rightarrow> trim s | _ \<Rightarrow> []);
          api_status = (case field details ''apiStatus'' of JNum n \<Rightarrow> Some n | _ \<Rightarrow> None)
      in if code = JStr ''mfa_required'' then ''MFA required. Enter a current 6-digit TOTP code and try again.''
         else case api_status of
             Some n \<Rightarrow> (if info \<noteq> [] then info else message) @ '' (Meross status '' @ str_of_num n @ '').''
           | None \<Rightarrow> if info \<noteq> [] then info else message)"

definition login_outcome :: "client_error + jsval \<Rightarrow> client_error + jsval" where
  "login_outcome r = (case r of Inl e \<Rightarrow> Inl e | Inr d \<Rightarrow> read_member d ''cloud'')"

definition auth_settle :: "client_error + jsval \<Rightarrow> auth_machine \<Rightarrow> auth_machine" where
  "auth_settle r m =
     (if am_state m \<noteq> AuthSubmitting then m
      else case login_outcome r of
          Inl e \<Rightarrow> m\<lparr>am_state := AuthEditing, am_context := (am_context m)\<lparr>ax_error := Some (format_auth_error e)\<rparr>\<rparr>
        | Inr cloud \<Rightarrow> m\<lparr>am_state := AuthSuccess,
            am_context := (am_context m)\<lparr>ax_cloud := nn cloud JNull, ax_error := None, ax_password := [], ax_totp := []\<rparr>\<rparr>)"

section \<open>The view\<close>

datatype app_view = Booting | SignIn | Inventory

record app_machine =
  ap_cloud :: jsval
  ap_view :: app_view

definition app_init :: app_machine where
  "app_init = \<lparr>ap_cloud = JNull, ap_view = Booting\<rparr>"

datatype app_event = LoginSuccess jsval | Logout

definition has_cloud_key :: "jsval \<Rightarrow> bool" where
  "has_cloud_key cloud \<longleftrightarrow> truthy (field cloud ''key'')"

text \<open>The account asked for at the start; without an answer there is none.\<close>

definition check_cloud_creds :: "client_error + jsval \<Rightarrow> jsval" where
  "check_cloud_creds r = (case r of Inl _ \<Rightarrow> JNull
     | Inr d \<Rightarrow> (case read_member d ''cloud'' of Inl _ \<Rightarrow> JNull | Inr cloud \<Rightarrow> cloud))"

definition app_boot :: "client_error + jsval \<Rightarrow> app_machine \<Rightarrow> app_machine" where
  "app_boot r m = (if ap_view m \<noteq> Booting then m
     else let cloud = check_cloud_creds r in \<lparr>ap_cloud = cloud, ap_view = (if has_cloud_key cloud then Inventory else SignIn)\<rparr>)"

fun app_send :: "app_event \<Rightarrow> app_machine \<Rightarrow> app_machine" where
  "app_send (LoginSuccess cloud) m = (if ap_view m = SignIn then \<lparr>ap_cloud = cloud, ap_view = Inventory\<rparr> else m)"
| "app_send Logout m = (if ap_view m = Inventory then \<lparr>ap_cloud = JNull, ap_view = SignIn\<rparr> else m)"

text \<open>The effects of the login view: it starts with a region, and reports a success with an account.\<close>

definition auth_mounted :: "login_region option \<Rightarrow> login_region \<Rightarrow> auth_machine" where
  "auth_mounted stored likely = fst (auth_send (SetRegion (or_else stored likely)) auth_init)"

definition success_reported :: "auth_machine \<Rightarrow> app_event option" where
  "success_reported m = (if am_state m = AuthSuccess \<and> truthy (ax_cloud (am_context m)) then Some (LoginSuccess (ax_cloud (am_context m))) else None)"

section \<open>Properties\<close>

subsection \<open>Signing in through the service\<close>

lemma login_body_fields:
  "string_or_empty (field (login_body c) ''email'') = trim (ax_email c)"
  "string_or_empty (field (login_body c) ''password'') = ax_password c"
  "trim (ax_totp c) \<noteq> [] \<Longrightarrow> opt_str (field (login_body c) ''mfaCode'') = Some (trim (ax_totp c))"
  "opt_str (field (login_body c) ''domain'') = domain_for_region (ax_region c)"
  "field (login_body c) ''scheme'' = JUndef" "field (login_body c) ''timeoutMs'' = JUndef"
  by (simp_all add: login_body_def string_or_empty_def opt_str_def nn_def) (cases "ax_region c"; simp)+

definition form_params :: "auth_context \<Rightarrow> login_params" where
  "form_params c = \<lparr>lp_email = trim (ax_email c), lp_password = ax_password c, lp_mfa_code = Some (trim (ax_totp c))\<rparr>"

definition form_options :: "auth_context \<Rightarrow> cloud_http_options" where
  "form_options c = \<lparr>ho_timeout_ms = None, ho_domain = domain_for_region (ax_region c), ho_scheme = None, ho_encryption = None\<rparr>"

lemma login_of_form:
  assumes "can_submit c" and "body_of req = login_body c"
    and "meross_cloud_login (ca_cloud e) (form_params c) (form_options c) = (calls, out)"
  shows "cn_calls (login_cloud e req) = calls"
    "cn_reply (login_cloud e req) = (case out of Inl err \<Rightarrow> snd (login_failed e err)
       | Inr creds \<Rightarrow> map_sum (\<lambda>m. m) (\<lambda>cloud. (200, ApiOk (JObj [(''cloud'', cloud)]))) (summarize_cloud (JObj (json_of_creds creds))))"
    "cn_written (login_cloud e req) = None \<longleftrightarrow> (\<exists>err. out = Inl err)"
proof -
  from assms(1) have full: "trim (ax_email c) \<noteq> []" "ax_password c \<noteq> []" "trim (ax_totp c) \<noteq> []"
    by (auto simp: can_submit_def is_totp_valid_def)
  note run = login_cloud_def [of e req, unfolded Let_def assms(2) login_body_fields(1,2,4-6) login_body_fields(3) [OF full(3)] finite_timeout_def]
  have "meross_cloud_login (ca_cloud e) \<lparr>lp_email = trim (ax_email c), lp_password = ax_password c, lp_mfa_code = Some (trim (ax_totp c))\<rparr>
      \<lparr>ho_timeout_ms = None, ho_domain = domain_for_region (ax_region c), ho_scheme = None, ho_encryption = None\<rparr> = (calls, out)"
    using assms(3) by (simp add: form_params_def form_options_def)
  with full show "cn_calls (login_cloud e req) = calls"
    "cn_reply (login_cloud e req) = (case out of Inl err \<Rightarrow> snd (login_failed e err)
       | Inr creds \<Rightarrow> map_sum (\<lambda>m. m) (\<lambda>cloud. (200, ApiOk (JObj [(''cloud'', cloud)]))) (summarize_cloud (JObj (json_of_creds creds))))"
    "cn_written (login_cloud e req) = None \<longleftrightarrow> (\<exists>err. out = Inl err)"
    unfolding run by (auto split: sum.split prod.split)
qed

text \<open>The account as the client receives it.\<close>

definition shown_account :: "cloud_creds \<Rightarrow> jsval" where
  "shown_account creds = json_round (JObj
     [(''domain'', JStr (cr_domain creds)), (''mqttDomain'', json_of_opt_str (cr_mqtt_domain creds)), (''userId'', JStr (cr_user_id creds)),
      (''userEmail'', JStr (cr_user_email creds)), (''key'', JStr (cr_key creds)),
      (''tokenRedacted'', (if cr_token creds = [] then JStr [] else JArr [JStr (take 4 (cr_token creds)), JStr (slice_end 4 (cr_token creds))]))])"

lemma nn_shown_account: "nn (shown_account creds) JNull = shown_account creds"
  by (simp add: nn_def shown_account_def)

lemma not_ok_outcome:
  assumes "storable (json_of_response resp)" and "\<not> is_api_ok resp"
  shows "\<exists>err. read_envelope status status_text (Inr (json_stringify 0 (json_of_response resp))) = Inl err"
  using assms json_text.read_print [of "json_of_response resp" 0] by (cases resp) (auto simp: read_envelope_def parse_reply_body_def Let_def)

lemma ok_outcome:
  assumes "storable d" and "d \<noteq> JUndef"
  shows "read_envelope 200 status_text (Inr (json_stringify 0 (json_of_response (ApiOk d)))) = Inr (json_round d)"
proof -
  have "json_parse (json_stringify 0 (json_of_response (ApiOk d))) = Some (json_round (json_of_response (ApiOk d)))"
    using assms by (intro json_text.read_print) simp_all
  moreover have "json_parse [] = None" by code_simp
  ultimately show ?thesis using assms(2) by (auto simp: read_envelope_def parse_reply_body_def Let_def)
qed

lemma storable_account: "storable (JObj
     [(''domain'', JStr (cr_domain creds)), (''mqttDomain'', json_of_opt_str (cr_mqtt_domain creds)), (''userId'', JStr (cr_user_id creds)),
      (''userEmail'', JStr (cr_user_email creds)), (''key'', JStr (cr_key creds)),
      (''tokenRedacted'', (if cr_token creds = [] then JStr [] else JArr [JStr (take 4 (cr_token creds)), JStr (slice_end 4 (cr_token creds))]))])"
  by (cases "cr_mqtt_domain creds") (simp_all add: json_of_opt_str_def)

text \<open>C20. Signing in, from the form to the configuration: submitting a complete form sends one login
  request; when the service runs its handler on that request, it asks the cloud for the trimmed
  email, the password and the trimmed code, at the domain of the chosen region; and when its reply
  arrives, the form has succeeded exactly when the cloud granted the login and the account was
  stored: then it holds the account without its token, and neither password nor code; otherwise it
  is open again, with everything typed kept and an error shown.\<close>

theorem sign_in_through_service:
  assumes "am_state m = AuthEditing" and "can_submit (am_context m)" and "body_of req = login_body (am_context m)"
    and "cn_reply (login_cloud e req) = Inr (status, resp)" and "is_api_ok resp \<or> storable (json_of_response resp)"
  shows "auth_send Submit m = (m\<lparr>am_state := AuthSubmitting\<rparr>, [Call ''POST'' (api_path [''cloud'', ''login'']) (login_body (am_context m))]) \<and>
    (let run = login_cloud e req; text = json_stringify 0 (hs_body (json_content production status resp));
         done_m = auth_settle (read_envelope status status_text (Inr text)) (m\<lparr>am_state := AuthSubmitting\<rparr>);
         (calls, granted) = meross_cloud_login (ca_cloud e) (form_params (am_context m)) (form_options (am_context m))
     in cn_calls run = calls \<and>
       (case granted of
          Inr creds \<Rightarrow> cn_written run \<noteq> None \<and> am_state done_m = AuthSuccess \<and> ax_cloud (am_context done_m) = shown_account creds \<and>
            ax_password (am_context done_m) = [] \<and> ax_totp (am_context done_m) = [] \<and> ax_error (am_context done_m) = None
        | Inl _ \<Rightarrow> cn_written run = None \<and> am_state done_m = AuthEditing \<and>
            (\<exists>message. am_context done_m = (am_context m)\<lparr>ax_error := Some message\<rparr>)))"
proof -
  obtain calls out where login: "meross_cloud_login (ca_cloud e) (form_params (am_context m)) (form_options (am_context m)) = (calls, out)"
    by fastforce
  note run = login_of_form [OF assms(2,3) login]
  have body: "hs_body (json_content production st resp) = json_of_response resp" for st by (simp add: json_content_def)
  have sent: "auth_send Submit m = (m\<lparr>am_state := AuthSubmitting\<rparr>, [Call ''POST'' (api_path [''cloud'', ''login'']) (login_body (am_context m))])"
    using assms(1,2) by (simp add: auth_send_def)
  show ?thesis
  proof (cases out)
    case (Inl err)
    then have "\<not> is_api_ok resp" using run(2) assms(4) login_failed_no_ok [of e err "fst (login_failed e err)" status resp]
      by (cases "login_failed e err") auto
    moreover from this have "storable (json_of_response resp)" using assms(5) by blast
    ultimately obtain err' where "read_envelope status status_text (Inr (json_stringify 0 (json_of_response resp))) = Inl err'"
      using not_ok_outcome by blast
    then show ?thesis using sent run(1,3) Inl by (auto simp: Let_def body login auth_settle_def login_outcome_def)
  next
    case (Inr creds)
    have "cn_reply (login_cloud e req) = Inr (200, ApiOk (JObj [(''cloud'', JObj
        [(''domain'', JStr (cr_domain creds)), (''mqttDomain'', json_of_opt_str (cr_mqtt_domain creds)), (''userId'', JStr (cr_user_id creds)),
         (''userEmail'', JStr (cr_user_email creds)), (''key'', JStr (cr_key creds)),
         (''tokenRedacted'', (if cr_token creds = [] then JStr [] else JArr [JStr (take 4 (cr_token creds)), JStr (slice_end 4 (cr_token creds))]))])]))"
      using run(2) by (simp add: Inr summarize_creds)
    with assms(4) have resp: "status = 200" "resp = ApiOk (JObj [(''cloud'', JObj
        [(''domain'', JStr (cr_domain creds)), (''mqttDomain'', json_of_opt_str (cr_mqtt_domain creds)), (''userId'', JStr (cr_user_id creds)),
         (''userEmail'', JStr (cr_user_email creds)), (''key'', JStr (cr_key creds)),
         (''tokenRedacted'', (if cr_token creds = [] then JStr [] else JArr [JStr (take 4 (cr_token creds)), JStr (slice_end 4 (cr_token creds))]))])])"
      by simp_all
    have "read_envelope 200 status_text (Inr (json_stringify 0 (json_of_response resp))) = Inr (JObj [(''cloud'', shown_account creds)])"
      unfolding resp(2) shown_account_def using storable_account [of creds] by (subst ok_outcome) simp_all
    then show ?thesis
      using sent run(1,3) Inr by (simp add: Let_def body login auth_settle_def login_outcome_def resp(1) read_member_def nn_shown_account)
  qed
qed

text \<open>A form for the cloud that grants the login at its second domain.\<close>

definition demo_form :: auth_machine where
  "demo_form = auth_init\<lparr>am_context := \<lparr>ax_email = '' a@b'', ax_password = ''pw'', ax_totp = ''123456 '', ax_region = RegionAuto,
     ax_cloud = JNull, ax_error = Some ''try again''\<rparr>\<rparr>"

definition demo_account :: account_env where
  "demo_account = \<lparr>ca_cfg = JObj [], ca_path = [], ca_cloud = demo_cloud, ca_debug = None, ca_request_id = [], ca_elapsed = 0, ca_now_iso = ''now''\<rparr>"

definition demo_request :: api_request where
  "demo_request = \<lparr>ar_content_type = Some ''application/json'', ar_body = Some (login_body (am_context demo_form))\<rparr>"

definition demo_creds :: cloud_creds where
  "demo_creds = \<lparr>cr_domain = ''iotx-ap.meross.com'', cr_mqtt_domain = None, cr_token = ''t'', cr_key = ''k'', cr_user_id = ''7'', cr_user_email = ''a@b''\<rparr>"

lemma demo_form_login:
  "snd (meross_cloud_login demo_cloud (form_params (am_context demo_form)) (form_options (am_context demo_form))) = Inr demo_creds"
proof -
  have seven: "str_of (js_int 7) = ''7''" by code_simp
  have ne: "demo_refusal \<noteq> []" "demo_grant \<noteq> []" by (simp_all add: demo_refusal_def demo_grant_def)
  have given: "form_options (am_context demo_form) = \<lparr>ho_timeout_ms = None, ho_domain = None, ho_scheme = None, ho_encryption = None\<rparr>"
    "lp_email (form_params (am_context demo_form)) = ''a@b''" by code_simp+
  show ?thesis
    using seven
    by (simp add: meross_cloud_login_def given demo_candidates demo_cloud_def post_with_redirect_def demo_creds_def
      numeral_2_eq_2 authenticated_post_def Let_def demo_refusal_json demo_grant_json ne api_status_def
      status_is_def demo_stripped creds_of_response_def str_or_empty_def nn_def)
qed

lemma sign_in_through_service_witness:
  "\<exists>text m. m = auth_settle (read_envelope 200 ''OK'' (Inr text)) (demo_form\<lparr>am_state := AuthSubmitting\<rparr>) \<and>
     cn_written (login_cloud demo_account demo_request) \<noteq> None \<and>
     am_state m = AuthSuccess \<and> ax_cloud (am_context m) = shown_account demo_creds \<and> ax_password (am_context m) = []"
proof -
  have start: "am_state demo_form = AuthEditing" "can_submit (am_context demo_form)"
    "body_of demo_request = login_body (am_context demo_form)" by code_simp+
  obtain calls where login: "meross_cloud_login (ca_cloud demo_account) (form_params (am_context demo_form)) (form_options (am_context demo_form)) = (calls, Inr demo_creds)"
    using demo_form_login by (cases "meross_cloud_login demo_cloud (form_params (am_context demo_form)) (form_options (am_context demo_form))")
      (simp add: demo_account_def)
  define account where "account = JObj
     [(''domain'', JStr (cr_domain demo_creds)), (''mqttDomain'', json_of_opt_str (cr_mqtt_domain demo_creds)), (''userId'', JStr (cr_user_id demo_creds)),
      (''userEmail'', JStr (cr_user_email demo_creds)), (''key'', JStr (cr_key demo_creds)),
      (''tokenRedacted'', (if cr_token demo_creds = [] then JStr [] else JArr [JStr (take 4 (cr_token demo_creds)), JStr (slice_end 4 (cr_token demo_creds))]))]"
  have reply: "cn_reply (login_cloud demo_account demo_request) = Inr (200, ApiOk (JObj [(''cloud'', account)]))"
    using login_of_form(2) [OF start(2,3) login] by (simp add: summarize_creds account_def)
  from sign_in_through_service [OF start reply, of False "''OK''"]
  show ?thesis by (auto simp: Let_def login)
qed

subsection \<open>The views\<close>

text \<open>One run of the client: the login form exists while its view is shown.\<close>

inductive session_reach :: "app_machine \<Rightarrow> auth_machine option \<Rightarrow> bool" where
  start: "session_reach app_init None"
| booted: "session_reach a f \<Longrightarrow> ap_view a = Booting \<Longrightarrow>
    session_reach (app_boot r a) (if ap_view (app_boot r a) = SignIn then Some (auth_mounted stored likely) else None)"
| typed: "session_reach a (Some f) \<Longrightarrow> session_reach a (Some (fst (auth_send ev f)))"
| answered: "session_reach a (Some f) \<Longrightarrow> session_reach a (Some (auth_settle r f))"
| signed_in: "session_reach a (Some f) \<Longrightarrow> success_reported f = Some ev \<Longrightarrow> session_reach (app_send ev a) None"
| signed_out: "session_reach a f \<Longrightarrow> ap_view a = Inventory \<Longrightarrow>
    session_reach (app_send Logout a) (Some (auth_mounted stored likely))"

text \<open>What the client keeps of the account and of the secrets.\<close>

definition form_clean :: "auth_machine \<Rightarrow> bool" where
  "form_clean f \<longleftrightarrow>
     (am_state f = AuthSuccess \<longrightarrow> ax_password (am_context f) = [] \<and> ax_totp (am_context f) = [] \<and> ax_error (am_context f) = None) \<and>
     (truthy (ax_cloud (am_context f)) \<longrightarrow> am_state f = AuthSuccess)"

lemma auth_assign_cloud [simp]: "ax_cloud (auth_assign ev c) = ax_cloud c"
  by (cases ev) simp_all

lemma has_cloud_key_truthy: "has_cloud_key cloud \<Longrightarrow> truthy cloud"
  by (cases cloud) (simp_all add: has_cloud_key_def)

lemma form_clean_mounted: "form_clean (auth_mounted stored likely)"
  by (simp add: form_clean_def auth_mounted_def auth_send_def auth_init_def)

lemma form_clean_send: "form_clean f \<Longrightarrow> form_clean (fst (auth_send ev f))"
  by (cases ev) (auto simp: form_clean_def auth_send_def can_submit_def)

lemma form_clean_settle: "form_clean f \<Longrightarrow> form_clean (auth_settle r f)"
  by (auto simp: form_clean_def auth_settle_def split: sum.split)

text \<open>What the client shows and keeps: while it asks for the account it shows the boot view and
  no account; the inventory is shown exactly with an account, the login form exactly without a key
  for one and then there is a form; and a form that has succeeded keeps neither the password nor the
  code, while a form that has not holds no account.\<close>

theorem session_views:
  assumes "session_reach a f"
  shows "(ap_view a = Booting \<longrightarrow> ap_cloud a = JNull) \<and> (ap_view a = Inventory \<longrightarrow> truthy (ap_cloud a)) \<and>
    (ap_view a = SignIn \<longrightarrow> \<not> has_cloud_key (ap_cloud a)) \<and> (ap_view a = SignIn \<longleftrightarrow> f \<noteq> None) \<and>
    (case f of None \<Rightarrow> True | Some g \<Rightarrow>
       if am_state g = AuthSuccess then ax_password (am_context g) = [] \<and> ax_totp (am_context g) = [] else \<not> truthy (ax_cloud (am_context g)))"
proof -
  have "(ap_view a = Booting \<longrightarrow> ap_cloud a = JNull) \<and> (ap_view a = Inventory \<longrightarrow> truthy (ap_cloud a)) \<and>
    (ap_view a = SignIn \<longrightarrow> \<not> has_cloud_key (ap_cloud a)) \<and> (ap_view a = SignIn \<longleftrightarrow> f \<noteq> None) \<and> (\<forall>g. f = Some g \<longrightarrow> form_clean g)"
    using assms
  proof (induction rule: session_reach.induct)
    case (booted a f r stored likely)
    then show ?case by (auto simp: app_boot_def Let_def form_clean_mounted dest: has_cloud_key_truthy)
  qed (auto simp: app_init_def form_clean_send form_clean_settle form_clean_mounted success_reported_def has_cloud_key_def split: if_splits)
  then show ?thesis by (auto simp: form_clean_def split: option.split)
qed

text \<open>A start without an account, a login, and the inventory.\<close>

definition demo_typed :: auth_machine where
  "demo_typed = fold (\<lambda>ev f. fst (auth_send ev f)) [SetEmail ''a@b'', SetPassword ''pw'', SetTotp ''123456'', Submit] (auth_mounted None RegionEu)"

lemma session_views_witness:
  "\<exists>a. session_reach a None \<and> ap_view a = Inventory \<and> truthy (ap_cloud a)"
proof -
  define r where "r = (Inl (TypeErr ''offline'') :: client_error + jsval)"
  define a where "a = app_boot r app_init"
  define f where "f = auth_settle (Inr (JObj [(''cloud'', JObj [(''key'', JStr ''k'')])])) demo_typed"
  have a: "ap_view a = SignIn" unfolding a_def r_def by code_simp
  have "session_reach a (Some (auth_mounted None RegionEu))"
    using session_reach.booted [OF session_reach.start, of r None RegionEu] a by (simp add: a_def app_init_def)
  then have "session_reach a (Some demo_typed)"
    unfolding demo_typed_def by (simp add: session_reach.typed)
  then have "session_reach a (Some f)" unfolding f_def by (rule session_reach.answered)
  moreover have "success_reported f = Some (LoginSuccess (JObj [(''key'', JStr ''k'')]))" unfolding f_def by code_simp
  ultimately have reach: "session_reach (app_send (LoginSuccess (JObj [(''key'', JStr ''k'')])) a) None" by (rule session_reach.signed_in)
  have "ap_view (app_send (LoginSuccess (JObj [(''key'', JStr ''k'')])) a) = Inventory" using a by simp
  with session_views [OF reach] reach show ?thesis by blast
qed

end
