(* ===== verification/Cli.thy ===== *)
theory Cli
  imports WebAuth
begin

text \<open>
  The commands of \<open>packages/cli/src/meross.ts\<close>: each is a function of its flags and the environment,
  with the flags as \<open>clerc\<close> delivers them. A run holds the result (an exception as its message), what
  it printed, the configuration it wrote, the requests to the cloud and to devices, the blocks it
  swept with pings and whether it sets a failing exit code. Numbers are the whole and finite ones a
  user means where the command does not check them; the debug output of a login is left out.
\<close>

section \<open>Environment and runs\<close>

text \<open>\<open>ci_host\<close> holds the configuration, the network and the interfaces; a sweep fills the tables, so
  the text of the two tables before it is given apart. \<open>ci_cloud i\<close> is the cloud at the \<open>i\<close>-th login.\<close>

record cli_env =
  ci_host :: host_env
  ci_arp_before :: string
  ci_neigh_before :: string
  ci_cloud :: "nat \<Rightarrow> cloud_env"
  ci_elapsed :: "nat \<Rightarrow> int"
  ci_timezone :: string
  ci_dump_env :: "string option"
  ci_dump_default :: string
  ci_file :: "string \<Rightarrow> string option"

text \<open>A line of text, or a value as JSON, indented or not.\<close>

datatype printed = Line string | Compact jsval | Indented jsval

record cli_run =
  cu_result :: "unit result"
  cu_printed :: "printed list"
  cu_written :: "jsval option"
  cu_calls :: "cloud_call list"
  cu_sent :: "lan_request list"
  cu_swept :: "string list"
  cu_failed :: bool

definition cli_ok :: cli_run where
  "cli_ok = \<lparr>cu_result = Inr (), cu_printed = [], cu_written = None, cu_calls = [], cu_sent = [], cu_swept = [], cu_failed = False\<rparr>"

definition cli_throw :: "string \<Rightarrow> cli_run" where
  "cli_throw message = cli_ok\<lparr>cu_result := Inl message\<rparr>"

definition cli_cfg :: "cli_env \<Rightarrow> jsval" where
  "cli_cfg e = he_cfg (ci_host e)"

section \<open>Keys and hosts\<close>

definition load_dump_maybe :: "cli_env \<Rightarrow> string option \<Rightarrow> jsval option" where
  "load_dump_maybe e given =
     (case ci_file e (or_else (first_some given (ci_dump_env e)) (ci_dump_default e)) of
        None \<Rightarrow> None
      | Some text \<Rightarrow> (case parse_meross_cloud_dump text of Inl _ \<Rightarrow> None | Inr dump \<Rightarrow> Some dump))"

definition pick_key :: "cli_env \<Rightarrow> string option \<Rightarrow> jsval option \<Rightarrow> string option" where
  "pick_key e given dump =
     first_some given (first_some (he_key (ci_host e)) (map_option (\<lambda>d. str_of (path d [''cloud'', ''key''])) dump))"

definition missing_key :: string where
  "missing_key = ''Missing Meross key. Pass '' @ Cloud.quoted ''--key'' @ '' or set MEROSS_KEY (or provide --dump with a cloud.key).''"

text \<open>The key of the flag, of the environment or of the dump; an empty one is an error.\<close>

definition with_cli_key :: "cli_env \<Rightarrow> string option \<Rightarrow> string option \<Rightarrow> (string \<Rightarrow> cli_run) \<Rightarrow> cli_run" where
  "with_cli_key e given dump f = (case pick_key e given (load_dump_maybe e dump) of
     None \<Rightarrow> cli_throw missing_key
   | Some key \<Rightarrow> if key = [] then cli_throw missing_key else f key)"

text \<open>The host of the flag, or of the tables for the address, before and after a sweep.\<close>

definition cli_resolve_host ::
  "cli_env \<Rightarrow> string option \<Rightarrow> string option \<Rightarrow> bool \<Rightarrow> string option \<Rightarrow> string option result \<times> string list" where
  "cli_resolve_host e host mac sweep subnet =
     (if or_else host [] \<noteq> [] then (Inr host, [])
      else if or_else mac [] = [] then (Inr None, [])
      else case resolve_ipv4_from_mac (ci_arp_before e) (ci_neigh_before e) (or_else mac []) of
          Inl message \<Rightarrow> (Inl message, [])
        | Inr ip \<Rightarrow>
            if or_else ip [] \<noteq> [] then (Inr ip, [])
            else if \<not> sweep \<or> or_else subnet [] = [] then (Inr None, [])
            else case list_hosts_in_cidr (or_else subnet []) of
                Inl message \<Rightarrow> (Inl message, [])
              | Inr _ \<Rightarrow> (resolve_ipv4_from_mac (he_arp (ci_host e)) (he_neigh (ci_host e)) (or_else mac []), [or_else subnet []]))"

section \<open>The cloud account\<close>

definition six_digits :: "string \<Rightarrow> bool" where
  "six_digits s \<longleftrightarrow> length s = 6 \<and> list_all is_digit s"

definition guess_region :: "string \<Rightarrow> string" where
  "guess_region tz =
     (if starts_with ''America/'' tz then ''us''
      else if starts_with ''Europe/'' tz then ''eu''
      else if starts_with ''Asia/'' tz \<or> starts_with ''Australia/'' tz \<or> starts_with ''Pacific/'' tz then ''ap''
      else ''global'')"

definition region_domains :: "(string \<times> string) list" where
  "region_domains = [(''global'', ''iotx.meross.com''), (''us'', ''iotx-us.meross.com''), (''eu'', ''iotx-eu.meross.com''), (''ap'', ''iotx-ap.meross.com'')]"

text \<open>\<open>Array.from(new Set(xs))\<close>\<close>

definition unique_strings :: "string list \<Rightarrow> string list" where
  "unique_strings xs = fold (\<lambda>x seen. if x \<in> set seen then seen else seen @ [x]) xs []"

definition debug_domains :: "string \<Rightarrow> string option \<Rightarrow> string list" where
  "debug_domains tz domain =
     (if or_else domain [] \<noteq> [] then [or_else domain []]
      else unique_strings (filter (\<lambda>d. d \<noteq> []) (List.map_filter (map_of region_domains) [guess_region tz, ''us'', ''eu'', ''ap'', ''global''])))"

definition valid_scheme :: "string \<Rightarrow> bool" where
  "valid_scheme s \<longleftrightarrow> s = ''https'' \<or> s = ''http''"

text \<open>The first and the last four characters around an ellipsis, as a pair.\<close>

definition key_preview :: "string \<Rightarrow> jsval" where
  "key_preview key = (if key = [] then JStr [] else JArr [JStr (take 4 key), JStr (slice_end 4 key)])"

record login_flags =
  lf_email :: string
  lf_password :: string
  lf_code :: string
  lf_domain :: "string option"
  lf_scheme :: string
  lf_timeout :: jsnum

definition cli_login_options :: "login_flags \<Rightarrow> string option \<Rightarrow> cloud_http_options" where
  "cli_login_options f domain =
     \<lparr>ho_timeout_ms = finite_num (lf_timeout f), ho_domain = domain, ho_scheme = Some (lf_scheme f), ho_encryption = None\<rparr>"

definition debug_login :: "cli_env \<Rightarrow> login_flags \<Rightarrow> nat \<Rightarrow> string \<Rightarrow> cloud_call list \<times> (cloud_error + cloud_creds)" where
  "debug_login e f i domain = meross_cloud_login (ci_cloud e i)
     \<lparr>lp_email = trim (lf_email f), lp_password = lf_password f, lp_mfa_code = Some (trim (lf_code f))\<rparr>
     (cli_login_options f (Some domain))"

definition debug_result :: "cli_env \<Rightarrow> nat \<Rightarrow> string \<Rightarrow> cloud_error + cloud_creds \<Rightarrow> jsval" where
  "debug_result e i domain r = JObj ((''domain'', JStr domain) # (case r of
     Inr creds \<Rightarrow> [(''ok'', JBool True), (''elapsedMs'', js_int (ci_elapsed e i)), (''userEmail'', JStr (cr_user_email creds)),
        (''userId'', JStr (cr_user_id creds)), (''keyPreview'', key_preview (cr_key creds))]
   | Inl err \<Rightarrow> [(''ok'', JBool False), (''elapsedMs'', js_int (ci_elapsed e i))]
        @ (case err of CloudError _ status info \<Rightarrow> [(''apiStatus'', json_of_status status), (''info'', info)] | OtherError _ \<Rightarrow> [])
        @ [(''error'', JStr (error_message err))]))"

text \<open>The loop over the domains: the requests, the results, and the credentials of the last success.\<close>

fun debug_loop ::
  "cli_env \<Rightarrow> login_flags \<Rightarrow> bool \<Rightarrow> nat \<Rightarrow> string list \<Rightarrow> cloud_call list \<times> jsval list \<times> cloud_creds option" where
  "debug_loop e f try_all i [] = ([], [], None)"
| "debug_loop e f try_all i (domain # rest) =
     (let (calls, r) = debug_login e f i domain;
          creds = (case r of Inl _ \<Rightarrow> None | Inr c \<Rightarrow> Some c)
      in if creds \<noteq> None \<and> \<not> try_all then (calls, [debug_result e i domain r], creds)
         else let (calls', results, later) = debug_loop e f try_all (Suc i) rest
              in (calls @ calls', debug_result e i domain r # results, first_some later creds))"

definition stored_account :: "cli_env \<Rightarrow> cloud_creds \<Rightarrow> jsval" where
  "stored_account e creds = with_field (cli_cfg e) ''cloud''
     (JObj (json_of_creds creds @ [(''updatedAt'', JStr (he_now_iso (ci_host e)))]))"

definition auth_debug :: "cli_env \<Rightarrow> login_flags \<Rightarrow> bool \<Rightarrow> bool \<Rightarrow> cli_run" where
  "auth_debug e f try_all write_config =
     (if \<not> six_digits (trim (lf_code f)) then cli_throw (''Invalid '' @ Cloud.quoted ''--mfaToken'' @ ''. Expected 6 digits.'')
      else if \<not> valid_scheme (lf_scheme f)
      then cli_throw (''Invalid '' @ Cloud.quoted ''--scheme'' @ ''. Expected '' @ Cloud.quoted ''https'' @ '' or '' @ Cloud.quoted ''http'' @ ''.'')
      else let domains = debug_domains (ci_timezone e) (lf_domain f);
               (calls, results, success) = debug_loop e f try_all 0 domains
           in cli_ok\<lparr>cu_calls := calls,
                cu_written := (if write_config then map_option (stored_account e) success else None),
                cu_printed := [Indented (JObj [(''timezone'', JStr (ci_timezone e)), (''candidates'', JArr (map JStr domains)),
                  (''results'', JArr results),
                  (''success'', case success of None \<Rightarrow> JNull | Some c \<Rightarrow> JObj [(''userEmail'', JStr (cr_user_email c)),
                     (''domain'', JStr (cr_domain c)), (''keyPreview'', JArr [JStr (take 4 (cr_key c)), JStr (slice_end 4 (cr_key c))])])])],
                cu_failed := (success = None)\<rparr>)"

definition cli_login :: "cli_env \<Rightarrow> login_flags \<Rightarrow> cli_run" where
  "cli_login e f =
     (if \<not> six_digits (trim (lf_code f)) then cli_throw (''Invalid '' @ Cloud.quoted ''--totp'' @ ''. Expected 6 digits.'')
      else if \<not> valid_scheme (lf_scheme f)
      then cli_throw (''Invalid '' @ Cloud.quoted ''--scheme'' @ ''. Expected '' @ Cloud.quoted ''https'' @ '' or '' @ Cloud.quoted ''http'' @ ''.'')
      else case meross_cloud_login (ci_cloud e 0)
             \<lparr>lp_email = lf_email f, lp_password = lf_password f, lp_mfa_code = Some (trim (lf_code f))\<rparr>
             (cli_login_options f (if or_else (lf_domain f) [] = [] then None else lf_domain f)) of
          (calls, Inl err) \<Rightarrow> (cli_throw (error_message err))\<lparr>cu_calls := calls\<rparr>
        | (calls, Inr creds) \<Rightarrow> cli_ok\<lparr>cu_calls := calls, cu_written := Some (stored_account e creds),
            cu_printed := [Compact (JObj [(''userEmail'', JStr (cr_user_email creds)), (''domain'', JStr (cr_domain creds)),
              (''key'', key_preview (cr_key creds))])]\<rparr>)"

definition cli_devices_refresh :: "cli_env \<Rightarrow> jsnum \<Rightarrow> bool \<Rightarrow> cli_run" where
  "cli_devices_refresh e timeout json =
     (if \<not> truthy (field (cli_cfg e) ''cloud'') then cli_throw ''Not logged in. Run meross:login first.''
      else case stored_creds (field (cli_cfg e) ''cloud'') of
          Inl message \<Rightarrow> cli_throw message
        | Inr creds \<Rightarrow> (case meross_cloud_list_devices (ci_cloud e 0) creds
              \<lparr>ho_timeout_ms = finite_num timeout, ho_domain = None, ho_scheme = None, ho_encryption = None\<rparr> of
            (calls, Inl err) \<Rightarrow> (cli_throw (error_message err))\<lparr>cu_calls := calls\<rparr>
          | (calls, Inr ds) \<Rightarrow> cli_ok\<lparr>cu_calls := calls,
              cu_written := Some (with_field (cli_cfg e) ''devices''
                (JObj [(''updatedAt'', JStr (he_now_iso (ci_host e))), (''list'', JArr ds)])),
              cu_printed := [if json then Indented (JArr ds) else Compact (JObj [(''count'', js_int (int (length ds)))])]\<rparr>))"

section \<open>Hosts and devices\<close>

text \<open>\<open>cfg.cloud?.key || process.env.MEROSS_KEY\<close>\<close>

definition discover_key :: "cli_env \<Rightarrow> string option" where
  "discover_key e = (let key = path (cli_cfg e) [''cloud'', ''key''] in
     if truthy key then Some (str_of key)
     else case he_key (ci_host e) of None \<Rightarrow> None | Some k \<Rightarrow> if k = [] then None else Some k)"

definition cli_discover :: "cli_env \<Rightarrow> string option \<Rightarrow> jsnum \<Rightarrow> jsnum \<Rightarrow> bool \<Rightarrow> string list \<Rightarrow> cli_run" where
  "cli_discover e cidr_flag timeout_flag concurrency json order =
     (case discover_key e of
        None \<Rightarrow> cli_throw ''Missing Meross key. Run meross:login (or set MEROSS_KEY).''
      | Some key \<Rightarrow>
         (let given = trim (or_else cidr_flag []);
              cidr = (if given \<noteq> [] then given else suggested (ci_host e))
          in if cidr = []
             then cli_throw (''Missing CIDR and no auto-suggested CIDR found. Pass '' @ Cloud.quoted ''--cidr <x.x.x.x/yy>'' @ ''.'')
             else case list_hosts_in_cidr cidr of
                 Inl _ \<Rightarrow> (cli_throw (''Invalid CIDR: '' @ cidr))\<lparr>cu_swept := [cidr]\<rparr>
               | Inr _ \<Rightarrow> (case discover_workers (JNum concurrency) of
                   Inl message \<Rightarrow> (cli_throw message)\<lparr>cu_swept := [cidr]\<rparr>
                 | Inr _ \<Rightarrow>
                    (let hosts = fold (add_found (ci_host e) key (discover_timeout (JNum timeout_flag))) order []
                     in cli_ok\<lparr>cu_swept := [cidr], cu_sent := map (\<lambda>ip. get_system_all ip key (Some (discover_timeout (JNum timeout_flag)))) order,
                          cu_written := Some (with_field (cli_cfg e) ''hosts'' (JObj (spread_over (spread (field (cli_cfg e) ''hosts'')) hosts))),
                          cu_printed := [if json then Indented (JObj [(''cidr'', JStr cidr), (''hosts'', JObj hosts)])
                            else Compact (JObj [(''cidr'', JStr cidr), (''count'', js_int (int (length hosts)))])]\<rparr>))))"

text \<open>The table of a dump: a device that is null or missing throws.\<close>

definition table_row :: "jsval \<Rightarrow> string list result" where
  "table_row d = (if nullish d then Inl ''Cannot read properties of null''
     else Inr (map (\<lambda>k. string_or_empty (field d k)) [''devName'', ''deviceType'', ''onlineStatus'', ''uuid'']))"

fun table_rows :: "jsval list \<Rightarrow> string list list result" where
  "table_rows [] = Inr []"
| "table_rows (d # ds) = and_then (table_row d) (\<lambda>r. and_then (table_rows ds) (\<lambda>rs. Inr (r # rs)))"

definition pad :: "string \<Rightarrow> nat \<Rightarrow> string" where
  "pad s n = (if n \<le> length s then take n s else s @ replicate (n - length s) (CHR '' ''))"

definition table_header :: "string list" where
  "table_header = [''NAME'', ''TYPE'', ''ONLINE'', ''UUID'']"

text \<open>The width of a column: its longest entry, at most the bound.\<close>

definition column_width :: "nat option \<Rightarrow> nat \<Rightarrow> string list list \<Rightarrow> nat" where
  "column_width bound i rows =
     (let w = fold max (map (\<lambda>r. length (r ! i)) rows) (length (table_header ! i))
      in case bound of None \<Rightarrow> w | Some b \<Rightarrow> min b w)"

definition column_widths :: "string list list \<Rightarrow> nat list" where
  "column_widths rows = [column_width (Some 36) 0 rows, column_width (Some 12) 1 rows, column_width (Some 10) 2 rows, column_width None 3 rows]"

definition table_line :: "nat list \<Rightarrow> string list \<Rightarrow> string" where
  "table_line widths row = join_with ''  '' (map2 pad row widths)"

definition devices_table :: "string list list \<Rightarrow> string list" where
  "devices_table rows = (let ws = column_widths rows in
     [table_line ws table_header, join_with ''  '' (map (\<lambda>n. replicate n (CHR ''-'')) ws)] @ map (table_line ws) rows)"

definition cli_devices :: "cli_env \<Rightarrow> string option \<Rightarrow> bool \<Rightarrow> cli_run" where
  "cli_devices e dump json =
     (let file = (if or_else dump [] \<noteq> [] then or_else dump [] else if or_else (ci_dump_env e) [] \<noteq> [] then or_else (ci_dump_env e) []
                  else ci_dump_default e)
      in case ci_file e file of
          None \<Rightarrow> cli_throw ''no such file or directory''
        | Some text \<Rightarrow> (case parse_meross_cloud_dump text of
            Inl message \<Rightarrow> cli_throw message
          | Inr d \<Rightarrow> if json then cli_ok\<lparr>cu_printed := [Indented d]\<rparr>
              else (case table_rows (as_array (field d ''devices'')) of
                  Inl message \<Rightarrow> cli_throw message
                | Inr rows \<Rightarrow> cli_ok\<lparr>cu_printed := map Line (devices_table rows)\<rparr>)))"

section \<open>Requests to one device\<close>

record target_flags =
  tf_host :: "string option"
  tf_mac :: "string option"
  tf_sweep :: bool
  tf_subnet :: "string option"
  tf_key :: "string option"
  tf_dump :: "string option"
  tf_timeout :: rat

definition cli_toggle_x :: "cli_env \<Rightarrow> target_flags \<Rightarrow> int \<Rightarrow> bool \<Rightarrow> bool \<Rightarrow> bool \<Rightarrow> cli_run" where
  "cli_toggle_x e f channel on off json =
     (if on = off then cli_throw (''Specify exactly one of '' @ Cloud.quoted ''--on'' @ '' or '' @ Cloud.quoted ''--off'' @ ''.'')
      else with_cli_key e (tf_key f) (tf_dump f) (\<lambda>key.
        (case cli_resolve_host e (tf_host f) (tf_mac f) (tf_sweep f) (tf_subnet f) of
           (Inl message, swept) \<Rightarrow> (cli_throw message)\<lparr>cu_swept := swept\<rparr>
         | (Inr host, swept) \<Rightarrow>
             if or_else host [] = []
             then (cli_throw (''Provide '' @ Cloud.quoted ''--host'' @ '' or '' @ Cloud.quoted ''--mac'' @ '' (and optionally ''
                    @ Cloud.quoted ''--sweep --subnet <cidr>'' @ '').''))\<lparr>cu_swept := swept\<rparr>
             else (let onoff = (if on then 1 else 0);
                       r = set_toggle_x (or_else host []) key (Some channel) onoff (Some (tf_timeout f))
                   in case he_lan (ci_host e) r of
                       Inl message \<Rightarrow> (cli_throw message)\<lparr>cu_swept := swept, cu_sent := [r]\<rparr>
                     | Inr resp \<Rightarrow> cli_ok\<lparr>cu_swept := swept, cu_sent := [r],
                         cu_printed := [if json then Indented resp
                           else Compact (JObj [(''host'', JStr (or_else host [])), (''channel'', js_int channel), (''onoff'', js_int (int onoff)),
                              (''error_code'', path resp [''payload'', ''error'', ''code''])])]\<rparr>))))"

text \<open>A request whose answer is printed: the key first, then the format is checked.\<close>

definition valid_format :: "string \<Rightarrow> bool" where
  "valid_format s \<longleftrightarrow> s = ''json'' \<or> s = ''pretty''"

definition print_answer :: "cli_env \<Rightarrow> string \<Rightarrow> lan_request \<Rightarrow> cli_run" where
  "print_answer e format r = (case he_lan (ci_host e) r of
     Inl message \<Rightarrow> (cli_throw message)\<lparr>cu_sent := [r]\<rparr>
   | Inr resp \<Rightarrow> cli_ok\<lparr>cu_sent := [r], cu_printed := [if format = ''json'' then Compact resp else Indented resp]\<rparr>)"

definition with_format :: "cli_env \<Rightarrow> target_flags \<Rightarrow> string \<Rightarrow> (string \<Rightarrow> cli_run) \<Rightarrow> cli_run" where
  "with_format e f format g = with_cli_key e (tf_key f) (tf_dump f) (\<lambda>key.
     if \<not> valid_format format
     then cli_throw (''Invalid '' @ Cloud.quoted ''--format'' @ ''. Expected '' @ Cloud.quoted ''json'' @ '' or '' @ Cloud.quoted ''pretty'' @ ''.'')
     else g key)"

definition cli_system_all :: "cli_env \<Rightarrow> target_flags \<Rightarrow> string \<Rightarrow> cli_run" where
  "cli_system_all e f format = with_format e f format (\<lambda>key.
     print_answer e format (get_system_all (or_else (tf_host f) []) key (Some (tf_timeout f))))"

definition cli_timer_get :: "cli_env \<Rightarrow> target_flags \<Rightarrow> string \<Rightarrow> string \<Rightarrow> cli_run" where
  "cli_timer_get e f tid format = with_format e f format (\<lambda>key.
     print_answer e format ((get_timer_x (or_else (tf_host f) []) key tid)\<lparr>lr_timeout := Some (tf_timeout f)\<rparr>))"

definition cli_timer_set :: "cli_env \<Rightarrow> target_flags \<Rightarrow> string \<Rightarrow> string \<Rightarrow> cli_run" where
  "cli_timer_set e f timer_text format = with_format e f format (\<lambda>key.
     (case json_parse timer_text of
        None \<Rightarrow> cli_throw ''Invalid --timer JSON''
      | Some timer \<Rightarrow>
          if \<not> is_record timer \<or> trim (string_or_empty (field timer ''id'')) = []
          then cli_throw (''Invalid --timer payload (expected an object with a non-empty '' @ Cloud.quoted ''id'' @ '')'')
          else print_answer e format ((set_timer_x (or_else (tf_host f) []) key timer)\<lparr>lr_timeout := Some (tf_timeout f)\<rparr>)))"

section \<open>Properties\<close>

lemma cli_throw_fields [simp]:
  "cu_result (cli_throw m) = Inl m" "cu_written (cli_throw m) = None" "cu_sent (cli_throw m) = []" "cu_calls (cli_throw m) = []"
  "cu_printed (cli_throw m) = []"
  by (simp_all add: cli_throw_def cli_ok_def)

lemma cli_ok_fields [simp]:
  "cu_result cli_ok = Inr ()" "cu_written cli_ok = None" "cu_sent cli_ok = []" "cu_calls cli_ok = []" "cu_printed cli_ok = []"
  by (simp_all add: cli_ok_def)

subsection \<open>Discovery\<close>

lemma discover_key_require:
  assumes "he_cfg_key (ci_host e) = cli_cfg e"
  shows "discover_key e = (case require_lan_key (he_cfg_key (ci_host e)) (he_key (ci_host e)) of Inl _ \<Rightarrow> None | Inr key \<Rightarrow> Some (str_of key))"
  using assms by (cases "he_key (ci_host e)") (auto simp: discover_key_def require_lan_key_def Let_def)

definition discover_body :: "string option \<Rightarrow> jsnum \<Rightarrow> jsnum \<Rightarrow> jsval" where
  "discover_body cidr timeout concurrency = JObj [(''cidr'', JStr (trim (or_else cidr []))),
     (''perHostTimeoutMs'', JNum timeout), (''concurrency'', JNum concurrency)]"

text \<open>C26. The command that discovers hosts and the handler of the service do the same: asked for the
  same block with the same figures, with the answers in the same order, one writes a configuration
  exactly when the other does, and it is the same one; the command prints the block with the hosts
  found, or their number, as the handler replies them, and otherwise both fail.\<close>

theorem cli_discover_like_handler:
  assumes "he_cfg_key (ci_host e) = he_cfg (ci_host e)" and "body_of req = discover_body cidr timeout concurrency"
  shows "let run = cli_discover e cidr timeout concurrency json order; handled = discover_hosts (ci_host e) req order
    in cu_written run = hr_written handled \<and>
      (case hr_response handled of
         Inr (ApiOk d) \<Rightarrow> cu_result run = Inr () \<and> cu_printed run =
           [if json then Indented (JObj [(''cidr'', field d ''cidr''), (''hosts'', field d ''hosts'')])
            else Compact (JObj [(''cidr'', field d ''cidr''), (''count'', field d ''count'')])]
       | _ \<Rightarrow> \<exists>message. cu_result run = Inl message)"
proof -
  have fields: "opt_string (field (discover_body cidr timeout concurrency) ''cidr'') = trim (or_else cidr [])"
    "field (discover_body cidr timeout concurrency) ''perHostTimeoutMs'' = JNum timeout"
    "field (discover_body cidr timeout concurrency) ''concurrency'' = JNum concurrency"
    by (simp_all add: discover_body_def opt_string_def truthy_str_def)
  have key: "discover_key e = (case require_lan_key (he_cfg_key (ci_host e)) (he_key (ci_host e)) of Inl _ \<Rightarrow> None | Inr key \<Rightarrow> Some (str_of key))"
    by (rule discover_key_require) (simp add: assms(1) cli_cfg_def)
  define block where "block = (if trim (or_else cidr []) \<noteq> [] then trim (or_else cidr []) else suggested (ci_host e))"
  note defs = cli_discover_def [of e cidr timeout concurrency json order, unfolded Let_def block_def [symmetric]]
    discover_hosts_def [of "ci_host e" req order, unfolded assms(2) fields Let_def block_def [symmetric]]
  show ?thesis
    unfolding Let_def defs key
    by (cases "require_lan_key (he_cfg_key (ci_host e)) (he_key (ci_host e))"; cases "list_hosts_in_cidr block"; cases "discover_workers (JNum concurrency)")
      (auto simp: with_key_def reply_def raise_error_def discovered_def cli_cfg_def)
qed

definition demo_cli :: cli_env where
  "demo_cli = \<lparr>ci_host = demo_host_env\<lparr>he_cfg := JObj [], he_scan := \<lambda>_ _ _ _. None\<rparr>, ci_arp_before = [], ci_neigh_before = [],
     ci_cloud = (\<lambda>i. demo_cloud\<lparr>ce_fetch := \<lambda>calls c. if i = 0 then Rejected ''timeout'' else Response 200 ''OK'' (Inr demo_grant) (Inl [])\<rparr>),
     ci_elapsed = int, ci_timezone = ''Europe/Rome'', ci_dump_env = None, ci_dump_default = [], ci_file = (\<lambda>_. None)\<rparr>"

definition demo_cli_request :: api_request where
  "demo_cli_request = \<lparr>ar_content_type = Some ''application/json'', ar_body = Some (discover_body (Some '' 10.0.0.4/30'') (Fin 900) (Fin 2))\<rparr>"

definition demo_cli_run :: cli_run where
  "demo_cli_run = cli_discover demo_cli (Some '' 10.0.0.4/30'') (Fin 900) (Fin 2) False [''10.0.0.5'', ''10.0.0.6'']"

lemma cli_discover_like_handler_witness:
  "cu_written demo_cli_run = hr_written (discover_hosts (ci_host demo_cli) demo_cli_request [''10.0.0.5'', ''10.0.0.6'']) \<and>
   cu_printed demo_cli_run = [Compact (JObj [(''cidr'', JStr ''10.0.0.4/30''), (''count'', js_int 1)])]"
proof -
  have "he_cfg_key (ci_host demo_cli) = he_cfg (ci_host demo_cli)"
    "body_of demo_cli_request = discover_body (Some '' 10.0.0.4/30'') (Fin 900) (Fin 2)"
    by code_simp+
  note law = cli_discover_like_handler [OF this, of False "[''10.0.0.5'', ''10.0.0.6'']", folded demo_cli_run_def]
  have "hr_response (discover_hosts (ci_host demo_cli) demo_cli_request [''10.0.0.5'', ''10.0.0.6'']) =
      Inr (ApiOk (JObj [(''cidr'', JStr ''10.0.0.4/30''), (''count'', js_int 1),
        (''hosts'', JObj [(''u1'', JObj [(''host'', JStr ''10.0.0.6''), (''updatedAt'', JStr ''now''), (''mac'', JStr ''c4:e7:ae:1a:c4:74'')])])]))"
    by code_simp
  with law show ?thesis by (simp add: Let_def)
qed

subsection \<open>Trying the regions\<close>

text \<open>Each region's domain is tried at most once, the guessed one first; and a guess is the client's.\<close>

lemma debug_domains_facts:
  "distinct (debug_domains tz domain)" "debug_domains tz domain \<noteq> []"
  "or_else domain [] = [] \<Longrightarrow> hd (debug_domains tz domain) = or_else (domain_for_region (or_else (region_of_timezone tz) RegionGlobal)) []"
  by (auto simp: debug_domains_def unique_strings_def guess_region_def region_domains_def List.map_filter_def region_of_timezone_def)

text \<open>What the login at one domain grants.\<close>

definition debug_granted :: "cli_env \<Rightarrow> login_flags \<Rightarrow> nat \<Rightarrow> string \<Rightarrow> cloud_creds option" where
  "debug_granted e f i domain = (case snd (debug_login e f i domain) of Inl _ \<Rightarrow> None | Inr creds \<Rightarrow> Some creds)"

text \<open>The last of the first \<open>n\<close> that is granted.\<close>

fun last_granted :: "(nat \<Rightarrow> 'a option) \<Rightarrow> nat \<Rightarrow> 'a option" where
  "last_granted g 0 = None"
| "last_granted g (Suc n) = first_some (g n) (last_granted g n)"

lemma last_granted_shift: "last_granted g (Suc n) = first_some (last_granted (\<lambda>j. g (Suc j)) n) (g 0)"
  by (induction n) (simp_all add: first_some_def split: option.splits)

lemma last_granted_None: "last_granted g n = None \<longleftrightarrow> (\<forall>j < n. g j = None)"
  by (induction n) (auto simp: first_some_def less_Suc_eq split: option.splits)

lemma last_granted_SomeD: "last_granted g n = Some c \<Longrightarrow> \<exists>j < n. g j = Some c \<and> (\<forall>k. j < k \<and> k < n \<longrightarrow> g k = None)"
  by (induction n) (auto simp: first_some_def less_Suc_eq split: option.splits)

definition tried :: "cli_env \<Rightarrow> login_flags \<Rightarrow> bool \<Rightarrow> nat \<Rightarrow> string list \<Rightarrow> nat \<Rightarrow> bool" where
  "tried e f try_all i ds n \<longleftrightarrow> n \<le> length ds \<and>
     debug_loop e f try_all i ds =
       (concat (map (\<lambda>j. fst (debug_login e f (i + j) (ds ! j))) [0..<n]),
        map (\<lambda>j. debug_result e (i + j) (ds ! j) (snd (debug_login e f (i + j) (ds ! j)))) [0..<n],
        last_granted (\<lambda>j. debug_granted e f (i + j) (ds ! j)) n) \<and>
     (n < length ds \<longrightarrow> \<not> try_all \<and> 0 < n \<and> debug_granted e f (i + (n - 1)) (ds ! (n - 1)) \<noteq> None) \<and>
     (\<not> try_all \<longrightarrow> (\<forall>j. Suc j < n \<longrightarrow> debug_granted e f (i + j) (ds ! j) = None))"

lemma debug_loop_tries: "\<exists>n. tried e f try_all i ds n"
proof (induction ds arbitrary: i)
  case (Cons d ds)
  obtain calls r where r: "debug_login e f i d = (calls, r)" by fastforce
  show ?case
  proof (cases "debug_granted e f i d \<noteq> None \<and> \<not> try_all")
    case True
    then have "tried e f try_all i (d # ds) 1" by (auto simp: tried_def r debug_granted_def split: sum.splits)
    then show ?thesis by blast
  next
    case False
    obtain n where n: "tried e f try_all (Suc i) ds n" using Cons by blast
    have g: "debug_granted e f i d = (case r of Inl _ \<Rightarrow> None | Inr c \<Rightarrow> Some c)" by (simp add: debug_granted_def r)
    have "tried e f try_all i (d # ds) (Suc n)"
      unfolding tried_def
    proof (intro conjI impI allI)
      show "debug_loop e f try_all i (d # ds) =
         (concat (map (\<lambda>j. fst (debug_login e f (i + j) ((d # ds) ! j))) [0..<Suc n]),
          map (\<lambda>j. debug_result e (i + j) ((d # ds) ! j) (snd (debug_login e f (i + j) ((d # ds) ! j)))) [0..<Suc n],
          last_granted (\<lambda>j. debug_granted e f (i + j) ((d # ds) ! j)) (Suc n))"
        using n False unfolding map_upt_Suc last_granted_shift tried_def by (auto simp: r g [symmetric] Let_def)
      show "debug_granted e f (i + j) ((d # ds) ! j) = None" if "\<not> try_all" "Suc j < Suc n" for j
        using n False that by (cases j) (auto simp: tried_def)
      show "debug_granted e f (i + (Suc n - 1)) ((d # ds) ! (Suc n - 1)) \<noteq> None" if "Suc n < length (d # ds)"
        using n that by (cases n) (auto simp: tried_def)
    qed (use n in \<open>auto simp: tried_def\<close>)
    then show ?thesis by blast
  qed
qed (rule exI [of _ 0], simp add: tried_def)

text \<open>Debugging the login: with a six-digit code and a known scheme, the domains of the regions
  are tried one after the other from the guessed one on, each at most once; without \<open>--try-all\<close> the
  first that grants the login is the last that is tried, and otherwise all are. A result is printed
  for each, the command fails exactly when none grants the login, and the configuration is written
  only on request, with the account of the last success. Otherwise nothing is sent.\<close>

theorem auth_debug_tries_regions:
  "let run = auth_debug e f try_all write_config; ds = debug_domains (ci_timezone e) (lf_domain f);
       granted = (\<lambda>j. debug_granted e f j (ds ! j))
   in distinct ds \<and>
     (if six_digits (trim (lf_code f)) \<and> valid_scheme (lf_scheme f)
      then \<exists>n. 0 < n \<and> n \<le> length ds \<and> (n = length ds \<or> (\<not> try_all \<and> granted (n - 1) \<noteq> None)) \<and>
        (try_all \<or> (\<forall>j < n - 1. granted j = None)) \<and>
        cu_calls run = concat (map (\<lambda>j. fst (debug_login e f j (ds ! j))) [0..<n]) \<and>
        (\<exists>d. cu_printed run = [Indented d] \<and> field d ''results'' = JArr (map (\<lambda>j. debug_result e j (ds ! j) (snd (debug_login e f j (ds ! j)))) [0..<n])) \<and>
        (cu_failed run \<longleftrightarrow> (\<forall>j < n. granted j = None)) \<and>
        (case cu_written run of
           None \<Rightarrow> \<not> write_config \<or> cu_failed run
         | Some cfg \<Rightarrow> write_config \<and> (\<exists>j < n. \<exists>creds. granted j = Some creds \<and> cfg = stored_account e creds \<and>
             (\<forall>k. j < k \<and> k < n \<longrightarrow> granted k = None)))
      else cu_calls run = [] \<and> cu_written run = None \<and> (\<exists>message. cu_result run = Inl message))"
proof -
  define ds where "ds = debug_domains (ci_timezone e) (lf_domain f)"
  have ds: "distinct ds" "ds \<noteq> []" by (simp_all add: ds_def debug_domains_facts)
  obtain n where n: "tried e f try_all 0 ds n" using debug_loop_tries by blast
  then have pos: "0 < n" using ds(2) by (cases n) (auto simp: tried_def)
  note loop = n [unfolded tried_def, THEN conjunct2, THEN conjunct1, simplified]
  note stop = n [unfolded tried_def, simplified]
  let ?g = "\<lambda>j. debug_granted e f j (ds ! j)"
  define run where "run = auth_debug e f try_all write_config"
  show ?thesis
  proof (cases "six_digits (trim (lf_code f)) \<and> valid_scheme (lf_scheme f)")
    case True
    have run: "cu_calls run = concat (map (\<lambda>j. fst (debug_login e f j (ds ! j))) [0..<n])"
      "\<exists>d. cu_printed run = [Indented d] \<and> field d ''results'' = JArr (map (\<lambda>j. debug_result e j (ds ! j) (snd (debug_login e f j (ds ! j)))) [0..<n])"
      "cu_failed run \<longleftrightarrow> (\<forall>j < n. ?g j = None)"
      "cu_written run = (if write_config then map_option (stored_account e) (last_granted ?g n) else None)"
      using True loop by (simp_all add: run_def auth_debug_def ds_def [symmetric] cli_ok_def last_granted_None [symmetric])
    have written: "case cu_written run of
           None \<Rightarrow> \<not> write_config \<or> cu_failed run
         | Some cfg \<Rightarrow> write_config \<and> (\<exists>j < n. \<exists>creds. ?g j = Some creds \<and> cfg = stored_account e creds \<and>
             (\<forall>k. j < k \<and> k < n \<longrightarrow> ?g k = None))"
      using last_granted_SomeD [of ?g n] last_granted_None [of ?g n] run(3,4) by (cases "last_granted ?g n") auto
    have "n \<le> length ds" "n = length ds \<or> \<not> try_all \<and> ?g (n - 1) \<noteq> None" "try_all \<or> (\<forall>j < n - 1. ?g j = None)"
      using stop pos by auto
    with pos run(1-3) written show ?thesis
      unfolding Let_def ds_def [symmetric] run_def [symmetric] if_P [OF True] by (intro conjI ds(1) exI [of _ n])
  next
    case False
    then show ?thesis using ds(1) unfolding Let_def ds_def [symmetric] if_not_P [OF False] by (auto simp: auth_debug_def)
  qed
qed

text \<open>A cloud whose European domain does not answer.\<close>

definition demo_flags :: login_flags where
  "demo_flags = \<lparr>lf_email = ''a@b'', lf_password = ''pw'', lf_code = ''123456'', lf_domain = None, lf_scheme = ''https'', lf_timeout = Fin 5000\<rparr>"

lemma auth_debug_tries_regions_witness:
  "\<not> cu_failed (auth_debug demo_cli demo_flags False True) \<and>
   (\<exists>creds. cu_written (auth_debug demo_cli demo_flags False True) = Some (stored_account demo_cli creds)) \<and>
   cu_calls (auth_debug demo_cli demo_flags False True) =
     fst (debug_login demo_cli demo_flags 0 ''iotx-eu.meross.com'') @ fst (debug_login demo_cli demo_flags 1 ''iotx-us.meross.com'')"
proof -
  let ?run = "auth_debug demo_cli demo_flags False True"
  let ?ds = "[''iotx-eu.meross.com'', ''iotx-us.meross.com'', ''iotx-ap.meross.com'', ''iotx.meross.com'']"
  have ds: "debug_domains (ci_timezone demo_cli) (lf_domain demo_flags) = ?ds" by code_simp
  have ok: "six_digits (trim (lf_code demo_flags)) \<and> valid_scheme (lf_scheme demo_flags)" by code_simp
  have granted: "debug_granted demo_cli demo_flags 0 ''iotx-eu.meross.com'' = None"
    "debug_granted demo_cli demo_flags 1 ''iotx-us.meross.com'' \<noteq> None" by code_simp+
  note law = auth_debug_tries_regions [of demo_cli demo_flags False True, unfolded Let_def ds if_P [OF ok], THEN conjunct2]
  then obtain n where n: "0 < n" "n = length ?ds \<or> debug_granted demo_cli demo_flags (n - 1) (?ds ! (n - 1)) \<noteq> None"
    "\<forall>j < n - 1. debug_granted demo_cli demo_flags j (?ds ! j) = None"
    and calls: "cu_calls ?run = concat (map (\<lambda>j. fst (debug_login demo_cli demo_flags j (?ds ! j))) [0..<n])"
    and failed: "cu_failed ?run \<longleftrightarrow> (\<forall>j < n. debug_granted demo_cli demo_flags j (?ds ! j) = None)"
    and written: "case cu_written ?run of None \<Rightarrow> \<not> True \<or> cu_failed ?run
       | Some cfg \<Rightarrow> True \<and> (\<exists>j < n. \<exists>creds. debug_granted demo_cli demo_flags j (?ds ! j) = Some creds \<and> cfg = stored_account demo_cli creds \<and>
           (\<forall>k. j < k \<and> k < n \<longrightarrow> debug_granted demo_cli demo_flags k (?ds ! k) = None))"
    by blast
  have two: "n = 2"
  proof (rule ccontr)
    assume "n \<noteq> 2"
    with n(1) consider "n = 1" | "1 < n - 1" by linarith
    then show False using n(2,3) granted by cases auto
  qed
  have "\<not> cu_failed ?run" unfolding failed two using granted(2) by (auto intro: exI [of _ 1])
  moreover have "[0..<2] = [0, 1]" by (simp add: upt_rec)
  ultimately show ?thesis using calls written unfolding two by (auto split: option.splits)
qed

end
