(* ===== verification/Tui.thy ===== *)
theory Tui
  imports Cli
begin

text \<open>
  The terminal interface, \<open>packages/cli/src/tui.tsx\<close>: the state of its component, the keys, and the
  requests it sends to the cloud and to devices.

  \<open>tui_key\<close> is the reaction to a key, \<open>tui_settle\<close> to the end of a request. A task is a request under
  way with what the callback that sent it had captured: the configuration and the block of the render
  it was made in, not those of the moment it ends. \<open>tui_rendered\<close> is the render that follows each of
  these, with the two effects of the component; the renderer may run more renders in between, which
  only repeats the effects. Saving the configuration is part of the step that writes it.
\<close>

section \<open>State and tasks\<close>

datatype tui_phase = PhBoot | PhLogin | PhHydrating | PhInventory | PhDiagnostics
datatype tui_focus = FocusEmail | FocusPassword | FocusTotp | FocusSubmit

record tui =
  tu_phase :: tui_phase
  tu_cfg :: jsval
  tu_error :: "string option"
  tu_busy :: "string option"
  tu_devices :: "jsval list"
  tu_hosts :: jsval
  tu_cidr :: string
  tu_selected :: "string option"
  tu_expanded :: "string option"
  tu_diag :: "(string \<times> string \<times> string) option"
  tu_email :: string
  tu_password :: string
  tu_totp :: string
  tu_use_env :: bool
  tu_advanced :: bool
  tu_focus :: tui_focus

text \<open>The environment: that of a command, the configuration as \<open>load\<close> reads it or the message of its
  failure, and the account of the environment variables.\<close>

record tui_env =
  te_config :: "jsval result"
  te_cli :: cli_env
  te_email :: string
  te_password :: string

text \<open>A flag tells whether the request is part of \<open>hydrate\<close>; the configuration and the block are those
  of the closure.\<close>

datatype tui_task =
    TLoad
  | TList bool jsval string
  | TScan bool jsval string string
  | TLogin jsval login_params
  | TToggle lan_request
  | TDiagnose string string lan_request

text \<open>What a step comes to: the state, the tasks it started, the configurations it wrote, and whether it
  ends the program, by an exit or by a rejected promise nobody handles.\<close>

datatype tui_end = GoesOn | Exits | Crashes string

record tui_step =
  ts_state :: tui
  ts_tasks :: "tui_task list"
  ts_written :: "jsval option"
  ts_end :: tui_end

definition stay :: "tui \<Rightarrow> tui_step" where
  "stay s = \<lparr>ts_state = s, ts_tasks = [], ts_written = None, ts_end = GoesOn\<rparr>"

definition begin_task :: "tui_task \<Rightarrow> tui \<Rightarrow> tui_step" where
  "begin_task t s = (stay s)\<lparr>ts_tasks := [t]\<rparr>"

definition tui_init :: tui where
  "tui_init = \<lparr>tu_phase = PhBoot, tu_cfg = JNull, tu_error = None, tu_busy = Some ''loading'', tu_devices = [], tu_hosts = JObj [],
     tu_cidr = [], tu_selected = None, tu_expanded = None, tu_diag = None, tu_email = [], tu_password = [], tu_totp = [],
     tu_use_env = False, tu_advanced = False, tu_focus = FocusEmail\<rparr>"

section \<open>The list\<close>

definition tui_flat :: "(string \<Rightarrow> string \<Rightarrow> int) \<Rightarrow> tui \<Rightarrow> string list" where
  "tui_flat lc s = (case group_devices_for_control lc (tu_devices s) (tu_hosts s) of
     (ready, inaccessible) \<Rightarrow> map iv_uuid ready @ map iv_uuid inaccessible)"

definition first_of :: "string list \<Rightarrow> string option" where
  "first_of xs = (case xs of [] \<Rightarrow> None | x # _ \<Rightarrow> Some x)"

text \<open>The effect that keeps the selection in the list.\<close>

definition keep_selection :: "string list \<Rightarrow> tui \<Rightarrow> tui" where
  "keep_selection flat s = (if or_else (tu_selected s) [] = [] then s\<lparr>tu_selected := first_of flat\<rparr>
     else if or_else (tu_selected s) [] \<notin> set flat then s\<lparr>tu_selected := first_of flat\<rparr> else s)"

text \<open>\<open>Math.max(0, xs.findIndex(p))\<close>\<close>

fun find_index :: "('a \<Rightarrow> bool) \<Rightarrow> 'a list \<Rightarrow> nat option" where
  "find_index p [] = None"
| "find_index p (x # xs) = (if p x then Some 0 else map_option Suc (find_index p xs))"

definition index_of :: "('a \<Rightarrow> bool) \<Rightarrow> 'a list \<Rightarrow> nat" where
  "index_of p xs = or_else (find_index p xs) 0"

definition select_next :: "string list \<Rightarrow> tui \<Rightarrow> tui" where
  "select_next flat s = (if flat = [] then s else s\<lparr>tu_selected := Some (flat ! min (length flat - 1) (index_of (\<lambda>u. tu_selected s = Some u) flat + 1))\<rparr>)"

definition select_previous :: "string list \<Rightarrow> tui \<Rightarrow> tui" where
  "select_previous flat s = (if flat = [] then s else s\<lparr>tu_selected := Some (flat ! (index_of (\<lambda>u. tu_selected s = Some u) flat - 1))\<rparr>)"

section \<open>Requests\<close>

text \<open>A failure inside \<open>try\<close>: shown, and the inventory is, too, when it was part of \<open>hydrate\<close>.\<close>

definition tui_fail :: "bool \<Rightarrow> string \<Rightarrow> tui \<Rightarrow> tui" where
  "tui_fail hyd message s = s\<lparr>tu_phase := (if hyd then PhInventory else tu_phase s), tu_error := Some message, tu_busy := None\<rparr>"

text \<open>\<open>refreshDevices\<close> up to its request, from a handler that has cleared the error.\<close>

definition begin_list :: "bool \<Rightarrow> tui \<Rightarrow> tui_step" where
  "begin_list hyd s0 = (let s = s0\<lparr>tu_error := None\<rparr> in
     if \<not> truthy (field (tu_cfg s) ''cloud'') then stay (tui_fail hyd ''Not logged in (missing cloud creds).'' s)
     else begin_task (TList hyd (tu_cfg s) (tu_cidr s)) (s\<lparr>tu_busy := Some ''refreshing devices''\<rparr>))"

definition lan_key :: "tui_env \<Rightarrow> jsval \<Rightarrow> string option" where
  "lan_key e cfg = (let key = path cfg [''cloud'', ''key''] in
     if truthy key then Some (str_of key)
     else case he_key (ci_host (te_cli e)) of None \<Rightarrow> None | Some k \<Rightarrow> if k = [] then None else Some k)"

definition effective_cidr :: "tui_env \<Rightarrow> string \<Rightarrow> string" where
  "effective_cidr e cidr = (if trim cidr \<noteq> [] then trim cidr else suggested (ci_host (te_cli e)))"

text \<open>\<open>discoverHosts\<close> up to its requests.\<close>

definition begin_scan :: "tui_env \<Rightarrow> bool \<Rightarrow> jsval \<Rightarrow> string \<Rightarrow> tui \<Rightarrow> tui_step" where
  "begin_scan e hyd cfg cidr s =
     (case lan_key e cfg of
        None \<Rightarrow> stay (tui_fail hyd ''Missing Meross key (cloud not linked and MEROSS_KEY not set).'' s)
      | Some key \<Rightarrow>
          if effective_cidr e cidr = []
          then stay (tui_fail hyd (''Missing CIDR and no auto-suggested CIDR found. Set CIDR or pass '' @ Cloud.quoted ''--cidr'' @ ''.'') s)
          else begin_task (TScan hyd cfg cidr key) (s\<lparr>tu_busy := Some (''scanning '' @ effective_cidr e cidr)\<rparr>))"

section \<open>The end of a request\<close>

text \<open>What comes back: the devices, the order in which the hosts answered, the
  credentials, or the answer of a device; a failure is its message.\<close>

datatype tui_reply = Listed "jsval list" | Scanned "string list" | LoggedIn cloud_creds | Answered jsval | TuiFailed string

definition scan_found :: "tui_env \<Rightarrow> string \<Rightarrow> string list \<Rightarrow> (string \<times> jsval) list" where
  "scan_found e key order = fold (add_found (ci_host (te_cli e)) key 900) order []"

definition with_hosts :: "jsval \<Rightarrow> (string \<times> jsval) list \<Rightarrow> jsval" where
  "with_hosts cfg hosts = with_field cfg ''hosts'' (JObj (spread_over (spread (field cfg ''hosts'')) hosts))"

text \<open>\<open>load\<close> after its request.\<close>

definition loaded :: "jsval \<Rightarrow> tui \<Rightarrow> tui" where
  "loaded cfg s = s\<lparr>tu_cfg := cfg, tu_devices := (case nn (path cfg [''devices'', ''list'']) (JArr []) of JArr ds \<Rightarrow> ds | _ \<Rightarrow> []),
     tu_hosts := nn (field cfg ''hosts'') (JObj []), tu_phase := (if truthy (path cfg [''cloud'', ''key'']) then PhHydrating else PhLogin),
     tu_busy := None\<rparr>"

definition load_failed :: "string \<Rightarrow> tui \<Rightarrow> tui" where
  "load_failed message s = s\<lparr>tu_cfg := JObj [], tu_devices := [], tu_hosts := JObj [], tu_phase := PhLogin, tu_error := Some message, tu_busy := None\<rparr>"

text \<open>\<open>refreshDevices\<close> after its request; within \<open>hydrate\<close> the search follows, with the same closure.\<close>

definition listed :: "tui_env \<Rightarrow> bool \<Rightarrow> jsval \<Rightarrow> string \<Rightarrow> jsval list \<Rightarrow> tui \<Rightarrow> tui_step" where
  "listed e hyd cfg cidr ds s =
     (let next = with_field cfg ''devices'' (JObj [(''updatedAt'', JStr (he_now_iso (ci_host (te_cli e)))), (''list'', JArr ds)]);
          s1 = s\<lparr>tu_cfg := next, tu_devices := ds\<rparr>
      in (if hyd then begin_scan e True cfg cidr s1 else stay (s1\<lparr>tu_busy := None\<rparr>))\<lparr>ts_written := Some next\<rparr>)"

text \<open>\<open>discoverHosts\<close> after its requests.\<close>

definition scanned :: "tui_env \<Rightarrow> bool \<Rightarrow> jsval \<Rightarrow> string \<Rightarrow> string \<Rightarrow> string list \<Rightarrow> tui \<Rightarrow> tui_step" where
  "scanned e hyd cfg cidr key order s =
     (case list_hosts_in_cidr (effective_cidr e cidr) of
        Inl message \<Rightarrow> stay (tui_fail hyd message s)
      | Inr _ \<Rightarrow> (let next = with_hosts cfg (scan_found e key order) in
          (stay (s\<lparr>tu_cfg := next, tu_hosts := field next ''hosts'',
             tu_cidr := (if trim cidr = [] then effective_cidr e cidr else tu_cidr s),
             tu_phase := (if hyd then PhInventory else tu_phase s), tu_busy := None\<rparr>))\<lparr>ts_written := Some next\<rparr>))"

definition tui_logged_in :: "tui_env \<Rightarrow> jsval \<Rightarrow> cloud_creds \<Rightarrow> tui \<Rightarrow> tui_step" where
  "tui_logged_in e cfg creds s =
     (let next = with_field cfg ''cloud'' (JObj (json_of_creds creds @ [(''updatedAt'', JStr (he_now_iso (ci_host (te_cli e))))]))
      in (stay (s\<lparr>tu_cfg := next, tu_phase := PhHydrating, tu_busy := None\<rparr>))\<lparr>ts_written := Some next\<rparr>)"

text \<open>A task with a reply it cannot have leaves the state as it is.\<close>

fun tui_end_task :: "tui_env \<Rightarrow> tui_task \<Rightarrow> tui_reply \<Rightarrow> tui \<Rightarrow> tui_step" where
  "tui_end_task e TLoad r s = stay (case te_config e of Inr cfg \<Rightarrow> loaded cfg s | Inl m \<Rightarrow> load_failed m s)"
| "tui_end_task e (TList hyd cfg cidr) (Listed ds) s = listed e hyd cfg cidr ds s"
| "tui_end_task e (TList hyd cfg cidr) (TuiFailed m) s = stay (tui_fail hyd m s)"
| "tui_end_task e (TScan hyd cfg cidr key) (Scanned order) s = scanned e hyd cfg cidr key order s"
| "tui_end_task e (TLogin cfg params) (LoggedIn creds) s = tui_logged_in e cfg creds s"
| "tui_end_task e (TLogin cfg params) (TuiFailed m) s = stay (tui_fail False m s)"
| "tui_end_task e (TToggle r) (Answered _) s = stay (s\<lparr>tu_busy := None\<rparr>)"
| "tui_end_task e (TToggle r) (TuiFailed m) s = stay (tui_fail False m s)"
| "tui_end_task e (TDiagnose uuid host r) (Answered v) s =
     stay (s\<lparr>tu_diag := Some (uuid, host, json_stringify 2 v), tu_phase := PhDiagnostics, tu_busy := None\<rparr>)"
| "tui_end_task e (TDiagnose uuid host r) (TuiFailed m) s = stay (tui_fail False m s)"
| "tui_end_task e t r s = stay s"

section \<open>The login form\<close>

definition env_ready :: "tui_env \<Rightarrow> bool" where
  "env_ready e \<longleftrightarrow> te_email e \<noteq> [] \<and> te_password e \<noteq> []"

definition totp_ok :: "tui \<Rightarrow> bool" where
  "totp_ok s = six_digits (trim (tu_totp s))"

definition can_submit_login :: "tui_env \<Rightarrow> tui \<Rightarrow> bool" where
  "can_submit_login e s \<longleftrightarrow> totp_ok s \<and> (if tu_use_env s then env_ready e else trim (tu_email s) \<noteq> [] \<and> tu_password s \<noteq> [])"

definition typed_login :: "tui_env \<Rightarrow> tui \<Rightarrow> login_params" where
  "typed_login e s = \<lparr>lp_email = (if tu_use_env s then te_email e else trim (tu_email s)),
     lp_password = (if tu_use_env s then te_password e else tu_password s), lp_mfa_code = Some (trim (tu_totp s))\<rparr>"

definition do_login :: "tui_env \<Rightarrow> tui \<Rightarrow> tui_step" where
  "do_login e s = (if \<not> can_submit_login e s then stay s
     else begin_task (TLogin (tu_cfg s) (typed_login e s)) (s\<lparr>tu_busy := Some ''logging in'', tu_error := None\<rparr>))"

definition focus_order :: "bool \<Rightarrow> tui_focus list" where
  "focus_order use_env = (if use_env then [FocusTotp, FocusSubmit] else [FocusEmail, FocusPassword, FocusTotp, FocusSubmit])"

definition focus_index :: "bool \<Rightarrow> tui_focus \<Rightarrow> nat" where
  "focus_index use_env f = index_of (\<lambda>g. g = f) (focus_order use_env)"

definition focus_next :: "tui \<Rightarrow> tui" where
  "focus_next s = (let order = focus_order (tu_use_env s); i = focus_index (tu_use_env s) (tu_focus s) in
     s\<lparr>tu_focus := order ! ((i + 1) mod length order)\<rparr>)"

definition focus_previous :: "tui \<Rightarrow> tui" where
  "focus_previous s = (let order = focus_order (tu_use_env s); i = focus_index (tu_use_env s) (tu_focus s) in
     s\<lparr>tu_focus := order ! ((i + length order - 1) mod length order)\<rparr>)"

definition erase :: "tui \<Rightarrow> tui" where
  "erase s = (case tu_focus s of
     FocusEmail \<Rightarrow> s\<lparr>tu_email := butlast (tu_email s)\<rparr>
   | FocusPassword \<Rightarrow> s\<lparr>tu_password := butlast (tu_password s)\<rparr>
   | FocusTotp \<Rightarrow> s\<lparr>tu_totp := butlast (tu_totp s)\<rparr>
   | FocusSubmit \<Rightarrow> s)"

definition type_text :: "string \<Rightarrow> tui \<Rightarrow> tui" where
  "type_text input s = (case tu_focus s of
     FocusEmail \<Rightarrow> s\<lparr>tu_email := tu_email s @ input\<rparr>
   | FocusPassword \<Rightarrow> s\<lparr>tu_password := tu_password s @ input\<rparr>
   | FocusTotp \<Rightarrow> s\<lparr>tu_totp := take 6 (filter is_digit (tu_totp s @ input))\<rparr>
   | FocusSubmit \<Rightarrow> s)"

section \<open>Requests to the selected device\<close>

text \<open>Outside \<open>try\<close>: the promise is rejected, and nothing handles it.\<close>

definition with_selected :: "tui_env \<Rightarrow> tui \<Rightarrow> (string \<Rightarrow> string \<Rightarrow> string \<Rightarrow> tui_step) \<Rightarrow> tui_step" where
  "with_selected e s f = (case lan_key e (tu_cfg s) of
     None \<Rightarrow> (stay s)\<lparr>ts_end := Crashes ''Missing Meross key.''\<rparr>
   | Some key \<Rightarrow> (let uuid = or_else (tu_selected s) []; host = path (tu_hosts s) [uuid, ''host''] in
       if uuid = [] \<or> \<not> truthy host then (stay s)\<lparr>ts_end := Crashes ''No host known for selection. Scan LAN first.''\<rparr>
       else f uuid (str_of host) key))"

definition do_toggle :: "tui_env \<Rightarrow> nat \<Rightarrow> tui \<Rightarrow> tui_step" where
  "do_toggle e onoff s = with_selected e s (\<lambda>uuid host key.
     begin_task (TToggle (set_toggle_x host key (Some 0) onoff (Some 5000)))
       (s\<lparr>tu_busy := Some (if onoff = 1 then ''turning on'' else ''turning off''), tu_error := None\<rparr>))"

definition do_diagnostics :: "tui_env \<Rightarrow> tui \<Rightarrow> tui_step" where
  "do_diagnostics e s = with_selected e s (\<lambda>uuid host key.
     begin_task (TDiagnose uuid host (get_system_all host key (Some 5000))) (s\<lparr>tu_busy := Some ''fetching diagnostics'', tu_error := None\<rparr>))"

section \<open>Keys\<close>

text \<open>The text of a key press, and the named key it is, if any.\<close>

datatype named_key = KeyNone | KeyEscape | KeyTab | KeyUp | KeyDown | KeyReturn | KeyErase

definition login_key :: "tui_env \<Rightarrow> string \<Rightarrow> named_key \<Rightarrow> tui \<Rightarrow> tui_step" where
  "login_key e input key s =
     (if input = ''a'' then stay (s\<lparr>tu_advanced := \<not> tu_advanced s\<rparr>)
      else if tu_advanced s \<and> input = ''e''
      then stay (s\<lparr>tu_use_env := \<not> tu_use_env s, tu_focus := (if tu_use_env s then tu_focus s else FocusTotp)\<rparr>)
      else if key = KeyTab \<or> key = KeyDown \<or> input = ''j'' then stay (focus_next s)
      else if key = KeyUp \<or> input = ''k'' then stay (focus_previous s)
      else if key = KeyReturn then (if tu_focus s = FocusSubmit then do_login e s else stay s)
      else if tu_focus s = FocusSubmit then stay s
      else if key = KeyErase then stay (erase s)
      else if input = [] then stay s
      else stay (type_text input s))"

definition inventory_key :: "tui_env \<Rightarrow> string \<Rightarrow> named_key \<Rightarrow> tui \<Rightarrow> tui_step" where
  "inventory_key e input key s =
     (let flat = tui_flat (he_lc (ci_host (te_cli e))) s in
      if input = ''r'' then begin_list False s
      else if input = ''s'' then begin_scan e False (tu_cfg s) (tu_cidr s) (s\<lparr>tu_error := None\<rparr>)
      else if key = KeyDown \<or> input = ''j'' then stay (select_next flat s)
      else if key = KeyUp \<or> input = ''k'' then stay (select_previous flat s)
      else if key = KeyReturn then (if or_else (tu_selected s) [] = [] then stay s
        else stay (s\<lparr>tu_expanded := (if tu_expanded s = tu_selected s then None else tu_selected s)\<rparr>))
      else if input = ''o'' then do_toggle e 1 s
      else if input = ''f'' then do_toggle e 0 s
      else if input = ''d'' then do_diagnostics e s
      else stay s)"

definition tui_key :: "tui_env \<Rightarrow> string \<Rightarrow> named_key \<Rightarrow> tui \<Rightarrow> tui_step" where
  "tui_key e input key s =
     (if input = ''q'' \<or> key = KeyEscape
      then (if tu_phase s = PhDiagnostics then stay (s\<lparr>tu_phase := PhInventory, tu_diag := None\<rparr>) else (stay s)\<lparr>ts_end := Exits\<rparr>)
      else if tu_phase s = PhLogin then login_key e input key s
      else if tu_phase s = PhInventory then inventory_key e input key s
      else stay s)"

section \<open>Renders and runs\<close>

text \<open>The effects of a render: the selection is kept in the list, and the devices and hosts are fetched
  when the phase has become \<open>hydrating\<close>, or is and the configuration or the block has been set.\<close>

definition tui_rendered :: "tui_env \<Rightarrow> bool \<Rightarrow> tui \<Rightarrow> tui_step \<Rightarrow> tui_step" where
  "tui_rendered e cfg_set before r =
     (let s = keep_selection (tui_flat (he_lc (ci_host (te_cli e))) (ts_state r)) (ts_state r) in
      if tu_phase s = PhHydrating \<and> (tu_phase before \<noteq> PhHydrating \<or> cfg_set \<or> tu_cidr s \<noteq> tu_cidr before)
      then let h = begin_list True s in h\<lparr>ts_tasks := ts_tasks r @ ts_tasks h, ts_written := ts_written r, ts_end := ts_end r\<rparr>
      else r\<lparr>ts_state := s\<rparr>)"

definition tui_press :: "tui_env \<Rightarrow> string \<Rightarrow> named_key \<Rightarrow> tui \<Rightarrow> tui_step" where
  "tui_press e input key s = tui_rendered e False s (tui_key e input key s)"

text \<open>Every step that writes the configuration sets it, and \<open>load\<close> does.\<close>

definition tui_settle :: "tui_env \<Rightarrow> tui_task \<Rightarrow> tui_reply \<Rightarrow> tui \<Rightarrow> tui_step" where
  "tui_settle e t r s = (let st = tui_end_task e t r s in tui_rendered e (ts_written st \<noteq> None \<or> t = TLoad) s st)"

text \<open>A run of a program that has not ended: its state, the requests under way and the configurations
  written, the last one first.\<close>

inductive tui_reach :: "tui_env \<Rightarrow> tui \<Rightarrow> tui_task list \<Rightarrow> jsval list \<Rightarrow> bool" for e where
  start: "tui_reach e tui_init [TLoad] []"
| pressed: "tui_reach e s ts ws \<Longrightarrow> tui_press e input key s = st \<Longrightarrow> ts_end st = GoesOn \<Longrightarrow>
     tui_reach e (ts_state st) (ts @ ts_tasks st) ws"
| settled: "tui_reach e s ts ws \<Longrightarrow> t \<in> set ts \<Longrightarrow> tui_settle e t r s = st \<Longrightarrow>
     tui_reach e (ts_state st) (remove1 t ts @ ts_tasks st) (case ts_written st of None \<Rightarrow> ws | Some w \<Rightarrow> w # ws)"

section \<open>Properties\<close>

subsection \<open>The state\<close>

lemma find_index_bound: "find_index p xs = Some i \<Longrightarrow> i < length xs \<and> p (xs ! i)"
  by (induction xs arbitrary: i) (auto split: if_splits)

lemma index_of_bound: "xs \<noteq> [] \<Longrightarrow> index_of p xs < length xs"
  using find_index_bound [of p xs] by (cases "find_index p xs") (auto simp: index_of_def)

text \<open>What the steps keep: the selection is in the list, the code is a code or the beginning of one, the
  focus is on a field that is shown, and the diagnostics are there when they are shown.\<close>

definition selection_ok :: "tui_env \<Rightarrow> tui \<Rightarrow> bool" where
  "selection_ok e s \<longleftrightarrow> (let flat = tui_flat (he_lc (ci_host (te_cli e))) s in
     (tu_selected s = None \<and> flat = []) \<or> (\<exists>u\<in>set flat. tu_selected s = Some u))"

definition fields_ok :: "tui \<Rightarrow> bool" where
  "fields_ok s \<longleftrightarrow> length (tu_totp s) \<le> 6 \<and> list_all is_digit (tu_totp s) \<and> tu_focus s \<in> set (focus_order (tu_use_env s)) \<and>
     (tu_phase s = PhDiagnostics \<longrightarrow> tu_diag s \<noteq> None)"

lemma flat_nonempty_names: "[] \<notin> set (tui_flat lc s)"
proof -
  obtain ready inaccessible where g: "group_devices_for_control lc (tu_devices s) (tu_hosts s) = (ready, inaccessible)" by fastforce
  then show ?thesis using grouped_device(3) [OF g] by (fastforce simp: tui_flat_def)
qed

lemma tui_flat_cong: "tu_devices s = tu_devices s' \<Longrightarrow> tu_hosts s = tu_hosts s' \<Longrightarrow> tui_flat lc s = tui_flat lc s'"
  by (simp add: tui_flat_def)

lemma keep_selection_fields [simp]:
  "tu_devices (keep_selection flat s) = tu_devices s" "tu_hosts (keep_selection flat s) = tu_hosts s"
  "tu_phase (keep_selection flat s) = tu_phase s" "tu_cfg (keep_selection flat s) = tu_cfg s" "tu_cidr (keep_selection flat s) = tu_cidr s"
  "fields_ok (keep_selection flat s) = fields_ok s"
  by (simp_all add: keep_selection_def fields_ok_def)

lemma keep_selection_ok: "selection_ok e (keep_selection (tui_flat (he_lc (ci_host (te_cli e))) s) s)"
proof -
  define flat where "flat = tui_flat (he_lc (ci_host (te_cli e))) s"
  have same: "tui_flat (he_lc (ci_host (te_cli e))) (keep_selection flat s) = flat"
    unfolding flat_def by (rule tui_flat_cong) simp_all
  have "tu_selected (keep_selection flat s) = None \<and> flat = [] \<or> (\<exists>u\<in>set flat. tu_selected (keep_selection flat s) = Some u)"
    by (cases flat; cases "tu_selected s") (auto simp: keep_selection_def first_of_def)
  then show ?thesis using same by (simp add: selection_ok_def Let_def flip: flat_def)
qed

lemma tui_fail_fields [simp]:
  "tu_devices (tui_fail h m s) = tu_devices s" "tu_hosts (tui_fail h m s) = tu_hosts s" "tu_selected (tui_fail h m s) = tu_selected s"
  "tu_cfg (tui_fail h m s) = tu_cfg s" "tu_error (tui_fail h m s) = Some m"
  "fields_ok s \<Longrightarrow> fields_ok (tui_fail h m s)"
  by (simp_all add: tui_fail_def fields_ok_def)

lemma stay_fields [simp]:
  "ts_state (stay s) = s" "ts_tasks (stay s) = []" "ts_written (stay s) = None" "ts_end (stay s) = GoesOn"
  "ts_state (begin_task t s) = s" "ts_tasks (begin_task t s) = [t]" "ts_written (begin_task t s) = None" "ts_end (begin_task t s) = GoesOn"
  by (simp_all add: stay_def begin_task_def)

lemma selection_ok_cong:
  "tu_devices s = tu_devices s' \<Longrightarrow> tu_hosts s = tu_hosts s' \<Longrightarrow> tu_selected s = tu_selected s' \<Longrightarrow> selection_ok e s = selection_ok e s'"
  by (simp add: selection_ok_def Let_def tui_flat_def)

lemma begin_list_fields:
  "tu_devices (ts_state (begin_list h s)) = tu_devices s" "tu_hosts (ts_state (begin_list h s)) = tu_hosts s"
  "tu_selected (ts_state (begin_list h s)) = tu_selected s" "tu_cfg (ts_state (begin_list h s)) = tu_cfg s"
  "fields_ok s \<Longrightarrow> fields_ok (ts_state (begin_list h s))"
  by (simp_all add: begin_list_def Let_def tui_fail_def fields_ok_def)

lemma rendered_ok:
  "selection_ok e (ts_state (tui_rendered e b before r))"
  "fields_ok (ts_state r) \<Longrightarrow> fields_ok (ts_state (tui_rendered e b before r))"
proof -
  have "selection_ok e (ts_state (begin_list True (keep_selection (tui_flat (he_lc (ci_host (te_cli e))) s) s)))" for s
    using keep_selection_ok selection_ok_cong begin_list_fields by metis
  then show "selection_ok e (ts_state (tui_rendered e b before r))"
    by (simp add: tui_rendered_def Let_def keep_selection_ok)
  show "fields_ok (ts_state r) \<Longrightarrow> fields_ok (ts_state (tui_rendered e b before r))"
    by (simp add: tui_rendered_def Let_def begin_list_fields)
qed

lemma focus_moves:
  "tu_focus (focus_next s) \<in> set (focus_order (tu_use_env s))" "tu_focus (focus_previous s) \<in> set (focus_order (tu_use_env s))"
  "tu_use_env (focus_next s) = tu_use_env s" "tu_use_env (focus_previous s) = tu_use_env s"
proof -
  have "0 < length (focus_order (tu_use_env s))" by (simp add: focus_order_def)
  then show "tu_focus (focus_next s) \<in> set (focus_order (tu_use_env s))" "tu_focus (focus_previous s) \<in> set (focus_order (tu_use_env s))"
    by (simp_all add: focus_next_def focus_previous_def Let_def)
qed (simp_all add: focus_next_def focus_previous_def Let_def)

lemma all_digits_take: "list_all is_digit (take n (filter is_digit xs))"
  by (auto simp: list_all_iff dest: in_set_takeD)

lemma typing_ok: "fields_ok s \<Longrightarrow> fields_ok (type_text input s)" "fields_ok s \<Longrightarrow> fields_ok (erase s)"
proof -
  assume s: "fields_ok s"
  then show "fields_ok (type_text input s)" using all_digits_take by (cases "tu_focus s") (auto simp: type_text_def fields_ok_def)
  show "fields_ok (erase s)" using s
    by (cases "tu_focus s") (auto simp: erase_def fields_ok_def list_all_iff dest: in_set_butlastD)
qed

lemma with_selected_state:
  assumes "\<And>uuid host key. fields_ok (ts_state (f uuid host key))" "fields_ok s"
  shows "fields_ok (ts_state (with_selected e s f))"
  using assms by (auto simp: with_selected_def stay_def Let_def split: option.split)

lemma login_key_ok: "fields_ok s \<Longrightarrow> tu_phase s = PhLogin \<Longrightarrow> fields_ok (ts_state (login_key e input key s))"
proof -
  assume s: "fields_ok s" "tu_phase s = PhLogin"
  have "fields_ok (focus_next s)" "fields_ok (focus_previous s)"
    using s focus_moves [of s] by (auto simp: fields_ok_def focus_next_def focus_previous_def Let_def)
  moreover have "fields_ok (s\<lparr>tu_use_env := \<not> tu_use_env s, tu_focus := (if tu_use_env s then tu_focus s else FocusTotp)\<rparr>)"
    using s by (auto simp: fields_ok_def focus_order_def)
  moreover have "fields_ok (s\<lparr>tu_advanced := \<not> tu_advanced s\<rparr>)" "fields_ok (s\<lparr>tu_busy := Some ''logging in'', tu_error := None\<rparr>)"
    using s by (auto simp: fields_ok_def)
  ultimately show ?thesis using s(1) typing_ok by (simp add: login_key_def do_login_def)
qed

lemma inventory_key_ok: "fields_ok s \<Longrightarrow> tu_phase s = PhInventory \<Longrightarrow> fields_ok (ts_state (inventory_key e input key s))"
proof -
  assume s: "fields_ok s" "tu_phase s = PhInventory"
  have "fields_ok (ts_state (begin_scan e False cfg cidr (s\<lparr>tu_error := None\<rparr>)))" for cfg cidr
    using s by (auto simp: begin_scan_def fields_ok_def tui_fail_def split: option.split)
  moreover have "fields_ok (ts_state (do_toggle e onoff s))" for onoff
    unfolding do_toggle_def by (rule with_selected_state) (use s in \<open>simp_all add: fields_ok_def\<close>)
  moreover have "fields_ok (ts_state (do_diagnostics e s))"
    unfolding do_diagnostics_def by (rule with_selected_state) (use s in \<open>simp_all add: fields_ok_def\<close>)
  moreover have "fields_ok (select_next flat s)" "fields_ok (select_previous flat s)" "fields_ok (s\<lparr>tu_expanded := x\<rparr>)" for flat x
    using s by (simp_all add: select_next_def select_previous_def fields_ok_def)
  ultimately show ?thesis using s(1) begin_list_fields by (simp add: inventory_key_def Let_def)
qed

lemma tui_key_ok: "fields_ok s \<Longrightarrow> fields_ok (ts_state (tui_key e input key s))"
  using login_key_ok inventory_key_ok by (auto simp: tui_key_def fields_ok_def stay_def)

lemma end_task_ok: "fields_ok s \<Longrightarrow> fields_ok (ts_state (tui_end_task e t r s))"
  by (induction e t r s rule: tui_end_task.induct)
    (auto simp: loaded_def load_failed_def listed_def scanned_def tui_logged_in_def begin_scan_def tui_fail_def fields_ok_def stay_def
       begin_task_def Let_def split: option.split sum.split)

lemma tui_reach_ok: "tui_reach e s ts ws \<Longrightarrow> selection_ok e s \<and> fields_ok s"
proof (induction rule: tui_reach.induct)
  case start
  have "tui_flat lc tui_init = []" for lc
    by (simp add: tui_flat_def tui_init_def group_devices_for_control_def List.map_filter_simps)
  then show ?case by (simp add: selection_ok_def fields_ok_def tui_init_def focus_order_def)
next
  case (pressed s ts ws input key st)
  then show ?case using rendered_ok tui_key_ok by (metis tui_press_def)
next
  case (settled s ts ws t r st)
  then show ?case using rendered_ok end_task_ok by (metis tui_settle_def)
qed

subsection \<open>What is written\<close>

text \<open>A configuration made from the one that was read by changing the account, the devices or the hosts.\<close>

definition config_read :: "tui_env \<Rightarrow> jsval" where
  "config_read e = (case te_config e of Inl _ \<Rightarrow> JObj [] | Inr cfg \<Rightarrow> cfg)"

definition derived :: "tui_env \<Rightarrow> jsval \<Rightarrow> bool" where
  "derived e cfg \<longleftrightarrow> is_record cfg \<and> (\<forall>k. k \<notin> {''cloud'', ''devices'', ''hosts''} \<longrightarrow> field cfg k = field (config_read e) k)"

lemma derived_with_field:
  assumes "derived e cfg" "k \<in> {''cloud'', ''devices'', ''hosts''}"
  shows "derived e (with_field cfg k v)"
proof -
  have "is_record cfg" using assms(1) by (simp add: derived_def)
  then have "field (with_field cfg k v) j = (if j = k then v else field cfg j)" for j
    by (simp only: field_with_field field_spread_obj)
  moreover have "is_record (with_field cfg k v)" by (simp add: with_field_def)
  ultimately show ?thesis using assms unfolding derived_def by metis
qed

definition task_config :: "tui_task \<Rightarrow> jsval option" where
  "task_config t = (case t of TList _ cfg _ \<Rightarrow> Some cfg | TScan _ cfg _ _ \<Rightarrow> Some cfg | TLogin cfg _ \<Rightarrow> Some cfg | _ \<Rightarrow> None)"

definition tasks_derived :: "tui_env \<Rightarrow> tui_task list \<Rightarrow> bool" where
  "tasks_derived e ts \<longleftrightarrow> TLoad \<notin> set ts \<and> (\<forall>t\<in>set ts. \<forall>cfg. task_config t = Some cfg \<longrightarrow> derived e cfg)"

definition step_derived :: "tui_env \<Rightarrow> tui_step \<Rightarrow> bool" where
  "step_derived e st \<longleftrightarrow> tu_phase (ts_state st) \<noteq> PhBoot \<and> derived e (tu_cfg (ts_state st)) \<and> tasks_derived e (ts_tasks st) \<and>
     (\<forall>w. ts_written st = Some w \<longrightarrow> derived e w)"

lemma step_derived_stay:
  "tu_phase s \<noteq> PhBoot \<Longrightarrow> derived e (tu_cfg s) \<Longrightarrow> step_derived e (stay s)"
  "tu_phase s \<noteq> PhBoot \<Longrightarrow> derived e (tu_cfg s) \<Longrightarrow> t \<noteq> TLoad \<Longrightarrow> (\<And>cfg. task_config t = Some cfg \<Longrightarrow> derived e cfg) \<Longrightarrow> step_derived e (begin_task t s)"
  by (auto simp: step_derived_def tasks_derived_def)

lemma tui_fail_phase: "tu_phase s \<noteq> PhBoot \<Longrightarrow> tu_phase (tui_fail h m s) \<noteq> PhBoot"
  by (simp add: tui_fail_def)

lemma begin_list_derived: "tu_phase s \<noteq> PhBoot \<Longrightarrow> derived e (tu_cfg s) \<Longrightarrow> step_derived e (begin_list h s)"
  by (auto simp: begin_list_def Let_def task_config_def tui_fail_phase intro!: step_derived_stay)

lemma begin_scan_derived:
  "tu_phase s \<noteq> PhBoot \<Longrightarrow> derived e (tu_cfg s) \<Longrightarrow> derived e cfg \<Longrightarrow> step_derived e (begin_scan e h cfg cidr s)"
  by (auto simp: begin_scan_def task_config_def tui_fail_phase intro!: step_derived_stay split: option.split)

lemma rendered_derived: "step_derived e r \<Longrightarrow> step_derived e (tui_rendered e b before r)"
  using begin_list_derived [of "keep_selection (tui_flat (he_lc (ci_host (te_cli e))) (ts_state r)) (ts_state r)" e True]
  by (auto simp: tui_rendered_def Let_def step_derived_def tasks_derived_def)

lemma with_selected_derived:
  assumes "step_derived e (stay s)" "\<And>uuid host key. step_derived e (f uuid host key)"
  shows "step_derived e (with_selected e s f)"
  using assms by (auto simp: with_selected_def Let_def step_derived_def split: option.split)

lemma form_fields [simp]:
  "tu_cfg (focus_next s) = tu_cfg s" "tu_cfg (focus_previous s) = tu_cfg s" "tu_cfg (erase s) = tu_cfg s" "tu_cfg (type_text input s) = tu_cfg s"
  "tu_phase (focus_next s) = tu_phase s" "tu_phase (focus_previous s) = tu_phase s" "tu_phase (erase s) = tu_phase s"
  "tu_phase (type_text input s) = tu_phase s"
  by (simp_all add: focus_next_def focus_previous_def erase_def type_text_def Let_def split: tui_focus.split)

lemma tui_key_derived:
  assumes "tu_phase s \<noteq> PhBoot" "derived e (tu_cfg s)"
  shows "step_derived e (tui_key e input key s)"
proof -
  have toggle: "step_derived e (do_toggle e onoff s)" and diagnose: "step_derived e (do_diagnostics e s)" for onoff
    unfolding do_toggle_def do_diagnostics_def
    by (rule with_selected_derived; use assms in \<open>auto simp: task_config_def intro!: step_derived_stay\<close>)+
  have login: "step_derived e (login_key e input key s)"
    using assms step_derived_stay(2) [of "s\<lparr>tu_busy := Some ''logging in'', tu_error := None\<rparr>" e "TLogin (tu_cfg s) (typed_login e s)"]
    by (simp add: login_key_def do_login_def task_config_def step_derived_stay(1))
  have "step_derived e (begin_list False s)" by (rule begin_list_derived [OF assms])
  moreover have "step_derived e (begin_scan e False (tu_cfg s) (tu_cidr s) (s\<lparr>tu_error := None\<rparr>))"
    by (rule begin_scan_derived) (use assms in simp_all)
  moreover have "step_derived e (stay (select_next flat s))" "step_derived e (stay (select_previous flat s))"
    "step_derived e (stay (s\<lparr>tu_expanded := x\<rparr>))" "step_derived e (stay s)" for flat x
    using assms by (simp_all add: select_next_def select_previous_def step_derived_stay)
  ultimately have inventory: "step_derived e (inventory_key e input key s)"
    using toggle diagnose by (simp add: inventory_key_def Let_def)
  have leave: "step_derived e ((stay s)\<lparr>ts_end := Exits\<rparr>)" "step_derived e (stay (s\<lparr>tu_phase := PhInventory, tu_diag := None\<rparr>))"
    using assms by (simp_all add: step_derived_def tasks_derived_def)
  show ?thesis
    using assms login inventory leave by (simp add: tui_key_def step_derived_stay(1))
qed

lemma written_derived:
  "step_derived e st \<Longrightarrow> derived e w \<Longrightarrow> step_derived e (st\<lparr>ts_written := Some w\<rparr>)"
  by (simp add: step_derived_def)

lemma end_task_derived:
  assumes "tu_phase s \<noteq> PhBoot" "derived e (tu_cfg s)" "\<And>cfg. task_config t = Some cfg \<Longrightarrow> derived e cfg" "t \<noteq> TLoad"
  shows "step_derived e (tui_end_task e t r s)"
proof -
  have scan: "step_derived e (scanned e h cfg cidr key order s)" if "derived e cfg" for h cfg cidr key order
    unfolding scanned_def with_hosts_def using assms(1,2) that
    by (auto simp: Let_def tui_fail_phase derived_with_field intro!: step_derived_stay written_derived split: sum.split)
  have list: "step_derived e (listed e h cfg cidr ds s)" if "derived e cfg" for h cfg cidr ds
    unfolding listed_def using assms(1,2) that
    by (auto simp: Let_def derived_with_field intro!: step_derived_stay written_derived begin_scan_derived)
  have login: "step_derived e (tui_logged_in e cfg creds s)" if "derived e cfg" for cfg creds
    unfolding tui_logged_in_def Let_def using that by (auto simp: derived_with_field intro!: step_derived_stay written_derived)
  show ?thesis
    using assms scan list login
    by (cases t; cases r) (auto simp: task_config_def tui_fail_phase intro!: step_derived_stay)
qed

definition run_derived :: "tui_env \<Rightarrow> tui \<Rightarrow> tui_task list \<Rightarrow> jsval list \<Rightarrow> bool" where
  "run_derived e s ts ws \<longleftrightarrow> s = tui_init \<and> ts = [TLoad] \<and> ws = [] \<or>
     tu_phase s \<noteq> PhBoot \<and> derived e (tu_cfg s) \<and> tasks_derived e ts \<and> (\<forall>w\<in>set ws. derived e w)"

lemma boot_stays: "ts_end (tui_press e input key tui_init) = GoesOn \<Longrightarrow> tui_press e input key tui_init = stay tui_init"
proof -
  have "tui_flat lc tui_init = []" for lc
    by (simp add: tui_flat_def tui_init_def group_devices_for_control_def List.map_filter_simps)
  then have "keep_selection (tui_flat (he_lc (ci_host (te_cli e))) tui_init) tui_init = tui_init"
    by (simp add: keep_selection_def first_of_def tui_init_def)
  moreover have "tu_phase tui_init = PhBoot" by (simp add: tui_init_def)
  moreover assume "ts_end (tui_press e input key tui_init) = GoesOn"
  ultimately show ?thesis
    by (auto simp: tui_press_def tui_rendered_def tui_key_def Let_def stay_def split: if_splits)
qed

lemma load_derived:
  assumes "is_record (config_read e)"
  shows "step_derived e (tui_end_task e TLoad r s)"
proof -
  have "derived e (config_read e)" using assms by (simp add: derived_def)
  then show ?thesis
    by (auto simp: config_read_def loaded_def load_failed_def intro!: step_derived_stay split: sum.splits)
qed

lemma tui_reach_derived:
  assumes "is_record (config_read e)"
  shows "tui_reach e s ts ws \<Longrightarrow> run_derived e s ts ws"
proof (induction rule: tui_reach.induct)
  case start
  then show ?case by (simp add: run_derived_def)
next
  case (pressed s ts ws input key st)
  show ?case
  proof (cases "s = tui_init \<and> ts = [TLoad] \<and> ws = []")
    case True
    then have "st = stay tui_init" using pressed.hyps boot_stays [of e input key] by simp
    with True show ?thesis by (simp add: run_derived_def)
  next
    case False
    then have s: "tu_phase s \<noteq> PhBoot" "derived e (tu_cfg s)" "tasks_derived e ts" "\<forall>w\<in>set ws. derived e w"
      using pressed.IH by (auto simp: run_derived_def)
    then have "step_derived e st" using pressed.hyps(2) rendered_derived tui_key_derived by (simp add: tui_press_def) metis
    with s show ?thesis by (auto simp: run_derived_def step_derived_def tasks_derived_def)
  qed
next
  case (settled s ts ws t r st)
  show ?case
  proof (cases "s = tui_init \<and> ts = [TLoad] \<and> ws = []")
    case True
    then have "t = TLoad" using settled.hyps by simp
    then have "step_derived e st" using settled.hyps(3) rendered_derived load_derived [OF assms] by (auto simp: tui_settle_def Let_def)
    with True \<open>t = TLoad\<close> show ?thesis by (auto simp: run_derived_def step_derived_def split: option.split)
  next
    case False
    then have s: "tu_phase s \<noteq> PhBoot" "derived e (tu_cfg s)" "tasks_derived e ts" "\<forall>w\<in>set ws. derived e w"
      using settled.IH by (auto simp: run_derived_def)
    then have "step_derived e (tui_end_task e t r s)"
      using settled.hyps(2) by (intro end_task_derived) (auto simp: tasks_derived_def)
    then have "step_derived e st" using settled.hyps(3) rendered_derived by (auto simp: tui_settle_def Let_def)
    with s show ?thesis
      by (auto simp: run_derived_def step_derived_def tasks_derived_def dest: notin_set_remove1 set_remove1_subset [THEN subsetD] split: option.split)
  qed
qed

text \<open>C14. Every run of the terminal interface, whatever keys are pressed and in whatever order the
  requests end: the selection is a device of the list whenever the list has one, the code typed is at
  most six digits, the focus is on a field that is shown, the diagnostics are there when they are
  shown; and every configuration written is an object that differs from the one read at the start in
  the account, the devices and the hosts only.\<close>

theorem tui_runs:
  assumes "tui_reach e s ts ws" "is_record (config_read e)"
  shows "(case tui_flat (he_lc (ci_host (te_cli e))) s of [] \<Rightarrow> tu_selected s = None
      | us \<Rightarrow> \<exists>u\<in>set us. tu_selected s = Some u) \<and>
    length (tu_totp s) \<le> 6 \<and> list_all is_digit (tu_totp s) \<and> tu_focus s \<in> set (focus_order (tu_use_env s)) \<and>
    (tu_phase s = PhDiagnostics \<longrightarrow> tu_diag s \<noteq> None) \<and>
    (\<forall>w\<in>set ws. is_record w \<and> (\<forall>k. k \<notin> {''cloud'', ''devices'', ''hosts''} \<longrightarrow> field w k = field (config_read e) k))"
proof -
  have ws: "\<forall>w\<in>set ws. derived e w" using tui_reach_derived [OF assms(2,1)] by (auto simp: run_derived_def)
  have "case tui_flat (he_lc (ci_host (te_cli e))) s of [] \<Rightarrow> tu_selected s = None | us \<Rightarrow> \<exists>u\<in>set us. tu_selected s = Some u"
    using tui_reach_ok [OF assms(1)] by (cases "tui_flat (he_lc (ci_host (te_cli e))) s") (auto simp: selection_ok_def Let_def)
  moreover have "length (tu_totp s) \<le> 6 \<and> list_all is_digit (tu_totp s) \<and> tu_focus s \<in> set (focus_order (tu_use_env s)) \<and>
      (tu_phase s = PhDiagnostics \<longrightarrow> tu_diag s \<noteq> None)"
    using tui_reach_ok [OF assms(1)] unfolding fields_ok_def by blast
  ultimately show ?thesis using ws unfolding derived_def by blast
qed

text \<open>A start with an account, and the end of its first refresh.\<close>

definition demo_account :: jsval where
  "demo_account = JObj [(''cloud'', JObj [(''key'', JStr ''k'')]), (''theme'', JStr ''dark'')]"

definition demo_tui :: tui_env where
  "demo_tui = \<lparr>te_config = Inr demo_account, te_cli = demo_cli, te_email = [], te_password = []\<rparr>"

definition demo_loaded :: tui_step where
  "demo_loaded = tui_settle demo_tui TLoad (Listed []) tui_init"

definition demo_listed :: tui_step where
  "demo_listed = tui_settle demo_tui (TList True demo_account []) (Listed [JObj [(''uuid'', JStr ''u1''), (''devName'', JStr ''lamp'')]]) (ts_state demo_loaded)"

lemma demo_listed_run: "\<exists>w. ts_written demo_listed = Some w \<and> tui_reach demo_tui (ts_state demo_listed) (ts_tasks demo_listed) [w]"
proof -
  have loaded: "ts_tasks demo_loaded = [TList True demo_account []]" "ts_written demo_loaded = None"
    unfolding demo_loaded_def demo_tui_def by code_simp+
  have "ts_written demo_listed \<noteq> None" unfolding demo_listed_def tui_settle_def tui_rendered_def Let_def by (simp add: listed_def Let_def)
  then obtain w where w: "ts_written demo_listed = Some w" by blast
  have "tui_reach demo_tui (ts_state demo_loaded) [TList True demo_account []] []"
    using tui_reach.settled [OF tui_reach.start _ demo_loaded_def [symmetric]] loaded by simp
  from tui_reach.settled [OF this _ demo_listed_def [symmetric]] w show ?thesis by simp
qed

lemma tui_runs_witness:
  "tu_selected (ts_state demo_listed) = Some ''u1'' \<and>
   (\<exists>w. ts_written demo_listed = Some w \<and> field w ''theme'' = JStr ''dark'' \<and> field w ''devices'' \<noteq> JUndef)"
proof -
  obtain w where w: "ts_written demo_listed = Some w" "tui_reach demo_tui (ts_state demo_listed) (ts_tasks demo_listed) [w]"
    using demo_listed_run by blast
  have rec: "is_record (config_read demo_tui)" by code_simp
  have flat: "tui_flat (he_lc (ci_host (te_cli demo_tui))) (ts_state demo_listed) = [''u1'']" by code_simp
  have "map_option (\<lambda>w. field w ''devices'' \<noteq> JUndef) (ts_written demo_listed) = Some True" by code_simp
  moreover have "field (config_read demo_tui) ''theme'' = JStr ''dark''" by code_simp
  ultimately show ?thesis using tui_runs [OF w(2) rec] flat w(1) by simp
qed

subsection \<open>Searching the network\<close>

lemma lan_key_discover: "lan_key e (cli_cfg (te_cli e)) = discover_key (te_cli e)"
  by (simp add: lan_key_def discover_key_def)

lemma effective_cidr_trim: "(if trim (or_else (Some cidr) []) \<noteq> [] then trim (or_else (Some cidr) []) else suggested (ci_host (te_cli e))) = effective_cidr e cidr"
  by (simp add: effective_cidr_def)

text \<open>C15. The search of the terminal interface does what the command that discovers hosts does, asked for
  the block of the interface with a time of 900 ms for each host and 24 workers: with the same configuration and
  the answers in the same order one writes a configuration exactly when the other does, it is the same
  one, and the hosts shown afterwards are its hosts; otherwise both report an error.\<close>

theorem scan_like_command:
  "let cfg = cli_cfg (te_cli e); run = cli_discover (te_cli e) (Some cidr) (Fin 900) (Fin 24) json order;
       begun = begin_scan e hyd cfg cidr s
   in (case ts_tasks begun of
         [] \<Rightarrow> cu_written run = None \<and> (\<exists>m. cu_result run = Inl m) \<and> (\<exists>m. tu_error (ts_state begun) = Some m)
       | t # _ \<Rightarrow> (let ended = tui_end_task e t (Scanned order) s' in
           ts_written ended = cu_written run \<and>
           (case cu_written run of
              None \<Rightarrow> (\<exists>m. cu_result run = Inl m) \<and> (\<exists>m. tu_error (ts_state ended) = Some m)
            | Some w \<Rightarrow> cu_result run = Inr () \<and> tu_cfg (ts_state ended) = w \<and> tu_hosts (ts_state ended) = field w ''hosts'')))"
proof -
  have figures: "discover_timeout (JNum (Fin 900)) = 900" "\<exists>n. discover_workers (JNum (Fin 24)) = Inr n"
    by (simp_all add: discover_timeout_def discover_workers_def floor_num_def)
  then obtain n where n: "discover_workers (JNum (Fin 24)) = Inr n" by blast
  note run = cli_discover_def [of "te_cli e" "Some cidr" "Fin 900" "Fin 24" json order, unfolded Let_def effective_cidr_trim n figures(1)]
  show ?thesis
    unfolding Let_def run begin_scan_def lan_key_discover
    by (cases "discover_key (te_cli e)"; cases "effective_cidr e cidr = []"; cases "list_hosts_in_cidr (effective_cidr e cidr)")
      (simp_all add: scanned_def with_hosts_def scan_found_def Let_def)
qed

subsection \<open>What goes wrong\<close>

text \<open>While the interface is hydrating, every refresh of the devices that ends starts the next one, beside
  the search it goes on to: the callbacks are made anew when the configuration is set, and the effect
  runs again.\<close>

definition hydrate_listing :: "tui_env \<Rightarrow> string \<Rightarrow> jsval \<Rightarrow> bool" where
  "hydrate_listing e key cfg \<longleftrightarrow> is_record cfg \<and> truthy (field cfg ''cloud'') \<and> lan_key e cfg = Some key"

lemma with_field_other: "is_record cfg \<Longrightarrow> j \<noteq> k \<Longrightarrow> field (with_field cfg k v) j = field cfg j"
  by (simp only: field_with_field field_spread_obj if_False simp_thms)

lemma hydrate_listing_devices: "hydrate_listing e key cfg \<Longrightarrow> hydrate_listing e key (with_field cfg ''devices'' v)"
  by (simp add: hydrate_listing_def lan_key_def with_field_other Let_def) (simp add: with_field_def)

lemma refresh_starts_another:
  assumes "tu_phase s = PhHydrating" "tu_cidr s = cidr" "effective_cidr e cidr \<noteq> []" "hydrate_listing e key cfg"
  shows "\<exists>c1. ts_tasks (tui_settle e (TList True cfg cidr) (Listed ds) s) = [TScan True cfg cidr key, TList True c1 cidr] \<and>
    hydrate_listing e key c1 \<and> tu_phase (ts_state (tui_settle e (TList True cfg cidr) (Listed ds) s)) = PhHydrating \<and>
    tu_cidr (ts_state (tui_settle e (TList True cfg cidr) (Listed ds) s)) = cidr"
proof -
  define c1 where "c1 = with_field cfg ''devices'' (JObj [(''updatedAt'', JStr (he_now_iso (ci_host (te_cli e)))), (''list'', JArr ds)])"
  have listing: "hydrate_listing e key c1" unfolding c1_def using assms(4) by (rule hydrate_listing_devices)
  define s1 where "s1 = s\<lparr>tu_cfg := c1, tu_devices := ds, tu_busy := Some (''scanning '' @ effective_cidr e cidr)\<rparr>"
  have listed: "tui_end_task e (TList True cfg cidr) (Listed ds) s = (begin_task (TScan True cfg cidr key) s1)\<lparr>ts_written := Some c1\<rparr>"
    using assms(3,4) by (simp add: listed_def begin_scan_def hydrate_listing_def s1_def c1_def Let_def)
  show ?thesis
    using listing assms(1,2) unfolding tui_settle_def listed Let_def tui_rendered_def
    by (simp add: begin_list_def hydrate_listing_def s1_def Let_def)
qed

lemma hydrate_runs_on:
  assumes "te_config e = Inr cfg" "is_record cfg" "truthy (path cfg [''cloud'', ''key''])" "suggested (ci_host (te_cli e)) \<noteq> []"
  shows "\<exists>s ts ws c1. tui_reach e s (ts @ [TList True c1 []]) ws \<and> tu_phase s = PhHydrating \<and> tu_cidr s = [] \<and>
    hydrate_listing e (str_of (path cfg [''cloud'', ''key''])) c1 \<and> length ts = n \<and> (\<forall>t\<in>set ts. \<exists>h c i k. t = TScan h c i k) \<and> length ws = n"
proof (induction n)
  case 0
  define key where "key = str_of (path cfg [''cloud'', ''key''])"
  have cloud: "truthy (field cfg ''cloud'')" using assms(3) by (cases "field cfg ''cloud''") auto
  then have listing: "hydrate_listing e key cfg" using assms(2,3) by (simp add: hydrate_listing_def lan_key_def key_def Let_def)
  define st where "st = tui_settle e TLoad (Listed []) tui_init"
  have st: "ts_tasks st = [TList True cfg []]" "tu_phase (ts_state st) = PhHydrating" "tu_cidr (ts_state st) = []" "ts_written st = None"
    using assms(1,3) cloud
    by (simp_all add: st_def tui_settle_def tui_rendered_def loaded_def begin_list_def tui_init_def Let_def keep_selection_def)
  have "tui_reach e (ts_state st) (remove1 TLoad [TLoad] @ ts_tasks st) (case ts_written st of None \<Rightarrow> [] | Some w \<Rightarrow> [w])"
    by (rule tui_reach.settled [OF tui_reach.start _ st_def [symmetric]]) simp
  then show ?case using st listing by (intro exI [of _ "ts_state st"] exI [of _ "[]"] exI [of _ "[]"] exI [of _ cfg]) (simp add: key_def)
next
  case (Suc n)
  define key where "key = str_of (path cfg [''cloud'', ''key''])"
  from Suc obtain s ts ws c where run: "tui_reach e s (ts @ [TList True c []]) ws" "tu_phase s = PhHydrating" "tu_cidr s = []"
    "hydrate_listing e key c" "length ts = n" "\<forall>t\<in>set ts. \<exists>h c i k. t = TScan h c i k" "length ws = n" unfolding key_def by blast
  have eff: "effective_cidr e [] \<noteq> []" using assms(4) by (simp add: effective_cidr_def trim_def trim_left_def)
  define st where "st = tui_settle e (TList True c []) (Listed []) s"
  obtain c1 where st: "ts_tasks st = [TScan True c [] key, TList True c1 []]" "hydrate_listing e key c1"
    "tu_phase (ts_state st) = PhHydrating" "tu_cidr (ts_state st) = []"
    using refresh_starts_another [OF run(2,3) eff run(4), of "[]"] unfolding st_def by blast
  have "TList True c [] \<notin> set ts" using run(6) by blast
  then have removed: "remove1 (TList True c []) (ts @ [TList True c []]) = ts" by (simp add: remove1_append)
  have "ts_written st \<noteq> None" unfolding st_def tui_settle_def tui_rendered_def Let_def by (simp add: listed_def Let_def)
  then obtain w where w: "ts_written st = Some w" by auto
  have "tui_reach e (ts_state st) (remove1 (TList True c []) (ts @ [TList True c []]) @ ts_tasks st) (w # ws)"
    using tui_reach.settled [OF run(1) _ st_def [symmetric]] w by simp
  then show ?case
    using st run(5-7) unfolding key_def
    by (intro exI [of _ "ts_state st"] exI [of _ "ts @ [TScan True c [] key]"] exI [of _ "w # ws"] exI [of _ c1]) (auto simp: removed key_def)
qed

text \<open>So the start of the interface has no bound on the requests it sends: for every \<open>n\<close> there is a run
  with that many searches of the network under way at once, each after a refresh of its own.\<close>

lemma hydrate_unbounded:
  assumes "te_config e = Inr cfg" "is_record cfg" "truthy (path cfg [''cloud'', ''key''])" "suggested (ci_host (te_cli e)) \<noteq> []"
  shows "\<exists>s ts ws. tui_reach e s ts ws \<and> length (filter (\<lambda>t. \<exists>h c i k. t = TScan h c i k) ts) = n \<and> length ws = n"
proof -
  obtain s ts ws c where run: "tui_reach e s (ts @ [TList True c []]) ws" "length ts = n" "\<forall>t\<in>set ts. \<exists>h c i k. t = TScan h c i k" "length ws = n"
    using hydrate_runs_on [OF assms] by blast
  then have "filter (\<lambda>t. \<exists>h c i k. t = TScan h c i k) ts = ts" by (simp add: filter_id_conv)
  with run show ?thesis by (intro exI [of _ s] exI [of _ "ts @ [TList True c []]"] exI [of _ ws]) auto
qed

text \<open>The search that follows a refresh writes the devices of before it back.\<close>

lemma search_undoes_refresh:
  assumes "hydrate_listing e key cfg" "effective_cidr e cidr \<noteq> []"
    and "ts_written (tui_end_task e (hd (ts_tasks (tui_end_task e (TList True cfg cidr) (Listed ds) s))) (Scanned order) s') = Some w"
  shows "field w ''devices'' = field cfg ''devices''"
proof -
  have "ts_tasks (tui_end_task e (TList True cfg cidr) (Listed ds) s) = [TScan True cfg cidr key]"
    using assms(1,2) by (simp add: listed_def begin_scan_def hydrate_listing_def Let_def)
  with assms(3) have "w = with_hosts cfg (scan_found e key order)" by (auto simp: scanned_def Let_def split: sum.splits)
  then show ?thesis using assms(1) by (simp only: with_hosts_def hydrate_listing_def with_field_other) simp
qed

text \<open>A command to a device without a known address ends the program instead of showing an error.\<close>

lemma command_without_host_crashes:
  assumes "tu_phase s = PhInventory" "input \<in> {''o'', ''f'', ''d''}" "\<not> truthy (path (tu_hosts s) [or_else (tu_selected s) [], ''host''])"
  shows "\<exists>m. ts_end (tui_key e input KeyNone s) = Crashes m"
  using assms by (auto simp: tui_key_def inventory_key_def do_toggle_def do_diagnostics_def with_selected_def Let_def split: option.split)

text \<open>The letters of the commands cannot be typed into the form: they move the focus, open the options
  or end the program.\<close>

lemma letters_not_typed:
  assumes "tu_phase s = PhLogin" "tu_focus s \<noteq> FocusSubmit"
  shows "ts_end (tui_key e ''q'' KeyNone s) = Exits"
    "input \<in> {''a'', ''j'', ''k''} \<Longrightarrow> tu_email (ts_state (tui_key e input KeyNone s)) = tu_email s \<and>
       tu_password (ts_state (tui_key e input KeyNone s)) = tu_password s"
  using assms by (auto simp: tui_key_def login_key_def focus_next_def focus_previous_def Let_def)

end
