(* ===== verification/ConfigFile.thy ===== *)
theory ConfigFile
  imports WebAuth
begin

text \<open>
  The configuration file written and read: \<open>saveMerossConfig\<close> of \<open>packages/core/src/meross/config.ts\<close>,
  what \<open>loadMerossConfig\<close> makes of it, and what an account that was stored by a login looks like after
  the service has been started again. Creating the directory and the write itself are left out.
\<close>

definition save_meross_config :: "jsval \<Rightarrow> string" where
  "save_meross_config cfg = json_stringify 2 cfg @ [CHR 0x0A]"

text \<open>C29. What is saved is read back: for any configuration that is an object, with keys once and
  numbers of at most 17 places, the file that is written is read as the same configuration, without
  the members that are undefined and with null for what JSON has no number for, member by member.\<close>

theorem saved_config_read_back:
  assumes "is_object cfg" and "storable cfg"
  shows "load_meross_config (Some (save_meross_config cfg)) = json_round cfg \<and>
    (\<forall>k. field (load_meross_config (Some (save_meross_config cfg))) k = json_round (field cfg k))"
proof -
  have "cfg \<noteq> JUndef" "is_object (json_round cfg)" using assms(1) by (cases cfg; simp)+
  with json_line.read_print assms(2) show ?thesis
    by (simp add: load_meross_config_def save_meross_config_def field_json_round [OF assms(2)])
qed

lemma saved_config_read_back_witness:
  "field (load_meross_config (Some (save_meross_config (JObj [(''a'', JUndef), (''b'', JArr [js_rat (- 5 / 2), JStr [CHR 0x0A, CHR 0x22], JNum NaN])])))) ''b''
     = JArr [js_rat (- 5 / 2), JStr [CHR 0x0A, CHR 0x22], JNull]"
proof -
  let ?cfg = "JObj [(''a'', JUndef), (''b'', JArr [js_rat (- 5 / 2), JStr [CHR 0x0A, CHR 0x22], JNum NaN])]"
  have "is_object ?cfg" "storable ?cfg" by (simp_all add: js_rat_def short_decimal_def)
  from saved_config_read_back [OF this] show ?thesis by (simp add: js_rat_def)
qed

lemma storable_with_field:
  assumes "storable (JObj (spread v))" "storable x"
  shows "storable (with_field v k x)"
proof -
  have "(j, y) \<in> set (map_set k x kvs) \<Longrightarrow> y = x \<or> (j, y) \<in> set kvs" for j y and kvs :: "(string \<times> jsval) list"
    by (induction kvs) (auto split: if_splits)
  with assms show ?thesis by (fastforce simp: with_field_def list_all_iff distinct_update)
qed

lemma storable_creds: "storable (JObj (json_of_creds creds @ [(''updatedAt'', JStr t)]))"
  by (cases "cr_mqtt_domain creds") (simp_all add: json_of_creds_def json_of_opt_str_def)

lemma summarize_round:
  "summarize_cloud (json_round (JObj (json_of_creds creds @ [(''updatedAt'', JStr t)]))) = summarize_cloud (JObj (json_of_creds creds))"
  by (cases "cr_mqtt_domain creds") (simp_all add: summarize_cloud_def json_of_creds_def json_of_opt_str_def)

lemma login_credentials:
  "meross_cloud_login env params options = (calls, Inr creds) \<Longrightarrow> cr_token creds \<noteq> [] \<and> cr_key creds \<noteq> []"
  by (auto simp: meross_cloud_login_def creds_of_response_def Let_def split: prod.splits option.splits sum.splits if_splits)

lemma login_written:
  assumes "cn_written (login_cloud e req) = Some cfg"
  obtains creds where "cr_token creds \<noteq> []" "cr_key creds \<noteq> []"
    "cfg = with_field (ca_cfg e) ''cloud'' (JObj (json_of_creds creds @ [(''updatedAt'', JStr (ca_now_iso e))]))"
    "cn_reply (login_cloud e req) = map_sum (\<lambda>m. m) (\<lambda>cloud. (200, ApiOk (JObj [(''cloud'', cloud)]))) (summarize_cloud (JObj (json_of_creds creds)))"
  using assms that by (auto simp: login_cloud_def Let_def dest: login_credentials split: if_splits prod.splits sum.splits)

text \<open>C9. An account survives a restart: when a login has stored an account and the file is read
  again, the account asked for is exactly the one the login replied, the status reports it, and every
  other member of the configuration is what it was before the login.\<close>

theorem account_survives_restart:
  assumes "cn_written (login_cloud e req) = Some cfg" and "storable (JObj (spread (ca_cfg e)))"
  shows "let e' = e\<lparr>ca_cfg := load_meross_config (Some (save_meross_config cfg))\<rparr> in
     cn_reply (get_cloud_creds e') = cn_reply (login_cloud e req) \<and>
     (case cn_reply (get_status e') of Inr (_, ApiOk d) \<Rightarrow>
        path d [''config'', ''hasCloudCreds''] = JBool True | _ \<Rightarrow> False) \<and>
     (\<forall>k. k \<noteq> ''cloud'' \<longrightarrow> field (ca_cfg e') k = json_round (field (JObj (spread (ca_cfg e))) k))"
proof -
  define t where "t = ca_now_iso e"
  obtain creds where creds: "cr_token creds \<noteq> []" "cr_key creds \<noteq> []"
    and cfg: "cfg = with_field (ca_cfg e) ''cloud'' (JObj (json_of_creds creds @ [(''updatedAt'', JStr t)]))"
    and reply: "cn_reply (login_cloud e req) = map_sum (\<lambda>m. m) (\<lambda>cloud. (200, ApiOk (JObj [(''cloud'', cloud)]))) (summarize_cloud (JObj (json_of_creds creds)))"
    using login_written [OF assms(1)] unfolding t_def by blast
  have "storable cfg" "cfg \<noteq> JUndef" "is_object (json_round cfg)"
    unfolding cfg using storable_with_field [OF assms(2) storable_creds] by (simp_all add: with_field_def)
  then have stored: "load_meross_config (Some (save_meross_config cfg)) = json_round cfg"
    using json_line.read_print by (simp add: load_meross_config_def save_meross_config_def)
  have members: "field (json_round cfg) k = json_round (if k = ''cloud'' then JObj (json_of_creds creds @ [(''updatedAt'', JStr t)]) else field (JObj (spread (ca_cfg e))) k)" for k
    unfolding field_json_round [OF \<open>storable cfg\<close>] by (simp only: cfg field_with_field)
  have cloud: "field (json_round cfg) ''cloud'' = json_round (JObj (json_of_creds creds @ [(''updatedAt'', JStr t)]))"
    using members [of "''cloud''"] by simp
  have keys: "truthy (path (json_round cfg) [''cloud'', ''token''])" "truthy (path (json_round cfg) [''cloud'', ''key''])"
    using creds by (cases "cr_mqtt_domain creds"; simp add: cloud json_of_creds_def json_of_opt_str_def)+
  have there: "truthy (json_round (JObj kvs))" for kvs by simp
  show ?thesis
    unfolding Let_def stored
  proof (intro conjI allI impI)
    show "cn_reply (get_cloud_creds (e\<lparr>ca_cfg := json_round cfg\<rparr>)) = cn_reply (login_cloud e req)"
      unfolding reply get_cloud_creds_def by (simp add: cloud there summarize_round summarize_creds just_reply_def del: json_round.simps)
    show "case cn_reply (get_status (e\<lparr>ca_cfg := json_round cfg\<rparr>)) of
        Inr (_, ApiOk d) \<Rightarrow> path d [''config'', ''hasCloudCreds''] = JBool True | _ \<Rightarrow> False"
      using keys by (simp add: get_status_def Let_def just_reply_def)
    show "field (ca_cfg (e\<lparr>ca_cfg := json_round cfg\<rparr>)) k = json_round (field (JObj (spread (ca_cfg e))) k)" if "k \<noteq> ''cloud''" for k
      using members [of k] that by simp
  qed
qed

lemma account_survives_restart_witness:
  "\<exists>cfg. cn_written (login_cloud demo_account demo_request) = Some cfg \<and>
     cn_reply (get_cloud_creds (demo_account\<lparr>ca_cfg := load_meross_config (Some (save_meross_config cfg))\<rparr>)) =
       cn_reply (login_cloud demo_account demo_request)"
proof -
  have form: "can_submit (am_context demo_form)" "body_of demo_request = login_body (am_context demo_form)" by code_simp+
  obtain calls where "meross_cloud_login (ca_cloud demo_account) (form_params (am_context demo_form)) (form_options (am_context demo_form)) = (calls, Inr demo_creds)"
    using demo_form_login by (cases "meross_cloud_login demo_cloud (form_params (am_context demo_form)) (form_options (am_context demo_form))")
      (simp add: demo_account_def)
  from login_of_form(3) [OF form this] obtain cfg where cfg: "cn_written (login_cloud demo_account demo_request) = Some cfg" by auto
  have "storable (JObj (spread (ca_cfg demo_account)))" by (simp add: demo_account_def)
  from account_survives_restart [OF cfg this] show ?thesis using cfg by (simp add: Let_def)
qed

end
