(* ===== verification/WebLight.thy ===== *)
theory WebLight
  imports WebDevices
begin

text \<open>
  The controls of a smart light, \<open>apps/web/src/views/devices/SmartLightControls.tsx\<close>: the colour
  arithmetic, what the controls show of the light, and the panel as a state machine of its drafts.

  \<open>panel_event\<close> is the reaction to the user, \<open>panel_device\<close> the effects that follow a new state of the
  device, \<open>light_sent\<close> the end of a request. A colour of the colour wheel, an object of the
  component library, is known by the text of its \<open>toString('hex')\<close>. The figures of the device are
  finite numbers or absent, as the parsers of the machine leave them.
\<close>

section \<open>Colours\<close>

definition clamp :: "'a::linorder \<Rightarrow> 'a \<Rightarrow> 'a \<Rightarrow> 'a" where
  "clamp n lo hi = max lo (min hi n)"

text \<open>\<open>n.toString(16)\<close> and \<open>s.padStart(n, '0')\<close>.\<close>

fun hex_of_nat :: "nat \<Rightarrow> string" where
  "hex_of_nat n = (if n < 16 then [hex_digit n] else hex_of_nat (n div 16) @ [hex_digit (n mod 16)])"

declare hex_of_nat.simps [simp del]

definition pad_start :: "nat \<Rightarrow> string \<Rightarrow> string" where
  "pad_start n s = replicate (n - length s) (CHR ''0'') @ s"

definition rgb_to_hex :: "rat \<Rightarrow> string" where
  "rgb_to_hex rgb = CHR ''#'' # pad_start 6 (hex_of_nat (nat (clamp (js_round rgb) 0 16777215)))"

text \<open>The six digits after an optional \<open>#\<close>, and the rest.\<close>

definition hex_prefix :: "string \<Rightarrow> (string \<times> string) option" where
  "hex_prefix s = (let t = (case s of c # r \<Rightarrow> if c = CHR ''#'' then r else s | [] \<Rightarrow> s); ds = take 6 t in
     if length ds = 6 \<and> all_radix 16 ds then Some (ds, drop 6 t) else None)"

definition rgb_int_from_color :: "string \<Rightarrow> nat option" where
  "rgb_int_from_color hex = map_option (\<lambda>(ds, _). nat_of_radix 16 ds) (hex_prefix (trim hex))"

definition hex_to_rgb :: "string \<Rightarrow> (nat \<times> nat \<times> nat) option" where
  "hex_to_rgb hex = (case hex_prefix (trim hex) of
     Some (ds, []) \<Rightarrow> (let raw = nat_of_radix 16 ds in Some (raw div 65536 mod 256, raw div 256 mod 256, raw mod 256))
   | _ \<Rightarrow> None)"

definition mix_rgb :: "rat \<times> rat \<times> rat \<Rightarrow> rat \<times> rat \<times> rat \<Rightarrow> rat \<Rightarrow> int \<times> int \<times> int" where
  "mix_rgb a b t = (let p = clamp t 0 1; mix = (\<lambda>x y. js_round (x + (y - x) * p)) in
     case (a, b) of ((a0, a1, a2), (b0, b1, b2)) \<Rightarrow> (mix a0 b0, mix a1 b1, mix a2 b2))"

definition rgb_to_css :: "int \<times> int \<times> int \<Rightarrow> string" where
  "rgb_to_css c = (case c of (r, g, b) \<Rightarrow> ''rgb('' @ dec_of_int r @ '' '' @ dec_of_int g @ '' '' @ dec_of_int b @ '')'')"

text \<open>The thumb of a slider, at a fraction of its way.\<close>

datatype slider_track = TrackLuminance | TrackTemperature

definition slider_thumb :: "slider_track \<Rightarrow> string \<Rightarrow> rat \<Rightarrow> string" where
  "slider_thumb track tint_hex fraction = (case track of
     TrackTemperature \<Rightarrow> rgb_to_css (mix_rgb (255, 160, 64) (160, 236, 255) fraction)
   | TrackLuminance \<Rightarrow> (case or_else (hex_to_rgb tint_hex) (255, 106, 0) of (r, g, b) \<Rightarrow> rgb_to_css (int r, int g, int b)))"

section \<open>What is known of the light\<close>

text \<open>The light shown: that of the device, the one of channel 0, or the first.\<close>

definition shown_light :: "web_device option \<Rightarrow> web_light option" where
  "shown_light st = (case st of None \<Rightarrow> None
     | Some d \<Rightarrow> first_some (light0_of (wd_light d) (or_else (wd_lights d) []))
                  (case or_else (wd_lights d) [] of [] \<Rightarrow> None | l # _ \<Rightarrow> Some l))"

definition light_figure :: "(web_light \<Rightarrow> rat option) \<Rightarrow> rat \<Rightarrow> rat \<Rightarrow> web_light option \<Rightarrow> rat" where
  "light_figure get hi def l = (case Option.bind l get of None \<Rightarrow> def | Some n \<Rightarrow> clamp n 0 hi)"

definition device_lum :: "web_light option \<Rightarrow> rat" where
  "device_lum = light_figure wl_luminance 100 50"

definition device_temp :: "web_light option \<Rightarrow> rat" where
  "device_temp = light_figure wl_temperature 100 50"

definition device_rgb :: "web_light option \<Rightarrow> rat" where
  "device_rgb = light_figure wl_rgb 16777215 16738816"

section \<open>Sending a change\<close>

record light_patch =
  lp_luminance :: "rat option"
  lp_temperature :: "rat option"
  lp_rgb :: "rat option"

definition clamped_member :: "string \<Rightarrow> int \<Rightarrow> rat option \<Rightarrow> (string \<times> jsval) list" where
  "clamped_member k hi v = (case v of None \<Rightarrow> [] | Some n \<Rightarrow> [(k, js_int (clamp (js_round n) 0 hi))])"

definition light_body :: "string \<Rightarrow> light_patch \<Rightarrow> jsval" where
  "light_body uuid p = JObj ([(''uuid'', JStr uuid), (''channel'', js_int 0), (''onoff'', js_int 1)]
     @ clamped_member ''luminance'' 100 (lp_luminance p) @ clamped_member ''temperature'' 100 (lp_temperature p)
     @ clamped_member ''rgb'' 16777215 (lp_rgb p))"

definition light_call :: "string \<Rightarrow> light_patch \<Rightarrow> web_effect" where
  "light_call uuid p = Call ''POST'' (api_path [''device'', ''light'']) (light_body uuid p)"

section \<open>The panel\<close>

datatype light_mode = ModeWhite | ModeColor

record light_panel =
  pl_mode :: light_mode
  pl_lum :: rat
  pl_temp :: rat
  pl_color :: string
  pl_drag_lum :: bool
  pl_drag_temp :: bool
  pl_drag_color :: bool
  pl_busy :: bool

definition panel_init :: "web_light option \<Rightarrow> light_panel" where
  "panel_init l = \<lparr>pl_mode = (if Option.bind l wl_temperature = None then ModeColor else ModeWhite), pl_lum = device_lum l,
     pl_temp = device_temp l, pl_color = rgb_to_hex (device_rgb l), pl_drag_lum = False, pl_drag_temp = False,
     pl_drag_color = False, pl_busy = False\<rparr>"

text \<open>The effects that run when a figure of the device has changed: a draft that is not being dragged
  follows it.\<close>

definition panel_device :: "web_light option \<Rightarrow> web_light option \<Rightarrow> light_panel \<Rightarrow> light_panel" where
  "panel_device before now p =
     (let p1 = (if device_lum now \<noteq> device_lum before \<and> \<not> pl_drag_lum p then p\<lparr>pl_lum := device_lum now\<rparr> else p);
          p2 = (if device_temp now \<noteq> device_temp before \<and> \<not> pl_drag_temp p then p1\<lparr>pl_temp := device_temp now\<rparr> else p1)
      in if rgb_to_hex (device_rgb now) \<noteq> rgb_to_hex (device_rgb before) \<and> \<not> pl_drag_color p
         then p2\<lparr>pl_color := rgb_to_hex (device_rgb now)\<rparr> else p2)"

datatype light_control =
    LumMoved rat | LumReleased rat
  | TempMoved rat | TempReleased rat
  | HueMoved string | HueReleased string
  | TempPreset rat
  | ColorPreset nat
  | Dim
  | Sync
  | ShowMode light_mode

text \<open>\<open>Warm\<close>, \<open>Neutral\<close> and \<open>Cool\<close>, and the colours of the palette.\<close>

definition temp_presets :: "rat list" where
  "temp_presets = [20, 52, 84]"

definition color_presets :: "nat list" where
  "color_presets = [16726843, 16738816, 16764928, 3003583, 3900150, 11032055]"

definition send_light :: "string \<Rightarrow> light_patch \<Rightarrow> light_panel \<Rightarrow> light_panel \<times> web_effect list" where
  "send_light uuid patch p = (p\<lparr>pl_busy := True\<rparr>, [light_call uuid patch])"

text \<open>A disabled control gives no event; all are disabled while a request is under way, but the choice
  of the mode.\<close>

fun panel_event :: "string \<Rightarrow> light_control \<Rightarrow> light_panel \<Rightarrow> light_panel \<times> web_effect list" where
  "panel_event uuid (ShowMode m) p = (p\<lparr>pl_mode := m\<rparr>, [])"
| "panel_event uuid ev p = (if pl_busy p then (p, []) else case ev of
       LumMoved n \<Rightarrow> (p\<lparr>pl_drag_lum := True, pl_lum := n\<rparr>, [])
     | LumReleased n \<Rightarrow> send_light uuid \<lparr>lp_luminance = Some n, lp_temperature = None, lp_rgb = None\<rparr> (p\<lparr>pl_drag_lum := False, pl_lum := n\<rparr>)
     | TempMoved n \<Rightarrow> (p\<lparr>pl_drag_temp := True, pl_temp := n\<rparr>, [])
     | TempReleased n \<Rightarrow> send_light uuid \<lparr>lp_luminance = Some (pl_lum p), lp_temperature = Some n, lp_rgb = None\<rparr>
         (p\<lparr>pl_drag_temp := False, pl_temp := n\<rparr>)
     | HueMoved c \<Rightarrow> (p\<lparr>pl_drag_color := True, pl_color := c\<rparr>, [])
     | HueReleased c \<Rightarrow> (let q = p\<lparr>pl_drag_color := False, pl_color := c\<rparr> in case rgb_int_from_color c of
         None \<Rightarrow> (q, [])
       | Some rgb \<Rightarrow> send_light uuid \<lparr>lp_luminance = Some (pl_lum p), lp_temperature = None, lp_rgb = Some (of_nat rgb)\<rparr> q)
     | TempPreset n \<Rightarrow> send_light uuid \<lparr>lp_luminance = Some (pl_lum p), lp_temperature = Some n, lp_rgb = None\<rparr> (p\<lparr>pl_temp := n\<rparr>)
     | ColorPreset rgb \<Rightarrow> send_light uuid \<lparr>lp_luminance = Some (pl_lum p), lp_temperature = None, lp_rgb = Some (of_nat rgb)\<rparr>
         (p\<lparr>pl_color := rgb_to_hex (of_nat rgb)\<rparr>)
     | Dim \<Rightarrow> send_light uuid \<lparr>lp_luminance = Some 0, lp_temperature = None, lp_rgb = None\<rparr> p
     | Sync \<Rightarrow> (p, request_device_refresh uuid)
     | _ \<Rightarrow> (p, []))"

text \<open>The end of the request: a refresh of the device, or the notice with its title and detail.\<close>

datatype light_notice = LightNotice string string

definition light_sent :: "string \<Rightarrow> client_error + jsval \<Rightarrow> light_panel \<Rightarrow> light_panel \<times> web_effect list \<times> light_notice list" where
  "light_sent uuid r p = (case r of
     Inl e \<Rightarrow> (p\<lparr>pl_busy := False\<rparr>, [], [LightNotice ''Light update failed'' (client_message e)])
   | Inr _ \<Rightarrow> (p\<lparr>pl_busy := False\<rparr>, request_device_refresh uuid, []))"

text \<open>The slider of the action widget on a card, and its like in the quick strip.\<close>

record light_strip =
  st_lum :: rat
  st_busy :: bool

definition strip_init :: "web_light option \<Rightarrow> light_strip" where
  "strip_init l = \<lparr>st_lum = device_lum l, st_busy = False\<rparr>"

definition strip_device :: "web_light option \<Rightarrow> web_light option \<Rightarrow> light_strip \<Rightarrow> light_strip" where
  "strip_device before now s = (if device_lum now \<noteq> device_lum before then s\<lparr>st_lum := device_lum now\<rparr> else s)"

definition strip_moved :: "rat \<Rightarrow> light_strip \<Rightarrow> light_strip" where
  "strip_moved n s = (if st_busy s then s else s\<lparr>st_lum := n\<rparr>)"

definition strip_released :: "string \<Rightarrow> rat \<Rightarrow> light_strip \<Rightarrow> light_strip \<times> web_effect list" where
  "strip_released uuid n s = (if st_busy s then (s, [])
     else (s\<lparr>st_lum := n, st_busy := True\<rparr>, [light_call uuid \<lparr>lp_luminance = Some n, lp_temperature = None, lp_rgb = None\<rparr>]))"

definition strip_sent :: "string \<Rightarrow> client_error + jsval \<Rightarrow> light_strip \<Rightarrow> light_strip \<times> web_effect list \<times> light_notice list" where
  "strip_sent uuid r s = (case r of
     Inl e \<Rightarrow> (s\<lparr>st_busy := False\<rparr>, [], [LightNotice ''Light update failed'' (client_message e)])
   | Inr _ \<Rightarrow> (s\<lparr>st_busy := False\<rparr>, request_device_refresh uuid, []))"

section \<open>Properties\<close>

subsection \<open>Colours\<close>

lemma clamp_bounds: "lo \<le> hi \<Longrightarrow> lo \<le> clamp n lo hi \<and> clamp n lo hi \<le> hi"
  by (simp add: clamp_def)

lemma clamp_id [simp]: "lo \<le> n \<Longrightarrow> n \<le> hi \<Longrightarrow> clamp n lo hi = n"
  by (simp add: clamp_def)

lemma radix_hex_digit [simp]: "n < 16 \<Longrightarrow> radix_val 16 (hex_digit n) = Some n"
  by (auto simp: hex_digit_def radix_val_def code_of_def digit_char_def Let_def)

lemma nat_of_radix_snoc: "nat_of_radix r (ds @ [c]) = r * nat_of_radix r ds + or_else (radix_val r c) 0"
  by (simp add: nat_of_radix_def)

lemma hex_of_nat_value: "nat_of_radix 16 (hex_of_nat n) = n \<and> list_all (\<lambda>c. radix_val 16 c \<noteq> None) (hex_of_nat n)"
proof (induction n rule: hex_of_nat.induct)
  case (1 n)
  show ?case
  proof (cases "n < 16")
    case True
    then show ?thesis by (simp add: hex_of_nat.simps [of n] nat_of_radix_def)
  next
    case False
    with 1 show ?thesis by (simp add: hex_of_nat.simps [of n] nat_of_radix_snoc)
  qed
qed

lemma hex_of_nat_length: "n < 16 ^ Suc k \<Longrightarrow> length (hex_of_nat n) \<le> Suc k"
proof (induction k arbitrary: n)
  case 0
  then show ?case by (simp add: hex_of_nat.simps)
next
  case (Suc k)
  then have "n div 16 < 16 ^ Suc k" by (simp add: div_less_iff_less_mult)
  with Suc.IH have "length (hex_of_nat (n div 16)) \<le> Suc k" by blast
  then show ?case by (subst hex_of_nat.simps) simp
qed

lemma nat_of_radix_zeros: "nat_of_radix 16 (replicate n (CHR ''0'') @ ds) = nat_of_radix 16 ds"
proof (induction n)
  case (Suc n)
  have "radix_val 16 (CHR ''0'') = Some 0" by (simp add: radix_val_def code_of_def)
  with Suc show ?case by (simp add: nat_of_radix_def)
qed simp

lemma padded_hex:
  assumes "n < 16777216"
  shows "length (pad_start 6 (hex_of_nat n)) = 6" "nat_of_radix 16 (pad_start 6 (hex_of_nat n)) = n"
    "all_radix 16 (pad_start 6 (hex_of_nat n))"
proof -
  have len: "length (hex_of_nat n) \<le> 6" using hex_of_nat_length [of n 5] assms by simp
  then show "length (pad_start 6 (hex_of_nat n)) = 6" by (simp add: pad_start_def)
  then have "pad_start 6 (hex_of_nat n) \<noteq> []" by auto
  moreover have "radix_val 16 (CHR ''0'') = Some 0" by (simp add: radix_val_def code_of_def)
  ultimately show "all_radix 16 (pad_start 6 (hex_of_nat n))"
    using hex_of_nat_value [of n] by (auto simp: all_radix_def pad_start_def list_all_iff)
  show "nat_of_radix 16 (pad_start 6 (hex_of_nat n)) = n"
    using hex_of_nat_value [of n] by (simp add: pad_start_def nat_of_radix_zeros)
qed

lemma not_space_radix: "radix_val 16 c \<noteq> None \<Longrightarrow> \<not> is_space c"
  by (auto simp: radix_val_def is_space_def Let_def split: if_splits)

lemma trim_hex:
  assumes "all_radix 16 ds"
  shows "trim (CHR ''#'' # ds) = CHR ''#'' # ds"
proof -
  from assms have ds: "ds \<noteq> []" "\<not> is_space (last ds)"
    by (simp_all add: all_radix_def not_space_radix list_all_iff)
  moreover have "\<not> is_space (CHR ''#'')" by code_simp
  ultimately show ?thesis by (intro trim_ends) simp_all
qed

definition clamped_rgb :: "rat \<Rightarrow> nat" where
  "clamped_rgb rgb = nat (clamp (js_round rgb) 0 16777215)"

lemma clamped_rgb_less: "clamped_rgb rgb < 16777216"
  using clamp_bounds [of 0 16777215 "js_round rgb"] by (simp add: clamped_rgb_def nat_less_iff)

lemma hex_prefix_rgb: "hex_prefix (trim (rgb_to_hex rgb)) = Some (pad_start 6 (hex_of_nat (clamped_rgb rgb)), [])"
  using padded_hex [OF clamped_rgb_less]
  by (simp add: rgb_to_hex_def flip: clamped_rgb_def) (simp add: trim_hex hex_prefix_def Let_def)

text \<open>A colour survives its text: the text of any number is a \<open>#\<close> and six digits, the colour read
  from it is the number rounded and brought between black and white, and its three parts are the
  bytes of that number.\<close>

theorem colour_text_round_trip:
  "length (rgb_to_hex rgb) = 7 \<and> rgb_int_from_color (rgb_to_hex rgb) = Some (nat (clamp (js_round rgb) 0 16777215)) \<and>
   (\<exists>r g b. hex_to_rgb (rgb_to_hex rgb) = Some (r, g, b) \<and> r < 256 \<and> g < 256 \<and> b < 256 \<and>
      (r * 256 + g) * 256 + b = nat (clamp (js_round rgb) 0 16777215))"
proof -
  define n where "n = clamped_rgb rgb"
  note hex = padded_hex [OF clamped_rgb_less [of rgb], folded n_def]
  have less: "n div 65536 < 256" using clamped_rgb_less [of rgb] by (simp add: n_def)
  moreover have "n div 65536 * 256 + n div 256 mod 256 = n div 256"
    using div_mult2_eq [of n 256 256] by simp
  ultimately have "(n div 65536 mod 256 * 256 + n div 256 mod 256) * 256 + n mod 256 = n" by simp
  with less show ?thesis
    using hex hex_prefix_rgb [of rgb]
    by (simp add: rgb_int_from_color_def hex_to_rgb_def rgb_to_hex_def Let_def flip: clamped_rgb_def n_def)
qed

subsection \<open>What the controls send\<close>

text \<open>\<open>apiPost\<close>: the body arrives as its JSON text is read.\<close>

definition post_request :: "jsval \<Rightarrow> api_request" where
  "post_request body = \<lparr>ar_content_type = Some ''application/json'',
     ar_body = Some (if body = JUndef then JObj [] else json_round body)\<rparr>"

lemma json_type [simp]: "str_includes ''application/json'' (to_lower ''application/json'')"
  by code_simp

lemma body_of_post [simp]: "body_of (post_request (JObj kvs)) = json_round (JObj kvs)"
  by (simp add: body_of_def parse_json_body_def post_request_def nn_def)

definition patch_options :: "light_patch \<Rightarrow> light_options" where
  "patch_options p = \<lparr>lo_channel = Some 0, lo_onoff = Some 1,
     lo_luminance = map_option (\<lambda>n. clamp (js_round n) 0 100) (lp_luminance p),
     lo_temperature = map_option (\<lambda>n. clamp (js_round n) 0 100) (lp_temperature p),
     lo_rgb = map_option (\<lambda>n. clamp (js_round n) 0 16777215) (lp_rgb p), lo_capacity = None, lo_transform = None\<rparr>"

lemma field_light_body:
  "json_round (light_body uuid p) = light_body uuid p"
  "field (light_body uuid p) ''uuid'' = JStr uuid" "field (light_body uuid p) ''channel'' = js_int 0" "field (light_body uuid p) ''onoff'' = js_int 1"
  "field (light_body uuid p) ''luminance'' = (case lp_luminance p of None \<Rightarrow> JUndef | Some n \<Rightarrow> js_int (clamp (js_round n) 0 100))"
  "field (light_body uuid p) ''temperature'' = (case lp_temperature p of None \<Rightarrow> JUndef | Some n \<Rightarrow> js_int (clamp (js_round n) 0 100))"
  "field (light_body uuid p) ''rgb'' = (case lp_rgb p of None \<Rightarrow> JUndef | Some n \<Rightarrow> js_int (clamp (js_round n) 0 16777215))"
  by (auto simp: light_body_def clamped_member_def split: option.split)

lemma light_field_clamped:
  "0 \<le> hi \<Longrightarrow> light_field (case v of None \<Rightarrow> JUndef | Some n \<Rightarrow> js_int (clamp (js_round n) 0 hi)) hi message code
     = Inr (map_option (\<lambda>n. clamp (js_round n) 0 hi) v)"
  by (cases v) (auto simp: light_field_def clamp_int_def clamp_def)

lemma light_body_handled:
  assumes "uuid \<noteq> []" "host_and_key e uuid = Inr (host, key)"
  shows "set_device_light e (post_request (light_body uuid p)) w =
    asking e (set_light (str_of host) key (patch_options p) None)
      (\<lambda>resp w. (ApiOk (JObj [(''host'', host), (''channel'', js_int 0), (''resp'', resp)]), poll_after e uuid w)) w"
proof -
  have body: "body_of (post_request (light_body uuid p)) = light_body uuid p"
    using field_light_body(1) by (metis body_of_post light_body_def)
  show ?thesis
    using assms by (simp add: set_device_light_def body field_light_body light_field_clamped string_or_empty_def nn_def body_channel_def
        channel_num_def onoff_of_def with_device_def patch_options_def Let_def)
qed

text \<open>The figures a control means to send.\<close>

definition meant_patch :: "light_control \<Rightarrow> light_panel \<Rightarrow> light_patch" where
  "meant_patch ev p = \<lparr>lp_luminance = Some (case ev of LumReleased n \<Rightarrow> n | Dim \<Rightarrow> 0 | _ \<Rightarrow> pl_lum p),
     lp_temperature = (case ev of TempReleased n \<Rightarrow> Some n | TempPreset n \<Rightarrow> Some n | _ \<Rightarrow> None),
     lp_rgb = (case ev of ColorPreset c \<Rightarrow> Some (of_nat c) | HueReleased c \<Rightarrow> map_option of_nat (rgb_int_from_color c) | _ \<Rightarrow> None)\<rparr>"

lemma panel_event_cases:
  "case panel_event uuid ev p of (p', es) \<Rightarrow>
     (es = [] \<or> es = request_device_refresh uuid) \<and> pl_busy p' = pl_busy p \<or>
     es = [light_call uuid (meant_patch ev p)] \<and> \<not> pl_busy p \<and> pl_busy p'"
  by (cases ev) (auto simp: send_light_def meant_patch_def Let_def split: option.splits)

text \<open>C18. What the controls of a light do to it: each action of the user sends nothing, asks for a
  refresh, or sends one change, and then only while no other is under way. The server accepts every
  change the controls send, for a device with a known host, and passes it on to the light in one
  request that switches it on and carries the brightness meant, or that of the slider, and the
  temperature or colour meant, each rounded and within its range; it fails only when the light does.\<close>

theorem light_controls_reach_light:
  assumes "uuid \<noteq> []" "host_and_key e uuid = Inr (host, key)"
  shows "case panel_event uuid ev p of (p', es) \<Rightarrow>
     (es = [] \<or> es = request_device_refresh uuid) \<and> pl_busy p' = pl_busy p \<or>
     (\<exists>body opts. es = [Call ''POST'' (api_path [''device'', ''light'']) body] \<and> \<not> pl_busy p \<and> pl_busy p' \<and>
        lo_onoff opts = Some 1 \<and> lo_channel opts = Some 0 \<and>
        lo_luminance opts = Some (max 0 (min 100 (js_round (case ev of LumReleased n \<Rightarrow> n | Dim \<Rightarrow> 0 | _ \<Rightarrow> pl_lum p)))) \<and>
        lo_temperature opts = (case ev of TempReleased n \<Rightarrow> Some (max 0 (min 100 (js_round n)))
           | TempPreset n \<Rightarrow> Some (max 0 (min 100 (js_round n))) | _ \<Rightarrow> None) \<and>
        lo_rgb opts = (case ev of ColorPreset c \<Rightarrow> Some (min 16777215 (int c))
           | HueReleased c \<Rightarrow> map_option (\<lambda>n. min 16777215 (int n)) (rgb_int_from_color c) | _ \<Rightarrow> None) \<and>
        (case set_device_light e (post_request body) w of (resp, w') \<Rightarrow>
           w_sent w' = w_sent w @ [set_light (str_of host) key opts None] \<and>
           (is_api_ok resp \<longleftrightarrow> is_ok (e_lan e (w_sent w) (set_light (str_of host) key opts None)))))"
proof -
  have round: "js_round (of_nat n) = int n" for n using js_round_of_int [of "int n"] by simp
  define opts where "opts = patch_options (meant_patch ev p)"
  have o: "lo_onoff opts = Some 1" "lo_channel opts = Some 0"
    "lo_luminance opts = Some (max 0 (min 100 (js_round (case ev of LumReleased n \<Rightarrow> n | Dim \<Rightarrow> 0 | _ \<Rightarrow> pl_lum p))))"
    "lo_temperature opts = (case ev of TempReleased n \<Rightarrow> Some (max 0 (min 100 (js_round n)))
       | TempPreset n \<Rightarrow> Some (max 0 (min 100 (js_round n))) | _ \<Rightarrow> None)"
    "lo_rgb opts = (case ev of ColorPreset c \<Rightarrow> Some (min 16777215 (int c))
       | HueReleased c \<Rightarrow> map_option (\<lambda>n. min 16777215 (int n)) (rgb_int_from_color c) | _ \<Rightarrow> None)"
    by (simp_all add: opts_def patch_options_def meant_patch_def clamp_def round option.map_comp comp_def split: light_control.split)
  have "case set_device_light e (post_request (light_body uuid (meant_patch ev p))) w of (resp, w') \<Rightarrow>
      w_sent w' = w_sent w @ [set_light (str_of host) key opts None] \<and>
      (is_api_ok resp \<longleftrightarrow> is_ok (e_lan e (w_sent w) (set_light (str_of host) key opts None)))"
    by (simp add: light_body_handled [OF assms] asking_def ask_def opts_def lan_failure_def poll_after_def split: sum.split)
  then show ?thesis
    using panel_event_cases [where uuid = uuid and ev = ev and p = p] o by (auto simp: split_def light_call_def)
qed

definition demo_light :: web_light where
  "demo_light = \<lparr>wl_channel = 0, wl_onoff = 1, wl_luminance = Some 140, wl_temperature = None, wl_rgb = Some 255\<rparr>"

lemma light_controls_reach_light_witness:
  "is_api_ok (fst (set_device_light demo_env (post_request (light_body ''u''
     \<lparr>lp_luminance = Some 100, lp_temperature = None, lp_rgb = Some 16764928\<rparr>)) demo_world))"
proof -
  have hk: "host_and_key demo_env ''u'' = Inr (JStr ''h'', ''k'')" by code_simp
  have lan: "is_ok (e_lan demo_env s (set_light ''h'' ''k'' opts None))" for s opts
    by (simp add: demo_env_def demo_lan_def set_light_def ns_light_def ns_system_all_def)
  have call: "panel_event ''u'' (ColorPreset 16764928) (panel_init (Some demo_light)) =
      ((panel_init (Some demo_light))\<lparr>pl_color := rgb_to_hex 16764928, pl_busy := True\<rparr>,
       [Call ''POST'' (api_path [''device'', ''light'']) (light_body ''u'' \<lparr>lp_luminance = Some 100, lp_temperature = None, lp_rgb = Some 16764928\<rparr>)])"
    by (simp add: panel_init_def send_light_def light_call_def demo_light_def device_lum_def light_figure_def clamp_def)
  have idle: "request_device_refresh ''u'' \<noteq> [Call ''POST'' (api_path [''device'', ''light'']) body]" for body
    by (simp add: request_device_refresh_def api_path_def)
  show ?thesis
    using light_controls_reach_light [OF _ hk, where ev = "ColorPreset 16764928" and p = "panel_init (Some demo_light)" and w = demo_world]
    unfolding call by (auto simp: idle idle [THEN not_sym] lan split_def)
qed

subsection \<open>What the controls show\<close>

text \<open>The slider on a card sends what the brightness slider of the panel sends.\<close>

lemma strip_like_panel:
  "st_busy s = pl_busy p \<Longrightarrow> snd (strip_released uuid n s) = snd (panel_event uuid (LumReleased n) p)"
  by (simp add: strip_released_def send_light_def)

text \<open>What a new state of the light changes is shown at once, unless the user holds the control.\<close>

lemma panel_follows_light:
  "device_lum now \<noteq> device_lum before \<Longrightarrow> pl_lum (panel_device before now p) = (if pl_drag_lum p then pl_lum p else device_lum now)"
  "device_temp now \<noteq> device_temp before \<Longrightarrow> pl_temp (panel_device before now p) = (if pl_drag_temp p then pl_temp p else device_temp now)"
  "pl_busy (panel_device before now p) = pl_busy p"
  by (simp_all add: panel_device_def Let_def)

text \<open>Every figure of the device that is shown is within the range of its slider.\<close>

lemma device_figures:
  "0 \<le> device_lum l \<and> device_lum l \<le> 100" "0 \<le> device_temp l \<and> device_temp l \<le> 100"
  "0 \<le> device_rgb l \<and> device_rgb l \<le> 16777215"
  by (auto simp: device_lum_def device_temp_def device_rgb_def light_figure_def clamp_def split: option.split)

end
