(* ===== verification/WebCards.thy ===== *)
theory WebCards
  imports WebLight
begin

text \<open>
  The card of a device, \<open>apps/web/src/views/devices/DeviceCard.tsx\<close>: what it shows of the device, and
  its state with the requests behind the power history, the timers and the triggers.

  \<open>card_event\<close> is the reaction to the user: the new state of the card, the events sent to the machine
  of the device list, and the tasks started. A task is the asynchronous part of a handler; \<open>task_calls\<close>
  are its requests, in order, each sent when the one before has succeeded, and \<open>card_end\<close> is what
  follows the last reply or the first failure. Controls that are not shown or disabled give no event.
\<close>

section \<open>Texts\<close>

text \<open>\<open>x.toFixed(f)\<close> for numbers below \<open>10 ^ 21\<close>.\<close>

definition to_fixed :: "nat \<Rightarrow> rat \<Rightarrow> string" where
  "to_fixed f x = (let n = nat (js_round (\<bar>x\<bar> * 10 ^ f)) in
     (if x < 0 then ''-'' else []) @ dec_of_nat (n div 10 ^ f) @
     (if f = 0 then [] else CHR ''.'' # pad_start f (dec_of_nat (n mod 10 ^ f))))"

definition fmt_w :: "rat \<Rightarrow> string" where
  "fmt_w n = (if 1000 \<le> \<bar>n\<bar> then to_fixed 2 (n / 1000) @ '' kW''
     else if 100 \<le> \<bar>n\<bar> then to_fixed 0 n @ '' W''
     else if 10 \<le> \<bar>n\<bar> then to_fixed 1 n @ '' W''
     else to_fixed 2 n @ '' W'')"

definition fmt_v :: "rat \<Rightarrow> string" where
  "fmt_v v = to_fixed (if 100 \<le> v then 0 else 1) v @ '' V''"

definition fmt_a :: "rat \<Rightarrow> string" where
  "fmt_a a = to_fixed (if 10 \<le> a then 1 else 2) a @ '' A''"

text \<open>The line of the power history: the points of the values that are numbers, then its path.\<close>

definition numbered :: "'a list \<Rightarrow> (nat \<times> 'a) list" where
  "numbered xs = zip [0..<length xs] xs"

definition spark_points :: "rat option list \<Rightarrow> rat \<Rightarrow> rat \<Rightarrow> rat \<Rightarrow> (rat \<times> rat) list" where
  "spark_points values width height pad =
     (let pts = List.map_filter (\<lambda>(i, v). map_option (\<lambda>v. (i, v)) v) (numbered values);
          vs = map snd pts; lo = Min (set vs); hi = Max (set vs); span = max (1 / 10000) (hi - lo);
          x = (\<lambda>i. pad + of_nat i / of_nat (max 1 (length values - 1)) * (width - pad * 2));
          y = (\<lambda>v. let t = (v - lo) / span in pad + (1 - t) * (height - pad * 2))
      in if length pts < 2 then [] else map (\<lambda>(i, v). (x i, y v)) pts)"

definition sparkline_path :: "rat option list \<Rightarrow> rat \<Rightarrow> rat \<Rightarrow> rat \<Rightarrow> string" where
  "sparkline_path values width height pad =
     foldl (\<lambda>d (x, y). d @ (if d \<noteq> [] then '' L '' else ''M '') @ to_fixed 2 x @ '' '' @ to_fixed 2 y) []
       (spark_points values width height pad)"

section \<open>What is shown of a device\<close>

definition friendly_device_type :: "string \<Rightarrow> string" where
  "friendly_device_type model = (let m = to_upper (trim model) in
     if starts_with ''MSS'' m then ''Smart Wi-Fi Plug''
     else if starts_with ''MSL'' m then ''Smart Wi-Fi Light''
     else if starts_with ''MSP'' m then ''Smart Power Strip''
     else if starts_with ''MTS'' m then ''Smart Thermostat''
     else if starts_with ''MSH'' m then ''Smart Sensor''
     else if starts_with ''MSG'' m then ''Smart Garage Opener''
     else if starts_with ''MRS'' m then ''Smart Roller Shutter''
     else [])"

definition type_key :: "jsval \<Rightarrow> string" where
  "type_key d = string_or_empty (field d ''deviceType'') @ '' '' @ string_or_empty (field d ''subType'')"

definition prefers_toggle_for :: "jsval \<Rightarrow> bool" where
  "prefers_toggle_for d = list_ex (\<lambda>s. str_includes s (to_lower (type_key d))) [''msl'', ''mss'', ''light'', ''switch'']"

text \<open>\<open>String(hostEntry.k)\<close> when there is one.\<close>

definition host_member :: "jsval \<Rightarrow> string \<Rightarrow> string" where
  "host_member entry k = or_else (truthy_str (field entry k)) []"

definition card_title :: "string \<Rightarrow> jsval \<Rightarrow> string" where
  "card_title uuid d = (let name = string_or_empty (field d ''devName'') in if name = [] then uuid else name)"

definition card_model :: "jsval \<Rightarrow> string" where
  "card_model d = trim (string_or_empty (field d ''deviceType''))"

definition card_subtitle :: "jsval \<Rightarrow> string" where
  "card_subtitle d = join_with '' / '' (filter (\<lambda>s. s \<noteq> []) [friendly_device_type (card_model d), card_model d])"

definition card_mac :: "jsval \<Rightarrow> jsval \<Rightarrow> jsval" where
  "card_mac d entry = (let cloud = nn (nn (field d ''macAddress'') (field d ''mac'')) (JStr []) in
     if truthy cloud then cloud else JStr (host_member entry ''mac''))"

definition is_plug_like :: "jsval \<Rightarrow> bool" where
  "is_plug_like d = (let m = to_upper (card_model d) in
     starts_with ''MSS'' m \<or> starts_with ''MSP'' m \<or>
     list_ex (\<lambda>s. str_includes s (to_upper (type_key d))) [''MSS'', ''MSP'', ''PLUG'', ''STRIP''])"

text \<open>Whether the device is on, as far as known: its light, else its relay.\<close>

definition lan_on :: "web_device option \<Rightarrow> bool option" where
  "lan_on st = (case st of None \<Rightarrow> None
     | Some s \<Rightarrow> Some (case light0_of (wd_light s) (or_else (wd_lights s) []) of
         Some l \<Rightarrow> wl_onoff l = 1
       | None \<Rightarrow> (case find (\<lambda>c. ts_channel c = 0) (or_else (wd_channels s) []) of
           Some c \<Rightarrow> ts_onoff c = 1 | None \<Rightarrow> wd_onoff s = 1)))"

definition is_smart_light :: "jsval \<Rightarrow> web_device option \<Rightarrow> bool" where
  "is_smart_light d st \<longleftrightarrow> starts_with ''MSL'' (to_upper (trim (string_or_empty (field d ''deviceType'')))) \<or>
     (case st of None \<Rightarrow> False
      | Some s \<Rightarrow> wd_kind s = Some ''light'' \<or> wd_kind s = Some ''mixed'' \<or> or_else (wd_lights s) [] \<noteq> [])"

definition card_class :: "bool \<Rightarrow> bool option \<Rightarrow> string" where
  "card_class ready on = (if \<not> ready then ''device-card device-card--inaccessible''
     else case on of Some True \<Rightarrow> ''device-card device-card--on'' | Some False \<Rightarrow> ''device-card device-card--off''
        | None \<Rightarrow> ''device-card'')"

text \<open>The live power in the head of the card.\<close>

definition power_text :: "web_power option \<Rightarrow> string" where
  "power_text p = (case p of None \<Rightarrow> ''(pending)''
     | Some r \<Rightarrow> if wp_stale r then (if nonempty (wp_error r) \<noteq> None then ''unavailable'' else ''stale'')
                else case wp_power_w r of Some n \<Rightarrow> fmt_w n | None \<Rightarrow> ''(pending)'')"

section \<open>The tabs\<close>

datatype manage_tab = TabColor | TabPower | TabSchedules | TabDiagnostics

definition available_tabs :: "bool \<Rightarrow> bool \<Rightarrow> manage_tab list" where
  "available_tabs smart plug = (if smart then [TabColor] else []) @ (if plug then [TabPower] else []) @ [TabSchedules, TabDiagnostics]"

definition tab_name :: "manage_tab \<Rightarrow> string" where
  "tab_name t = (case t of TabColor \<Rightarrow> ''color'' | TabPower \<Rightarrow> ''power'' | TabSchedules \<Rightarrow> ''schedules'' | TabDiagnostics \<Rightarrow> ''diagnostics'')"

definition first_tab :: "manage_tab list \<Rightarrow> manage_tab" where
  "first_tab tabs = (case tabs of [] \<Rightarrow> TabDiagnostics | t # _ \<Rightarrow> t)"

definition coerce_tab :: "manage_tab list \<Rightarrow> string \<Rightarrow> manage_tab" where
  "coerce_tab tabs s = (case find (\<lambda>t. tab_name t = s) [TabColor, TabPower, TabSchedules, TabDiagnostics] of
     Some t \<Rightarrow> t | None \<Rightarrow> if TabDiagnostics \<in> set tabs then TabDiagnostics else first_tab tabs)"

definition normalize_tab :: "manage_tab list \<Rightarrow> manage_tab \<Rightarrow> manage_tab" where
  "normalize_tab tabs t = (if t \<in> set tabs then t else first_tab tabs)"

section \<open>The state of a card\<close>

record timer_form =
  tf_edit :: bool
  tf_id :: string
  tf_alias :: string
  tf_channel :: string
  tf_enable :: bool
  tf_type :: string
  tf_week :: string
  tf_time :: string
  tf_sun :: string
  tf_duration :: string
  tf_onoff :: bool

record card =
  cd_open :: bool
  cd_tab :: manage_tab
  cd_history :: "jsval option"
  cd_history_error :: "string option"
  cd_history_loading :: bool
  cd_timer_loading :: bool
  cd_timer_error :: "string option"
  cd_timer_digest :: "jsval option"
  cd_timers :: "jsval option"
  cd_timer_pending :: "(string, bool) jsmap"
  cd_editor :: "timer_form option"
  cd_trigger_loading :: bool
  cd_trigger_error :: "string option"
  cd_trigger_digest :: "jsval option"
  cd_trigger_text :: string
  cd_active_trigger :: "string option"
  cd_trigger_pending :: "(string, bool) jsmap"

definition card_init :: card where
  "card_init = \<lparr>cd_open = False, cd_tab = TabDiagnostics, cd_history = None, cd_history_error = None, cd_history_loading = False,
     cd_timer_loading = False, cd_timer_error = None, cd_timer_digest = None, cd_timers = None, cd_timer_pending = [], cd_editor = None,
     cd_trigger_loading = False, cd_trigger_error = None, cd_trigger_digest = None, cd_trigger_text = [], cd_active_trigger = None,
     cd_trigger_pending = []\<rparr>"

text \<open>What the card knows of its device when the user acts.\<close>

record card_facts =
  cf_uuid :: string
  cf_ready :: bool
  cf_smart :: bool
  cf_plug :: bool
  cf_toggling :: bool
  cf_fetching :: bool

definition card_facts :: "string \<Rightarrow> jsval \<Rightarrow> web_machine \<Rightarrow> card_facts" where
  "card_facts uuid d m = (let c = wm_context m; st = map_get (wc_states c) uuid in
     \<lparr>cf_uuid = uuid, cf_ready = (host_member (field (wc_hosts c) uuid) ''host'' \<noteq> []), cf_smart = is_smart_light d st, cf_plug = is_plug_like d,
      cf_toggling = (case wm_operation m of Toggling _ _ \<Rightarrow> wc_active c = Some uuid | _ \<Rightarrow> False),
      cf_fetching = (case wm_operation m of Diagnosing _ \<Rightarrow> wc_active c = Some uuid | _ \<Rightarrow> False)\<rparr>)"

definition facts_tabs :: "card_facts \<Rightarrow> manage_tab list" where
  "facts_tabs f = available_tabs (cf_smart f) (cf_plug f)"

section \<open>The form of a timer\<close>

text \<open>\<open>toggleOnoffFromExtend\<close>\<close>

definition toggle_onoff :: "jsval \<Rightarrow> nat option" where
  "toggle_onoff ex = (let toggle = field ex ''toggle'' in
     if is_record ex \<and> is_record toggle \<and> field toggle ''onoff'' \<noteq> JUndef then Some (onoff_of (field toggle ''onoff'')) else None)"

definition new_timer_form :: "string \<Rightarrow> timer_form" where
  "new_timer_form i = \<lparr>tf_edit = False, tf_id = i, tf_alias = [], tf_channel = ''0'', tf_enable = True, tf_type = ''0'',
     tf_week = ''0'', tf_time = ''-1'', tf_sun = ''0'', tf_duration = ''0'', tf_onoff = True\<rparr>"

definition shown_number :: "jsval \<Rightarrow> string \<Rightarrow> int \<Rightarrow> string" where
  "shown_number t k def = str_of (nn (field t k) (js_int def))"

definition edit_timer_form :: "jsval \<Rightarrow> timer_form" where
  "edit_timer_form t = \<lparr>tf_edit = True, tf_id = str_of (field t ''id''), tf_alias = string_or_empty (field t ''alias''),
     tf_channel = shown_number t ''channel'' 0, tf_enable = (field t ''enable'' = js_int 1), tf_type = shown_number t ''type'' 0,
     tf_week = shown_number t ''week'' 0, tf_time = shown_number t ''time'' (- 1), tf_sun = shown_number t ''sunOffset'' 0,
     tf_duration = shown_number t ''duration'' 0, tf_onoff = (toggle_onoff (field t ''extend'') = Some 1)\<rparr>"

definition js_switch :: "bool \<Rightarrow> jsval" where
  "js_switch b = js_int (if b then 1 else 0)"

definition js_number :: "string \<Rightarrow> jsval" where
  "js_number s = JNum (num_of_str s)"

text \<open>A timer in the list: its name, its figures and its action; and what is shown when there is none.\<close>

definition timer_label :: "jsval \<Rightarrow> string" where
  "timer_label t = (let alias_text = trim (string_or_empty (field t ''alias'')) in if alias_text \<noteq> [] then alias_text else str_of (field t ''id''))"

definition timer_figures :: "jsval \<Rightarrow> string" where
  "timer_figures t = (let parts = map (\<lambda>(k, name). if field t k = JUndef then [] else name @ str_of (field t k))
       [(''channel'', ''ch ''), (''type'', ''type ''), (''week'', ''week ''), (''time'', ''time ''), (''sunOffset'', ''sun ''), (''duration'', ''dur '')];
     shown = join_with ('' '' @ [CHR 0xB7] @ '' '') (filter (\<lambda>p. p \<noteq> []) parts)
   in if shown = [] then str_of (field t ''id'') else shown)"

definition timer_action :: "jsval \<Rightarrow> string" where
  "timer_action t = ''enabled: '' @ (if field t ''enable'' = js_int 1 then ''yes'' else ''no'') @ '' '' @ [CHR 0xB7] @ '' action: '' @
     (case toggle_onoff (field t ''extend'') of None \<Rightarrow> ''n/a'' | Some n \<Rightarrow> if n = 1 then ''on'' else ''off'')"

definition any_listed :: "jsval option \<Rightarrow> bool" where
  "any_listed v = (case v of Some (JArr (_ # _)) \<Rightarrow> True | _ \<Rightarrow> False)"

definition no_timers_text :: "card \<Rightarrow> string option" where
  "no_timers_text c = (if any_listed (cd_timers c) then None
     else if any_listed (cd_timer_digest c) then Some ''Timer IDs exist in digest, but no rules parsed yet. Hit Refresh.''
     else Some ''No timers reported.'')"

text \<open>The rule of a new timer, and the changes to an edited one.\<close>

definition timer_of_form :: "timer_form \<Rightarrow> jsval" where
  "timer_of_form f = JObj [(''id'', JStr (trim (tf_id f))), (''alias'', JStr (tf_alias f)), (''channel'', js_number (tf_channel f)),
     (''enable'', js_switch (tf_enable f)), (''type'', js_number (tf_type f)), (''week'', js_number (tf_week f)),
     (''time'', js_number (tf_time f)), (''sunOffset'', js_number (tf_sun f)), (''duration'', js_number (tf_duration f)),
     (''extend'', JObj [(''toggle'', JObj [(''onoff'', js_switch (tf_onoff f))])]), (''createTime'', js_int 0)]"

definition patch_of_form :: "timer_form \<Rightarrow> jsval" where
  "patch_of_form f = JObj [(''alias'', JStr (tf_alias f)), (''channel'', js_number (tf_channel f)),
     (''enable'', js_switch (tf_enable f)), (''type'', js_number (tf_type f)), (''week'', js_number (tf_week f)),
     (''time'', js_number (tf_time f)), (''sunOffset'', js_number (tf_sun f)), (''duration'', js_number (tf_duration f)),
     (''toggleOnoff'', js_switch (tf_onoff f))]"

section \<open>Tasks\<close>

datatype card_task =
    LoadHistory int
  | ListTimers
  | ListTriggers
  | SaveTimer timer_form
  | DeleteTimer string
  | SaveTrigger string jsval
  | DeleteTrigger string

definition card_post :: "string list \<Rightarrow> (string \<times> jsval) list \<Rightarrow> string \<Rightarrow> web_effect" where
  "card_post parts members uuid = Call ''POST'' (api_path parts) (JObj ((''uuid'', JStr uuid) # members))"

definition list_timers_call :: "string \<Rightarrow> web_effect" where
  "list_timers_call = card_post [''device'', ''timerx'', ''list''] []"

definition list_triggers_call :: "string \<Rightarrow> web_effect" where
  "list_triggers_call = card_post [''device'', ''triggerx'', ''list''] []"

definition save_timer_call :: "timer_form \<Rightarrow> string \<Rightarrow> web_effect" where
  "save_timer_call f = (if tf_edit f
     then card_post [''device'', ''timerx'', ''patch''] [(''id'', JStr (trim (tf_id f))), (''patch'', patch_of_form f)]
     else card_post [''device'', ''timerx'', ''set''] [(''timer'', timer_of_form f)])"

fun task_calls :: "string \<Rightarrow> card_task \<Rightarrow> web_effect list" where
  "task_calls uuid (LoadHistory now) = [card_post [''telemetry'', ''power'', ''history'']
     [(''channel'', js_int 0), (''fromMs'', js_int (now - 6 * 60 * 60 * 1000)), (''toMs'', js_int now), (''bucketMs'', js_int 60000)] uuid]"
| "task_calls uuid ListTimers = [list_timers_call uuid]"
| "task_calls uuid ListTriggers = [list_triggers_call uuid]"
| "task_calls uuid (SaveTimer f) = [save_timer_call f uuid, list_timers_call uuid]"
| "task_calls uuid (DeleteTimer i) = [card_post [''device'', ''timerx'', ''delete''] [(''id'', JStr i)] uuid, list_timers_call uuid]"
| "task_calls uuid (SaveTrigger i obj) = [card_post [''device'', ''triggerx'', ''set''] [(''trigger'', obj)] uuid, list_triggers_call uuid]"
| "task_calls uuid (DeleteTrigger i) = [card_post [''device'', ''triggerx'', ''delete''] [(''id'', JStr i)] uuid, list_triggers_call uuid]"

text \<open>The outcome of the requests of a task: the first failure, or the last reply.\<close>

fun chain_outcome :: "(client_error + jsval) list \<Rightarrow> client_error + jsval" where
  "chain_outcome [] = Inr JUndef"
| "chain_outcome [r] = r"
| "chain_outcome (Inl e # rs) = Inl e"
| "chain_outcome (Inr _ # rs) = chain_outcome rs"

definition save_key :: "string \<Rightarrow> string" where
  "save_key i = i @ '':save''"

definition delete_key :: "string \<Rightarrow> string" where
  "delete_key i = i @ '':delete''"

text \<open>What a handler does before its first request.\<close>

fun card_begin :: "card_task \<Rightarrow> card \<Rightarrow> card" where
  "card_begin (LoadHistory _) c = c\<lparr>cd_history_error := None, cd_history_loading := True\<rparr>"
| "card_begin ListTimers c = c\<lparr>cd_timer_error := None, cd_timer_loading := True\<rparr>"
| "card_begin ListTriggers c = c\<lparr>cd_trigger_error := None, cd_trigger_loading := True\<rparr>"
| "card_begin (SaveTimer f) c =
     c\<lparr>cd_timer_error := None, cd_timer_pending := map_set (save_key (trim (tf_id f))) True (cd_timer_pending c)\<rparr>"
| "card_begin (DeleteTimer i) c = c\<lparr>cd_timer_error := None, cd_timer_pending := map_set (delete_key i) True (cd_timer_pending c)\<rparr>"
| "card_begin (SaveTrigger i _) c = c\<lparr>cd_trigger_error := None, cd_trigger_pending := map_set (save_key i) True (cd_trigger_pending c)\<rparr>"
| "card_begin (DeleteTrigger i) c =
     c\<lparr>cd_trigger_error := None, cd_trigger_pending := map_set (delete_key i) True (cd_trigger_pending c)\<rparr>"

text \<open>Reading the reply; the digest of the triggers is stored before the rest is looked at.\<close>

definition read_reply :: "string \<Rightarrow> client_error + jsval \<Rightarrow> string + jsval" where
  "read_reply k r = (case r of Inl e \<Rightarrow> Inl (client_message e)
     | Inr d \<Rightarrow> (case read_member d k of Inl e \<Rightarrow> Inl (client_message e) | Inr _ \<Rightarrow> Inr d))"

definition store_timers :: "jsval \<Rightarrow> card \<Rightarrow> card" where
  "store_timers d c = c\<lparr>cd_timer_digest := Some (nn (field d ''digest'') (JArr [])), cd_timers := Some (nn (field d ''timers'') (JArr []))\<rparr>"

definition first_trigger :: "jsval \<Rightarrow> string option" where
  "first_trigger digest = (case digest of JArr (x # _) \<Rightarrow> truthy_str (field x ''id'') | _ \<Rightarrow> None)"

definition rule_text :: "jsval \<Rightarrow> string \<Rightarrow> string" where
  "rule_text d i = (let rule = path d [''rawById'', i, ''payload'', ''triggerx''] in
     json_stringify 2 (if is_record rule then rule else JObj [(''id'', JStr i)]))"

definition store_triggers :: "jsval \<Rightarrow> card \<Rightarrow> card" where
  "store_triggers d c = (let digest = nn (field d ''digest'') (JArr []); c1 = c\<lparr>cd_trigger_digest := Some digest\<rparr> in
     case first_trigger digest of None \<Rightarrow> c1
       | Some i \<Rightarrow> c1\<lparr>cd_active_trigger := Some i, cd_trigger_text := rule_text d i\<rparr>)"

text \<open>What the handlers do after their last reply or first failure, with the events they send.\<close>

definition history_loaded :: "client_error + jsval \<Rightarrow> card \<Rightarrow> card" where
  [simp]: "history_loaded r c = (case read_reply ''points'' r of
       Inl m \<Rightarrow> c\<lparr>cd_history := None, cd_history_error := Some m\<rparr>
     | Inr d \<Rightarrow> c\<lparr>cd_history := Some (nn (field d ''points'') (JArr []))\<rparr>)\<lparr>cd_history_loading := False\<rparr>"

definition timers_loaded :: "client_error + jsval \<Rightarrow> card \<Rightarrow> card" where
  [simp]: "timers_loaded r c = (case read_reply ''digest'' r of
       Inl m \<Rightarrow> c\<lparr>cd_timer_error := Some m\<rparr> | Inr d \<Rightarrow> store_timers d c)\<lparr>cd_timer_loading := False\<rparr>"

definition triggers_loaded :: "client_error + jsval \<Rightarrow> card \<Rightarrow> card" where
  [simp]: "triggers_loaded r c = (case read_reply ''digest'' r of
       Inl m \<Rightarrow> c\<lparr>cd_trigger_error := Some m\<rparr> | Inr d \<Rightarrow> store_triggers d c)\<lparr>cd_trigger_loading := False\<rparr>"

definition timer_settled :: "string \<Rightarrow> card \<Rightarrow> card" where
  [simp]: "timer_settled k c = c\<lparr>cd_timer_pending := map_set k False (cd_timer_pending c)\<rparr>"

definition trigger_settled :: "string \<Rightarrow> card \<Rightarrow> card" where
  [simp]: "trigger_settled k c = c\<lparr>cd_trigger_pending := map_set k False (cd_trigger_pending c)\<rparr>"

definition timer_saved :: "string \<Rightarrow> timer_form \<Rightarrow> client_error + jsval \<Rightarrow> card \<Rightarrow> card \<times> web_event list" where
  [simp]: "timer_saved uuid f r c = (let settled = timer_settled (save_key (trim (tf_id f))) in
     case read_reply ''digest'' r of
       Inl m \<Rightarrow> (settled (c\<lparr>cd_timer_error := Some m\<rparr>), [])
     | Inr d \<Rightarrow> (settled ((store_timers d c)\<lparr>cd_editor := None\<rparr>), [RequestRefresh uuid]))"

definition timer_deleted :: "string \<Rightarrow> string \<Rightarrow> client_error + jsval \<Rightarrow> card \<Rightarrow> card \<times> web_event list" where
  [simp]: "timer_deleted uuid i r c = (let settled = timer_settled (delete_key i) in
     case read_reply ''digest'' r of
       Inl m \<Rightarrow> (settled (c\<lparr>cd_timer_error := Some m\<rparr>), [])
     | Inr d \<Rightarrow> (settled (store_timers d c), [RequestRefresh uuid]))"

definition trigger_saved :: "string \<Rightarrow> string \<Rightarrow> client_error + jsval \<Rightarrow> card \<Rightarrow> card \<times> web_event list" where
  [simp]: "trigger_saved uuid i r c = (let settled = trigger_settled (save_key i) in
     case read_reply ''digest'' r of
       Inl m \<Rightarrow> (settled (c\<lparr>cd_trigger_error := Some m\<rparr>), [])
     | Inr d \<Rightarrow> (settled (c\<lparr>cd_trigger_digest := Some (nn (field d ''digest'') (JArr [])), cd_active_trigger := Some i\<rparr>), [RequestRefresh uuid]))"

definition trigger_deleted :: "string \<Rightarrow> string \<Rightarrow> client_error + jsval \<Rightarrow> card \<Rightarrow> card \<times> web_event list" where
  [simp]: "trigger_deleted uuid i r c = (let settled = trigger_settled (delete_key i) in
     case read_reply ''digest'' r of
       Inl m \<Rightarrow> (settled (c\<lparr>cd_trigger_error := Some m\<rparr>), [])
     | Inr d \<Rightarrow> (settled (c\<lparr>cd_trigger_digest := Some (nn (field d ''digest'') (JArr [])), cd_active_trigger := None, cd_trigger_text := []\<rparr>),
                [RequestRefresh uuid]))"

fun card_end :: "string \<Rightarrow> card_task \<Rightarrow> client_error + jsval \<Rightarrow> card \<Rightarrow> card \<times> web_event list" where
  "card_end uuid (LoadHistory _) r c = (history_loaded r c, [])"
| "card_end uuid ListTimers r c = (timers_loaded r c, [])"
| "card_end uuid ListTriggers r c = (triggers_loaded r c, [])"
| "card_end uuid (SaveTimer f) r c = timer_saved uuid f r c"
| "card_end uuid (DeleteTimer i) r c = timer_deleted uuid i r c"
| "card_end uuid (SaveTrigger i _) r c = trigger_saved uuid i r c"
| "card_end uuid (DeleteTrigger i) r c = trigger_deleted uuid i r c"

section \<open>Actions of the user\<close>

datatype card_press =
    OpenManage manage_tab
  | ModalOpened bool
  | SelectTab string
  | Switched bool
  | ReloadHistory
  | ReloadTimers
  | NewTimer string
  | EditTimer jsval
  | ChangeForm timer_form
  | CancelForm
  | PressSaveTimer
  | PressDeleteTimer string
  | ReloadTriggers
  | SelectTrigger string
  | NewTrigger string
  | ChangeTriggerText string
  | PressSaveTrigger
  | PressDeleteTrigger
  | PressRefreshState
  | PressDiagnostics

type_synonym card_step = "card \<times> web_event list \<times> card_task list"

definition quiet :: "card \<Rightarrow> card_step" where
  "quiet c = (c, [], [])"

definition start_task :: "card_task \<Rightarrow> card \<Rightarrow> card_step" where
  "start_task t c = (card_begin t c, [], [t])"

text \<open>\<open>refreshPowerHistory\<close> and the like are called without their button, too.\<close>

definition refresh_diagnostics :: "card_facts \<Rightarrow> web_event list" where
  "refresh_diagnostics f = (if cf_ready f then [RequestRefresh (cf_uuid f), Diagnostics (cf_uuid f)] else [])"

definition refresh_power_history :: "int \<Rightarrow> card_facts \<Rightarrow> card_task list" where
  "refresh_power_history now f = (if cf_ready f \<and> cf_plug f then [LoadHistory now] else [])"

definition start_fetch_for_tab :: "int \<Rightarrow> card_facts \<Rightarrow> manage_tab \<Rightarrow> card \<Rightarrow> card_step" where
  "start_fetch_for_tab now f t c = (case t of
     TabColor \<Rightarrow> (c, if cf_ready f then [RequestRefresh (cf_uuid f)] else [], [])
   | TabPower \<Rightarrow> (let ts = refresh_power_history now f in (fold card_begin ts c, [], ts))
   | TabSchedules \<Rightarrow> (let ts = (if cf_ready f then [ListTimers, ListTriggers] else []) in (fold card_begin ts c, [], ts))
   | TabDiagnostics \<Rightarrow> (c, refresh_diagnostics f, []))"

definition open_manage :: "int \<Rightarrow> card_facts \<Rightarrow> manage_tab \<Rightarrow> card \<Rightarrow> card_step" where
  "open_manage now f desired c = (let t = normalize_tab (facts_tabs f) desired in
     start_fetch_for_tab now f t (c\<lparr>cd_tab := t, cd_open := True\<rparr>))"

definition modal_opened :: "int \<Rightarrow> card_facts \<Rightarrow> bool \<Rightarrow> card \<Rightarrow> card_step" where
  "modal_opened now f shown c =
     (if shown then let t = normalize_tab (facts_tabs f) (cd_tab c) in start_fetch_for_tab now f t (c\<lparr>cd_open := True, cd_tab := t\<rparr>)
      else (c\<lparr>cd_open := False, cd_editor := None, cd_timer_error := None, cd_trigger_error := None\<rparr>, [CloseDump], []))"

definition pending :: "(string, bool) jsmap \<Rightarrow> string \<Rightarrow> bool" where
  "pending m k \<longleftrightarrow> map_get m k = Some True"

definition press_save_timer :: "card_facts \<Rightarrow> card \<Rightarrow> card_step" where
  "press_save_timer f c = (case cd_editor c of
     None \<Rightarrow> quiet c
   | Some form \<Rightarrow>
       if \<not> cf_ready f \<or> pending (cd_timer_pending c) (save_key (trim (tf_id form))) then quiet c
       else if trim (tf_id form) = [] then quiet (c\<lparr>cd_timer_error := Some ''Missing timer id''\<rparr>)
       else start_task (SaveTimer form) c)"

text \<open>\<open>JSON.parse(triggerJson || 'null')\<close>\<close>

definition press_save_trigger :: "card_facts \<Rightarrow> card \<Rightarrow> card_step" where
  "press_save_trigger f c =
     (if \<not> cf_ready f then quiet c
      else case json_parse (if cd_trigger_text c = [] then ''null'' else cd_trigger_text c) of
        None \<Rightarrow> quiet (c\<lparr>cd_trigger_error := Some ''Invalid JSON''\<rparr>)
      | Some obj \<Rightarrow>
          let i = trim (string_or_empty (field obj ''id'')) in
          if \<not> is_record obj \<or> i = []
          then quiet (c\<lparr>cd_trigger_error := Some (''Trigger JSON must be an object with a non-empty '' @ Cloud.quoted ''id'')\<rparr>)
          else start_task (SaveTrigger i obj) c)"

definition press_delete_trigger :: "card_facts \<Rightarrow> card \<Rightarrow> card_step" where
  "press_delete_trigger f c = (case cd_active_trigger c of
     None \<Rightarrow> quiet c
   | Some i \<Rightarrow> if \<not> cf_ready f \<or> i = [] \<or> pending (cd_trigger_pending c) (delete_key i) then quiet c
              else start_task (DeleteTrigger i) c)"

text \<open>The smaller controls.\<close>

definition select_tab :: "int \<Rightarrow> card_facts \<Rightarrow> string \<Rightarrow> card \<Rightarrow> card_step" where
  [simp]: "select_tab now f k c = (let t = normalize_tab (facts_tabs f) (coerce_tab (facts_tabs f) k) in
     start_fetch_for_tab now f t (c\<lparr>cd_tab := t\<rparr>))"

definition press_switch :: "card_facts \<Rightarrow> bool \<Rightarrow> card \<Rightarrow> card_step" where
  [simp]: "press_switch f b c = (c, if cf_ready f \<and> \<not> cf_toggling f then [Toggle (cf_uuid f) (if b then 1 else 0)] else [], [])"

definition press_history :: "int \<Rightarrow> card_facts \<Rightarrow> card \<Rightarrow> card_step" where
  [simp]: "press_history now f c = (if cd_history_loading c then quiet c
     else let ts = refresh_power_history now f in (fold card_begin ts c, [], ts))"

definition press_reload_timers :: "card_facts \<Rightarrow> card \<Rightarrow> card_step" where
  [simp]: "press_reload_timers f c = (if \<not> cf_ready f \<or> cd_timer_loading c then quiet c else start_task ListTimers c)"

definition press_new_timer :: "card_facts \<Rightarrow> string \<Rightarrow> card \<Rightarrow> card_step" where
  [simp]: "press_new_timer f i c = quiet (if cf_ready f then c\<lparr>cd_editor := Some (new_timer_form i)\<rparr> else c)"

definition press_edit_timer :: "card_facts \<Rightarrow> jsval \<Rightarrow> card \<Rightarrow> card_step" where
  [simp]: "press_edit_timer f t c = quiet (if cf_ready f then c\<lparr>cd_editor := Some (edit_timer_form t)\<rparr> else c)"

definition change_form :: "timer_form \<Rightarrow> card \<Rightarrow> card_step" where
  [simp]: "change_form g c = quiet (c\<lparr>cd_editor := map_option (\<lambda>old. g\<lparr>tf_edit := tf_edit old\<rparr>) (cd_editor c)\<rparr>)"

definition press_delete_timer :: "card_facts \<Rightarrow> string \<Rightarrow> card \<Rightarrow> card_step" where
  [simp]: "press_delete_timer f i c =
     (if \<not> cf_ready f \<or> pending (cd_timer_pending c) (delete_key i) then quiet c else start_task (DeleteTimer i) c)"

definition press_reload_triggers :: "card_facts \<Rightarrow> card \<Rightarrow> card_step" where
  [simp]: "press_reload_triggers f c = (if \<not> cf_ready f \<or> cd_trigger_loading c then quiet c else start_task ListTriggers c)"

definition select_trigger :: "card_facts \<Rightarrow> string \<Rightarrow> card \<Rightarrow> card_step" where
  [simp]: "select_trigger f i c = quiet (if cf_ready f
     then c\<lparr>cd_active_trigger := Some i, cd_trigger_text := json_stringify 2 (JObj [(''id'', JStr i)])\<rparr> else c)"

definition press_new_trigger :: "card_facts \<Rightarrow> string \<Rightarrow> card \<Rightarrow> card_step" where
  [simp]: "press_new_trigger f i c = quiet (if cf_ready f
     then c\<lparr>cd_active_trigger := Some i, cd_trigger_text := json_stringify 2 (JObj [(''id'', JStr i), (''enable'', js_int 1)])\<rparr> else c)"

fun card_event :: "int \<Rightarrow> card_facts \<Rightarrow> card_press \<Rightarrow> card \<Rightarrow> card_step" where
  "card_event now f (OpenManage t) c = open_manage now f t c"
| "card_event now f (ModalOpened b) c = modal_opened now f b c"
| "card_event now f (SelectTab k) c = select_tab now f k c"
| "card_event now f (Switched b) c = press_switch f b c"
| "card_event now f ReloadHistory c = press_history now f c"
| "card_event now f ReloadTimers c = press_reload_timers f c"
| "card_event now f (NewTimer i) c = press_new_timer f i c"
| "card_event now f (EditTimer t) c = press_edit_timer f t c"
| "card_event now f (ChangeForm g) c = change_form g c"
| "card_event now f CancelForm c = quiet (c\<lparr>cd_editor := None\<rparr>)"
| "card_event now f PressSaveTimer c = press_save_timer f c"
| "card_event now f (PressDeleteTimer i) c = press_delete_timer f i c"
| "card_event now f ReloadTriggers c = press_reload_triggers f c"
| "card_event now f (SelectTrigger i) c = select_trigger f i c"
| "card_event now f (NewTrigger i) c = press_new_trigger f i c"
| "card_event now f (ChangeTriggerText s) c = quiet (c\<lparr>cd_trigger_text := s\<rparr>)"
| "card_event now f PressSaveTrigger c = press_save_trigger f c"
| "card_event now f PressDeleteTrigger c = press_delete_trigger f c"
| "card_event now f PressRefreshState c = (c, if cf_ready f then [RequestRefresh (cf_uuid f)] else [], [])"
| "card_event now f PressDiagnostics c = (c, if cf_fetching f then [] else refresh_diagnostics f, [])"

section \<open>Properties\<close>

subsection \<open>Tasks under way\<close>

text \<open>A run of a card, with the tasks under way; any of them may be the next to end.\<close>

inductive card_reach :: "card \<Rightarrow> card_task list \<Rightarrow> bool" where
  init: "card_reach card_init []"
| press: "card_reach c ts \<Longrightarrow> card_event now f p c = (c', es, new) \<Longrightarrow> card_reach c' (ts @ new)"
| ended: "card_reach c ts \<Longrightarrow> t \<in> set ts \<Longrightarrow> card_reach (fst (card_end uuid t r c)) (remove1 t ts)"

definition timer_key :: "card_task \<Rightarrow> string option" where
  "timer_key t = (case t of SaveTimer f \<Rightarrow> Some (save_key (trim (tf_id f))) | DeleteTimer i \<Rightarrow> Some (delete_key i) | _ \<Rightarrow> None)"

lemma keys_differ [simp]: "save_key i \<noteq> delete_key j" "delete_key j \<noteq> save_key i"
proof -
  show "save_key i \<noteq> delete_key j"
  proof
    assume "save_key i = delete_key j"
    then have "last (save_key i) = last (delete_key j) \<and> last (butlast (save_key i)) = last (butlast (delete_key j))" by simp
    then show False by (simp add: save_key_def delete_key_def butlast_append)
  qed
  then show "delete_key j \<noteq> save_key i" by metis
qed

lemma keys_inject [simp]: "save_key i = save_key j \<longleftrightarrow> i = j" "delete_key i = delete_key j \<longleftrightarrow> i = j"
  by (simp_all add: save_key_def delete_key_def)

lemma pending_set [simp]: "pending (map_set k b m) j = (if j = k then b else pending m j)"
  by (simp add: pending_def)

lemma card_begin_pending: "cd_timer_pending (card_begin t c) =
    (case timer_key t of None \<Rightarrow> cd_timer_pending c | Some k \<Rightarrow> map_set k True (cd_timer_pending c))"
  by (cases t) (simp_all add: timer_key_def)

lemma store_pending [simp]:
  "cd_timer_pending (store_timers d c) = cd_timer_pending c" "cd_timer_pending (store_triggers d c) = cd_timer_pending c"
  by (simp_all add: store_timers_def store_triggers_def Let_def split: option.split)

lemma card_end_pending: "cd_timer_pending (fst (card_end uuid t r c)) =
    (case timer_key t of None \<Rightarrow> cd_timer_pending c | Some k \<Rightarrow> map_set k False (cd_timer_pending c))"
  by (cases t) (simp_all add: timer_key_def Let_def split: sum.split)

text \<open>The keys of the tasks an action starts: none, or one that was not under way.\<close>

definition starts_free :: "card \<Rightarrow> card_step \<Rightarrow> bool" where
  "starts_free c s \<longleftrightarrow> (case s of (c', es, new) \<Rightarrow>
     (\<forall>t\<in>set new. timer_key t = None) \<and> cd_timer_pending c' = cd_timer_pending c \<or>
     (\<exists>t k. new = [t] \<and> timer_key t = Some k \<and> \<not> pending (cd_timer_pending c) k \<and>
        cd_timer_pending c' = map_set k True (cd_timer_pending c)))"

lemma starts_free_intros:
  "cd_timer_pending c' = cd_timer_pending c \<Longrightarrow> starts_free c (quiet c')"
  "cd_timer_pending c' = cd_timer_pending c \<Longrightarrow> starts_free c (c', es, [])"
  "cd_timer_pending c' = cd_timer_pending c \<Longrightarrow> timer_key t = None \<or> \<not> pending (cd_timer_pending c) (the (timer_key t)) \<Longrightarrow>
     starts_free c (start_task t c')"
  by (auto simp: starts_free_def quiet_def start_task_def card_begin_pending split: option.split)

lemma starts_free_fetch:
  "cd_timer_pending c' = cd_timer_pending c \<Longrightarrow> starts_free c (start_fetch_for_tab now f t c')"
  by (cases t) (simp_all add: start_fetch_for_tab_def starts_free_def refresh_power_history_def timer_key_def Let_def)

lemma card_event_free: "starts_free c (card_event now f p c)"
proof (cases p)
  case (OpenManage t)
  then show ?thesis by (simp add: open_manage_def Let_def starts_free_fetch)
next
  case (ModalOpened b)
  then show ?thesis by (simp add: modal_opened_def Let_def starts_free_fetch starts_free_intros)
next
  case PressSaveTimer
  then show ?thesis
    by (auto simp: press_save_timer_def timer_key_def intro!: starts_free_intros split: option.split)
next
  case PressSaveTrigger
  then show ?thesis
    by (auto simp: press_save_trigger_def timer_key_def Let_def intro!: starts_free_intros split: option.split)
next
  case PressDeleteTrigger
  then show ?thesis
    by (auto simp: press_delete_trigger_def timer_key_def intro!: starts_free_intros split: option.split)
next
  case ReloadHistory
  then show ?thesis by (auto simp: starts_free_def quiet_def refresh_power_history_def timer_key_def Let_def)
qed (auto simp: timer_key_def starts_free_fetch Let_def intro!: starts_free_intros)

definition running :: "string \<Rightarrow> card_task list \<Rightarrow> nat" where
  "running k ts = length (filter (\<lambda>t. timer_key t = Some k) ts)"

lemma running_append [simp]: "running k (ts @ us) = running k ts + running k us"
  by (simp add: running_def)

lemma running_remove1: "t \<in> set ts \<Longrightarrow> running k (remove1 t ts) + (if timer_key t = Some k then 1 else 0) = running k ts"
  by (induction ts) (auto simp: running_def)

lemma card_reach_running: "card_reach c ts \<Longrightarrow> running k ts = (if pending (cd_timer_pending c) k then 1 else 0)"
proof (induction rule: card_reach.induct)
  case init
  then show ?case by (simp add: running_def card_init_def pending_def)
next
  case (press c ts now f p c' es new)
  have "starts_free c (c', es, new)" using card_event_free [of c now f p] press.hyps(2) by simp
  then show ?case using press.IH by (auto simp: starts_free_def running_def filter_empty_conv split: if_splits)
next
  case (ended c ts t uuid r)
  then show ?case
    using running_remove1 [of t ts k] by (auto simp: card_end_pending split: option.splits if_splits)
qed

text \<open>C16. No timer is written twice at the same time: whatever the user does and in whatever order the
  requests end, at most one save and at most one deletion of a timer is under way, and it is exactly
  then that its button is disabled; an action that would start a second one changes nothing.\<close>

theorem timer_saved_once:
  assumes "card_reach c ts"
  shows "length (filter (\<lambda>t. \<exists>f. t = SaveTimer f \<and> trim (tf_id f) = i) ts) = (if pending (cd_timer_pending c) (save_key i) then 1 else 0) \<and>
    length (filter (\<lambda>t. t = DeleteTimer i) ts) = (if pending (cd_timer_pending c) (delete_key i) then 1 else 0) \<and>
    (pending (cd_timer_pending c) (delete_key i) \<longrightarrow> card_event now f (PressDeleteTimer i) c = (c, [], [])) \<and>
    (\<forall>form. cd_editor c = Some form \<and> pending (cd_timer_pending c) (save_key (trim (tf_id form))) \<longrightarrow>
       card_event now f PressSaveTimer c = (c, [], []))"
proof -
  have "timer_key t = Some (save_key i) \<longleftrightarrow> (\<exists>f. t = SaveTimer f \<and> trim (tf_id f) = i)"
    "timer_key t = Some (delete_key i) \<longleftrightarrow> t = DeleteTimer i" for t
    by (cases t; simp add: timer_key_def)+
  then show ?thesis
    using card_reach_running [OF assms, of "save_key i"] card_reach_running [OF assms, of "delete_key i"]
    by (simp add: running_def press_save_timer_def quiet_def)
qed

lemma timer_saved_once_witness:
  "\<exists>c ts. card_reach c ts \<and> length (filter (\<lambda>t. \<exists>f. t = SaveTimer f \<and> trim (tf_id f) = ''a'') ts) = 1"
proof -
  define f where "f = \<lparr>cf_uuid = ''u'', cf_ready = True, cf_smart = False, cf_plug = True, cf_toggling = False, cf_fetching = False\<rparr>"
  define form where "form = new_timer_form ''a''"
  have "card_reach (card_init\<lparr>cd_editor := Some form\<rparr>) ([] @ [])"
    by (rule card_reach.press [OF card_reach.init, where p = "NewTimer ''a''" and f = f]) (simp add: quiet_def f_def form_def)
  moreover have "trim ''a'' = ''a''" by code_simp
  then have "card_event 0 f PressSaveTimer (card_init\<lparr>cd_editor := Some form\<rparr>) =
      (card_begin (SaveTimer form) (card_init\<lparr>cd_editor := Some form\<rparr>), [], [SaveTimer form])"
    by (simp add: press_save_timer_def start_task_def f_def form_def new_timer_form_def card_init_def pending_def)
  ultimately have r: "card_reach (card_begin (SaveTimer form) (card_init\<lparr>cd_editor := Some form\<rparr>)) (([] @ []) @ [SaveTimer form])"
    by (rule card_reach.press)
  have "pending (cd_timer_pending (card_begin (SaveTimer form) (card_init\<lparr>cd_editor := Some form\<rparr>))) (save_key ''a'')"
    using \<open>trim ''a'' = ''a''\<close> by (simp add: form_def new_timer_form_def)
  moreover have "trim (tf_id form) = ''a''" using \<open>trim ''a'' = ''a''\<close> by (simp add: form_def new_timer_form_def)
  ultimately show ?thesis
    using timer_saved_once [OF r, of "''a''", THEN conjunct1] r by (intro exI [of _ "[SaveTimer form]"] exI conjI) auto
qed

subsection \<open>Editing a timer\<close>

text \<open>The form shows a whole number as it is, and reads it back.\<close>

lemma digits_not_prefixed:
  assumes "list_all is_digit ds" "c \<in> {CHR ''x'', CHR ''o'', CHR ''b''}"
  shows "to_lower (take 2 ds) \<noteq> [CHR ''0'', c]"
proof
  assume low: "to_lower (take 2 ds) = [CHR ''0'', c]"
  then obtain d where d: "d \<in> set ds" "lower_char d = c"
    by (cases ds; cases "tl ds") (auto simp: to_lower_def)
  then have "48 \<le> code_of d" "code_of d \<le> 57" using assms(1) by (auto simp: list_all_iff is_digit_def)
  then have "lower_char d = d" "code_of d \<noteq> 120" "code_of d \<noteq> 111" "code_of d \<noteq> 98" by (simp_all add: lower_char_def)
  with d(2) assms(2) show False by (auto simp: code_of_def)
qed

lemma parse_unsigned_digits:
  assumes "list_all is_digit ds" "ds \<noteq> []"
  shows "parse_unsigned ds = Fin (of_nat (nat_of_digits ds))"
proof -
  have run: "takeWhile is_digit ds = ds" "dropWhile is_digit ds = []" using assms(1) by (simp_all add: list_all_iff)
  have "ds \<noteq> ''Infinity''" using assms(1) by (auto simp: is_digit_def code_of_def)
  then show ?thesis using assms(2) by (simp add: parse_unsigned_def run starts_with_def parse_exponent_def pow10_def Let_def)
qed

lemma num_of_str_digits:
  assumes "list_all is_digit ds" "ds \<noteq> []"
  shows "num_of_str ds = Fin (of_nat (nat_of_digits ds))" "num_of_str (CHR ''-'' # ds) = Fin (- of_nat (nat_of_digits ds))"
proof -
  have ends: "is_digit (hd ds)" "is_digit (last ds)" using assms by (auto simp: list_all_iff)
  have "trim ds = ds" by (rule trim_ends) (use assms(2) ends digit_not_special(1) in blast)+
  moreover have "\<not> is_space (CHR ''-'')" by code_simp
  then have "trim (CHR ''-'' # ds) = CHR ''-'' # ds"
    using assms(2) ends digit_not_special(1) by (intro trim_ends) auto
  moreover have "split_sign ds = (1, ds)"
    using ends(1) digit_not_special(2,3) assms(2) by (cases ds) (auto simp: split_sign_def)
  moreover have "lower_char (CHR ''-'') = CHR ''-''" by code_simp
  ultimately show "num_of_str ds = Fin (of_nat (nat_of_digits ds))" "num_of_str (CHR ''-'' # ds) = Fin (- of_nat (nat_of_digits ds))"
    using digits_not_prefixed [OF assms(1)] assms(2)
    by (simp_all add: num_of_str_def parse_unsigned_digits assms split_sign_def to_lower_def Let_def)
qed

lemma str_of_rat_int [simp]: "str_of_rat (of_int i) = dec_of_int i"
  by (simp add: str_of_rat_def dec_of_int_def)

lemma num_of_str_int [simp]: "num_of_str (dec_of_int i) = Fin (of_int i)"
  using num_of_str_digits [OF dec_of_nat_digits dec_of_nat_nonempty] by (simp add: dec_of_int_def)

text \<open>A timer as the list of timers has it, and what the form shows for a member it lacks.\<close>

definition listed_timer :: "jsval \<Rightarrow> jsval" where
  "listed_timer rule = json_of_timer (parse_timer_rule coerce_int rule)"

definition shown_members :: "(string \<times> jsval) list" where
  "shown_members = [(''alias'', JStr []), (''channel'', js_int 0), (''enable'', js_int 0), (''type'', js_int 0), (''week'', js_int 0),
     (''time'', js_int (- 1)), (''sunOffset'', js_int 0), (''duration'', js_int 0)]"

definition int_members :: "string list" where
  "int_members = [''channel'', ''type'', ''week'', ''time'', ''sunOffset'', ''duration'']"

lemma map_of_opt_member:
  "map_of (opt_member raw k f @ kvs) j = (if j = k \<and> field raw k \<noteq> JUndef then Some (f (field raw k)) else map_of kvs j)"
  "map_of (opt_member raw k f) j = (if j = k \<and> field raw k \<noteq> JUndef then Some (f (field raw k)) else None)"
  by (simp_all add: opt_member_def)

lemma field_listed:
  "field (listed_timer rule) ''alias'' = (if field rule ''alias'' = JUndef then JUndef else JStr (string_or_empty (field rule ''alias'')))"
  "field (listed_timer rule) ''enable'' = (if field rule ''enable'' = JUndef then JUndef else coerce_01 (field rule ''enable''))"
  "field (listed_timer rule) ''extend'' = field rule ''extend''"
  "k \<in> set int_members \<Longrightarrow> field (listed_timer rule) k = (if field rule k = JUndef then JUndef else coerce_int (field rule k))"
  unfolding listed_timer_def json_of_timer_def parse_timer_rule_def field.simps timer_rule.simps int_members_def list.set
  by (simp_all add: map_of_opt_member del: map_of_append, elim disjE) (simp_all add: map_of_opt_member del: map_of_append)

lemma coerce_int_cases: "coerce_int v = (case as_finite_int v of None \<Rightarrow> JUndef | Some n \<Rightarrow> js_int n)"
  by (simp add: coerce_int_def as_finite_int_def split: option.split)

lemma as_finite_int_simps [simp]: "as_finite_int (js_int n) = Some n" "as_finite_int JUndef = None"
  by (simp_all add: as_finite_int_def)

text \<open>The whole number the form shows for a member.\<close>

definition shown_int :: "jsval \<Rightarrow> string \<Rightarrow> int \<Rightarrow> int" where
  "shown_int rule k def = or_else (as_finite_int (field rule k)) def"

lemma shown_int_listed: "k \<in> set int_members \<Longrightarrow> nn (field (listed_timer rule) k) (js_int def) = js_int (shown_int rule k def)"
  by (cases "as_finite_int (field rule k)") (auto simp: field_listed coerce_int_cases shown_int_def nn_def)

lemma shown_number_read: "k \<in> set int_members \<Longrightarrow> js_number (shown_number (listed_timer rule) k def) = js_int (shown_int rule k def)"
  by (simp add: js_number_def shown_number_def shown_int_listed num_of_str_int)

definition edit_patch :: "jsval \<Rightarrow> jsval" where
  "edit_patch rule = json_round (patch_of_form (edit_timer_form (listed_timer rule)))"

lemma field_json_round_distinct:
  "distinct (map fst kvs) \<Longrightarrow> field (json_round (JObj kvs)) k = json_round (field (JObj kvs) k)"
  by (auto simp: map_of_round split: option.split)

lemma field_patch_of_form: "field (json_round (patch_of_form f)) k = json_round (field (patch_of_form f) k)"
  unfolding patch_of_form_def by (rule field_json_round_distinct) simp

lemma json_round_switch [simp]: "json_round (js_switch b) = js_switch b"
  by (simp add: js_switch_def)

lemma field_edit_patch:
  "field (edit_patch rule) ''alias'' = JStr (string_or_empty (field rule ''alias''))"
  "field (edit_patch rule) ''enable'' = js_switch (field (listed_timer rule) ''enable'' = js_int 1)"
  "field (edit_patch rule) ''toggleOnoff'' = js_switch (toggle_onoff (field rule ''extend'') = Some 1)"
  "k \<in> set int_members \<Longrightarrow> field (edit_patch rule) k = js_int (shown_int rule k (if k = ''time'' then - 1 else 0))"
proof -
  define f where "f = edit_timer_form (listed_timer rule)"
  have form: "tf_alias f = string_or_empty (field rule ''alias'')" "tf_enable f = (field (listed_timer rule) ''enable'' = js_int 1)"
    "tf_onoff f = (toggle_onoff (field rule ''extend'') = Some 1)"
    by (simp_all add: f_def edit_timer_form_def field_listed(1,3) string_or_empty_def nn_def)
  have patch: "field (edit_patch rule) j = json_round (field (patch_of_form f) j)" for j
    by (simp only: edit_patch_def f_def field_patch_of_form)
  show "field (edit_patch rule) ''alias'' = JStr (string_or_empty (field rule ''alias''))"
    "field (edit_patch rule) ''enable'' = js_switch (field (listed_timer rule) ''enable'' = js_int 1)"
    "field (edit_patch rule) ''toggleOnoff'' = js_switch (toggle_onoff (field rule ''extend'') = Some 1)"
    unfolding patch form [symmetric] by (simp_all add: patch_of_form_def)
  assume k: "k \<in> set int_members"
  then have "field (patch_of_form f) k = js_number (shown_number (listed_timer rule) k (if k = ''time'' then - 1 else 0))"
    unfolding int_members_def list.set by (elim insertE emptyE) (simp_all add: patch_of_form_def f_def edit_timer_form_def)
  then show "field (edit_patch rule) k = js_int (shown_int rule k (if k = ''time'' then - 1 else 0))"
    using shown_number_read [OF k] by (simp add: patch)
qed

lemma edit_patch_record [simp]: "is_record (edit_patch rule)" "field (edit_patch rule) ''uuid'' = JUndef"
  by (simp_all add: edit_patch_def patch_of_form_def js_number_def js_switch_def)

lemma patched_int_whole:
  "field patch k = js_int n \<Longrightarrow> \<not> (nonneg \<and> n < 0) \<Longrightarrow> patched_int k message code nonneg patch rule = Inr (set_field rule k (js_int n))"
  by (simp add: patched_int_def)

text \<open>The edit is refused exactly when the rule has no on/off action.\<close>

lemma edit_patched:
  assumes "is_record rule" "0 \<le> shown_int rule ''channel'' 0"
  shows "if toggle_onoff (field rule ''extend'') = None
    then patched_rule (edit_patch rule) rule = Inl (''TimerX rule does not support extend.toggle.onoff'', ''unsupported_action'')
    else \<exists>new. patched_rule (edit_patch rule) rule = Inr new"
proof -
  note whole = patched_int_whole [OF field_edit_patch(4)]
  have step: "patched_rule (edit_patch rule) rule = patched_toggle (edit_patch rule) r" if r: "r = set_field (set_field (set_field (set_field (set_field (set_field
      (set_field (set_field rule ''enable'' (coerce_01 (field (edit_patch rule) ''enable''))) ''alias'' (JStr (string_or_empty (field (edit_patch rule) ''alias''))))
      ''channel'' (js_int (shown_int rule ''channel'' 0))) ''type'' (js_int (shown_int rule ''type'' 0))) ''week'' (js_int (shown_int rule ''week'' 0)))
      ''time'' (js_int (shown_int rule ''time'' (- 1)))) ''sunOffset'' (js_int (shown_int rule ''sunOffset'' 0)))
      ''duration'' (js_int (shown_int rule ''duration'' 0))" for r
    using assms(2) by (simp add: patched_rule_def field_edit_patch whole int_members_def js_switch_def r)
  have ex: "field (set_field (set_field (set_field (set_field (set_field (set_field
      (set_field (set_field rule ''enable'' a) ''alias'' b) ''channel'' c) ''type'' d) ''week'' e) ''time'' f) ''sunOffset'' g) ''duration'' h) ''extend''
      = field rule ''extend''" for a b c d e f g h
    using assms(1) by simp
  show ?thesis
    unfolding step [OF refl] patched_toggle_def ex
    by (auto simp: toggle_onoff_def field_edit_patch js_switch_def Let_def split: if_splits)
qed

lemma coerce_switch [simp]: "coerce_01 (js_switch b) = js_switch b" "coerce_01 (js_int (int (onoff_of v))) = js_int (int (onoff_of v))"
  by (simp_all add: js_switch_def coerce_01_def onoff_of_def)

lemma js_switch_01: "n \<le> Suc 0 \<Longrightarrow> js_switch (n = Suc 0) = js_int (int n)"
  by (auto simp: js_switch_def le_Suc_eq)

text \<open>What an accepted edit makes of the members of the rule.\<close>

lemma edit_members:
  assumes "is_record rule" "patched_rule (edit_patch rule) rule = Inr new" "toggle_onoff (field rule ''extend'') = Some n"
  shows "(k, d) \<in> set shown_members \<Longrightarrow> field new k = nn (field (listed_timer rule) k) d"
    "path new [''extend'', ''toggle'', ''onoff''] = js_int (int n)"
    "k \<notin> set (''extend'' # map fst shown_members) \<Longrightarrow> field new k = field rule k"
proof -
  note member = patched_rule_members [OF assms(2,1), THEN conjunct2, rule_format]
  have ex: "is_record (field rule ''extend'')" "is_record (field (field rule ''extend'') ''toggle'')" "n \<le> Suc 0"
    using assms(3) by (auto simp: toggle_onoff_def Let_def split: if_splits)
  have "field new ''extend'' = set_field (field rule ''extend'') ''toggle'' (set_field (field (field rule ''extend'') ''toggle'') ''onoff''
      (js_switch (n = Suc 0)))"
    by (simp add: member patched_member_def field_edit_patch assms(3)) (simp add: js_switch_def)
  then show "path new [''extend'', ''toggle'', ''onoff''] = js_int (int n)"
    using ex by (simp add: js_switch_01)
  show "field new k = field rule k" if "k \<notin> set (''extend'' # map fst shown_members)"
    using that by (simp add: member patched_member_def patch_members_def shown_members_def)
  have ints: "field new j = nn (field (listed_timer rule) j) (js_int (if j = ''time'' then - 1 else 0))" if j: "j \<in> set int_members" for j
  proof -
    have "field new j = js_int (shown_int rule j (if j = ''time'' then - 1 else 0))"
      using j by (auto simp: member patched_member_def field_edit_patch patch_members_def int_members_def)
    then show ?thesis using shown_int_listed [OF j] by simp
  qed
  have "field new ''alias'' = nn (field (listed_timer rule) ''alias'') (JStr [])"
    by (simp add: member patched_member_def patch_members_def field_edit_patch field_listed string_or_empty_def nn_def)
  moreover have "field new ''enable'' = nn (field (listed_timer rule) ''enable'') (js_int 0)"
    using js_switch_01 [OF onoff_of_le_1, of "field rule ''enable''"]
    by (simp add: member patched_member_def patch_members_def field_edit_patch field_listed nn_def) (simp add: coerce_01_def js_switch_def)
  moreover have "(k, d) \<in> {(''alias'', JStr []), (''enable'', js_int 0)} \<or> k \<in> set int_members \<and> d = js_int (if k = ''time'' then - 1 else 0)"
    if "(k, d) \<in> set shown_members"
    using that unfolding shown_members_def list.set by (elim insertE emptyE) (simp_all add: int_members_def)
  ultimately show "field new k = nn (field (listed_timer rule) k) d" if "(k, d) \<in> set shown_members"
    using that ints by blast
qed

text \<open>The body of the patch of an edited form, as the server reads it.\<close>

lemma edit_body:
  assumes "save_timer_call form uuid = Call ''POST'' url body" "tf_edit form"
  shows "url = api_path [''device'', ''timerx'', ''patch'']"
    "body_of (post_request body) = JObj [(''uuid'', JStr uuid), (''id'', JStr (trim (tf_id form))), (''patch'', json_round (patch_of_form form))]"
proof -
  have "patch_of_form form \<noteq> JUndef" by (simp add: patch_of_form_def)
  with assms show "url = api_path [''device'', ''timerx'', ''patch'']"
    "body_of (post_request body) = JObj [(''uuid'', JStr uuid), (''id'', JStr (trim (tf_id form))), (''patch'', json_round (patch_of_form form))]"
    by (auto simp: save_timer_call_def card_post_def)
qed

text \<open>C12. Editing a timer and saving the form as it was opened: the server reads the rule, and when it
  has an on/off action writes it back once, with every member as the list showed it, a missing one
  as the form showed it, the action as it was, and every other member untouched. A rule without an
  on/off action cannot be saved at all: the form always sends one, and nothing is written.\<close>

theorem saving_keeps_what_was_shown:
  assumes "as_rule ''timerx'' (path v [''payload'', ''timerx'']) = Some rule" "0 \<le> shown_int rule ''channel'' 0"
    and "form = edit_timer_form (listed_timer rule)" "save_timer_call form uuid = Call ''POST'' url body"
    and "uuid \<noteq> []" "host_and_key e uuid = Inr (host, key)" "trim (tf_id form) \<noteq> []"
    and "e_lan e (w_sent w) (get_timer_x (str_of host) key (trim (tf_id form))) = Inr v"
  shows "url = api_path [''device'', ''timerx'', ''patch''] \<and>
    (case patch_device_timer_x e (post_request body) w of (resp, w') \<Rightarrow>
       (case toggle_onoff (field rule ''extend'') of
          None \<Rightarrow> resp = ApiErr ''TimerX rule does not support extend.toggle.onoff'' ''unsupported_action'' \<and>
            w_sent w' = w_sent w @ [get_timer_x (str_of host) key (trim (tf_id form))]
        | Some n \<Rightarrow> \<exists>new. w_sent w' = w_sent w @ [get_timer_x (str_of host) key (trim (tf_id form)), set_timer_x (str_of host) key new] \<and>
            (\<forall>(k, d)\<in>set shown_members. field new k = nn (field (listed_timer rule) k) d) \<and>
            path new [''extend'', ''toggle'', ''onoff''] = js_int (int n) \<and>
            (\<forall>k. k \<notin> set (''extend'' # map fst shown_members) \<longrightarrow> field new k = field rule k)))"
proof -
  have rec: "is_record rule" using as_rule_sound [OF assms(1)] by simp
  have edit: "tf_edit form" "json_round (patch_of_form form) = edit_patch rule" by (simp_all add: assms(3) edit_timer_form_def edit_patch_def)
  note body = edit_body [OF assms(4) edit(1), unfolded edit(2)]
  have named: "\<not> list_all (\<lambda>k. field (edit_patch rule) k = JUndef) patch_members"
    by (simp add: patch_members_def field_edit_patch)
  have run: "patch_device_timer_x e (post_request body) w =
    (case patched_rule (edit_patch rule) rule of
       Inl (m, c) \<Rightarrow> (ApiErr m c, w\<lparr>w_sent := w_sent w @ [get_timer_x (str_of host) key (trim (tf_id form))]\<rparr>)
     | Inr new \<Rightarrow> asking e (set_timer_x (str_of host) key new) (\<lambda>resp w.
         (ApiOk (JObj [(''host'', host), (''id'', JStr (trim (tf_id form))), (''updated'', json_of_timer (parse_timer_rule number_of new)),
            (''resp'', resp)]), poll_after e uuid w)) (w\<lparr>w_sent := w_sent w @ [get_timer_x (str_of host) key (trim (tf_id form))]\<rparr>))"
    using assms(1,5-8) named trim_trim by (simp add: patch_device_timer_x_def body(2) string_or_empty_def nn_def with_device_def asking_def ask_def Let_def split: sum.split)
  show ?thesis
  proof (cases "toggle_onoff (field rule ''extend'')")
    case None
    then show ?thesis using edit_patched [OF rec assms(2)] body(1) by (simp add: run)
  next
    case (Some n)
    then obtain new where new: "patched_rule (edit_patch rule) rule = Inr new" using edit_patched [OF rec assms(2)] by auto
    have sent: "w_sent (snd (patch_device_timer_x e (post_request body) w)) =
        w_sent w @ [get_timer_x (str_of host) key (trim (tf_id form)), set_timer_x (str_of host) key new]"
      by (simp add: run new asking_def ask_def poll_after_def split: sum.split)
    show ?thesis
      using sent body(1) edit_members [OF rec new Some] by (auto simp: Some split_def)
  qed
qed

definition demo_rule :: jsval where
  "demo_rule = JObj [(''id'', JStr ''a''), (''channel'', js_int 0), (''enable'', js_int 1), (''time'', js_int 420),
     (''extend'', JObj [(''toggle'', JObj [(''onoff'', js_int 1), (''lastOnoff'', js_int 0)])]), (''createTime'', js_int 99)]"

definition demo_timer_env :: env where
  "demo_timer_env = demo_env\<lparr>e_lan := (\<lambda>_ _. Inr (JObj [(''payload'', JObj [(''timerx'', demo_rule)])]))\<rparr>"

lemma saving_keeps_what_was_shown_witness:
  "\<exists>body new. save_timer_call (edit_timer_form (listed_timer demo_rule)) ''u'' = Call ''POST'' (api_path [''device'', ''timerx'', ''patch'']) body \<and>
     w_sent (snd (patch_device_timer_x demo_timer_env (post_request body) demo_world)) =
       [get_timer_x ''h'' ''k'' ''a'', set_timer_x ''h'' ''k'' new] \<and>
     field new ''time'' = js_int 420 \<and> field new ''week'' = js_int 0 \<and> field new ''createTime'' = js_int 99"
proof -
  define v where "v = JObj [(''payload'', JObj [(''timerx'', demo_rule)])]"
  define form where "form = edit_timer_form (listed_timer demo_rule)"
  have rule: "as_rule ''timerx'' (path v [''payload'', ''timerx'']) = Some demo_rule" "0 \<le> shown_int demo_rule ''channel'' 0"
    "toggle_onoff (field demo_rule ''extend'') = Some 1"
    unfolding v_def by code_simp+
  have i: "trim (tf_id form) = ''a''" unfolding form_def by code_simp
  have hk: "host_and_key demo_timer_env ''u'' = Inr (JStr ''h'', ''k'')" unfolding demo_timer_env_def demo_env_def env.simps by code_simp
  have "\<exists>url body. save_timer_call form ''u'' = Call ''POST'' url body"
    by (cases "tf_edit form") (simp_all add: save_timer_call_def card_post_def)
  then obtain url body where call: "save_timer_call form ''u'' = Call ''POST'' url body" by blast
  have lan: "e_lan demo_timer_env (w_sent demo_world) (get_timer_x (str_of (JStr ''h'')) ''k'' (trim (tf_id form))) = Inr v"
    by (simp add: demo_timer_env_def v_def)
  have ne: "''u'' \<noteq> []" "trim (tf_id form) \<noteq> []" by (simp_all add: i)
  have get: "w_sent demo_world = []" "str_of (JStr ''h'') = ''h''" by (simp_all add: demo_world_def)
  note saved = saving_keeps_what_was_shown [OF rule(1,2) form_def call ne(1) hk ne(2) lan, unfolded split_def rule(3) option.case i get append_Nil]
  obtain new where new: "w_sent (snd (patch_device_timer_x demo_timer_env (post_request body) demo_world)) =
       [get_timer_x ''h'' ''k'' ''a'', set_timer_x ''h'' ''k'' new]"
    "\<And>k d. (k, d) \<in> set shown_members \<Longrightarrow> field new k = nn (field (listed_timer demo_rule) k) d"
    "\<And>k. k \<notin> set (''extend'' # map fst shown_members) \<Longrightarrow> field new k = field demo_rule k"
    using saved by fastforce
  have shown: "(''time'', js_int (- 1)) \<in> set shown_members" "(''week'', js_int 0) \<in> set shown_members"
    "''createTime'' \<notin> set (''extend'' # map fst shown_members)" by (simp_all add: shown_members_def)
  have "nn (field (listed_timer demo_rule) ''time'') (js_int (- 1)) = js_int 420"
    "nn (field (listed_timer demo_rule) ''week'') (js_int 0) = js_int 0" "field demo_rule ''createTime'' = js_int 99" by code_simp+
  with new(2) [OF shown(1)] new(2) [OF shown(2)] new(3) [OF shown(3)] new(1) call saved [THEN conjunct1] show ?thesis
    unfolding form_def by metis
qed

subsection \<open>What the card shows\<close>

text \<open>The switch of a card shows the state asked for at once, whatever the device was known to be.\<close>

lemma find_toggled:
  "\<exists>c. find (\<lambda>c. ts_channel c = 0) (toggled_channels onoff cs) = Some c \<and> ts_onoff c = onoff"
proof -
  have "list_ex (\<lambda>c. ts_channel c = 0) cs \<Longrightarrow>
      \<exists>c. find (\<lambda>c. ts_channel c = 0) (map (\<lambda>c. if ts_channel c = 0 then c\<lparr>ts_onoff := onoff\<rparr> else c) cs) = Some c \<and> ts_onoff c = onoff"
    by (induction cs) auto
  then show ?thesis by (simp add: toggled_channels_def)
qed

lemma find_toggled_light:
  assumes "toggled_lights onoff before light ls = Some ls'" "find (\<lambda>l. wl_channel l = 0) ls' = Some l"
  shows "wl_onoff l = onoff"
proof -
  have mapped: "find (\<lambda>l. wl_channel l = 0) (map (\<lambda>l. if wl_channel l = 0 then l\<lparr>wl_onoff := onoff\<rparr> else l) ls) = Some l \<Longrightarrow> wl_onoff l = onoff"
    by (induction ls) (auto split: if_splits)
  have none: "\<not> list_ex (\<lambda>l. wl_channel l = 0) ls \<Longrightarrow> find (\<lambda>l. wl_channel l = 0) ls = None"
    by (auto simp: find_None_iff list_ex_iff)
  show ?thesis
    using assms mapped none by (auto simp: toggled_lights_def Let_def split: if_splits)
qed

text \<open>The switch of a card answers at once: as soon as the user has switched, the card shows the
  state asked for, whatever the device, its lights and its channels were known to be.\<close>

theorem switch_shown_at_once:
  "lan_on (Some (optimistic_state now onoff known previous)) = Some (onoff = 1)"
proof -
  define p where "p = or_else previous blank_device"
  define lights where "lights = toggled_lights onoff (wd_onoff p) (wd_light p) (or_else (wd_lights p) [])"
  have shown: "wd_light (optimistic_state now onoff known previous) = (case lights of None \<Rightarrow> wd_light p | Some ls \<Rightarrow> find (\<lambda>l. wl_channel l = 0) ls)"
    "wd_lights (optimistic_state now onoff known previous) = lights"
    "wd_channels (optimistic_state now onoff known previous) = Some (toggled_channels onoff (or_else (wd_channels p) []))"
    unfolding p_def lights_def by (simp_all add: optimistic_state_def Let_def)
  obtain c where c: "find (\<lambda>c. ts_channel c = 0) (toggled_channels onoff (or_else (wd_channels p) [])) = Some c" "ts_onoff c = onoff"
    using find_toggled by blast
  show ?thesis
  proof (cases lights)
    case None
    then have "wd_light p = None"
      by (cases "wd_light p") (auto simp: lights_def toggled_lights_def light0_of_def Let_def split: if_splits)
    with None c show ?thesis
      by (simp add: lan_on_def shown light0_of_def)
  next
    case (Some ls)
    then show ?thesis
      using c find_toggled_light [OF Some [unfolded lights_def]]
      by (cases "find (\<lambda>l. wl_channel l = 0) ls") (simp_all add: lan_on_def shown light0_of_def)
  qed
qed

text \<open>A tab that is fetched for and shown is one of the tabs of the card.\<close>

lemma normalized_tab: "normalize_tab (available_tabs smart plug) t \<in> set (available_tabs smart plug)"
  by (auto simp: normalize_tab_def first_tab_def available_tabs_def)

lemma scaled_between:
  fixes a t :: rat
  assumes "0 \<le> t" "t \<le> 1" "0 \<le> a"
  shows "0 \<le> t * a" "t * a \<le> a"
  using assms mult_right_mono [of t 1 a] by simp_all

definition spark_samples :: "'a option list \<Rightarrow> (nat \<times> 'a) list" where
  "spark_samples values = List.map_filter (\<lambda>(i, v). map_option (\<lambda>v. (i, v)) v) (numbered values)"

lemma spark_samples_index: "(i, v) \<in> set (spark_samples values) \<Longrightarrow> i < length values"
  by (auto simp: spark_samples_def numbered_def map_filter_def set_zip) (metis (no_types, lifting) option.map_sel option.sel option.discI prod.inject)

lemma spark_samples_map: "map snd (spark_samples (values :: 'a option list)) = List.map_filter (\<lambda>v. v) values"
proof -
  have "map snd (List.map_filter (\<lambda>(i, v). map_option (\<lambda>v. (i, v)) v) (zip ns values)) = List.map_filter (\<lambda>v. v) values"
    if "length ns = length values" for ns :: "nat list" and "values" :: "'a option list"
    using that by (induction rule: list_induct2) (auto simp: List.map_filter_simps split: option.split)
  then show ?thesis by (simp add: spark_samples_def numbered_def)
qed

text \<open>The line of the power history stays in its box: it has one point for each known average, at
  least two or none at all, each point within the padding of the box, the greatest average at the
  top, and the smallest at the bottom unless all are almost the same.\<close>

theorem sparkline_in_box:
  assumes "0 \<le> pad" "2 * pad \<le> width" "2 * pad \<le> height"
  shows "let pts = spark_points values width height pad; known = List.map_filter (\<lambda>v. v) values in
     length pts = (if length known < 2 then 0 else length known) \<and>
     (\<forall>(x, y)\<in>set pts. pad \<le> x \<and> x \<le> width - pad \<and> pad \<le> y \<and> y \<le> height - pad) \<and>
     (pts \<noteq> [] \<and> 1 / 10000 \<le> Max (set known) - Min (set known) \<longrightarrow>
        pad \<in> snd ` set pts \<and> height - pad \<in> snd ` set pts)"
proof -
  define pts where "pts = spark_samples values"
  define vs where "vs = map snd pts"
  define span where "span = max (1 / 10000) (Max (set vs) - Min (set vs))"
  define x where "x i = pad + of_nat i / of_nat (max 1 (length values - 1)) * (width - pad * 2)" for i
  define y where "y v = pad + (1 - (v - Min (set vs)) / span) * (height - pad * 2)" for v
  have points: "spark_points values width height pad = (if length pts < 2 then [] else map (\<lambda>(i, v). (x i, y v)) pts)"
    unfolding spark_points_def Let_def pts_def [unfolded spark_samples_def, symmetric] vs_def [symmetric] span_def [symmetric]
    by (simp add: x_def y_def)
  have known: "List.map_filter (\<lambda>v. v) values = vs" by (simp add: vs_def pts_def spark_samples_map)
  have span: "0 < span" by (simp add: span_def)
  have x: "pad \<le> x i \<and> x i \<le> width - pad" if "(i, v) \<in> set pts" for i v
  proof -
    from that have "i < length values" by (simp add: pts_def spark_samples_index)
    then have "of_nat i / of_nat (max 1 (length values - 1)) \<le> (1 :: rat)" by (simp add: divide_le_eq_1 of_nat_le_iff [symmetric] del: of_nat_le_iff)
    then show ?thesis
      using scaled_between [of "of_nat i / of_nat (max 1 (length values - 1))" "width - pad * 2"] assms by (simp add: x_def)
  qed
  have y: "pad \<le> y v \<and> y v \<le> height - pad" if sample: "(i, v) \<in> set pts" for i v
  proof -
    have "v \<in> set vs" using sample by (force simp: vs_def)
    then have "Min (set vs) \<le> v" "v \<le> Max (set vs)" by simp_all
    then have "0 \<le> (v - Min (set vs)) / span" "(v - Min (set vs)) / span \<le> 1"
      using span by (simp_all add: span_def divide_le_eq_1)
    then show ?thesis
      using scaled_between [of "1 - (v - Min (set vs)) / span" "height - pad * 2"] assms by (simp add: y_def)
  qed
  have ends: "pad \<in> y ` set vs \<and> height - pad \<in> y ` set vs" if "vs \<noteq> []" "1 / 10000 \<le> Max (set vs) - Min (set vs)"
  proof -
    have "y (Max (set vs)) = pad" "y (Min (set vs)) = height - pad"
      using that span by (simp_all add: y_def span_def max_def)
    moreover have "Max (set vs) \<in> set vs" "Min (set vs) \<in> set vs" using that(1) by simp_all
    ultimately show ?thesis by (metis imageI)
  qed
  have snds: "snd ` set (map (\<lambda>(i, v). (x i, y v)) pts) = y ` set vs" by (force simp: vs_def)
  show ?thesis
    unfolding Let_def known points using x y ends snds by (auto simp: vs_def length_map)
qed

lemma sparkline_in_box_witness:
  "list_all (\<lambda>(x, y). 6 \<le> x \<and> x \<le> 294 \<and> 6 \<le> y \<and> y \<le> 50) (spark_points [Some 1, None, Some 3, Some 2] 300 56 6)"
  using sparkline_in_box [of 6 300 56 "[Some 1, None, Some 3, Some 2]"] by (simp add: Let_def list_all_iff)

subsection \<open>What the form of a timer does not check\<close>

text \<open>A new timer is sent to the device as the form has it: a text that is no number becomes
  \<open>null\<close>, which the route that changes timers would refuse.\<close>

lemma new_timer_sent_unchecked:
  assumes "\<not> tf_edit form" "save_timer_call form uuid = Call ''POST'' url body"
    and "uuid \<noteq> []" "host_and_key e uuid = Inr (host, key)" "trim (tf_id form) \<noteq> []"
  shows "w_sent (snd (set_device_timer_x e (post_request body) w)) =
      w_sent w @ [set_timer_x (str_of host) key (json_round (timer_of_form form))]"
    "num_of_str (tf_channel form) = NaN \<Longrightarrow> field (json_round (timer_of_form form)) ''channel'' = JNull"
proof -
  have round: "field (json_round (timer_of_form form)) k = json_round (field (timer_of_form form) k)" for k
    unfolding timer_of_form_def by (rule field_json_round_distinct) simp
  have rec: "timer_of_form form \<noteq> JUndef" "is_record (json_round (timer_of_form form))" by (simp_all add: timer_of_form_def)
  have "json_round (field (timer_of_form form) ''id'') = JStr (trim (tf_id form))" by (simp add: timer_of_form_def)
  moreover have "body_of (post_request body) = JObj [(''uuid'', JStr uuid), (''timer'', json_round (timer_of_form form))]"
    using assms(1,2) rec by (auto simp: save_timer_call_def card_post_def)
  ultimately show "w_sent (snd (set_device_timer_x e (post_request body) w)) =
      w_sent w @ [set_timer_x (str_of host) key (json_round (timer_of_form form))]"
    using assms(3-5) rec round [of "''id''"]
    by (simp add: set_device_timer_x_def set_schedule_def string_or_empty_def nn_def with_device_def asking_def ask_def
        lan_failure_def poll_after_def Let_def split: sum.split)
  show "num_of_str (tf_channel form) = NaN \<Longrightarrow> field (json_round (timer_of_form form)) ''channel'' = JNull"
    unfolding round by (simp add: timer_of_form_def js_number_def)
qed

text \<open>The rule of a trigger is not guarded as that of a timer is: it can be saved while it is being saved.\<close>

lemma trigger_saved_twice:
  assumes "cf_ready f" "json_parse (cd_trigger_text c) = Some (JObj kvs)" "cd_trigger_text c \<noteq> []"
    and "trim (string_or_empty (field (JObj kvs) ''id'')) \<noteq> []"
  shows "\<exists>t c'. press_save_trigger f c = (c', [], [t]) \<and> snd (press_save_trigger f c') = ([], [t])"
  using assms by (auto simp: press_save_trigger_def start_task_def Let_def)

text \<open>A save that ends well closes whatever form is open by then.\<close>

lemma finished_save_closes_any_form:
  "read_reply ''digest'' r = Inr d \<Longrightarrow> cd_editor (fst (card_end uuid (SaveTimer f) r (c\<lparr>cd_editor := Some g\<rparr>))) = None"
  by (simp add: Let_def)

end
