(* ===== verification/WebInventory.thy ===== *)
theory WebInventory
  imports WebCards
begin

text \<open>
  The view of the devices, \<open>apps/web/src/views/devices/InventoryView.tsx\<close>: it loads the devices when
  it is shown, searches the network after every refresh, and lays out the cards.

  The view keeps three flags between its renders. A client is the machine of the device list with the
  view over it; \<open>rendered\<close> is the effect that runs when the machine has begun or ended a refresh, so
  a step of the client is a step of the machine followed by \<open>rendered\<close>.
\<close>

section \<open>The flags of the view\<close>

record reload_view =
  rv_loaded :: bool
  rv_scan_after :: bool
  rv_saw_start :: bool

definition reload_init :: reload_view where
  "reload_init = \<lparr>rv_loaded = False, rv_scan_after = False, rv_saw_start = False\<rparr>"

definition auto_load :: "reload_view \<Rightarrow> reload_view \<times> web_event list" where
  "auto_load v = (if rv_loaded v then (v, []) else (v\<lparr>rv_loaded := True, rv_scan_after := True\<rparr>, [Refresh]))"

definition start_reload :: "reload_view \<Rightarrow> reload_view \<times> web_event list" where
  "start_reload v = (v\<lparr>rv_scan_after := True\<rparr>, [Refresh])"

definition after_refresh :: "bool \<Rightarrow> reload_view \<Rightarrow> reload_view \<times> web_event list" where
  "after_refresh refreshing v =
     (if refreshing then (v\<lparr>rv_saw_start := True\<rparr>, [])
      else if \<not> rv_scan_after v \<or> \<not> rv_saw_start v then (v, [])
      else (v\<lparr>rv_saw_start := False, rv_scan_after := False\<rparr>, [Scan]))"

definition is_refreshing :: "web_machine \<Rightarrow> bool" where
  "is_refreshing m \<longleftrightarrow> wm_inventory m = RefreshingCloud"

definition is_scanning :: "web_machine \<Rightarrow> bool" where
  "is_scanning m \<longleftrightarrow> wm_inventory m = DiscoveringHosts \<or> wm_inventory m = SuggestingCidr"

definition reload_busy :: "web_machine \<Rightarrow> bool" where
  "reload_busy m \<longleftrightarrow> is_refreshing m \<or> is_scanning m"

definition working_label :: "web_machine \<Rightarrow> string" where
  "working_label m = (if is_refreshing m then ''Syncing devices'' else if is_scanning m then ''Scanning LAN'' else [])"

section \<open>The cards\<close>

text \<open>A later device replaces an earlier one of the same name.\<close>

definition device_by_uuid :: "jsval list \<Rightarrow> (string, jsval) jsmap" where
  "device_by_uuid ds = fold (\<lambda>d m. let uuid = string_or_empty (field d ''uuid'') in if uuid = [] then m else map_set uuid d m) ds []"

definition ready_cards :: "(string \<Rightarrow> string \<Rightarrow> int) \<Rightarrow> web_context \<Rightarrow> (string \<times> jsval option) list \<times> (string \<times> jsval option) list" where
  "ready_cards lc c = (let ds = as_array (wc_devices c); by_uuid = device_by_uuid ds;
      card = (\<lambda>d. (iv_uuid d, map_get by_uuid (iv_uuid d)))
    in case group_devices_for_control lc ds (wc_hosts c) of (ready, inaccessible) \<Rightarrow> (map card ready, map card inaccessible))"

section \<open>Machine and view\<close>

type_synonym client = "web_machine \<times> reload_view"

fun send_events :: "rat \<Rightarrow> web_event list \<Rightarrow> web_machine \<Rightarrow> web_machine \<times> web_effect list" where
  "send_events now [] m = (m, [])"
| "send_events now (ev # evs) m = (case web_send now ev m of (m1, e1) \<Rightarrow>
     (case send_events now evs m1 of (m2, e2) \<Rightarrow> (m2, e1 @ e2)))"

definition rendered :: "rat \<Rightarrow> bool \<Rightarrow> client \<times> web_effect list \<Rightarrow> client \<times> web_effect list" where
  "rendered now before r = (case r of ((m, v), es) \<Rightarrow>
     if is_refreshing m = before then r
     else case after_refresh (is_refreshing m) v of (v', evs) \<Rightarrow>
       (case send_events now evs m of (m', es') \<Rightarrow> ((m', v'), es @ es')))"

definition view_event :: "rat \<Rightarrow> web_event \<Rightarrow> client \<Rightarrow> client \<times> web_effect list" where
  "view_event now ev c = (case c of (m, v) \<Rightarrow> (case web_send now ev m of (m', es) \<Rightarrow> rendered now (is_refreshing m) ((m', v), es)))"

text \<open>The first render: both effects run, then the machine is refreshing and the view is rendered again.\<close>

definition view_mount :: "rat \<Rightarrow> string \<Rightarrow> client \<times> web_effect list" where
  "view_mount now cidr = (case auto_load reload_init of (v, evs) \<Rightarrow>
     (case after_refresh False v of (v', evs') \<Rightarrow>
       (case send_events now (evs @ evs') (web_init cidr) of (m, es) \<Rightarrow> rendered now False ((m, v'), es))))"

definition press_reload :: "rat \<Rightarrow> client \<Rightarrow> client \<times> web_effect list" where
  "press_reload now c = (case c of (m, v) \<Rightarrow> if reload_busy m then (c, [])
     else case start_reload v of (v', evs) \<Rightarrow> (case send_events now evs m of (m', es) \<Rightarrow> rendered now (is_refreshing m) ((m', v'), es)))"

definition view_inventory_settle :: "rat \<Rightarrow> outcome \<Rightarrow> client \<Rightarrow> client \<times> web_effect list" where
  "view_inventory_settle now oc c = (case c of (m, v) \<Rightarrow>
     (case inventory_settle oc m of (m', es) \<Rightarrow> rendered now (is_refreshing m) ((m', v), es)))"

definition view_operation_settle :: "outcome \<Rightarrow> client \<Rightarrow> client \<times> web_effect list" where
  "view_operation_settle oc c = (case c of (m, v) \<Rightarrow> (case operation_settle oc m of (m', es) \<Rightarrow> ((m', v), es)))"

text \<open>Runs: no other part of the client asks for a refresh or a search.\<close>

inductive client_reach :: "client \<Rightarrow> bool" where
  mount: "client_reach (fst (view_mount now cidr))"
| reload: "client_reach c \<Longrightarrow> client_reach (fst (press_reload now c))"
| event: "client_reach c \<Longrightarrow> ev \<noteq> Refresh \<Longrightarrow> ev \<noteq> Scan \<Longrightarrow> client_reach (fst (view_event now ev c))"
| inventory_done: "client_reach c \<Longrightarrow> client_reach (fst (view_inventory_settle now oc c))"
| operation_done: "client_reach c \<Longrightarrow> client_reach (fst (view_operation_settle oc c))"

section \<open>Properties\<close>

subsection \<open>Loading\<close>

lemma operation_event_inventory [simp]: "wm_inventory (fst (operation_event now ev m)) = wm_inventory m"
  by (cases ev) simp_all

lemma monitor_event_inventory [simp]: "wm_inventory (monitor_event ev m) = wm_inventory m"
  by (cases ev) simp_all

lemma web_send_inventory: "wm_inventory (fst (web_send now ev m)) = wm_inventory (fst (inventory_event ev m))"
  by (simp add: web_send_def Let_def split_def)

lemma inventory_event_other: "ev \<noteq> Refresh \<Longrightarrow> ev \<noteq> Scan \<Longrightarrow> inventory_event ev m = (m, [])"
  by (cases ev) simp_all

lemma operation_settle_inventory [simp]: "wm_inventory (fst (operation_settle oc m)) = wm_inventory m"
  by (simp add: operation_settle_def Let_def split: operation.split)

lemma rendered_same: "is_refreshing m = before \<Longrightarrow> rendered now before ((m, v), es) = ((m, v), es)"
  by (simp add: rendered_def)

text \<open>Between the steps the flags tell whether a refresh is under way, and nothing else.\<close>

definition flags_match :: "client \<Rightarrow> bool" where
  "flags_match c \<longleftrightarrow> (case c of (m, v) \<Rightarrow> rv_loaded v \<and> rv_scan_after v = is_refreshing m \<and> rv_saw_start v = is_refreshing m)"

text \<open>The search that follows a refresh, by the block of the machine.\<close>

definition search_calls :: "web_context \<Rightarrow> web_effect list" where
  "search_calls c = (if trim (wc_cidr c) = [] then [Call ''GET'' (api_path [''lan'', ''cidr-suggest'']) JUndef] else discover_calls c)"

definition searching :: "web_context \<Rightarrow> inventory" where
  "searching c = (if trim (wc_cidr c) = [] then SuggestingCidr else DiscoveringHosts)"

lemma web_send_scan:
  "wm_inventory m = InventoryIdle \<Longrightarrow> web_send now Scan m = (m\<lparr>wm_inventory := searching (wm_context m)\<rparr>, search_calls (wm_context m))"
  by (simp add: web_send_def searching_def search_calls_def)

lemma web_send_refresh:
  "wm_inventory m = InventoryIdle \<Longrightarrow> web_send now Refresh m = (m\<lparr>wm_inventory := RefreshingCloud\<rparr>, refresh_calls)"
  by (simp add: web_send_def)

lemma press_idle:
  assumes "wm_inventory m = InventoryIdle" "flags_match (m, v)"
  shows "press_reload now (m, v) = ((m\<lparr>wm_inventory := RefreshingCloud\<rparr>, v\<lparr>rv_scan_after := True, rv_saw_start := True\<rparr>), refresh_calls)"
  using assms by (simp add: press_reload_def reload_busy_def is_refreshing_def is_scanning_def start_reload_def web_send_refresh
      rendered_def after_refresh_def)

definition refreshed_context :: "outcome \<Rightarrow> web_context \<Rightarrow> web_context" where
  "refreshed_context oc c = (case oc of Refreshed ds hosts \<Rightarrow> c\<lparr>wc_devices := ds, wc_hosts := hosts\<rparr> | _ \<Rightarrow> c)"

lemma refresh_settles:
  assumes "wm_inventory m = RefreshingCloud" "flags_match (m, v)" "c = refreshed_context oc (wm_context m)"
  shows "view_inventory_settle now oc (m, v) =
      ((m\<lparr>wm_inventory := searching c, wm_context := c\<rparr>, v\<lparr>rv_saw_start := False, rv_scan_after := False\<rparr>), search_calls c)"
  using assms by (simp add: view_inventory_settle_def inventory_settle_def rendered_def is_refreshing_def after_refresh_def
      flags_match_def web_send_scan flip: refreshed_context_def)

lemma inventory_settle_inventory:
  "wm_inventory (fst (inventory_settle oc m)) = (if wm_inventory m = SuggestingCidr then DiscoveringHosts else InventoryIdle)"
  by (cases "wm_inventory m") (simp_all add: inventory_settle_def Let_def)

lemma other_settles:
  assumes "wm_inventory m \<noteq> RefreshingCloud"
  shows "view_inventory_settle now oc (m, v) = ((fst (inventory_settle oc m), v), snd (inventory_settle oc m))"
proof -
  have "is_refreshing (fst (inventory_settle oc m)) = is_refreshing m"
    using assms by (simp add: is_refreshing_def inventory_settle_inventory)
  then show ?thesis by (simp add: view_inventory_settle_def split_def rendered_same)
qed

lemma press_busy: "wm_inventory m \<noteq> InventoryIdle \<Longrightarrow> press_reload now (m, v) = ((m, v), [])"
  by (cases "wm_inventory m") (simp_all add: press_reload_def reload_busy_def is_refreshing_def is_scanning_def)

lemma client_reach_flags: "client_reach c \<Longrightarrow> flags_match c"
proof (induction rule: client_reach.induct)
  case (mount now cidr)
  have "wm_inventory (web_init cidr) = InventoryIdle" by (simp add: web_init_def)
  then show ?case
    by (simp add: view_mount_def auto_load_def reload_init_def after_refresh_def web_send_refresh rendered_def is_refreshing_def flags_match_def)
next
  case (reload c now)
  obtain m v where c: "c = (m, v)" by (cases c)
  with reload.IH show ?case
    by (cases "wm_inventory m = InventoryIdle") (simp_all add: press_idle press_busy, simp add: flags_match_def is_refreshing_def)
next
  case (event c ev now)
  obtain m v where c: "c = (m, v)" by (cases c)
  have same: "wm_inventory (fst (web_send now ev m)) = wm_inventory m"
    by (simp add: web_send_inventory inventory_event_other event.hyps)
  then have "rendered now (is_refreshing m) ((fst (web_send now ev m), v), snd (web_send now ev m))
      = ((fst (web_send now ev m), v), snd (web_send now ev m))"
    by (intro rendered_same) (simp add: is_refreshing_def)
  with event.IH same show ?case by (simp add: view_event_def c split_def flags_match_def is_refreshing_def)
next
  case (inventory_done c now oc)
  obtain m v where c: "c = (m, v)" by (cases c)
  show ?case
  proof (cases "wm_inventory m = RefreshingCloud")
    case True
    note refresh_settles [OF this inventory_done.IH [unfolded c] refl, where now = now and oc = oc]
    then show ?thesis using inventory_done.IH by (simp add: c flags_match_def is_refreshing_def searching_def)
  next
    case False
    then show ?thesis using inventory_done.IH
      by (simp add: c other_settles inventory_settle_inventory flags_match_def is_refreshing_def)
  qed
next
  case (operation_done c oc)
  then show ?case by (cases c) (auto simp: view_operation_settle_def split_def flags_match_def is_refreshing_def)
qed

text \<open>C17. Loading and reloading: the view asks for the devices as soon as it is shown. At any moment of
  any run, the reload button works exactly when nothing is under way and starts the refresh; a
  refresh that ends, well or not, is followed by exactly one search, with the devices and hosts it
  brought, preceded by the request for a block when none is known; a search that ends leaves the
  view idle with the hosts found; and no other event of the client begins or ends any of these.\<close>

theorem reload_then_search:
  assumes "client_reach (m, v)"
  shows "(case wm_inventory m of
      InventoryIdle \<Rightarrow> (case press_reload now (m, v) of ((m', v'), es) \<Rightarrow>
        wm_inventory m' = RefreshingCloud \<and> wm_context m' = wm_context m \<and> es = refresh_calls)
    | RefreshingCloud \<Rightarrow> (case view_inventory_settle now oc (m, v) of ((m', v'), es) \<Rightarrow>
        wm_inventory m' = searching (wm_context m') \<and> es = search_calls (wm_context m') \<and>
        (\<forall>ds hosts. oc = Refreshed ds hosts \<longrightarrow> wc_devices (wm_context m') = ds \<and> wc_hosts (wm_context m') = hosts))
    | SuggestingCidr \<Rightarrow> (case view_inventory_settle now oc (m, v) of ((m', v'), es) \<Rightarrow>
        wm_inventory m' = DiscoveringHosts \<and> es = discover_calls (wm_context m'))
    | DiscoveringHosts \<Rightarrow> (case view_inventory_settle now oc (m, v) of ((m', v'), es) \<Rightarrow>
        wm_inventory m' = InventoryIdle \<and> es = [] \<and> (\<forall>hosts. oc = Discovered hosts \<longrightarrow> wc_hosts (wm_context m') = hosts))) \<and>
    (wm_inventory m \<noteq> InventoryIdle \<longrightarrow> press_reload now (m, v) = ((m, v), [])) \<and>
    (ev \<noteq> Refresh \<and> ev \<noteq> Scan \<longrightarrow> wm_inventory (fst (fst (view_event now ev (m, v)))) = wm_inventory m) \<and>
    wm_inventory (fst (fst (view_operation_settle oc (m, v)))) = wm_inventory m"
proof -
  note flags = client_reach_flags [OF assms]
  have other: "wm_inventory (fst (fst (view_event now ev (m, v)))) = wm_inventory m" if "ev \<noteq> Refresh" "ev \<noteq> Scan"
  proof -
    have "wm_inventory (fst (web_send now ev m)) = wm_inventory m" by (simp add: web_send_inventory inventory_event_other that)
    then show ?thesis by (simp add: view_event_def split_def rendered_same is_refreshing_def)
  qed
  have op: "wm_inventory (fst (fst (view_operation_settle oc (m, v)))) = wm_inventory m"
    by (simp add: view_operation_settle_def split_def)
  show ?thesis
  proof (cases "wm_inventory m")
    case InventoryIdle
    then show ?thesis using other op flags by (simp add: press_idle)
  next
    case RefreshingCloud
    then show ?thesis
      using other op refresh_settles [OF RefreshingCloud flags refl, where now = now and oc = oc]
      by (simp add: press_busy refreshed_context_def)
  next
    case SuggestingCidr
    then show ?thesis using other op by (simp add: press_busy other_settles) (simp add: inventory_settle_def Let_def)
  next
    case DiscoveringHosts
    then show ?thesis using other op by (simp add: press_busy other_settles) (auto simp: inventory_settle_def split: outcome.split)
  qed
qed

lemma reload_then_search_witness:
  "\<exists>m v. client_reach (m, v) \<and> wm_inventory (fst (fst (view_inventory_settle 0 (Refreshed (JArr []) (JObj [])) (m, v)))) = SuggestingCidr"
proof -
  define m where "m = (web_init [])\<lparr>wm_inventory := RefreshingCloud\<rparr>"
  define v where "v = \<lparr>rv_loaded = True, rv_scan_after = True, rv_saw_start = True\<rparr>"
  have "fst (view_mount 0 []) = (m, v)"
    by (simp add: view_mount_def auto_load_def reload_init_def after_refresh_def web_send_refresh rendered_def is_refreshing_def
        web_init_def m_def v_def)
  then have r: "client_reach (m, v)" using client_reach.mount [of 0 "[]"] by simp
  define res where "res = view_inventory_settle 0 (Refreshed (JArr []) (JObj [])) (m, v)"
  have "trim [] = []" by code_simp
  moreover have "wm_inventory m = RefreshingCloud" by (simp add: m_def)
  then have "wc_cidr (wm_context (fst (fst res))) = []"
    unfolding res_def using refresh_settles [where m = m and v = v and now = 0 and oc = "Refreshed (JArr []) (JObj [])"] client_reach_flags [OF r]
    by (simp add: refreshed_context_def m_def web_init_def web_context_init_def)
  moreover have "wm_inventory (fst (fst res)) = searching (wm_context (fst (fst res)))"
    using reload_then_search [OF r, where now = 0 and oc = "Refreshed (JArr []) (JObj [])"]
    by (simp add: split_def m_def flip: res_def) (simp add: res_def m_def)
  ultimately show ?thesis using r by (intro exI [of _ m] exI [of _ v]) (simp add: res_def searching_def)
qed

subsection \<open>The cards of the view\<close>

definition named_device :: "jsval \<Rightarrow> (string \<times> jsval) option" where
  "named_device d = (let uuid = string_or_empty (field d ''uuid'') in if uuid = [] then None else Some (uuid, d))"

lemma device_by_uuid_put: "device_by_uuid ds = dict.put_all named_device ds []"
  by (simp add: device_by_uuid_def dict.put_all_def dict.put_entry_def [abs_def] named_device_def Let_def if_distrib cong: if_cong)

lemma device_by_uuid_get:
  assumes "map_get (device_by_uuid ds) uuid = Some dev"
  shows "string_or_empty (field dev ''uuid'') = uuid \<and> dev \<in> set ds"
  using assms by (auto simp: device_by_uuid_put dict.get_put_all dict.last_for_def named_device_def Let_def
      split: option.splits if_splits dest!: find_found)

lemma device_by_uuid_has:
  assumes "dev \<in> set ds" "string_or_empty (field dev ''uuid'') = uuid" "uuid \<noteq> []"
  shows "\<exists>d. map_get (device_by_uuid ds) uuid = Some d"
proof -
  have "dict.last_for named_device ds uuid \<noteq> None"
    using assms by (auto simp: dict.last_for_def find_None_iff named_device_def Let_def)
  then obtain d where d: "dict.last_for named_device ds uuid = Some d" by auto
  then show ?thesis
    using find_found [OF d [unfolded dict.last_for_def]] by (auto simp: device_by_uuid_put dict.get_put_all)
qed

text \<open>The cards: every device of the two groups has a card with a device of its name from the
  account, the last one when there are several, and its switch and its buttons are offered exactly
  on the cards among those ready to control, the devices with a known address.\<close>

theorem cards_match_groups:
  assumes "group_devices_for_control lc (as_array (wc_devices (wm_context m))) (wc_hosts (wm_context m)) = (ready, inaccessible)"
    and "d \<in> set ready \<union> set inaccessible"
  shows "\<exists>dev. map_get (device_by_uuid (as_array (wc_devices (wm_context m)))) (iv_uuid d) = Some dev \<and>
      string_or_empty (field dev ''uuid'') = iv_uuid d \<and> dev \<in> set (as_array (wc_devices (wm_context m))) \<and>
      (cf_ready (card_facts (iv_uuid d) dev m) \<longleftrightarrow> d \<in> set ready) \<and>
      ((\<exists>now c. card_event now (card_facts (iv_uuid d) dev m) (Switched True) c \<noteq> (c, [], [])) \<longleftrightarrow>
         d \<in> set ready \<and> \<not> cf_toggling (card_facts (iv_uuid d) dev m))"
proof -
  note d = grouped_device [OF assms]
  define ds where "ds = as_array (wc_devices (wm_context m))"
  obtain dev where dev: "map_get (device_by_uuid ds) (iv_uuid d) = Some dev"
    using d(3,4) device_by_uuid_has unfolding ds_def by blast
  then have "string_or_empty (field dev ''uuid'') = iv_uuid d" "dev \<in> set ds" by (simp_all add: device_by_uuid_get)
  moreover have ready: "cf_ready (card_facts (iv_uuid d) dev' m) \<longleftrightarrow> d \<in> set ready" for dev'
    by (simp add: card_facts_def Let_def host_member_def d(1,2))
  ultimately show ?thesis using dev by (auto simp: ds_def)
qed

definition demo_view :: web_machine where
  "demo_view = (web_init [])\<lparr>wm_context := (web_context_init [])\<lparr>wc_devices := JArr demo_devices, wc_hosts := demo_hosts_map\<rparr>\<rparr>"

lemma cards_match_groups_witness:
  "\<exists>dev. map_get (device_by_uuid demo_devices) ''u1'' = Some dev \<and> cf_ready (card_facts ''u1'' dev demo_view)"
proof -
  have ds: "as_array (wc_devices (wm_context demo_view)) = demo_devices" "wc_hosts (wm_context demo_view) = demo_hosts_map"
    by (simp_all add: demo_view_def)
  obtain ready inaccessible where g: "group_devices_for_control codeunit_compare demo_devices demo_hosts_map = (ready, inaccessible)"
    by (cases "group_devices_for_control codeunit_compare demo_devices demo_hosts_map")
  have "map iv_uuid (fst (group_devices_for_control codeunit_compare demo_devices demo_hosts_map)) = [''u1'', ''u2'']" by code_simp
  then obtain d where d: "d \<in> set ready" "iv_uuid d = ''u1''" using g by (cases ready) auto
  show ?thesis using cards_match_groups [where m = demo_view, unfolded ds, OF g, of d] d by auto
qed

end
