(* ===== verification/DevServer.thy ===== *)
theory DevServer
  imports JsonPrint
begin

text \<open>
  The start of the server, \<open>apps/web/src/dev/serve-with-control.ts\<close>: the choice of its port, the socket
  it is controlled through, how a new server replaces one of the same project, and the commands
  \<open>info\<close>, \<open>restart\<close> and \<open>stop\<close> of the socket.

  The outside world is the record \<open>serve_env\<close>: what the socket files answer, and whether \<open>serve\<close> can
  have a port, which may depend on the stop commands sent before. Lines of the console are the
  messages of \<open>start_note\<close>. Paths are absolute POSIX paths.
\<close>

section \<open>Ports\<close>

definition default_port :: nat where
  "default_port = 3000"

definition max_port :: nat where
  "max_port = 65535"

definition parse_port :: "string option \<Rightarrow> nat option" where
  "parse_port v = (let s = or_else v [] in if s = [] then None
     else case integer_num (num_of_str s) of None \<Rightarrow> None
       | Some i \<Rightarrow> if i \<le> 0 \<or> int max_port < i then None else Some (nat i))"

definition resolve_base_port :: "nat option \<Rightarrow> string option \<Rightarrow> string option \<Rightarrow> nat" where
  "resolve_base_port explicit port offset = (if or_else explicit 0 \<noteq> 0 then or_else explicit 0
     else or_else (parse_port port) (default_port + or_else (parse_port offset) 0))"

definition is_address_in_use :: "jsval \<Rightarrow> bool" where
  "is_address_in_use err \<longleftrightarrow> field err ''code'' = JStr ''EADDRINUSE'' \<or>
     (case field err ''message'' of JStr m \<Rightarrow> str_includes ''EADDRINUSE'' m | _ \<Rightarrow> False)"

section \<open>Names\<close>

text \<open>\<open>replace(/p+/g, '-')\<close>\<close>

lemma dropWhile_shorter [termination_simp]: "length (dropWhile p xs) < Suc (length xs)"
  by (simp add: le_imp_less_Suc length_dropWhile_le)

fun replace_runs :: "(char \<Rightarrow> bool) \<Rightarrow> string \<Rightarrow> string" where
  "replace_runs p [] = []"
| "replace_runs p (c # cs) = (if p c then CHR ''-'' # replace_runs p (dropWhile p cs) else c # replace_runs p cs)"

definition safe_char :: "char \<Rightarrow> bool" where
  "safe_char c \<longleftrightarrow> (let n = code_of c in (48 \<le> n \<and> n \<le> 57) \<or> (65 \<le> n \<and> n \<le> 90) \<or> (97 \<le> n \<and> n \<le> 122) \<or> c \<in> set ''._-'')"

text \<open>\<open>replace(/^-|-$/g, '')\<close>\<close>

definition strip_dashes :: "string \<Rightarrow> string" where
  "strip_dashes s = (let t = (case s of [] \<Rightarrow> [] | c # cs \<Rightarrow> if c = CHR ''-'' then cs else s) in
     if t \<noteq> [] \<and> last t = CHR ''-'' then butlast t else t)"

definition to_safe_id :: "string \<Rightarrow> string" where
  "to_safe_id value = strip_dashes (replace_runs (\<lambda>c. c = CHR ''-'') (replace_runs (\<lambda>c. \<not> safe_char c) value))"

text \<open>The parts of a path, \<open>basename\<close>, \<open>dirname\<close> and \<open>join\<close> of an absolute one.\<close>

definition path_parts :: "string \<Rightarrow> string list" where
  "path_parts p = filter (\<lambda>s. s \<noteq> []) (split_on CHR ''/'' p)"

definition path_of_parts :: "string list \<Rightarrow> string" where
  "path_of_parts ps = CHR ''/'' # join_with ''/'' ps"

definition base_name :: "string \<Rightarrow> string" where
  "base_name p = (let ps = path_parts p in if ps = [] then [] else last ps)"

definition dir_name :: "string \<Rightarrow> string" where
  "dir_name p = path_of_parts (butlast (path_parts p))"

definition join_path :: "string \<Rightarrow> string \<Rightarrow> string" where
  "join_path dir file = path_of_parts (path_parts dir @ [file])"

text \<open>\<open>path.resolve(dir, p)\<close> for a relative \<open>p\<close>.\<close>

definition resolve_part :: "string \<Rightarrow> string list \<Rightarrow> string list" where
  "resolve_part s ps = (if s = ''.'' then ps else if s = ''..'' then butlast ps else ps @ [s])"

definition resolve_path :: "string \<Rightarrow> string \<Rightarrow> string" where
  "resolve_path dir p = path_of_parts (fold resolve_part (path_parts p) (path_parts dir))"

record server_info =
  si_id :: string
  si_name :: string
  si_short :: string

text \<open>The last part of a name, after its last slash.\<close>

definition named_server :: "(string \<Rightarrow> string) \<Rightarrow> string \<Rightarrow> string \<Rightarrow> server_info" where
  "named_server sha1 cwd name =
     \<lparr>si_id = to_safe_id name @ ''-'' @ take 6 (sha1 cwd), si_name = name, si_short = to_safe_id (last (split_on CHR ''/'' name))\<rparr>"

text \<open>The name is that of the package, or that of the directory when there is none or the file cannot
  be read as such; reading a member of \<open>null\<close> and splitting what is not a string throw.\<close>

definition resolve_server_info :: "(string \<Rightarrow> string) \<Rightarrow> (string \<Rightarrow> string option) \<Rightarrow> string \<Rightarrow> server_info" where
  "resolve_server_info sha1 read cwd = named_server sha1 cwd
     (case Option.bind (read (join_path cwd ''package.json'')) json_parse of
        None \<Rightarrow> base_name cwd
      | Some pkg \<Rightarrow> (case field pkg ''name'' of JStr name \<Rightarrow> name | _ \<Rightarrow> base_name cwd))"

text \<open>\<open>resolveProjectRoot\<close>, from the directories upwards.\<close>

definition declares_workspaces :: "(string \<Rightarrow> string option) \<Rightarrow> string list \<Rightarrow> bool" where
  "declares_workspaces read ps = (case Option.bind (read (path_of_parts (ps @ [''package.json'']))) json_parse of
     None \<Rightarrow> False | Some pkg \<Rightarrow> truthy (field pkg ''workspaces''))"

function root_above :: "(string \<Rightarrow> string option) \<Rightarrow> string list \<Rightarrow> string list option" where
  "root_above read ps = (if declares_workspaces read ps then Some ps
     else if ps = [] then None else root_above read (butlast ps))"
  by pat_completeness auto
termination by (relation "measure (\<lambda>(_, ps). length ps)") auto

declare root_above.simps [simp del]

definition resolve_project_root :: "(string \<Rightarrow> string option) \<Rightarrow> string \<Rightarrow> string" where
  "resolve_project_root read cwd = (case root_above read (path_parts cwd) of Some ps \<Rightarrow> path_of_parts ps | None \<Rightarrow> cwd)"

section \<open>The control socket\<close>

definition control_socket :: "string \<Rightarrow> string \<Rightarrow> nat \<Rightarrow> string option \<Rightarrow> string" where
  "control_socket dir short port override = (case or_else override [] of
     [] \<Rightarrow> join_path dir (''.'' @ short @ ''-'' @ dec_of_nat port @ ''.sock'')
   | c # cs \<Rightarrow> if c = CHR ''/'' then c # cs else resolve_path dir (c # cs))"

record running_server =
  rs_name :: jsval
  rs_port :: jsnum
  rs_socket :: string

text \<open>The command line of the socket: what is answered, and what is done.\<close>

datatype control_action = NoAction | DoRestart | DoStop

definition info_value :: "server_info \<Rightarrow> nat \<Rightarrow> string \<Rightarrow> jsval" where
  "info_value i port url = JObj [(''id'', JStr (si_id i)), (''name'', JStr (si_name i)), (''port'', js_int (int port)), (''url'', JStr url)]"

definition control_command :: "server_info \<Rightarrow> nat \<Rightarrow> string \<Rightarrow> string \<Rightarrow> string \<times> control_action" where
  "control_command i port url received = (let message = trim received in
     if message = ''restart'' then (''ok:'' @ url, DoRestart)
     else if message = ''stop'' then (''ok'', DoStop)
     else if message = ''info'' then (json_stringify 0 (info_value i port url), NoAction)
     else (''error:unknown-command'', NoAction))"

text \<open>The world of a start, after the stop commands sent so far: the answer of a socket file, \<open>None\<close> when
  there is none, it cannot be reached or is silent; and what \<open>serve\<close> throws for a port, if it does.\<close>

record serve_env =
  sv_answer :: "string list \<Rightarrow> string \<Rightarrow> string \<Rightarrow> string option"
  sv_serve :: "string list \<Rightarrow> nat \<Rightarrow> jsval option"

definition read_info :: "string \<Rightarrow> string \<Rightarrow> running_server option" where
  "read_info socket response = (if response = [] then None else case json_parse response of
       None \<Rightarrow> None
     | Some info \<Rightarrow> (case field info ''port'' of
         JNum port \<Rightarrow> Some \<lparr>rs_name = field info ''name'', rs_port = port, rs_socket = socket\<rparr>
       | _ \<Rightarrow> None))"

definition resolve_running_server :: "serve_env \<Rightarrow> string list \<Rightarrow> string \<Rightarrow> running_server option" where
  "resolve_running_server e stops socket = Option.bind (map_option trim (sv_answer e stops socket ''info'')) (read_info socket)"

section \<open>Starting\<close>

datatype start_note =
    KnownServer string bool nat
  | ReplaceFailed string
  | OtherServer nat

record started =
  sd_port :: nat
  sd_replaced :: bool
  sd_socket :: string

record start_run =
  sr_result :: "jsval + started"
  sr_stops :: "string list"
  sr_notes :: "start_note list"

definition no_port_error :: "nat \<Rightarrow> jsval" where
  "no_port_error first = JStr (''No available port found starting from '' @ dec_of_nat first)"

text \<open>An attempt at a port: the server known there, and the stop command to one of the same name.\<close>

definition ask_to_stop :: "serve_env \<Rightarrow> string list \<Rightarrow> running_server \<Rightarrow> bool \<times> start_note list" where
  "ask_to_stop e stops known = (case map_option trim (sv_answer e stops (rs_socket known) ''stop'') of
     None \<Rightarrow> (False, [ReplaceFailed ''false''])
   | Some ack \<Rightarrow> if starts_with ''ok'' ack then (True, []) else (False, [ReplaceFailed ack]))"

definition meet_known ::
  "serve_env \<Rightarrow> string \<Rightarrow> bool \<Rightarrow> string list \<Rightarrow> nat \<Rightarrow> running_server option \<Rightarrow> bool \<times> string list \<times> start_note list" where
  "meet_known e name allow stops port known = (case known of
     None \<Rightarrow> (False, [], [])
   | Some k \<Rightarrow> (let same = (rs_name k = JStr name); note = KnownServer (str_of (rs_name k)) same port in
       if allow \<and> same then (case ask_to_stop e stops k of (acked, notes) \<Rightarrow> (acked, [rs_socket k], note # notes))
       else (False, [], [note])))"

function start_loop ::
  "serve_env \<Rightarrow> server_info \<Rightarrow> string \<Rightarrow> bool \<Rightarrow> string option \<Rightarrow> nat \<Rightarrow> nat \<Rightarrow> bool \<Rightarrow> string list \<Rightarrow> start_note list \<Rightarrow> start_run" where
  "start_loop e i dir allow override first port replaced stops notes =
     (if max_port < port
      then \<lparr>sr_result = Inl (no_port_error first), sr_stops = stops, sr_notes = notes\<rparr>
      else let socket = control_socket dir (si_short i) port override; known = resolve_running_server e stops socket in
        case meet_known e (si_name i) allow stops port known of (acked, asked, said) \<Rightarrow>
          (case sv_serve e (stops @ asked) port of
             None \<Rightarrow> \<lparr>sr_result = Inr \<lparr>sd_port = port, sd_replaced = (replaced \<or> acked), sd_socket = socket\<rparr>,
               sr_stops = stops @ asked, sr_notes = notes @ said\<rparr>
           | Some err \<Rightarrow>
               if is_address_in_use err
               then start_loop e i dir allow override first (port + 1) (replaced \<or> acked) (stops @ asked)
                      (notes @ said @ (if known = None then [OtherServer port] else []))
               else \<lparr>sr_result = Inl err, sr_stops = stops @ asked, sr_notes = notes @ said\<rparr>))"
  by pat_completeness auto
termination by (relation "measure (\<lambda>(_, _, _, _, _, _, port, _). Suc max_port - port)") auto

declare start_loop.simps [simp del]

definition start_server_with_awareness :: "serve_env \<Rightarrow> server_info \<Rightarrow> string \<Rightarrow> bool \<Rightarrow> string option \<Rightarrow> nat \<Rightarrow> start_run" where
  "start_server_with_awareness e i dir allow override first = start_loop e i dir allow override first first False [] []"

text \<open>Listening on the socket: a file that does not answer is what an earlier process left, and is removed.\<close>

definition clears_socket :: "serve_env \<Rightarrow> string list \<Rightarrow> bool \<Rightarrow> string \<Rightarrow> bool" where
  "clears_socket e stops exists_file socket \<longleftrightarrow> exists_file \<and> or_else (map_option trim (sv_answer e stops socket ''info'')) [] = []"

section \<open>The health check\<close>

text \<open>What ends the race of the request and the timer: a response with \<open>ok\<close> and its status, the timer,
  or a failure with the name and the message of its error, if it is one.\<close>

datatype health = HealthResponse bool nat | HealthTimeout | HealthFailure "(string \<times> string) option"

definition health_suffix :: "health \<Rightarrow> string" where
  "health_suffix h = (case h of
     HealthResponse _ status \<Rightarrow> ''status '' @ dec_of_nat status
   | HealthTimeout \<Rightarrow> ''timeout''
   | HealthFailure None \<Rightarrow> ''unknown error''
   | HealthFailure (Some (name, message)) \<Rightarrow> if name = ''AbortError'' then ''timeout'' else message)"

definition is_healthy :: "health \<Rightarrow> bool" where
  "is_healthy h \<longleftrightarrow> (case h of HealthResponse good _ \<Rightarrow> good | _ \<Rightarrow> False)"

section \<open>A process and its servers\<close>

text \<open>The ports the process listens on, the server it holds in \<open>server\<close>, and the restarts that have
  stopped a server and not yet started the next: \<open>restartServer\<close> stops at once and starts after awaits,
  so restarts can overlap.\<close>

record process =
  pr_port :: nat
  pr_listening :: "nat list"
  pr_restarts :: "nat list"
  pr_socket :: string
  pr_exited :: bool

definition process_of :: "started \<Rightarrow> process" where
  "process_of s = \<lparr>pr_port = sd_port s, pr_listening = [sd_port s], pr_restarts = [], pr_socket = sd_socket s, pr_exited = False\<rparr>"

definition stop_current :: "process \<Rightarrow> process" where
  "stop_current p = p\<lparr>pr_listening := removeAll (pr_port p) (pr_listening p)\<rparr>"

definition receive_command :: "server_info \<Rightarrow> string \<Rightarrow> string \<Rightarrow> process \<Rightarrow> string \<times> process" where
  "receive_command i url received p = (case control_command i (pr_port p) url received of
     (answer, NoAction) \<Rightarrow> (answer, p)
   | (answer, DoRestart) \<Rightarrow> (answer, (stop_current p)\<lparr>pr_restarts := pr_restarts p @ [pr_port p]\<rparr>)
   | (answer, DoStop) \<Rightarrow> (answer, (stop_current p)\<lparr>pr_exited := True\<rparr>))"

text \<open>The rest of a restart: its start never stops another server.\<close>

definition restart_run :: "serve_env \<Rightarrow> server_info \<Rightarrow> string \<Rightarrow> string option \<Rightarrow> nat \<Rightarrow> start_run" where
  "restart_run e i dir override preferred = start_server_with_awareness e i dir False override preferred"

definition restarted :: "nat \<Rightarrow> started \<Rightarrow> process \<Rightarrow> process" where
  "restarted preferred s p = p\<lparr>pr_port := sd_port s, pr_listening := pr_listening p @ [sd_port s],
     pr_restarts := remove1 preferred (pr_restarts p), pr_socket := sd_socket s\<rparr>"

text \<open>The ports of the process are in use for itself, too.\<close>

definition own_ports_busy :: "serve_env \<Rightarrow> process \<Rightarrow> bool" where
  "own_ports_busy e p \<longleftrightarrow> (\<forall>stops. \<forall>port\<in>set (pr_listening p). \<exists>err. sv_serve e stops port = Some err \<and> is_address_in_use err)"

inductive process_reach :: "server_info \<Rightarrow> string \<Rightarrow> string option \<Rightarrow> process \<Rightarrow> bool" for i dir override where
  began: "sr_result (start_server_with_awareness e i dir True override first) = Inr s \<Longrightarrow> process_reach i dir override (process_of s)"
| command: "process_reach i dir override p \<Longrightarrow> \<not> pr_exited p \<Longrightarrow> process_reach i dir override (snd (receive_command i url received p))"
| settled: "process_reach i dir override p \<Longrightarrow> preferred \<in> set (pr_restarts p) \<Longrightarrow> own_ports_busy e p \<Longrightarrow>
    sr_result (restart_run e i dir override preferred) = Inr s \<Longrightarrow> process_reach i dir override (restarted preferred s p)"

section \<open>Properties\<close>

subsection \<open>Names\<close>

lemma safe_dash [simp]: "safe_char CHR ''-''"
  by (simp add: safe_char_def)

lemma replace_runs_chars: "c \<in> set (replace_runs p s) \<Longrightarrow> c = CHR ''-'' \<or> c \<in> set s \<and> \<not> p c"
  by (induction p s rule: replace_runs.induct) (auto split: if_splits dest: set_dropWhileD)

text \<open>Two characters that follow each other.\<close>

fun no_double :: "char \<Rightarrow> string \<Rightarrow> bool" where
  "no_double c (x # y # s) \<longleftrightarrow> \<not> (x = c \<and> y = c) \<and> no_double c (y # s)"
| "no_double c s \<longleftrightarrow> True"

lemma no_double_Cons: "no_double c (x # s) \<longleftrightarrow> no_double c s \<and> (s \<noteq> [] \<and> x = c \<longrightarrow> hd s \<noteq> c)"
  by (cases s) auto

lemma replace_runs_rest:
  assumes "p CHR ''-''"
  shows "replace_runs p (dropWhile p cs) = [] \<or> hd (replace_runs p (dropWhile p cs)) \<noteq> CHR ''-''"
proof (cases "dropWhile p cs")
  case (Cons x xs)
  then have "\<not> p x" by (metis hd_dropWhile list.distinct(1) list.sel(1))
  with assms Cons show ?thesis by auto
qed (simp only: replace_runs.simps simp_thms)

lemma replace_runs_single: "p = (\<lambda>c. c = CHR ''-'') \<Longrightarrow> no_double CHR ''-'' (replace_runs p s)"
proof (induction p s rule: replace_runs.induct)
  case (2 p c cs)
  then show ?case using replace_runs_rest [of p cs] by (cases "p c") (auto simp: no_double_Cons)
qed simp

lemma replace_runs_id: "(\<And>c. c \<in> set s \<Longrightarrow> \<not> p c) \<Longrightarrow> replace_runs p s = s"
  by (induction p s rule: replace_runs.induct) auto

lemma replace_dashes_id: "p = (\<lambda>c. c = CHR ''-'') \<Longrightarrow> no_double CHR ''-'' s \<Longrightarrow> replace_runs p s = s"
proof (induction p s rule: replace_runs.induct)
  case (2 p c cs)
  then show ?case by (cases cs) (auto simp: no_double_Cons)
qed simp

lemma no_double_butlast: "no_double c s \<Longrightarrow> no_double c (butlast s)"
  by (induction c s rule: no_double.induct) (auto simp: no_double_Cons)

lemma no_double_last: "no_double c s \<Longrightarrow> butlast s \<noteq> [] \<Longrightarrow> last s = c \<Longrightarrow> last (butlast s) \<noteq> c"
  by (induction c s rule: no_double.induct) (auto split: if_splits)

lemma strip_dashes_facts:
  assumes "no_double CHR ''-'' s"
  shows "no_double CHR ''-'' (strip_dashes s)" "set (strip_dashes s) \<subseteq> set s"
    "strip_dashes s \<noteq> [] \<Longrightarrow> hd (strip_dashes s) \<noteq> CHR ''-'' \<and> last (strip_dashes s) \<noteq> CHR ''-''"
proof -
  define t where "t = (case s of [] \<Rightarrow> [] | c # cs \<Rightarrow> if c = CHR ''-'' then cs else s)"
  have t: "no_double CHR ''-'' t" "set t \<subseteq> set s" "t \<noteq> [] \<Longrightarrow> hd t \<noteq> CHR ''-''"
    using assms by (auto simp: t_def no_double_Cons split: list.split)
  have strip: "strip_dashes s = (if t \<noteq> [] \<and> last t = CHR ''-'' then butlast t else t)"
    by (simp add: strip_dashes_def t_def Let_def)
  then show "no_double CHR ''-'' (strip_dashes s)" using t(1) no_double_butlast by simp
  show "set (strip_dashes s) \<subseteq> set s" using strip t(2) by (auto dest: in_set_butlastD)
  assume nonempty: "strip_dashes s \<noteq> []"
  with t(1,3) strip no_double_last [of "CHR ''-''" t] show "hd (strip_dashes s) \<noteq> CHR ''-'' \<and> last (strip_dashes s) \<noteq> CHR ''-''"
    by (cases t rule: rev_cases) (auto simp: hd_append split: if_splits)
qed

lemma strip_dashes_id: "s = [] \<or> hd s \<noteq> CHR ''-'' \<and> last s \<noteq> CHR ''-'' \<Longrightarrow> strip_dashes s = s"
  by (cases s) (auto simp: strip_dashes_def)

text \<open>The names of sockets: letters, digits, dots, underscores and single dashes inside, whatever the
  name; and a name that is one stays as it is.\<close>

lemma safe_id_shape:
  "list_all safe_char (to_safe_id s) \<and> no_double CHR ''-'' (to_safe_id s) \<and>
   (to_safe_id s = [] \<or> hd (to_safe_id s) \<noteq> CHR ''-'' \<and> last (to_safe_id s) \<noteq> CHR ''-'')"
proof -
  note facts = strip_dashes_facts [OF replace_runs_single [OF refl, of "replace_runs (\<lambda>c. \<not> safe_char c) s"], folded to_safe_id_def]
  have "safe_char c" if "c \<in> set (to_safe_id s)" for c
    using facts(2) that replace_runs_chars by (metis in_mono safe_dash)
  then show ?thesis using facts by (auto simp: list_all_iff)
qed

lemma safe_id_fixed:
  assumes "list_all safe_char s" "no_double CHR ''-'' s" "s = [] \<or> hd s \<noteq> CHR ''-'' \<and> last s \<noteq> CHR ''-''"
  shows "to_safe_id s = s"
  using assms by (simp add: to_safe_id_def replace_runs_id replace_dashes_id [OF refl] strip_dashes_id list_all_iff)

lemma safe_id_idem: "to_safe_id (to_safe_id s) = to_safe_id s"
  using safe_id_shape safe_id_fixed by blast

subsection \<open>Starting\<close>

text \<open>The stop commands sent at a port after others, and up to one; whether a stop is acknowledged, and one
  of a list of them; and the ports that were found in use.\<close>

definition stop_asked :: "serve_env \<Rightarrow> server_info \<Rightarrow> string \<Rightarrow> bool \<Rightarrow> string option \<Rightarrow> string list \<Rightarrow> nat \<Rightarrow> string list" where
  "stop_asked e i dir allow override stops port = (let socket = control_socket dir (si_short i) port override in
     case resolve_running_server e stops socket of None \<Rightarrow> []
       | Some k \<Rightarrow> if allow \<and> rs_name k = JStr (si_name i) then [socket] else [])"

primrec stops_at_first :: "serve_env \<Rightarrow> server_info \<Rightarrow> string \<Rightarrow> bool \<Rightarrow> string option \<Rightarrow> nat \<Rightarrow> nat \<Rightarrow> string list" where
  "stops_at_first e i dir allow override first 0 = []"
| "stops_at_first e i dir allow override first (Suc n) = (let before = stops_at_first e i dir allow override first n in
     before @ stop_asked e i dir allow override before (first + n))"

definition stops_upto :: "serve_env \<Rightarrow> server_info \<Rightarrow> string \<Rightarrow> bool \<Rightarrow> string option \<Rightarrow> nat \<Rightarrow> nat \<Rightarrow> string list" where
  "stops_upto e i dir allow override first port = stops_at_first e i dir allow override first (port - first)"

definition stop_acked :: "serve_env \<Rightarrow> string list \<Rightarrow> string \<Rightarrow> bool" where
  "stop_acked e stops socket \<longleftrightarrow> (case sv_answer e stops socket ''stop'' of None \<Rightarrow> False | Some ack \<Rightarrow> starts_with ''ok'' (trim ack))"

definition some_acked :: "serve_env \<Rightarrow> string list \<Rightarrow> bool" where
  "some_acked e stops \<longleftrightarrow> (\<exists>n < length stops. stop_acked e (take n stops) (stops ! n))"

definition busy_at :: "serve_env \<Rightarrow> server_info \<Rightarrow> string \<Rightarrow> bool \<Rightarrow> string option \<Rightarrow> nat \<Rightarrow> nat \<Rightarrow> bool" where
  "busy_at e i dir allow override first port \<longleftrightarrow>
     (case sv_serve e (stops_upto e i dir allow override first (Suc port)) port of None \<Rightarrow> False | Some err \<Rightarrow> is_address_in_use err)"

lemma some_acked_snoc: "some_acked e (stops @ [socket]) \<longleftrightarrow> some_acked e stops \<or> stop_acked e stops socket"
  by (simp add: some_acked_def Ex_less_Suc nth_append disj_commute cong: conj_cong)

lemma some_acked_Nil [simp]: "\<not> some_acked e []"
  by (simp add: some_acked_def)

lemma read_info_socket: "read_info socket response = Some k \<Longrightarrow> rs_socket k = socket"
  by (auto simp: read_info_def split: if_splits option.splits jsval.splits)

lemma resolved_socket: "resolve_running_server e stops socket = Some k \<Longrightarrow> rs_socket k = socket"
  by (auto simp: resolve_running_server_def bind_eq_Some_conv dest: read_info_socket)

lemma meet_known_asked:
  assumes "meet_known e (si_name i) allow stops port (resolve_running_server e stops (control_socket dir (si_short i) port override)) = (acked, asked, said)"
  shows "asked = stop_asked e i dir allow override stops port" "some_acked e (stops @ asked) \<longleftrightarrow> some_acked e stops \<or> acked"
  using assms resolved_socket [of e stops "control_socket dir (si_short i) port override"]
  by (auto simp: meet_known_def stop_asked_def ask_to_stop_def some_acked_snoc stop_acked_def Let_def split: option.splits if_splits prod.splits)

lemma stops_upto_Suc: "first \<le> port \<Longrightarrow> stops_upto e i dir allow override first (Suc port) =
    stops_upto e i dir allow override first port @
      stop_asked e i dir allow override (stops_upto e i dir allow override first port) port"
  by (simp add: stops_upto_def Suc_diff_le Let_def)

lemma start_loop_result:
  assumes "first \<le> port" "\<And>p. first \<le> p \<Longrightarrow> p < port \<Longrightarrow> busy_at e i dir allow override first p"
    and "stops = stops_upto e i dir allow override first port" "replaced \<longleftrightarrow> some_acked e stops"
    and "start_loop e i dir allow override first port replaced stops lines = run"
  shows "\<exists>p. first \<le> p \<and> (\<forall>q. first \<le> q \<and> q < p \<longrightarrow> busy_at e i dir allow override first q) \<and>
    (\<exists>q. sr_stops run = stops_upto e i dir allow override first q) \<and>
    (case sr_result run of
       Inr s \<Rightarrow> p \<le> max_port \<and> sd_port s = p \<and> sd_socket s = control_socket dir (si_short i) p override \<and>
         sv_serve e (sr_stops run) p = None \<and> (sd_replaced s \<longleftrightarrow> some_acked e (sr_stops run))
     | Inl err \<Rightarrow> p \<le> max_port \<and> sv_serve e (sr_stops run) p = Some err \<and> \<not> is_address_in_use err \<or>
         p = max first (Suc max_port) \<and> err = no_port_error first)"
  using assms
proof (induction e i dir allow override first port replaced stops lines rule: start_loop.induct)
  case (1 e i dir allow override first port replaced stops lines)
  obtain acked asked said where met:
    "meet_known e (si_name i) allow stops port (resolve_running_server e stops (control_socket dir (si_short i) port override))
      = (acked, asked, said)" by (metis prod_cases3)
  note asked = meet_known_asked [OF met]
  have upto: "stops @ asked = stops_upto e i dir allow override first (Suc port)"
    using "1.prems"(1,3) asked(1) by (simp add: stops_upto_Suc)
  have any: "replaced \<or> acked \<longleftrightarrow> some_acked e (stops @ asked)"
    using "1.prems"(4) asked(2) by simp
  note loop = "1.prems"(5) [unfolded start_loop.simps [of e i dir allow override first port replaced stops lines] Let_def met prod.case]
  show ?case
  proof (cases "max_port < port")
    case True
    have "\<forall>q. first \<le> q \<and> q < max first (Suc max_port) \<longrightarrow> busy_at e i dir allow override first q"
      using "1.prems"(2) True by auto
    moreover have "sr_stops run = stops_upto e i dir allow override first port" "sr_result run = Inl (no_port_error first)"
      using loop True "1.prems"(3) by auto
    ultimately show ?thesis by (intro exI [of _ "max first (Suc max_port)"]) auto
  next
    case False
    note loop = loop [unfolded if_not_P [OF False]]
    show ?thesis
    proof (cases "sv_serve e (stops @ asked) port")
      case None
      with loop False any upto "1.prems"(1,2) show ?thesis by (intro exI [of _ port]) auto
    next
      case (Some err)
      show ?thesis
      proof (cases "is_address_in_use err")
        case True
        then have "busy_at e i dir allow override first port" using Some upto by (simp add: busy_at_def)
        then have busy: "busy_at e i dir allow override first q" if "first \<le> q" "q < port + 1" for q
          using that "1.prems"(2) by (cases "q = port") auto
        show ?thesis
        proof (rule "1.IH" [OF \<open>\<not> max_port < port\<close> refl refl met [symmetric] refl Some True])
          show "first \<le> port + 1" using "1.prems"(1) by simp
          show "busy_at e i dir allow override first q" if "first \<le> q" "q < port + 1" for q using busy that .
          show "stops @ asked = stops_upto e i dir allow override first (port + 1)" using upto by simp
          show "replaced \<or> acked \<longleftrightarrow> some_acked e (stops @ asked)" by (rule any)
          show "start_loop e i dir allow override first (port + 1) (replaced \<or> acked) (stops @ asked)
              (lines @ said @ (if resolve_running_server e stops (control_socket dir (si_short i) port override) = None then [OtherServer port] else [])) = run"
            using loop Some True by simp
        qed
      next
        case False
        with loop Some \<open>\<not> max_port < port\<close> upto "1.prems"(1,2) show ?thesis by (intro exI [of _ port]) auto
      qed
    qed
  qed
qed

lemma stops_known:
  "n < length (stops_at_first e i dir allow override first m) \<Longrightarrow>
     allow \<and> (\<exists>k. resolve_running_server e (take n (stops_at_first e i dir allow override first m))
       (stops_at_first e i dir allow override first m ! n) = Some k \<and> rs_name k = JStr (si_name i))"
proof (induction m)
  case (Suc m)
  let ?before = "stops_at_first e i dir allow override first m"
  show ?case
  proof (cases "n < length ?before")
    case True
    then have same: "stops_at_first e i dir allow override first (Suc m) ! n = ?before ! n"
      "take n (stops_at_first e i dir allow override first (Suc m)) = take n ?before"
      by (simp_all add: Let_def nth_append)
    show ?thesis unfolding same by (rule Suc.IH [OF True])
  next
    case False
    with Suc.prems show ?thesis
      by (auto simp: Let_def nth_append stop_asked_def split: option.splits if_splits)
  qed
qed simp

text \<open>C34. Where the server starts: on the first port from the one asked for that \<open>serve\<close> can have, up to
  65535, with the socket of that port. Every port before it was tried, in turn, and found in use. When
  it does not start, \<open>serve\<close> has failed with just that error at the first port that is not in use, or
  every port up to the last is in use. A stop is sent only when replacing is allowed, and only to a
  server that says then that it has the name of this one; a server is said to be replaced exactly when one
  of these has acknowledged.\<close>

theorem start_takes_first_free_port:
  "let run = start_server_with_awareness e i dir allow override first; stops = sr_stops run in
    (\<exists>p. first \<le> p \<and> (\<forall>q. first \<le> q \<and> q < p \<longrightarrow> busy_at e i dir allow override first q) \<and>
      (case sr_result run of
         Inr s \<Rightarrow> p \<le> 65535 \<and> sd_port s = p \<and> sd_socket s = control_socket dir (si_short i) p override \<and>
           sv_serve e stops p = None \<and> (sd_replaced s \<longleftrightarrow> some_acked e stops)
       | Inl err \<Rightarrow> p \<le> 65535 \<and> sv_serve e stops p = Some err \<and> \<not> is_address_in_use err \<or>
           p = max first 65536 \<and> err = no_port_error first)) \<and>
    (\<forall>n < length stops. allow \<and>
      (\<exists>k. resolve_running_server e (take n stops) (stops ! n) = Some k \<and> rs_name k = JStr (si_name i)))"
proof -
  define run where "run = start_server_with_awareness e i dir allow override first"
  from start_loop_result [of first first e i dir allow override "[]" False "[]" run]
  obtain p q where p: "first \<le> p" "\<forall>q. first \<le> q \<and> q < p \<longrightarrow> busy_at e i dir allow override first q"
      "sr_stops run = stops_upto e i dir allow override first q"
    and outcome: "case sr_result run of
       Inr s \<Rightarrow> p \<le> max_port \<and> sd_port s = p \<and> sd_socket s = control_socket dir (si_short i) p override \<and>
         sv_serve e (sr_stops run) p = None \<and> (sd_replaced s \<longleftrightarrow> some_acked e (sr_stops run))
     | Inl err \<Rightarrow> p \<le> max_port \<and> sv_serve e (sr_stops run) p = Some err \<and> \<not> is_address_in_use err \<or>
         p = max first (Suc max_port) \<and> err = no_port_error first"
    by (simp add: run_def start_server_with_awareness_def stops_upto_def some_acked_def) blast
  have "\<forall>n < length (sr_stops run). allow \<and>
      (\<exists>k. resolve_running_server e (take n (sr_stops run)) (sr_stops run ! n) = Some k \<and> rs_name k = JStr (si_name i))"
    using stops_known unfolding p(3) stops_upto_def by blast
  moreover have "(65535 :: nat) = max_port" "(65536 :: nat) = Suc max_port" by (simp_all add: max_port_def)
  ultimately show ?thesis using p(1,2) outcome unfolding Let_def run_def [symmetric] by (simp only:) blast
qed

subsection \<open>Two servers of one project\<close>

text \<open>What a server answers to \<open>info\<close> is read back as what it is.\<close>

lemma short_int: "short_decimal (of_int n)"
proof -
  have "of_int n * 10 ^ 17 = (of_int (n * 10 ^ 17) :: rat)" by simp
  then show ?thesis by (simp only: short_decimal_def floor_of_int)
qed

lemma info_read_back:
  "read_info socket (trim (fst (control_command i port url ''info''))) =
     Some \<lparr>rs_name = JStr (si_name i), rs_port = Fin (of_nat port), rs_socket = socket\<rparr>"
proof -
  define sent where "sent = json_stringify 0 (info_value i port url)"
  have "storable (info_value i port url)" using short_int [of "int port"] by (simp add: info_value_def)
  then have parsed: "json_parse sent = Some (json_round (info_value i port url))"
    unfolding sent_def by (intro json_text.read_print) (simp add: info_value_def)
  have ends: "sent \<noteq> []" "hd sent = CHR ''{''" "last sent = CHR ''}''"
    by (simp_all add: sent_def json_stringify_def info_value_def)
  then have "trim sent = sent" by (intro trim_ends) (simp_all add: is_space_def code_of_def)
  moreover have "trim ''info'' = ''info''" by code_simp
  ultimately show ?thesis
    using parsed ends(1) by (simp add: control_command_def read_info_def sent_def [symmetric] Let_def) (simp add: info_value_def)
qed

text \<open>A project started again: when the socket of the first port is answered by a server of the same
  name, as one started earlier answers, and its port is free once that one has been told to stop, the new
  server takes its place, on its port and with its socket; the other was told to stop once. A start
  that may not replace servers, as that of a restart, or of another name tells it nothing, and
  goes on with the next port.\<close>

theorem server_takes_over:
  assumes "\<And>command. sv_answer e [] (control_socket dir (si_short i) first override) command = Some (fst (control_command old first url command))"
    and "first \<le> 65535" "sv_serve e [control_socket dir (si_short i) first override] first = None"
    and "\<exists>err. sv_serve e [] first = Some err \<and> is_address_in_use err"
  shows "(allow \<and> si_name old = si_name i \<longrightarrow>
      start_server_with_awareness e i dir allow override first =
        \<lparr>sr_result = Inr \<lparr>sd_port = first, sd_replaced = True, sd_socket = control_socket dir (si_short i) first override\<rparr>,
         sr_stops = [control_socket dir (si_short i) first override], sr_notes = [KnownServer (si_name i) True first]\<rparr>) \<and>
    (\<not> (allow \<and> si_name old = si_name i) \<longrightarrow>
      start_server_with_awareness e i dir allow override first =
        start_loop e i dir allow override first (Suc first) False [] [KnownServer (si_name old) (si_name old = si_name i) first])"
proof -
  define socket where "socket = control_socket dir (si_short i) first override"
  have known: "resolve_running_server e [] socket = Some \<lparr>rs_name = JStr (si_name old), rs_port = Fin (of_nat first), rs_socket = socket\<rparr>"
    using assms(1) by (simp add: resolve_running_server_def socket_def [symmetric] info_read_back)
  have "trim ''stop'' = ''stop''" "trim ''ok'' = ''ok''" by code_simp+
  then have stop: "sv_answer e [] socket ''stop'' = Some ''ok''" "trim ''ok'' = ''ok''"
    using assms(1) by (simp_all add: socket_def control_command_def)
  obtain err where busy: "sv_serve e [] first = Some err" "is_address_in_use err" using assms(4) by blast
  have start: "start_server_with_awareness e i dir allow override first = start_loop e i dir allow override first first False [] []"
    by (simp add: start_server_with_awareness_def)
  show ?thesis
    unfolding start start_loop.simps [of e i dir allow override first first]
    using assms(2,3) busy known stop
    by (simp add: socket_def [symmetric] meet_known_def ask_to_stop_def starts_with_def max_port_def Let_def)
qed

subsection \<open>Restarts\<close>

text \<open>The server the process holds is one it listens with, unless it is restarting or has ended, its
  socket is that of its port, and it listens on no port twice.\<close>

definition process_ok :: "server_info \<Rightarrow> string \<Rightarrow> string option \<Rightarrow> process \<Rightarrow> bool" where
  "process_ok i dir override p \<longleftrightarrow> distinct (pr_listening p) \<and> (\<forall>port\<in>set (pr_listening p). port \<le> 65535) \<and>
     pr_socket p = control_socket dir (si_short i) (pr_port p) override \<and>
     (pr_port p \<in> set (pr_listening p) \<or> pr_restarts p \<noteq> [] \<or> pr_exited p)"

lemma stop_current_fields [simp]:
  "pr_port (stop_current p) = pr_port p" "pr_socket (stop_current p) = pr_socket p" "pr_restarts (stop_current p) = pr_restarts p"
  "pr_exited (stop_current p) = pr_exited p" "set (pr_listening (stop_current p)) = set (pr_listening p) - {pr_port p}"
  "distinct (pr_listening p) \<Longrightarrow> distinct (pr_listening (stop_current p))"
  by (simp_all add: stop_current_def distinct_removeAll)

lemma started_facts:
  assumes "sr_result (start_server_with_awareness e i dir allow override first) = Inr s"
  shows "sd_port s \<le> 65535" "sd_socket s = control_socket dir (si_short i) (sd_port s) override" "\<exists>stops. sv_serve e stops (sd_port s) = None"
  using start_loop_result [of first first e i dir allow override "[]" False "[]", OF _ _ _ _ refl] assms
  by (auto simp: start_server_with_awareness_def stops_upto_def max_port_def)

lemma command_ok: "process_ok i dir override p \<Longrightarrow> process_ok i dir override (snd (receive_command i url received p))"
  by (auto simp: process_ok_def receive_command_def split: prod.split control_action.split)

lemma settled_ok:
  assumes "process_ok i dir override p" "own_ports_busy e p" "sr_result (restart_run e i dir override preferred) = Inr s"
  shows "process_ok i dir override (restarted preferred s p)"
proof -
  note s = started_facts [OF assms(3) [unfolded restart_run_def]]
  have "sd_port s \<notin> set (pr_listening p)" using assms(2) s(3) unfolding own_ports_busy_def by (metis option.distinct(1))
  with assms(1) s(1,2) show ?thesis by (auto simp: process_ok_def restarted_def)
qed

lemma process_reach_ok: "process_reach i dir override p \<Longrightarrow> process_ok i dir override p"
proof (induction rule: process_reach.induct)
  case (began e first s)
  then show ?case using started_facts [OF began] by (simp add: process_ok_def process_of_def)
qed (use command_ok settled_ok in blast)+

lemma start_here:
  assumes "port \<le> 65535" "sv_serve e [] port = None"
  shows "sr_result (restart_run e i dir override port) = Inr \<lparr>sd_port = port, sd_replaced = False, sd_socket = control_socket dir (si_short i) port override\<rparr>"
  using assms by (auto simp: restart_run_def start_server_with_awareness_def start_loop.simps [of e i dir False override port port] meet_known_def
      max_port_def Let_def split: option.split)

lemma start_after:
  assumes "port < 65535" "sv_serve e [] port = Some err" "is_address_in_use err" "sv_serve e [] (Suc port) = None"
  shows "sr_result (restart_run e i dir override port) =
    Inr \<lparr>sd_port = Suc port, sd_replaced = False, sd_socket = control_socket dir (si_short i) (Suc port) override\<rparr>"
  using assms by (auto simp: restart_run_def start_server_with_awareness_def start_loop.simps [of e i dir False override port port]
      start_loop.simps [of e i dir False override port "Suc port"] meet_known_def max_port_def Let_def split: option.split)

lemma restart_received:
  "snd (receive_command i url ''restart'' p) = (stop_current p)\<lparr>pr_restarts := pr_restarts p @ [pr_port p]\<rparr>"
proof -
  have "trim ''restart'' = ''restart''" by code_simp
  then show ?thesis by (simp add: receive_command_def control_command_def)
qed

text \<open>The process behind the socket: whatever commands it gets and whatever ports its restarts
  find, it never listens twice on a port, its socket is that of its port, and it listens on the
  port it holds unless a restart is under way or it has ended. A restart on a port that
  is free once the server has stopped leaves the process as it was.\<close>

theorem process_keeps_its_port:
  assumes "process_reach i dir override p"
  shows "distinct (pr_listening p) \<and> pr_socket p = control_socket dir (si_short i) (pr_port p) override \<and>
    (pr_port p \<in> set (pr_listening p) \<or> pr_restarts p \<noteq> [] \<or> pr_exited p) \<and>
    (pr_listening p = [pr_port p] \<and> pr_restarts p = [] \<and> sv_serve e [] (pr_port p) = None \<longrightarrow>
      (\<exists>s. sr_result (restart_run e i dir override (pr_port p)) = Inr s \<and>
        restarted (pr_port p) s (snd (receive_command i url ''restart'' p)) = p))"
proof -
  note ok = process_reach_ok [OF assms, unfolded process_ok_def]
  have "\<exists>s. sr_result (restart_run e i dir override (pr_port p)) = Inr s \<and> restarted (pr_port p) s (snd (receive_command i url ''restart'' p)) = p"
    if alone: "pr_listening p = [pr_port p]" "pr_restarts p = []" "sv_serve e [] (pr_port p) = None"
  proof -
    have "pr_port p \<le> 65535" using ok alone(1) by simp
    from start_here [OF this alone(3)] show ?thesis
      using ok alone by (cases p) (simp add: restart_received restarted_def stop_current_def)
  qed
  with ok show ?thesis by blast
qed

text \<open>But restarts may overlap: of two asked for together the first brings the server back, and the
  second, finding the port in use, starts another beside it, which the process then holds.\<close>

lemma restarts_leak:
  assumes "pr_listening p = [port]" "pr_port p = port" "pr_restarts p = []" "port < 65535"
    and "sv_serve e [] port = None" "sv_serve e' [] port = Some err" "is_address_in_use err" "sv_serve e' [] (Suc port) = None"
    and "p2 = snd (receive_command i url ''restart'' (snd (receive_command i url ''restart'' p)))"
  shows "\<exists>s s'. sr_result (restart_run e i dir override port) = Inr s \<and> sr_result (restart_run e' i dir override port) = Inr s' \<and>
    pr_listening (restarted port s' (restarted port s p2)) = [port, Suc port] \<and> pr_port (restarted port s' (restarted port s p2)) = Suc port \<and>
    pr_restarts (restarted port s' (restarted port s p2)) = []"
  using assms start_here [of port e i dir override] start_after [of port e' err i dir override]
  by (simp add: restart_received restarted_def stop_current_def)

subsection \<open>A run\<close>

definition demo_info :: server_info where
  "demo_info = \<lparr>si_id = ''web-abcdef'', si_name = ''@merossity/web'', si_short = ''web''\<rparr>"

text \<open>An earlier server of the project on port 3000, and its port once it has stopped.\<close>

definition demo_serve :: serve_env where
  "demo_serve = \<lparr>sv_answer = (\<lambda>stops socket command. if stops = [] \<and> socket = ''/app/.web-3000.sock''
       then Some (fst (control_command demo_info 3000 ''http://localhost:3000/'' command)) else None),
     sv_serve = (\<lambda>stops port. if port = 3000 \<and> stops = [] then Some (JObj [(''code'', JStr ''EADDRINUSE'')]) else None)\<rparr>"

lemma demo_socket: "control_socket ''/app'' (si_short demo_info) 3000 None = ''/app/.web-3000.sock''"
  by code_simp

lemma server_takes_over_witness:
  "sr_stops (start_server_with_awareness demo_serve demo_info ''/app'' True None 3000) = [''/app/.web-3000.sock'']"
proof -
  have "\<exists>err. sv_serve demo_serve [] 3000 = Some err \<and> is_address_in_use err"
    by (simp add: demo_serve_def is_address_in_use_def)
  moreover have "sv_answer demo_serve [] (control_socket ''/app'' (si_short demo_info) 3000 None) m =
      Some (fst (control_command demo_info 3000 ''http://localhost:3000/'' m))" for m
    unfolding demo_socket by (simp add: demo_serve_def)
  moreover have "sv_serve demo_serve [control_socket ''/app'' (si_short demo_info) 3000 None] 3000 = None"
    by (simp add: demo_serve_def)
  ultimately show ?thesis
    using server_takes_over [of demo_serve "''/app''" demo_info 3000 None demo_info "''http://localhost:3000/''" True] demo_socket by simp
qed

lemma start_takes_first_free_port_witness:
  "sr_stops (start_server_with_awareness demo_serve demo_info ''/app'' False None 3000) = [] \<and>
   (\<exists>s. sr_result (start_server_with_awareness demo_serve demo_info ''/app'' False None 3000) = Inr s \<and>
      sd_port s = 3001 \<and> \<not> sd_replaced s \<and> busy_at demo_serve demo_info ''/app'' False None 3000 3000)"
proof -
  have "sr_result (start_server_with_awareness demo_serve demo_info ''/app'' False None 3000) =
      Inr \<lparr>sd_port = 3001, sd_replaced = False, sd_socket = control_socket ''/app'' (si_short demo_info) 3001 None\<rparr>"
    using start_after [of 3000 demo_serve "JObj [(''code'', JStr ''EADDRINUSE'')]" demo_info "''/app''" None]
    by (simp add: demo_serve_def is_address_in_use_def restart_run_def)
  then show ?thesis
    using start_takes_first_free_port [of demo_serve demo_info "''/app''" False None 3000] by (auto simp: Let_def)
qed

definition demo_process :: process where
  "demo_process = process_of \<lparr>sd_port = 3000, sd_replaced = False, sd_socket = control_socket ''/app'' (si_short demo_info) 3000 None\<rparr>"

lemma process_keeps_its_port_witness:
  "pr_socket demo_process = ''/app/.web-3000.sock'' \<and> 3000 \<in> set (pr_listening demo_process)"
proof -
  have "sr_result (start_server_with_awareness \<lparr>sv_answer = \<lambda>_ _ _. None, sv_serve = \<lambda>_ _. None\<rparr> demo_info ''/app'' True None 3000) =
      Inr \<lparr>sd_port = 3000, sd_replaced = False, sd_socket = control_socket ''/app'' (si_short demo_info) 3000 None\<rparr>"
    by (simp add: start_server_with_awareness_def start_loop.simps [of _ _ _ _ _ 3000 3000] resolve_running_server_def meet_known_def max_port_def Let_def)
  from process_keeps_its_port [OF process_reach.began [OF this]] show ?thesis
    using demo_socket by (auto simp: demo_process_def process_of_def)
qed

end
