(* ===== verification/SiteFiles.thy ===== *)
theory SiteFiles
  imports DevServer Routes
begin

text \<open>
  The entry of the web server, \<open>apps/web/src/index.ts\<close>: whether the client is built again at the start,
  the files served for the paths that are no route of the API, the security headers of these
  answers, and the changed files that restart the server in development. \<open>Bun.build\<close>, the reading
  of directories and the watcher are arguments: a tree of files, and the names of changed ones.
\<close>

section \<open>Whether to build\<close>

text \<open>A directory that cannot be read, and a file whose time cannot be read, are \<open>None\<close>.\<close>

datatype dir_entry = FileEntry string "rat option" | DirEntry string "dir_entry list option"

definition ends_with :: "string \<Rightarrow> string \<Rightarrow> bool" where
  "ends_with suffix s \<longleftrightarrow> starts_with (rev suffix) (rev s)"

definition ui_source :: "string \<Rightarrow> bool" where
  "ui_source name \<longleftrightarrow> list_ex (\<lambda>e. ends_with e name) [''.ts'', ''.tsx'', ''.css'', ''.html'']"

definition skipped_dir :: "string \<Rightarrow> bool" where
  "skipped_dir name \<longleftrightarrow> name = ''dist'' \<or> name = ''node_modules''"

fun entry_mtime :: "dir_entry \<Rightarrow> rat" where
  "entry_mtime (FileEntry name time) = (if ui_source name then or_else time 0 else 0)"
| "entry_mtime (DirEntry name None) = 0"
| "entry_mtime (DirEntry name (Some es)) = (if skipped_dir name then 0 else foldl max 0 (map entry_mtime es))"

definition newest_mtime :: "dir_entry list option \<Rightarrow> rat" where
  "newest_mtime es = (case es of None \<Rightarrow> 0 | Some xs \<Rightarrow> foldl max 0 (map entry_mtime xs))"

text \<open>The state of the build output: the time of the stamp, if it is there and can be read.\<close>

record dist_state =
  dd_stamp_exists :: bool
  dd_index_exists :: bool
  dd_stamp_time :: "rat option"

definition should_build :: "bool \<Rightarrow> dist_state \<Rightarrow> dir_entry list option \<Rightarrow> bool" where
  "should_build always d src =
     (if always then True
      else if \<not> dd_stamp_exists d then True
      else if \<not> dd_index_exists d then True
      else case dd_stamp_time d of None \<Rightarrow> True | Some stamp \<Rightarrow> stamp < newest_mtime src)"

text \<open>Whether the client is built, and whether the stamp is written.\<close>

definition ensure_dev_build :: "bool \<Rightarrow> bool \<Rightarrow> bool \<Rightarrow> dist_state \<Rightarrow> dir_entry list option \<Rightarrow> bool \<times> bool" where
  "ensure_dev_build production always succeeds d src =
     (if production \<or> \<not> should_build always d src then (False, False) else (True, succeeds))"

section \<open>Pages\<close>

record page =
  pg_file :: string
  pg_headers :: "(string, string) jsmap"

definition index_file :: "bool \<Rightarrow> string \<Rightarrow> string \<Rightarrow> string" where
  "index_file dist_index_exists out_dir src = join_path (if dist_index_exists then out_dir else src) ''index.html''"

text \<open>\<open>path.join\<close> keeps a slash at the end, and there is no file at such a path.\<close>

definition try_serve_dist_asset :: "(string \<Rightarrow> bool) \<Rightarrow> string \<Rightarrow> string \<Rightarrow> string option" where
  "try_serve_dist_asset exists_file out_dir pathname = (let clean = dropWhile (\<lambda>c. c = CHR ''/'') pathname in
     if clean = [] then None
     else let file = resolve_path out_dir clean in if last clean \<noteq> CHR ''/'' \<and> exists_file file then Some file else None)"

definition html_content :: "bool \<Rightarrow> string \<Rightarrow> page" where
  "html_content production file =
     \<lparr>pg_file = file, pg_headers = apply_security_headers production (set_header ''Content-Type'' ''text/html; charset=utf-8'' [])\<rparr>"

text \<open>The type of a file is found by the platform.\<close>

definition serve_page :: "(string \<Rightarrow> bool) \<Rightarrow> (string \<Rightarrow> string) \<Rightarrow> bool \<Rightarrow> string \<Rightarrow> string \<Rightarrow> string \<Rightarrow> page" where
  "serve_page exists_file type_of_file production out_dir index_page pathname =
     (case try_serve_dist_asset exists_file out_dir pathname of
        Some file \<Rightarrow> \<lparr>pg_file = file, pg_headers = apply_security_headers production [(''content-type'', type_of_file file)]\<rparr>
      | None \<Rightarrow> html_content production index_page)"

section \<open>Watching\<close>

definition watch_restarts :: "string \<Rightarrow> bool" where
  "watch_restarts name \<longleftrightarrow> name \<noteq> [] \<and> list_ex (\<lambda>e. ends_with e name) [''.ts'', ''.js'', ''.mjs'', ''.cjs''] \<and>
     \<not> list_ex (\<lambda>e. ends_with e name) [''.d.ts'', ''.d.mts'', ''.d.cts'']"

text \<open>The root of the workspace, upwards from the current directory; the root of the file system is not
  looked at.\<close>

function workspace_above :: "(string \<Rightarrow> bool) \<Rightarrow> string list \<Rightarrow> string list" where
  "workspace_above exists_file ps =
     (if ps = [] \<or> exists_file (path_of_parts (ps @ [''packages'', ''core'', ''src''])) then ps else workspace_above exists_file (butlast ps))"
  by pat_completeness auto
termination by (relation "measure (\<lambda>(_, ps). length ps)") auto

declare workspace_above.simps [simp del]

definition watch_paths :: "(string \<Rightarrow> bool) \<Rightarrow> string \<Rightarrow> string \<Rightarrow> string list" where
  "watch_paths exists_file src cwd =
     filter exists_file [src, path_of_parts (workspace_above exists_file (path_parts cwd) @ [''packages'', ''core'', ''src''])]"

section \<open>Properties\<close>

subsection \<open>The build is as new as the sources\<close>

text \<open>The times of the files of the client in a tree, outside the build output and the dependencies.\<close>

fun ui_times :: "dir_entry \<Rightarrow> rat list" where
  "ui_times (FileEntry name time) = (if ui_source name then (case time of None \<Rightarrow> [] | Some t \<Rightarrow> [t]) else [])"
| "ui_times (DirEntry name None) = []"
| "ui_times (DirEntry name (Some es)) = (if skipped_dir name then [] else concat (map ui_times es))"

lemma foldl_max_le: "foldl max (a :: rat) xs \<le> b \<longleftrightarrow> a \<le> b \<and> (\<forall>x\<in>set xs. x \<le> b)"
  by (induction xs arbitrary: a) auto

lemma entry_mtime_le:
  assumes "0 \<le> b"
  shows "entry_mtime x \<le> b \<longleftrightarrow> (\<forall>t\<in>set (ui_times x). t \<le> b)"
proof (induction x rule: entry_mtime.induct)
  case (1 name time)
  show ?case using assms by (cases "ui_source name"; cases time) simp_all
next
  case (2 name)
  with assms show ?case by simp
next
  case (3 name es)
  with assms show ?case by (auto simp: foldl_max_le)
qed

lemma newest_mtime_le: "0 \<le> b \<Longrightarrow> newest_mtime (Some es) \<le> b \<longleftrightarrow> (\<forall>x\<in>set es. \<forall>t\<in>set (ui_times x). t \<le> b)"
  by (auto simp: newest_mtime_def foldl_max_le entry_mtime_le)

text \<open>When a start in development does not build: exactly when building is not forced, a
  finished build is there with its stamp, and no source file of the client, at any depth
  outside the build output and the dependencies, is newer than the stamp.\<close>

theorem old_build_only_if_fresh:
  assumes "0 \<le> stamp" "dd_stamp_time d = Some stamp"
  shows "ensure_dev_build production always succeeds d (Some es) = (False, False) \<longleftrightarrow>
    production \<or> \<not> always \<and> dd_stamp_exists d \<and> dd_index_exists d \<and> (\<forall>x\<in>set es. \<forall>t\<in>set (ui_times x). t \<le> stamp)"
  using assms newest_mtime_le [OF assms(1), of es] by (auto simp: ensure_dev_build_def should_build_def not_less)

subsection \<open>Files outside the build output are not served\<close>

lemma fold_resolve_part: "''..'' \<notin> set ps \<Longrightarrow> fold resolve_part ps qs = qs @ filter (\<lambda>s. s \<noteq> ''.'') ps"
  by (induction ps arbitrary: qs) (auto simp: resolve_part_def)

lemma headers_kept: "k \<notin> set (map (to_lower \<circ> fst) kvs) \<Longrightarrow> map_get (fold (\<lambda>(n, v). set_header n v) kvs hs) k = map_get hs k"
  by (induction kvs arbitrary: hs) (auto simp: set_header_def)

lemma set_headers_get:
  "distinct (map (to_lower \<circ> fst) kvs) \<Longrightarrow> (n, v) \<in> set kvs \<Longrightarrow>
    map_get (fold (\<lambda>(n, v). set_header n v) kvs hs) (to_lower n) = Some v"
proof (induction kvs arbitrary: hs)
  case (Cons kv kvs)
  obtain m u where kv: "kv = (m, u)" by fastforce
  show ?case
  proof (cases "(n, v) \<in> set kvs")
    case True
    with Cons kv show ?thesis by simp
  next
    case False
    with Cons.prems kv have "n = m" "v = u" "to_lower n \<notin> set (map (to_lower \<circ> fst) kvs)" by auto
    then show ?thesis using headers_kept [of "to_lower n" kvs] kv by (simp add: set_header_def [of m u])
  qed
qed simp

text \<open>C35. What a path that is no route gets: a file of the build output, below its directory, when the
  path has no parent part, as the paths of parsed addresses have none, and else the page
  of the client; either with the security headers in production.\<close>

theorem pages_below_dist:
  assumes "''..'' \<notin> set (path_parts pathname)"
  shows "(\<exists>ps. set ps \<subseteq> set (path_parts pathname) \<and> pg_file (serve_page exists_file type_of_file production out_dir index_page pathname) = path_of_parts (path_parts out_dir @ ps) \<or>
      pg_file (serve_page exists_file type_of_file production out_dir index_page pathname) = index_page) \<and>
    (production \<longrightarrow> (\<forall>(name, v)\<in>set security_headers.
        map_get (pg_headers (serve_page exists_file type_of_file production out_dir index_page pathname)) (to_lower name) = Some v))"
proof -
  define clean where "clean = dropWhile (\<lambda>c. c = CHR ''/'') pathname"
  have "path_parts (dropWhile (\<lambda>c. c = CHR ''/'') s) = path_parts s" for s
    by (induction s) (auto simp: path_parts_def)
  then have parts: "path_parts clean = path_parts pathname" by (simp add: clean_def)
  have target: "resolve_path out_dir clean = path_of_parts (path_parts out_dir @ filter (\<lambda>s. s \<noteq> ''.'') (path_parts pathname))"
    using assms parts by (simp add: resolve_path_def fold_resolve_part)
  have headers: "\<forall>(name, v)\<in>set security_headers. map_get (apply_security_headers True hs) (to_lower name) = Some v" for hs
  proof -
    have "distinct (map (to_lower \<circ> fst) security_headers)" by code_simp
    then show ?thesis using set_headers_get by (fastforce simp: apply_security_headers_def)
  qed
  have "try_serve_dist_asset exists_file out_dir pathname = None \<or> try_serve_dist_asset exists_file out_dir pathname = Some (resolve_path out_dir clean)"
    by (simp add: try_serve_dist_asset_def clean_def Let_def)
  then show ?thesis
  proof
    assume "try_serve_dist_asset exists_file out_dir pathname = None"
    then show ?thesis using headers by (simp add: serve_page_def html_content_def)
  next
    assume "try_serve_dist_asset exists_file out_dir pathname = Some (resolve_path out_dir clean)"
    then have "pg_file (serve_page exists_file type_of_file production out_dir index_page pathname) =
        path_of_parts (path_parts out_dir @ filter (\<lambda>s. s \<noteq> ''.'') (path_parts pathname))"
      "production \<longrightarrow> pg_headers (serve_page exists_file type_of_file production out_dir index_page pathname) =
        apply_security_headers True [(''content-type'', type_of_file (resolve_path out_dir clean))]"
      by (simp_all add: serve_page_def target)
    moreover have "set (filter (\<lambda>s. s \<noteq> ''.'') (path_parts pathname)) \<subseteq> set (path_parts pathname)" by auto
    ultimately show ?thesis using headers by (intro conjI disjI1 exI [of _ "filter (\<lambda>s. s \<noteq> ''.'') (path_parts pathname)"]) simp_all
  qed
qed

lemma pages_below_dist_witness:
  "pg_file (serve_page (\<lambda>f. f = ''/app/dist/chunk.js'') (\<lambda>_. ''text/javascript'') True ''/app/dist'' ''/app/dist/index.html'' ''/chunk.js'') = ''/app/dist/chunk.js'' \<and>
   map_get (pg_headers (serve_page (\<lambda>f. f = ''/app/dist/chunk.js'') (\<lambda>_. ''text/javascript'') True ''/app/dist'' ''/app/dist/index.html'' ''/chunk.js''))
     ''x-content-type-options'' = Some ''nosniff''"
proof -
  have "''..'' \<notin> set (path_parts ''/chunk.js'')" by code_simp
  note law = pages_below_dist [OF this, of "\<lambda>f. f = ''/app/dist/chunk.js''" "\<lambda>_. ''text/javascript''" True "''/app/dist''" "''/app/dist/index.html''"]
  have "pg_file (serve_page (\<lambda>f. f = ''/app/dist/chunk.js'') (\<lambda>_. ''text/javascript'') True ''/app/dist'' ''/app/dist/index.html'' ''/chunk.js'') = ''/app/dist/chunk.js''"
    by code_simp
  moreover have "(''X-Content-Type-Options'', ''nosniff'') \<in> set security_headers" by (simp add: security_headers_def)
  moreover have "to_lower ''X-Content-Type-Options'' = ''x-content-type-options''" by code_simp
  ultimately show ?thesis using law by fastforce
qed

definition demo_dist :: dist_state where
  "demo_dist = \<lparr>dd_stamp_exists = True, dd_index_exists = True, dd_stamp_time = Some 500\<rparr>"

definition demo_tree :: "dir_entry list" where
  "demo_tree = [FileEntry ''App.tsx'' (Some 400), DirEntry ''dist'' (Some [FileEntry ''a.css'' (Some 900)]), DirEntry ''ui'' (Some [FileEntry ''cls.ts'' (Some 450)])]"

lemma old_build_only_if_fresh_witness: "ensure_dev_build False False True demo_dist (Some demo_tree) = (False, False)"
proof -
  have "list_all (\<lambda>x. list_all (\<lambda>t. t \<le> 500) (ui_times x)) demo_tree" by code_simp
  then show ?thesis
    using old_build_only_if_fresh [of 500 demo_dist False False True demo_tree] by (simp add: demo_dist_def list_all_iff)
qed

end
