(* ===== verification/WebViews.thy ===== *)
theory WebViews
  imports WebAuth
begin

text \<open>
  What is left of the web client above its machines: the choice of what is drawn,
  \<open>apps/web/src/App.tsx\<close>, and the notices, \<open>apps/web/src/ui/toast.tsx\<close>. A notice is set by one call and
  its timer by an effect of the rendering that follows, so the two, and the end of the timer before
  it, come in any order.
\<close>

section \<open>What is drawn\<close>

datatype screen = BootScreen | LoginScreen | DevicesScreen jsval | NoScreen

definition app_screen :: "app_machine \<Rightarrow> screen" where
  "app_screen m = (case ap_view m of
     Booting \<Rightarrow> BootScreen
   | SignIn \<Rightarrow> LoginScreen
   | Inventory \<Rightarrow> if truthy (ap_cloud m) then DevicesScreen (ap_cloud m) else NoScreen)"

text \<open>There is always something to see, and the login form is there exactly while its machine is.\<close>

theorem something_drawn:
  assumes "session_reach a f"
  shows "app_screen a \<noteq> NoScreen \<and> (app_screen a = LoginScreen \<longleftrightarrow> f \<noteq> None)"
  using session_views [OF assms] by (cases "ap_view a") (auto simp: app_screen_def)

section \<open>Notices\<close>

record toast =
  to_ok :: bool
  to_title :: string
  to_detail :: "string option"

text \<open>The notice with the number of its object, the one the effect ran for last, the notice whose timer
  runs, and the number of the next object: every call passes an object of its own.\<close>

record notices =
  no_toast :: "(nat \<times> toast) option"
  no_effect :: "(nat \<times> toast) option"
  no_timer :: "nat option"
  no_next :: nat

definition no_notices :: notices where
  "no_notices = \<lparr>no_toast = None, no_effect = None, no_timer = None, no_next = 0\<rparr>"

definition show_toast :: "toast \<Rightarrow> notices \<Rightarrow> notices" where
  "show_toast t n = n\<lparr>no_toast := Some (no_next n, t), no_next := Suc (no_next n)\<rparr>"

text \<open>The effect: it runs when the notice is another, clears the timer and starts one for a notice.\<close>

definition run_effect :: "notices \<Rightarrow> notices" where
  "run_effect n = (if no_toast n = no_effect n then n
     else n\<lparr>no_effect := no_toast n, no_timer := map_option fst (no_toast n)\<rparr>)"

definition timer_ends :: "notices \<Rightarrow> notices" where
  "timer_ends n = (if no_timer n = None then n else n\<lparr>no_toast := None, no_timer := None\<rparr>)"

inductive notices_step :: "notices \<Rightarrow> notices \<Rightarrow> bool" where
  shown: "notices_step n (show_toast t n)"
| rendered: "notices_step n (run_effect n)"
| ended: "notices_step n (timer_ends n)"

inductive notices_reach :: "notices \<Rightarrow> bool" where
  none: "notices_reach no_notices"
| step: "notices_reach n \<Longrightarrow> notices_step n m \<Longrightarrow> notices_reach m"

definition notices_ok :: "notices \<Rightarrow> bool" where
  "notices_ok n \<longleftrightarrow>
     (no_toast n = no_effect n \<longrightarrow> no_timer n = map_option fst (no_toast n)) \<and>
     (\<forall>i. no_timer n = Some i \<longrightarrow> (\<exists>t. no_effect n = Some (i, t)) \<and> no_toast n \<noteq> None) \<and>
     (\<forall>i t. no_toast n = Some (i, t) \<longrightarrow> i < no_next n) \<and> (\<forall>i t. no_effect n = Some (i, t) \<longrightarrow> i < no_next n)"

lemma notices_kept: "notices_step n m \<Longrightarrow> notices_ok n \<Longrightarrow> notices_ok m"
proof (induction rule: notices_step.induct)
  case (shown n t)
  then have "no_effect n \<noteq> Some (no_next n, t)" by (auto simp: notices_ok_def)
  with shown show ?case by (auto simp: notices_ok_def show_toast_def less_Suc_eq)
next
  case (rendered n)
  show ?case
  proof (cases "no_toast n = no_effect n")
    case True
    with rendered show ?thesis by (simp add: run_effect_def)
  next
    case False
    have "\<forall>i t. no_toast n = Some (i, t) \<longrightarrow> i < no_next n" using rendered by (simp add: notices_ok_def)
    then show ?thesis using False by (cases "no_toast n") (auto simp: notices_ok_def run_effect_def prod_eq_iff)
  qed
next
  case (ended n)
  then show ?case by (auto simp: notices_ok_def timer_ends_def)
qed

text \<open>Once the effect has run, a timer is under way exactly when there is a notice, and it is the notice's own;
  and a timer never runs without a notice.\<close>

theorem notice_has_its_timer:
  assumes "notices_reach n"
  shows "no_timer (run_effect n) = map_option fst (no_toast n) \<and> no_toast (run_effect n) = no_toast n \<and>
    (no_toast n = None \<longrightarrow> no_timer n = None)"
proof -
  from assms have "notices_ok n"
    by (induction rule: notices_reach.induct) (auto simp: notices_kept, simp add: notices_ok_def no_notices_def)
  then show ?thesis by (cases "no_effect n") (auto simp: notices_ok_def run_effect_def)
qed

lemma notice_has_its_timer_witness:
  "no_timer (run_effect (show_toast \<lparr>to_ok = True, to_title = ''a'', to_detail = None\<rparr> no_notices)) = Some 0"
  using notice_has_its_timer [OF notices_reach.step [OF none shown [of _ "\<lparr>to_ok = True, to_title = ''a'', to_detail = None\<rparr>"]]]
  by (simp add: show_toast_def no_notices_def)

text \<open>A notice shown when the timer of the one before is about to end goes with it, unseen.\<close>

lemma notice_lost:
  assumes "notices_reach n" "no_timer n \<noteq> None"
  shows "no_toast (run_effect (timer_ends (show_toast t n))) = None"
  using assms by (auto simp: show_toast_def timer_ends_def run_effect_def)

end
