(* ===== verification/Paths.thy ===== *)
theory Paths
  imports DevServer
begin

text \<open>
  The paths the scripts of the repository work with: \<open>join\<close> and \<open>resolve\<close> of absolute paths by their
  parts, and what it means that one path is below another. A part is clean when resolving keeps it.
\<close>

text \<open>\<open>join\<close> of an absolute directory and more names.\<close>

definition join_names :: "string \<Rightarrow> string list \<Rightarrow> string" where
  "join_names dir ns = path_of_parts (fold resolve_part (path_parts dir @ concat (map path_parts ns)) [])"

text \<open>The part of a path that stays when it is resolved.\<close>

definition clean_part :: "string \<Rightarrow> bool" where
  "clean_part s \<longleftrightarrow> s \<noteq> [] \<and> s \<noteq> ''.'' \<and> s \<noteq> ''..'' \<and> CHR ''/'' \<notin> set s"

lemma clean_single: "clean_part p \<Longrightarrow> path_parts p = [p]"
  by (simp add: clean_part_def path_parts_def split_on_none)

lemma join_snoc: "join_with sep (ps @ [a]) = (if ps = [] then a else join_with sep ps @ sep @ a)"
  by (induction sep ps rule: join_with.induct) auto

lemma join_names_eq: "clean_part a \<Longrightarrow> clean_part b \<Longrightarrow> join_names dir [a] = join_names dir [b] \<longleftrightarrow> a = b"
  by (auto simp: join_names_def clean_single) (auto simp: clean_part_def path_of_parts_def resolve_part_def join_snoc split: if_splits)

section \<open>Clean parts\<close>

lemma split_on_mid: "split_on c (xs @ c # ys) = split_on c xs @ split_on c ys"
proof (induction xs)
  case (Cons x xs)
  have "split_on c xs \<noteq> []" by (cases xs) (auto split: list.split)
  with Cons show ?case by (auto split: list.splits)
qed simp

lemma path_parts_mid: "path_parts (xs @ CHR ''/'' # ys) = path_parts xs @ path_parts ys"
  by (simp add: path_parts_def split_on_mid)

lemma path_parts_slash [simp]: "path_parts (CHR ''/'' # s) = path_parts s"
  using path_parts_mid [of "[]" s] by (simp add: path_parts_def)

lemma join_with_Cons: "ws \<noteq> [] \<Longrightarrow> join_with sep (w # ws) = w @ sep @ join_with sep ws"
  by (cases ws) simp_all

lemma path_parts_join: "list_all clean_part ps \<Longrightarrow> path_parts (join_with ''/'' ps) = ps"
proof (induction ps)
  case (Cons p ps)
  then show ?case by (cases "ps = []") (simp_all add: join_with_Cons path_parts_mid clean_single)
qed (simp add: path_parts_def)

lemma join_with_last: "list_all clean_part ps \<Longrightarrow> ps \<noteq> [] \<Longrightarrow> join_with ''/'' ps \<noteq> [] \<and> last (join_with ''/'' ps) \<noteq> CHR ''/''"
proof (induction ps)
  case (Cons p ps)
  then have "p \<noteq> []" "last p \<noteq> CHR ''/''" by (auto simp: clean_part_def dest: last_in_set)
  with Cons show ?case by (cases "ps = []") (simp_all add: join_with_Cons)
qed simp

lemma path_parts_of [simp]: "list_all clean_part ps \<Longrightarrow> path_parts (path_of_parts ps) = ps"
  by (simp add: path_of_parts_def path_parts_join)

lemma path_of_inj: "list_all clean_part ps \<Longrightarrow> list_all clean_part qs \<Longrightarrow> path_of_parts ps = path_of_parts qs \<Longrightarrow> ps = qs"
  by (metis path_parts_of)

text \<open>What is resolved is clean.\<close>

lemma split_on_no_mark: "w \<in> set (split_on c s) \<Longrightarrow> c \<notin> set w"
  by (induction s arbitrary: w) (auto split: list.splits if_splits)

lemma path_parts_shape: "p \<in> set (path_parts s) \<Longrightarrow> p \<noteq> [] \<and> CHR ''/'' \<notin> set p"
  using split_on_no_mark by (auto simp: path_parts_def)

lemma resolve_clean:
  "list_all clean_part qs \<Longrightarrow> \<forall>p\<in>set ps. p \<noteq> [] \<and> CHR ''/'' \<notin> set p \<Longrightarrow> list_all clean_part (fold resolve_part ps qs)"
proof (induction ps arbitrary: qs)
  case (Cons p ps)
  have "list_all clean_part (butlast qs)" using Cons(2) by (metis in_set_butlastD list_all_iff)
  moreover have "clean_part p" if "p \<noteq> ''.''" "p \<noteq> ''..''" using Cons(3) that by (simp add: clean_part_def)
  ultimately have "list_all clean_part (resolve_part p qs)" using Cons(2) by (simp add: resolve_part_def)
  with Cons(1,3) show ?case by simp
qed simp

lemma fold_clean: "list_all clean_part ps \<Longrightarrow> fold resolve_part ps qs = qs @ ps"
  by (induction ps arbitrary: qs) (auto simp: resolve_part_def clean_part_def)

lemma clean_names: "list_all clean_part ns \<Longrightarrow> concat (map path_parts ns) = ns"
  by (induction ns) (simp_all add: clean_single)

lemma join_clean: "list_all clean_part ps \<Longrightarrow> list_all clean_part ns \<Longrightarrow> join_names (path_of_parts ps) ns = path_of_parts (ps @ ns)"
  by (simp add: join_names_def clean_names fold_clean)

lemma join_names_clean: "\<exists>qs. list_all clean_part qs \<and> join_names dir ns = path_of_parts qs"
proof -
  have "\<forall>p\<in>set (path_parts dir @ concat (map path_parts ns)). p \<noteq> [] \<and> CHR ''/'' \<notin> set p" using path_parts_shape by auto
  from resolve_clean [OF _ this, of "[]"] show ?thesis unfolding join_names_def by (intro exI conjI) auto
qed

lemma join_with_append: "xs \<noteq> [] \<Longrightarrow> ns \<noteq> [] \<Longrightarrow> join_with sep (xs @ ns) = join_with sep xs @ sep @ join_with sep ns"
proof (induction xs)
  case (Cons x xs)
  then show ?case by (cases "xs = []") (simp_all add: join_with_Cons)
qed simp

lemma path_of_append: "xs \<noteq> [] \<Longrightarrow> ns \<noteq> [] \<Longrightarrow> path_of_parts (xs @ ns) = path_of_parts xs @ CHR ''/'' # join_with ''/'' ns"
  by (simp add: path_of_parts_def join_with_append)

lemma starts_with_iff: "starts_with p s \<longleftrightarrow> (\<exists>r. s = p @ r)"
  by (auto simp: starts_with_def) (metis append_take_drop_id)

text \<open>\<open>resolve(root, name)\<close>, where an absolute name stands for itself.\<close>

definition resolve_from :: "string \<Rightarrow> string \<Rightarrow> string" where
  "resolve_from root_dir name = (if starts_with ''/'' name then join_names name [] else join_names root_dir (path_parts name))"

lemma resolve_from_clean: "\<exists>qs. list_all clean_part qs \<and> resolve_from dir name = path_of_parts qs"
  using join_names_clean by (simp add: resolve_from_def)

section \<open>Below a directory\<close>

text \<open>The directory with a slash, which the root has already.\<close>

definition with_slash :: "string \<Rightarrow> string" where
  "with_slash dir = (if dir \<noteq> [] \<and> last dir = CHR ''/'' then dir else dir @ ''/'')"

lemma path_text [simp]: "starts_with ''/'' (path_of_parts ps)" "path_of_parts ps \<noteq> []"
  by (simp_all add: path_of_parts_def starts_with_def)

lemma with_slash_of: "list_all clean_part rs \<Longrightarrow> with_slash (path_of_parts rs) = (if rs = [] then ''/'' else path_of_parts rs @ ''/'')"
  using join_with_last [of rs] by (auto simp: with_slash_def path_of_parts_def)

text \<open>What is printed below a directory is below it.\<close>

lemma below_parts:
  assumes "list_all clean_part rs" "list_all clean_part qs" "starts_with (with_slash (path_of_parts rs)) (path_of_parts qs)" "qs \<noteq> []"
  shows "\<exists>ps. ps \<noteq> [] \<and> list_all clean_part ps \<and> qs = rs @ ps"
proof (cases "rs = []")
  case False
  then obtain s where s: "path_of_parts qs = path_of_parts rs @ CHR ''/'' # s"
    using assms(1,3) by (auto simp: with_slash_of starts_with_iff)
  then have "path_parts (path_of_parts qs) = path_parts (path_of_parts rs @ CHR ''/'' # s)" by simp
  then have eq: "qs = rs @ path_parts s" using assms(1,2) by (simp add: path_parts_mid)
  have "path_parts s \<noteq> []"
  proof
    assume "path_parts s = []"
    then show False using s eq by simp
  qed
  then show ?thesis using assms(2) eq by auto
qed (use assms in auto)

end
