(* ===== verification/QaInit.thy ===== *)
theory QaInit
  imports Config Paths
begin

text \<open>
  The script that puts the quality configuration into a package, \<open>packages/qa/scripts/qa-init.ts\<close>: its
  arguments, the reader of JSON with comments, what it finds out about the package, and the five files
  it writes. A run is a function on the files of the repository; an error leaves what was written
  before. Files are their texts by absolute path; the names of the configuration files are not those
  of directories.
\<close>

section \<open>Arguments\<close>

datatype kind = Web | Command | Library

record init_options =
  io_dir :: "string option"
  io_kind :: "kind option"
  io_tailwind :: "bool option"
  io_force :: bool

text \<open>How a script ends early: help was printed and the exit code is 0, an error with a message, or one
  whose wording is the engine's.\<close>

datatype init_error = HelpShown | Failure string | Fault

definition start_options :: init_options where
  "start_options = \<lparr>io_dir = None, io_kind = None, io_tailwind = None, io_force = False\<rparr>"

text \<open>\<open>auto\<close> is \<open>None\<close>.\<close>

definition kind_of_arg :: "string option \<Rightarrow> kind option option" where
  "kind_of_arg a = (if a = Some ''web'' then Some (Some Web) else if a = Some ''cli'' then Some (Some Command)
     else if a = Some ''lib'' then Some (Some Library) else if a = Some ''auto'' then Some None else None)"

definition falsy_arg :: "string option \<Rightarrow> bool" where
  "falsy_arg a \<longleftrightarrow> or_else a [] = []"

definition is_bare_dir_arg :: "string \<Rightarrow> init_options \<Rightarrow> bool" where
  "is_bare_dir_arg arg opts \<longleftrightarrow> \<not> starts_with ''--'' arg \<and> falsy_arg (io_dir opts)"

text \<open>The handler table is an object literal, so the names of \<open>Object.prototype\<close> are found in it:
  \<open>constructor\<close> and \<open>toString\<close> return what no index is less than, so the loop ends; the others throw.\<close>

datatype arg_handler = DirFlag | KindFlag | TailwindFlag | ForceFlag | HelpFlag | EndsLoop | Throws

definition arg_handler_of :: "string \<Rightarrow> arg_handler option" where
  "arg_handler_of arg =
     (if arg = ''--dir'' then Some DirFlag else if arg = ''--force'' then Some ForceFlag
      else if arg = ''--help'' \<or> arg = ''-h'' then Some HelpFlag
      else if arg = ''--kind'' then Some KindFlag else if arg = ''--tailwind'' then Some TailwindFlag
      else if arg \<in> set [''constructor'', ''toString''] then Some EndsLoop
      else if arg \<in> set [''__proto__'', ''hasOwnProperty'', ''isPrototypeOf'', ''propertyIsEnumerable'', ''toLocaleString'',
          ''valueOf'', ''__defineGetter__'', ''__defineSetter__'', ''__lookupGetter__'', ''__lookupSetter__''] then Some Throws
      else None)"

text \<open>An argument with those after it: the options, and the arguments left.\<close>

definition consume_arg :: "string \<Rightarrow> string list \<Rightarrow> init_options \<Rightarrow> init_error + init_options \<times> string list" where
  "consume_arg arg rest opts =
     (if arg = [] then Inr (opts, rest)
      else if is_bare_dir_arg arg opts then Inr (opts\<lparr>io_dir := Some arg\<rparr>, rest)
      else case arg_handler_of arg of
        None \<Rightarrow> Inr (opts, rest)
      | Some DirFlag \<Rightarrow> Inr (opts\<lparr>io_dir := (case rest of [] \<Rightarrow> None | d # _ \<Rightarrow> Some d)\<rparr>, tl rest)
      | Some KindFlag \<Rightarrow> (let a = (case rest of [] \<Rightarrow> None | k # _ \<Rightarrow> Some k) in
          case kind_of_arg a of
            Some k \<Rightarrow> Inr (opts\<lparr>io_kind := k\<rparr>, tl rest)
          | None \<Rightarrow> Inl (Failure (''Invalid --kind: '' @ or_else a ''(missing)'')))
      | Some TailwindFlag \<Rightarrow> Inr (opts\<lparr>io_tailwind := Some True\<rparr>, rest)
      | Some ForceFlag \<Rightarrow> Inr (opts\<lparr>io_force := True\<rparr>, rest)
      | Some HelpFlag \<Rightarrow> Inl HelpShown
      | Some EndsLoop \<Rightarrow> Inr (opts, [])
      | Some Throws \<Rightarrow> Inl Fault)"

lemma consume_shorter: "consume_arg arg rest opts = Inr (opts', rest') \<Longrightarrow> length rest' \<le> length rest"
  by (auto simp: consume_arg_def Let_def split: if_splits option.splits arg_handler.splits)

function parse_args_list :: "string list \<Rightarrow> init_options \<Rightarrow> init_error + init_options" where
  "parse_args_list args opts = (case args of
     [] \<Rightarrow> Inr opts
   | arg # rest \<Rightarrow> (case consume_arg arg rest opts of
       Inl e \<Rightarrow> Inl e
     | Inr (opts', rest') \<Rightarrow> parse_args_list rest' opts'))"
  by pat_completeness auto
termination
  by (relation "measure (\<lambda>(args, _). length args)") (auto dest: consume_shorter simp: le_imp_less_Suc)

declare parse_args_list.simps [simp del]

section \<open>JSON with comments\<close>

text \<open>\<open>stripJsonComments\<close>: the argument is the mark that closes the string the text is in, if it is in one.\<close>

fun after_block :: "string \<Rightarrow> string" where
  "after_block (c # d # s) = (if c = CHR ''*'' \<and> d = CHR ''/'' then s else after_block (d # s))"
| "after_block _ = []"

lemma after_block_shorter: "length (after_block s) \<le> length s"
  by (induction s rule: after_block.induct) auto

definition after_line :: "string \<Rightarrow> string" where
  "after_line = dropWhile (\<lambda>c. c \<noteq> CHR 0x0A)"

function strip_from :: "char option \<Rightarrow> string \<Rightarrow> string" where
  "strip_from mode [] = []"
| "strip_from (Some q) (c # s) =
     (if c = CHR 0x5C \<and> s \<noteq> [] then c # hd s # strip_from (Some q) (tl s)
      else c # strip_from (if c = q then None else Some q) s)"
| "strip_from None (c # s) =
     (if c = CHR 0x22 \<or> c = CHR 0x27 then c # strip_from (Some c) s
      else if c = CHR ''/'' \<and> starts_with ''/'' s then strip_from None (after_line (tl s))
      else if c = CHR ''/'' \<and> starts_with ''*'' s then strip_from None (after_block (tl s))
      else c # strip_from None s)"
  by pat_completeness auto
termination
proof (relation "measure (\<lambda>(_, s). length s)", goal_cases)
  case (5 c s)
  then show ?case by (cases s) (auto simp: after_line_def starts_with_def le_imp_less_Suc le_SucI length_dropWhile_le)
next
  case (6 c s)
  then show ?case using after_block_shorter [of "tl s"] by (cases s) (auto simp: starts_with_def)
qed (auto simp: neq_Nil_conv)

definition strip_json_comments :: "string \<Rightarrow> string" where
  "strip_json_comments = strip_from None"

section \<open>Files\<close>

record tree =
  t_texts :: "(string, string) jsmap"
  t_dirs :: "string list"

definition t_files :: "tree \<Rightarrow> string \<Rightarrow> string option" where
  "t_files t p = map_get (t_texts t) p"

definition exists_file :: "string \<Rightarrow> tree \<Rightarrow> bool" where
  "exists_file p t \<longleftrightarrow> t_files t p \<noteq> None"

definition write_file :: "string \<Rightarrow> string \<Rightarrow> tree \<Rightarrow> tree" where
  "write_file p text t = t\<lparr>t_texts := map_set p text (t_texts t)\<rparr>"

definition read_json :: "string \<Rightarrow> tree \<Rightarrow> init_error + jsval" where
  "read_json p t = (case t_files t p of
     None \<Rightarrow> Inl Fault
   | Some contents \<Rightarrow> (case json_parse (strip_json_comments contents) of None \<Rightarrow> Inl Fault | Some v \<Rightarrow> Inr v))"

definition json_text :: "jsval \<Rightarrow> string" where
  "json_text v = json_stringify 2 v @ [CHR 0x0A]"

definition write_json :: "string \<Rightarrow> jsval \<Rightarrow> tree \<Rightarrow> tree" where
  "write_json p v = write_file p (json_text v)"

definition write_if_missing :: "string \<Rightarrow> string \<Rightarrow> bool \<Rightarrow> tree \<Rightarrow> tree" where
  "write_if_missing p contents force t = (if exists_file p t \<and> \<not> force then t else write_file p contents t)"

text \<open>A directory with those above it.\<close>

definition dirs_upto :: "string list \<Rightarrow> string list" where
  "dirs_upto ps = map (\<lambda>n. path_of_parts (take n ps)) [0..<Suc (length ps)]"

definition ensure_dir :: "string \<Rightarrow> tree \<Rightarrow> tree" where
  "ensure_dir dir t = t\<lparr>t_dirs := t_dirs t @
     filter (\<lambda>d. d \<notin> set (t_dirs t)) (dirs_upto (fold resolve_part (path_parts dir) []))\<rparr>"

definition exists_path :: "string \<Rightarrow> tree \<Rightarrow> bool" where
  "exists_path p t \<longleftrightarrow> join_names p [] \<in> set (t_dirs t) \<or> exists_file (join_names p []) t"

definition ensure_dir_exists :: "string \<Rightarrow> tree \<Rightarrow> tree" where
  "ensure_dir_exists dir t = (if exists_path dir t then t else ensure_dir dir t)"

text \<open>\<open>v.k = x\<close> in strict mode, for a value that is written as JSON afterwards: a member of an array by
  a name is not written, and a primitive has no members to assign.\<close>

fun assign :: "string \<Rightarrow> jsval \<Rightarrow> jsval \<Rightarrow> init_error + jsval" where
  "assign k x (JObj kvs) = Inr (JObj (map_set k x kvs))"
| "assign k x (JArr vs) = Inr (JArr vs)"
| "assign k x _ = Inl Fault"

definition assign_all :: "(string \<times> jsval) list \<Rightarrow> jsval \<Rightarrow> init_error + jsval" where
  "assign_all kvs v = foldl (\<lambda>r (k, x). case r of Inl e \<Rightarrow> Inl e | Inr w \<Rightarrow> assign k x w) (Inr v) kvs"

section \<open>What the package is\<close>

definition deps_of :: "jsval \<Rightarrow> string \<Rightarrow> jsval" where
  "deps_of pkg k = nn (field pkg k) (JObj [])"

definition detect_kind :: "jsval \<Rightarrow> kind" where
  "detect_kind pkg = (let has = (\<lambda>k. has_key (deps_of pkg ''dependencies'') k \<or> has_key (deps_of pkg ''devDependencies'') k) in
     if has ''react'' \<or> has ''react-dom'' \<or> has ''next'' \<or> has ''vite'' then Web
     else if is_string (field pkg ''bin'') \<or> is_object (field pkg ''bin'') \<or> field pkg ''bin'' = JNull then Command
     else (case field pkg ''name'' of JStr n \<Rightarrow> if str_includes ''cli'' (to_lower n) then Command else Library | _ \<Rightarrow> Library))"

definition depends_on :: "jsval \<Rightarrow> string \<Rightarrow> bool" where
  "depends_on pkg k \<longleftrightarrow> truthy (field (deps_of pkg ''dependencies'') k) \<or> truthy (field (deps_of pkg ''devDependencies'') k)"

definition detect_tailwind :: "jsval \<Rightarrow> bool" where
  "detect_tailwind pkg = depends_on pkg ''tailwindcss''"

definition detect_react :: "jsval \<Rightarrow> bool" where
  "detect_react pkg = depends_on pkg ''react''"

definition resolve_kind :: "kind option \<Rightarrow> jsval \<Rightarrow> kind" where
  "resolve_kind kind pkg = or_else kind (detect_kind pkg)"

definition resolve_tailwind :: "bool option \<Rightarrow> jsval \<Rightarrow> kind \<Rightarrow> bool" where
  "resolve_tailwind tailwind pkg kind = or_else tailwind (detect_tailwind pkg \<or> kind = Web)"

section \<open>The five files\<close>

definition qa_scripts :: "kind \<Rightarrow> (string \<times> jsval) list" where
  "qa_scripts kind =
     [(''lint'', JStr ''oxlint --config oxlint.json --fix .''),
      (''format'', JStr ''prettier --config prettier.config.cjs --write .''),
      (''typecheck'', JStr ''tsc -p tsconfig.json --noEmit'')]
     @ (if kind = Web then [] else [(''build'', JStr ''bunup'')])"

definition qa_dev_dependencies :: "kind \<Rightarrow> (string \<times> jsval) list" where
  "qa_dev_dependencies kind =
     (''@merossity/qa'', JStr ''workspace:*'') # (if kind = Web then [] else [(''bunup'', JStr ''latest'')])"

text \<open>The package as it is written; it is also what the later steps look at.\<close>

definition with_qa :: "kind \<Rightarrow> jsval \<Rightarrow> init_error + jsval" where
  "with_qa kind pkg =
     (case assign_all (qa_scripts kind) (deps_of pkg ''scripts'') of Inl e \<Rightarrow> Inl e
      | Inr scripts \<Rightarrow> (case assign_all (qa_dev_dependencies kind) (deps_of pkg ''devDependencies'') of Inl e \<Rightarrow> Inl e
      | Inr dev \<Rightarrow> assign_all [(''scripts'', scripts), (''devDependencies'', dev)] pkg))"

definition prettier_text :: "bool \<Rightarrow> string" where
  "prettier_text tailwind = ''module.exports = require('' @ [CHR 0x27]
     @ (if tailwind then ''@merossity/qa/prettier-tailwind'' else ''@merossity/qa/prettier'') @ [CHR 0x27] @ '')'' @ [CHR 0x0A]"

definition dq :: "string \<Rightarrow> string" where
  "dq s = CHR 0x22 # s @ [CHR 0x22]"

definition text_lines :: "string list \<Rightarrow> string" where
  "text_lines ls = concat (map (\<lambda>l. l @ [CHR 0x0A]) ls)"

definition oxlint_schema :: string where
  "oxlint_schema = ''../../node_modules/oxlint/configuration_schema.json''"

definition oxlint_preset :: string where
  "oxlint_preset = ''@merossity/qa/oxlint''"

definition oxlint_text :: string where
  "oxlint_text = text_lines [[CHR 0x7B], ''  '' @ dq (CHR 0x24 # ''schema'') @ '': '' @ dq oxlint_schema @ '','',
     ''  '' @ dq ''extends'' @ '': '' @ [CHR 0x5B] @ dq oxlint_preset @ [CHR 0x5D], [CHR 0x7D]]"

fun coerce_extends_field :: "jsval \<Rightarrow> jsval list" where
  "coerce_extends_field (JArr vs) = vs"
| "coerce_extends_field (JStr s) = [JStr s]"
| "coerce_extends_field _ = []"

definition updated_oxlint :: "jsval \<Rightarrow> init_error + jsval" where
  "updated_oxlint config = (if nullish config then Inl Fault
     else let ext = coerce_extends_field (field config ''extends'') in
       assign_all [(CHR 0x24 # ''schema'', JStr oxlint_schema),
         (''extends'', JArr (if JStr oxlint_preset \<in> set ext then ext else ext @ [JStr oxlint_preset]))] config)"

definition resolve_tsconfig_preset :: "kind \<Rightarrow> jsval \<Rightarrow> string" where
  "resolve_tsconfig_preset kind pkg = (case kind of
     Web \<Rightarrow> ''@merossity/qa/tsconfig/web''
   | Command \<Rightarrow> ''@merossity/qa/tsconfig/node''
   | Library \<Rightarrow> if detect_react pkg then ''@merossity/qa/tsconfig/react-lib'' else ''@merossity/qa/tsconfig/node'')"

definition updated_tsconfig :: "bool \<Rightarrow> string \<Rightarrow> jsval \<Rightarrow> init_error + jsval" where
  "updated_tsconfig force preset existing =
     (if nullish existing \<and> \<not> force then Inl Fault
      else if force \<or> \<not> truthy (field existing ''extends'') then assign ''extends'' (JStr preset) existing
      else Inr existing)"

definition bunup_text :: "bool \<Rightarrow> string" where
  "bunup_text is_lib = text_lines
     ([''import '' @ [CHR 0x7B] @ '' defineConfig '' @ [CHR 0x7D] @ '' from '' @ dq ''bunup'' @ '';'', [],
       ''export default defineConfig('' @ [CHR 0x7B],
       ''  entry: '' @ [CHR 0x5B] @ dq ''src/index.ts'' @ [CHR 0x5D] @ '','',
       ''  outDir: '' @ dq ''dist'' @ '','',
       ''  format: '' @ [CHR 0x5B] @ (if is_lib then dq ''esm'' @ '', '' @ dq ''cjs'' else dq ''esm'') @ [CHR 0x5D] @ '','',
       ''  target: '' @ dq ''node'' @ '','']
      @ (if is_lib then [''  sourcemap: true,'', ''  dts: true''] else [''  sourcemap: true''])
      @ [[CHR 0x7D] @ '');''])"

text \<open>A step of the script on the files.\<close>

definition step_json :: "string \<Rightarrow> (jsval \<Rightarrow> init_error + jsval) \<Rightarrow> tree \<Rightarrow> init_error option \<times> tree" where
  "step_json p f t = (case read_json p t of Inl e \<Rightarrow> (Some e, t)
     | Inr v \<Rightarrow> (case f v of Inl e \<Rightarrow> (Some e, t) | Inr w \<Rightarrow> (None, write_json p w t)))"

definition ensure_package_json :: "string \<Rightarrow> jsval \<Rightarrow> kind \<Rightarrow> tree \<Rightarrow> (init_error + jsval) \<times> tree" where
  "ensure_package_json dir pkg kind t = (case with_qa kind pkg of
     Inl e \<Rightarrow> (Inl e, t)
   | Inr new \<Rightarrow> (Inr new, write_json (join_names dir [''package.json'']) new t))"

definition ensure_prettier_config :: "string \<Rightarrow> bool \<Rightarrow> bool \<Rightarrow> tree \<Rightarrow> tree" where
  "ensure_prettier_config dir tailwind force =
     write_if_missing (join_names dir [''prettier.config.cjs'']) (prettier_text tailwind) force"

definition ensure_oxlint_config :: "string \<Rightarrow> bool \<Rightarrow> tree \<Rightarrow> init_error option \<times> tree" where
  "ensure_oxlint_config dir force t = (let p = join_names dir [''oxlint.json''] in
     if \<not> exists_file p t \<or> force then (None, write_file p oxlint_text t) else step_json p updated_oxlint t)"

definition ensure_tsconfig :: "string \<Rightarrow> kind \<Rightarrow> jsval \<Rightarrow> bool \<Rightarrow> tree \<Rightarrow> init_error option \<times> tree" where
  "ensure_tsconfig dir kind pkg force t = (let p = join_names dir [''tsconfig.json'']; preset = resolve_tsconfig_preset kind pkg in
     if \<not> exists_file p t then (None, write_json p (JObj [(''extends'', JStr preset)]) t)
     else step_json p (updated_tsconfig force preset) t)"

definition ensure_bunup_config :: "string \<Rightarrow> kind \<Rightarrow> bool \<Rightarrow> tree \<Rightarrow> tree" where
  "ensure_bunup_config dir kind force t = (if kind = Web then t
     else write_if_missing (join_names dir [''bunup.config.ts'']) (bunup_text (kind = Library)) force t)"

section \<open>A run\<close>

definition qa_cwd :: "string \<Rightarrow> string" where
  "qa_cwd repo = join_names repo [''packages'', ''qa'']"

text \<open>The directory meant; without one the usage is printed and the exit code is 1.\<close>

definition resolve_dir :: "string \<Rightarrow> string \<Rightarrow> init_options \<Rightarrow> init_error + string" where
  "resolve_dir repo cwd opts = (let d = or_else (io_dir opts) [] in
     if d = [] then Inl (Failure ''Missing --dir'')
     else if starts_with ''/'' d then Inr d
     else if cwd = qa_cwd repo \<or> starts_with (qa_cwd repo @ ''/'') cwd then Inr (resolve_path repo d)
     else Inr (resolve_path cwd d))"

definition get_package_json :: "string \<Rightarrow> tree \<Rightarrow> init_error + jsval" where
  "get_package_json dir t = (let p = join_names dir [''package.json''] in
     if \<not> exists_file p t then Inl (Failure (''Missing package.json at '' @ p))
     else case read_json p t of Inl e \<Rightarrow> Inl e | Inr v \<Rightarrow> if nullish v then Inl Fault else Inr v)"

text \<open>The configuration of a directory, with the options resolved.\<close>

definition apply_qa :: "string \<Rightarrow> bool \<Rightarrow> kind \<Rightarrow> bool \<Rightarrow> jsval \<Rightarrow> tree \<Rightarrow> (init_error + string) \<times> tree" where
  "apply_qa dir force kind tailwind pkg t =
     (case ensure_package_json dir pkg kind t of (Inl e, t1) \<Rightarrow> (Inl e, t1)
      | (Inr new, t1) \<Rightarrow>
     (case ensure_oxlint_config dir force (ensure_prettier_config dir tailwind force t1) of (Some e, t2) \<Rightarrow> (Inl e, t2)
      | (None, t2) \<Rightarrow>
     (case ensure_tsconfig dir kind new force t2 of (Some e, t3) \<Rightarrow> (Inl e, t3)
      | (None, t3) \<Rightarrow>
        (Inr (''QA config applied to '' @ dir @ '' (kind: '' @ (case kind of Web \<Rightarrow> ''web'' | Command \<Rightarrow> ''cli'' | Library \<Rightarrow> ''lib'')
           @ '', tailwind: '' @ (if tailwind then ''true'' else ''false'') @ '')''), ensure_bunup_config dir kind force t3))))"

definition qa_run :: "string \<Rightarrow> bool \<Rightarrow> kind option \<Rightarrow> bool option \<Rightarrow> tree \<Rightarrow> (init_error + string) \<times> tree" where
  "qa_run dir force kind tailwind t =
     (let t' = ensure_dir_exists dir t in
      case get_package_json dir t' of
        Inl e \<Rightarrow> (Inl e, t')
      | Inr pkg \<Rightarrow> (let k = resolve_kind kind pkg in apply_qa dir force k (resolve_tailwind tailwind pkg k) pkg t'))"

definition qa_main :: "string \<Rightarrow> string \<Rightarrow> string list \<Rightarrow> tree \<Rightarrow> (init_error + string) \<times> tree" where
  "qa_main repo cwd args t = (case parse_args_list args start_options of
     Inl e \<Rightarrow> (Inl e, t)
   | Inr opts \<Rightarrow> (case resolve_dir repo cwd opts of
       Inl e \<Rightarrow> (Inl e, t)
     | Inr dir \<Rightarrow> qa_run dir (io_force opts) (io_kind opts) (io_tailwind opts) t))"

section \<open>What the reader leaves unchanged\<close>

text \<open>A character that is neither quote nor slash, and a text before which nothing is stripped.\<close>

definition unmarked :: "char \<Rightarrow> bool" where
  "unmarked c \<longleftrightarrow> c \<noteq> CHR 0x22 \<and> c \<noteq> CHR 0x27 \<and> c \<noteq> CHR ''/''"

definition untouched :: "string \<Rightarrow> bool" where
  "untouched s \<longleftrightarrow> (\<forall>r. strip_from None (s @ r) = s @ strip_from None r)"

lemma untouched_append [intro]: "untouched s \<Longrightarrow> untouched t \<Longrightarrow> untouched (s @ t)"
  by (simp add: untouched_def)

lemma untouched_nil [simp]: "untouched []"
  by (simp add: untouched_def)

lemma untouched_Cons [intro]: "unmarked c \<Longrightarrow> untouched s \<Longrightarrow> untouched (c # s)"
  by (simp add: untouched_def unmarked_def)

lemma untouched_unmarked: "list_all unmarked s \<Longrightarrow> untouched s"
  by (induction s) auto

lemma untouched_join: "untouched sep \<Longrightarrow> list_all untouched ss \<Longrightarrow> untouched (join_with sep ss)"
  by (induction sep ss rule: join_with.induct) auto

lemma code_of_eq: "code_of c = code_of d \<longleftrightarrow> c = d"
  by (metis char_of_code)

lemma unmarked_codes: "unmarked c \<longleftrightarrow> code_of c \<notin> {34, 39, 47}"
proof -
  have "code_of (CHR 0x22) = 34" "code_of (CHR 0x27) = 39" "code_of (CHR ''/'') = 47" by code_simp+
  then show ?thesis by (simp add: unmarked_def flip: code_of_eq)
qed

lemma unmarked_digit: "is_digit c \<Longrightarrow> unmarked c"
  by (auto simp: unmarked_codes is_digit_def)

lemma dec_unmarked: "list_all unmarked (dec_of_nat n)"
  using dec_of_nat_digits [of n] by (auto simp: list_all_iff unmarked_digit)

lemma frac_unmarked: "0 \<le> f \<Longrightarrow> f < 1 \<Longrightarrow> list_all unmarked (frac_digits n f)"
proof (induction n f rule: frac_digits.induct)
  case (2 n f)
  have "nat \<lfloor>10 * f\<rfloor> < 10" using 2 by (simp add: nat_less_iff floor_less_iff)
  moreover have "0 \<le> 10 * f - of_int \<lfloor>10 * f\<rfloor>" "10 * f - of_int \<lfloor>10 * f\<rfloor> < 1" by linarith+
  ultimately show ?case using 2 by (simp add: unmarked_digit)
qed simp

lemma number_unmarked: "list_all unmarked (str_of_rat r)"
proof -
  have marks: "unmarked CHR ''-''" "unmarked CHR ''.''" by code_simp+
  have "0 \<le> \<bar>r\<bar> - of_int \<lfloor>\<bar>r\<bar>\<rfloor>" "\<bar>r\<bar> - of_int \<lfloor>\<bar>r\<bar>\<rfloor> < 1" by linarith+
  then show ?thesis by (auto simp: str_of_rat_def Let_def dec_of_int_def dec_unmarked marks frac_unmarked)
qed

text \<open>A quoted text: the stripper is in the string until its closing quote.\<close>

lemma strip_escape: "strip_from (Some CHR 0x22) (escape_char c @ r) = escape_char c @ strip_from (Some CHR 0x22) r"
proof -
  have hex: "hex_digit d \<noteq> CHR 0x22 \<and> hex_digit d \<noteq> CHR 0x5C" if "d < 16" for d
  proof -
    have "code_of (hex_digit d) = (if d < 10 then 48 + d else 87 + d)" using that by (simp add: hex_digit_def code_of_def digit_char_def)
    moreover have "code_of (CHR 0x22) = 34" "code_of (CHR 0x5C) = 92" by code_simp+
    ultimately show ?thesis by (simp flip: code_of_eq)
  qed
  have codes: "code_of (CHR 0x22) = 34" "code_of (CHR 0x5C) = 92" by code_simp+
  have "code_of c div 16 < 16" if "code_of c < 32" using that by simp
  then show ?thesis using hex [of "code_of c div 16"] hex [of "code_of c mod 16"] codes
    by (auto simp: escape_char_def Let_def)
qed

lemma untouched_quote: "untouched (json_quote s)"
proof -
  have "strip_from (Some CHR 0x22) (concat (map escape_char s) @ CHR 0x22 # r) = concat (map escape_char s) @ CHR 0x22 # strip_from None r" for r
    by (induction s) (simp_all add: strip_escape)
  then show ?thesis by (simp add: untouched_def json_quote_def)
qed

lemma untouched_break: "untouched (line_break w l)"
proof -
  have "unmarked CHR 0x0A" "unmarked CHR '' ''" by code_simp+
  then show ?thesis by (auto intro!: untouched_unmarked simp: line_break_def list_all_iff)
qed

lemma untouched_print: "untouched (json_print w l v)"
proof (induction v arbitrary: l)
  case (JArr vs)
  have "unmarked CHR 0x5B" "unmarked CHR 0x5D" "unmarked CHR '',''" by code_simp+
  with JArr show ?case by (auto intro!: untouched_join untouched_append untouched_Cons simp: untouched_break list_all_iff)
next
  case (JObj kvs)
  have "unmarked CHR 0x7B" "unmarked CHR 0x7D" "unmarked CHR '',''" "unmarked CHR '':''" "unmarked CHR '' ''" by code_simp+
  with JObj show ?case by (auto intro!: untouched_join untouched_append untouched_Cons untouched_quote simp: untouched_break list_all_iff)
next
  case (JNum n)
  have "list_all unmarked ''null''" by code_simp
  then show ?case by (cases n) (simp_all add: untouched_unmarked number_unmarked)
next
  case (JBool b)
  have "list_all unmarked ''true''" "list_all unmarked ''false''" by code_simp+
  then show ?case by (simp add: untouched_unmarked)
next
  case JUndef
  have "list_all unmarked ''null''" by code_simp
  then show ?case by (simp add: untouched_unmarked)
next
  case JNull
  have "list_all unmarked ''null''" by code_simp
  then show ?case by (simp add: untouched_unmarked)
qed (simp add: untouched_quote)

theorem printed_text_kept: "strip_json_comments (json_text v) = json_text v"
proof -
  have "untouched [CHR 0x0A]" by (rule untouched_unmarked) code_simp
  then have "untouched (json_text v)" by (auto simp: json_text_def json_stringify_def untouched_print)
  then have "strip_from None (json_text v @ []) = json_text v @ strip_from None []" unfolding untouched_def by blast
  then show ?thesis by (simp add: strip_json_comments_def)
qed

interpretation json_file: text_format json_text "\<lambda>s. json_parse (strip_json_comments s)" "\<lambda>v. storable v \<and> v \<noteq> JUndef" json_round
  by unfold_locales (simp add: printed_text_kept, simp add: json_text_def stringify_parse)

section \<open>Assigning what is there\<close>

lemma set_same: "map_get m k = Some x \<Longrightarrow> map_set k x m = m"
  by (induction m) (auto split: if_splits)

lemma set_map_set: "set (map_set k x m) \<subseteq> insert (k, x) (set m)"
  by (induction m) auto

definition set_all :: "(string \<times> jsval) list \<Rightarrow> (string \<times> jsval) list \<Rightarrow> (string \<times> jsval) list" where
  "set_all kvs = fold (\<lambda>(k, x). map_set k x) kvs"

lemma get_set_all: "distinct (map fst kvs) \<Longrightarrow>
    map_get (set_all kvs m) j = (case map_get kvs j of Some x \<Rightarrow> Some x | None \<Rightarrow> map_get m j)"
  by (induction kvs arbitrary: m) (auto simp: set_all_def map_of_eq_None_iff split: option.split dest: map_of_SomeD intro: rev_image_eqI)

lemma set_all_same: "(\<And>k x. (k, x) \<in> set kvs \<Longrightarrow> map_get m k = Some x) \<Longrightarrow> set_all kvs m = m"
  by (induction kvs) (auto simp: set_all_def set_same)

lemma set_all_twice: "distinct (map fst kvs) \<Longrightarrow> set_all kvs (set_all kvs m) = set_all kvs m"
  by (rule set_all_same) (simp add: get_set_all)

lemma plain_set: "plain (JObj m) \<Longrightarrow> plain x \<Longrightarrow> plain (JObj (map_set k x m))"
  using set_map_set [of k x m] by (auto simp: list_all_iff distinct_update)

lemma plain_set_all: "plain (JObj m) \<Longrightarrow> list_all (\<lambda>(k, x). plain x) kvs \<Longrightarrow> plain (JObj (set_all kvs m))"
  by (induction kvs arbitrary: m) (auto simp: set_all_def plain_set simp del: plain.simps)

lemma assign_all_Fault: "assign_all kvs v = Inl e \<Longrightarrow> e = Fault"
proof (induction kvs rule: rev_induct)
  case (snoc p kvs)
  then show ?case by (cases "assign_all kvs v"; cases p) (auto simp: assign_all_def elim: assign.elims)
qed (simp add: assign_all_def)

lemma assign_all_obj: "assign_all kvs (JObj m) = Inr (JObj (set_all kvs m))"
  by (induction kvs rule: rev_induct) (auto simp: assign_all_def set_all_def)

lemma assign_all_arr: "assign_all kvs (JArr vs) = Inr (JArr vs)"
  by (induction kvs rule: rev_induct) (auto simp: assign_all_def)

lemma assign_all_Inr:
  assumes "assign_all kvs v = Inr w" "kvs \<noteq> []"
  obtains m where "v = JObj m" "w = JObj (set_all kvs m)" | vs where "v = JArr vs" "w = JArr vs"
proof -
  have fault: "foldl (\<lambda>r (k, x). case r of Inl e \<Rightarrow> Inl e | Inr w \<Rightarrow> assign k x w) (Inl e) kvs = Inl e" for e kvs
    by (induction kvs) auto
  obtain k x rest where kvs: "kvs = (k, x) # rest" using assms(2) by (cases kvs) auto
  have "assign k x v \<noteq> Inl Fault" using assms(1) by (auto simp: assign_all_def kvs fault)
  then show thesis using assms(1) that by (cases v) (auto simp: assign_all_obj assign_all_arr)
qed

lemma assign_all_twice: "assign_all kvs v = Inr w \<Longrightarrow> kvs \<noteq> [] \<Longrightarrow> distinct (map fst kvs) \<Longrightarrow> assign_all kvs w = Inr w"
  by (elim assign_all_Inr) (auto simp: assign_all_obj assign_all_arr set_all_twice)

lemma assign_all_plain: "assign_all kvs v = Inr w \<Longrightarrow> kvs \<noteq> [] \<Longrightarrow> plain v \<Longrightarrow> list_all (\<lambda>(k, x). plain x) kvs \<Longrightarrow> plain w"
  by (elim assign_all_Inr) (auto simp: plain_set_all simp del: plain.simps)

section \<open>The package written\<close>

lemma deps_plain: "plain pkg \<Longrightarrow> plain (deps_of pkg k)"
  by (cases pkg) (auto simp: deps_of_def nn_def list_all_iff split: option.split dest: map_of_SomeD)

lemma qa_lists:
  "qa_scripts k \<noteq> []" "distinct (map fst (qa_scripts k))" "list_all (\<lambda>(k, x). plain x) (qa_scripts k)"
  "qa_dev_dependencies k \<noteq> []" "distinct (map fst (qa_dev_dependencies k))" "list_all (\<lambda>(k, x). plain x) (qa_dev_dependencies k)"
  by (simp_all add: qa_scripts_def qa_dev_dependencies_def)

text \<open>What \<open>with_qa\<close> does to a package that is an object, and to one that is an array.\<close>

lemma with_qa_Inr:
  assumes "with_qa kind pkg = Inr new"
  obtains (obj) m s d where "pkg = JObj m" "assign_all (qa_scripts kind) (deps_of pkg ''scripts'') = Inr s"
      "assign_all (qa_dev_dependencies kind) (deps_of pkg ''devDependencies'') = Inr d"
      "new = JObj (map_set ''devDependencies'' d (map_set ''scripts'' s m))"
    | (arr) vs where "pkg = JArr vs" "new = JArr vs"
  using assms unfolding with_qa_def
  by (auto simp: set_all_def split: sum.splits elim!: assign_all_Inr [of "[(''scripts'', _), (''devDependencies'', _)]"])

lemma assigned_not_nullish: "assign_all kvs v = Inr w \<Longrightarrow> kvs \<noteq> [] \<Longrightarrow> \<not> nullish w"
  by (elim assign_all_Inr) auto

lemma with_qa_twice:
  assumes "with_qa kind pkg = Inr new"
  shows "with_qa kind new = Inr new"
  using assms
proof (cases rule: with_qa_Inr)
  case (obj m s d)
  have "\<not> nullish s" "\<not> nullish d" using assigned_not_nullish [OF obj(2) qa_lists(1)] assigned_not_nullish [OF obj(3) qa_lists(4)] by simp_all
  then have "deps_of new ''scripts'' = s" "deps_of new ''devDependencies'' = d" by (simp_all add: obj(4) deps_of_def nn_def)
  moreover have "assign_all (qa_scripts kind) s = Inr s" "assign_all (qa_dev_dependencies kind) d = Inr d"
    using assign_all_twice [OF obj(2) qa_lists(1,2)] assign_all_twice [OF obj(3) qa_lists(4,5)] by simp_all
  moreover have "assign_all [(''scripts'', s), (''devDependencies'', d)] new = Inr new"
    by (simp add: obj(4) assign_all_obj set_all_def set_same)
  ultimately show ?thesis by (simp add: with_qa_def)
next
  case (arr vs)
  then show ?thesis using assms by simp
qed

lemma with_qa_plain:
  assumes "with_qa kind pkg = Inr new" "plain pkg"
  shows "plain new"
  using assms(1)
proof (cases rule: with_qa_Inr)
  case (obj m s d)
  have "plain s" "plain d" 
    using assign_all_plain [OF obj(2) qa_lists(1) deps_plain [OF assms(2)] qa_lists(3)]
      assign_all_plain [OF obj(3) qa_lists(4) deps_plain [OF assms(2)] qa_lists(6)] by simp_all
  then show ?thesis using assms(2) by (simp add: obj(1,4) plain_set del: plain.simps)
qed (use assms(2) in simp)

lemma assigned_other:
  assumes "assign_all kvs v = Inr w" "kvs \<noteq> []" "distinct (map fst kvs)" "k \<notin> fst ` set kvs"
  shows "field w k = field v k" "has_key w k = has_key v k"
proof -
  have none: "map_get kvs k = None" using assms(4) by (simp add: map_of_eq_None_iff)
  show "field w k = field v k" using assms(1,2) by (elim assign_all_Inr) (simp_all add: get_set_all [OF assms(3)] none)
  have "fst ` set (set_all kvs m) = fst ` set kvs \<union> fst ` set m" for m
  proof (induction kvs arbitrary: m)
    case (Cons p kvs)
    show ?case using Cons [of "map_set (fst p) (snd p) m"] set_map_keys_set [of "fst p" "snd p" m]
      by (simp add: set_all_def case_prod_beta)
  qed (simp add: set_all_def)
  then show "has_key w k = has_key v k" using assms by (elim assign_all_Inr) auto
qed

text \<open>Every field but the two is kept, and what the script finds out about the package stays the same.\<close>

lemma with_qa_other: "with_qa kind pkg = Inr new \<Longrightarrow> k \<noteq> ''scripts'' \<Longrightarrow> k \<noteq> ''devDependencies'' \<Longrightarrow> field new k = field pkg k"
  by (elim with_qa_Inr) simp_all

lemma with_qa_dev:
  assumes "with_qa kind pkg = Inr new" "k \<notin> fst ` set (qa_dev_dependencies kind)"
  shows "field (deps_of new ''devDependencies'') k = field (deps_of pkg ''devDependencies'') k"
    "has_key (deps_of new ''devDependencies'') k = has_key (deps_of pkg ''devDependencies'') k"
proof -
  have "field (deps_of new ''devDependencies'') k = field (deps_of pkg ''devDependencies'') k \<and>
    has_key (deps_of new ''devDependencies'') k = has_key (deps_of pkg ''devDependencies'') k"
    using assms(1)
  proof (cases rule: with_qa_Inr)
    case (obj m s d)
    have "\<not> nullish d" using assigned_not_nullish [OF obj(3) qa_lists(4)] by simp
    then have "deps_of new ''devDependencies'' = d" by (simp add: obj deps_of_def nn_def)
    then show ?thesis using assigned_other [OF obj(3) qa_lists(4,5) assms(2)] by simp
  qed simp
  then show "field (deps_of new ''devDependencies'') k = field (deps_of pkg ''devDependencies'') k"
    "has_key (deps_of new ''devDependencies'') k = has_key (deps_of pkg ''devDependencies'') k" by simp_all
qed

lemma with_qa_detects:
  assumes "with_qa kind pkg = Inr new"
  shows "detect_kind new = detect_kind pkg" "detect_tailwind new = detect_tailwind pkg" "detect_react new = detect_react pkg"
proof -
  have other: "k \<in> set [''react'', ''react-dom'', ''next'', ''vite'', ''tailwindcss''] \<Longrightarrow> k \<notin> fst ` set (qa_dev_dependencies kind)" for k
    by (auto simp: qa_dev_dependencies_def)
  have deps: "deps_of new ''dependencies'' = deps_of pkg ''dependencies''" by (simp add: deps_of_def with_qa_other [OF assms])
  show "detect_kind new = detect_kind pkg"
    by (simp add: detect_kind_def deps with_qa_dev(2) [OF assms other] with_qa_other [OF assms])
  show "detect_tailwind new = detect_tailwind pkg" "detect_react new = detect_react pkg"
    by (simp_all add: detect_tailwind_def detect_react_def depends_on_def deps with_qa_dev(1) [OF assms other])
qed

section \<open>The other files\<close>

lemma updated_oxlint_twice: "updated_oxlint v = Inr w \<Longrightarrow> updated_oxlint w = Inr w"
proof -
  assume upd: "updated_oxlint v = Inr w"
  define ext where "ext = coerce_extends_field (field v ''extends'')"
  define new where "new = (if JStr oxlint_preset \<in> set ext then ext else ext @ [JStr oxlint_preset])"
  have set: "assign_all [(CHR 0x24 # ''schema'', JStr oxlint_schema), (''extends'', JArr new)] v = Inr w"
    using upd by (simp add: updated_oxlint_def new_def ext_def Let_def split: if_splits)
  from set have again: "assign_all [(CHR 0x24 # ''schema'', JStr oxlint_schema), (''extends'', JArr new)] w = Inr w"
    by (rule assign_all_twice) simp_all
  have mem: "JStr oxlint_preset \<in> set new" by (simp add: new_def)
  from set show "updated_oxlint w = Inr w"
  proof (rule assign_all_Inr)
    fix m assume "v = JObj m" "w = JObj (set_all [(CHR 0x24 # ''schema'', JStr oxlint_schema), (''extends'', JArr new)] m)"
    then have "field w ''extends'' = JArr new" "\<not> nullish w" by (simp_all add: set_all_def)
    then show ?thesis using again mem by (simp add: updated_oxlint_def Let_def)
  next
    fix vs assume "v = JArr vs" "w = JArr vs"
    then show ?thesis using upd by simp
  qed simp
qed

lemma updated_oxlint_plain: "updated_oxlint v = Inr w \<Longrightarrow> plain v \<Longrightarrow> plain w"
proof -
  assume upd: "updated_oxlint v = Inr w" and v: "plain v"
  have "plain (field v ''extends'')" if "field v ''extends'' \<noteq> JUndef"
    using v that by (cases v) (auto simp: list_all_iff split: option.splits dest: map_of_SomeD)
  then have "list_all plain (coerce_extends_field (field v ''extends''))" by (cases "field v ''extends''") auto
  with upd v show "plain w"
    by (auto simp: updated_oxlint_def Let_def split: if_splits elim!: assign_all_plain)
qed

lemma updated_tsconfig_twice: "updated_tsconfig force preset v = Inr w \<Longrightarrow> preset \<noteq> [] \<Longrightarrow> updated_tsconfig force preset w = Inr w"
  by (cases v) (auto simp: updated_tsconfig_def set_same split: if_splits)

lemma updated_tsconfig_plain: "updated_tsconfig force preset v = Inr w \<Longrightarrow> plain v \<Longrightarrow> plain w"
  by (cases v) (auto simp: updated_tsconfig_def plain_set simp del: plain.simps(2) split: if_splits)

lemma preset_nonempty: "resolve_tsconfig_preset kind pkg \<noteq> []"
  by (cases kind) (simp_all add: resolve_tsconfig_preset_def)

text \<open>The first text of \<open>oxlint.json\<close> is not the way the script prints it, but says the same.\<close>

definition oxlint_value :: jsval where
  "oxlint_value = JObj [(CHR 0x24 # ''schema'', JStr oxlint_schema), (''extends'', JArr [JStr oxlint_preset])]"

lemma oxlint_text_value:
  "json_parse (strip_json_comments oxlint_text) = Some oxlint_value" "updated_oxlint oxlint_value = Inr oxlint_value"
  "plain oxlint_value"
  by code_simp+

lemma file_read_back: "plain v \<Longrightarrow> json_parse (strip_json_comments (json_text v)) = Some v"
proof -
  assume v: "plain v"
  have round: "plain v \<Longrightarrow> json_round v = v" for v
  proof (induction v rule: json_round.induct)
    case (2 kvs)
    then have "filter (\<lambda>(k, v). v \<noteq> JUndef) kvs = kvs" by (auto simp: filter_id_conv list_all_iff)
    moreover have "json_round x = x" if "(k, x) \<in> set kvs" for k x
    proof -
      have "plain x" using 2(2) that by (auto simp: list_all_iff)
      with 2(1) [of "(k, x)" k x] that show ?thesis by (cases "x = JUndef") auto
    qed
    then have "map (\<lambda>(k, v). (k, json_round v)) kvs = kvs" by (intro map_idI) auto
    with calculation show ?case by simp
  next
    case (1 vs)
    then have "JUndef \<notin> set vs" by (auto simp: list_all_iff)
    with 1 show ?case by (auto simp: list_all_iff intro!: map_idI)
  qed (auto split: jsnum.splits)
  show ?thesis using json_print_parse(2) [OF v, of 2]
    by (simp add: printed_text_kept) (simp add: json_text_def json_stringify_def round [OF v])
qed

section \<open>Running it again\<close>

lemma write_same: "t_files t p = Some x \<Longrightarrow> write_file p x t = t"
  by (simp add: write_file_def t_files_def set_same)

lemma files_write [simp]: "t_files (write_file p x t) q = (if q = p then Some x else t_files t q)"
  by (simp add: write_file_def t_files_def)

lemma files_ensured [simp]: "t_files (ensure_dir_exists dir t) = t_files t" "t_files (ensure_dir dir t) = t_files t"
  by (simp_all add: ensure_dir_exists_def ensure_dir_def t_files_def fun_eq_iff)

lemma dirs_write [simp]: "t_dirs (write_file p x t) = t_dirs t"
  by (simp add: write_file_def)

text \<open>The names of the five files below a directory.\<close>

definition qa_names :: "string list" where
  "qa_names = [''package.json'', ''prettier.config.cjs'', ''oxlint.json'', ''tsconfig.json'', ''bunup.config.ts'']"

lemma qa_paths_eq: "a \<in> set qa_names \<Longrightarrow> b \<in> set qa_names \<Longrightarrow> join_names dir [a] = join_names dir [b] \<longleftrightarrow> a = b"
  by (rule join_names_eq) (auto simp: qa_names_def clean_part_def)

definition text_at :: "string \<Rightarrow> string \<Rightarrow> tree \<Rightarrow> string option" where
  "text_at dir n t = t_files t (join_names dir [n])"

lemma text_at_write: "n \<in> set qa_names \<Longrightarrow> n' \<in> set qa_names \<Longrightarrow>
    text_at dir n (write_file (join_names dir [n']) x t) = (if n = n' then Some x else text_at dir n t)"
  by (simp add: text_at_def qa_paths_eq)

lemma text_at_missing: "n \<in> set qa_names \<Longrightarrow> n' \<in> set qa_names \<Longrightarrow>
    text_at dir n (write_if_missing (join_names dir [n']) x force t) =
      (if n = n' \<and> (force \<or> text_at dir n t = None) then Some x else text_at dir n t)"
  by (auto simp: write_if_missing_def exists_file_def text_at_write) (simp_all add: text_at_def)

lemma text_at_step: "n \<in> set qa_names \<Longrightarrow> n' \<in> set qa_names \<Longrightarrow> n \<noteq> n' \<Longrightarrow>
    text_at dir n (snd (step_json (join_names dir [n']) f t)) = text_at dir n t"
  by (auto simp: step_json_def write_json_def text_at_write split: sum.split)

lemma exists_path_write [simp]: "exists_path p t \<Longrightarrow> exists_path p (write_file q x t)"
  by (auto simp: exists_path_def exists_file_def)

lemma exists_path_ensured: "exists_path dir (ensure_dir_exists dir t)"
  by (auto simp: ensure_dir_exists_def exists_path_def ensure_dir_def dirs_upto_def join_names_def)

lemma text_at_ensured [simp]: "text_at dir n (ensure_dir_exists dir' t) = text_at dir n t"
  by (simp add: text_at_def)

text \<open>What a run leaves: a package that has everything, and the other files in their final form.\<close>

definition oxlint_done :: "string \<Rightarrow> bool \<Rightarrow> tree \<Rightarrow> bool" where
  "oxlint_done dir force t \<longleftrightarrow> (\<exists>x v. text_at dir ''oxlint.json'' t = Some x \<and> (force \<longrightarrow> x = oxlint_text) \<and>
     json_parse (strip_json_comments x) = Some v \<and> plain v \<and> updated_oxlint v = Inr v)"

definition qa_done :: "string \<Rightarrow> bool \<Rightarrow> kind \<Rightarrow> bool \<Rightarrow> jsval \<Rightarrow> tree \<Rightarrow> bool" where
  "qa_done dir force kind tailwind pkg t \<longleftrightarrow>
     text_at dir ''package.json'' t = Some (json_text pkg) \<and> plain pkg \<and> \<not> nullish pkg \<and> with_qa kind pkg = Inr pkg \<and>
     (\<exists>x. text_at dir ''prettier.config.cjs'' t = Some x \<and> (force \<longrightarrow> x = prettier_text tailwind)) \<and>
     oxlint_done dir force t \<and>
     (\<exists>v. text_at dir ''tsconfig.json'' t = Some (json_text v) \<and> plain v \<and> updated_tsconfig force (resolve_tsconfig_preset kind pkg) v = Inr v) \<and>
     (kind \<noteq> Web \<longrightarrow> (\<exists>x. text_at dir ''bunup.config.ts'' t = Some x \<and> (force \<longrightarrow> x = bunup_text (kind = Library)))) \<and>
     exists_path dir t"

lemma read_json_at: "read_json (join_names dir [n]) t = (case text_at dir n t of
     None \<Rightarrow> Inl Fault
   | Some x \<Rightarrow> (case json_parse (strip_json_comments x) of None \<Rightarrow> Inl Fault | Some v \<Rightarrow> Inr v))"
  by (simp add: read_json_def text_at_def)

lemma exists_file_at: "exists_file (join_names dir [n]) t \<longleftrightarrow> text_at dir n t \<noteq> None"
  by (simp add: exists_file_def text_at_def)

lemma oxlint_step_done:
  assumes "ensure_oxlint_config dir force t = (None, t')" "\<forall>v. read_json (join_names dir [''oxlint.json'']) t = Inr v \<longrightarrow> plain v"
  shows "oxlint_done dir force t'" "n \<in> set qa_names \<Longrightarrow> n \<noteq> ''oxlint.json'' \<Longrightarrow> text_at dir n t' = text_at dir n t"
    "exists_path dir t \<Longrightarrow> exists_path dir t'"
proof -
  have names: "''oxlint.json'' \<in> set qa_names" by (simp add: qa_names_def)
  consider "t' = write_file (join_names dir [''oxlint.json'']) oxlint_text t"
    | v w where "\<not> force" "read_json (join_names dir [''oxlint.json'']) t = Inr v" "updated_oxlint v = Inr w" "t' = write_json (join_names dir [''oxlint.json'']) w t"
    using assms(1) by (auto simp: ensure_oxlint_config_def Let_def step_json_def split: if_splits sum.splits)
  then have "oxlint_done dir force t' \<and> (n \<in> set qa_names \<and> n \<noteq> ''oxlint.json'' \<longrightarrow> text_at dir n t' = text_at dir n t)
      \<and> (exists_path dir t \<longrightarrow> exists_path dir t')"
  proof cases
    case 1
    then show ?thesis using oxlint_text_value by (auto simp: oxlint_done_def text_at_write names)
  next
    case (2 v w)
    then have "plain w" using assms(2) updated_oxlint_plain by blast
    with 2 show ?thesis using file_read_back updated_oxlint_twice by (auto simp: oxlint_done_def write_json_def text_at_write names)
  qed
  then show "oxlint_done dir force t'" "n \<in> set qa_names \<Longrightarrow> n \<noteq> ''oxlint.json'' \<Longrightarrow> text_at dir n t' = text_at dir n t"
    "exists_path dir t \<Longrightarrow> exists_path dir t'" by auto
qed

lemma tsconfig_step_done:
  assumes "ensure_tsconfig dir kind pkg force t = (None, t')" "\<forall>v. read_json (join_names dir [''tsconfig.json'']) t = Inr v \<longrightarrow> plain v"
  shows "\<exists>v. text_at dir ''tsconfig.json'' t' = Some (json_text v) \<and> plain v \<and> updated_tsconfig force (resolve_tsconfig_preset kind pkg) v = Inr v"
    "n \<in> set qa_names \<Longrightarrow> n \<noteq> ''tsconfig.json'' \<Longrightarrow> text_at dir n t' = text_at dir n t"
    "exists_path dir t \<Longrightarrow> exists_path dir t'"
proof -
  let ?preset = "resolve_tsconfig_preset kind pkg"
  have names: "''tsconfig.json'' \<in> set qa_names" by (simp add: qa_names_def)
  obtain w where w: "t' = write_json (join_names dir [''tsconfig.json'']) w t" "plain w" "updated_tsconfig force ?preset w = Inr w"
  proof (cases "exists_file (join_names dir [''tsconfig.json'']) t")
    case False
    then show thesis using assms(1) preset_nonempty [of kind pkg]
      by (intro that [of "JObj [(''extends'', JStr ?preset)]"]) (auto simp: ensure_tsconfig_def Let_def updated_tsconfig_def)
  next
    case True
    then obtain v w where vw: "read_json (join_names dir [''tsconfig.json'']) t = Inr v" "updated_tsconfig force ?preset v = Inr w"
      "t' = write_json (join_names dir [''tsconfig.json'']) w t"
      using assms(1) by (auto simp: ensure_tsconfig_def Let_def step_json_def split: sum.splits)
    then show thesis using assms(2) updated_tsconfig_plain updated_tsconfig_twice preset_nonempty that by blast
  qed
  then show "\<exists>v. text_at dir ''tsconfig.json'' t' = Some (json_text v) \<and> plain v \<and> updated_tsconfig force ?preset v = Inr v"
    "n \<in> set qa_names \<Longrightarrow> n \<noteq> ''tsconfig.json'' \<Longrightarrow> text_at dir n t' = text_at dir n t"
    "exists_path dir t \<Longrightarrow> exists_path dir t'"
    by (auto simp: write_json_def text_at_write names)
qed

text \<open>A run ends in such a state, and a run from such a state changes the text of \<open>oxlint.json\<close> at most.\<close>

lemma apply_qa_done:
  assumes run: "apply_qa dir force kind tailwind pkg t = (Inr msg, t')" and pkg: "plain pkg" "\<not> nullish pkg" and at: "exists_path dir t"
    and plain: "\<And>n v. read_json (join_names dir [n]) t = Inr v \<Longrightarrow> plain v"
  obtains new where "with_qa kind pkg = Inr new" "qa_done dir force kind tailwind new t'"
proof -
  obtain new t1 where t1: "ensure_package_json dir pkg kind t = (Inr new, t1)" using run by (auto simp: apply_qa_def split: sum.splits prod.splits)
  then have new: "with_qa kind pkg = Inr new" "t1 = write_json (join_names dir [''package.json'']) new t"
    by (auto simp: ensure_package_json_def split: sum.splits)
  define t2 where "t2 = ensure_prettier_config dir tailwind force t1"
  obtain t3 where t3: "ensure_oxlint_config dir force t2 = (None, t3)"
    using run t1 by (auto simp: apply_qa_def t2_def split: option.splits prod.splits)
  obtain t4 where t4: "ensure_tsconfig dir kind new force t3 = (None, t4)"
    using run t1 t3 by (auto simp: apply_qa_def t2_def split: option.splits prod.splits)
  have t': "t' = ensure_bunup_config dir kind force t4" using run t1 t3 t4 by (simp add: apply_qa_def t2_def)
  have names: "n \<in> set qa_names \<longleftrightarrow> n = ''package.json'' \<or> n = ''prettier.config.cjs'' \<or> n = ''oxlint.json'' \<or> n = ''tsconfig.json'' \<or> n = ''bunup.config.ts''" for n
    by (auto simp: qa_names_def)
  have at1: "text_at dir n t1 = (if n = ''package.json'' then Some (json_text new) else text_at dir n t)" if "n \<in> set qa_names" for n
    using that by (simp add: new(2) write_json_def text_at_write names)
  have at2: "text_at dir n t2 = (if n = ''prettier.config.cjs'' \<and> (force \<or> text_at dir n t1 = None) then Some (prettier_text tailwind) else text_at dir n t1)"
    if "n \<in> set qa_names" for n
    using that by (simp add: t2_def ensure_prettier_config_def text_at_missing names)
  have ox: "read_json (join_names dir [''oxlint.json'']) t2 = read_json (join_names dir [''oxlint.json'']) t"
    by (simp add: read_json_at at1 at2 names)
  have plain_ox: "\<forall>v. read_json (join_names dir [''oxlint.json'']) t2 = Inr v \<longrightarrow> plain v" using plain unfolding ox by blast
  note at3 = oxlint_step_done [OF t3 plain_ox]
  have ts: "read_json (join_names dir [''tsconfig.json'']) t3 = read_json (join_names dir [''tsconfig.json'']) t"
    by (simp add: read_json_at at1 at2 at3 names)
  have plain_ts: "\<forall>v. read_json (join_names dir [''tsconfig.json'']) t3 = Inr v \<longrightarrow> plain v" using plain unfolding ts by blast
  note at4 = tsconfig_step_done [OF t4 plain_ts]
  have at5: "text_at dir n t' = (if n = ''bunup.config.ts'' \<and> kind \<noteq> Web \<and> (force \<or> text_at dir n t4 = None) then Some (bunup_text (kind = Library)) else text_at dir n t4)"
    if "n \<in> set qa_names" for n
  proof -
    have "''bunup.config.ts'' \<in> set qa_names" by (simp add: qa_names_def)
    with that show ?thesis by (auto simp: t' ensure_bunup_config_def text_at_missing)
  qed
  have "exists_path dir t1" "exists_path dir t2" using at by (simp_all add: new(2) t2_def write_json_def ensure_prettier_config_def write_if_missing_def)
  then have path: "exists_path dir t'" using at3(3) at4(3) by (simp add: t' ensure_bunup_config_def write_if_missing_def)
  have "\<not> nullish new" using new(1) pkg(2) by (elim with_qa_Inr) simp_all
  moreover have "oxlint_done dir force t'" using at3(1) by (simp add: oxlint_done_def at5 at4(2) names)
  ultimately have "qa_done dir force kind tailwind new t'"
    using path at4(1) with_qa_plain [OF new(1) pkg(1)] with_qa_twice [OF new(1)]
    by (auto simp: qa_done_def at5 at4(2) at3(2) at2 at1 names)
  with new(1) that show thesis by blast
qed

lemma done_apply:
  assumes ready: "qa_done dir force kind tailwind pkg t"
  obtains v where "read_json (join_names dir [''oxlint.json'']) t = Inr v" "plain v" "updated_oxlint v = Inr v"
    "force \<longrightarrow> t_files t (join_names dir [''oxlint.json'']) = Some oxlint_text"
    "\<exists>msg. apply_qa dir force kind tailwind pkg t =
      (Inr msg, write_file (join_names dir [''oxlint.json'']) (if force then oxlint_text else json_text v) t)"
proof -
  obtain x v y w where x: "text_at dir ''prettier.config.cjs'' t = Some x" "force \<longrightarrow> x = prettier_text tailwind"
    and v: "text_at dir ''oxlint.json'' t = Some y" "json_parse (strip_json_comments y) = Some v" "plain v" "updated_oxlint v = Inr v"
      "force \<longrightarrow> y = oxlint_text"
    and w: "text_at dir ''tsconfig.json'' t = Some (json_text w)" "plain w" "updated_tsconfig force (resolve_tsconfig_preset kind pkg) w = Inr w"
    using ready unfolding qa_done_def oxlint_done_def by blast
  have pkg: "ensure_package_json dir pkg kind t = (Inr pkg, t)"
    using ready by (simp add: ensure_package_json_def qa_done_def text_at_def write_json_def write_same)
  have prettier: "ensure_prettier_config dir tailwind force t = t"
    using x by (auto simp: ensure_prettier_config_def write_if_missing_def exists_file_at text_at_def write_same)
  define t' where "t' = write_file (join_names dir [''oxlint.json'']) (if force then oxlint_text else json_text v) t"
  have ox: "read_json (join_names dir [''oxlint.json'']) t = Inr v" by (simp add: read_json_at v)
  then have oxlint: "ensure_oxlint_config dir force t = (None, t')"
    using v(1,4) by (simp add: ensure_oxlint_config_def Let_def exists_file_at step_json_def write_json_def t'_def)
  have other: "text_at dir n t' = text_at dir n t" if "n \<in> set qa_names" "n \<noteq> ''oxlint.json''" for n
    using that by (simp add: t'_def text_at_write qa_names_def)
  have ts: "text_at dir ''tsconfig.json'' t' = Some (json_text w)" using w(1) other by (simp add: qa_names_def)
  then have tsconfig: "ensure_tsconfig dir kind pkg force t' = (None, t')"
    using w(3) by (simp add: ensure_tsconfig_def Let_def exists_file_at step_json_def read_json_at file_read_back [OF w(2)] write_json_def)
      (simp add: text_at_def write_same)
  have "ensure_bunup_config dir kind force t' = t'"
    using ready other [of "''bunup.config.ts''"]
    by (auto simp: ensure_bunup_config_def write_if_missing_def exists_file_at qa_done_def qa_names_def) (simp add: text_at_def write_same)
  then have "\<exists>msg. apply_qa dir force kind tailwind pkg t = (Inr msg, t')"
    by (simp add: apply_qa_def pkg prettier oxlint tsconfig)
  moreover have "force \<longrightarrow> t_files t (join_names dir [''oxlint.json'']) = Some oxlint_text" using v(1,5) by (simp add: text_at_def)
  ultimately show thesis using ox v(3,4) that unfolding t'_def by blast
qed

text \<open>The same run, once more: what the script finds out is what it found out before.\<close>

lemma done_run:
  assumes ready: "qa_done dir force k tailwind pkg t" and kind: "resolve_kind kind pkg = k" "resolve_tailwind tw pkg k = tailwind"
  shows "qa_run dir force kind tw t = apply_qa dir force k tailwind pkg t"
proof -
  have "exists_path dir t" "text_at dir ''package.json'' t = Some (json_text pkg)" "plain pkg" "\<not> nullish pkg"
    using ready by (simp_all add: qa_done_def)
  then show ?thesis using kind
    by (simp add: qa_run_def ensure_dir_exists_def get_package_json_def exists_file_at read_json_at file_read_back)
qed

lemma done_again:
  assumes "qa_done dir force k tailwind pkg t" "plain v" "updated_oxlint v = Inr v"
  shows "qa_done dir force k tailwind pkg (write_file (join_names dir [''oxlint.json'']) (if force then oxlint_text else json_text v) t)"
proof -
  let ?t = "write_file (join_names dir [''oxlint.json'']) (if force then oxlint_text else json_text v) t"
  have other: "text_at dir n ?t = text_at dir n t" if "n \<in> set qa_names" "n \<noteq> ''oxlint.json''" for n
    using that by (simp add: text_at_write qa_names_def)
  have "oxlint_done dir force ?t"
    using assms(2,3) oxlint_text_value file_read_back by (auto simp: oxlint_done_def text_at_write qa_names_def)
  then show ?thesis using assms(1) other by (simp add: qa_done_def qa_names_def)
qed

lemma run_done:
  assumes run: "qa_run dir force kind tailwind t = (Inr msg, t1)"
    and plain: "\<forall>n v. read_json (join_names dir [n]) t = Inr v \<longrightarrow> plain v"
  obtains pkg k tw new where "read_json (join_names dir [''package.json'']) t = Inr pkg" "with_qa k pkg = Inr new"
    "qa_done dir force k tw new t1" "resolve_kind kind new = k" "resolve_tailwind tailwind new k = tw"
proof -
  define t' where "t' = ensure_dir_exists dir t"
  have reads: "read_json (join_names dir [n]) t' = read_json (join_names dir [n]) t" for n by (simp add: t'_def read_json_at)
  obtain pkg where pkg: "get_package_json dir t' = Inr pkg" using run by (auto simp: qa_run_def t'_def Let_def split: sum.splits)
  then have read: "read_json (join_names dir [''package.json'']) t = Inr pkg" "\<not> nullish pkg"
    by (auto simp: get_package_json_def Let_def reads split: if_splits sum.splits)
  define k tw where "k = resolve_kind kind pkg" and "tw = resolve_tailwind tailwind pkg k"
  have "apply_qa dir force k tw pkg t' = (Inr msg, t1)" using run pkg by (simp add: qa_run_def t'_def [symmetric] k_def tw_def Let_def)
  moreover have "exists_path dir t'" by (simp add: t'_def exists_path_ensured)
  ultimately obtain new where new: "with_qa k pkg = Inr new" "qa_done dir force k tw new t1"
    using apply_qa_done [of dir force k tw pkg t' msg t1] plain read reads by metis
  have "resolve_kind kind new = k" "resolve_tailwind tailwind new k = tw"
    using with_qa_detects [OF new(1)] by (simp_all add: resolve_kind_def resolve_tailwind_def k_def tw_def)
  with read(1) new show thesis by (rule that)
qed

text \<open>C37. The setup settles. Once it has run, and the JSON files it read are plain values, a second run with the same options succeeds and changes no text but that of oxlint.json (written by hand at first, by JSON.stringify then), whose JSON stays the same; a third run changes nothing at all.\<close>

theorem qa_init_settles:
  assumes "qa_run dir force kind tailwind t = (Inr msg, t1)"
    and "\<forall>n v. read_json (join_names dir [n]) t = Inr v \<longrightarrow> plain v"
  shows "\<exists>t2. (\<exists>msg. qa_run dir force kind tailwind t1 = (Inr msg, t2)) \<and> (\<exists>msg. qa_run dir force kind tailwind t2 = (Inr msg, t2))
    \<and> (\<forall>p. p \<noteq> join_names dir [''oxlint.json''] \<longrightarrow> t_files t2 p = t_files t1 p)
    \<and> read_json (join_names dir [''oxlint.json'']) t2 = read_json (join_names dir [''oxlint.json'']) t1"
proof -
  let ?ox = "join_names dir [''oxlint.json'']"
  obtain k tw new where new: "qa_done dir force k tw new t1" "resolve_kind kind new = k" "resolve_tailwind tailwind new k = tw"
    by (rule run_done [OF assms])
  obtain v where v: "read_json ?ox t1 = Inr v" "plain v" "updated_oxlint v = Inr v"
    and forced: "force \<longrightarrow> t_files t1 ?ox = Some oxlint_text"
    and first: "\<exists>msg. apply_qa dir force k tw new t1 = (Inr msg, write_file ?ox (if force then oxlint_text else json_text v) t1)"
    by (rule done_apply [OF new(1)])
  define t2 where "t2 = write_file ?ox (if force then oxlint_text else json_text v) t1"
  note again = done_again [OF new(1) v(2,3), folded t2_def]
  obtain v' where v': "read_json ?ox t2 = Inr v'"
    and second: "\<exists>msg. apply_qa dir force k tw new t2 = (Inr msg, write_file ?ox (if force then oxlint_text else json_text v') t2)"
    by (rule done_apply [OF again])
  have "v' = v" if "\<not> force" using v' that by (simp add: read_json_def t2_def file_read_back [OF v(2)])
  then have "write_file ?ox (if force then oxlint_text else json_text v') t2 = t2" by (intro write_same) (simp add: t2_def)
  with second have "\<exists>msg. qa_run dir force kind tailwind t2 = (Inr msg, t2)" by (simp add: done_run [OF again new(2,3)])
  moreover have "\<exists>msg. qa_run dir force kind tailwind t1 = (Inr msg, t2)"
    using first by (simp add: done_run [OF new] t2_def)
  moreover have "t_files t2 p = t_files t1 p" if "p \<noteq> ?ox" for p using that by (simp add: t2_def)
  moreover have "read_json ?ox t2 = read_json ?ox t1"
    using forced v(1) by (cases force) (simp_all add: t2_def write_same, simp add: read_json_def file_read_back [OF v(2)])
  ultimately show ?thesis by blast
qed

section \<open>What a run touches\<close>

lemma missing_keeps: "p \<noteq> q \<or> (\<not> force \<and> t_files t p \<noteq> None) \<Longrightarrow> t_files (write_if_missing q x force t) p = t_files t p"
  by (auto simp: write_if_missing_def exists_file_def)

lemma step_json_keeps: "p \<noteq> q \<Longrightarrow> t_files (snd (step_json q f t)) p = t_files t p"
  by (auto simp: step_json_def write_json_def split: sum.split)

lemma apply_qa_keeps:
  assumes "p \<notin> (\<lambda>n. join_names dir [n]) ` set qa_names \<or>
      (\<not> force \<and> t_files t p \<noteq> None \<and> p \<in> (\<lambda>n. join_names dir [n]) ` set [''prettier.config.cjs'', ''bunup.config.ts''])"
  shows "t_files (snd (apply_qa dir force kind tailwind pkg t)) p = t_files t p"
proof -
  have other: "p \<noteq> join_names dir [''package.json'']" "p \<noteq> join_names dir [''oxlint.json'']" "p \<noteq> join_names dir [''tsconfig.json'']"
    using assms by (auto simp: qa_names_def join_names_eq clean_part_def)
  have once: "t_files (ensure_prettier_config dir tailwind force u) p = t_files u p" "t_files (ensure_bunup_config dir kind force u) p = t_files u p"
    if "t_files u p = t_files t p" for u
  proof -
    have "p \<noteq> join_names dir [n] \<or> (\<not> force \<and> t_files u p \<noteq> None)" if "n \<in> set [''prettier.config.cjs'', ''bunup.config.ts'']" for n
      using assms that \<open>t_files u p = t_files t p\<close> by (auto simp: qa_names_def)
    then show "t_files (ensure_prettier_config dir tailwind force u) p = t_files u p" "t_files (ensure_bunup_config dir kind force u) p = t_files u p"
      by (auto simp: ensure_prettier_config_def ensure_bunup_config_def intro!: missing_keeps)
  qed
  have pkg: "t_files (snd (ensure_package_json dir pkg kind t)) p = t_files t p"
    using other by (auto simp: ensure_package_json_def write_json_def split: sum.split)
  have ox: "t_files (snd (ensure_oxlint_config dir force u)) p = t_files u p" for u
    using other by (auto simp: ensure_oxlint_config_def Let_def step_json_keeps)
  have ts: "t_files (snd (ensure_tsconfig dir kind q force u)) p = t_files u p" for u q
    using other by (auto simp: ensure_tsconfig_def Let_def step_json_keeps write_json_def)
  obtain r t1 where t1: "ensure_package_json dir pkg kind t = (r, t1)" by fastforce
  obtain e t3 where t3: "ensure_oxlint_config dir force (ensure_prettier_config dir tailwind force t1) = (e, t3)" by fastforce
  have p1: "t_files t1 p = t_files t p" using pkg t1 by simp
  with once ox [of "ensure_prettier_config dir tailwind force t1"] t3 have p3: "t_files t3 p = t_files t p" by simp
  show ?thesis
  proof (cases r)
    case (Inr new)
    obtain e4 t4 where t4: "ensure_tsconfig dir kind new force t3 = (e4, t4)" by fastforce
    with ts [of new t3] p3 have "t_files t4 p = t_files t p" by simp
    with p3 once show ?thesis by (simp add: apply_qa_def t1 t3 t4 Inr split: option.split)
  qed (simp add: apply_qa_def t1 p1)
qed

theorem qa_init_touches:
  assumes "qa_run dir force kind tailwind t = (r, t1)"
    and "p \<notin> (\<lambda>n. join_names dir [n]) ` set qa_names \<or>
      (\<not> force \<and> t_files t p \<noteq> None \<and> p \<in> (\<lambda>n. join_names dir [n]) ` set [''prettier.config.cjs'', ''bunup.config.ts''])"
  shows "t_files t1 p = t_files t p"
proof -
  show ?thesis using assms apply_qa_keeps [of p dir force "ensure_dir_exists dir t"]
    by (auto simp: qa_run_def Let_def split: sum.splits) (metis snd_conv)+
qed

section \<open>The package after a run\<close>

lemma assigned_field:
  assumes "assign_all kvs v = Inr w" "kvs \<noteq> []" "distinct (map fst kvs)" "is_record v"
  shows "field w n = (case map_get kvs n of Some x \<Rightarrow> x | None \<Rightarrow> field v n)"
  using assms(1,2,4) by (elim assign_all_Inr) (auto simp: get_set_all [OF assms(3)] split: option.splits)

theorem qa_package_written:
  assumes run: "qa_run dir force kind tailwind t = (Inr msg, t1)"
    and plain: "\<forall>n v. read_json (join_names dir [n]) t = Inr v \<longrightarrow> plain v"
    and pkg: "read_json (join_names dir [''package.json'']) t = Inr pkg" "is_record pkg"
    and deps: "is_record (deps_of pkg ''scripts'')" "is_record (deps_of pkg ''devDependencies'')"
  shows "\<exists>new. read_json (join_names dir [''package.json'']) t1 = Inr new \<and>
    (\<forall>k. k \<noteq> ''scripts'' \<and> k \<noteq> ''devDependencies'' \<longrightarrow> field new k = field pkg k) \<and>
    (\<forall>n. field (field new ''scripts'') n =
      (case map_get (qa_scripts (resolve_kind kind pkg)) n of Some x \<Rightarrow> x | None \<Rightarrow> field (field pkg ''scripts'') n)) \<and>
    (\<forall>n. field (field new ''devDependencies'') n =
      (case map_get (qa_dev_dependencies (resolve_kind kind pkg)) n of Some x \<Rightarrow> x | None \<Rightarrow> field (field pkg ''devDependencies'') n))"
proof -
  obtain pkg' k tw new where r: "read_json (join_names dir [''package.json'']) t = Inr pkg'" "with_qa k pkg' = Inr new"
    "qa_done dir force k tw new t1" "resolve_kind kind new = k"
    by (rule run_done [OF run plain])
  have same: "pkg' = pkg" using r(1) pkg(1) by simp
  have k: "k = resolve_kind kind pkg" using r(4) with_qa_detects(1) [OF r(2)] by (simp add: resolve_kind_def same)
  have read: "read_json (join_names dir [''package.json'']) t1 = Inr new"
    using r(3) by (simp add: qa_done_def read_json_at file_read_back)
  have member: "field (deps_of pkg j) n = field (field pkg j) n" for j n by (cases "field pkg j") (simp_all add: deps_of_def nn_def)
  from r(2) have "(\<forall>n. field (field new ''scripts'') n = (case map_get (qa_scripts k) n of Some x \<Rightarrow> x | None \<Rightarrow> field (field pkg ''scripts'') n)) \<and>
    (\<forall>n. field (field new ''devDependencies'') n = (case map_get (qa_dev_dependencies k) n of Some x \<Rightarrow> x | None \<Rightarrow> field (field pkg ''devDependencies'') n))"
  proof (cases rule: with_qa_Inr)
    case (obj m s d)
    then have "field new ''scripts'' = s" "field new ''devDependencies'' = d" by simp_all
    with assigned_field [OF obj(2) [unfolded same] qa_lists(1,2) deps(1)] assigned_field [OF obj(3) [unfolded same] qa_lists(4,5) deps(2)]
    show ?thesis by (auto simp: member split: option.split)
  qed (use pkg same in simp)
  with read with_qa_other [OF r(2)] show ?thesis unfolding same k by blast
qed

section \<open>The options\<close>

text \<open>How the scaffolding calls the script: every option is taken as it was meant.\<close>

definition init_args :: "string \<Rightarrow> string \<Rightarrow> bool \<Rightarrow> string list" where
  "init_args dir kind tailwind = [''--dir'', dir, ''--kind'', kind] @ (if tailwind then [''--tailwind''] else [])"

lemma init_args_read:
  assumes "kind_of_arg (Some kind) = Some k"
  shows "parse_args_list (init_args dir kind tailwind) start_options =
    Inr \<lparr>io_dir = Some dir, io_kind = k, io_tailwind = (if tailwind then Some True else None), io_force = False\<rparr>"
  using assms
  by (simp add: init_args_def parse_args_list.simps consume_arg_def is_bare_dir_arg_def starts_with_def arg_handler_of_def start_options_def)

text \<open>\<open>-h\<close> in the first place is taken for the directory, which is created.\<close>

lemma short_help_is_a_directory:
  "parse_args_list [''-h''] start_options = Inr (start_options\<lparr>io_dir := Some ''-h''\<rparr>)"
  "parse_args_list [''--help''] start_options = Inl HelpShown"
  by code_simp+

lemma short_help_makes_directory:
  assumes "\<not> exists_path ''/repo/-h'' t" "t_files t ''/repo/-h/package.json'' = None"
  shows "qa_main ''/repo'' ''/repo'' [''-h''] t = (Inl (Failure ''Missing package.json at /repo/-h/package.json''), ensure_dir ''/repo/-h'' t)"
proof -
  have "resolve_dir ''/repo'' ''/repo'' (start_options\<lparr>io_dir := Some ''-h''\<rparr>) = Inr ''/repo/-h''" by code_simp
  moreover have "join_names ''/repo/-h'' [''package.json''] = ''/repo/-h/package.json''" by code_simp
  ultimately show ?thesis using assms
    by (simp add: qa_main_def short_help_is_a_directory qa_run_def ensure_dir_exists_def get_package_json_def exists_file_def)
qed

text \<open>A library is taken for a command line tool when its name contains the letters.\<close>

lemma client_library_is_a_command: "detect_kind (JObj [(''name'', JStr ''@acme/client'')]) = Command"
  by code_simp

section \<open>At work\<close>

definition demo_tree :: tree where
  "demo_tree = \<lparr>t_texts = [(''/r/package.json'', json_text (JObj [(''name'', JStr ''x''), (''scripts'', JObj [(''go'', JStr ''y'')])]))],
     t_dirs = [''/'', ''/r'']\<rparr>"

lemma demo_runs: "\<exists>msg. qa_run ''/r'' False None None demo_tree = (Inr msg, snd (qa_run ''/r'' False None None demo_tree))"
proof -
  have "(case fst (qa_run ''/r'' False None None demo_tree) of Inr msg \<Rightarrow> True | _ \<Rightarrow> False)" by code_simp
  then show ?thesis by (cases "qa_run ''/r'' False None None demo_tree") (auto split: sum.splits)
qed

lemma demo_plain: "\<forall>n v. read_json (join_names ''/r'' [n]) demo_tree = Inr v \<longrightarrow> plain v"
proof (intro allI impI)
  fix n v assume r: "read_json (join_names ''/r'' [n]) demo_tree = Inr v"
  then have "join_names ''/r'' [n] = ''/r/package.json''" by (auto simp: read_json_def demo_tree_def t_files_def split: if_splits)
  with r have "json_parse (strip_json_comments (json_text (JObj [(''name'', JStr ''x''), (''scripts'', JObj [(''go'', JStr ''y'')])]))) = Some v"
    by (auto simp: read_json_def demo_tree_def t_files_def split: option.splits)
  then show "plain v" by (simp add: file_read_back) auto
qed

lemma qa_init_settles_witness:
  "\<exists>t2. (\<exists>msg. qa_run ''/r'' False None None (snd (qa_run ''/r'' False None None demo_tree)) = (Inr msg, t2)) \<and>
    (\<exists>msg. qa_run ''/r'' False None None t2 = (Inr msg, t2))"
proof -
  obtain msg where "qa_run ''/r'' False None None demo_tree = (Inr msg, snd (qa_run ''/r'' False None None demo_tree))" using demo_runs by blast
  from qa_init_settles [OF this demo_plain] show ?thesis by blast
qed

lemma qa_init_touches_witness:
  "t_files (snd (qa_run ''/r'' False None None demo_tree)) ''/r/index.ts'' = None"
proof -
  have "''/r/index.ts'' \<notin> (\<lambda>n. join_names ''/r'' [n]) ` set qa_names" by code_simp
  then show ?thesis using qa_init_touches [OF surjective_pairing, of "''/r/index.ts''" "''/r''" False demo_tree None None] by (simp add: demo_tree_def t_files_def)
qed

lemma qa_package_written_witness:
  "\<exists>new. read_json ''/r/package.json'' (snd (qa_run ''/r'' False None None demo_tree)) = Inr new \<and>
    field (field new ''scripts'') ''go'' = JStr ''y'' \<and> field (field new ''scripts'') ''build'' = JStr ''bunup''"
proof -
  obtain msg where run: "qa_run ''/r'' False None None demo_tree = (Inr msg, snd (qa_run ''/r'' False None None demo_tree))" using demo_runs by blast
  define pkg where "pkg = JObj [(''name'', JStr ''x''), (''scripts'', JObj [(''go'', JStr ''y'')])]"
  have place: "join_names ''/r'' [''package.json''] = ''/r/package.json''" by code_simp
  have "plain pkg" by (simp add: pkg_def)
  then have "read_json (join_names ''/r'' [''package.json'']) demo_tree = Inr pkg"
    unfolding place by (simp add: read_json_def demo_tree_def t_files_def file_read_back pkg_def [symmetric])
  moreover have "is_record pkg" "is_record (deps_of pkg ''scripts'')" "is_record (deps_of pkg ''devDependencies'')" "resolve_kind None pkg = Library"
    unfolding pkg_def by code_simp+
  ultimately obtain new where new: "read_json (join_names ''/r'' [''package.json'']) (snd (qa_run ''/r'' False None None demo_tree)) = Inr new"
      "\<forall>n. field (field new ''scripts'') n = (case map_get (qa_scripts Library) n of Some x \<Rightarrow> x | None \<Rightarrow> field (field pkg ''scripts'') n)"
    using qa_package_written [OF run demo_plain, of pkg] by metis
  have "field (field new ''scripts'') ''go'' = JStr ''y''" "field (field new ''scripts'') ''build'' = JStr ''bunup''"
    using new(2) by (simp_all add: pkg_def qa_scripts_def)
  with new(1) show ?thesis unfolding place by blast
qed

end
