(* ===== verification/Scaffold.thy ===== *)
theory Scaffold
  imports QaInit
begin

text \<open>
  The scaffolding of new apps and packages, \<open>packages/new\<close>: the arguments of \<open>bun new\<close>, the directory
  they mean, and the steps of the five scaffolders, with the packages and texts they write.

  The commands that are started, \<open>bun create\<close>, \<open>bun install\<close> and the like, are the argument \<open>ext\<close>: what
  a command line in a directory makes of the files, and whether it exits with 0. They are kept in order.
  Files are those of \<open>QaInit\<close>; the paths of the repository have no dots.
\<close>

section \<open>Arguments\<close>

datatype app_type = WebApp | ApiApp | CliApp | LibApp | UiApp

datatype tui_option = Ink | Fullscreen

record new_options =
  installs :: bool
  no_tui :: "tui_option option"
  no_positional :: "string list"

definition app_name :: "app_type \<Rightarrow> string" where
  "app_name a = (case a of WebApp \<Rightarrow> ''web'' | ApiApp \<Rightarrow> ''api'' | CliApp \<Rightarrow> ''cli'' | LibApp \<Rightarrow> ''lib'' | UiApp \<Rightarrow> ''ui'')"

definition app_types :: "app_type list" where
  "app_types = [WebApp, ApiApp, CliApp, LibApp, UiApp]"

definition default_root :: "app_type \<Rightarrow> string" where
  "default_root a = (if a = WebApp \<or> a = ApiApp then ''apps'' else ''packages'')"

definition parse_cli_tui :: "string \<Rightarrow> init_error + tui_option" where
  "parse_cli_tui raw = (if raw = [] then Inr Ink else if raw = ''fullscreen'' then Inr Fullscreen else if raw = ''ink'' then Inr Ink
     else Inl (Failure (''Invalid --tui value: '' @ raw)))"

definition begin_options :: new_options where
  "begin_options = \<lparr>installs = True, no_tui = None, no_positional = []\<rparr>"

text \<open>An argument with those after it, and those left.\<close>

definition new_arg :: "string \<Rightarrow> string list \<Rightarrow> new_options \<Rightarrow> init_error + new_options \<times> string list" where
  "new_arg arg rest opts =
     (let tui = (\<lambda>raw left. case parse_cli_tui raw of Inl e \<Rightarrow> Inl e | Inr u \<Rightarrow> Inr (opts\<lparr>no_tui := Some u\<rparr>, left)) in
      if arg = [] then Inr (opts, rest)
      else if arg = ''--no-install'' then Inr (opts\<lparr>installs := False\<rparr>, rest)
      else if arg = ''--tui'' then
        (case rest of
           [] \<Rightarrow> tui [] rest
         | next_arg # left \<Rightarrow> if next_arg \<noteq> [] \<and> \<not> starts_with ''-'' next_arg then tui next_arg left else tui [] rest)
      else if starts_with ''--tui='' arg then tui (drop 6 arg) rest
      else if \<not> starts_with ''-'' arg then Inr (opts\<lparr>no_positional := no_positional opts @ [arg]\<rparr>, rest)
      else Inr (opts, rest))"

lemma new_arg_shorter: "new_arg arg rest opts = Inr (opts', rest') \<Longrightarrow> length rest' \<le> length rest"
  by (auto simp: new_arg_def Let_def split: if_splits sum.splits list.splits)

function parse_new_args :: "string list \<Rightarrow> new_options \<Rightarrow> init_error + new_options" where
  "parse_new_args args opts = (case args of
     [] \<Rightarrow> Inr opts
   | arg # rest \<Rightarrow> (case new_arg arg rest opts of Inl e \<Rightarrow> Inl e | Inr (opts', rest') \<Rightarrow> parse_new_args rest' opts'))"
  by pat_completeness auto
termination
  by (relation "measure (\<lambda>(args, _). length args)") (auto dest: new_arg_shorter simp: le_imp_less_Suc)

declare parse_new_args.simps [simp del]

section \<open>Paths\<close>

definition resolve_target :: "string \<Rightarrow> string \<Rightarrow> string \<Rightarrow> init_error + string" where
  "resolve_target root_dir name parent =
     (let is_path = CHR ''/'' \<in> set name \<or> CHR 0x5C \<in> set name;
          resolved = (if is_path then resolve_from root_dir name else join_names root_dir [parent, name])
      in if starts_with (with_slash root_dir) resolved then Inr resolved
         else Inl (Failure (''Target path must be inside repo root: '' @ root_dir)))"

text \<open>\<open>relative(a, b)\<close> on the parts of the two.\<close>

fun relative_parts :: "string list \<Rightarrow> string list \<Rightarrow> string list" where
  "relative_parts (a # as) (b # bs) = (if a = b then relative_parts as bs else replicate (Suc (length as)) ''..'' @ b # bs)"
| "relative_parts as bs = replicate (length as) ''..'' @ bs"

definition relative_path :: "string \<Rightarrow> string \<Rightarrow> string" where
  "relative_path a b = join_with ''/'' (relative_parts (path_parts a) (path_parts b))"

definition resolve_package_name :: "string \<Rightarrow> string \<Rightarrow> string" where
  "resolve_package_name root_dir target =
     (let relative = map (\<lambda>c. if c = CHR 0x5C then CHR ''/'' else c) (relative_path root_dir target);
          cleaned = (if starts_with ''apps/'' relative then drop 5 relative
            else if starts_with ''packages/'' relative then drop 9 relative else relative)
      in join_with ''-'' (path_parts cleaned))"

section \<open>Steps\<close>

text \<open>The files with the commands started so far. A step may fail, which ends the run.\<close>

record shop =
  sh_tree :: tree
  sh_commands :: "(string list \<times> string) list"

type_synonym act = "shop \<Rightarrow> init_error option \<times> shop"

type_synonym external = "string list \<Rightarrow> string \<Rightarrow> tree \<Rightarrow> bool \<times> tree"

fun in_order :: "act list \<Rightarrow> act" where
  "in_order [] s = (None, s)"
| "in_order (a # as) s = (case a s of (Some e, s') \<Rightarrow> (Some e, s') | (None, s') \<Rightarrow> in_order as s')"

definition on_files :: "(tree \<Rightarrow> init_error option \<times> tree) \<Rightarrow> act" where
  "on_files f s = (case f (sh_tree s) of (e, t) \<Rightarrow> (e, s\<lparr>sh_tree := t\<rparr>))"

definition run_command :: "external \<Rightarrow> string list \<Rightarrow> string \<Rightarrow> act" where
  "run_command ext argv cwd s = (case ext argv cwd (sh_tree s) of (ok, t) \<Rightarrow>
     (if ok then None else Some (Failure (''Command failed: '' @ join_with '' '' argv)),
      s\<lparr>sh_tree := t, sh_commands := sh_commands s @ [(argv, cwd)]\<rparr>))"

definition has_entries :: "string \<Rightarrow> tree \<Rightarrow> bool" where
  "has_entries dir t \<longleftrightarrow> list_ex (starts_with (dir @ ''/'')) (map fst (t_texts t) @ t_dirs t)"

definition ensure_empty_dir :: "string \<Rightarrow> tree \<Rightarrow> init_error option" where
  "ensure_empty_dir dir t = (if \<not> exists_path dir t then None
     else if exists_file (join_names dir []) t then Some Fault
     else if has_entries (join_names dir []) t then Some (Failure (''Target directory is not empty: '' @ dir)) else None)"

definition ensure_target_dir :: "string \<Rightarrow> tree \<Rightarrow> init_error option \<times> tree" where
  "ensure_target_dir target t = (case ensure_empty_dir target t of
     Some e \<Rightarrow> (Some e, t) | None \<Rightarrow> (None, ensure_dir_exists target t))"

definition ensure_templates :: "string \<Rightarrow> tree \<Rightarrow> init_error option \<times> tree" where
  "ensure_templates root_dir t = (if exists_path (join_names root_dir [''.bun-create'']) t then (None, t)
     else (Some (Failure ''Missing .bun-create directory at repo root. Run bun install or bun run -w @merossity/new postinstall.''), t))"

definition run_qa_init :: "external \<Rightarrow> string \<Rightarrow> string \<Rightarrow> string \<Rightarrow> bool \<Rightarrow> act" where
  "run_qa_init ext root_dir target kind tailwind = run_command ext
     ([''bun'', ''run'', ''--cwd'', join_names root_dir [''packages'', ''qa''], ''qa:init''] @ init_args target kind tailwind) root_dir"

definition run_workspace_install :: "external \<Rightarrow> string \<Rightarrow> act" where
  "run_workspace_install ext root_dir = run_command ext [''bun'', ''install''] root_dir"

definition run_create :: "external \<Rightarrow> string \<Rightarrow> string \<Rightarrow> string \<Rightarrow> act" where
  "run_create ext root_dir template target = run_command ext
     [''bun'', ''create'', template, relative_path root_dir target, ''--no-install'', ''--no-git''] root_dir"

section \<open>The name of the package\<close>

text \<open>Here JSON is read without comments.\<close>

definition read_strict :: "string \<Rightarrow> tree \<Rightarrow> init_error + jsval" where
  "read_strict p t = (case Option.bind (t_files t p) json_parse of None \<Rightarrow> Inl Fault | Some v \<Rightarrow> Inr v)"

definition without_scope :: "string \<Rightarrow> string" where
  "without_scope raw = (if starts_with ''@'' raw then last (split_on CHR ''/'' raw) else raw)"

definition resolve_project_name :: "string \<Rightarrow> tree \<Rightarrow> init_error + string" where
  "resolve_project_name root_dir t = (let p = join_names root_dir [''package.json''] in
     if \<not> exists_file p t then Inr ''project''
     else case read_strict p t of Inl e \<Rightarrow> Inl e
       | Inr pkg \<Rightarrow> if nullish pkg then Inl Fault
         else (case nn (field pkg ''name'') (JStr ''project'') of JStr raw \<Rightarrow> Inr (without_scope raw) | _ \<Rightarrow> Inl Fault))"

definition update_package_name :: "string \<Rightarrow> string \<Rightarrow> tree \<Rightarrow> init_error option \<times> tree" where
  "update_package_name root_dir target t = (let p = join_names target [''package.json''] in
     if \<not> exists_file p t then (None, t)
     else case read_strict p t of Inl e \<Rightarrow> (Some e, t)
       | Inr pkg \<Rightarrow> (case resolve_project_name root_dir t of Inl e \<Rightarrow> (Some e, t)
       | Inr project \<Rightarrow>
         (case assign ''name'' (JStr (''@'' @ project @ ''/'' @ resolve_package_name root_dir target)) pkg of Inl e \<Rightarrow> (Some e, t)
       | Inr new \<Rightarrow> (None, write_json p new t))))"

section \<open>A command line tool with a terminal interface\<close>

text \<open>\<open>v.k = v.k ?? x\<close>\<close>

definition assign_missing :: "string \<Rightarrow> string \<Rightarrow> jsval \<Rightarrow> init_error + jsval" where
  "assign_missing k x v = assign k (nn (field v k) (JStr x)) v"

fun assign_each :: "(string \<times> string) list \<Rightarrow> jsval \<Rightarrow> init_error + jsval" where
  "assign_each [] v = Inr v"
| "assign_each ((k, x) # kxs) v = (case assign_missing k x v of Inl e \<Rightarrow> Inl e | Inr w \<Rightarrow> assign_each kxs w)"

definition ink_deps :: "tui_option \<Rightarrow> (string \<times> string) list" where
  "ink_deps tui = [(''ink'', ''5.2.1''), (''react'', ''^18.2.0'')] @ (if tui = Fullscreen then [(''fullscreen-ink'', ''0.1.0'')] else [])"

definition with_ink_deps :: "tui_option \<Rightarrow> jsval \<Rightarrow> init_error + jsval" where
  "with_ink_deps tui pkg = (if nullish pkg then Inl Fault else
     case assign_each (ink_deps tui) (deps_of pkg ''dependencies'') of Inl e \<Rightarrow> Inl e
     | Inr deps \<Rightarrow> (case assign_each [(''@types/react'', ''^18.2.0'')] (deps_of pkg ''devDependencies'') of Inl e \<Rightarrow> Inl e
     | Inr dev \<Rightarrow> assign_all [(''dependencies'', deps), (''devDependencies'', dev)] pkg))"

text \<open>The rewriting of a JSON file that may be missing.\<close>

definition rewrite_json :: "string \<Rightarrow> (jsval \<Rightarrow> init_error + jsval) \<Rightarrow> tree \<Rightarrow> init_error option \<times> tree" where
  "rewrite_json p f t = (if \<not> exists_file p t then (None, t)
     else case read_strict p t of Inl e \<Rightarrow> (Some e, t)
       | Inr v \<Rightarrow> (case f v of Inl e \<Rightarrow> (Some e, t) | Inr w \<Rightarrow> (None, write_json p w t)))"

definition ensure_ink_deps :: "string \<Rightarrow> tui_option \<Rightarrow> tree \<Rightarrow> init_error option \<times> tree" where
  "ensure_ink_deps target tui = rewrite_json (join_names target [''package.json'']) (with_ink_deps tui)"

definition with_ink_jsx :: "jsval \<Rightarrow> init_error + jsval" where
  "with_ink_jsx tsconfig = (if nullish tsconfig then Inl Fault else
     let options = nn (field tsconfig ''compilerOptions'') (JObj []) in
     case (if truthy (field options ''jsx'') then Inr options else assign ''jsx'' (JStr ''react-jsx'') options) of
       Inl e \<Rightarrow> Inl e | Inr new \<Rightarrow> assign ''compilerOptions'' new tsconfig)"

definition ensure_tsconfig_for_ink :: "string \<Rightarrow> tree \<Rightarrow> init_error option \<times> tree" where
  "ensure_tsconfig_for_ink target = rewrite_json (join_names target [''tsconfig.json'']) with_ink_jsx"

definition ink_view_text :: "tui_option \<Rightarrow> string" where
  "ink_view_text tui =
     (if tui = Fullscreen then text_lines
     [''import '' @ [CHR 0x7B] @ '' Box, Text, useApp, useInput '' @ [CHR 0x7D] @ '' from '' @ [CHR 0x22] @ ''ink'' @ [CHR 0x22] @ '';'',
      ''import '' @ [CHR 0x7B] @ '' withFullScreen '' @ [CHR 0x7D] @ '' from '' @ [CHR 0x22] @ ''fullscreen-ink'' @ [CHR 0x22] @ '';'']
      else text_lines
     [''import '' @ [CHR 0x7B] @ '' Box, Text, render, useApp, useInput '' @ [CHR 0x7D] @ '' from '' @ [CHR 0x22] @ ''ink'' @ [CHR 0x22] @ '';''])
     @ text_lines
     [[],
      [],
      ''function App() '' @ [CHR 0x7B],
      ''  const app = useApp();'',
      ''  useInput((input, key) => '' @ [CHR 0x7B],
      ''    if (input === '' @ [CHR 0x22] @ ''q'' @ [CHR 0x22] @ '' || key.escape) '' @ [CHR 0x7B],
      ''      app.exit();'',
      ''    '' @ [CHR 0x7D],
      ''  '' @ [CHR 0x7D] @ '');'',
      [],
      ''  return ('',
      ''    <Box flexDirection='' @ [CHR 0x22] @ ''column'' @ [CHR 0x22] @ '' padding='' @ [CHR 0x7B] @ ''1'' @ [CHR 0x7D] @ ''>'',
      ''      <Text>Ink TUI is running.</Text>'',
      ''      <Text dimColor>Press '' @ [CHR 0x22] @ ''q'' @ [CHR 0x22] @ '' (or Esc) to exit.</Text>'',
      ''    </Box>'',
      ''  );'',
      [CHR 0x7D],
      [],
      ''export const runTui = async () => '' @ [CHR 0x7B]]
     @ (if tui = Fullscreen then text_lines
     [''  const ink = withFullScreen(<App />);'',
      ''  await ink.start();'',
      ''  await ink.waitUntilExit();'',
      [CHR 0x7D] @ '';'']
      else text_lines
     [''  const '' @ [CHR 0x7B] @ '' waitUntilExit '' @ [CHR 0x7D] @ '' = render(<App />);'',
      ''  await waitUntilExit();'',
      [CHR 0x7D] @ '';''])"

definition ink_entrypoint_text :: string where
  "ink_entrypoint_text = text_lines
     [''#!/usr/bin/env node'',
      [],
      ''import '' @ [CHR 0x7B] @ '' createRequire '' @ [CHR 0x7D] @ '' from '' @ [CHR 0x22] @ ''node:module'' @ [CHR 0x22] @ '';'',
      ''import '' @ [CHR 0x7B],
      ''  Clerc,'',
      ''  NoCommandSpecifiedError,'',
      ''  completionsPlugin,'',
      ''  friendlyErrorPlugin,'',
      ''  helpPlugin,'',
      ''  notFoundPlugin,'',
      ''  strictFlagsPlugin,'',
      ''  updateNotifierPlugin,'',
      ''  defineCommand,'',
      ''  versionPlugin,'',
      [CHR 0x7D] @ '' from '' @ [CHR 0x22] @ ''clerc'' @ [CHR 0x22] @ '';'',
      [],
      ''import '' @ [CHR 0x7B] @ '' runTui '' @ [CHR 0x7D] @ '' from '' @ [CHR 0x22] @ ''./tui'' @ [CHR 0x22] @ '';'',
      [],
      ''const require = createRequire(import.meta.url);'',
      ''const pkg = require('' @ [CHR 0x22] @ ''../package.json'' @ [CHR 0x22] @ '') as '' @ [CHR 0x7B],
      ''  name?: string;'',
      ''  version?: string;'',
      ''  description?: string;'',
      [CHR 0x7D] @ '';'',
      [],
      ''const cli = Clerc.create('' @ [CHR 0x7B],
      ''  scriptName: '' @ [CHR 0x22] @ ''cli'' @ [CHR 0x22] @ '','',
      ''  name: pkg.name ?? '' @ [CHR 0x22] @ ''cli'' @ [CHR 0x22] @ '','',
      ''  version: pkg.version ?? '' @ [CHR 0x22] @ ''0.0.0'' @ [CHR 0x22] @ '','',
      ''  description: pkg.description ?? '' @ [CHR 0x22] @ ''A TUI CLI built with Ink + Clerc.'' @ [CHR 0x22] @ '','',
      [CHR 0x7D] @ '')'',
      ''  .use(versionPlugin())'',
      ''  .use(helpPlugin('' @ [CHR 0x7B] @ '' showHelpWhenNoCommandSpecified: false '' @ [CHR 0x7D] @ ''))'',
      ''  .use(completionsPlugin())'',
      ''  .use(strictFlagsPlugin())'',
      ''  .use(notFoundPlugin())'',
      ''  .use(friendlyErrorPlugin());'',
      [],
      ''if (process.env.CLI_UPDATE_NOTIFIER === '' @ [CHR 0x22] @ ''1'' @ [CHR 0x22] @ '') '' @ [CHR 0x7B],
      ''  cli.use(updateNotifierPlugin('' @ [CHR 0x7B] @ '' pkg: '' @ [CHR 0x7B] @ '' name: pkg.name ?? '' @ [CHR 0x22] @ ''cli'' @ [CHR 0x22] @ '', version: pkg.version ?? '' @ [CHR 0x22] @ ''0.0.0'' @ [CHR 0x22] @ '' '' @ [CHR 0x7D] @ '' '' @ [CHR 0x7D] @ ''));'',
      [CHR 0x7D],
      [],
      ''// Default to the TUI when no command is provided (but keep '' @ [CHR 0x27] @ ''--help'' @ [CHR 0x27] @ '' / '' @ [CHR 0x27] @ ''--version'' @ [CHR 0x27] @ '' working).'',
      ''cli.interceptor(async (_ctx, next) => '' @ [CHR 0x7B],
      ''  try '' @ [CHR 0x7B],
      ''    await next();'',
      ''  '' @ [CHR 0x7D] @ '' catch (error) '' @ [CHR 0x7B],
      ''    if (error instanceof NoCommandSpecifiedError) '' @ [CHR 0x7B],
      ''      await runTui();'',
      ''      return;'',
      ''    '' @ [CHR 0x7D],
      ''    throw error;'',
      ''  '' @ [CHR 0x7D],
      [CHR 0x7D] @ '');'',
      [],
      ''cli.command('',
      ''  defineCommand('',
      ''    '' @ [CHR 0x7B],
      ''      name: '' @ [CHR 0x22] @ ''tui'' @ [CHR 0x22] @ '','',
      ''      description: '' @ [CHR 0x22] @ ''Start the TUI'' @ [CHR 0x22] @ '','',
      ''    '' @ [CHR 0x7D] @ '','',
      ''    async () => '' @ [CHR 0x7B],
      ''      await runTui();'',
      ''    '' @ [CHR 0x7D] @ '','',
      ''  ),'',
      '');'',
      [],
      ''cli.command('',
      ''  defineCommand('',
      ''    '' @ [CHR 0x7B],
      ''      name: '' @ [CHR 0x22] @ ''greet'' @ [CHR 0x22] @ '','',
      ''      description: '' @ [CHR 0x22] @ ''Print a greeting'' @ [CHR 0x22] @ '','',
      ''      parameters: ['' @ [CHR 0x22] @ ''[name]'' @ [CHR 0x22] @ ''],'',
      ''    '' @ [CHR 0x7D] @ '','',
      ''    ('' @ [CHR 0x7B] @ '' parameters '' @ [CHR 0x7D] @ '') => '' @ [CHR 0x7B],
      ''      console.log('' @ [CHR 0x60] @ ''Hello, $'' @ [CHR 0x7B] @ ''parameters.name ?? '' @ [CHR 0x22] @ ''world'' @ [CHR 0x22, CHR 0x7D] @ ''!'' @ [CHR 0x60] @ '');'',
      ''    '' @ [CHR 0x7D] @ '','',
      ''  ),'',
      '');'',
      [],
      ''await cli.parse();'']"

definition ink_tests_text :: string where
  "ink_tests_text = text_lines
     [''import path from '' @ [CHR 0x22] @ ''node:path'' @ [CHR 0x22] @ '';'',
      ''import '' @ [CHR 0x7B] @ '' describe, expect, it '' @ [CHR 0x7D] @ '' from '' @ [CHR 0x22] @ ''bun:test'' @ [CHR 0x22] @ '';'',
      [],
      ''const CLI_PATH = path.join(import.meta.dir, '' @ [CHR 0x22] @ ''..'' @ [CHR 0x22] @ '', '' @ [CHR 0x22] @ ''src'' @ [CHR 0x22] @ '', '' @ [CHR 0x22] @ ''index.ts'' @ [CHR 0x22] @ '');'',
      [],
      ''const runCli = async (args: string[]) => '' @ [CHR 0x7B],
      ''  const proc = Bun.spawn(['' @ [CHR 0x22] @ ''bun'' @ [CHR 0x22] @ '', CLI_PATH, ...args], '' @ [CHR 0x7B],
      ''    stdin: '' @ [CHR 0x22] @ ''ignore'' @ [CHR 0x22] @ '','',
      ''    stdout: '' @ [CHR 0x22] @ ''pipe'' @ [CHR 0x22] @ '','',
      ''    stderr: '' @ [CHR 0x22] @ ''pipe'' @ [CHR 0x22] @ '','',
      ''  '' @ [CHR 0x7D] @ '');'',
      [],
      ''  const exitCode = await proc.exited;'',
      ''  const stdout = proc.stdout ? await new Response(proc.stdout).text() : '' @ [CHR 0x22, CHR 0x22] @ '';'',
      ''  const stderr = proc.stderr ? await new Response(proc.stderr).text() : '' @ [CHR 0x22, CHR 0x22] @ '';'',
      [],
      ''  return '' @ [CHR 0x7B] @ '' exitCode, stdout, stderr '' @ [CHR 0x7D] @ '';'',
      [CHR 0x7D] @ '';'',
      [],
      ''describe('' @ [CHR 0x22] @ ''cli (ink)'' @ [CHR 0x22] @ '', () => '' @ [CHR 0x7B],
      ''  it('' @ [CHR 0x22] @ ''prints help with --help (does not start the TUI)'' @ [CHR 0x22] @ '', async () => '' @ [CHR 0x7B],
      ''    const '' @ [CHR 0x7B] @ '' exitCode, stdout, stderr '' @ [CHR 0x7D] @ '' = await runCli(['' @ [CHR 0x22] @ ''--help'' @ [CHR 0x22] @ '']);'',
      ''    expect(exitCode).toBe(0);'',
      ''    expect(stderr).toBe('' @ [CHR 0x22, CHR 0x22] @ '');'',
      ''    expect(stdout).toContain('' @ [CHR 0x22] @ ''Usage'' @ [CHR 0x22] @ '');'',
      ''    expect(stdout).toContain('' @ [CHR 0x22] @ ''cli'' @ [CHR 0x22] @ '');'',
      ''  '' @ [CHR 0x7D] @ '');'',
      [],
      ''  it('' @ [CHR 0x22] @ ''runs greet'' @ [CHR 0x22] @ '', async () => '' @ [CHR 0x7B],
      ''    const '' @ [CHR 0x7B] @ '' exitCode, stdout, stderr '' @ [CHR 0x7D] @ '' = await runCli(['' @ [CHR 0x22] @ ''greet'' @ [CHR 0x22] @ '', '' @ [CHR 0x22] @ ''bun'' @ [CHR 0x22] @ '']);'',
      ''    expect(exitCode).toBe(0);'',
      ''    expect(stderr).toBe('' @ [CHR 0x22, CHR 0x22] @ '');'',
      ''    expect(stdout).toContain('' @ [CHR 0x22] @ ''Hello, bun!'' @ [CHR 0x22] @ '');'',
      ''  '' @ [CHR 0x7D] @ '');'',
      [CHR 0x7D] @ '');'']"

definition write_ink_files :: "string \<Rightarrow> tui_option \<Rightarrow> tree \<Rightarrow> init_error option \<times> tree" where
  "write_ink_files target tui t = (if join_names target [''src''] \<notin> set (t_dirs t) then (Some Fault, t)
     else (None, write_file (join_names target [''src'', ''tui.tsx'']) (ink_view_text tui) t))"

text \<open>A file that is only replaced.\<close>

definition replace_file :: "string \<Rightarrow> string \<Rightarrow> tree \<Rightarrow> init_error option \<times> tree" where
  "replace_file p contents t = (None, if exists_file p t then write_file p contents t else t)"

definition write_ink_entrypoint :: "string \<Rightarrow> tree \<Rightarrow> init_error option \<times> tree" where
  "write_ink_entrypoint target = replace_file (join_names target [''src'', ''index.ts'']) ink_entrypoint_text"

definition write_ink_tests :: "string \<Rightarrow> tree \<Rightarrow> init_error option \<times> tree" where
  "write_ink_tests target = replace_file (join_names target [''tests'', ''cli.test.ts'']) ink_tests_text"

definition apply_ink_tui :: "string \<Rightarrow> tui_option \<Rightarrow> act" where
  "apply_ink_tui target tui = in_order
     [on_files (ensure_ink_deps target tui), on_files (ensure_tsconfig_for_ink target), on_files (write_ink_files target tui),
      on_files (write_ink_entrypoint target), on_files (write_ink_tests target)]"

section \<open>A web app\<close>

definition web_app_text :: string where
  "web_app_text = text_lines
     [''export default function App() '' @ [CHR 0x7B],
      ''  return ('',
      ''    <main className='' @ [CHR 0x22] @ ''min-h-screen bg-white text-slate-900'' @ [CHR 0x22] @ ''>'',
      ''      <div className='' @ [CHR 0x22] @ ''mx-auto max-w-3xl px-6 py-20'' @ [CHR 0x22] @ ''>'',
      ''        <h1 className='' @ [CHR 0x22] @ ''text-3xl font-semibold'' @ [CHR 0x22] @ ''>Welcome</h1>'',
      ''        <p className='' @ [CHR 0x22] @ ''mt-4 text-base text-slate-600'' @ [CHR 0x22] @ ''>'',
      ''          This is a fresh Bun + React + Tailwind app. Build something great.'',
      ''        </p>'',
      ''      </div>'',
      ''    </main>'',
      ''  );'',
      [CHR 0x7D]]"

definition app_candidates :: "string \<Rightarrow> string list" where
  "app_candidates target = map (\<lambda>n. join_names target [''src'', n]) [''App.tsx'', ''App.jsx'', ''app.tsx'', ''app.jsx'']"

definition update_web_app_content :: "string \<Rightarrow> tree \<Rightarrow> init_error option \<times> tree" where
  "update_web_app_content target t = (case find (\<lambda>p. exists_file p t) (app_candidates target) of
     None \<Rightarrow> (Some (Failure ''Unable to locate App component to update.''), t)
   | Some p \<Rightarrow> (None, write_file p web_app_text t))"

text \<open>The copy of a directory: the directories in it, and the files, as they are before it.\<close>

definition copy_template_dir :: "string \<Rightarrow> string \<Rightarrow> tree \<Rightarrow> tree" where
  "copy_template_dir source target t =
     (let below = (\<lambda>p. starts_with (source @ ''/'') p); moved = (\<lambda>p. target @ drop (length source) p)
      in fold (\<lambda>(p, x). write_file (moved p) x) (filter (\<lambda>(p, x). below p) (t_texts t))
           (fold ensure_dir (target # map moved (filter below (t_dirs t))) t))"

definition apply_web_template_tests :: "string \<Rightarrow> string \<Rightarrow> tree \<Rightarrow> init_error option \<times> tree" where
  "apply_web_template_tests root_dir target t =
     (let source = join_names root_dir [''packages'', ''new'', ''templates'', ''web'', ''tests''] in
      (None, if exists_path source t then copy_template_dir source (join_names target [''tests'']) t else t))"

section \<open>The scaffolders\<close>

definition scaffold_web :: "external \<Rightarrow> string \<Rightarrow> bool \<Rightarrow> string \<Rightarrow> bool \<Rightarrow> act" where
  "scaffold_web ext root_dir from_template target install = in_order
     ([on_files (ensure_target_dir target)]
      @ (if from_template then [on_files (ensure_templates root_dir), run_create ext root_dir ''web'' target]
         else [run_command ext [''bun'', ''init'', ''--react=tailwind''] target])
      @ [on_files (update_web_app_content target),
         on_files (apply_web_template_tests root_dir target),
         run_qa_init ext root_dir target ''web'' True,
         on_files (update_package_name root_dir target),
         run_command ext [''bun'', ''run'', ''packages/new/scripts/web-postinstall.ts'', ''--dir'', relative_path root_dir target] root_dir]
      @ (if install then [run_workspace_install ext root_dir] else []))"

definition scaffold_api :: "external \<Rightarrow> string \<Rightarrow> string \<Rightarrow> bool \<Rightarrow> act" where
  "scaffold_api ext root_dir target install = in_order
     ([on_files (ensure_target_dir target),
       on_files (ensure_templates root_dir),
       run_create ext root_dir ''api'' target,
       run_qa_init ext root_dir target ''lib'' False,
       on_files (update_package_name root_dir target)]
      @ (if install then [run_workspace_install ext root_dir] else []))"

definition scaffold_cli :: "external \<Rightarrow> string \<Rightarrow> string \<Rightarrow> bool \<Rightarrow> tui_option option \<Rightarrow> act" where
  "scaffold_cli ext root_dir target install tui = in_order
     ([on_files (ensure_target_dir target),
       on_files (ensure_templates root_dir),
       run_create ext root_dir ''cli'' target,
       run_qa_init ext root_dir target ''cli'' False,
       on_files (update_package_name root_dir target)]
      @ (case tui of None \<Rightarrow> [] | Some u \<Rightarrow> [apply_ink_tui target u])
      @ (if install then [run_workspace_install ext root_dir] else []))"

definition scaffold_lib :: "external \<Rightarrow> string \<Rightarrow> string \<Rightarrow> bool \<Rightarrow> act" where
  "scaffold_lib ext root_dir target install = in_order
     ([on_files (ensure_target_dir target),
       on_files (ensure_templates root_dir),
       run_create ext root_dir ''lib'' target,
       run_qa_init ext root_dir target ''lib'' False,
       on_files (update_package_name root_dir target)]
      @ (if install then [run_workspace_install ext root_dir] else []))"

definition scaffold_ui :: "external \<Rightarrow> string \<Rightarrow> string \<Rightarrow> bool \<Rightarrow> act" where
  "scaffold_ui ext root_dir target install = in_order
     ([on_files (ensure_target_dir target),
       on_files (ensure_templates root_dir),
       run_create ext root_dir ''ui'' target,
       run_qa_init ext root_dir target ''lib'' True,
       on_files (update_package_name root_dir target)]
      @ (if install then [run_workspace_install ext root_dir] else []))"

definition scaffold :: "external \<Rightarrow> string \<Rightarrow> bool \<Rightarrow> app_type \<Rightarrow> string \<Rightarrow> new_options \<Rightarrow> act" where
  "scaffold ext root_dir from_template a target opts = (case a of
     WebApp \<Rightarrow> scaffold_web ext root_dir from_template target (installs opts)
   | ApiApp \<Rightarrow> scaffold_api ext root_dir target (installs opts)
   | CliApp \<Rightarrow> scaffold_cli ext root_dir target (installs opts) (no_tui opts)
   | LibApp \<Rightarrow> scaffold_lib ext root_dir target (installs opts)
   | UiApp \<Rightarrow> scaffold_ui ext root_dir target (installs opts))"

text \<open>\<open>bun new\<close>: without a type the usage is printed and the exit code is 1.\<close>

definition new_target :: "string \<Rightarrow> string list \<Rightarrow> init_error + app_type \<times> new_options \<times> string" where
  "new_target root_dir args = (let type_arg = (case args of [] \<Rightarrow> [] | a # _ \<Rightarrow> a) in
     if type_arg = [] then Inl (Failure ''Usage'')
     else case find (\<lambda>a. app_name a = type_arg) app_types of
       None \<Rightarrow> Inl (Failure (''Unsupported type: '' @ type_arg))
     | Some a \<Rightarrow> (case parse_new_args (tl args) begin_options of Inl e \<Rightarrow> Inl e
       | Inr opts \<Rightarrow> (case resolve_target root_dir (case no_positional opts of [] \<Rightarrow> app_name a | n # _ \<Rightarrow> n) (default_root a) of Inl e \<Rightarrow> Inl e
       | Inr target \<Rightarrow> if a \<noteq> CliApp \<and> no_tui opts \<noteq> None then Inl (Failure ''--tui is only supported for `bun new cli`'')
           else Inr (a, opts, target))))"

definition new_main :: "external \<Rightarrow> string \<Rightarrow> bool \<Rightarrow> string list \<Rightarrow> shop \<Rightarrow> (init_error + string) \<times> shop" where
  "new_main ext root_dir from_template args s = (case new_target root_dir args of
     Inl e \<Rightarrow> (Inl e, s)
   | Inr (a, opts, target) \<Rightarrow> (case scaffold ext root_dir from_template a target opts s of
       (Some e, s') \<Rightarrow> (Inl e, s')
     | (None, s') \<Rightarrow> (Inr (''Created '' @ app_name a @ '' app at '' @ target), s')))"

section \<open>Nothing outside the repository\<close>

theorem target_inside_repo:
  assumes "resolve_target (path_of_parts rs) name parent = Inr p" and root: "rs \<noteq> []" "list_all clean_part rs"
  shows "\<exists>ps. ps \<noteq> [] \<and> list_all clean_part ps \<and> p = path_of_parts (rs @ ps)"
proof -
  have "\<exists>dir ns. p = join_names dir ns" and below: "starts_with (with_slash (path_of_parts rs)) p"
    using assms(1) by (auto simp: resolve_target_def resolve_from_def Let_def split: if_splits)
  then obtain qs where qs: "list_all clean_part qs" "p = path_of_parts qs" using join_names_clean by metis
  have "qs \<noteq> []"
  proof
    assume "qs = []"
    then have "length (path_of_parts rs @ ''/'') \<le> length (path_of_parts [])"
      using below root qs by (metis starts_with_def with_slash_of length_take min.cobounded1)
    then show False by (simp add: path_of_parts_def)
  qed
  with below_parts [OF root(2) qs(1)] below qs(2) show ?thesis by auto
qed

lemma target_inside_repo_witness:
  "\<exists>ps. ps \<noteq> [] \<and> list_all clean_part ps \<and> ''/repo/packages/ui/kit'' = path_of_parts ([''repo''] @ ps)"
proof -
  have "resolve_target (path_of_parts [''repo'']) ''packages/x/../ui/kit'' ''apps'' = Inr ''/repo/packages/ui/kit''" by code_simp
  then show ?thesis by (rule target_inside_repo) (simp_all add: clean_part_def)
qed

lemma target_outside_refused:
  "resolve_target ''/repo'' ''../other'' ''apps'' = Inl (Failure ''Target path must be inside repo root: /repo'')"
  "resolve_target ''/repo'' ''..'' ''apps'' = Inl (Failure ''Target path must be inside repo root: /repo'')"
  by code_simp+

text \<open>A step that leaves a file alone.\<close>

definition keeps :: "string \<Rightarrow> act \<Rightarrow> bool" where
  "keeps p a \<longleftrightarrow> (\<forall>s. t_files (sh_tree (snd (a s))) p = t_files (sh_tree s) p)"

lemma keeps_in_order: "list_all (keeps p) as \<Longrightarrow> keeps p (in_order as)"
proof (induction as)
  case (Cons a as)
  show ?case unfolding keeps_def
  proof
    fix s
    obtain e s' where a: "a s = (e, s')" by fastforce
    with Cons have "t_files (sh_tree s') p = t_files (sh_tree s) p" by (auto simp: keeps_def dest: spec [of _ s])
    with Cons a show "t_files (sh_tree (snd (in_order (a # as) s))) p = t_files (sh_tree s) p"
      by (cases e) (auto simp: keeps_def)
  qed
qed (simp add: keeps_def)

lemma keeps_files: "(\<And>t. t_files (snd (f t)) p = t_files t p) \<Longrightarrow> keeps p (on_files f)"
  by (auto simp: keeps_def on_files_def split: prod.split) (metis snd_conv)

lemma keeps_command: "(\<And>argv cwd t. t_files (snd (ext argv cwd t)) p = t_files t p) \<Longrightarrow> keeps p (run_command ext argv cwd)"
  by (auto simp: keeps_def run_command_def split: prod.split) (metis snd_conv)

lemma keeps_below:
  assumes "list_all clean_part xs" "list_all clean_part ns" "ns \<noteq> []" "\<not> starts_with (path_of_parts xs @ ''/'') p" "xs \<noteq> []"
  shows "p \<noteq> join_names (path_of_parts xs) ns"
proof
  assume "p = join_names (path_of_parts xs) ns"
  then have "p = path_of_parts xs @ CHR ''/'' # join_with ''/'' ns" using assms by (simp add: join_clean path_of_append)
  then show False using assms(4) by (simp add: starts_with_def)
qed

text \<open>The files that \<open>p\<close> is not: those below the directory of the new package.\<close>

definition outside :: "string \<Rightarrow> string list \<Rightarrow> bool" where
  "outside p xs \<longleftrightarrow> list_all clean_part xs \<and> xs \<noteq> [] \<and> \<not> starts_with (path_of_parts xs @ ''/'') p"

lemma outside_below: "outside p xs \<Longrightarrow> list_all clean_part ns \<Longrightarrow> ns \<noteq> [] \<Longrightarrow> p \<noteq> join_names (path_of_parts xs) ns"
  using keeps_below by (simp add: outside_def)

lemma file_names:
  "list_all clean_part [''package.json'']" "list_all clean_part [''tsconfig.json'']" "list_all clean_part [''src'', ''tui.tsx'']"
  "list_all clean_part [''src'', ''index.ts'']" "list_all clean_part [''tests'', ''cli.test.ts'']" "list_all clean_part [''tests'']"
  "list_all clean_part [''src'', ''App.tsx'']" "list_all clean_part [''src'', ''App.jsx'']"
  "list_all clean_part [''src'', ''app.tsx'']" "list_all clean_part [''src'', ''app.jsx'']"
  by (simp_all add: clean_part_def)

lemma package_name_keeps: "outside p xs \<Longrightarrow> keeps p (on_files (update_package_name root_dir (path_of_parts xs)))"
  using outside_below [OF _ file_names(1)]
  by (intro keeps_files) (auto simp: update_package_name_def Let_def write_json_def split: sum.split)

lemma rewrite_keeps: "p \<noteq> q \<Longrightarrow> keeps p (on_files (rewrite_json q f))"
  by (intro keeps_files) (auto simp: rewrite_json_def write_json_def split: sum.split)

lemma replace_keeps: "p \<noteq> q \<Longrightarrow> keeps p (on_files (replace_file q x))"
  by (intro keeps_files) (auto simp: replace_file_def)

lemma ink_keeps: "outside p xs \<Longrightarrow> keeps p (apply_ink_tui (path_of_parts xs) tui)"
  unfolding apply_ink_tui_def ensure_ink_deps_def ensure_tsconfig_for_ink_def write_ink_entrypoint_def write_ink_tests_def
proof (rule keeps_in_order)
  assume p: "outside p xs"
  have "keeps p (on_files (write_ink_files (path_of_parts xs) tui))"
    by (rule keeps_files) (simp add: write_ink_files_def outside_below [OF p file_names(3)])
  then show "list_all (keeps p)
     [on_files (rewrite_json (join_names (path_of_parts xs) [''package.json'']) (with_ink_deps tui)),
      on_files (rewrite_json (join_names (path_of_parts xs) [''tsconfig.json'']) with_ink_jsx),
      on_files (write_ink_files (path_of_parts xs) tui),
      on_files (replace_file (join_names (path_of_parts xs) [''src'', ''index.ts'']) ink_entrypoint_text),
      on_files (replace_file (join_names (path_of_parts xs) [''tests'', ''cli.test.ts'']) ink_tests_text)]"
    using outside_below [OF p] file_names by (simp add: rewrite_keeps replace_keeps)
qed

lemma app_content_keeps: "outside p xs \<Longrightarrow> keeps p (on_files (update_web_app_content (path_of_parts xs)))"
  using outside_below [of p xs] file_names
  by (intro keeps_files) (auto simp: update_web_app_content_def app_candidates_def split: option.split dest!: find_found)

lemma copy_keeps:
  assumes "outside p xs"
  shows "keeps p (on_files (apply_web_template_tests root_dir (path_of_parts xs)))"
proof (rule keeps_files)
  fix t
  define source where "source = join_names root_dir [''packages'', ''new'', ''templates'', ''web'', ''tests'']"
  define target where "target = join_names (path_of_parts xs) [''tests'']"
  have "target = path_of_parts xs @ ''/tests''"
    using assms by (simp add: target_def join_clean [OF _ file_names(6)] outside_def path_of_append)
  then have moved: "p \<noteq> target @ drop (length source) q" if "starts_with (source @ ''/'') q" for q
    using assms by (auto simp: outside_def starts_with_def)
  have dirs: "t_files (fold ensure_dir ds u) = t_files u" for ds u by (induction ds arbitrary: u) simp_all
  have "t_files (fold (\<lambda>(q, x). write_file (target @ drop (length source) q) x) fs u) p = t_files u p"
    if "\<forall>(q, x)\<in>set fs. starts_with (source @ ''/'') q" for fs u
    using that by (induction fs arbitrary: u) (auto simp: moved)
  then have "t_files (copy_template_dir source target t) p = t_files t p"
    by (simp add: copy_template_dir_def Let_def dirs)
  then show "t_files (snd (apply_web_template_tests root_dir (path_of_parts xs) t)) p = t_files t p"
    by (simp add: apply_web_template_tests_def source_def target_def Let_def)
qed

lemma scaffold_keeps:
  assumes "outside p xs" and ext: "\<And>argv cwd t. t_files (snd (ext argv cwd t)) p = t_files t p"
  shows "keeps p (scaffold ext root_dir from_template a (path_of_parts xs) opts)"
proof -
  have first: "keeps p (on_files (ensure_target_dir target))" "keeps p (on_files (ensure_templates root_dir))" for target
    by (auto intro!: keeps_files simp: ensure_target_dir_def ensure_templates_def split: option.split)
  have commands: "keeps p (run_create ext root_dir x target)" "keeps p (run_qa_init ext root_dir target k w)" "keeps p (run_workspace_install ext root_dir)"
    "keeps p (run_command ext argv cwd)" for x target k w argv cwd
    by (simp_all add: run_create_def run_qa_init_def run_workspace_install_def keeps_command ext)
  note steps = first commands package_name_keeps [OF assms(1)] ink_keeps [OF assms(1)] app_content_keeps [OF assms(1)] copy_keeps [OF assms(1)]
  show ?thesis
    by (cases a) (simp_all add: scaffold_def scaffold_web_def scaffold_api_def scaffold_cli_def scaffold_lib_def scaffold_ui_def
      keeps_in_order steps split: option.split)
qed

theorem new_stays_in_repo:
  assumes "new_main ext (path_of_parts rs) from_template args s = (r, s')"
    and root: "rs \<noteq> []" "list_all clean_part rs" and p: "\<not> starts_with (path_of_parts rs @ ''/'') p"
    and ext: "\<And>argv cwd t. t_files (snd (ext argv cwd t)) p = t_files t p"
  shows "t_files (sh_tree s') p = t_files (sh_tree s) p"
proof (cases "new_target (path_of_parts rs) args")
  case (Inl e)
  then show ?thesis using assms(1) by (simp add: new_main_def)
next
  case (Inr x)
  obtain a opts target where x: "x = (a, opts, target)" by (cases x)
  have "\<exists>name. resolve_target (path_of_parts rs) name (default_root a) = Inr target"
    using Inr by (auto simp: new_target_def x Let_def split: if_splits option.splits sum.splits list.splits)
  then obtain ps where ps: "ps \<noteq> []" "list_all clean_part ps" "target = path_of_parts (rs @ ps)"
    using target_inside_repo [OF _ root] by blast
  have "outside p (rs @ ps)" using ps root p by (auto simp: outside_def path_of_append starts_with_iff)
  from scaffold_keeps [OF this ext] have keeps: "keeps p (scaffold ext (path_of_parts rs) from_template a target opts)" by (simp add: ps(3))
  obtain e s2 where run: "scaffold ext (path_of_parts rs) from_template a target opts s = (e, s2)" by fastforce
  then have "s' = s2" using assms(1) by (cases e) (simp_all add: new_main_def Inr x)
  with run keeps show ?thesis by (auto simp: keeps_def dest: spec [of _ s])
qed

section \<open>The commands and their order\<close>

text \<open>A step starts some of these commands, in order, and all of them unless it fails.\<close>

definition issues :: "act \<Rightarrow> (string list \<times> string) list \<Rightarrow> bool" where
  "issues a cs \<longleftrightarrow> (\<forall>s. \<exists>n\<le>length cs. sh_commands (snd (a s)) = sh_commands s @ take n cs \<and> (fst (a s) = None \<longrightarrow> n = length cs))"

lemma issues_files: "issues (on_files f) []"
  by (auto simp: issues_def on_files_def split: prod.split)

lemma issues_command: "issues (run_command ext argv cwd) [(argv, cwd)]"
  by (auto simp: issues_def run_command_def split: prod.split intro!: exI [of _ 1])

lemma issues_then:
  assumes "issues a cs" "issues (in_order as) ds"
  shows "issues (in_order (a # as)) (cs @ ds)"
  unfolding issues_def
proof
  fix s
  obtain e s1 where a: "a s = (e, s1)" by fastforce
  obtain n where n: "n \<le> length cs" "sh_commands s1 = sh_commands s @ take n cs" "e = None \<longrightarrow> n = length cs"
    using assms(1) a unfolding issues_def by (metis fst_conv snd_conv)
  show "\<exists>n\<le>length (cs @ ds). sh_commands (snd (in_order (a # as) s)) = sh_commands s @ take n (cs @ ds) \<and>
      (fst (in_order (a # as) s) = None \<longrightarrow> n = length (cs @ ds))"
  proof (cases e)
    case None
    obtain m where m: "m \<le> length ds" "sh_commands (snd (in_order as s1)) = sh_commands s1 @ take m ds" "fst (in_order as s1) = None \<longrightarrow> m = length ds"
      using assms(2) by (auto simp: issues_def)
    with a n None show ?thesis by (intro exI [of _ "length cs + m"]) simp
  next
    case (Some x)
    with a n show ?thesis by (intro exI [of _ n]) simp
  qed
qed

lemma issues_in_order: "list_all2 issues as css \<Longrightarrow> issues (in_order as) (concat css)"
proof (induction as css rule: list_all2_induct)
  case (Cons a as cs css)
  then show ?case using issues_then by (simp del: in_order.simps)
qed (simp add: issues_def)

definition create_commands :: "string \<Rightarrow> bool \<Rightarrow> app_type \<Rightarrow> string \<Rightarrow> (string list \<times> string) list" where
  "create_commands root_dir from_template a target =
     (if a = WebApp \<and> \<not> from_template then [([''bun'', ''init'', ''--react=tailwind''], target)]
      else [([''bun'', ''create'', app_name a, relative_path root_dir target, ''--no-install'', ''--no-git''], root_dir)])"

definition qa_command :: "string \<Rightarrow> app_type \<Rightarrow> string \<Rightarrow> string list" where
  "qa_command root_dir a target = [''bun'', ''run'', ''--cwd'', join_names root_dir [''packages'', ''qa''], ''qa:init'']
     @ init_args target (if a = WebApp then ''web'' else if a = CliApp then ''cli'' else ''lib'') (a = WebApp \<or> a = UiApp)"

definition all_commands :: "string \<Rightarrow> bool \<Rightarrow> app_type \<Rightarrow> string \<Rightarrow> bool \<Rightarrow> (string list \<times> string) list" where
  "all_commands root_dir from_template a target install =
     create_commands root_dir from_template a target @ [(qa_command root_dir a target, root_dir)]
     @ (if a = WebApp then [([''bun'', ''run'', ''packages/new/scripts/web-postinstall.ts'', ''--dir'', relative_path root_dir target], root_dir)] else [])
     @ (if install then [([''bun'', ''install''], root_dir)] else [])"

lemma issues_ink: "issues (apply_ink_tui target tui) []"
proof -
  have "list_all2 issues [on_files a, on_files b, on_files c, on_files d, on_files e] [[], [], [], [], []]" for a b c d e
    by (simp add: issues_files)
  from issues_in_order [OF this] show ?thesis by (simp add: apply_ink_tui_def)
qed

theorem commands_in_order:
  assumes "scaffold ext root_dir from_template a target opts s = (e, s')"
  shows "\<exists>n. sh_commands s' = sh_commands s @ take n (all_commands root_dir from_template a target (installs opts)) \<and>
    (e = None \<longrightarrow> n = length (all_commands root_dir from_template a target (installs opts)))"
proof -
  have via: "issues (scaffold ext root_dir from_template a target opts) (concat css)"
    if "scaffold ext root_dir from_template a target opts = in_order as" "list_all2 issues as css" for as css
    using that issues_in_order by simp
  note defs = scaffold_def scaffold_web_def scaffold_api_def scaffold_cli_def scaffold_lib_def scaffold_ui_def
  note commands = run_create_def run_qa_init_def run_workspace_install_def issues_files issues_command issues_ink
  let ?post = "if installs opts then [[([''bun'', ''install''], root_dir)]] else []"
  have "issues (scaffold ext root_dir from_template a target opts)
      (concat ([[]] @ (if a = WebApp \<and> \<not> from_template then [] else [[]]) @ [create_commands root_dir from_template a target]
        @ (if a = WebApp then [[], []] else []) @ [[(qa_command root_dir a target, root_dir)], []]
        @ (if a = WebApp then [[([''bun'', ''run'', ''packages/new/scripts/web-postinstall.ts'', ''--dir'', relative_path root_dir target], root_dir)]] else [])
        @ (if a = CliApp \<and> no_tui opts \<noteq> None then [[]] else []) @ ?post))"
    by (cases a; cases "no_tui opts"; cases from_template; cases "installs opts"; 
      (rule via, simp add: defs, simp add: commands create_commands_def qa_command_def app_name_def))
  then have "issues (scaffold ext root_dir from_template a target opts) (all_commands root_dir from_template a target (installs opts))"
    by (simp add: all_commands_def split: if_splits)
  then show ?thesis using assms unfolding issues_def by (metis fst_conv snd_conv)
qed

theorem full_directory_left_alone:
  assumes "exists_path target (sh_tree s)" "\<not> exists_file (join_names target []) (sh_tree s)" "has_entries (join_names target []) (sh_tree s)"
  shows "scaffold ext root_dir from_template a target opts s = (Some (Failure (''Target directory is not empty: '' @ target)), s)"
proof -
  have "on_files (ensure_target_dir target) s = (Some (Failure (''Target directory is not empty: '' @ target)), s)"
    using assms by (simp add: on_files_def ensure_target_dir_def ensure_empty_dir_def)
  then show ?thesis
    by (cases a) (simp_all add: scaffold_def scaffold_web_def scaffold_api_def scaffold_cli_def scaffold_lib_def scaffold_ui_def)
qed

section \<open>A new library\<close>

text \<open>The script as a command: its exit code tells whether it ended with its message.\<close>

definition qa_as_command :: "string \<Rightarrow> string list \<Rightarrow> tree \<Rightarrow> bool \<times> tree" where
  "qa_as_command root_dir args t = (case qa_main root_dir (qa_cwd root_dir) args t of
     (Inr _, t') \<Rightarrow> (True, t') | (Inl e, t') \<Rightarrow> (e = HelpShown, t'))"

lemma read_json_Fault: "read_json p t = Inl e \<Longrightarrow> e = Fault"
  by (auto simp: read_json_def split: option.splits)

lemma step_json_Fault: "step_json p f t = (Some e, t') \<Longrightarrow> (\<And>v e. f v = Inl e \<Longrightarrow> e = Fault) \<Longrightarrow> e = Fault"
  by (auto simp: step_json_def split: sum.splits dest: read_json_Fault)

lemma apply_qa_Fault: "apply_qa dir force kind tailwind pkg t = (Inl e, t') \<Longrightarrow> e = Fault"
proof -
  have one: "assign k x v = Inl e \<Longrightarrow> e = Fault" for k x v e by (cases v) auto
  have pkg: "ensure_package_json dir pkg kind t = (Inl e, t') \<Longrightarrow> e = Fault" for e t t'
    by (auto simp: ensure_package_json_def with_qa_def split: sum.splits dest: assign_all_Fault)
  have ox: "ensure_oxlint_config dir force t = (Some e, t') \<Longrightarrow> e = Fault" for e t t'
    by (auto simp: ensure_oxlint_config_def Let_def updated_oxlint_def split: if_splits dest: assign_all_Fault elim!: step_json_Fault)
  have ts: "ensure_tsconfig dir kind p force t = (Some e, t') \<Longrightarrow> e = Fault" for e t t' p
    by (auto simp: ensure_tsconfig_def Let_def updated_tsconfig_def split: if_splits dest: one elim!: step_json_Fault)
  assume "apply_qa dir force kind tailwind pkg t = (Inl e, t')"
  then show ?thesis
    by (auto simp: apply_qa_def split: prod.splits sum.splits option.splits dest: pkg ox ts)
qed

lemma qa_run_no_help: "qa_run dir force kind tailwind t \<noteq> (Inl HelpShown, t')"
  using apply_qa_Fault [of dir force _ _ _ _ HelpShown t']
  by (auto simp: qa_run_def get_package_json_def Let_def split: sum.splits if_splits dest: read_json_Fault)

lemma qa_of_library:
  assumes "qa_as_command root_dir (init_args (path_of_parts ps) ''lib'' False) t = (True, t')"
  shows "\<exists>msg. qa_run (path_of_parts ps) False (Some Library) None t = (Inr msg, t')"
proof -
  have "resolve_dir root_dir (qa_cwd root_dir) \<lparr>io_dir = Some (path_of_parts ps), io_kind = Some Library, io_tailwind = None, io_force = False\<rparr> = Inr (path_of_parts ps)"
    by (simp add: resolve_dir_def Let_def)
  then have main: "qa_main root_dir (qa_cwd root_dir) (init_args (path_of_parts ps) ''lib'' False) t = qa_run (path_of_parts ps) False (Some Library) None t"
    by (simp add: qa_main_def init_args_read [of "''lib''" "Some Library"] kind_of_arg_def)
  show ?thesis using assms qa_run_no_help by (auto simp: qa_as_command_def main split: prod.splits sum.splits)
qed

lemma step_ok: "in_order (a # as) s = (None, s') \<longleftrightarrow> (\<exists>s1. a s = (None, s1) \<and> in_order as s1 = (None, s'))"
  by (cases "a s"; cases "fst (a s)") auto

text \<open>The name of a package below \<open>packages\<close> is that of its path.\<close>

lemma relative_below: "relative_parts as (as @ bs) = bs"
  by (induction as) simp_all

lemma package_name_of_path:
  assumes "list_all clean_part rs" "list_all clean_part ns" "ns \<noteq> []" "list_all (\<lambda>n. CHR 0x5C \<notin> set n) ns"
  shows "resolve_package_name (path_of_parts rs) (path_of_parts (rs @ ''packages'' # ns)) = join_with ''-'' ns"
proof -
  have "clean_part ''packages''" by (simp add: clean_part_def)
  then have rel: "relative_path (path_of_parts rs) (path_of_parts (rs @ ''packages'' # ns)) = ''packages/'' @ join_with ''/'' ns"
    using assms by (simp add: relative_path_def relative_below join_with_Cons)
  have "CHR 0x5C \<notin> set (join_with ''/'' ns)" using assms(4,3)
  proof (induction ns)
    case (Cons n ns)
    then show ?case by (cases "ns = []") (simp_all add: join_with_Cons)
  qed simp
  then have "map (\<lambda>c. if c = CHR 0x5C then CHR ''/'' else c) (join_with ''/'' ns) = join_with ''/'' ns" by (intro map_idI) auto
  then show ?thesis using assms by (simp add: resolve_package_name_def Let_def rel starts_with_def path_parts_join)
qed

lemma strict_of_text: "t_files t p = Some (json_text v) \<Longrightarrow> plain v \<Longrightarrow> read_strict p t = Inr v"
  using file_read_back [of v] by (simp add: read_strict_def printed_text_kept)

text \<open>From the files that \<open>bun create\<close> leaves to those the configuration leaves, and the steps after it: the name, and
  the installation of the workspace unless it is switched off.\<close>

lemma library_configured:
  assumes target: "target = path_of_parts ps"
    and create: "ext (fst (create_commands root_dir from_template LibApp target ! 0)) root_dir (ensure_dir_exists target (sh_tree s)) = (True, t1)"
    and qa: "\<forall>t. ext (qa_command root_dir LibApp target) root_dir t = qa_as_command root_dir (init_args target ''lib'' False) t"
    and run: "scaffold ext root_dir from_template LibApp target opts s = (None, s')"
  obtains msg sd se where "qa_run target False (Some Library) None t1 = (Inr msg, sh_tree sd)"
    "on_files (update_package_name root_dir target) sd = (None, se)"
    "sh_tree s' = (if installs opts then snd (ext [''bun'', ''install''] root_dir (sh_tree se)) else sh_tree se)"
proof -
  obtain sa sb sc sd se where steps: "on_files (ensure_target_dir target) s = (None, sa)" "on_files (ensure_templates root_dir) sa = (None, sb)"
    "run_create ext root_dir ''lib'' target sb = (None, sc)" "run_qa_init ext root_dir target ''lib'' False sc = (None, sd)"
    "on_files (update_package_name root_dir target) sd = (None, se)"
    and rest: "in_order (if installs opts then [run_workspace_install ext root_dir] else []) se = (None, s')"
    using run unfolding scaffold_def scaffold_lib_def app_type.case append_Cons append_Nil step_ok by blast
  have last: "sh_tree s' = (if installs opts then snd (ext [''bun'', ''install''] root_dir (sh_tree se)) else sh_tree se)"
    using rest by (auto simp: step_ok run_workspace_install_def run_command_def split: prod.splits if_splits)
  have "sh_tree sb = ensure_dir_exists target (sh_tree s)" using steps(1,2)
    by (auto simp: on_files_def ensure_target_dir_def ensure_templates_def split: option.splits if_splits)
  then have "sh_tree sc = t1" using steps(3) create
    by (auto simp: run_create_def run_command_def create_commands_def app_name_def)
  moreover have "ext (qa_command root_dir LibApp target) root_dir (sh_tree sc) = (True, sh_tree sd)" using steps(4)
    by (auto simp: run_qa_init_def run_command_def qa_command_def split: prod.splits if_splits)
  ultimately have "qa_as_command root_dir (init_args target ''lib'' False) t1 = (True, sh_tree sd)" using qa by simp
  then obtain msg where "qa_run target False (Some Library) None t1 = (Inr msg, sh_tree sd)"
    using qa_of_library [of root_dir ps] unfolding target by blast
  then show thesis using steps(5) last by (rule that)
qed

text \<open>The package with its name in it.\<close>

lemma name_written:
  assumes root: "root_dir = path_of_parts rs" "list_all clean_part rs" and target: "target = path_of_parts (rs @ ps)" "list_all clean_part ps" "ps \<noteq> []"
    and step: "on_files (update_package_name root_dir target) s = (None, s')"
    and package: "t_files (sh_tree s) (join_names target [''package.json'']) = Some (json_text (JObj m))" "plain (JObj m)"
  obtains project where "resolve_project_name root_dir (sh_tree s') = Inr project"
    "read_strict (join_names target [''package.json'']) (sh_tree s') =
       Inr (JObj (map_set ''name'' (JStr (''@'' @ project @ ''/'' @ resolve_package_name root_dir target)) m))"
proof -
  let ?p = "join_names target [''package.json'']"
  have strict: "read_strict ?p (sh_tree s) = Inr (JObj m)" using package by (rule strict_of_text)
  obtain project where project: "resolve_project_name root_dir (sh_tree s) = Inr project"
    using step package by (auto simp: on_files_def update_package_name_def Let_def strict exists_file_def split: sum.splits)
  define v where "v = JObj (map_set ''name'' (JStr (''@'' @ project @ ''/'' @ resolve_package_name root_dir target)) m)"
  have s': "sh_tree s' = write_json ?p v (sh_tree s)"
    using step package by (auto simp: on_files_def update_package_name_def Let_def strict project v_def exists_file_def)
  have "plain v" unfolding v_def using package(2) by (rule plain_set) simp
  then have read: "read_strict ?p (sh_tree s') = Inr v" by (intro strict_of_text) (simp_all add: s' write_json_def)
  have "clean_part ''package.json''" by (simp add: clean_part_def)
  then have "join_names root_dir [''package.json''] \<noteq> ?p"
    using root(2) target(2,3) path_of_inj [of "rs @ [''package.json'']" "rs @ ps @ [''package.json'']"]
    by (auto simp: root(1) target(1) join_clean)
  then have "resolve_project_name root_dir (sh_tree s') = resolve_project_name root_dir (sh_tree s)"
    by (simp add: resolve_project_name_def Let_def exists_file_def read_strict_def s' write_json_def)
  with read project that show thesis by (simp add: v_def)
qed


section \<open>A terminal interface, twice\<close>

lemma assign_each_Inr:
  assumes "assign_each kxs v = Inr w" "distinct (map fst kxs)"
  shows "field w j = (case map_get kxs j of None \<Rightarrow> field v j | Some x \<Rightarrow> if is_record v then nn (field v j) (JStr x) else field v j)"
  using assms
proof (induction kxs arbitrary: v)
  case (Cons p kxs)
  obtain k x where p: "p = (k, x)" by (cases p)
  obtain u where u: "assign k (nn (field v k) (JStr x)) v = Inr u" "assign_each kxs u = Inr w"
    using Cons(2) by (auto simp: p assign_missing_def split: sum.splits)
  then have "(\<exists>m. v = JObj m \<and> u = JObj (map_set k (nn (field v k) (JStr x)) m)) \<or> (\<exists>vs. v = JArr vs \<and> u = JArr vs)"
    by (cases v) auto
  moreover have "map_get kxs k = None" using Cons(3) by (simp add: p map_of_eq_None_iff)
  ultimately show ?case using Cons(1) [OF u(2)] Cons(3) by (auto simp: p split: option.split)
qed simp

text \<open>Versions that are there stay, and what is missing is there afterwards.\<close>

theorem ink_versions:
  assumes "with_ink_deps tui pkg = Inr new" "is_record pkg" "is_record (deps_of pkg ''dependencies'')" "is_record (deps_of pkg ''devDependencies'')"
  shows "field (field new ''dependencies'') k = (case map_get (ink_deps tui) k of
      None \<Rightarrow> field (field pkg ''dependencies'') k | Some x \<Rightarrow> nn (field (field pkg ''dependencies'') k) (JStr x))"
    and "field (field new ''devDependencies'') k = (if k = ''@types/react''
      then nn (field (field pkg ''devDependencies'') k) (JStr ''^18.2.0'') else field (field pkg ''devDependencies'') k)"
    and "k \<noteq> ''dependencies'' \<Longrightarrow> k \<noteq> ''devDependencies'' \<Longrightarrow> field new k = field pkg k"
proof -
  have member: "field (deps_of pkg j) n = field (field pkg j) n" for j n by (cases "field pkg j") (simp_all add: deps_of_def nn_def)
  obtain m where m: "pkg = JObj m" using assms(2) by (cases pkg) auto
  obtain d e where d: "assign_each (ink_deps tui) (deps_of pkg ''dependencies'') = Inr d"
      "assign_each [(''@types/react'', ''^18.2.0'')] (deps_of pkg ''devDependencies'') = Inr e"
      "new = JObj (map_set ''devDependencies'' e (map_set ''dependencies'' d m))"
    using assms(1) unfolding with_ink_deps_def m by (auto simp: assign_all_obj set_all_def split: sum.splits)
  have "distinct (map fst (ink_deps tui))" by (simp add: ink_deps_def)
  with assign_each_Inr [OF d(1)] assign_each_Inr [OF d(2)] assms(3,4)
  show "field (field new ''dependencies'') k = (case map_get (ink_deps tui) k of
      None \<Rightarrow> field (field pkg ''dependencies'') k | Some x \<Rightarrow> nn (field (field pkg ''dependencies'') k) (JStr x))"
    "field (field new ''devDependencies'') k = (if k = ''@types/react''
      then nn (field (field pkg ''devDependencies'') k) (JStr ''^18.2.0'') else field (field pkg ''devDependencies'') k)"
    "k \<noteq> ''dependencies'' \<Longrightarrow> k \<noteq> ''devDependencies'' \<Longrightarrow> field new k = field pkg k"
    by (auto simp: d(3) m member [unfolded m] split: option.split)
qed

section \<open>The arguments, read\<close>

text \<open>A name behind the flag is read as its value, and refused.\<close>

lemma name_after_tui:
  "new_target ''/repo'' [''cli'', ''--tui'', ''my-app''] = Inl (Failure ''Invalid --tui value: my-app'')"
  "new_target ''/repo'' [''cli'', ''my-app'', ''--tui''] = Inr (CliApp, \<lparr>installs = True, no_tui = Some Ink, no_positional = [''my-app'']\<rparr>, ''/repo/packages/my-app'')"
  by code_simp+

section \<open>At work\<close>

definition demo_package :: jsval where
  "demo_package = JObj [(''name'', JStr ''lib''), (''scripts'', JObj [(''test'', JStr ''bun test'')])]"

definition kit_path :: string where
  "kit_path = ''/repo/packages/kit''"

definition demo_external :: external where
  "demo_external argv cwd t =
     (if argv = [''bun'', ''create'', ''lib'', ''packages/kit'', ''--no-install'', ''--no-git'']
      then (True, write_file ''/repo/packages/kit/package.json'' (json_text demo_package) t)
      else if argv = qa_command ''/repo'' LibApp kit_path then qa_as_command ''/repo'' (init_args kit_path ''lib'' False) t
      else (True, t))"

definition demo_shop :: shop where
  "demo_shop = \<lparr>sh_tree = \<lparr>t_texts = [(''/repo/package.json'', json_text (JObj [(''name'', JStr ''@acme/tools'')]))],
     t_dirs = [''/'', ''/repo'', ''/repo/.bun-create'']\<rparr>, sh_commands = []\<rparr>"

definition demo_options :: new_options where
  "demo_options = \<lparr>installs = False, no_tui = None, no_positional = [''kit'']\<rparr>"

lemma demo_scaffolds: "scaffold demo_external ''/repo'' True LibApp kit_path demo_options demo_shop =
    (None, snd (scaffold demo_external ''/repo'' True LibApp kit_path demo_options demo_shop))"
proof -
  have "fst (scaffold demo_external ''/repo'' True LibApp kit_path demo_options demo_shop) = None" by code_simp
  then show ?thesis by (metis prod.collapse)
qed

lemma commands_in_order_witness:
  "sh_commands (snd (scaffold demo_external ''/repo'' True LibApp kit_path demo_options demo_shop)) = all_commands ''/repo'' True LibApp kit_path False"
  using commands_in_order [OF demo_scaffolds] by (auto simp: demo_shop_def demo_options_def)

lemma full_directory_left_alone_witness:
  "scaffold demo_external ''/'' True LibApp ''/repo'' demo_options demo_shop = (Some (Failure ''Target directory is not empty: /repo''), demo_shop)"
proof -
  have "exists_path ''/repo'' (sh_tree demo_shop)" "\<not> exists_file (join_names ''/repo'' []) (sh_tree demo_shop)"
    "has_entries (join_names ''/repo'' []) (sh_tree demo_shop)"
    by code_simp+
  from full_directory_left_alone [OF this, of demo_external "''/''" True LibApp demo_options] show ?thesis by simp
qed

lemma new_stays_in_repo_witness:
  "t_files (sh_tree (snd (new_main (\<lambda>argv cwd t. (True, t)) ''/repo'' True [''lib'', ''../../etc/kit''] demo_shop))) ''/etc/hosts'' = None"
proof -
  have repo: "''/repo'' = path_of_parts [''repo'']" by code_simp
  have none: "t_files (sh_tree demo_shop) ''/etc/hosts'' = None" by code_simp
  have clean: "list_all clean_part [''repo'']" by (simp add: clean_part_def)
  have out: "\<not> starts_with (path_of_parts [''repo''] @ ''/'') ''/etc/hosts''" by code_simp
  show ?thesis unfolding repo
    by (rule trans [OF new_stays_in_repo [OF surjective_pairing _ clean out] none]) simp_all
qed


lemma ink_versions_witness:
  "\<exists>new. with_ink_deps Fullscreen (JObj [(''dependencies'', JObj [(''react'', JStr ''19.0.0'')])]) = Inr new \<and>
    field (field new ''dependencies'') ''react'' = JStr ''19.0.0'' \<and> field (field new ''dependencies'') ''ink'' = JStr ''5.2.1''"
proof -
  define pkg where "pkg = JObj [(''dependencies'', JObj [(''react'', JStr ''19.0.0'')])]"
  have "is_record pkg" "is_record (deps_of pkg ''dependencies'')" "is_record (deps_of pkg ''devDependencies'')"
    by (simp_all add: pkg_def deps_of_def nn_def)
  moreover have "\<exists>new. with_ink_deps Fullscreen pkg = Inr new"
    by (simp add: pkg_def with_ink_deps_def ink_deps_def deps_of_def nn_def assign_missing_def assign_all_def)
  ultimately obtain new where new: "with_ink_deps Fullscreen pkg = Inr new"
    "field (field new ''dependencies'') k = (case map_get (ink_deps Fullscreen) k of
      None \<Rightarrow> field (field pkg ''dependencies'') k | Some x \<Rightarrow> nn (field (field pkg ''dependencies'') k) (JStr x))" for k
    using ink_versions(1) by metis
  have "field (field new ''dependencies'') ''react'' = JStr ''19.0.0''" "field (field new ''dependencies'') ''ink'' = JStr ''5.2.1''"
    unfolding new(2) by (simp_all add: ink_deps_def pkg_def nn_def)
  with new(1) show ?thesis by (auto simp: pkg_def)
qed

end
