(* ===== verification/WebSetup.thy ===== *)
theory WebSetup
  imports Scaffold
begin

text \<open>
  What is done to a fresh web app, \<open>packages/new/scripts/web-postinstall.ts\<close>: the view is replaced, the
  helper that serves with a control socket is copied, and the index is rewritten to use it. A regular
  expression is a list of items that are matched in turn: none of the expressions of the script can
  match in another way than greedily, as no item begins with what the run before it takes.
\<close>

section \<open>Arguments\<close>

fun parse_dir_args :: "string list \<Rightarrow> string option \<Rightarrow> string option" where
  "parse_dir_args [] dir = dir"
| "parse_dir_args (arg # rest) dir =
     (if arg = ''--dir'' then (case rest of [] \<Rightarrow> None | d # left \<Rightarrow> parse_dir_args left (Some d))
      else parse_dir_args rest (if arg \<noteq> [] \<and> \<not> starts_with ''-'' arg \<and> falsy_arg dir then Some arg else dir))"

definition setup_dir :: "string \<Rightarrow> string list \<Rightarrow> init_error + string" where
  "setup_dir root_dir args = (let dir = parse_dir_args args None in
     if falsy_arg dir then Inl (Failure ''Missing --dir'') else Inr (resolve_from root_dir (or_else dir [])))"

section \<open>Expressions\<close>

datatype item = Lit string | Spaces | Spaces1 | Maybe char | OneOf "char list"

fun match_here :: "item list \<Rightarrow> string \<Rightarrow> string option" where
  "match_here [] s = Some s"
| "match_here (Lit l # is) s = (if starts_with l s then match_here is (drop (length l) s) else None)"
| "match_here (Spaces # is) s = match_here is (dropWhile is_space s)"
| "match_here (Spaces1 # is) s = (if s \<noteq> [] \<and> is_space (hd s) then match_here is (dropWhile is_space s) else None)"
| "match_here (Maybe c # is) s = match_here is (if s \<noteq> [] \<and> hd s = c then tl s else s)"
| "match_here (OneOf cs # is) s = (if s \<noteq> [] \<and> hd s \<in> set cs then match_here is (tl s) else None)"

text \<open>The first match: what is before it and what is after it.\<close>

fun first_match :: "item list \<Rightarrow> string \<Rightarrow> (string \<times> string) option" where
  "first_match is s = (case match_here is s of
     Some r \<Rightarrow> Some ([], r)
   | None \<Rightarrow> (case s of [] \<Rightarrow> None | c # t \<Rightarrow> map_option (\<lambda>(b, r). (c # b, r)) (first_match is t)))"

declare first_match.simps [simp del]

definition matches :: "item list \<Rightarrow> string \<Rightarrow> bool" where
  "matches is s \<longleftrightarrow> first_match is s \<noteq> None"

definition replace_match :: "item list \<Rightarrow> string \<Rightarrow> string \<Rightarrow> string" where
  "replace_match is new s = (case first_match is s of None \<Rightarrow> s | Some (b, r) \<Rightarrow> b @ new @ r)"

text \<open>\<open>/serve\s*\(\s*\{/\<close>, the import of \<open>serve\<close> from \<open>bun\<close>, and the constant that is the server.\<close>

definition serve_call :: "item list" where
  "serve_call = [Lit ''serve'', Spaces, Lit ''('', Spaces, Lit [CHR 0x7B]]"

definition serve_import :: "item list" where
  "serve_import = [Lit ''import'', Spaces1, Lit [CHR 0x7B], Spaces, Lit ''serve'', Spaces, Lit [CHR 0x7D], Spaces1, Lit ''from'', Spaces1,
     OneOf [CHR 0x27, CHR 0x22], Lit ''bun'', OneOf [CHR 0x27, CHR 0x22], Spaces, Maybe CHR '';'', Maybe CHR 0x0A]"

definition server_constant :: "item list" where
  "server_constant = [Lit ''const'', Spaces1, Lit ''server'', Spaces, Lit ''='', Spaces] @ serve_call"

section \<open>The index\<close>

definition is_module_project :: "string \<Rightarrow> tree \<Rightarrow> bool" where
  "is_module_project dir t = (case Option.bind (t_files t (join_names dir [''package.json''])) json_parse of
     None \<Rightarrow> False | Some pkg \<Rightarrow> field pkg ''type'' = JStr ''module'')"

text \<open>The lines up to the last import, and those after it.\<close>

definition is_import :: "string \<Rightarrow> bool" where
  "is_import l \<longleftrightarrow> starts_with ''import '' (trim l)"

definition head_length :: "string list \<Rightarrow> nat" where
  "head_length ls = length ls - length (takeWhile (\<lambda>l. \<not> is_import l) (rev ls))"

definition file_lines :: "string \<Rightarrow> string list" where
  "file_lines s = split_on CHR 0x0A s"

definition joined :: "string list \<Rightarrow> string" where
  "joined ls = join_with [CHR 0x0A] ls"

definition iife_end :: "string list" where
  "iife_end = [[CHR 0x7D] @ '')().catch((error) => '' @ [CHR 0x7B],
     ''  console.error(error instanceof Error ? error.message : error)'', ''  process.exit(1)'', [CHR 0x7D] @ '')'', []]"

definition wrap_in_async_iife :: "string \<Rightarrow> string" where
  "wrap_in_async_iife contents = (let ls = file_lines contents; n = head_length ls in
     joined (take n ls) @ [CHR 0x0A, CHR 0x0A] @ ''(async () => '' @ [CHR 0x7B, CHR 0x0A]
     @ joined (map (\<lambda>l. ''  '' @ l) (drop n ls)) @ [CHR 0x0A] @ joined iife_end)"

definition sq :: "string \<Rightarrow> string" where
  "sq s = CHR 0x27 # s @ [CHR 0x27]"

definition helper_import :: string where
  "helper_import = ''import '' @ [CHR 0x7B] @ '' serveWithControl '' @ [CHR 0x7D] @ '' from '' @ sq ''./dev/serve-with-control'' @ [CHR 0x0A]"

definition needs_template :: "string \<Rightarrow> bool" where
  "needs_template contents \<longleftrightarrow> (let has = (\<lambda>x. str_includes x contents) in
     (\<not> has ''applySecurityHeaders'' \<and> has ''/api/hello'' \<and> (has ''serve('' \<or> has ''serveWithControl(''))
     \<or> has ''new Response(index'' \<or> (has ''const html = ('' \<and> \<not> has ''const html = async'')
     \<or> has (''import index from '' @ sq ''./index.html'') \<or> has (''import index from '' @ dq ''./index.html''))"

definition with_import :: "string \<Rightarrow> string" where
  "with_import contents = (if matches serve_import contents then replace_match serve_import helper_import contents
     else if \<not> str_includes (''from '' @ sq ''./dev/serve-with-control'') contents then helper_import @ contents else contents)"

definition with_call :: "bool \<Rightarrow> string \<Rightarrow> string" where
  "with_call esm contents =
     (let updated = replace_match server_constant (''const server = await serveWithControl('' @ [CHR 0x7B]) contents
      in if \<not> esm \<and> \<not> str_includes ''(async () =>'' updated then wrap_in_async_iife updated else updated)"

text \<open>\<open>None\<close> leaves the index as it is.\<close>

definition updated_index :: "bool \<Rightarrow> string \<Rightarrow> string option" where
  "updated_index esm contents = (let call = matches serve_call contents in
     if \<not> str_includes ''serveWithControl'' contents \<and> \<not> call then None
     else Some (if call then with_call esm (with_import contents) else with_import contents))"

section \<open>Steps\<close>

definition template_path :: "string \<Rightarrow> string list \<Rightarrow> string" where
  "template_path root_dir ns = join_names root_dir ([''packages'', ''new'', ''templates'', ''web'', ''src''] @ ns)"

definition update_index :: "string \<Rightarrow> string \<Rightarrow> tree \<Rightarrow> init_error option \<times> tree" where
  "update_index root_dir dir t = (let p = join_names dir [''src'', ''index.ts''] in case t_files t p of
     None \<Rightarrow> (None, t)
   | Some contents \<Rightarrow>
       if needs_template contents then (case t_files t (template_path root_dir [''index.ts'']) of
           None \<Rightarrow> (Some Fault, t) | Some x \<Rightarrow> (None, write_file p x t))
       else (case updated_index (is_module_project dir t) contents of None \<Rightarrow> (None, t) | Some x \<Rightarrow> (None, write_file p x t)))"

definition update_app_content :: "string \<Rightarrow> tree \<Rightarrow> init_error option \<times> tree" where
  "update_app_content dir t = (case find (\<lambda>p. exists_file p t) (app_candidates dir) of
     None \<Rightarrow> (None, t) | Some p \<Rightarrow> (None, write_file p web_app_text t))"

definition remove_file :: "string \<Rightarrow> tree \<Rightarrow> tree" where
  "remove_file p t = t\<lparr>t_texts := map_del p (t_texts t)\<rparr>"

definition remove_extras :: "string \<Rightarrow> tree \<Rightarrow> init_error option \<times> tree" where
  "remove_extras dir t = (None, fold (\<lambda>n. remove_file (join_names dir [''src'', n])) [''APITester.tsx'', ''logo.svg'', ''react.svg''] t)"

definition ensure_helper :: "string \<Rightarrow> string \<Rightarrow> tree \<Rightarrow> init_error option \<times> tree" where
  "ensure_helper root_dir dir t = (let p = join_names dir [''src'', ''dev'', ''serve-with-control.ts''] in
     if exists_file p t then (None, t)
     else let t1 = ensure_dir (join_names dir [''src'', ''dev'']) t in
       (case t_files t1 (template_path root_dir [''dev'', ''serve-with-control.ts'']) of
          None \<Rightarrow> (Some Fault, t1) | Some x \<Rightarrow> (None, write_file p x t1)))"

definition web_setup :: "string \<Rightarrow> string list \<Rightarrow> tree \<Rightarrow> init_error option \<times> tree" where
  "web_setup root_dir args t = (case setup_dir root_dir args of
     Inl e \<Rightarrow> (Some e, t)
   | Inr dir \<Rightarrow> (case in_order [on_files (update_app_content dir), on_files (remove_extras dir), on_files (ensure_helper root_dir dir),
         on_files (update_index root_dir dir)] \<lparr>sh_tree = t, sh_commands = []\<rparr> of (e, s) \<Rightarrow> (e, sh_tree s)))"

section \<open>The wrapped index\<close>

text \<open>The imports stay outside the function, which holds every other line, indented.\<close>

lemma take_head: "take (head_length ls) ls = rev (dropWhile (\<lambda>l. \<not> is_import l) (rev ls))"
  and drop_head: "drop (head_length ls) ls = rev (takeWhile (\<lambda>l. \<not> is_import l) (rev ls))"
proof -
  let ?P = "\<lambda>l. \<not> is_import l"
  have ls: "ls = rev (dropWhile ?P (rev ls)) @ rev (takeWhile ?P (rev ls))" by (metis rev_append rev_rev_ident takeWhile_dropWhile_id)
  have "length ls = length (dropWhile ?P (rev ls)) + length (takeWhile ?P (rev ls))"
    by (subst ls) simp
  then have n: "head_length ls = length (dropWhile ?P (rev ls))" by (simp add: head_length_def)
  show "take (head_length ls) ls = rev (dropWhile ?P (rev ls))" unfolding n by (subst (2) ls) simp
  show "drop (head_length ls) ls = rev (takeWhile ?P (rev ls))" unfolding n by (subst (2) ls) simp
qed

lemma lines_mid: "file_lines (s @ CHR 0x0A # t) = file_lines s @ file_lines t"
  by (simp add: file_lines_def split_on_mid)

lemma lines_joined: "ls \<noteq> [] \<Longrightarrow> list_all (\<lambda>l. CHR 0x0A \<notin> set l) ls \<Longrightarrow> file_lines (joined ls) = ls"
proof (induction ls)
  case (Cons l ls)
  then show ?case
    by (cases "ls = []") (simp_all add: joined_def join_with_Cons file_lines_def split_on_none split_on_append)
qed simp

lemma lines_no_break: "list_all (\<lambda>l. CHR 0x0A \<notin> set l) (file_lines s)"
  using split_on_no_mark by (auto simp: file_lines_def list_all_iff)

theorem imports_stay_outside:
  assumes "list_ex is_import (file_lines s)"
  shows "\<exists>n. file_lines (wrap_in_async_iife s) =
      take n (file_lines s) @ [[], ''(async () => '' @ [CHR 0x7B]]
      @ (if n < length (file_lines s) then map (\<lambda>l. ''  '' @ l) (drop n (file_lines s)) else [[]]) @ iife_end \<and>
    list_all (\<lambda>l. \<not> is_import l) (drop n (file_lines s))"
proof -
  define ls n where "ls = file_lines s" and "n = head_length ls"
  define body where "body = map (\<lambda>l. ''  '' @ l) (drop n ls)"
  have last: "list_all (\<lambda>l. \<not> is_import l) (drop n ls)"
    by (auto simp: n_def drop_head list_all_iff dest: set_takeWhileD)
  have "take n ls \<noteq> []" using assms by (auto simp: n_def take_head ls_def list_ex_iff dropWhile_eq_Nil_conv)
  then have parts: "file_lines (joined (take n ls)) = take n ls"
    using lines_no_break [of s] by (intro lines_joined) (auto simp: ls_def list_all_iff dest: in_set_takeD)
  have rest: "file_lines (joined body) = (if n < length ls then body else [[]])"
  proof (cases "n < length ls")
    case True
    then show ?thesis using lines_no_break [of s]
      by (simp, intro lines_joined) (auto simp: body_def ls_def list_all_iff dest: in_set_dropD)
  qed (simp add: body_def joined_def file_lines_def)
  have tail: "file_lines (joined iife_end) = iife_end" by code_simp
  have start: "file_lines (''(async () => '' @ [CHR 0x7B]) = [''(async () => '' @ [CHR 0x7B]]" "file_lines [] = [[]]" by code_simp+
  have "wrap_in_async_iife s = joined (take n ls) @ CHR 0x0A # [] @ CHR 0x0A # (''(async () => '' @ [CHR 0x7B]) @ CHR 0x0A # joined body @ CHR 0x0A # joined iife_end"
    by (simp add: wrap_in_async_iife_def ls_def n_def body_def Let_def)
  then have "file_lines (wrap_in_async_iife s) = take n ls @ [[]] @ [''(async () => '' @ [CHR 0x7B]] @ (if n < length ls then body else [[]]) @ iife_end"
    by (simp only: lines_mid parts start rest tail)
  with last show ?thesis unfolding body_def ls_def by (intro exI [of _ n]) simp
qed

text \<open>An import that takes more than a line is cut in two, and the rest of it ends up in the function.\<close>

lemma long_import_is_cut:
  "wrap_in_async_iife (joined [''import '' @ [CHR 0x7B], ''  serve'', [CHR 0x7D] @ '' from '' @ sq ''bun''])
   = joined ([''import '' @ [CHR 0x7B], [], ''(async () => '' @ [CHR 0x7B], ''    serve'', ''  '' @ [CHR 0x7D] @ '' from '' @ sq ''bun''] @ iife_end)"
  by code_simp

section \<open>The rewritten index\<close>

text \<open>A server that is a constant is started through the helper, which is imported.\<close>

definition plain_index :: string where
  "plain_index = joined [''import '' @ [CHR 0x7B] @ '' serve '' @ [CHR 0x7D] @ '' from '' @ sq ''bun'', [],
     ''const server = serve('' @ [CHR 0x7B] @ '' port: 1 '' @ [CHR 0x7D] @ '')'', []]"

lemma plain_index_updated:
  "updated_index True plain_index = Some (helper_import @ ''const server = await serveWithControl('' @ [CHR 0x7B] @ '' port: 1 '' @ [CHR 0x7D] @ '')'' @ [CHR 0x0A])"
  by code_simp

lemma includes_append: "str_includes p t \<Longrightarrow> str_includes p (s @ t)" "str_includes p (p @ t)"
proof -
  show "str_includes p t \<Longrightarrow> str_includes p (s @ t)" by (induction s) simp_all
  have "starts_with p (p @ t)" by (simp add: starts_with_def)
  then show "str_includes p (p @ t)" by (cases "p @ t") simp_all
qed

lemma includes_mid: "str_includes p (s @ p @ t)"
  using includes_append by blast

lemma helper_imported: "str_includes (''from '' @ sq ''./dev/serve-with-control'') (with_import s)"
proof -
  define front where "front = ''import '' @ [CHR 0x7B] @ '' serveWithControl '' @ [CHR 0x7D] @ '' ''"
  have split: "helper_import = front @ (''from '' @ sq ''./dev/serve-with-control'') @ [CHR 0x0A]"
    by (simp add: helper_import_def front_def)
  have found: "str_includes (''from '' @ sq ''./dev/serve-with-control'') (b @ helper_import @ r)" for b r
    using includes_mid [of "''from '' @ sq ''./dev/serve-with-control''" "b @ front" "CHR 0x0A # r"] unfolding split by simp
  from found [of "[]" s] found show ?thesis
    by (auto simp: with_import_def matches_def replace_match_def split: option.split)
qed

section \<open>What the script touches\<close>

lemma files_removed [simp]: "t_files (remove_file q t) p = (if p = q then None else t_files t p)"
  by (simp add: remove_file_def t_files_def)

theorem setup_stays_below:
  assumes "outside p xs"
  shows "keeps p (in_order [on_files (update_app_content (path_of_parts xs)), on_files (remove_extras (path_of_parts xs)),
    on_files (ensure_helper root_dir (path_of_parts xs)), on_files (update_index root_dir (path_of_parts xs))])"
proof (rule keeps_in_order)
  have names: "list_all clean_part [''src'', n]" if "n \<in> set [''index.ts'', ''App.tsx'', ''App.jsx'', ''app.tsx'', ''app.jsx'', ''APITester.tsx'', ''logo.svg'', ''react.svg'']" for n
    using that by (auto simp: clean_part_def)
  note below = outside_below [OF assms names] outside_below [OF assms, of "[''src'', ''dev'', ''serve-with-control.ts'']"]
  have "keeps p (on_files (update_app_content (path_of_parts xs)))"
    using below by (intro keeps_files) (auto simp: update_app_content_def app_candidates_def split: option.split dest!: find_found)
  moreover have "keeps p (on_files (remove_extras (path_of_parts xs)))"
    using below by (intro keeps_files) (simp add: remove_extras_def)
  moreover have "keeps p (on_files (ensure_helper root_dir (path_of_parts xs)))"
    using below by (intro keeps_files) (auto simp: ensure_helper_def Let_def clean_part_def split: option.split)
  moreover have "keeps p (on_files (update_index root_dir (path_of_parts xs)))"
    using below by (intro keeps_files) (auto simp: update_index_def Let_def split: option.split)
  ultimately show "list_all (keeps p) [on_files (update_app_content (path_of_parts xs)), on_files (remove_extras (path_of_parts xs)),
    on_files (ensure_helper root_dir (path_of_parts xs)), on_files (update_index root_dir (path_of_parts xs))]" by simp
qed

end
