(* ===== verification/PackageNames.thy ===== *)
theory PackageNames
  imports Scaffold
begin

text \<open>
  The scripts that run after an installation: \<open>scripts/postinstall.ts\<close>, which names the packages of the
  repository after its directory, in their own files and wherever they are mentioned, and
  \<open>packages/cli/scripts/postinstall.ts\<close>, which makes the tool depend on the core.
\<close>

section \<open>The name of the project\<close>

text \<open>\<open>replace(/c+/g, 'c')\<close>\<close>

fun collapse :: "char \<Rightarrow> string \<Rightarrow> string" where
  "collapse c [] = []"
| "collapse c (x # s) = (if x = c then c # collapse c (dropWhile (\<lambda>y. y = c) s) else x # collapse c s)"

definition name_char :: "char \<Rightarrow> bool" where
  "name_char c \<longleftrightarrow> (let n = code_of c in (97 \<le> n \<and> n \<le> 122) \<or> (48 \<le> n \<and> n \<le> 57) \<or> c \<in> set ''-._'')"

definition name_mark :: "char \<Rightarrow> bool" where
  "name_mark c \<longleftrightarrow> c \<in> set ''._-''"

definition sanitize_name :: "string \<Rightarrow> string" where
  "sanitize_name input = (let lowered = map (\<lambda>c. if name_char c then c else CHR ''-'') (to_lower input);
       trimmed = collapse CHR ''_'' (collapse CHR ''.'' (collapse CHR ''-'' (dropWhile name_mark lowered)))
     in if trimmed = [] then ''project'' else trimmed)"

section \<open>The packages\<close>

definition update_name :: "string \<Rightarrow> string \<Rightarrow> tree \<Rightarrow> init_error option \<times> tree" where
  "update_name p new_name t = (if \<not> exists_file p t then (None, t)
     else case read_strict p t of Inl e \<Rightarrow> (Some e, t)
       | Inr pkg \<Rightarrow> if nullish pkg then (Some Fault, t)
         else if field pkg ''name'' = JStr new_name then (None, t)
         else (case assign ''name'' (JStr new_name) pkg of Inl e \<Rightarrow> (Some e, t) | Inr new \<Rightarrow> (None, write_json p new t)))"

definition package_or_empty :: "string \<Rightarrow> tree \<Rightarrow> init_error + jsval" where
  "package_or_empty p t = (if exists_file p t then read_strict p t else Inr (JObj []))"

definition resolve_scoped_name :: "jsval \<Rightarrow> string \<Rightarrow> string" where
  "resolve_scoped_name v fallback = (case v of JStr s \<Rightarrow> if starts_with ''@'' s \<and> CHR ''/'' \<in> set s then s else fallback | _ \<Rightarrow> fallback)"

section \<open>The mentions\<close>

text \<open>\<open>split(from).join(to)\<close>\<close>

function replace_all :: "string \<Rightarrow> string \<Rightarrow> string \<Rightarrow> string" where
  "replace_all old new s = (if s = [] \<or> old = [] then s
     else if starts_with old s then new @ replace_all old new (drop (length old) s) else hd s # replace_all old new (tl s))"
  by pat_completeness auto
termination by (relation "measure (\<lambda>(old, new, s). length s)") auto

declare replace_all.simps [simp del]

type_synonym replacements = "(string \<times> string) list"

definition replace_in_text :: "replacements \<Rightarrow> string \<Rightarrow> string" where
  "replace_in_text rs s = fold (\<lambda>(old, new) x. if old \<noteq> [] \<and> old \<noteq> new then replace_all old new x else x) rs s"

definition should_ignore_dir :: "string \<Rightarrow> bool" where
  "should_ignore_dir n \<longleftrightarrow> n \<in> set [''node_modules'', ''.git'', ''.dev'', ''.bun-create'', ''dist'']"

text \<open>The files the walk comes to: below the root, with no ignored directory on the way.\<close>

definition walked :: "string \<Rightarrow> string \<Rightarrow> bool" where
  "walked root_dir p \<longleftrightarrow> starts_with (root_dir @ ''/'') p \<and>
     \<not> list_ex should_ignore_dir (butlast (path_parts (drop (length root_dir) p)))"

definition walk :: "string \<Rightarrow> replacements \<Rightarrow> tree \<Rightarrow> tree" where
  "walk root_dir rs t = t\<lparr>t_texts := map (\<lambda>(p, x). (p, if walked root_dir p then replace_in_text rs x else x)) (t_texts t)\<rparr>"

definition scoped :: "string \<Rightarrow> string \<Rightarrow> string" where
  "scoped project n = ''@'' @ project @ ''/'' @ n"

definition name_replacements :: "string \<Rightarrow> jsval \<Rightarrow> jsval \<Rightarrow> jsval \<Rightarrow> replacements" where
  "name_replacements project qa core new =
     (let old_qa = resolve_scoped_name (field qa ''name'') ''@merossity/qa''; old_core = resolve_scoped_name (field core ''name'') ''@merossity/core'';
          old_new = resolve_scoped_name (field new ''name'') ''@merossity/new''
      in [(old_qa, scoped project ''qa'')]
         @ (if old_core \<noteq> scoped project ''core'' then [(old_core, scoped project ''core'')] else [])
         @ (if old_new \<noteq> scoped project ''new'' then [(old_new, scoped project ''new'')] else []))"

definition package_path :: "string \<Rightarrow> string \<Rightarrow> string" where
  "package_path root_dir n = join_names root_dir [''packages'', n, ''package.json'']"

fun in_turn :: "(tree \<Rightarrow> init_error option \<times> tree) list \<Rightarrow> tree \<Rightarrow> init_error option \<times> tree" where
  "in_turn [] t = (None, t)"
| "in_turn (f # fs) t = (case f t of (Some e, t') \<Rightarrow> (Some e, t') | (None, t') \<Rightarrow> in_turn fs t')"

definition rename_project :: "string \<Rightarrow> string \<Rightarrow> tree \<Rightarrow> init_error option \<times> tree" where
  "rename_project root_dir cwd t =
     (let project = sanitize_name (base_name cwd); root_pkg = join_names root_dir [''package.json'']; at_pkg = package_path root_dir
      in case (package_or_empty root_pkg t, package_or_empty (at_pkg ''qa'') t, package_or_empty (at_pkg ''core'') t, package_or_empty (at_pkg ''new'') t) of
        (Inr _, Inr qa, Inr core, Inr new) \<Rightarrow>
          if nullish qa \<or> nullish core \<or> nullish new then (Some Fault, t)
          else in_turn [update_name root_pkg project, update_name (at_pkg ''qa'') (scoped project ''qa''),
            update_name (at_pkg ''core'') (scoped project ''core''), update_name (at_pkg ''new'') (scoped project ''new''),
            (\<lambda>u. (None, walk root_dir (name_replacements project qa core new) u))] t
      | _ \<Rightarrow> (Some Fault, t))"

section \<open>The core as a dependency\<close>

text \<open>\<open>None\<close> leaves the package as it is. A name that is not a string is a key by its text.\<close>

definition with_core :: "jsval \<Rightarrow> jsval \<Rightarrow> init_error + jsval option" where
  "with_core core pkg = (if nullish core then Inl Fault
     else let name = field core ''name'' in
       if \<not> truthy name then Inr None
       else if nullish pkg then Inl Fault
       else let deps = spread (field pkg ''dependencies'') in
         if truthy (field (JObj deps) (str_of name)) then Inr None
         else (case assign ''dependencies'' (JObj (map_set (str_of name) (JStr ''workspace:*'') deps)) pkg of
            Inl e \<Rightarrow> Inl e | Inr new \<Rightarrow> Inr (Some new)))"

definition ensure_core_dependency :: "string \<Rightarrow> string \<Rightarrow> tree \<Rightarrow> init_error option \<times> tree" where
  "ensure_core_dependency repo package_dir t =
     (let core_path = package_path repo ''core''; p = join_names package_dir [''package.json'']
      in if \<not> exists_file core_path t \<or> \<not> exists_file p t then (None, t)
         else case read_strict core_path t of Inl e \<Rightarrow> (Some e, t)
           | Inr core \<Rightarrow> if nullish core then (Some Fault, t) else if \<not> truthy (field core ''name'') then (None, t)
             else (case read_strict p t of Inl e \<Rightarrow> (Some e, t)
               | Inr pkg \<Rightarrow> (case with_core core pkg of Inl e \<Rightarrow> (Some e, t) | Inr None \<Rightarrow> (None, t) | Inr (Some new) \<Rightarrow> (None, write_json p new t))))"

definition cli_postinstall :: "external \<Rightarrow> string \<Rightarrow> string \<Rightarrow> act" where
  "cli_postinstall ext repo package_dir s =
     (let qa_dir = join_names repo [''packages'', ''qa''] in
      case on_files (ensure_core_dependency repo package_dir) s of
        (Some e, s') \<Rightarrow> (Some e, s')
      | (None, s') \<Rightarrow> if \<not> exists_path qa_dir (sh_tree s') then (None, s')
          else run_command ext [''bun'', ''run'', ''--cwd'', qa_dir, ''qa:init'', ''--dir'', package_dir, ''--kind'', ''cli''] repo s')"

section \<open>The name is one\<close>

lemma collapse_set: "set (collapse c s) = set s"
proof (induction c s rule: collapse.induct)
  case (2 c x s)
  have "set s = set (takeWhile (\<lambda>y. y = c) s) \<union> set (dropWhile (\<lambda>y. y = c) s)"
    by (metis set_append takeWhile_dropWhile_id)
  moreover have "set (takeWhile (\<lambda>y. y = c) s) \<subseteq> {c}" by (auto dest: set_takeWhileD)
  ultimately show ?case using 2 by auto
qed simp

lemma collapse_nil [simp]: "collapse c s = [] \<longleftrightarrow> s = []"
  by (cases s) auto

lemma collapse_hd [simp]: "s \<noteq> [] \<Longrightarrow> hd (collapse c s) = hd s"
  by (cases s) auto

lemma rest_head: "dropWhile P s \<noteq> [] \<Longrightarrow> \<not> P (hd (dropWhile P s))"
  by (induction s) auto

lemma collapse_single: "no_double c (collapse c s)"
proof (induction c s rule: collapse.induct)
  case (2 c x s)
  have "hd (dropWhile (\<lambda>y. y = c) s) \<noteq> c" if "dropWhile (\<lambda>y. y = c) s \<noteq> []" using rest_head [OF that] by simp
  with 2 show ?case by (auto simp: no_double_Cons)
qed simp

lemma collapse_other: "no_double d s \<Longrightarrow> c \<noteq> d \<Longrightarrow> no_double d (collapse c s)"
proof (induction c s rule: collapse.induct)
  case (2 c x s)
  have drop: "no_double d (dropWhile (\<lambda>y. y = c) s)" if "no_double d s" using that
    by (induction s) (auto simp: no_double_Cons)
  show ?case
  proof (cases "x = c")
    case True
    then show ?thesis using 2 drop by (auto simp: no_double_Cons)
  next
    case False
    then show ?thesis using 2 by (auto simp: no_double_Cons)
  qed
qed simp

lemma collapse_id: "no_double c s \<Longrightarrow> collapse c s = s"
proof (induction c s rule: collapse.induct)
  case (2 c x s)
  then have "dropWhile (\<lambda>y. y = c) s = s" if "x = c" using that by (cases s) (auto simp: no_double_Cons)
  with 2 show ?case by (auto simp: no_double_Cons)
qed simp

definition project_name_ok :: "string \<Rightarrow> bool" where
  "project_name_ok s \<longleftrightarrow> s \<noteq> [] \<and> list_all name_char s \<and> \<not> name_mark (hd s) \<and>
     no_double CHR ''-'' s \<and> no_double CHR ''.'' s \<and> no_double CHR ''_'' s"

theorem sanitized_name_ok: "project_name_ok (sanitize_name input) \<and> (project_name_ok input \<longrightarrow> sanitize_name input = input)"
proof
  define lowered where "lowered = map (\<lambda>c. if name_char c then c else CHR ''-'') (to_lower input)"
  define rest where "rest = dropWhile name_mark lowered"
  define made where "made = collapse CHR ''_'' (collapse CHR ''.'' (collapse CHR ''-'' rest))"
  have result: "sanitize_name input = (if made = [] then ''project'' else made)"
    by (simp add: sanitize_name_def Let_def made_def rest_def lowered_def)
  have dash: "name_char CHR ''-''" by code_simp
  show "project_name_ok (sanitize_name input)"
  proof (cases "made = []")
    case True
    have "project_name_ok ''project''" by code_simp
    then show ?thesis by (simp add: result True)
  next
    case False
    then have "rest \<noteq> []" by (simp add: made_def)
    then have "hd made = hd rest" by (simp add: made_def)
    moreover have "\<not> name_mark (hd rest)" using \<open>rest \<noteq> []\<close> unfolding rest_def by (rule rest_head)
    moreover have "set made \<subseteq> set lowered" using set_dropWhileD [of _ name_mark lowered] by (auto simp: made_def rest_def collapse_set)
    moreover have "\<forall>c\<in>set lowered. name_char c" using dash by (auto simp: lowered_def)
    ultimately show ?thesis using False unfolding project_name_ok_def result
      by (auto simp: list_all_iff made_def collapse_single collapse_other)
  qed
  show "project_name_ok input \<longrightarrow> sanitize_name input = input"
  proof
    assume ok: "project_name_ok input"
    have lower: "lower_char c = c" if "name_char c" for c
      using that by (auto simp: name_char_def lower_char_def code_of_def Let_def)
    have "to_lower input = input" using ok lower by (auto simp: to_lower_def project_name_ok_def list_all_iff intro!: map_idI)
    then have "lowered = input" using ok by (auto simp: lowered_def project_name_ok_def list_all_iff intro!: map_idI)
    then have "rest = input" using ok by (cases input) (simp_all add: rest_def project_name_ok_def)
    then have "made = input" using ok by (simp add: made_def project_name_ok_def collapse_id)
    then show "sanitize_name input = input" using ok by (simp add: result project_name_ok_def)
  qed
qed

section \<open>Mentions, and what is not touched\<close>

lemma replace_all_none: "\<not> str_includes old s \<Longrightarrow> replace_all old new s = s"
proof (induction s)
  case (Cons c s)
  then show ?case by (subst replace_all.simps) auto
qed (subst replace_all.simps, simp)

lemma replace_in_text_none: "list_all (\<lambda>(old, new). \<not> str_includes old x) rs \<Longrightarrow> replace_in_text rs x = x"
  by (induction rs) (auto simp: replace_in_text_def replace_all_none)

lemma walk_files: "t_files (walk root_dir rs t) p = map_option (\<lambda>x. if walked root_dir p then replace_in_text rs x else x) (t_files t p)"
proof -
  have "map_get (map (\<lambda>(q, x). (q, f q x)) m) p = map_option (f p) (map_get m p)" for f :: "string \<Rightarrow> string \<Rightarrow> string" and m
    by (induction m) auto
  then show ?thesis by (simp add: t_files_def walk_def)
qed

text \<open>A name that was replaced is not replaced again: what the next run looks for is what it would write.\<close>

lemma second_run_replaces_nothing:
  assumes "field qa ''name'' = JStr (scoped project ''qa'')" "field core ''name'' = JStr (scoped project ''core'')" "field new ''name'' = JStr (scoped project ''new'')"
  shows "replace_in_text (name_replacements project qa core new) x = x"
  using assms by (simp add: name_replacements_def resolve_scoped_name_def scoped_def starts_with_def replace_in_text_def)

section \<open>The core is there once\<close>

lemma core_added:
  assumes "with_core core pkg = Inr (Some new)" "is_record pkg"
  shows "field (field new ''dependencies'') (str_of (field core ''name'')) = JStr ''workspace:*''"
    "k \<noteq> ''dependencies'' \<Longrightarrow> field new k = field pkg k" "with_core core new = Inr None"
  using assms by (cases pkg; auto simp: with_core_def Let_def split: if_splits)+

end
