(* ===== verification/Templates.thy ===== *)
theory Templates
  imports WebSetup PackageNames
begin

text \<open>
  The scripts that new packages bring along and run after an installation, in
  \<open>packages/new/templates\<close>: \<open>web/scripts/postinstall.ts\<close>, which does to the app what
  \<open>packages/new/scripts/web-postinstall.ts\<close> does and makes it depend on the core of its workspace, and
  \<open>ui/scripts/postinstall.ts\<close>, which offers the apps of the repository to depend on the package.
\<close>

section \<open>A web app in its workspace\<close>

definition is_workspace_root :: "string list \<Rightarrow> tree \<Rightarrow> bool" where
  "is_workspace_root ps t \<longleftrightarrow> (case Option.bind (t_files t (path_of_parts (ps @ [''package.json'']))) json_parse of
     None \<Rightarrow> False | Some pkg \<Rightarrow> truthy (field pkg ''workspaces''))"

function workspace_above :: "tree \<Rightarrow> string list \<Rightarrow> string list option" where
  "workspace_above t ps = (if is_workspace_root ps t then Some ps else if ps = [] then None else workspace_above t (butlast ps))"
  by pat_completeness auto
termination by (relation "measure (\<lambda>(_, ps). length ps)") auto

declare workspace_above.simps [simp del]

definition ensure_workspace_core :: "string \<Rightarrow> tree \<Rightarrow> init_error option \<times> tree" where
  "ensure_workspace_core app_dir t = (case workspace_above t (path_parts app_dir) of None \<Rightarrow> (None, t)
     | Some ps \<Rightarrow> (let core_path = package_path (path_of_parts ps) ''core''; p = join_names app_dir [''package.json''] in
         if \<not> exists_file core_path t then (None, t)
         else case read_strict core_path t of Inl e \<Rightarrow> (Some e, t)
           | Inr core \<Rightarrow> if nullish core then (Some Fault, t)
             else if \<not> truthy (field core ''name'') \<or> \<not> exists_file p t then (None, t)
             else (case read_strict p t of Inl e \<Rightarrow> (Some e, t)
               | Inr pkg \<Rightarrow> (case with_core core pkg of Inl e \<Rightarrow> (Some e, t) | Inr None \<Rightarrow> (None, t) | Inr (Some new) \<Rightarrow> (None, write_json p new t)))))"

text \<open>Unlike the script of the repository, this one never puts the index of the template in place.\<close>

definition update_own_index :: "string \<Rightarrow> tree \<Rightarrow> init_error option \<times> tree" where
  "update_own_index dir t = (let p = join_names dir [''src'', ''index.ts''] in case t_files t p of
     None \<Rightarrow> (None, t)
   | Some contents \<Rightarrow> (case updated_index (is_module_project dir t) contents of None \<Rightarrow> (None, t) | Some x \<Rightarrow> (None, write_file p x t)))"

definition own_setup :: "string \<Rightarrow> act" where
  "own_setup app_dir = in_order [on_files (update_app_content app_dir), on_files (remove_extras app_dir),
     on_files (update_own_index app_dir), on_files (ensure_workspace_core app_dir)]"

section \<open>A package of widgets\<close>

text \<open>The files, and the questions asked; an answer depends on the questions before.\<close>

record ui_run =
  ui_tree :: tree
  ui_asked :: "string list"

type_synonym answers = "(string list \<Rightarrow> string \<Rightarrow> string) option"

text \<open>Without a terminal, which is \<open>None\<close>, nothing is asked.\<close>

definition prompt_yes_no :: "answers \<Rightarrow> string \<Rightarrow> ui_run \<Rightarrow> bool \<times> ui_run" where
  "prompt_yes_no tty message s = (case tty of None \<Rightarrow> (False, s)
     | Some answer \<Rightarrow> (to_lower (trim (answer (ui_asked s) message)) \<in> set [''y'', ''yes''], s\<lparr>ui_asked := ui_asked s @ [message]\<rparr>))"

definition has_tailwind :: "jsval \<Rightarrow> bool" where
  "has_tailwind pkg \<longleftrightarrow> depends_on pkg ''tailwindcss''"

definition has_ui :: "jsval \<Rightarrow> string \<Rightarrow> bool" where
  "has_ui pkg ui \<longleftrightarrow> depends_on pkg ui"

definition find_css_import_target :: "string \<Rightarrow> tree \<Rightarrow> string option" where
  "find_css_import_target app_dir t = (let p = join_names app_dir [''src'', ''index.ts''] in if exists_file p t then Some p else None)"

definition css_import :: "string \<Rightarrow> string" where
  "css_import ui = ''import '' @ sq (ui @ ''/index.css'')"

text \<open>\<open>None\<close> leaves the file as it is.\<close>

definition with_css_import :: "string \<Rightarrow> string \<Rightarrow> string option" where
  "with_css_import ui contents = (if str_includes (ui @ ''/index.css'') contents then None
     else let ls = file_lines contents; n = length (takeWhile (\<lambda>l. \<not> starts_with ''import '' l) ls); k = (if n < length ls then Suc n else 0)
       in Some (joined (take k ls @ css_import ui # drop k ls) @ [CHR 0x0A]))"

definition add_css_import :: "string \<Rightarrow> string \<Rightarrow> tree \<Rightarrow> tree" where
  "add_css_import p ui t = (case Option.bind (t_files t p) (with_css_import ui) of None \<Rightarrow> t | Some x \<Rightarrow> write_file p x t)"

definition resolve_ui_dep :: "string \<Rightarrow> tree \<Rightarrow> init_error + string" where
  "resolve_ui_dep package_dir t = (let p = join_names package_dir [''package.json''] in
     if \<not> exists_file p t then Inr ''@merossity/ui''
     else case read_strict p t of Inl e \<Rightarrow> Inl e
       | Inr pkg \<Rightarrow> if nullish pkg then Inl Fault else Inr (str_of (nn (field pkg ''name'') (JStr ''@merossity/ui''))))"

definition with_ui :: "string \<Rightarrow> jsval \<Rightarrow> init_error + jsval" where
  "with_ui ui pkg = (case assign ui (JStr ''workspace:*'') (deps_of pkg ''dependencies'') of Inl e \<Rightarrow> Inl e
     | Inr deps \<Rightarrow> assign ''dependencies'' deps pkg)"

definition offer_css :: "answers \<Rightarrow> string \<Rightarrow> string \<Rightarrow> string \<Rightarrow> ui_run \<Rightarrow> ui_run" where
  "offer_css tty root_dir ui app_dir s = (case find_css_import_target app_dir (ui_tree s) of
     None \<Rightarrow> s
   | Some p \<Rightarrow> (case prompt_yes_no tty (''Add UI CSS import to '' @ relative_path root_dir p @ ''?'') s of
         (add, s1) \<Rightarrow> if add then s1\<lparr>ui_tree := add_css_import p ui (ui_tree s1)\<rparr> else s1))"

definition offer_ui :: "answers \<Rightarrow> string \<Rightarrow> string \<Rightarrow> string \<Rightarrow> ui_run \<Rightarrow> init_error option \<times> ui_run" where
  "offer_ui tty root_dir ui app s = (let app_dir = join_names root_dir [''apps'', app]; p = join_names app_dir [''package.json''] in
     if \<not> exists_file p (ui_tree s) then (None, s)
     else case read_strict p (ui_tree s) of Inl e \<Rightarrow> (Some e, s)
       | Inr pkg \<Rightarrow> if nullish pkg then (Some Fault, s)
         else if \<not> has_tailwind pkg \<or> has_ui pkg ui then (None, s)
         else (case prompt_yes_no tty (''Add '' @ ui @ '' dependency to '' @ app @ ''?'') s of (allow, s1) \<Rightarrow>
           if \<not> allow then (None, s1)
           else (case with_ui ui pkg of Inl e \<Rightarrow> (Some e, s1)
             | Inr new \<Rightarrow> (None, offer_css tty root_dir ui app_dir (s1\<lparr>ui_tree := write_json p new (ui_tree s1)\<rparr>)))))"

text \<open>The entries are those of \<open>readdir\<close>, in its order.\<close>

fun offer_each :: "answers \<Rightarrow> string \<Rightarrow> string \<Rightarrow> string list \<Rightarrow> ui_run \<Rightarrow> init_error option \<times> ui_run" where
  "offer_each tty root_dir ui [] s = (None, s)"
| "offer_each tty root_dir ui (app # apps) s = (case offer_ui tty root_dir ui app s of
     (Some e, s') \<Rightarrow> (Some e, s') | (None, s') \<Rightarrow> offer_each tty root_dir ui apps s')"

definition ui_postinstall :: "answers \<Rightarrow> string \<Rightarrow> string \<Rightarrow> string list \<Rightarrow> ui_run \<Rightarrow> init_error option \<times> ui_run" where
  "ui_postinstall tty root_dir package_dir entries s =
     (if \<not> exists_path (join_names root_dir [''apps'']) (ui_tree s) then (None, s)
      else case resolve_ui_dep package_dir (ui_tree s) of Inl e \<Rightarrow> (Some e, s) | Inr ui \<Rightarrow> offer_each tty root_dir ui entries s)"

section \<open>The nearest workspace\<close>

theorem workspace_nearest:
  assumes "workspace_above t ps = Some qs"
  shows "\<exists>n. qs = take n ps \<and> is_workspace_root qs t \<and> (\<forall>m. n < m \<and> m \<le> length ps \<longrightarrow> \<not> is_workspace_root (take m ps) t)"
  using assms
proof (induction t ps rule: workspace_above.induct)
  case (1 t ps)
  show ?case
  proof (cases "is_workspace_root ps t \<or> ps = []")
    case True
    with 1(2) have "qs = take (length ps) ps \<and> is_workspace_root qs t" by (auto simp: workspace_above.simps [of t ps] split: if_splits)
    then show ?thesis by (intro exI [of _ "length ps"]) auto
  next
    case False
    with 1 obtain n where n: "qs = take n (butlast ps)" "is_workspace_root qs t"
      "\<forall>m. n < m \<and> m \<le> length (butlast ps) \<longrightarrow> \<not> is_workspace_root (take m (butlast ps)) t"
      by (auto simp: workspace_above.simps [of t ps])
    define k where "k = min n (length (butlast ps))"
    have "\<not> is_workspace_root (take m ps) t" if "k < m" "m \<le> length ps" for m
    proof (cases "m = length ps")
      case False
      with that have m: "m \<le> length (butlast ps)" "n < m" by (auto simp: k_def)
      then have "take m (butlast ps) = take m ps" by (simp add: butlast_conv_take)
      with n(3) m show ?thesis by auto
    qed (use False in simp)
    moreover have "qs = take k ps" using n(1) False by (cases ps rule: rev_cases) (simp_all add: k_def min_def)
    ultimately show ?thesis using n(2) by blast
  qed
qed

theorem own_setup_stays_below:
  assumes "outside p xs"
  shows "keeps p (own_setup (path_of_parts xs))"
  unfolding own_setup_def
proof (rule keeps_in_order)
  have names: "list_all clean_part [''src'', n]" if "n \<in> set [''index.ts'', ''App.tsx'', ''App.jsx'', ''app.tsx'', ''app.jsx'', ''APITester.tsx'', ''logo.svg'', ''react.svg'']" for n
    using that by (auto simp: clean_part_def)
  note below = outside_below [OF assms names] outside_below [OF assms, of "[''package.json'']"]
  have "keeps p (on_files (update_app_content (path_of_parts xs)))"
    using below by (intro keeps_files) (auto simp: update_app_content_def app_candidates_def split: option.split dest!: find_found)
  moreover have "keeps p (on_files (remove_extras (path_of_parts xs)))"
    using below by (intro keeps_files) (simp add: remove_extras_def)
  moreover have "keeps p (on_files (update_own_index (path_of_parts xs)))"
    using below by (intro keeps_files) (auto simp: update_own_index_def Let_def split: option.split)
  moreover have "keeps p (on_files (ensure_workspace_core (path_of_parts xs)))"
    using below by (intro keeps_files)
      (auto simp: ensure_workspace_core_def Let_def clean_part_def write_json_def split: option.split sum.split)
  ultimately show "list_all (keeps p) [on_files (update_app_content (path_of_parts xs)), on_files (remove_extras (path_of_parts xs)),
    on_files (update_own_index (path_of_parts xs)), on_files (ensure_workspace_core (path_of_parts xs))]" by simp
qed

section \<open>Nothing without an answer\<close>

lemma silent_app: "snd (offer_ui None root_dir ui app s) = s"
  by (auto simp: offer_ui_def prompt_yes_no_def Let_def split: sum.split)

lemma silent_apps: "snd (offer_each None root_dir ui apps s) = s"
proof (induction apps arbitrary: s)
  case (Cons app apps)
  then show ?case using silent_app [of root_dir ui app s] by (auto split: prod.split option.split)
qed simp

theorem nothing_without_terminal: "snd (ui_postinstall None root_dir package_dir entries s) = s"
  by (simp add: ui_postinstall_def silent_apps split: sum.split)

text \<open>Once added, the dependency is not offered again.\<close>

theorem offered_once:
  assumes "with_ui ui pkg = Inr new" "is_record pkg" "is_record (deps_of pkg ''dependencies'')"
  shows "has_ui new ui"
proof -
  obtain kvs where kvs: "pkg = JObj kvs" using assms(2) by (cases pkg) auto
  obtain deps where deps: "deps_of pkg ''dependencies'' = JObj deps" using assms(3) by (cases "deps_of pkg ''dependencies''") auto
  have "new = JObj (map_set ''dependencies'' (JObj (map_set ui (JStr ''workspace:*'') deps)) kvs)"
    using assms(1) unfolding with_ui_def deps by (simp add: kvs)
  then show ?thesis by (simp add: has_ui_def depends_on_def deps_of_def nn_def)
qed

theorem css_added_once:
  assumes "with_css_import ui contents = Some x"
  shows "with_css_import ui x = None"
proof -
  let ?css = "ui @ ''/index.css''"
  obtain as bs where x: "x = joined (as @ css_import ui # bs) @ [CHR 0x0A]"
    using assms unfolding with_css_import_def Let_def by (metis option.distinct(1) option.inject)
  have "\<exists>a b. joined (as @ css_import ui # bs) = a @ ?css @ b" for as bs
  proof (induction as)
    case Nil
    have "joined (css_import ui # bs) = (''import '' @ [CHR 0x27]) @ ?css @ (CHR 0x27 # (if bs = [] then [] else CHR 0x0A # joined bs))"
      by (simp add: joined_def join_with_Cons css_import_def sq_def)
    then show ?case by (metis append_Nil)
  next
    case (Cons l as)
    then obtain a b where "joined (as @ css_import ui # bs) = a @ ?css @ b" by blast
    then have "joined ((l # as) @ css_import ui # bs) = (l @ CHR 0x0A # a) @ ?css @ b" by (simp add: joined_def join_with_Cons)
    then show ?case by blast
  qed
  then obtain a b where "x = a @ ?css @ (b @ [CHR 0x0A])" unfolding x by (metis append_assoc)
  then have "str_includes ?css x" using includes_mid by metis
  then show ?thesis by (simp add: with_css_import_def)
qed

text \<open>The line is put behind the first that begins an import, be the import complete there or not.\<close>

lemma css_into_import:
  "with_css_import ''@acme/ui'' (joined [''import '' @ [CHR 0x7B], ''  serve'', [CHR 0x7D] @ '' from '' @ sq ''bun''])
   = Some (joined [''import '' @ [CHR 0x7B], css_import ''@acme/ui'', ''  serve'', [CHR 0x7D] @ '' from '' @ sq ''bun'', []])"
  by code_simp

end
