(* ===== verification/TestKit.thy ===== *)
theory TestKit
  imports QaInit
begin

text \<open>
  The kit the tests of the repository are written with, \<open>packages/qa/src/testkit\<close>: polling, the
  collector of the output of a process with those who wait for a text in it, servers that are started
  for a test, the files a test leaves, and the checks of an answer.

  The outside world is in the arguments: what the polled function does at its \<open>n\<close>th call and how much time
  has passed then, the chunks of a stream, decoded, and which of the waiting times runs out. A regular
  expression is a predicate on texts.
\<close>

section \<open>Polling\<close>

datatype attempt = Returned jsval | Threw "string option"

definition is_ready :: "jsval \<Rightarrow> bool" where
  "is_ready v \<longleftrightarrow> v \<noteq> JBool False \<and> v \<noteq> JUndef \<and> v \<noteq> JNull"

text \<open>The last error is remembered by its message, if it is an \<open>Error\<close>.\<close>

definition format_last_error :: "string option \<Rightarrow> string" where
  "format_last_error e = (case e of None \<Rightarrow> [] | Some m \<Rightarrow> '' Last error: '' @ m)"

definition timed_out :: "string \<Rightarrow> string \<Rightarrow> string option \<Rightarrow> string" where
  "timed_out limit description e = ''Timed out after '' @ limit @ ''ms waiting for '' @ description @ ''.'' @ format_last_error e"

definition last_error :: "attempt \<Rightarrow> string option \<Rightarrow> string option" where
  "last_error a e = (case a of Returned _ \<Rightarrow> e | Threw m \<Rightarrow> m)"

text \<open>The attempts from the \<open>n\<close>th on; \<open>None\<close> is to go on for ever.\<close>

partial_function (option) poll_from ::
  "(nat \<Rightarrow> attempt) \<Rightarrow> (nat \<Rightarrow> rat) \<Rightarrow> rat \<Rightarrow> string \<Rightarrow> nat \<Rightarrow> string option \<Rightarrow> (nat \<times> (string + jsval)) option" where
  "poll_from world elapsed limit description n e =
     (if (case world n of Returned v \<Rightarrow> is_ready v | Threw _ \<Rightarrow> False)
      then Some (n, Inr (case world n of Returned v \<Rightarrow> v | Threw _ \<Rightarrow> JUndef))
      else if limit \<le> elapsed n then Some (n, Inl (timed_out (str_of_rat limit) description (last_error (world n) e)))
      else poll_from world elapsed limit description (Suc n) (last_error (world n) e))"

definition poll_until :: "(nat \<Rightarrow> attempt) \<Rightarrow> (nat \<Rightarrow> rat) \<Rightarrow> rat \<Rightarrow> string \<Rightarrow> (nat \<times> (string + jsval)) option" where
  "poll_until world elapsed limit description = poll_from world elapsed limit description 0 None"

section \<open>The collector of a stream\<close>

datatype matcher = Plain string | Pattern "string \<Rightarrow> bool"

fun matches_output :: "string \<Rightarrow> matcher \<Rightarrow> bool" where
  "matches_output output (Plain s) = str_includes s output"
| "matches_output output (Pattern p) = p output"

datatype settled = Resolved string | Rejected string

text \<open>Those who wait, by a number, with their matcher and the time they wait; and who was settled, and how.\<close>

record collector =
  co_text :: string
  co_waiters :: "(nat \<times> matcher \<times> rat) list"
  co_settled :: "(nat \<times> settled) list"
  co_done :: bool

definition fresh_collector :: collector where
  "fresh_collector = \<lparr>co_text = [], co_waiters = [], co_settled = [], co_done = False\<rparr>"

definition resolve_waiters :: "collector \<Rightarrow> collector" where
  "resolve_waiters c = (let hit = (\<lambda>(i, m, l). matches_output (co_text c) m) in
     c\<lparr>co_settled := co_settled c @ map (\<lambda>(i, m, l). (i, Resolved (co_text c))) (filter hit (co_waiters c)),
       co_waiters := filter (\<lambda>w. \<not> hit w) (co_waiters c)\<rparr>)"

definition reject_waiters :: "collector \<Rightarrow> collector" where
  "reject_waiters c = c\<lparr>co_settled := co_settled c @ map (\<lambda>(i, m, l). (i, Rejected ''Stream ended before output matched.'')) (co_waiters c),
     co_waiters := []\<rparr>"

definition on_chunk :: "string \<Rightarrow> collector \<Rightarrow> collector" where
  "on_chunk s c = resolve_waiters (c\<lparr>co_text := co_text c @ s\<rparr>)"

text \<open>The end, with what the decoder still held.\<close>

definition on_done :: "string \<Rightarrow> collector \<Rightarrow> collector" where
  "on_done s c = reject_waiters (c\<lparr>co_text := co_text c @ s, co_done := True\<rparr>)"

definition wait_for :: "nat \<Rightarrow> matcher \<Rightarrow> rat option \<Rightarrow> collector \<Rightarrow> collector" where
  "wait_for i m limit c = (if matches_output (co_text c) m then c\<lparr>co_settled := co_settled c @ [(i, Resolved (co_text c))]\<rparr>
     else c\<lparr>co_waiters := co_waiters c @ [(i, m, or_else limit 5000)]\<rparr>)"

definition wait_over :: "nat \<Rightarrow> collector \<Rightarrow> collector" where
  "wait_over i c = (case map_of (co_waiters c) i of
     None \<Rightarrow> c
   | Some (m, limit) \<Rightarrow> c\<lparr>co_waiters := filter (\<lambda>w. fst w \<noteq> i) (co_waiters c),
       co_settled := co_settled c @ [(i, Rejected (''Timed out after '' @ str_of_rat limit @ ''ms waiting for output.''))]\<rparr>)"

text \<open>What can happen, in any order. Every call of \<open>waitFor\<close> has a number of its own, and the matchers of
  the calls are kept beside the collector by their numbers.\<close>

definition used_numbers :: "collector \<Rightarrow> nat set" where
  "used_numbers c = fst ` set (co_waiters c) \<union> fst ` set (co_settled c)"

inductive collector_step :: "collector \<times> (nat \<Rightarrow> matcher option) \<Rightarrow> collector \<times> (nat \<Rightarrow> matcher option) \<Rightarrow> bool" where
  chunk: "\<not> co_done c \<Longrightarrow> collector_step (c, calls) (on_chunk s c, calls)"
| ended: "\<not> co_done c \<Longrightarrow> collector_step (c, calls) (on_done s c, calls)"
| waits: "calls i = None \<Longrightarrow> collector_step (c, calls) (wait_for i m limit c, calls(i \<mapsto> m))"
| over: "collector_step (c, calls) (wait_over i c, calls)"

inductive collector_reach :: "collector \<times> (nat \<Rightarrow> matcher option) \<Rightarrow> bool" where
  fresh: "collector_reach (fresh_collector, \<lambda>_. None)"
| step: "collector_reach p \<Longrightarrow> collector_step p q \<Longrightarrow> collector_reach q"

text \<open>Waiting through the functions the tests call; without a pipe there is no stream.\<close>

definition wait_for_output :: "collector option \<Rightarrow> nat \<Rightarrow> matcher \<Rightarrow> rat option \<Rightarrow> string + collector" where
  "wait_for_output c i m limit = (case c of
     None \<Rightarrow> Inl (''Output stream is not available (did you set stdout/stderr to '' @ dq ''pipe'' @ ''?)'')
   | Some d \<Rightarrow> Inr (wait_for i m (Some (or_else limit 5000)) d))"

definition expect_output :: "settled \<Rightarrow> matcher \<Rightarrow> settled" where
  "expect_output s m = (case s of Rejected e \<Rightarrow> Rejected e
     | Resolved output \<Rightarrow> if matches_output output m then Resolved output else Rejected ''Expected output was not found.'')"

text \<open>\<open>waitForQuiet\<close>: the text seen at the \<open>n\<close>th look, where the first one is before the polling.\<close>

definition quiet_attempt :: "(nat \<Rightarrow> string) \<Rightarrow> nat \<Rightarrow> attempt" where
  "quiet_attempt seen n = Returned (JBool (seen (Suc n) = seen n))"

definition wait_for_quiet :: "(nat \<Rightarrow> string) option \<Rightarrow> (nat \<Rightarrow> rat) \<Rightarrow> rat option \<Rightarrow> (nat \<times> (string + string)) option" where
  "wait_for_quiet stream elapsed limit = (case stream of
     None \<Rightarrow> Some (0, Inr [])
   | Some seen \<Rightarrow> map_option (\<lambda>(n, r). (n, case r of Inl e \<Rightarrow> Inl e | Inr _ \<Rightarrow> Inr (seen (n + 2))))
       (poll_until (quiet_attempt seen) elapsed (or_else limit 2000) ''quiet output''))"

text \<open>The exit of a process: its code with all that was collected.\<close>

definition wait_for_exit :: "int \<Rightarrow> collector option \<Rightarrow> collector option \<Rightarrow> (int \<times> string \<times> string) option" where
  "wait_for_exit code out err =
     (if (\<forall>c\<in>set_option out \<union> set_option err. co_done c)
      then Some (code, case out of None \<Rightarrow> [] | Some c \<Rightarrow> co_text c, case err of None \<Rightarrow> [] | Some c \<Rightarrow> co_text c) else None)"

section \<open>Servers\<close>

text \<open>A connection that is made, or refused.\<close>

definition wait_for_port :: "(nat \<Rightarrow> bool) \<Rightarrow> (nat \<Rightarrow> rat) \<Rightarrow> rat option \<Rightarrow> nat \<Rightarrow> (nat \<times> (string + jsval)) option" where
  "wait_for_port connects elapsed limit port =
     poll_until (\<lambda>n. Returned (JBool (connects n))) elapsed (or_else limit 5000) (''port '' @ dec_of_nat port)"

text \<open>A request that fails, or its status with the response.\<close>

definition url_attempt :: "(string + nat \<times> jsval) \<Rightarrow> attempt" where
  "url_attempt r = (case r of Inl e \<Rightarrow> Threw (Some e)
     | Inr (status, response) \<Rightarrow> if 200 \<le> status \<and> status \<le> 299 then Returned response
         else Threw (Some (''Request failed with status '' @ dec_of_nat status @ ''.'')))"

definition wait_for_url :: "(nat \<Rightarrow> string + nat \<times> jsval) \<Rightarrow> (nat \<Rightarrow> rat) \<Rightarrow> rat option \<Rightarrow> string \<Rightarrow> (nat \<times> (string + jsval)) option" where
  "wait_for_url fetch elapsed limit url =
     poll_until (\<lambda>n. url_attempt (fetch n)) elapsed (or_else limit 8000) (''url '' @ url)"

record server_options =
  so_env :: "(string, string) jsmap"
  so_host :: "string option"
  so_port :: "nat option"
  so_ready_path :: "string option"
  so_ready_url :: "string option"

record test_server =
  ts_host :: string
  ts_port :: nat
  ts_base_url :: string
  ts_ready_url :: string
  ts_env :: "(string, string) jsmap"

text \<open>The free port is found when none is given; the environment of the process has it last.\<close>

definition start_server :: "(string, string) jsmap \<Rightarrow> nat \<Rightarrow> server_options \<Rightarrow> test_server" where
  "start_server process_env free_port o1 = (let host = or_else (so_host o1) ''127.0.0.1''; port = or_else (so_port o1) free_port;
       base = ''http://'' @ host @ '':'' @ dec_of_nat port
     in \<lparr>ts_host = host, ts_port = port, ts_base_url = base,
         ts_ready_url = or_else (so_ready_url o1) (base @ or_else (so_ready_path o1) ''/''),
         ts_env = map_set ''PORT'' (dec_of_nat port) (fold (\<lambda>(k, v). map_set k v) (so_env o1) process_env)\<rparr>)"

datatype server_event = Spawned | Called | Killed string | Exited

text \<open>A test with a server: the outcome of waiting for it, that of the test, and that of stopping it.\<close>

definition with_server :: "string + jsval \<Rightarrow> string + 'a \<Rightarrow> string option \<Rightarrow> (string + 'a) \<times> server_event list" where
  "with_server ready result stopped = (let stop = Killed ''SIGTERM'' # (if stopped = None then [Exited] else []);
       (outcome, events) = (case ready of Inl e \<Rightarrow> (Inl e, [Spawned]) | Inr _ \<Rightarrow> (result, [Spawned, Called]))
     in (case stopped of None \<Rightarrow> outcome | Some e \<Rightarrow> Inl e, events @ stop))"

section \<open>Files of a test\<close>

definition safe_segment :: "string \<Rightarrow> string" where
  "safe_segment s = replace_runs (\<lambda>c. c = CHR ''-'') (replace_runs (\<lambda>c. \<not> safe_char c) s)"

definition has_workspace_config :: "string list \<Rightarrow> tree \<Rightarrow> bool" where
  "has_workspace_config ps t \<longleftrightarrow> declares_workspaces (t_files t) ps"

definition is_repo_root :: "string list \<Rightarrow> tree \<Rightarrow> bool" where
  "is_repo_root ps t \<longleftrightarrow> exists_path (path_of_parts (ps @ [''bun.lock''])) t \<or> has_workspace_config ps t"

function repo_root_above :: "tree \<Rightarrow> string list \<Rightarrow> string list option" where
  "repo_root_above t ps = (if is_repo_root ps t then Some ps else if ps = [] then None else repo_root_above t (butlast ps))"
  by pat_completeness auto
termination by (relation "measure (\<lambda>(_, ps). length ps)") auto

declare repo_root_above.simps [simp del]

definition find_repo_root :: "tree \<Rightarrow> string \<Rightarrow> string" where
  "find_repo_root t start = (case repo_root_above t (path_parts (join_names start [])) of Some ps \<Rightarrow> path_of_parts ps | None \<Rightarrow> start)"

definition resolve_output_root :: "tree \<Rightarrow> string \<Rightarrow> string" where
  "resolve_output_root t start = join_names (find_repo_root t start) [''output'']"

definition artifact_dir :: "string \<Rightarrow> string \<Rightarrow> tree \<Rightarrow> string" where
  "artifact_dir type start t = join_names (resolve_output_root t start) [safe_segment type]"

definition artifact_path :: "string \<Rightarrow> string \<Rightarrow> string \<Rightarrow> tree \<Rightarrow> string" where
  "artifact_path type filename start t = join_names (artifact_dir type start t) [safe_segment filename]"

text \<open>The directory is made with the path; the result is the path written.\<close>

definition write_artifact :: "string \<Rightarrow> string \<Rightarrow> string \<Rightarrow> string \<Rightarrow> tree \<Rightarrow> string \<times> tree" where
  "write_artifact type filename contents start t = (let p = artifact_path type filename start t in
     (p, write_file p contents (ensure_dir (artifact_dir type start t) t)))"

definition write_json_artifact :: "string \<Rightarrow> string \<Rightarrow> jsval \<Rightarrow> string \<Rightarrow> tree \<Rightarrow> string \<times> tree" where
  "write_json_artifact type filename data start = write_artifact type filename (json_text data) start"

section \<open>Answers\<close>

text \<open>The text of an answer with its JSON, if it has any.\<close>

definition fetch_json :: "string \<Rightarrow> jsval option \<times> string" where
  "fetch_json body = (json_parse body, body)"

definition expect_status :: "nat \<Rightarrow> nat list \<Rightarrow> string option" where
  "expect_status status expected = (if status \<in> set expected then None
     else Some (''Expected status '' @ join_with '', '' (map dec_of_nat expected) @ '', got '' @ dec_of_nat status))"

section \<open>Polling ends, and takes the first answer\<close>

definition answers :: "attempt \<Rightarrow> bool" where
  "answers a \<longleftrightarrow> (case a of Returned v \<Rightarrow> is_ready v | Threw _ \<Rightarrow> False)"

lemma poll_from_step:
  "answers (world n) \<Longrightarrow> world n = Returned v \<Longrightarrow> poll_from world elapsed limit d n e = Some (n, Inr v)"
  "\<not> answers (world n) \<Longrightarrow> limit \<le> elapsed n \<Longrightarrow>
    poll_from world elapsed limit d n e = Some (n, Inl (timed_out (str_of_rat limit) d (last_error (world n) e)))"
  "\<not> answers (world n) \<Longrightarrow> elapsed n < limit \<Longrightarrow>
    poll_from world elapsed limit d n e = poll_from world elapsed limit d (Suc n) (last_error (world n) e)"
  by (subst poll_from.simps, simp add: answers_def)+

lemma poll_from_result:
  assumes "n \<le> k" "answers (world k) \<or> limit \<le> elapsed k" "\<forall>j. n \<le> j \<and> j < k \<longrightarrow> \<not> answers (world j) \<and> elapsed j < limit"
  shows "\<exists>r. poll_from world elapsed limit d n e = Some (k, r) \<and>
    (case r of Inr v \<Rightarrow> world k = Returned v \<and> is_ready v
     | Inl m \<Rightarrow> \<not> answers (world k) \<and> limit \<le> elapsed k \<and> (\<exists>x. m = timed_out (str_of_rat limit) d x))"
  using assms
proof (induction "k - n" arbitrary: n e)
  case 0
  show ?case
  proof (cases "answers (world k)")
    case True
    then obtain v where "world k = Returned v" "is_ready v" by (auto simp: answers_def split: attempt.splits)
    with 0 True show ?thesis by (simp add: poll_from_step(1))
  next
    case False
    with 0 show ?thesis by (auto simp: poll_from_step(2))
  qed
next
  case (Suc m)
  then have "\<not> answers (world n)" "elapsed n < limit" by (auto simp: Suc_le_eq)
  with Suc show ?case using poll_from_step(3) [of world n elapsed limit d e] by simp
qed

theorem poll_until_result:
  assumes "limit \<le> elapsed m"
  shows "\<exists>k r. poll_until world elapsed limit d = Some (k, r) \<and> k \<le> m \<and> (\<forall>j<k. \<not> answers (world j) \<and> elapsed j < limit) \<and>
    (case r of Inr v \<Rightarrow> world k = Returned v \<and> is_ready v
     | Inl e \<Rightarrow> \<not> answers (world k) \<and> limit \<le> elapsed k \<and> (\<exists>x. e = timed_out (str_of_rat limit) d x))"
proof -
  define k where "k = (LEAST j. answers (world j) \<or> limit \<le> elapsed j)"
  have ends: "answers (world k) \<or> limit \<le> elapsed k" unfolding k_def by (rule LeastI [of _ m]) (simp add: assms)
  have "k \<le> m" unfolding k_def by (rule Least_le) (simp add: assms)
  moreover have before: "\<not> answers (world j) \<and> elapsed j < limit" if "j < k" for j
    using not_less_Least [of j "\<lambda>j. answers (world j) \<or> limit \<le> elapsed j"] that by (simp add: k_def not_le)
  ultimately show ?thesis using poll_from_result [of 0 k world limit elapsed d None] ends by (auto simp: poll_until_def)
qed

text \<open>With a clock that moves by the interval at least, there is a bound on the calls.\<close>

lemma poll_until_bounded:
  assumes "0 < interval" "\<forall>n. elapsed n + interval \<le> elapsed (Suc n)" "0 \<le> elapsed 0" "limit \<le> of_nat m * interval"
  shows "\<exists>k\<le>m. \<exists>r. poll_until world elapsed limit d = Some (k, r)"
proof -
  have "of_nat n * interval \<le> elapsed n" for n
  proof (induction n)
    case (Suc n)
    have "of_nat (Suc n) * interval = of_nat n * interval + interval" by (simp add: algebra_simps)
    also have "\<dots> \<le> elapsed n + interval" using Suc by simp
    finally show ?case using assms(2) order_trans by blast
  qed (use assms(3) in simp)
  then have "limit \<le> elapsed m" using assms(4) order_trans by blast
  from poll_until_result [of limit elapsed m world d, OF this] show ?thesis by blast
qed

section \<open>Those who wait\<close>

text \<open>What a call may come to: the text received by then, with the output asked for in it; or an error, of
  the end of the output or of a time that has passed.\<close>

fun outcome_ok :: "collector \<Rightarrow> matcher option \<Rightarrow> settled \<Rightarrow> bool" where
  "outcome_ok c (Some m) (Resolved t) = (matches_output t m \<and> starts_with t (co_text c))"
| "outcome_ok c (Some m) (Rejected e) = ((co_done c \<and> e = ''Stream ended before output matched.'') \<or>
     (\<exists>limit. e = ''Timed out after '' @ str_of_rat limit @ ''ms waiting for output.''))"
| "outcome_ok c None x = False"

definition settled_ok :: "collector \<Rightarrow> (nat \<Rightarrow> matcher option) \<Rightarrow> bool" where
  "settled_ok c calls \<longleftrightarrow> distinct (map fst (co_waiters c) @ map fst (co_settled c)) \<and> dom calls = used_numbers c \<and>
     list_all (\<lambda>(i, m, l). calls i = Some m) (co_waiters c) \<and> list_all (\<lambda>(i, x). outcome_ok c (calls i) x) (co_settled c)"

definition none_missed :: "collector \<Rightarrow> bool" where
  "none_missed c \<longleftrightarrow> list_all (\<lambda>(i, m, l). \<not> matches_output (co_text c) m) (co_waiters c)"

lemma split_numbers:
  assumes "distinct (map fst ws @ xs)"
  shows "distinct (map fst (filter (\<lambda>w. \<not> P w) ws) @ xs @ map fst (filter P ws))"
proof -
  have "mset (map fst (filter (\<lambda>w. \<not> P w) ws) @ xs @ map fst (filter P ws)) = mset (map fst ws @ xs)"
    by (induction ws) auto
  then show ?thesis using assms mset_eq_imp_distinct_iff by blast
qed

lemma map_number [simp]: "map (fst \<circ> (\<lambda>(i, m, l). (i, g m l))) ws = map fst ws"
  by (induction ws) auto

lemma image_number [simp]: "fst ` (\<lambda>(i, m, l). (i, g m l)) ` A = fst ` A"
  by (force simp: image_iff)

lemma starts_with_more: "starts_with t s \<Longrightarrow> starts_with t (s @ r)"
  using append_take_drop_id [of "length t" s] unfolding starts_with_def by (metis append_assoc append_eq_conv_conj)

lemma outcome_later:
  "outcome_ok c m x \<Longrightarrow> co_text d = co_text c @ s \<Longrightarrow> (co_done c \<Longrightarrow> co_done d) \<Longrightarrow> outcome_ok d m x"
  by (cases "(c, m, x)" rule: outcome_ok.cases) (auto simp: starts_with_more)

lemma resolve_numbers: "used_numbers (resolve_waiters c) = used_numbers c"
proof -
  have "set ws = set (filter (\<lambda>w. \<not> P w) ws) \<union> set (filter P ws)" for P and ws :: "'x list" by auto
  then show ?thesis unfolding used_numbers_def
    by (simp add: resolve_waiters_def Let_def image_Un) (auto simp: image_iff)
qed

lemma end_numbers: "used_numbers (reject_waiters c) = used_numbers c"
  by (auto simp: reject_waiters_def used_numbers_def image_Un)

lemma text_comes: "settled_ok c calls \<Longrightarrow> settled_ok (c\<lparr>co_text := co_text c @ s\<rparr>) calls"
  "settled_ok c calls \<Longrightarrow> settled_ok (c\<lparr>co_text := co_text c @ s, co_done := True\<rparr>) calls"
  by (auto simp: settled_ok_def used_numbers_def list_all_iff intro: outcome_later)

lemma resolve_settles:
  assumes "settled_ok c calls"
  shows "settled_ok (resolve_waiters c) calls" "none_missed (resolve_waiters c)"
proof -
  let ?hit = "\<lambda>(i, m, l). matches_output (co_text c) m"
  have "distinct (map fst (filter (\<lambda>w. \<not> ?hit w) (co_waiters c)) @ map fst (co_settled c) @ map fst (filter ?hit (co_waiters c)))"
    using assms by (intro split_numbers) (simp add: settled_ok_def)
  moreover have "outcome_ok (resolve_waiters c) m x" if "outcome_ok c m x" for m x
    by (rule outcome_later [OF that, where s = "[]"]) (simp_all add: resolve_waiters_def Let_def)
  ultimately show "settled_ok (resolve_waiters c) calls"
    using assms unfolding settled_ok_def resolve_numbers
    by (auto simp: resolve_waiters_def Let_def list_all_iff starts_with_def)
  show "none_missed (resolve_waiters c)" by (auto simp: none_missed_def resolve_waiters_def list_all_iff Let_def)
qed

lemma end_settles_all:
  assumes "settled_ok c calls" "co_done c"
  shows "settled_ok (reject_waiters c) calls" "none_missed (reject_waiters c)"
proof -
  have "outcome_ok (reject_waiters c) m x" if "outcome_ok c m x" for m x
    by (rule outcome_later [OF that, where s = "[]"]) (simp_all add: reject_waiters_def)
  then show "settled_ok (reject_waiters c) calls"
    using assms unfolding settled_ok_def end_numbers by (auto simp: reject_waiters_def list_all_iff)
  show "none_missed (reject_waiters c)" by (simp add: none_missed_def reject_waiters_def)
qed

lemma call_settles:
  assumes "settled_ok c calls" "none_missed c" "calls i = None"
  shows "settled_ok (wait_for i m limit c) (calls(i \<mapsto> m))" "none_missed (wait_for i m limit c)"
proof -
  have new: "i \<notin> used_numbers c" using assms(1,3) by (auto simp: settled_ok_def domIff)
  have same: "outcome_ok (wait_for i m limit c) n x" if "outcome_ok c n x" for n x
    by (rule outcome_later [OF that, where s = "[]"]) (simp_all add: wait_for_def)
  have waiting: "j \<noteq> i \<and> calls j = Some n" if "(j, n, l) \<in> set (co_waiters c)" for j n l
  proof
    show "j \<noteq> i" using that new by (force simp: used_numbers_def)
    show "calls j = Some n" using assms(1) that by (auto simp: settled_ok_def list_all_iff)
  qed
  have settled: "j \<noteq> i \<and> outcome_ok (wait_for i m limit c) (calls j) x" if "(j, x) \<in> set (co_settled c)" for j x
  proof
    show "j \<noteq> i" using that new by (force simp: used_numbers_def)
    show "outcome_ok (wait_for i m limit c) (calls j) x"
      using assms(1) that by (intro same) (auto simp: settled_ok_def list_all_iff)
  qed
  have old: "distinct (map fst (co_waiters c) @ map fst (co_settled c))" "dom calls = used_numbers c" using assms(1) by (simp_all add: settled_ok_def)
  show "settled_ok (wait_for i m limit c) (calls(i \<mapsto> m))"
    unfolding settled_ok_def
  proof (intro conjI)
    show "distinct (map fst (co_waiters (wait_for i m limit c)) @ map fst (co_settled (wait_for i m limit c)))"
      using old(1) new by (auto simp: wait_for_def used_numbers_def)
    show "dom (calls(i \<mapsto> m)) = used_numbers (wait_for i m limit c)"
      unfolding dom_fun_upd using old(2) by (auto simp: wait_for_def used_numbers_def)
    show "list_all (\<lambda>(j, n, l). (calls(i \<mapsto> m)) j = Some n) (co_waiters (wait_for i m limit c))"
      using waiting by (auto simp: wait_for_def list_all_iff)
    have "list_all (\<lambda>(j, x). outcome_ok (wait_for i m limit c) ((calls(i \<mapsto> m)) j) x) (co_settled c)"
      using settled by (auto simp: list_all_iff)
    moreover have "outcome_ok (wait_for i m limit c) (Some m) (Resolved (co_text c))" if "matches_output (co_text c) m"
      using that by (simp add: wait_for_def starts_with_def)
    ultimately show "list_all (\<lambda>(j, x). outcome_ok (wait_for i m limit c) ((calls(i \<mapsto> m)) j) x) (co_settled (wait_for i m limit c))"
      by (cases "matches_output (co_text c) m") (simp_all add: wait_for_def)
  qed
  show "none_missed (wait_for i m limit c)" using assms(2) by (simp add: none_missed_def wait_for_def)
qed

lemma time_over_settles:
  assumes "settled_ok c calls" "none_missed c"
  shows "settled_ok (wait_over i c) calls" "none_missed (wait_over i c)"
proof -
  show "none_missed (wait_over i c)" using assms(2) by (auto simp: none_missed_def wait_over_def list_all_iff split: option.split)
  show "settled_ok (wait_over i c) calls"
  proof (cases "map_of (co_waiters c) i")
    case (Some w)
    obtain m l where w: "w = (m, l)" by (cases w)
    have i: "i \<in> fst ` set (co_waiters c)" using Some by (metis map_of_eq_None_iff option.distinct(1))
    have over: "wait_over i c = c\<lparr>co_waiters := filter (\<lambda>w. fst w \<noteq> i) (co_waiters c),
        co_settled := co_settled c @ [(i, Rejected (''Timed out after '' @ str_of_rat l @ ''ms waiting for output.''))]\<rparr>"
      by (simp add: wait_over_def Some w)
    have same: "outcome_ok (wait_over i c) n x" if "outcome_ok c n x" for n x
      by (rule outcome_later [OF that, where s = "[]"]) (simp_all add: over)
    have call: "calls i = Some m" using assms(1) map_of_SomeD [OF Some] by (auto simp: settled_ok_def w list_all_iff)
    have numbers: "used_numbers (wait_over i c) = used_numbers c" using i by (force simp: used_numbers_def over)
    have once: "distinct (map fst (filter (\<lambda>w. fst w \<noteq> i) (co_waiters c)) @ map fst (co_settled c))" "i \<notin> fst ` set (co_settled c)"
      using assms(1) i by (auto simp: settled_ok_def distinct_map_filter)
    have timed: "outcome_ok (wait_over i c) (calls i) (Rejected (''Timed out after '' @ str_of_rat l @ ''ms waiting for output.''))"
      unfolding call outcome_ok.simps by blast
    show ?thesis unfolding settled_ok_def
    proof (intro conjI)
      show "distinct (map fst (co_waiters (wait_over i c)) @ map fst (co_settled (wait_over i c)))"
        using once unfolding over by auto
      show "dom calls = used_numbers (wait_over i c)" using assms(1) by (simp only: numbers settled_ok_def)
      show "list_all (\<lambda>(i, m, l). calls i = Some m) (co_waiters (wait_over i c))"
        using assms(1) by (auto simp: settled_ok_def over list_all_iff)
      have "list_all (\<lambda>(j, x). outcome_ok (wait_over i c) (calls j) x) (co_settled c)"
        using assms(1) same unfolding settled_ok_def list_all_iff by blast
      moreover have "co_settled (wait_over i c) = co_settled c @ [(i, Rejected (''Timed out after '' @ str_of_rat l @ ''ms waiting for output.''))]"
        by (simp add: over)
      ultimately show "list_all (\<lambda>(j, x). outcome_ok (wait_over i c) (calls j) x) (co_settled (wait_over i c))"
        using timed by simp
    qed
  qed (use assms in \<open>simp add: wait_over_def\<close>)
qed

text \<open>C40. The waits of a collector. In every run each call of \<open>waitFor\<close> is waiting or settled, exactly
  one of the two and once; a call is waiting only while the text received does not have the output it
  asked for; and a call that was settled was given a beginning of the text received which has that
  output, or the error of the end of an output that has ended, or that of its time.\<close>

theorem collector_always_ok:
  assumes "collector_reach (c, calls)"
  shows "distinct (map fst (co_waiters c) @ map fst (co_settled c)) \<and>
    dom calls = fst ` set (co_waiters c) \<union> fst ` set (co_settled c) \<and>
    (\<forall>(i, m, l) \<in> set (co_waiters c). calls i = Some m \<and> \<not> matches_output (co_text c) m) \<and>
    (\<forall>(i, x) \<in> set (co_settled c). outcome_ok c (calls i) x)"
proof -
  have "settled_ok (fst p) (snd p) \<and> none_missed (fst p)" if "collector_reach p" for p
    using that
  proof (induction rule: collector_reach.induct)
    case fresh
    then show ?case by (simp add: settled_ok_def none_missed_def fresh_collector_def used_numbers_def)
  next
    case (step p q)
    from step(2) show ?case
    proof cases
      case (chunk c calls s)
      with step(3) have "settled_ok (c\<lparr>co_text := co_text c @ s\<rparr>) calls" by (simp add: text_comes)
      from resolve_settles [OF this] chunk show ?thesis by (simp add: on_chunk_def)
    next
      case (ended c calls s)
      with step(3) have "settled_ok (c\<lparr>co_text := co_text c @ s, co_done := True\<rparr>) calls" by (simp add: text_comes)
      from end_settles_all [OF this] ended show ?thesis by (simp add: on_done_def)
    next
      case (waits calls i c m limit)
      with step(3) show ?thesis using call_settles [of c calls i m limit] by (simp del: fun_upd_apply)
    next
      case (over c calls i)
      with step(3) show ?thesis using time_over_settles [of c calls i] by simp
    qed
  qed
  from this [OF assms] show ?thesis
    by (auto simp: settled_ok_def none_missed_def used_numbers_def list_all_iff)
qed

text \<open>When the output has ended nobody waits who waited before, and nobody is forgotten.\<close>

lemma end_settles: "co_waiters (on_done s c) = []" "fst ` set (co_settled (on_done s c)) = used_numbers c"
  by (auto simp: on_done_def reject_waiters_def used_numbers_def image_Un)

lemma settled_stay: "collector_step p q \<Longrightarrow> used_numbers (fst p) \<subseteq> used_numbers (fst q) \<and> (\<exists>new. co_settled (fst q) = co_settled (fst p) @ new)"
proof (induction rule: collector_step.induct)
  case (chunk c calls s)
  have "used_numbers (on_chunk s c) = used_numbers c" unfolding on_chunk_def resolve_numbers by (simp add: used_numbers_def)
  then show ?case by (simp add: on_chunk_def resolve_waiters_def Let_def)
next
  case (ended c calls s)
  have "used_numbers (on_done s c) = used_numbers c" using end_settles [of s c] by (auto simp: used_numbers_def)
  then show ?case by (simp add: on_done_def reject_waiters_def)
next
  case (waits calls i c m limit)
  then show ?case by (auto simp: wait_for_def used_numbers_def)
next
  case (over c calls i)
  have "i \<in> fst ` set (co_waiters c)" if "map_of (co_waiters c) i \<noteq> None" using that by (simp add: map_of_eq_None_iff)
  then show ?case by (auto simp: wait_over_def used_numbers_def split: option.split)
qed

text \<open>A call after the end waits for its whole time, for a text that cannot come any more.\<close>

lemma late_wait_is_kept: "\<not> matches_output (co_text c) m \<Longrightarrow> co_waiters (wait_for i m limit (on_done [] c)) = [(i, m, or_else limit 5000)]"
  by (simp add: wait_for_def on_done_def reject_waiters_def)

section \<open>Quiet\<close>

text \<open>The first look and the first comparison are in one run of the code, so the texts are the same: the
  wait is over at once, whatever time it was given.\<close>

theorem quiet_at_once:
  assumes "seen 1 = seen 0"
  shows "wait_for_quiet (Some seen) elapsed limit = Some (0, Inr (seen 2))"
proof -
  have "answers (quiet_attempt seen 0)" "quiet_attempt seen 0 = Returned (JBool True)"
    using assms by (simp_all add: quiet_attempt_def answers_def is_ready_def)
  from poll_from_step(1) [of "quiet_attempt seen" 0, OF this] show ?thesis by (simp add: wait_for_quiet_def poll_until_def numeral_2_eq_2)
qed

section \<open>A server is stopped\<close>

theorem server_always_stopped:
  "\<exists>before after. snd (with_server ready result stopped) = Spawned # before @ Killed ''SIGTERM'' # after \<and>
     (before = [Called] \<longleftrightarrow> (\<exists>x. ready = Inr x)) \<and> (after = [Exited] \<longleftrightarrow> stopped = None)"
  "stopped = None \<Longrightarrow> fst (with_server ready result stopped) = (case ready of Inl e \<Rightarrow> Inl e | Inr _ \<Rightarrow> result)"
  by (auto simp: with_server_def Let_def split: sum.split option.split)

section \<open>Names of files\<close>

lemma safe_dash_again: "\<not> safe_char c \<Longrightarrow> c \<noteq> CHR ''-''"
  by auto

theorem safe_segment_safe:
  "list_all safe_char (safe_segment s) \<and> no_double CHR ''-'' (safe_segment s) \<and> safe_segment (safe_segment s) = safe_segment s"
proof -
  let ?dash = "\<lambda>c. c = CHR ''-''"
  have safe: "list_all safe_char (safe_segment s)"
    by (auto simp: safe_segment_def list_all_iff dest!: replace_runs_chars)
  have single: "no_double CHR ''-'' (safe_segment s)" by (simp add: safe_segment_def replace_runs_single)
  have "replace_runs (\<lambda>c. \<not> safe_char c) (safe_segment s) = safe_segment s"
    using safe by (intro replace_runs_id) (auto simp: list_all_iff)
  then have "safe_segment (safe_segment s) = replace_runs ?dash (safe_segment s)" by (simp add: safe_segment_def)
  also have "\<dots> = safe_segment s" using single by (intro replace_dashes_id) simp_all
  finally show ?thesis using safe single by simp
qed

text \<open>Dots are safe, so two of them lead out of the directory of the artifacts.\<close>

lemma dots_lead_out:
  "artifact_path ''..'' ''package.json'' ''/repo'' \<lparr>t_texts = [(''/repo/bun.lock'', [])], t_dirs = [''/'', ''/repo'']\<rparr> = ''/repo/package.json''"
  by code_simp

lemma artifact_read_back:
  assumes "plain data" "write_json_artifact type filename data start t = (p, t')"
  shows "Option.bind (t_files t' p) json_parse = Some data"
proof -
  have "t_files t' p = Some (json_text data)" using assms(2) by (auto simp: write_json_artifact_def write_artifact_def Let_def)
  then show ?thesis using file_read_back [OF assms(1)] by (simp add: printed_text_kept)
qed

section \<open>At work\<close>

definition demo_attempt :: "nat \<Rightarrow> attempt" where
  "demo_attempt n = (if n < 2 then Threw (Some ''refused'') else Returned (JStr ''up''))"

lemma poll_until_result_witness:
  "\<exists>k r. poll_until demo_attempt (\<lambda>n. of_nat n * 100) 1000 ''server'' = Some (k, r) \<and> k \<le> 10"
proof -
  have "(1000 :: rat) \<le> of_nat 10 * 100" by simp
  from poll_until_result [of 1000 "\<lambda>n. of_nat n * 100" 10 demo_attempt "''server''", OF this] show ?thesis by blast
qed

lemma collector_always_ok_witness:
  "outcome_ok (on_chunk ''ready'' (wait_for 0 (Plain ''ready'') None fresh_collector)) (Some (Plain ''ready'')) (Resolved ''ready'') \<and>
   co_settled (on_chunk ''ready'' (wait_for 0 (Plain ''ready'') None fresh_collector)) = [(0, Resolved ''ready'')]"
proof -
  have "collector_step (fresh_collector, \<lambda>_. None) (wait_for 0 (Plain ''ready'') None fresh_collector, [0 \<mapsto> Plain ''ready''])"
    by (rule waits) simp
  moreover have "\<not> co_done (wait_for 0 (Plain ''ready'') None fresh_collector)" by code_simp
  ultimately have run: "collector_reach (on_chunk ''ready'' (wait_for 0 (Plain ''ready'') None fresh_collector), [0 \<mapsto> Plain ''ready''])"
    using fresh step chunk by metis
  have "\<forall>(i, x) \<in> set (co_settled (on_chunk ''ready'' (wait_for 0 (Plain ''ready'') None fresh_collector))).
      outcome_ok (on_chunk ''ready'' (wait_for 0 (Plain ''ready'') None fresh_collector)) ([0 \<mapsto> Plain ''ready''] i) x"
    using collector_always_ok [OF run] by blast
  moreover have "co_settled (on_chunk ''ready'' (wait_for 0 (Plain ''ready'') None fresh_collector)) = [(0, Resolved ''ready'')]" by code_simp
  ultimately show ?thesis by (simp only: list.set ball_simps prod.case fun_upd_same simp_thms)
qed

lemma quiet_at_once_witness: "wait_for_quiet (Some (\<lambda>n. if n < 2 then ''a'' else ''ab'')) (\<lambda>n. 0) None = Some (0, Inr ''ab'')"
  using quiet_at_once [of "\<lambda>n. if n < 2 then ''a'' else ''ab''"] by simp

end
