(* ===== verification/QaLogger.thy ===== *)
theory QaLogger
  imports JsonPrint Config
begin

text \<open>
  The logger of the command line tools, \<open>packages/qa/src/logger\<close>: levels, lines and children, the debug
  namespaces with their patterns, the flags of a tool, and the spinner.

  A stream is a number; \<open>tty\<close> says which of them are terminals. The clock of a logger is what it shows at
  the \<open>n\<close>th moment.
\<close>

section \<open>Levels\<close>

datatype log_level = DebugLevel | InfoLevel | WarnLevel | ErrorLevel | SilentLevel

fun level_order :: "log_level \<Rightarrow> nat" where
  "level_order DebugLevel = 10"
| "level_order InfoLevel = 20"
| "level_order WarnLevel = 30"
| "level_order ErrorLevel = 40"
| "level_order SilentLevel = 50"

fun level_name :: "log_level \<Rightarrow> string" where
  "level_name DebugLevel = ''debug''"
| "level_name InfoLevel = ''info''"
| "level_name WarnLevel = ''warn''"
| "level_name ErrorLevel = ''error''"
| "level_name SilentLevel = ''silent''"

definition log_levels :: "log_level list" where
  "log_levels = [DebugLevel, InfoLevel, WarnLevel, ErrorLevel, SilentLevel]"

instantiation log_level :: linorder
begin

definition less_eq_log_level :: "log_level \<Rightarrow> log_level \<Rightarrow> bool" where
  "less_eq_log_level a b \<longleftrightarrow> level_order a \<le> level_order b"

definition less_log_level :: "log_level \<Rightarrow> log_level \<Rightarrow> bool" where
  "less_log_level a b \<longleftrightarrow> level_order a < level_order b"

instance
proof
  fix a b :: log_level
  show "a \<le> b \<Longrightarrow> b \<le> a \<Longrightarrow> a = b" by (cases a; cases b) (simp_all add: less_eq_log_level_def)
qed (auto simp: less_eq_log_level_def less_log_level_def)

end

text \<open>A level by its name; the name a logger is configured with may be none of them, and lets nothing through.\<close>

definition level_of :: "string \<Rightarrow> log_level option" where
  "level_of s = find (\<lambda>l. level_name l = s) log_levels"

definition normalize_level :: "string option \<Rightarrow> log_level option" where
  "normalize_level level = (let s = or_else level [] in if s = [] then None else level_of (to_lower s))"

definition should_log :: "log_level \<Rightarrow> string \<Rightarrow> bool" where
  "should_log level configured = (case level_of configured of None \<Rightarrow> False | Some c \<Rightarrow> c \<le> level)"

section \<open>Lines\<close>

type_synonym meta = "(string \<times> jsval) list"

definition strip_msg :: "meta option \<Rightarrow> meta" where
  "strip_msg m = (case m of None \<Rightarrow> [] | Some kvs \<Rightarrow> map_del ''msg'' kvs)"

definition meta_text :: "jsval \<Rightarrow> string" where
  "meta_text v = (case v of JStr s \<Rightarrow> s | JUndef \<Rightarrow> ''undefined'' | _ \<Rightarrow> json_stringify 0 v)"

definition format_meta :: "meta \<Rightarrow> string" where
  "format_meta m = join_with '' '' (map (\<lambda>(k, v). k @ ''='' @ meta_text v) m)"

definition color :: "string \<Rightarrow> string" where
  "color code = CHR 0x1B # CHR 0x5B # code @ ''m''"

definition level_color :: "log_level \<Rightarrow> string" where
  "level_color level = (case level of DebugLevel \<Rightarrow> color ''2'' | InfoLevel \<Rightarrow> color ''36'' | WarnLevel \<Rightarrow> color ''33''
     | ErrorLevel \<Rightarrow> color ''31'' | SilentLevel \<Rightarrow> color ''0'')"

definition format_message :: "bool \<Rightarrow> bool \<Rightarrow> log_level \<Rightarrow> meta \<Rightarrow> string \<Rightarrow> rat \<Rightarrow> string" where
  "format_message is_tty json level m msg now =
     (if json then json_stringify 0 (JObj (spread_over
           [(''level'', JStr (level_name level)), (''msg'', JStr msg), (''timestamp'', js_rat now)] m)) @ [CHR 0x0A]
      else let label = to_upper (level_name level); colored = (if is_tty then level_color level @ label @ color ''0'' else label);
             rest = format_meta m
           in colored @ '' '' @ msg @ (if rest = [] then [] else '' '' @ rest) @ [CHR 0x0A])"

section \<open>Loggers\<close>

record log_state =
  lg_base :: meta
  lg_tty :: "bool option"
  lg_json :: bool
  lg_level :: string
  lg_out :: nat
  lg_err :: nat
  lg_clock :: "nat \<Rightarrow> rat"

text \<open>What \<open>init\<close> is given; a level that is empty is not taken.\<close>

record log_init =
  li_level :: "string option"
  li_json :: "bool option"
  li_tty :: "bool option"
  li_out :: "nat option"
  li_err :: "nat option"
  li_clock :: "(nat \<Rightarrow> rat) option"

definition create_logger :: "meta option \<Rightarrow> log_init \<Rightarrow> (nat \<Rightarrow> rat) \<Rightarrow> log_state" where
  "create_logger base i date_now = \<lparr>lg_base = strip_msg base, lg_tty = li_tty i, lg_json = or_else (li_json i) False,
     lg_level = or_else (li_level i) ''info'', lg_out = or_else (li_out i) 1, lg_err = or_else (li_err i) 2,
     lg_clock = or_else (li_clock i) date_now\<rparr>"

definition write_log :: "(nat \<Rightarrow> bool) \<Rightarrow> nat \<Rightarrow> log_state \<Rightarrow> log_level \<Rightarrow> string \<Rightarrow> meta option \<Rightarrow> (nat \<times> string) option" where
  "write_log tty now st level msg m = (if \<not> should_log level (lg_level st) then None
     else let stream = (if level = WarnLevel \<or> level = ErrorLevel then lg_err st else lg_out st)
       in Some (stream, format_message (or_else (lg_tty st) (tty stream)) (lg_json st) level
            (spread_over (lg_base st) (strip_msg m)) msg (lg_clock st now)))"

definition apply_init :: "log_init \<Rightarrow> log_state \<Rightarrow> log_state" where
  "apply_init i st = st\<lparr>lg_level := (if or_else (li_level i) [] = [] then lg_level st else or_else (li_level i) []),
     lg_out := or_else (li_out i) (lg_out st), lg_err := or_else (li_err i) (lg_err st), lg_clock := or_else (li_clock i) (lg_clock st),
     lg_json := or_else (li_json i) (lg_json st), lg_tty := first_some (li_tty i) (lg_tty st)\<rparr>"

definition child :: "meta \<Rightarrow> log_state \<Rightarrow> log_state" where
  "child m st = st\<lparr>lg_base := map_del ''msg'' (spread_over (lg_base st) (strip_msg (Some m)))\<rparr>"

section \<open>Namespaces\<close>

text \<open>The source of the expression made of a pattern: the characters with a meaning in expressions are
  escaped, then every star is a run of any characters, and the expression is for the whole text.\<close>

definition escaped_chars :: string where
  "escaped_chars = [CHR ''.'', CHR ''+'', CHR ''?'', CHR ''^'', CHR 0x24, CHR 0x7B, CHR 0x7D, CHR ''('', CHR '')'', CHR ''|'', CHR 0x5B, CHR 0x5D, CHR 0x5C]"

definition escape_pattern :: "string \<Rightarrow> string" where
  "escape_pattern p = concat (map (\<lambda>c. if c \<in> set escaped_chars then [CHR 0x5C, c] else [c]) p)"

definition replace_stars :: "string \<Rightarrow> string" where
  "replace_stars p = concat (map (\<lambda>c. if c = CHR ''*'' then ''.*'' else [c]) p)"

definition namespace_regex :: "string \<Rightarrow> string" where
  "namespace_regex p = CHR ''^'' # replace_stars (escape_pattern p) @ [CHR 0x24]"

text \<open>\<open>new RegExp(source)\<close>: the expressions without groups, classes and alternatives, as the items of the
  source; \<open>None\<close> for any other. An escaped character with a meaning in expressions stands for itself.\<close>

datatype re_atom = ReChar char | ReDot

datatype re_times = ReOnce | ReStar | RePlus | ReOpt

datatype re_item = ReItem re_atom re_times | ReStart | ReEnd

definition re_times_of :: "string \<Rightarrow> re_times \<times> string" where
  "re_times_of s = (case s of [] \<Rightarrow> (ReOnce, s)
     | c # r \<Rightarrow> if c = CHR ''*'' then (ReStar, r) else if c = CHR ''+'' then (RePlus, r) else if c = CHR ''?'' then (ReOpt, r) else (ReOnce, s))"

lemma re_times_of_length [simp]: "length (snd (re_times_of s)) \<le> length s"
  by (simp add: re_times_of_def split: list.split)

definition re_syntax :: "char \<Rightarrow> bool" where
  "re_syntax c \<longleftrightarrow> c \<in> set escaped_chars \<or> c = CHR ''*'' \<or> c = CHR ''/''"

function re_parse :: "string \<Rightarrow> re_item list option" where
  "re_parse s = (case s of [] \<Rightarrow> Some []
     | c # r \<Rightarrow>
         if c = CHR ''^'' then map_option ((#) ReStart) (re_parse r)
         else if c = CHR 0x24 then map_option ((#) ReEnd) (re_parse r)
         else if c = CHR 0x5C then (case r of [] \<Rightarrow> None
           | d # r' \<Rightarrow> if re_syntax d then map_option ((#) (ReItem (ReChar d) (fst (re_times_of r')))) (re_parse (snd (re_times_of r'))) else None)
         else if c = CHR ''.'' then map_option ((#) (ReItem ReDot (fst (re_times_of r)))) (re_parse (snd (re_times_of r)))
         else if c \<noteq> CHR ''/'' \<and> re_syntax c then None
         else map_option ((#) (ReItem (ReChar c) (fst (re_times_of r)))) (re_parse (snd (re_times_of r))))"
  by pat_completeness auto
termination
  by (relation "measure length") (simp_all add: less_Suc_eq_le re_times_of_length [THEN le_SucI])

declare re_parse.simps [simp del]

text \<open>\<open>.\<close> is any character but the end of a line.\<close>

definition dot :: "char \<Rightarrow> bool" where
  "dot c \<longleftrightarrow> code_of c \<noteq> 10 \<and> code_of c \<noteq> 13"

fun re_char :: "re_atom \<Rightarrow> char \<Rightarrow> bool" where
  "re_char (ReChar d) c = (c = d)"
| "re_char ReDot c = dot c"

text \<open>A match that begins here, which is or is not the start of the text, and goes on into the text left.\<close>

fun re_here :: "re_item list \<Rightarrow> bool \<Rightarrow> string \<Rightarrow> bool" where
  "re_here [] start s = True"
| "re_here (ReStart # is) start s = (start \<and> re_here is start s)"
| "re_here (ReEnd # is) start s = (s = [] \<and> re_here is start s)"
| "re_here (ReItem a ReOnce # is) start s = (case s of [] \<Rightarrow> False | c # r \<Rightarrow> re_char a c \<and> re_here is False r)"
| "re_here (ReItem a ReStar # is) start s = (re_here is start s \<or>
     (case s of [] \<Rightarrow> False | c # r \<Rightarrow> re_char a c \<and> re_here (ReItem a ReStar # is) False r))"
| "re_here (ReItem a RePlus # is) start s = (case s of [] \<Rightarrow> False | c # r \<Rightarrow> re_char a c \<and> re_here (ReItem a ReStar # is) False r)"
| "re_here (ReItem a ReOpt # is) start s = (re_here is start s \<or> (case s of [] \<Rightarrow> False | c # r \<Rightarrow> re_char a c \<and> re_here is False r))"

text \<open>\<open>regex.test\<close>: a match that begins anywhere.\<close>

definition re_test :: "re_item list \<Rightarrow> string \<Rightarrow> bool" where
  "re_test is s \<longleftrightarrow> re_here is True s \<or> list_ex (\<lambda>n. re_here is False (drop n s)) [1..<Suc (length s)]"

definition pattern_matches :: "string \<Rightarrow> string \<Rightarrow> bool" where
  "pattern_matches p s \<longleftrightarrow> (case re_parse (namespace_regex p) of None \<Rightarrow> False | Some is \<Rightarrow> re_test is s)"

definition matches_namespace :: "string \<Rightarrow> string list \<Rightarrow> bool" where
  "matches_namespace namespace patterns \<longleftrightarrow> list_ex (\<lambda>p. pattern_matches p namespace) patterns"

definition set_debug_namespaces :: "string list option \<Rightarrow> string list option" where
  "set_debug_namespaces ns = (if or_else ns [] = [] then None else ns)"

text \<open>\<open>debug(namespace)\<close> decides once whether its log is one.\<close>

definition debug_enabled :: "string list option \<Rightarrow> string \<Rightarrow> bool" where
  "debug_enabled ns namespace \<longleftrightarrow> or_else ns [] \<noteq> [] \<and> matches_namespace namespace (or_else ns [])"

definition debug_call :: "string \<Rightarrow> string \<Rightarrow> meta option \<Rightarrow> string \<times> meta" where
  "debug_call namespace msg m = ([CHR 0x5B] @ namespace @ [CHR 0x5D, CHR '' ''] @ msg, spread_over [(''namespace'', JStr namespace)] (or_else m []))"

text \<open>A task that returns, that rejects later, or that throws before there is a promise.\<close>

datatype 'a task = Gives 'a | Rejects string | ThrowsNow string

definition with_debug :: "bool \<Rightarrow> rat \<Rightarrow> 'a task \<Rightarrow> string list \<times> (string + 'a)" where
  "with_debug enabled elapsed task =
     (let outcome = (case task of Gives x \<Rightarrow> Inr x | Rejects e \<Rightarrow> Inl e | ThrowsNow e \<Rightarrow> Inl e);
          took = '' +'' @ str_of_rat elapsed @ ''ms''
      in (if \<not> enabled then []
          else ''start'' # (case task of Gives x \<Rightarrow> [''done'' @ took] | Rejects e \<Rightarrow> [''fail'' @ took] | ThrowsNow e \<Rightarrow> []), outcome))"

section \<open>The logger of a tool\<close>

text \<open>The logger with the namespaces; \<open>env_debug\<close> is the list in the environment.\<close>

record tool_logger =
  tl_state :: log_state
  tl_namespaces :: "string list option"

definition name_list :: "string option \<Rightarrow> string list" where
  "name_list s = (if or_else s [] = [] then [] else filter (\<lambda>x. x \<noteq> []) (split_on CHR '','' (or_else s [])))"

definition no_init :: log_init where
  "no_init = \<lparr>li_level = None, li_json = None, li_tty = None, li_out = None, li_err = None, li_clock = None\<rparr>"

definition load_logger :: "string option \<Rightarrow> string option \<Rightarrow> (nat \<Rightarrow> rat) \<Rightarrow> tool_logger" where
  "load_logger env_level env_debug date_now =
     \<lparr>tl_state = create_logger None (no_init\<lparr>li_level := Some (level_name (or_else (normalize_level env_level) InfoLevel))\<rparr>) date_now,
      tl_namespaces = set_debug_namespaces (Some (name_list env_debug))\<rparr>"

definition init_logger :: "string list \<Rightarrow> log_init \<Rightarrow> string list option \<Rightarrow> tool_logger \<Rightarrow> tool_logger" where
  "init_logger env_names i namespaces l = l\<lparr>
     tl_state := apply_init (i\<lparr>li_level := (case normalize_level (li_level i) of Some n \<Rightarrow> Some (level_name n) | None \<Rightarrow> li_level i)\<rparr>) (tl_state l),
     tl_namespaces := set_debug_namespaces (Some (or_else namespaces env_names))\<rparr>"

record cli_flags =
  cf_debug :: "string option"
  cf_log_level :: "string option"
  cf_verbose :: bool
  cf_json :: bool

definition cli_init :: "string list \<Rightarrow> cli_flags \<Rightarrow> tool_logger \<Rightarrow> tool_logger" where
  "cli_init env_names flags = init_logger env_names
     (no_init\<lparr>li_level := map_option level_name (first_some (normalize_level (cf_log_level flags)) (if cf_verbose flags then Some DebugLevel else None)),
        li_json := Some (cf_json flags)\<rparr>)
     (Some (name_list (cf_debug flags)))"

section \<open>The spinner\<close>

record spinner =
  sp_text :: string
  sp_tty :: bool
  sp_frame :: nat
  sp_active :: bool
  sp_timer :: bool
  sp_written :: "string list"

definition new_spinner :: "string \<Rightarrow> bool \<Rightarrow> spinner" where
  "new_spinner txt tty = \<lparr>sp_text = txt, sp_tty = tty, sp_frame = 0, sp_active = False, sp_timer = False, sp_written = []\<rparr>"

definition spin_put :: "string \<Rightarrow> spinner \<Rightarrow> spinner" where
  "spin_put s p = p\<lparr>sp_written := sp_written p @ [s]\<rparr>"

definition spin_frames :: "string list" where
  "spin_frames = [''-'', [CHR 0x5C], ''|'', ''/'']"

definition spin_render :: "spinner \<Rightarrow> spinner" where
  "spin_render p = spin_put (CHR 0x0D # spin_frames ! (sp_frame p mod length spin_frames) @ '' '' @ sp_text p) (p\<lparr>sp_frame := Suc (sp_frame p)\<rparr>)"

definition spin_start :: "spinner \<Rightarrow> spinner" where
  "spin_start p = (if sp_active p then p
     else if \<not> sp_tty p then spin_put (sp_text p @ ''...'' @ [CHR 0x0A]) (p\<lparr>sp_active := True\<rparr>)
     else (spin_render (p\<lparr>sp_active := True\<rparr>))\<lparr>sp_timer := True\<rparr>)"

definition spin_stop :: "spinner \<Rightarrow> spinner" where
  "spin_stop p = (if \<not> sp_active p then p
     else let q = p\<lparr>sp_active := False, sp_timer := False\<rparr>
       in if sp_tty p then spin_put [CHR 0x0D, CHR 0x1B, CHR 0x5B, CHR ''2'', CHR ''K''] q else q)"

definition spin_end :: "string \<Rightarrow> string option \<Rightarrow> spinner \<Rightarrow> spinner" where
  "spin_end mark txt p = spin_put (mark @ '' '' @ or_else txt (sp_text p) @ [CHR 0x0A]) (spin_stop p)"

definition spin_succeed :: "string option \<Rightarrow> spinner \<Rightarrow> spinner" where
  "spin_succeed = spin_end (CHR 0x5B # ''ok'' @ [CHR 0x5D])"

definition spin_fail :: "string option \<Rightarrow> spinner \<Rightarrow> spinner" where
  "spin_fail = spin_end (CHR 0x5B # ''fail'' @ [CHR 0x5D])"

text \<open>The timer renders while it is set.\<close>

inductive spin_step :: "spinner \<Rightarrow> spinner \<Rightarrow> bool" where
  "spin_step p (spin_start p)"
| "spin_step p (spin_stop p)"
| "spin_step p (spin_succeed txt p)"
| "spin_step p (spin_fail txt p)"
| "sp_timer p \<Longrightarrow> spin_step p (spin_render p)"

inductive spin_reach :: "spinner \<Rightarrow> bool" where
  "spin_reach (new_spinner txt tty)"
| "spin_reach p \<Longrightarrow> spin_step p q \<Longrightarrow> spin_reach q"

section \<open>What is shown about them\<close>

text \<open>Names and levels.\<close>

lemma level_of_name [simp]: "level_of (level_name l) = Some l"
  by (cases l) (simp_all add: level_of_def log_levels_def)

lemma normalize_name [simp]: "normalize_level (Some (level_name l)) = Some l"
proof -
  have "list_all (\<lambda>l. normalize_level (Some (level_name l)) = Some l) log_levels" by code_simp
  then show ?thesis by (cases l) (simp_all add: log_levels_def del: level_name.simps)
qed

theorem logged_from_level:
  "write_log tty now st level msg m \<noteq> None \<longleftrightarrow> (\<exists>c. level_of (lg_level st) = Some c \<and> c \<le> level)"
  "write_log tty now st level msg m = Some (stream, line) \<Longrightarrow> stream = (if level \<in> {WarnLevel, ErrorLevel} then lg_err st else lg_out st)"
  by (auto simp: write_log_def should_log_def Let_def split: option.splits if_splits)

text \<open>The language of a pattern.\<close>

primrec pattern_language :: "string \<Rightarrow> string set" where
  "pattern_language [] = {[]}"
| "pattern_language (p # ps) = (if p = CHR ''*'' then {u @ v | u v. list_all dot u \<and> v \<in> pattern_language ps}
     else {p # v | v. v \<in> pattern_language ps})"

text \<open>The expression of a pattern, read: an item for each of its characters, between the two ends.\<close>

definition pattern_items :: "string \<Rightarrow> re_item list" where
  "pattern_items p = map (\<lambda>c. if c = CHR ''*'' then ReItem ReDot ReStar else ReItem (ReChar c) ReOnce) p"

lemma source_Cons:
  "replace_stars (escape_pattern (c # p)) =
     (if c = CHR ''*'' then ''.*'' else if c \<in> set escaped_chars then [CHR 0x5C, c] else [c]) @ replace_stars (escape_pattern p)"
  by (auto simp: escape_pattern_def replace_stars_def escaped_chars_def)

lemma source_no_times: "re_times_of (replace_stars (escape_pattern p) @ [CHR 0x24]) = (ReOnce, replace_stars (escape_pattern p) @ [CHR 0x24])"
proof (cases p)
  case Nil
  then show ?thesis by (simp add: re_times_of_def replace_stars_def escape_pattern_def)
next
  case (Cons c r)
  then show ?thesis by (auto simp: source_Cons re_times_of_def escaped_chars_def)
qed

lemma source_read: "re_parse (replace_stars (escape_pattern p) @ [CHR 0x24]) = Some (pattern_items p @ [ReEnd])"
proof (induction p)
  case Nil
  have "re_parse [] = Some []" by (simp add: re_parse.simps)
  then show ?case by (simp add: re_parse.simps [of "[CHR 0x24]"] replace_stars_def escape_pattern_def pattern_items_def)
next
  case (Cons c p)
  let ?rest = "replace_stars (escape_pattern p) @ [CHR 0x24]"
  consider (star) "c = CHR ''*''" | (escaped) "c \<noteq> CHR ''*''" "c \<in> set escaped_chars" | (plain) "c \<noteq> CHR ''*''" "c \<notin> set escaped_chars" by blast
  then show ?case
  proof cases
    case star
    have "re_times_of (CHR ''*'' # ?rest) = (ReStar, ?rest)" by (simp add: re_times_of_def)
    with star Cons show ?thesis
      by (simp add: source_Cons re_parse.simps [of "CHR ''.'' # CHR ''*'' # ?rest"] pattern_items_def)
  next
    case escaped
    with Cons source_no_times [of p] show ?thesis
      by (simp add: source_Cons re_parse.simps [of "CHR 0x5C # c # ?rest"] re_syntax_def pattern_items_def)
  next
    case plain
    then have "c \<noteq> CHR ''^''" "c \<noteq> CHR 0x24" "c \<noteq> CHR 0x5C" "c \<noteq> CHR ''.''" "c = CHR ''/'' \<or> \<not> re_syntax c"
      by (auto simp: escaped_chars_def re_syntax_def)
    with plain Cons source_no_times [of p] show ?thesis
      by (simp add: source_Cons re_parse.simps [of "c # ?rest"] pattern_items_def)
  qed
qed

lemma regex_read: "re_parse (namespace_regex p) = Some (ReStart # pattern_items p @ [ReEnd])"
  by (simp add: namespace_regex_def re_parse.simps [of "CHR ''^'' # _"] source_read)

lemma split_runs: "(\<exists>u v. s = u @ v \<and> list_all d u \<and> P v) \<longleftrightarrow> P s \<or> (\<exists>u v. s = u @ v \<and> u \<noteq> [] \<and> list_all d u \<and> P v)"
  by (metis append_Nil list.pred_inject(1))

lemma star_runs:
  "re_here (ReItem ReDot ReStar # is) start s \<longleftrightarrow>
     re_here is start s \<or> (\<exists>u v. s = u @ v \<and> u \<noteq> [] \<and> list_all dot u \<and> re_here is False v)"
proof (induction s arbitrary: start)
  case (Cons c s)
  have "(\<exists>u v. c # s = u @ v \<and> u \<noteq> [] \<and> list_all dot u \<and> re_here is False v) \<longleftrightarrow>
      dot c \<and> (\<exists>u v. s = u @ v \<and> list_all dot u \<and> re_here is False v)"
    (is "?l = ?r")
  proof
    assume ?l
    then obtain u v where "c # s = u @ v" "u \<noteq> []" "list_all dot u" "re_here is False v" by blast
    then show ?r by (cases u) auto
  next
    assume ?r
    then obtain u v where "s = u @ v" "list_all dot u" "dot c" "re_here is False v" by blast
    then show ?l by (intro exI [of _ "c # u"] exI [of _ v]) simp
  qed
  moreover have "(\<exists>u v. s = u @ v \<and> list_all dot u \<and> re_here is False v) \<longleftrightarrow>
      re_here is False s \<or> (\<exists>u v. s = u @ v \<and> u \<noteq> [] \<and> list_all dot u \<and> re_here is False v)"
    by (rule split_runs)
  moreover have "re_here (ReItem ReDot ReStar # is) start (c # s) \<longleftrightarrow> re_here is start (c # s) \<or> dot c \<and> re_here (ReItem ReDot ReStar # is) False s"
    by simp
  ultimately show ?case by (simp only: Cons.IH)
qed simp

lemma items_match: "re_here (pattern_items p @ [ReEnd]) start s \<longleftrightarrow> s \<in> pattern_language p"
proof (induction p arbitrary: start s)
  case (Cons c p)
  show ?case
  proof (cases "c = CHR ''*''")
    case True
    have "s \<in> pattern_language (c # p) \<longleftrightarrow> s \<in> pattern_language p \<or> (\<exists>u v. s = u @ v \<and> u \<noteq> [] \<and> list_all dot u \<and> v \<in> pattern_language p)"
      using True split_runs [of s dot "\<lambda>v. v \<in> pattern_language p"] by simp
    moreover have "pattern_items (c # p) @ [ReEnd] = ReItem ReDot ReStar # pattern_items p @ [ReEnd]" using True by (simp add: pattern_items_def)
    ultimately show ?thesis by (simp only: star_runs Cons.IH)
  next
    case False
    then show ?thesis using Cons.IH [of False] by (auto simp: pattern_items_def split: list.split)
  qed
qed (simp add: pattern_items_def)

lemma pattern_matches_iff: "pattern_matches p s \<longleftrightarrow> s \<in> pattern_language p"
  by (simp add: pattern_matches_def regex_read re_test_def items_match list_ex_iff)

text \<open>C39. Debug namespaces. Whatever the pattern, the expression that the code builds from it is a
  regular one without groups, classes or alternatives, and a namespace passes its test exactly when it is
  in the language of the pattern: the characters of the pattern as they stand, those with a meaning in
  expressions among them, and a text without line ends for each star. Of several patterns one has
  to match, and none does without patterns.\<close>

theorem pattern_matches_language:
  "re_parse (namespace_regex p) \<noteq> None \<and>
   (matches_namespace s (p # ps) \<longleftrightarrow> s \<in> pattern_language p \<or> matches_namespace s ps) \<and> matches_namespace s [] = False"
  by (simp add: regex_read matches_namespace_def pattern_matches_iff)

text \<open>A pattern without stars is its own language, and a star at the end is a prefix.\<close>

lemma plain_pattern: "CHR ''*'' \<notin> set p \<Longrightarrow> pattern_matches p s \<longleftrightarrow> s = p"
  unfolding pattern_matches_iff by (induction p arbitrary: s) auto

lemma prefix_pattern: "CHR ''*'' \<notin> set p \<Longrightarrow> pattern_matches (p @ ''*'') s \<longleftrightarrow> (\<exists>u. s = p @ u \<and> list_all dot u)"
  unfolding pattern_matches_iff by (induction p arbitrary: s) auto

text \<open>Children.\<close>

lemma get_twice: "map_get (rev (map_del k b)) j = (if j = k then None else map_get (rev b) j)"
  by (induction b) (auto simp: map_del_def map_add_def split: option.split)

text \<open>What a child of a child says is what one child with both of its fields says, the later first.\<close>

theorem child_fields:
  "map_get (lg_base (child n (child m st))) k = (if k = ''msg'' then None
     else case map_get (rev n) k of Some v \<Rightarrow> Some v | None \<Rightarrow> (case map_get (rev m) k of Some v \<Rightarrow> Some v | None \<Rightarrow> map_get (lg_base st) k))"
  by (simp add: child_def strip_msg_def get_spread get_twice split: option.split)

text \<open>A JSON line is one value with the fields; those of the caller win over the level and the time.\<close>

lemma json_line_fields:
  assumes "storable (JObj (spread_over [(''level'', JStr (level_name level)), (''msg'', JStr msg), (''timestamp'', js_rat now)] m))"
  shows "\<exists>v. json_parse (format_message is_tty True level m msg now) = Some v \<and> field v ''msg'' = json_round (case map_get (rev m) ''msg'' of Some x \<Rightarrow> x | None \<Rightarrow> JStr msg)
    \<and> field v ''level'' = json_round (case map_get (rev m) ''level'' of Some x \<Rightarrow> x | None \<Rightarrow> JStr (level_name level))"
proof -
  let ?v = "JObj (spread_over [(''level'', JStr (level_name level)), (''msg'', JStr msg), (''timestamp'', js_rat now)] m)"
  have "json_parse (json_stringify 0 ?v @ [CHR 0x0A]) = Some (json_round ?v)" using assms by (intro stringify_parse(2)) simp_all
  moreover have "field (json_round ?v) k = json_round (field ?v k)" for k using assms by (rule field_json_round)
  moreover have "field ?v ''msg'' = (case map_get (rev m) ''msg'' of Some x \<Rightarrow> x | None \<Rightarrow> JStr msg)"
    "field ?v ''level'' = (case map_get (rev m) ''level'' of Some x \<Rightarrow> x | None \<Rightarrow> JStr (level_name level))"
    by (simp_all add: get_spread split: option.split)
  ultimately show ?thesis unfolding format_message_def by (simp del: field.simps json_round.simps)
qed

lemma level_can_be_hidden:
  "json_parse (format_message False True ErrorLevel [(''level'', JStr ''debug'')] ''m'' 0) = Some (JObj [(''level'', JStr ''debug''), (''msg'', JStr ''m''), (''timestamp'', js_rat 0)])"
  by code_simp

text \<open>A task that throws before there is a promise leaves its start without an end.\<close>

lemma debug_lines:
  "fst (with_debug True elapsed (Gives x)) = [''start'', ''done +'' @ str_of_rat elapsed @ ''ms'']"
  "fst (with_debug True elapsed (Rejects e)) = [''start'', ''fail +'' @ str_of_rat elapsed @ ''ms'']"
  "fst (with_debug True elapsed (ThrowsNow e)) = [''start'']"
  by (simp_all add: with_debug_def Let_def)

text \<open>The flags of a tool: without \<open>--debug\<close> the namespaces of the environment are switched off.\<close>

lemma flags_forget_environment:
  assumes "or_else (cf_debug flags) [] = []"
  shows "tl_namespaces (cli_init env_names flags l) = None"
  using assms by (simp add: cli_init_def init_logger_def name_list_def set_debug_namespaces_def)

theorem flags_set_level:
  "lg_level (tl_state (cli_init env_names flags l)) =
     (case normalize_level (cf_log_level flags) of Some n \<Rightarrow> level_name n
      | None \<Rightarrow> if cf_verbose flags then ''debug'' else lg_level (tl_state l)) \<and>
   lg_json (tl_state (cli_init env_names flags l)) = cf_json flags"
proof -
  have names: "level_name n \<noteq> []" for n by (cases n) simp_all
  have none: "normalize_level None = None" by (simp add: normalize_level_def)
  show ?thesis
    by (cases "normalize_level (cf_log_level flags)")
      (simp_all add: cli_init_def init_logger_def apply_init_def no_init_def names none del: level_name.simps, simp)
qed

section \<open>The spinner turns only while it is started\<close>

theorem spinner_timer:
  assumes "spin_reach p"
  shows "sp_timer p \<longleftrightarrow> sp_active p \<and> sp_tty p"
  using assms
proof (induction rule: spin_reach.induct)
  case (2 p q)
  from 2(2,3) show ?case
    by (induction rule: spin_step.induct)
      (auto simp: spin_start_def spin_stop_def spin_succeed_def spin_fail_def spin_end_def spin_put_def spin_render_def Let_def)
qed (simp add: new_spinner_def)

lemma stopped_is_still: "spin_reach p \<Longrightarrow> \<not> sp_timer (spin_stop p) \<and> \<not> sp_active (spin_stop p)"
  using spinner_timer by (auto simp: spin_stop_def spin_put_def Let_def)

lemma spinner_timer_witness: "sp_timer (spin_start (new_spinner ''Building'' True)) \<longleftrightarrow> sp_active (spin_start (new_spinner ''Building'' True)) \<and> sp_tty (spin_start (new_spinner ''Building'' True))"
  by (rule spinner_timer) (rule spin_reach.intros(2) [OF spin_reach.intros(1) spin_step.intros(1)])

end
