(* ===== verification/BuildScript.thy ===== *)
theory BuildScript
  imports QaInit
begin

text \<open>
  The build of the client, \<open>apps/web/build.ts\<close>: its options, the check of the directory that is emptied
  first, and the sizes it prints. The bundler is not modelled, but for the options it is given.
\<close>

section \<open>Options\<close>

definition small_letter :: "char \<Rightarrow> bool" where
  "small_letter c \<longleftrightarrow> 97 \<le> code_of c \<and> code_of c \<le> 122"

fun to_camel_case :: "string \<Rightarrow> string" where
  "to_camel_case (c # d # s) = (if c = CHR ''-'' \<and> small_letter d then upper_char d # to_camel_case s else c # to_camel_case (d # s))"
| "to_camel_case s = s"

definition all_digits :: "string \<Rightarrow> bool" where
  "all_digits s \<longleftrightarrow> s \<noteq> [] \<and> list_all is_digit s"

text \<open>\<open>/^\d*\.\d+$/\<close>\<close>

definition is_decimal :: "string \<Rightarrow> bool" where
  "is_decimal s = (case dropWhile is_digit s of [] \<Rightarrow> False | c # r \<Rightarrow> c = CHR ''.'' \<and> all_digits r)"

definition parse_value :: "string \<Rightarrow> jsval" where
  "parse_value s = (if s = ''true'' then JBool True else if s = ''false'' then JBool False
     else if all_digits s then js_int (int (nat_of_digits s))
     else if is_decimal s then JNum (num_of_str s)
     else if CHR '','' \<in> set s then JArr (map (\<lambda>v. JStr (trim v)) (split_on CHR '','' s))
     else JStr s)"

type_synonym build_config = "(string, jsval) jsmap"

text \<open>A value for a key; a key with a dot is a member of an object, and one with more dots is left out.\<close>

definition set_option :: "string \<Rightarrow> string \<Rightarrow> build_config \<Rightarrow> build_config" where
  "set_option key v config = (let k = to_camel_case key; parts = split_on CHR ''.'' k in
     if length parts = 1 then map_set k (parse_value v) config
     else if 2 < length parts then config
     else let existing = (case map_get config (hd parts) of Some (JObj kvs) \<Rightarrow> kvs | _ \<Rightarrow> [])
       in map_set (hd parts) (JObj (map_set (parts ! 1) (parse_value v) existing)) config)"

text \<open>\<open>split('=', 2)\<close>: what is behind a second mark is lost.\<close>

definition key_and_value :: "string \<Rightarrow> string \<times> string" where
  "key_and_value s = (let ps = split_on CHR ''='' s in (hd ps, ps ! 1))"

fun parse_build_args :: "string list \<Rightarrow> build_config \<Rightarrow> build_config" where
  "parse_build_args [] config = config"
| "parse_build_args (arg # rest) config =
     (if \<not> starts_with ''--'' arg then parse_build_args rest config
      else if starts_with ''--no-'' arg then parse_build_args rest (map_set (to_camel_case (drop 5 arg)) (JBool False) config)
      else if CHR ''='' \<in> set arg then
        (case key_and_value (drop 2 arg) of (k, v) \<Rightarrow> parse_build_args rest (set_option k v config))
      else (case rest of
          [] \<Rightarrow> map_set (to_camel_case (drop 2 arg)) (JBool True) config
        | v # left \<Rightarrow> if starts_with ''--'' v then parse_build_args rest (map_set (to_camel_case (drop 2 arg)) (JBool True) config)
            else parse_build_args left (set_option (drop 2 arg) v config)))"

definition asks_help :: "string list \<Rightarrow> bool" where
  "asks_help args \<longleftrightarrow> ''--help'' \<in> set args \<or> ''-h'' \<in> set args"

section \<open>Sizes\<close>

text \<open>\<open>toFixed(2)\<close> of a number that is not negative.\<close>

definition to_fixed2 :: "rat \<Rightarrow> string" where
  "to_fixed2 r = (let n = nat \<lfloor>100 * r + 1 / 2\<rfloor> in dec_of_nat (n div 100) @ ''.'' @ dec_of_nat (n div 10 mod 10) @ dec_of_nat (n mod 10))"

definition size_units :: "string list" where
  "size_units = [''B'', ''KB'', ''MB'', ''GB'']"

text \<open>The loop, with the units left: the amount and the index of its unit.\<close>

fun scale_size :: "nat \<Rightarrow> rat \<Rightarrow> nat \<Rightarrow> rat \<times> nat" where
  "scale_size 0 amount i = (amount, i)"
| "scale_size (Suc n) amount i = (if 1024 \<le> amount then scale_size n (amount / 1024) (Suc i) else (amount, i))"

definition format_file_size :: "nat \<Rightarrow> string" where
  "format_file_size bytes = (case scale_size (length size_units - 1) (of_nat bytes) 0 of (amount, i) \<Rightarrow> to_fixed2 amount @ '' '' @ size_units ! i)"

section \<open>The directory that is emptied\<close>

text \<open>\<open>cwd\<close> is absolute and resolved.\<close>

definition assert_safe_outdir :: "string \<Rightarrow> string \<Rightarrow> string option" where
  "assert_safe_outdir outdir cwd = (let resolved = resolve_from cwd outdir; resolved_root = join_names cwd [] in
     if trim outdir = [] then Some ''Refusing to use empty outdir.''
     else if resolved = ''/'' \<or> resolved = resolved_root then Some (''Refusing to delete unsafe outdir: '' @ resolved)
     else if \<not> starts_with (with_slash resolved_root) resolved then Some (''Refusing to delete outdir outside project: '' @ resolved)
     else None)"

definition remove_tree :: "string \<Rightarrow> tree \<Rightarrow> tree" where
  "remove_tree dir t = (let stays = (\<lambda>p. p \<noteq> dir \<and> \<not> starts_with (with_slash dir) p) in
     \<lparr>t_texts = filter (\<lambda>(p, x). stays p) (t_texts t), t_dirs = filter stays (t_dirs t)\<rparr>)"

text \<open>Only a path can exist, and be removed: an option that was read as another value is none.\<close>

definition chosen_outdir :: "string \<Rightarrow> build_config \<Rightarrow> jsval" where
  "chosen_outdir cwd config = (case map_get config ''outdir'' of
     Some v \<Rightarrow> if truthy v then v else JStr (join_names cwd [''dist'']) | None \<Rightarrow> JStr (join_names cwd [''dist'']))"

definition clean_outdir :: "string \<Rightarrow> build_config \<Rightarrow> tree \<Rightarrow> init_error + tree" where
  "clean_outdir cwd config t = (let outdir = chosen_outdir cwd config in
     case assert_safe_outdir (str_of outdir) cwd of
       Some e \<Rightarrow> Inl (Failure e)
     | None \<Rightarrow> (case outdir of
           JStr d \<Rightarrow> Inr (if exists_path (resolve_from cwd d) t then remove_tree (resolve_from cwd d) t else t)
         | _ \<Rightarrow> Inr t))"

text \<open>The options of the bundler: those of the script, with those of the command line over them.\<close>

definition bundler_options :: "string list \<Rightarrow> jsval \<Rightarrow> build_config \<Rightarrow> build_config" where
  "bundler_options entrypoints outdir config = spread_over
     [(''entrypoints'', JArr (map JStr entrypoints)), (''outdir'', outdir), (''minify'', JBool True), (''target'', JStr ''browser''),
      (''sourcemap'', JStr ''linked''), (''define'', JObj [(''process.env.NODE_ENV'', JStr (json_quote ''production''))])] config"

text \<open>A build: what is left of the files when the bundler starts, with its options; help does nothing.\<close>

definition build_main :: "string \<Rightarrow> string list \<Rightarrow> (tree \<Rightarrow> string list) \<Rightarrow> tree \<Rightarrow> (init_error + build_config) \<times> tree" where
  "build_main cwd args html_files t = (if asks_help args then (Inl HelpShown, t)
     else let config = parse_build_args args [] in
       case clean_outdir cwd config t of
         Inl e \<Rightarrow> (Inl e, t)
       | Inr t' \<Rightarrow> (Inr (bundler_options
             (filter (\<lambda>p. \<not> str_includes ''node_modules'' p) (map (resolve_from (join_names cwd [''src''])) (html_files t')))
             (chosen_outdir cwd config) config), t'))"

section \<open>Nothing outside the project is removed\<close>

lemma safe_outdir_below:
  assumes "assert_safe_outdir outdir (path_of_parts rs) = None" "list_all clean_part rs"
  shows "\<exists>ps. ps \<noteq> [] \<and> list_all clean_part ps \<and> resolve_from (path_of_parts rs) outdir = path_of_parts (rs @ ps)"
proof -
  obtain qs where qs: "list_all clean_part qs" "resolve_from (path_of_parts rs) outdir = path_of_parts qs" using resolve_from_clean by metis
  have root: "join_names (path_of_parts rs) [] = path_of_parts rs" using assms(2) by (simp add: join_names_def fold_clean)
  have "path_of_parts qs \<noteq> ''/''" "starts_with (with_slash (path_of_parts rs)) (path_of_parts qs)"
    using assms(1) by (auto simp: assert_safe_outdir_def Let_def qs(2) root split: if_splits)
  moreover from this(1) have "qs \<noteq> []" by (auto simp: path_of_parts_def)
  ultimately show ?thesis using below_parts [OF assms(2) qs(1)] qs(2) by auto
qed

lemma removed_files: "t_files (remove_tree dir t) p = (if p \<noteq> dir \<and> \<not> starts_with (with_slash dir) p then t_files t p else None)"
proof -
  have "map_get (filter (\<lambda>(p, x). P p) m) p = (if P p then map_get m p else None)" for P and m :: "(string, string) jsmap"
    by (induction m) auto
  then show ?thesis by (simp add: t_files_def remove_tree_def Let_def)
qed

text \<open>C36. Safety of the build: it runs in an absolute, resolved directory. Whatever its command line, every file that changes is removed, and lies at or below the chosen output directory, which is strictly below that directory; so no file outside is touched and nothing is emptied when the directory is refused.\<close>

theorem build_removes_only_output:
  assumes run: "build_main (path_of_parts rs) args html_files t = (r, t')" and rs: "list_all clean_part rs" and gone: "t_files t' p \<noteq> t_files t p"
  shows "\<exists>ps d. ps \<noteq> [] \<and> list_all clean_part ps \<and> chosen_outdir (path_of_parts rs) (parse_build_args args []) = JStr d \<and>
    resolve_from (path_of_parts rs) d = path_of_parts (rs @ ps) \<and>
    (p = path_of_parts (rs @ ps) \<or> starts_with (path_of_parts (rs @ ps) @ ''/'') p) \<and> t_files t' p = None"
proof -
  define config where "config = parse_build_args args []"
  have "\<not> asks_help args" using run gone by (auto simp: build_main_def)
  then have "clean_outdir (path_of_parts rs) config t = Inr t'"
    using run gone by (auto simp: build_main_def config_def Let_def split: sum.splits)
  then obtain d where d: "chosen_outdir (path_of_parts rs) config = JStr d" "assert_safe_outdir d (path_of_parts rs) = None"
    "t' = remove_tree (resolve_from (path_of_parts rs) d) t"
    using gone by (auto simp: clean_outdir_def Let_def split: option.splits jsval.splits if_splits)
  obtain ps where ps: "ps \<noteq> []" "list_all clean_part ps" "resolve_from (path_of_parts rs) d = path_of_parts (rs @ ps)"
    using safe_outdir_below [OF d(2) rs] by blast
  have "with_slash (path_of_parts (rs @ ps)) = path_of_parts (rs @ ps) @ ''/''" using ps rs by (simp add: with_slash_of)
  then have "(p = path_of_parts (rs @ ps) \<or> starts_with (path_of_parts (rs @ ps) @ ''/'') p) \<and> t_files t' p = None"
    using gone by (auto simp: d(3) ps(3) removed_files split: if_splits)
  with ps d(1) show ?thesis unfolding config_def by blast
qed

section \<open>Sizes and options\<close>

theorem size_scaled:
  assumes "scale_size n amount i = (r, j)" "0 \<le> amount"
  shows "i \<le> j \<and> j \<le> i + n \<and> r * 1024 ^ (j - i) = amount \<and> (r < 1024 \<or> j = i + n) \<and> (i < j \<longrightarrow> 1 \<le> r)"
  using assms
proof (induction n amount i rule: scale_size.induct)
  case (2 n amount i)
  show ?case
  proof (cases "1024 \<le> amount")
    case True
    with 2 have ih: "Suc i \<le> j" "j \<le> Suc i + n" "r * 1024 ^ (j - Suc i) = amount / 1024" "r < 1024 \<or> j = Suc i + n" "Suc i < j \<longrightarrow> 1 \<le> r"
      by auto
    have "j - i = Suc (j - Suc i)" using ih(1) by simp
    then have "r * 1024 ^ (j - i) = 1024 * (r * 1024 ^ (j - Suc i))" by simp
    also have "\<dots> = amount" unfolding ih(3) by simp
    finally have "r * 1024 ^ (j - i) = amount" .
    moreover have "1 \<le> r"
    proof (cases "Suc i < j")
      case False
      then have "r = amount / 1024" using ih(1,3) by simp
      then show ?thesis using True by simp
    qed (use ih(5) in simp)
    ultimately show ?thesis using ih by auto
  next
    case False
    with 2 show ?thesis by auto
  qed
qed auto

text \<open>A flag with a dot is no member, and a value with a mark in it is cut.\<close>

lemma value_is_cut:
  "parse_build_args [''--minify.whitespace''] [] = [(''minify.whitespace'', JBool True)]"
  "parse_build_args [''--define.FLAGS=a=b''] [] = [(''define'', JObj [(''FLAGS'', JStr ''a'')])]"
  "parse_build_args [''--minify.whitespace'', ''true'', ''--no-splitting'', ''--public-path'', ''/x''] []
     = [(''minify'', JObj [(''whitespace'', JBool True)]), (''splitting'', JBool False), (''publicPath'', JStr ''/x'')]"
  by code_simp+

text \<open>The sources are a directory below the project, too.\<close>

lemma sources_can_be_emptied: "assert_safe_outdir ''src'' ''/repo/apps/web'' = None"
  by code_simp

text \<open>An option of the command line wins over that of the script.\<close>

lemma command_line_wins:
  "map_get (bundler_options entrypoints outdir config) k = (case map_get (rev config) k of Some v \<Rightarrow> Some v
     | None \<Rightarrow> map_get (bundler_options entrypoints outdir []) k)"
  by (simp add: bundler_options_def get_spread split: option.split)

section \<open>At work\<close>

definition demo_site :: tree where
  "demo_site = \<lparr>t_texts = [(''/repo/web/dist/index.html'', ''x''), (''/repo/web/src/index.html'', ''y'')],
     t_dirs = [''/'', ''/repo'', ''/repo/web'', ''/repo/web/dist'', ''/repo/web/src'']\<rparr>"

lemma build_removes_only_output_witness:
  "\<exists>ps. ps \<noteq> [] \<and> starts_with (path_of_parts ([''repo'', ''web''] @ ps) @ ''/'') ''/repo/web/dist/index.html'' \<and>
    t_files (snd (build_main ''/repo/web'' [] (\<lambda>t. []) demo_site)) ''/repo/web/dist/index.html'' = None"
proof -
  have root: "''/repo/web'' = path_of_parts [''repo'', ''web'']" by code_simp
  have gone: "t_files (snd (build_main ''/repo/web'' [] (\<lambda>t. []) demo_site)) ''/repo/web/dist/index.html'' \<noteq> t_files demo_site ''/repo/web/dist/index.html''"
    by code_simp
  have clean: "list_all clean_part [''repo'', ''web'']" by (simp add: clean_part_def)
  obtain ps d where ps: "ps \<noteq> []" "chosen_outdir (path_of_parts [''repo'', ''web'']) (parse_build_args [] []) = JStr d"
    "resolve_from (path_of_parts [''repo'', ''web'']) d = path_of_parts ([''repo'', ''web''] @ ps)"
    "''/repo/web/dist/index.html'' = path_of_parts ([''repo'', ''web''] @ ps) \<or> starts_with (path_of_parts ([''repo'', ''web''] @ ps) @ ''/'') ''/repo/web/dist/index.html''"
    "t_files (snd (build_main ''/repo/web'' [] (\<lambda>t. []) demo_site)) ''/repo/web/dist/index.html'' = None"
    using build_removes_only_output [OF surjective_pairing clean gone [unfolded root]] unfolding root [symmetric] by auto
  have "chosen_outdir ''/repo/web'' (parse_build_args [] []) = JStr ''/repo/web/dist''" "resolve_from ''/repo/web'' ''/repo/web/dist'' = ''/repo/web/dist''"
    by code_simp+
  with ps(2,3) have "path_of_parts ([''repo'', ''web''] @ ps) = ''/repo/web/dist''" unfolding root [symmetric] by simp
  with ps(4) have "starts_with (path_of_parts ([''repo'', ''web''] @ ps) @ ''/'') ''/repo/web/dist/index.html''" by simp
  with ps(1,5) show ?thesis by blast
qed

end
