(* ===== verification/Spec2Isabelle.thy ===== *)
theory Spec2Isabelle
  imports Discovery Extract Cloud PollerTick PollerNow Tui ConfigFile WebInventory SiteFiles
    WebViews Templates TestKit QaLogger BuildScript
begin

text \<open>
  A model of merossity, a local controller for Meross smart-home devices: a service that logs in to
  the Meross cloud, finds the devices of the account on the LAN, polls and switches them over signed
  HTTP messages, and streams their states to a web client; and a command line and a terminal interface
  that do the same.

  \<^bold>\<open>The parts and how they interact.\<close> Paths are below \<open>packages/core/src\<close> unless they start with
  \<open>apps\<close> or \<open>packages\<close>.

  \<^item> \<open>Prelude\<close>: the values of JavaScript (\<open>jsval\<close>), its coercions (\<open>Number\<close>, \<open>String\<close>, truth),
    member access, strings and insertion-ordered maps, with the locale \<open>keyed_store\<close> of a store filled
    entry by entry. \<open>JsSort\<close>: \<open>Array.sort\<close> with a comparator, with locales for the comparators that
    are orders. \<open>Json\<close>, \<open>JsonPrint\<close>: \<open>JSON.parse\<close> and \<open>JSON.stringify\<close>, with the locale \<open>text_format\<close>
    of a printer and its reader.
  \<^item> \<open>Ipv4\<close>, \<open>Mac\<close>: \<open>meross/lan/ping-sweep.ts\<close>, \<open>discovery.ts\<close>, \<open>mac.ts\<close>, \<open>resolve-ip.ts\<close>:
    addresses on 32-bit words, blocks, netmasks, hardware addresses, the neighbour tables.
  \<^item> \<open>LanMessage\<close>: \<open>meross/lan/message.ts\<close>, \<open>http.ts\<close> and a constructor for every request.
  \<^item> \<open>Pool\<close>, \<open>Discovery\<close>: the worker pools of \<open>discovery.ts\<close> and \<open>ping-sweep.ts\<close> as a step relation
    over all interleavings of the answers, and the two scans that run them.
  \<^item> \<open>Extract\<close>: the extractors of \<open>api/shared.ts\<close> on device answers.
  \<^item> \<open>Cloud\<close>: \<open>meross/cloud/http.ts\<close>: signed posts, redirects, login over candidate domains, devices.
  \<^item> \<open>Config\<close>: \<open>meross/config.ts\<close>, \<open>dump.ts\<close>, \<open>inventory.ts\<close> and the request and response helpers
    of \<open>api/shared.ts\<close>.
  \<^item> \<open>Telemetry\<close>: \<open>api/telemetry-db.ts\<close> and the two telemetry handlers, on lists of rows.
  \<^item> \<open>PollState\<close>, \<open>Poller\<close>: \<open>api/state-poller.ts\<close>. The record \<open>poller\<close> is the closure of the service;
    every stretch of code between two awaits is a function on it, and \<open>poller_step\<close> is the relation of
    all of them in any order, with the outside world (answers, clock, clients) in its arguments.
    \<open>PollerRuns\<close>, \<open>PollerTick\<close> and \<open>PollerNow\<close> hold its invariants.
  \<^item> \<open>DeviceApi\<close>, \<open>ScheduleApi\<close>, \<open>HostApi\<close>, \<open>CloudApi\<close>: the handlers of \<open>api/\<close>, each a function of
    its environment and the request to a run: the response, the configuration written, what was sent.
  \<^item> \<open>Routes\<close>: \<open>api/index.ts\<close> with every handler in its place, the security headers, and the client of
    the response envelope, \<open>apps/web/src/lib/api.ts\<close>.
  \<^item> \<open>WebParse\<close>, \<open>WebDevices\<close>, \<open>WebAuth\<close>: \<open>apps/web/src/state\<close>: the parsers of the event stream, the
    machine of the device list and its stream actor, the login form and the choice of the view. A
    machine is a record of its context and states; \<open>web_send\<close> and its like are the reactions to an
    event, \<open>web_settle\<close> and its like those to the outcome of an invoked request.
  \<^item> \<open>WebLight\<close>, \<open>WebCards\<close>, \<open>WebInventory\<close>: \<open>apps/web/src/views/devices\<close>: the controls of a light, the
    card of a device with its timers and triggers, and the view that loads the devices and lays out
    the cards. An action of the user maps the state of the component to the new one, with the events
    for the machine and the requests it starts; \<open>card_end\<close> and its like are what follows a request.
  \<^item> \<open>WebViews\<close>: \<open>apps/web/src/App.tsx\<close> and \<open>ui/toast.tsx\<close>: what is drawn, and the notices, a step relation
    over calls, effects and ends of timers.
  \<^item> \<open>Cli\<close>: \<open>packages/cli/src/meross.ts\<close>, every command a function of flags and environment.
  \<^item> \<open>Tui\<close>: \<open>packages/cli/src/tui.tsx\<close>, the terminal interface: a step for every key and for the end of
    every request, with what the closure of the request had captured, and \<open>tui_reach\<close> for their runs.
  \<^item> \<open>DevServer\<close>, \<open>SiteFiles\<close>: \<open>apps/web/src/dev/serve-with-control.ts\<close> and \<open>apps/web/src/index.ts\<close>: the port
    and the control socket of the server, how it replaces or restarts one, and the pages it serves.
  \<^item> \<open>ConfigFile\<close>: the configuration file, as it is saved, read back after a restart, and printed.
  \<^item> The tools of the repository work on a tree of files, the record \<open>tree\<close> of texts by path and of
    directories. \<open>Paths\<close>: the functions of \<open>node:path\<close> they use, on absolute paths. \<open>QaInit\<close>:
    \<open>packages/qa/scripts/qa-init.ts\<close>, which sets up a package. \<open>Scaffold\<close>: \<open>packages/new/index.ts\<close> and
    \<open>packages/new/scaffolders\<close>; a scaffolder is a sequence of steps (\<open>in_order\<close>) on the files and the
    commands run, and stops at the first that fails. \<open>WebSetup\<close>:
    \<open>packages/new/scripts/web-postinstall.ts\<close>. \<open>PackageNames\<close>: \<open>scripts/postinstall.ts\<close> and
    \<open>packages/cli/scripts/postinstall.ts\<close>. \<open>Templates\<close>: the scripts that new web apps and widget packages
    run after an installation. \<open>BuildScript\<close>: \<open>apps/web/build.ts\<close>.
  \<^item> \<open>TestKit\<close>: \<open>packages/qa/src/testkit\<close>: polling until something answers, the collector of an output
    stream as a step relation (\<open>collector_step\<close>) over chunks, waits, time-outs and the end, servers under
    test, artifacts. \<open>QaLogger\<close>: \<open>packages/qa/src/logger\<close>: the logger, its debug namespaces with the
    regular expressions built from them, and the spinner. Of the expressions of the language there are
    those without groups, classes and alternatives.

  The service and the poller share the configuration and the devices; \<open>HostApi\<close> and the poller search
  hosts in the same way; the clients talk to the service through \<open>Routes\<close> and the event stream only.
  The scaffolders run the quality script as a command.

  \<^bold>\<open>What the groups of lemmas show.\<close> Addresses, blocks and netmasks round-trip and have exactly the
  hosts they should (\<open>Ipv4\<close>, \<open>Mac\<close>). A scan ends, and is right, in every interleaving (\<open>Pool\<close>,
  \<open>Discovery\<close>). Extractors and sorts keep what is valid, in order (\<open>Extract\<close>, \<open>Config\<close>). A login is
  bounded and signed (\<open>Cloud\<close>). The poller keeps its clients up to date, never steps back in time,
  starts the longest due devices within its limits, backs off and answers every request in all
  reachable states (\<open>PollerRuns\<close>, \<open>PollerTick\<close>, \<open>PollerNow\<close>). Handlers send what was asked for and
  write what they report (\<open>DeviceApi\<close> to \<open>CloudApi\<close>); a route does no more than its part
  (\<open>Routes\<close>). What the service streams is well typed and read back by the client, whose screen shows it
  (\<open>WebParse\<close>, \<open>WebDevices\<close>); a login goes through from the form to the configuration (\<open>WebAuth\<close>);
  the controls of a card reach the device through the service, with the figures meant, once at a
  time (\<open>WebLight\<close>, \<open>WebCards\<close>); the view searches after every refresh and has a card for each device
  (\<open>WebInventory\<close>); the command line finds the hosts the service finds (\<open>Cli\<close>), the terminal interface
  those of the command line, and it changes nothing else of the configuration (\<open>Tui\<close>); an account
  survives a restart (\<open>ConfigFile\<close>). The server takes the first free port, replaces only its own kind,
  and serves no file outside its build (\<open>DevServer\<close>, \<open>SiteFiles\<close>). The quality script reads back the JSON
  it prints, touches five files and settles at its second run (\<open>QaInit\<close>); a new package lies inside
  the repository, its commands run in order and never after one failed, and it ends up with its
  name and scripts, with an installation at the end or without it (\<open>Scaffold\<close>); names are made valid and replaced once (\<open>PackageNames\<close>); nothing is
  added to an app without an answer, nor twice (\<open>Templates\<close>); the build empties nothing but its output (\<open>BuildScript\<close>). Polling ends with its limit, and every wait for an output is
  settled once (\<open>TestKit\<close>); a line is logged from its level on, a namespace is matched as its pattern
  says, and the timer of a spinner runs exactly while it is shown (\<open>QaLogger\<close>).

  \<^bold>\<open>Arguments of the model\<close> are what the source does not define: \<open>fetch\<close> and the answers of devices
  and cloud, \<open>md5\<close>, base64, nonces and clocks, the text of the neighbour tables, the interfaces of the
  machine, \<open>localeCompare\<close> (a comparator with the laws of the locale \<open>collation\<close>, which the order by
  code units satisfies), the order of concurrent answers and the hosts a scan has asked when it ends, the values of the local storage, and what a
  command run by a scaffolder does to the files.

  \<^bold>\<open>Bounds and fuel.\<close> \<open>json_parse\<close> runs on as much fuel as the text has characters, of which every
  nested value consumes one; \<open>redirect_loop\<close> has the two attempts of the source; the loops over hosts
  are functions with a measure, and so are the search for a port, by the ports left, and those for a
  directory upwards and the reader of expressions, by the text left; the pools end by a measure on the jobs left. \<open>poll_until\<close> is a loop that may run
  for ever (\<open>partial_function\<close>), and it is shown to return as soon as its clock reaches the limit. Strings are lists of
  8-bit characters; where the source shows an ellipsis the two ends are kept as a pair. Numbers are
  exact rationals with \<open>NaN\<close> and the infinities, so rounding of doubles is left out; word arithmetic
  on addresses is on 32 bits.

  \<^bold>\<open>Not modelled\<close>: the markup and styles of the web and terminal views and the React contexts around the
  machines; the registration of the commands with \<open>clerc\<close>; the bundler; the files of
  \<open>packages/new/templates\<close> beside their scripts, which are copied as they are (the server with its
  control socket and the build script among them are copies of those modelled); the SQL of the
  telemetry store beyond the rows it reads and writes; console output but for the debug log of the
  login, whose secrecy is stated, and the lines of the logger.
\<close>

end
